(* ===== verification/NDP_Prelude.thy ===== *)
theory NDP_Prelude
  imports Main "HOL-Library.Word"
begin

text \<open>
  Shared vocabulary of the development: machine integers at the widths the simulator uses,
  the error values that stand for a failed \<^verbatim>\<open>assert\<close>, an exception or undefined behaviour,
  the error monad's bind, and the generic facts on lists, words and bounded counters that the
  component theories share.
\<close>

unbundle bit_operations_syntax

section \<open>Machine integers\<close>

type_synonym u8 = "8 word"
type_synonym u32 = "32 word"
type_synonym u64 = "64 word"

section \<open>Errors as values\<close>

text \<open>
  Every operation of the simulator that can abort is a function into \<open>'a res\<close>. A failed
  \<^verbatim>\<open>assert\<close> is \<open>Assert_Fail\<close> (with the asserted condition), a C++ exception is
  \<open>Runtime_Error\<close>, and the remaining constructors name the undefined behaviours the code can
  run into (front of an empty deque, division by zero, use of a pointer that is null or freed, an array
  index out of range).
\<close>

datatype error =
    Assert_Fail string
  | Runtime_Error string
  | Empty_Deque
  | Bad_Pointer
  | Out_Of_Range
  | Div_By_Zero

type_synonym 'a res = "error + 'a"

definition res_bind :: "'a res \<Rightarrow> ('a \<Rightarrow> 'b res) \<Rightarrow> 'b res" where
  "res_bind m f = (case m of Inl e \<Rightarrow> Inl e | Inr x \<Rightarrow> f x)"

definition assert_that :: "bool \<Rightarrow> string \<Rightarrow> unit res" where
  "assert_that b msg = (if b then Inr () else Inl (Assert_Fail msg))"

definition ok :: "'a res \<Rightarrow> bool" where
  "ok m = (case m of Inl _ \<Rightarrow> False | Inr _ \<Rightarrow> True)"

named_theorems res_simps "evaluation and inversion of the error monad"

lemma res_bind_Inl [simp]: "res_bind (Inl e) f = Inl e"
  by (simp add: res_bind_def)

lemma res_bind_Inr [simp]: "res_bind (Inr x) f = f x"
  by (simp add: res_bind_def)

lemma res_bind_eq_Inr [res_simps]:
  "res_bind m f = Inr y \<longleftrightarrow> (\<exists>x. m = Inr x \<and> f x = Inr y)"
  by (cases m) auto

lemma res_bind_eq_Inl [res_simps]:
  "res_bind m f = Inl e \<longleftrightarrow> m = Inl e \<or> (\<exists>x. m = Inr x \<and> f x = Inl e)"
  by (cases m) auto

lemma assert_that_True [simp]: "b \<Longrightarrow> assert_that b msg = Inr ()"
  by (simp add: assert_that_def)

lemma assert_that_False [simp]: "\<not> b \<Longrightarrow> assert_that b msg = Inl (Assert_Fail msg)"
  by (simp add: assert_that_def)

lemma assert_that_eq_Inr [res_simps]: "assert_that b msg = Inr u \<longleftrightarrow> b"
  by (simp add: assert_that_def)

lemma ok_simps [simp]: "ok (Inr x)" "\<not> ok (Inl e)"
  by (simp_all add: ok_def)

lemma ok_iff: "ok m \<longleftrightarrow> (\<exists>x. m = Inr x)"
  by (cases m) auto

lemma res_bind_cong [fundef_cong]:
  "m = m' \<Longrightarrow> (\<And>x. m' = Inr x \<Longrightarrow> f x = f' x) \<Longrightarrow> res_bind m f = res_bind m' f'"
  by (cases m') auto

text \<open>A loop over a list whose body may fail.\<close>

fun res_foldl :: "('s \<Rightarrow> 'a \<Rightarrow> 's res) \<Rightarrow> 's \<Rightarrow> 'a list \<Rightarrow> 's res" where
  "res_foldl f s [] = Inr s"
| "res_foldl f s (x # xs) = res_bind (f s x) (\<lambda>s'. res_foldl f s' xs)"

lemma res_foldl_invariant:
  assumes "P s" "\<And>s x. P s \<Longrightarrow> x \<in> set xs \<Longrightarrow> \<exists>s'. f s x = Inr s' \<and> P s'"
  shows "\<exists>s'. res_foldl f s xs = Inr s' \<and> P s'"
  using assms
proof (induction xs arbitrary: s)
  case (Cons x xs)
  obtain s' where "f s x = Inr s'" "P s'"
    using Cons.prems by force
  then show ?case
    using Cons.IH [of s'] Cons.prems(2) by auto
qed simp

lemma res_foldl_append:
  "res_foldl f s (xs @ ys) = res_bind (res_foldl f s xs) (\<lambda>s'. res_foldl f s' ys)"
  by (induction xs arbitrary: s) (auto simp: res_bind_def split: sum.splits)

section \<open>Words\<close>

text \<open>Truth values of C++ are the integers 0 and 1.\<close>

definition bool_int :: "bool \<Rightarrow> 'a::zero_neq_one" where
  "bool_int b = (if b then 1 else 0)"

text \<open>
  The word whose bits are a list, least significant first: what \<^verbatim>\<open>std::bitset::to_ulong\<close>
  returns.
\<close>

definition bits_word :: "bool list \<Rightarrow> 'a::len word" where
  "bits_word bs = horner_sum of_bool 2 bs"

lemma bit_bits_word:
  "bit (bits_word bs :: 'a::len word) n \<longleftrightarrow> n < LENGTH('a) \<and> n < length bs \<and> bs ! n"
  by (auto simp: bits_word_def bit_horner_sum_bit_word_iff)

lemma word_less_mask_iff_bits:
  fixes w :: "'a::len word"
  assumes "n \<le> LENGTH('a)"
  shows "(\<forall>i. bit w i \<longrightarrow> i < n) \<longleftrightarrow> unat w < 2 ^ n"
proof
  assume "\<forall>i. bit w i \<longrightarrow> i < n"
  then have "take_bit n w = w"
    by (intro bit_word_eqI) (auto simp: bit_take_bit_iff)
  then have "take_bit n (unat w) = unat w"
    by (metis unsigned_take_bit_eq)
  then show "unat w < 2 ^ n"
    by (metis take_bit_nat_less_exp)
next
  assume "unat w < 2 ^ n"
  then have "take_bit n (unat w) = unat w"
    by (simp add: take_bit_nat_eq_self)
  then have "take_bit n w = w"
    by (metis unsigned_take_bit_eq word_unat_eq_iff)
  then show "\<forall>i. bit w i \<longrightarrow> i < n"
    by (metis bit_take_bit_iff)
qed

lemma bits_word_less:
  assumes "length bs \<le> LENGTH('a::len)"
  shows "unat (bits_word bs :: 'a word) < 2 ^ length bs"
  using word_less_mask_iff_bits [of "length bs" "bits_word bs :: 'a word"] assms
  by (simp add: bit_bits_word)

lemma bits_word_inject:
  assumes "length bs = length cs" "length bs \<le> LENGTH('a::len)"
  shows "(bits_word bs :: 'a word) = bits_word cs \<longleftrightarrow> bs = cs"
proof
  assume eq: "(bits_word bs :: 'a word) = bits_word cs"
  have "bs ! i = cs ! i" if "i < length bs" for i
    using that assms eq bit_bits_word [of bs i, where ?'a = 'a]
      bit_bits_word [of cs i, where ?'a = 'a] by auto
  then show "bs = cs"
    using assms(1) by (simp add: list_eq_iff_nth_eq)
qed simp

lemma bits_word_eq_0:
  assumes "length bs \<le> LENGTH('a::len)"
  shows "(bits_word bs :: 'a word) = 0 \<longleftrightarrow> (\<forall>b\<in>set bs. \<not> b)"
proof -
  have "(0 :: 'a word) = bits_word (replicate (length bs) False)"
    by (intro bit_word_eqI) (simp add: bit_bits_word)
  then show ?thesis
    using bits_word_inject [of bs "replicate (length bs) False", where ?'a = 'a] assms
    by (auto simp: list_eq_iff_nth_eq in_set_conv_nth)
qed

lemma unat_pow2:
  assumes "n < LENGTH('a::len)"
  shows "unat (2 ^ n :: 'a word) = 2 ^ n"
  using assms
  by (metis mod_less of_nat_numeral of_nat_power one_less_numeral_iff power_strict_increasing
      semiring_norm(76) unat_of_nat)

lemma word_less_pow2_iff:
  fixes x :: "'a::len word"
  assumes "n < LENGTH('a)"
  shows "x < 2 ^ n \<longleftrightarrow> unat x < 2 ^ n"
  using assms by (simp add: word_less_nat_alt unat_pow2)

lemma xor_less_pow2:
  fixes x y :: "'a::len word"
  assumes "n \<le> LENGTH('a)" "unat x < 2 ^ n" "unat y < 2 ^ n"
  shows "unat (x XOR y) < 2 ^ n"
  using assms word_less_mask_iff_bits [of n x] word_less_mask_iff_bits [of n y]
    word_less_mask_iff_bits [of n "x XOR y"]
  by (auto simp: bit_xor_iff)

lemma word_eq_0_low_bits:
  fixes d :: "'a::len word"
  assumes "n \<le> LENGTH('a)" "unat d < 2 ^ n" "\<forall>i<n. \<not> bit d i"
  shows "d = 0"
  using assms word_less_mask_iff_bits [of n d] by (intro bit_word_eqI) (auto simp: not_less)

lemma xor_left_cancel [simp]: "a XOR x = a XOR y \<longleftrightarrow> x = (y :: 'a::len word)"
  by (metis xor.assoc xor.left_neutral xor_self_eq)

lemma word_eq_low_bits:
  fixes i j :: "'a::len word"
  assumes "n \<le> LENGTH('a)" "unat i < 2 ^ n" "unat j < 2 ^ n" "\<And>m. m < n \<Longrightarrow> bit i m = bit j m"
  shows "i = j"
  using assms word_less_mask_iff_bits [of n i] word_less_mask_iff_bits [of n j]
  by (intro bit_word_eqI) (metis not_less)

lemma unat_ucast_u64 [simp]: "unat (ucast (x :: u32) :: u64) = unat x"
proof -
  have "unat x < 2 ^ 32"
    using unsigned_less [of x] by simp
  then show ?thesis
    by (simp add: unsigned_ucast_eq take_bit_nat_eq_self)
qed

lemma ucast_u64_inject [simp]: "(ucast (x :: u32) :: u64) = ucast y \<longleftrightarrow> x = y"
  by (simp add: word_unat_eq_iff)

lemma unat_drop_bit: "unat (drop_bit n w) = unat w div 2 ^ n" for w :: "'a::len word"
  using unsigned_less [of w]
  by (simp add: unsigned_drop_bit_eq drop_bit_nat_def take_bit_nat_eq_self)

text \<open>Counters that are known not to wrap.\<close>

lemma unat_add_no_wrap:
  fixes m n :: "'a::len word"
  assumes "unat m + unat n < 2 ^ LENGTH('a)"
  shows "unat (m + n) = unat m + unat n"
  using assms by (simp add: unat_word_ariths)

lemma unat_succ_of_less:
  fixes m n :: "'a::len word"
  assumes "m < n"
  shows "unat (m + 1) = unat m + 1"
proof -
  have "unat m < unat n" "unat n < 2 ^ LENGTH('a)"
    using assms by (simp_all add: word_less_nat_alt)
  then have "unat m + 1 < 2 ^ LENGTH('a)"
    by linarith
  then show ?thesis
    using unat_add_no_wrap [of m 1] by simp
qed

lemma unat_pred_of_less:
  fixes m n :: "'a::len word"
  assumes "m < n"
  shows "unat (n - 1) = unat n - 1" "0 < unat n"
proof -
  have "n \<noteq> 0"
    using assms by auto
  then show "unat (n - 1) = unat n - 1" "0 < unat n"
    by (simp_all add: unat_minus_one unat_gt_0)
qed

section \<open>Lists\<close>

lemma list_update_same_nth [simp]: "i < length xs \<Longrightarrow> xs ! i = x \<Longrightarrow> xs[i := x] = xs"
  by auto

lemma butlast_replicate [simp]: "butlast (replicate n x) = replicate (n - 1) x"
  by (cases n) (simp_all add: butlast_append flip: replicate_append_same)

lemma distinct_append_singleton:
  "distinct (xs @ [x]) \<longleftrightarrow> distinct xs \<and> x \<notin> set xs"
  by auto

end
