(* ===== verification/Hashing.thy ===== *)
theory Hashing
  imports NDP_Prelude
begin

text \<open>
  The bank and channel hash functions of \<^verbatim>\<open>src/hashing.cc\<close>: IPOLY, bitwise XOR, PAE and the
  small 16-bank variant. A \<^verbatim>\<open>std::bitset<64>\<close> is the word itself, indexed with \<open>bit\<close>;
  a \<^verbatim>\<open>std::bitset<n>\<close> built from the index keeps its \<open>n\<close> low bits, which are the only ones
  read. The file ends with what makes such a function usable as a bank selector: its range, that it
  permutes the banks for fixed upper bits, and that IPOLY is conflict-free on power-of-two strides.
\<close>

section \<open>Model\<close>

text \<open>\<^verbatim>\<open>a[j1] ^ a[j2] ^ ...\<close> for the bits \<open>p\<close> of a bitset.\<close>

definition xor_at :: "(nat \<Rightarrow> bool) \<Rightarrow> nat list \<Rightarrow> bool" where
  "xor_at p js = foldr (\<lambda>j acc. p j \<noteq> acc) js False"

definition ipoly_16 :: "u64 \<Rightarrow> u32 \<Rightarrow> u32" where
  "ipoly_16 a b = bits_word
     [xor_at (bit a) [11, 10, 9, 8, 6, 4, 3, 0] \<noteq> bit b 0,
      xor_at (bit a) [12, 8, 7, 6, 5, 3, 1, 0] \<noteq> bit b 1,
      xor_at (bit a) [9, 8, 7, 6, 4, 2, 1] \<noteq> bit b 2,
      xor_at (bit a) [10, 9, 8, 7, 5, 3, 2] \<noteq> bit b 3]"

definition ipoly_32 :: "u64 \<Rightarrow> u32 \<Rightarrow> u32" where
  "ipoly_32 a b = bits_word
     [xor_at (bit a) [13, 12, 11, 10, 9, 6, 5, 3, 0] \<noteq> bit b 0,
      xor_at (bit a) [14, 13, 12, 11, 10, 7, 6, 4, 1] \<noteq> bit b 1,
      xor_at (bit a) [14, 10, 9, 8, 7, 6, 3, 2, 0] \<noteq> bit b 2,
      xor_at (bit a) [11, 10, 9, 8, 7, 4, 3, 1] \<noteq> bit b 3,
      xor_at (bit a) [12, 11, 10, 9, 8, 5, 4, 2] \<noteq> bit b 4]"

definition ipoly_64 :: "u64 \<Rightarrow> u32 \<Rightarrow> u32" where
  "ipoly_64 a b = bits_word
     [xor_at (bit a) [18, 17, 16, 15, 12, 10, 6, 5, 0] \<noteq> bit b 0,
      xor_at (bit a) [15, 13, 12, 11, 10, 7, 5, 1, 0] \<noteq> bit b 1,
      xor_at (bit a) [16, 14, 13, 12, 11, 8, 6, 2, 1] \<noteq> bit b 2,
      xor_at (bit a) [17, 15, 14, 13, 12, 9, 7, 3, 2] \<noteq> bit b 3,
      xor_at (bit a) [18, 16, 15, 14, 13, 10, 8, 4, 3] \<noteq> bit b 4,
      xor_at (bit a) [17, 16, 15, 14, 11, 9, 5, 4] \<noteq> bit b 5]"

definition ipoly_hash_function :: "u64 \<Rightarrow> u32 \<Rightarrow> u32 \<Rightarrow> u32 res" where
  "ipoly_hash_function higher_bits index bank_set_num =
     (if bank_set_num = 16 then Inr (ipoly_16 higher_bits index)
      else if bank_set_num = 32 then Inr (ipoly_32 higher_bits index)
      else if bank_set_num = 64 then Inr (ipoly_64 higher_bits index)
      else Inl (Assert_Fail ''memory_partition_indexing error''))"

text \<open>
  \<^verbatim>\<open>(index) ^ (higher_bits & (bank_set_num - 1))\<close>: the subtraction is on 32 bits, the
  conjunction and the exclusive or on 64, and the result is cut to 32 by the return type.
\<close>

definition bitwise_hash_function :: "u64 \<Rightarrow> u32 \<Rightarrow> u32 \<Rightarrow> u32" where
  "bitwise_hash_function higher_bits index bank_set_num =
     ucast ((ucast index :: u64) XOR (higher_bits AND ucast (bank_set_num - 1)))"

definition PAE_hash_function :: "u64 \<Rightarrow> u32 \<Rightarrow> u32 \<Rightarrow> u32 res" where
  "PAE_hash_function a b bank_set_num =
     (if bank_set_num = 32 then Inr (bits_word
        [xor_at (bit a) [13, 10, 9, 5, 0] \<noteq> xor_at (bit b) [3, 0, 0],
         xor_at (bit a) [12, 11, 6, 1] \<noteq> xor_at (bit b) [3, 2, 1, 1],
         xor_at (bit a) [14, 9, 8, 7, 2] \<noteq> xor_at (bit b) [1, 2],
         xor_at (bit a) [11, 10, 8, 3] \<noteq> xor_at (bit b) [2, 3, 3],
         xor_at (bit a) [12, 9, 8, 5, 4] \<noteq> xor_at (bit b) [1, 0, 4]])
      else Inl (Assert_Fail ''0''))"

definition mini_hash_function :: "u64 \<Rightarrow> u32 \<Rightarrow> u32 \<Rightarrow> u32 res" where
  "mini_hash_function a b bank_set_num =
     (if bank_set_num = 16 then Inr (bits_word
        [bit a 0 \<noteq> bit b 0, bit a 0 \<noteq> bit b 1, bit a 1 \<noteq> bit b 2, bit a 1 \<noteq> bit b 3])
      else Inl (Assert_Fail ''memory_partition_indexing error''))"

text \<open>
  A caller splits an address into the \<open>n\<close> low index bits and the bits above them. \<open>ipoly_line\<close> is
  the bank of line number \<open>x\<close> under that split.
\<close>

definition ipoly_line :: "nat \<Rightarrow> u64 \<Rightarrow> u32 res" where
  "ipoly_line n x = ipoly_hash_function (drop_bit n x) (ucast (take_bit n x)) (2 ^ n)"

section \<open>Linearity over GF(2)\<close>

lemma xor_at_simps [simp]: "xor_at p [] = False" "xor_at p (j # js) = (p j \<noteq> xor_at p js)"
  by (simp_all add: xor_at_def)

lemma xor_at_append: "xor_at p (js @ ks) = (xor_at p js \<noteq> xor_at p ks)"
  by (induction js) auto

lemma xor_at_xor:
  "xor_at (bit (a XOR a')) js = (xor_at (bit a) js \<noteq> xor_at (bit (a' :: 'a::len word)) js)"
  by (induction js) (auto simp: bit_xor_iff)

lemma bits_word_xor:
  assumes "length bs = length cs"
  shows "(bits_word bs XOR bits_word cs :: 'a::len word) = bits_word (map2 (\<noteq>) bs cs)"
  using assms by (intro bit_word_eqI) (auto simp: bit_xor_iff bit_bits_word)

text \<open>
  The three tables as lists of rows over the whole line number: row \<open>i\<close> lists the bits of the
  line number whose parity is bank bit \<open>i\<close>.
\<close>

definition ipoly_rows :: "nat \<Rightarrow> nat list list" where
  "ipoly_rows n =
     (if n = 4 then
       [[15, 14, 13, 12, 10, 8, 7, 4, 0], [16, 12, 11, 10, 9, 7, 5, 4, 1],
        [13, 12, 11, 10, 8, 6, 5, 2], [14, 13, 12, 11, 9, 7, 6, 3]]
      else if n = 5 then
       [[18, 17, 16, 15, 14, 11, 10, 8, 5, 0], [19, 18, 17, 16, 15, 12, 11, 9, 6, 1],
        [19, 15, 14, 13, 12, 11, 8, 7, 5, 2], [16, 15, 14, 13, 12, 9, 8, 6, 3],
        [17, 16, 15, 14, 13, 10, 9, 7, 4]]
      else
       [[24, 23, 22, 21, 18, 16, 12, 11, 6, 0], [21, 19, 18, 17, 16, 13, 11, 7, 6, 1],
        [22, 20, 19, 18, 17, 14, 12, 8, 7, 2], [23, 21, 20, 19, 18, 15, 13, 9, 8, 3],
        [24, 22, 21, 20, 19, 16, 14, 10, 9, 4], [23, 22, 21, 20, 17, 15, 11, 10, 5]])"

definition ipoly_bank :: "nat \<Rightarrow> u64 \<Rightarrow> u32" where
  "ipoly_bank n x = bits_word (map (xor_at (bit x)) (ipoly_rows n))"

lemma xor_at_drop_bit:
  "xor_at (bit (drop_bit n x)) js = xor_at (bit (x :: 'a::len word)) (map ((+) n) js)"
  by (induction js) (auto simp: bit_drop_bit_eq)

lemma xor_at_snoc: "(xor_at p js = (\<not> p i)) = xor_at p (js @ [i])"
  by (simp add: xor_at_append)

lemma bit_low_index: "i < n \<Longrightarrow> n \<le> 32 \<Longrightarrow> bit (ucast (take_bit n x) :: u32) i = bit (x :: u64) i"
  by (auto simp: bit_simps)

lemma ipoly_line_bank:
  assumes "n \<in> {4, 5, 6}"
  shows "ipoly_line n x = Inr (ipoly_bank n x)"
  using assms
  by (elim insertE emptyE)
     (simp_all add: ipoly_line_def ipoly_hash_function_def ipoly_16_def ipoly_32_def ipoly_64_def
       ipoly_bank_def ipoly_rows_def xor_at_drop_bit bit_low_index xor_at_snoc del: xor_at_simps)

lemma ipoly_bank_xor: "ipoly_bank n (x XOR y) = ipoly_bank n x XOR ipoly_bank n y"
proof -
  have "map (xor_at (bit (x XOR y))) rs = map2 (\<noteq>) (map (xor_at (bit x)) rs) (map (xor_at (bit y)) rs)"
    for rs
    by (induction rs) (simp_all add: xor_at_xor)
  then show ?thesis
    by (simp add: ipoly_bank_def bits_word_xor)
qed

lemma inj_on_of_trivial_kernel:
  fixes f :: "'a::len word \<Rightarrow> 'b::len word"
  assumes lin: "\<And>x y. f (x XOR y) = f x XOR f y"
    and sub: "\<And>x y. x \<in> S \<Longrightarrow> y \<in> S \<Longrightarrow> x XOR y \<in> S"
    and ker: "\<And>x. x \<in> S \<Longrightarrow> f x = 0 \<Longrightarrow> x = 0"
  shows "inj_on f S"
proof (rule inj_onI)
  fix x y assume "x \<in> S" "y \<in> S" "f x = f y"
  then have "f (x XOR y) = 0" "x XOR y \<in> S"
    by (simp_all add: lin sub)
  then have "x XOR y = 0"
    using ker by blast
  then show "x = y"
    by (metis xor.assoc xor.left_neutral xor_self_eq)
qed

section \<open>Power-of-two strides\<close>

text \<open>\<open>stride_bits k bs\<close>: the bits of a line number that is \<open>2 ^ k\<close> times a short number.\<close>

definition stride_bits :: "nat \<Rightarrow> bool list \<Rightarrow> nat \<Rightarrow> bool" where
  "stride_bits k bs j \<longleftrightarrow> k \<le> j \<and> j - k < length bs \<and> bs ! (j - k)"

lemma bit_push_bit_stride:
  fixes d :: u64
  assumes "unat d < 2 ^ n" "n + k \<le> 64"
  shows "bit (push_bit k d) = stride_bits k (map (bit d) [0..<n])"
  using assms word_less_mask_iff_bits [of n d]
  by (auto simp: fun_eq_iff stride_bits_def bit_simps)

lemma stride_kernel_16:
  assumes "k \<in> {0, 1, 2, 3, 4, 5, 6, 7, 8, 9, 10, 11, 12, 13}"
    and "\<forall>r\<in>set (ipoly_rows 4). \<not> xor_at (stride_bits k [b0, b1, b2, b3]) r"
  shows "\<not> b0 \<and> \<not> b1 \<and> \<not> b2 \<and> \<not> b3"
  using assms
  by (elim insertE emptyE; simp add: ipoly_rows_def stride_bits_def)
     sat+

lemma stride_kernel_32:
  assumes "k \<in> {0, 1, 2, 3, 4, 5, 6, 7, 8, 9, 10, 11, 12, 13, 14, 15}"
    and "\<forall>r\<in>set (ipoly_rows 5). \<not> xor_at (stride_bits k [b0, b1, b2, b3, b4]) r"
  shows "\<not> b0 \<and> \<not> b1 \<and> \<not> b2 \<and> \<not> b3 \<and> \<not> b4"
  using assms
  by (elim insertE emptyE; simp add: ipoly_rows_def stride_bits_def)
     sat+

lemma stride_kernel_64:
  assumes "k \<in> {0, 1, 2, 3, 4, 5, 6, 7, 8, 9, 10, 11, 12, 13, 14, 15, 16, 17, 18, 19}"
    and "\<forall>r\<in>set (ipoly_rows 6). \<not> xor_at (stride_bits k [b0, b1, b2, b3, b4, b5]) r"
  shows "\<not> b0 \<and> \<not> b1 \<and> \<not> b2 \<and> \<not> b3 \<and> \<not> b4 \<and> \<not> b5"
  using assms
  by (elim insertE emptyE; simp add: ipoly_rows_def stride_bits_def)
     sat+

text \<open>The largest stride for which all banks are still reached, by number of index bits.\<close>

definition stride_limit :: "nat \<Rightarrow> nat" where
  "stride_limit n = (if n = 4 then 14 else if n = 5 then 16 else 20)"

lemma ipoly_stride_kernel:
  fixes d :: u64
  assumes n: "n \<in> {4, 5, 6}" and k: "k < stride_limit n"
    and d: "unat d < 2 ^ n" and z: "ipoly_bank n (push_bit k d) = 0"
  shows "d = 0"
proof -
  have "n + k \<le> 64"
    using n k by (auto simp: stride_limit_def)
  then have rows: "\<forall>r\<in>set (ipoly_rows n). \<not> xor_at (stride_bits k (map (bit d) [0..<n])) r"
    using z n by (auto simp: ipoly_bank_def bits_word_eq_0 ipoly_rows_def
        bit_push_bit_stride [OF d] split: if_splits)
  have upt: "[0..<4] = [0, 1, 2, 3::nat]" "[0..<5] = [0, 1, 2, 3, 4::nat]"
    "[0..<6] = [0, 1, 2, 3, 4, 5::nat]"
    by (simp_all add: upt_rec)
  have below: "k < 14 \<Longrightarrow> k \<in> {0, 1, 2, 3, 4, 5, 6, 7, 8, 9, 10, 11, 12, 13}"
    "k < 16 \<Longrightarrow> k \<in> {0, 1, 2, 3, 4, 5, 6, 7, 8, 9, 10, 11, 12, 13, 14, 15}"
    "k < 20 \<Longrightarrow> k \<in> {0, 1, 2, 3, 4, 5, 6, 7, 8, 9, 10, 11, 12, 13, 14, 15, 16, 17, 18, 19}"
    by (simp_all, arith+)
  have "\<forall>i\<in>set [0..<n]. \<not> bit d i"
    using n k rows below stride_kernel_16 [of k "bit d 0" "bit d 1" "bit d 2" "bit d 3"]
      stride_kernel_32 [of k "bit d 0" "bit d 1" "bit d 2" "bit d 3" "bit d 4"]
      stride_kernel_64 [of k "bit d 0" "bit d 1" "bit d 2" "bit d 3" "bit d 4" "bit d 5"]
    by (elim insertE emptyE) (simp_all only: upt list.map stride_limit_def, simp_all)
  then show ?thesis
    using word_eq_0_low_bits [of n d] n d by auto
qed

section \<open>Permutations\<close>

lemma bij_betw_banks:
  fixes f :: "u32 \<Rightarrow> u32"
  assumes "\<And>i. unat (f i) < 2 ^ n"
    and "\<And>i j m. f i = f j \<Longrightarrow> m < n \<Longrightarrow> bit i m = bit j m"
    and "n \<le> 32"
  shows "bij_betw f {i. unat i < 2 ^ n} {i. unat i < 2 ^ n}"
proof -
  have "inj_on f {i. unat i < 2 ^ n}"
    using assms(2,3) by (auto intro!: inj_onI word_eq_low_bits [of n])
  moreover have "f ` {i. unat i < 2 ^ n} \<subseteq> {i. unat i < 2 ^ n}"
    using assms(1) by auto
  ultimately show ?thesis
    by (simp add: bij_betw_def endo_inj_surj)
qed

lemma ipoly_less: "unat (ipoly_16 a i) < 16" "unat (ipoly_32 a i) < 32" "unat (ipoly_64 a i) < 64"
  unfolding ipoly_16_def ipoly_32_def ipoly_64_def
  by (rule order.strict_trans2 [OF bits_word_less], simp_all)+

lemma ipoly_16_inject:
  assumes "ipoly_16 a i = ipoly_16 a j" "m < 4"
  shows "bit i m = bit j m"
proof -
  have "m = 0 \<or> m = 1 \<or> m = 2 \<or> m = 3"
    using assms(2) by arith
  then show ?thesis
    using arg_cong [OF assms(1), of "\<lambda>w. bit w m"]
    by (elim disjE) (simp_all add: ipoly_16_def bit_bits_word del: xor_at_simps, argo+)
qed

lemma ipoly_32_inject:
  assumes "ipoly_32 a i = ipoly_32 a j" "m < 5"
  shows "bit i m = bit j m"
proof -
  have "m = 0 \<or> m = 1 \<or> m = 2 \<or> m = 3 \<or> m = 4"
    using assms(2) by arith
  then show ?thesis
    using arg_cong [OF assms(1), of "\<lambda>w. bit w m"]
    by (elim disjE) (simp_all add: ipoly_32_def bit_bits_word del: xor_at_simps, argo+)
qed

lemma ipoly_64_inject:
  assumes "ipoly_64 a i = ipoly_64 a j" "m < 6"
  shows "bit i m = bit j m"
proof -
  have "m = 0 \<or> m = 1 \<or> m = 2 \<or> m = 3 \<or> m = 4 \<or> m = 5"
    using assms(2) by arith
  then show ?thesis
    using arg_cong [OF assms(1), of "\<lambda>w. bit w m"]
    by (elim disjE) (simp_all add: ipoly_64_def bit_bits_word del: xor_at_simps, argo+)
qed

section \<open>Properties\<close>

text \<open>
  For 16, 32 and 64 banks and any fixed upper address bits, IPOLY maps the bank index
  onto the banks one to one: no two lines of one row share a bank, and the result is a legal bank.
\<close>

theorem ipoly_permutes_banks:
  "(\<exists>f. (\<forall>i. ipoly_hash_function a i 16 = Inr (f i)) \<and>
      bij_betw f {i. unat i < 16} {i. unat i < 16}) \<and>
   (\<exists>f. (\<forall>i. ipoly_hash_function a i 32 = Inr (f i)) \<and>
      bij_betw f {i. unat i < 32} {i. unat i < 32}) \<and>
   (\<exists>f. (\<forall>i. ipoly_hash_function a i 64 = Inr (f i)) \<and>
      bij_betw f {i. unat i < 64} {i. unat i < 64})"
proof -
  have "bij_betw (ipoly_16 a) {i. unat i < 2 ^ 4} {i. unat i < 2 ^ 4}"
    by (rule bij_betw_banks) (simp_all add: ipoly_less, erule (1) ipoly_16_inject)
  moreover have "bij_betw (ipoly_32 a) {i. unat i < 2 ^ 5} {i. unat i < 2 ^ 5}"
    by (rule bij_betw_banks) (simp_all add: ipoly_less, erule (1) ipoly_32_inject)
  moreover have "bij_betw (ipoly_64 a) {i. unat i < 2 ^ 6} {i. unat i < 2 ^ 6}"
    by (rule bij_betw_banks) (simp_all add: ipoly_less, erule (1) ipoly_64_inject)
  moreover have "\<forall>i. ipoly_hash_function a i 16 = Inr (ipoly_16 a i)"
    "\<forall>i. ipoly_hash_function a i 32 = Inr (ipoly_32 a i)"
    "\<forall>i. ipoly_hash_function a i 64 = Inr (ipoly_64 a i)"
    by (simp_all add: ipoly_hash_function_def)
  ultimately show ?thesis
    by (intro conjI exI conjI) (assumption | simp)+
qed

text \<open>
  C35. The comment on IPOLY promises that it is conflict-free on all power-of-two strides. It is,
  as long as the strided window stays inside the bits the tables read: starting from any base line,
  the \<open>2 ^ n\<close> lines at stride \<open>2 ^ k\<close> (addressed by exclusive or) fall into pairwise different
  banks, for 16, 32 and 64 banks.
\<close>

theorem ipoly_conflict_free_strides:
  assumes "n \<in> {4, 5, 6}" "k < stride_limit n"
  shows "inj_on (\<lambda>i. ipoly_line n (base XOR push_bit k i)) {i. unat i < 2 ^ n}"
proof -
  have "inj_on (\<lambda>i. ipoly_bank n (push_bit k i)) {i. unat i < 2 ^ n}"
    using assms ipoly_stride_kernel [OF assms]
    by (intro inj_on_of_trivial_kernel)
       (auto simp: push_bit_xor ipoly_bank_xor intro!: xor_less_pow2)
  then show ?thesis
    using assms(1) by (auto simp: inj_on_def ipoly_line_bank ipoly_bank_xor)
qed

theorem ipoly_conflict_free_strides_witness:
  "inj_on (\<lambda>i. ipoly_line 5 (0x1234 XOR push_bit 7 i)) {i. unat i < 2 ^ 5}"
  by (rule ipoly_conflict_free_strides) (simp_all add: stride_limit_def)

text \<open>
  The PAE hash is not a permutation of the 32 banks: the repeated terms cancel, index bits 0
  and 4 only enter through their exclusive or, and indices 0 and 17 always collide. For fixed upper
  bits only 16 of the 32 banks can be selected.
\<close>

theorem PAE_collides:
  "PAE_hash_function a 0 32 = PAE_hash_function a 17 32 \<and>
   card ((\<lambda>i. PAE_hash_function a i 32) ` {i. unat i < 32}) \<le> 16"
proof
  have flip: "PAE_hash_function a (i XOR 17) 32 = PAE_hash_function a i 32" for i
    by (simp add: PAE_hash_function_def bit_simps)
  from flip [of 0] show "PAE_hash_function a 0 32 = PAE_hash_function a 17 32"
    by simp
  have "\<exists>j. unat j < 16 \<and> PAE_hash_function a i 32 = PAE_hash_function a j 32"
    if i: "unat i < 32" for i
  proof -
    define j where "j = (if bit i 4 then i XOR 17 else i)"
    have "m < 4" if "bit j m" for m
    proof -
      have "unat j < 2 ^ 5"
        using i xor_less_pow2 [of 5 i 17] by (simp add: j_def)
      then have "m < 5"
        using that word_less_mask_iff_bits [of 5 j] by simp
      moreover have "m \<noteq> 4"
        using that by (cases "bit i 4") (auto simp: j_def bit_simps)
      ultimately show ?thesis by simp
    qed
    then have "unat j < 16"
      using word_less_mask_iff_bits [of 4 j] by simp
    moreover have "PAE_hash_function a i 32 = PAE_hash_function a j 32"
      using flip [of i] by (simp add: j_def)
    ultimately show ?thesis by blast
  qed
  then have "(\<lambda>i. PAE_hash_function a i 32) ` {i. unat i < 32}
      \<subseteq> (\<lambda>i. PAE_hash_function a (of_nat i) 32) ` {..<16}"
    by (auto simp: image_iff) (metis lessThan_iff of_nat_unat ucast_id)
  then have "card ((\<lambda>i. PAE_hash_function a i 32) ` {i. unat i < 32}) \<le> card {..<16::nat}"
    by (rule surj_card_le [OF finite_lessThan])
  then show "card ((\<lambda>i. PAE_hash_function a i 32) ` {i. unat i < 32}) \<le> 16"
    by simp
qed

end
