(* ===== verification/Queue_Interface.thy ===== *)
theory Queue_Interface
  imports NDP_Prelude
begin

text \<open>
  The contract the simulator's three queue classes share: \<^verbatim>\<open>DelayQueue\<close>,
  \<^verbatim>\<open>fifo_pipeline\<close> and \<^verbatim>\<open>latency_queue\<close>. A client pushes, pops and lets time pass; an
  operation may fail, and then the run stops there. The contract says what a successful operation
  does to the list of waiting elements; first-in-first-out delivery of a whole run follows once for
  all three.
\<close>

text \<open>
  \<open>'p\<close> is what an operation takes beside the element: the delay of an entry, or the clock.
\<close>

datatype ('p, 'a) queue_op = Push 'p 'a | Pop 'p | Tick

text \<open>A run returns the elements popped, in order, and the final queue.\<close>

fun queue_run ::
  "('p \<Rightarrow> 'a \<Rightarrow> 'q \<Rightarrow> 'q res) \<Rightarrow> ('p \<Rightarrow> 'q \<Rightarrow> ('a \<times> 'q) res) \<Rightarrow> ('q \<Rightarrow> 'q) \<Rightarrow>
    ('p, 'a) queue_op list \<Rightarrow> 'q \<Rightarrow> ('a list \<times> 'q) res"
where
  "queue_run push pop tick [] q = Inr ([], q)"
| "queue_run push pop tick (Push p x # ops) q =
     res_bind (push p x q) (queue_run push pop tick ops)"
| "queue_run push pop tick (Pop p # ops) q =
     res_bind (pop p q) (\<lambda>(x, q').
       res_bind (queue_run push pop tick ops q') (\<lambda>(xs, q''). Inr (x # xs, q'')))"
| "queue_run push pop tick (Tick # ops) q = queue_run push pop tick ops (tick q)"

fun pushed :: "('p, 'a) queue_op list \<Rightarrow> 'a list" where
  "pushed [] = []"
| "pushed (Push p x # ops) = x # pushed ops"
| "pushed (Pop p # ops) = pushed ops"
| "pushed (Tick # ops) = pushed ops"

locale fifo_contract =
  fixes contents :: "'q \<Rightarrow> 'a list"
    and invar :: "'q \<Rightarrow> bool"
    and push :: "'p \<Rightarrow> 'a \<Rightarrow> 'q \<Rightarrow> 'q res"
    and pop :: "'p \<Rightarrow> 'q \<Rightarrow> ('a \<times> 'q) res"
    and tick :: "'q \<Rightarrow> 'q"
  assumes push_contents: "invar q \<Longrightarrow> push p x q = Inr q' \<Longrightarrow> contents q' = contents q @ [x]"
    and push_invar: "invar q \<Longrightarrow> push p x q = Inr q' \<Longrightarrow> invar q'"
    and pop_contents: "invar q \<Longrightarrow> pop p q = Inr (x, q') \<Longrightarrow> contents q = x # contents q'"
    and pop_invar: "invar q \<Longrightarrow> pop p q = Inr (x, q') \<Longrightarrow> invar q'"
    and tick_contents: "invar q \<Longrightarrow> contents (tick q) = contents q"
    and tick_invar: "invar q \<Longrightarrow> invar (tick q)"
begin

lemma run_fifo:
  assumes "invar q" "queue_run push pop tick ops q = Inr (xs, q')"
  shows "xs @ contents q' = contents q @ pushed ops \<and> invar q'"
  using assms
proof (induction ops arbitrary: q xs)
  case Nil
  then show ?case by simp
next
  case (Cons op ops)
  show ?case
  proof (cases op)
    case (Push p x)
    then obtain q1 where q1: "push p x q = Inr q1" "queue_run push pop tick ops q1 = Inr (xs, q')"
      using Cons.prems by (auto simp: res_simps)
    show ?thesis
      using Cons.IH [OF push_invar [OF Cons.prems(1) q1(1)] q1(2)]
        push_contents [OF Cons.prems(1) q1(1)] Push by simp
  next
    case (Pop p)
    then obtain x q1 ys where q1: "pop p q = Inr (x, q1)"
      "queue_run push pop tick ops q1 = Inr (ys, q')" and xs: "xs = x # ys"
      using Cons.prems by (auto simp: res_simps)
    show ?thesis
      using Cons.IH [OF pop_invar [OF Cons.prems(1) q1(1)] q1(2)]
        pop_contents [OF Cons.prems(1) q1(1)] Pop xs by simp
  next
    case Tick
    then show ?thesis
      using Cons.IH [of "tick q" xs] Cons.prems by (simp add: tick_contents tick_invar)
  qed
qed

lemma run_from_empty:
  assumes "invar q" "contents q = []" "queue_run push pop tick ops q = Inr (xs, q')"
  shows "pushed ops = xs @ contents q'"
  using run_fifo [OF assms(1,3)] assms(2) by auto

end

end
