(* ===== verification/Delay_Queue.thy ===== *)
theory Delay_Queue
  imports Queue_Interface
begin

text \<open>
  \<^verbatim>\<open>src/delay_queue.h\<close> and \<^verbatim>\<open>src/delay_queue.cc\<close>: the latency queue between pipeline stages.
  An entry carries the cycle at which it becomes visible; the queue is in order, so an entry also
  waits for those before it. In issue mode (\<open>dq_only_latency\<close> off) a push blocks further pushes
  for an initiation interval. \<^verbatim>\<open>int\<close> fields are integers; the cycle counter is a 64-bit word,
  and a delay is added to it after sign extension.
\<close>

section \<open>Model\<close>

record 'a delay_queue =
  dq_name :: string
  dq_interval :: int
  dq_cycle :: u64
  dq_size :: int
  dq_max_size :: int
  dq_issued :: bool
  dq_only_latency :: bool
  dq_queue :: "('a \<times> u64) list"

definition new_delay_queue :: "string \<Rightarrow> bool \<Rightarrow> int \<Rightarrow> 'a delay_queue" where
  "new_delay_queue name only_latency max_size =
     \<lparr>dq_name = name, dq_interval = 0, dq_cycle = 0, dq_size = 0, dq_max_size = max_size,
      dq_issued = False, dq_only_latency = only_latency, dq_queue = []\<rparr>"

definition dq_push :: "'a \<Rightarrow> int \<Rightarrow> 'a delay_queue \<Rightarrow> 'a delay_queue res" where
  "dq_push data delay q =
     (if dq_only_latency q then
        Inr (q\<lparr>dq_size := dq_size q + 1,
               dq_queue := dq_queue q @ [(data, dq_cycle q + word_of_int delay)]\<rparr>)
      else Inl (Assert_Fail ''m_only_latency''))"

definition dq_push_interval ::
  "'a \<Rightarrow> int \<Rightarrow> int \<Rightarrow> 'a delay_queue \<Rightarrow> 'a delay_queue res" where
  "dq_push_interval data delay interval q =
     (if dq_issued q then Inl (Assert_Fail ''m_issued == false'')
      else Inr (q\<lparr>dq_size := dq_size q + 1,
                  dq_queue := dq_queue q @ [(data, dq_cycle q + word_of_int delay)],
                  dq_issued := (if dq_only_latency q then dq_issued q else True),
                  dq_interval := interval\<rparr>))"

definition dq_empty :: "'a delay_queue \<Rightarrow> bool" where
  "dq_empty q = (case dq_queue q of [] \<Rightarrow> True | (x, t) # _ \<Rightarrow> dq_cycle q < t)"

definition dq_queue_empty :: "'a delay_queue \<Rightarrow> bool" where
  "dq_queue_empty q = (dq_queue q = [])"

definition dq_top :: "'a delay_queue \<Rightarrow> 'a res" where
  "dq_top q =
     (if dq_empty q then Inl (Assert_Fail ''!empty()'')
      else case dq_queue q of [] \<Rightarrow> Inl Empty_Deque | (x, _) # _ \<Rightarrow> Inr x)"

definition dq_pop :: "'a delay_queue \<Rightarrow> 'a delay_queue res" where
  "dq_pop q =
     (if dq_empty q then Inl (Assert_Fail ''!empty()'')
      else Inr (q\<lparr>dq_queue := tl (dq_queue q), dq_size := dq_size q - 1\<rparr>))"

definition dq_full :: "'a delay_queue \<Rightarrow> bool" where
  "dq_full q = (dq_issued q \<or> (0 < dq_max_size q \<and> dq_max_size q \<le> dq_size q))"

definition dq_tick :: "'a delay_queue \<Rightarrow> 'a delay_queue" where
  "dq_tick q =
     (let i = (if 0 < dq_interval q then dq_interval q - 1 else dq_interval q)
      in q\<lparr>dq_interval := i, dq_issued := (if i \<le> 0 then False else dq_issued q),
           dq_cycle := dq_cycle q + 1\<rparr>)"

text \<open>What every consumer does: read the top, then pop.\<close>

definition dq_take :: "'a delay_queue \<Rightarrow> ('a \<times> 'a delay_queue) res" where
  "dq_take q = res_bind (dq_top q) (\<lambda>x. res_bind (dq_pop q) (\<lambda>q'. Inr (x, q')))"

section \<open>Invariant and the queue contract\<close>

definition dq_inv :: "'a delay_queue \<Rightarrow> bool" where
  "dq_inv q \<longleftrightarrow> dq_size q = int (length (dq_queue q))"

definition dq_contents :: "'a delay_queue \<Rightarrow> 'a list" where
  "dq_contents q = map fst (dq_queue q)"

lemmas dq_defs =
  dq_push_def dq_push_interval_def dq_top_def dq_pop_def dq_full_def dq_tick_def dq_take_def

lemma dq_inv_new [simp]: "dq_inv (new_delay_queue nm l m)"
  by (simp add: dq_inv_def new_delay_queue_def)

lemma dq_inv_push:
  "dq_inv q \<Longrightarrow> dq_push x d q = Inr q' \<Longrightarrow> dq_inv q'"
  "dq_inv q \<Longrightarrow> dq_push_interval x d i q = Inr q' \<Longrightarrow> dq_inv q'"
  by (auto simp: dq_inv_def dq_defs split: if_splits)

lemma dq_take_eq_Inr:
  "dq_take q = Inr (x, q') \<longleftrightarrow>
     (\<exists>t rest. dq_queue q = (x, t) # rest \<and> t \<le> dq_cycle q \<and>
        q' = q\<lparr>dq_queue := rest, dq_size := dq_size q - 1\<rparr>)"
  by (auto simp: dq_take_def dq_top_def dq_pop_def dq_empty_def split: list.splits prod.splits)

lemma dq_tick_queue [simp]:
  "dq_queue (dq_tick q) = dq_queue q" "dq_size (dq_tick q) = dq_size q"
  "dq_max_size (dq_tick q) = dq_max_size q" "dq_cycle (dq_tick q) = dq_cycle q + 1"
  "dq_only_latency (dq_tick q) = dq_only_latency q"
  by (simp_all add: dq_tick_def Let_def)

lemma dq_ticks_queue [simp]:
  "dq_queue ((dq_tick ^^ n) q) = dq_queue q" "dq_size ((dq_tick ^^ n) q) = dq_size q"
  "dq_cycle ((dq_tick ^^ n) q) = dq_cycle q + of_nat n"
  by (induction n) (simp_all add: algebra_simps)

text \<open>The two overloads of \<^verbatim>\<open>push\<close>, told apart by the optional initiation interval.\<close>

definition dq_push_any :: "int \<times> int option \<Rightarrow> 'a \<Rightarrow> 'a delay_queue \<Rightarrow> 'a delay_queue res" where
  "dq_push_any p x q =
     (case p of (d, None) \<Rightarrow> dq_push x d q | (d, Some i) \<Rightarrow> dq_push_interval x d i q)"

interpretation delay_fifo:
  fifo_contract dq_contents dq_inv dq_push_any "\<lambda>_. dq_take" dq_tick
proof
  fix q :: "'a delay_queue" and q' p x
  assume q: "dq_inv q"
  show "dq_contents q' = dq_contents q @ [x]" if "dq_push_any p x q = Inr q'"
    using that by (auto simp: dq_push_any_def dq_contents_def dq_push_def dq_push_interval_def
        split: prod.splits option.splits if_splits)
  show "dq_inv q'" if "dq_push_any p x q = Inr q'"
    using that q by (auto simp: dq_push_any_def dest: dq_inv_push split: prod.splits option.splits)
  show "dq_contents q = x # dq_contents q'" if "dq_take q = Inr (x, q')"
    using that by (auto simp: dq_take_eq_Inr dq_contents_def)
  show "dq_inv q'" if "dq_take q = Inr (x, q')"
    using that q by (auto simp: dq_take_eq_Inr dq_inv_def)
  show "dq_contents (dq_tick q) = dq_contents q"
    by (simp add: dq_contents_def)
  show "dq_inv (dq_tick q)"
    using q by (simp add: dq_inv_def)
qed

section \<open>Timing\<close>

text \<open>An entry alone in the queue is visible exactly from its finish cycle on.\<close>

lemma dq_empty_ticks:
  assumes "dq_queue q = (x, t) # rest" "unat (dq_cycle q) + n < 2 ^ 64"
  shows "dq_empty ((dq_tick ^^ n) q) \<longleftrightarrow> unat (dq_cycle q) + n < unat t"
proof -
  have "unat (dq_cycle q + of_nat n) = unat (dq_cycle q) + n"
    using assms(2) by (simp add: unat_word_ariths unat_of_nat)
  then show ?thesis
    using assms(1) by (simp add: dq_empty_def word_less_nat_alt)
qed

lemma dq_issued_ticks:
  assumes "dq_issued q"
  shows "dq_issued ((dq_tick ^^ n) q) \<longleftrightarrow> n = 0 \<or> int n < dq_interval q"
    and "0 < n \<Longrightarrow> dq_interval ((dq_tick ^^ n) q) = (if 0 \<le> dq_interval q then max 0 (dq_interval q - int n) else dq_interval q)"
proof (induction n)
  case (Suc n)
  case 1
  show ?case
    using Suc assms by (cases n) (auto simp: dq_tick_def Let_def)
  case 2
  show ?case
    using Suc assms by (cases n) (auto simp: dq_tick_def Let_def)
qed (use assms in auto)

section \<open>Properties\<close>

text \<open>
  C32. Whatever a client does with a fresh delay queue (pushes with any delays and intervals, pops,
  cycles), the elements popped so far followed by those still waiting are exactly the elements
  pushed, in order: nothing is lost, duplicated or reordered, even if a later entry has a shorter delay.
\<close>

theorem delay_queue_fifo:
  assumes "queue_run dq_push_any (\<lambda>_. dq_take) dq_tick ops (new_delay_queue nm l m) = Inr (xs, q)"
  shows "pushed ops = xs @ dq_contents q \<and> dq_size q = int (length (pushed ops) - length xs)"
proof -
  have "pushed ops = xs @ dq_contents q" "dq_inv q"
    using delay_fifo.run_fifo [OF dq_inv_new assms]
    by (simp_all add: dq_contents_def new_delay_queue_def)
  then show ?thesis
    by (simp add: dq_inv_def dq_contents_def)
qed

theorem delay_queue_fifo_witness:
  "pushed [Push (2, None) (7::nat), Tick, Push (0, None) 8, Tick, Pop (0, None)] = [7, 8] \<and>
   dq_size (snd (projr (queue_run dq_push_any (\<lambda>_. dq_take) dq_tick
     [Push (2, None) (7::nat), Tick, Push (0, None) 8, Tick, Pop (0, None)]
     (new_delay_queue ''q'' True 4)))) = 1"
  using delay_queue_fifo [of "[Push (2, None) (7::nat), Tick, Push (0, None) 8, Tick, Pop (0, None)]"
      "''q''" True 4 "[7]"
      "\<lparr>dq_name = ''q'', dq_interval = 0, dq_cycle = 2, dq_size = 1, dq_max_size = 4,
        dq_issued = False, dq_only_latency = True, dq_queue = [(8, 1)]\<rparr>"]
  by (simp add: dq_push_any_def dq_push_def dq_take_def dq_top_def dq_pop_def dq_empty_def
      dq_tick_def new_delay_queue_def)

text \<open>
  Delivery time: an entry pushed with delay \<open>d\<close> into a queue with nothing waiting stays
  invisible for the next cycles before \<open>d\<close> and is at the top from cycle \<open>d\<close> on, as long as the
  64-bit cycle counter does not wrap.
\<close>

theorem delay_queue_latency:
  assumes "dq_queue q = []" "dq_push x (int d) q = Inr q'" "unat (dq_cycle q) + d + n < 2 ^ 64"
  shows "(n < d \<longrightarrow> dq_empty ((dq_tick ^^ n) q')) \<and>
    (d \<le> n \<longrightarrow> dq_top ((dq_tick ^^ n) q') = Inr x)"
proof -
  have t: "unat (dq_cycle q + of_nat d) = unat (dq_cycle q) + d"
    using assms(3) by (simp add: unat_word_ariths unat_of_nat)
  have q': "dq_queue q' = [(x, dq_cycle q + of_nat d)]" "dq_cycle q' = dq_cycle q"
    using assms(1,2) by (auto simp: dq_push_def split: if_splits)
  have "dq_empty ((dq_tick ^^ n) q') \<longleftrightarrow> n < d"
    using dq_empty_ticks [OF q'(1), of n] assms(3) q'(2) t by simp
  then show ?thesis
    using q'(1) by (auto simp: dq_top_def)
qed

theorem delay_queue_latency_witness:
  "dq_empty ((dq_tick ^^ 2) (projr (dq_push True 3 (new_delay_queue ''q'' True 4)))) \<and>
   dq_top ((dq_tick ^^ 3) (projr (dq_push True 3 (new_delay_queue ''q'' True 4)))) = Inr True"
  using delay_queue_latency [of "new_delay_queue ''q'' True 4" True 3
      "projr (dq_push True 3 (new_delay_queue ''q'' True 4))" 2]
    delay_queue_latency [of "new_delay_queue ''q'' True 4" True 3
      "projr (dq_push True 3 (new_delay_queue ''q'' True 4))" 3]
  by (simp add: new_delay_queue_def dq_push_def)

text \<open>
  Admission: a push with initiation interval \<open>i\<close> into a queue in issue mode makes the queue
  report full for exactly \<open>max 1 i\<close> cycles (when the size limit does not), and a client that
  checks \<^verbatim>\<open>full()\<close> before it pushes never exceeds a positive size limit.
\<close>

theorem delay_queue_admission:
  assumes "dq_inv q" "\<not> dq_full q" "dq_push_interval x d i q = Inr q'"
  shows "(\<not> dq_only_latency q \<and> dq_max_size q \<le> 0 \<longrightarrow>
      (dq_full ((dq_tick ^^ n) q') \<longleftrightarrow> int n < max 1 i)) \<and>
    (0 < dq_max_size q \<longrightarrow> int (length (dq_queue q')) \<le> dq_max_size q')"
proof -
  have q': "dq_size q' = dq_size q + 1" "dq_interval q' = i" "dq_max_size q' = dq_max_size q"
    "\<not> dq_only_latency q \<longrightarrow> dq_issued q'" "length (dq_queue q') = Suc (length (dq_queue q))"
    using assms(3) by (auto simp: dq_push_interval_def split: if_splits)
  have m: "dq_max_size ((dq_tick ^^ n) q') = dq_max_size q'"
    by (induction n) simp_all
  show ?thesis
    using q' m dq_issued_ticks(1) [of q' n] assms(1,2) by (auto simp: dq_full_def dq_inv_def)
qed

theorem delay_queue_admission_witness:
  "dq_full ((dq_tick ^^ 1) (projr (dq_push_interval True 1 2 (new_delay_queue ''q'' False (-1))))) \<and>
   \<not> dq_full ((dq_tick ^^ 2) (projr (dq_push_interval True 1 2 (new_delay_queue ''q'' False (-1)))))"
  using delay_queue_admission [of "new_delay_queue ''q'' False (-1)" True 1 2
      "projr (dq_push_interval True 1 2 (new_delay_queue ''q'' False (-1)))" 1]
    delay_queue_admission [of "new_delay_queue ''q'' False (-1)" True 1 2
      "projr (dq_push_interval True 1 2 (new_delay_queue ''q'' False (-1)))" 2]
  by (simp add: dq_full_def dq_inv_def new_delay_queue_def dq_push_interval_def)

end
