(* ===== verification/Fifo_Pipeline.thy ===== *)
theory Fifo_Pipeline
  imports Queue_Interface
begin

text \<open>
  \<^verbatim>\<open>src/delayqueue.h\<close>: the bounded pipe between components. The chain of \<^verbatim>\<open>fifo_data\<close> nodes
  from \<^verbatim>\<open>m_head\<close> to \<^verbatim>\<open>m_tail\<close> is the list of their \<^verbatim>\<open>m_data\<close> pointers, \<open>None\<close> for a
  null pointer; an empty list is a null head. \<^verbatim>\<open>m_length\<close> and \<^verbatim>\<open>m_n_element\<close> are kept as the
  code keeps them, as 32-bit counters. A pipe with a minimum length delays its elements by filling
  itself with null nodes.
\<close>

section \<open>Model\<close>

record 'a fifo_pipeline =
  fp_name :: string
  fp_min_len :: u32
  fp_max_len :: u32
  fp_length :: u32
  fp_n_element :: u32
  fp_cells :: "'a option list"

definition fp_full :: "'a fifo_pipeline \<Rightarrow> bool" where
  "fp_full f = (fp_max_len f \<noteq> 0 \<and> fp_max_len f \<le> fp_length f)"

definition is_avilable_size :: "u32 \<Rightarrow> 'a fifo_pipeline \<Rightarrow> bool" where
  "is_avilable_size sz f = (fp_max_len f \<noteq> 0 \<and> fp_max_len f \<le> fp_length f + sz - 1)"

definition fp_empty :: "'a fifo_pipeline \<Rightarrow> bool" where
  "fp_empty f = (fp_cells f = [])"

definition fp_push :: "'a option \<Rightarrow> 'a fifo_pipeline \<Rightarrow> 'a fifo_pipeline res" where
  "fp_push data f =
     (if fp_full f then Inl (Assert_Fail ''!full()'')
      else if \<not> fp_length f < fp_max_len f then Inl (Assert_Fail ''m_length < m_max_len'')
      else if fp_cells f \<noteq> [] then
        (if last (fp_cells f) \<noteq> None \<or> fp_length f < fp_min_len f then
           Inr (f\<lparr>fp_cells := fp_cells f @ [data], fp_length := fp_length f + 1,
                  fp_n_element := fp_n_element f + 1\<rparr>)
         else Inr (f\<lparr>fp_cells := butlast (fp_cells f) @ [data]\<rparr>))
      else Inr (f\<lparr>fp_cells := [data], fp_length := fp_length f + 1,
                  fp_n_element := fp_n_element f + 1\<rparr>))"

fun fp_push_nulls :: "nat \<Rightarrow> 'a fifo_pipeline \<Rightarrow> 'a fifo_pipeline res" where
  "fp_push_nulls 0 f = Inr f"
| "fp_push_nulls (Suc n) f = res_bind (fp_push None f) (fp_push_nulls n)"

definition new_fifo_pipeline :: "string \<Rightarrow> u32 \<Rightarrow> u32 \<Rightarrow> 'a fifo_pipeline res" where
  "new_fifo_pipeline nm minlen maxlen =
     (if maxlen = 0 then Inl (Assert_Fail ''maxlen'')
      else fp_push_nulls (unat minlen)
        \<lparr>fp_name = nm, fp_min_len = minlen, fp_max_len = maxlen, fp_length = 0,
         fp_n_element = 0, fp_cells = []\<rparr>)"

definition fp_top :: "'a fifo_pipeline \<Rightarrow> 'a option" where
  "fp_top f = (case fp_cells f of [] \<Rightarrow> None | d # _ \<Rightarrow> d)"

definition fp_pop :: "'a fifo_pipeline \<Rightarrow> ('a option \<times> 'a fifo_pipeline) res" where
  "fp_pop f =
     (case fp_cells f of
        [] \<Rightarrow> Inr (None, f)
      | d # rest \<Rightarrow>
          let f1 = f\<lparr>fp_cells := rest, fp_length := fp_length f - 1\<rparr> in
          if fp_length f1 = 0 \<and> rest \<noteq> [] then Inl (Assert_Fail ''m_head == NULL'')
          else
            let f2 = f1\<lparr>fp_n_element := fp_n_element f1 - 1\<rparr> in
            if fp_min_len f2 \<noteq> 0 \<and> fp_length f2 < fp_min_len f2 then
              res_bind (fp_push None f2)
                (\<lambda>f3. Inr (d, f3\<lparr>fp_n_element := fp_n_element f3 - 1\<rparr>))
            else Inr (d, f2))"

text \<open>\<^verbatim>\<open>set_min_length\<close>: the growing loop, the shrinking loop, and the dispatch.\<close>

lemma fp_push_frame:
  assumes "fp_push d f = Inr f'"
  shows "fp_min_len f' = fp_min_len f" "fp_max_len f' = fp_max_len f" "fp_name f' = fp_name f"
  using assms by (auto simp: fp_push_def split: if_splits)

lemma fp_push_below_min:
  assumes "fp_push d f = Inr f'" "fp_length f < fp_min_len f"
  shows "fp_length f' = fp_length f + 1" "fp_cells f' = fp_cells f @ [d]"
  using assms by (auto simp: fp_push_def split: if_splits)

function fp_grow :: "'a fifo_pipeline \<Rightarrow> 'a fifo_pipeline res" where
  "fp_grow f =
     (if fp_length f < fp_min_len f then
        res_bind (fp_push None f) (\<lambda>f'. fp_grow (f'\<lparr>fp_n_element := fp_n_element f' - 1\<rparr>))
      else Inr f)"
  by pat_completeness auto
termination
proof (relation "measure (\<lambda>f. unat (fp_min_len f) - unat (fp_length f))", simp, goal_cases)
  case (1 f f')
  have "unat (fp_length f + 1) = unat (fp_length f) + 1"
    using 1(1) by (rule unat_succ_of_less)
  moreover have "unat (fp_length f) < unat (fp_min_len f)"
    using 1(1) by (simp add: word_less_nat_alt)
  ultimately show ?case
    using 1 fp_push_below_min(1) [OF 1(2)] fp_push_frame(1) [OF 1(2)] by simp
qed

declare fp_grow.simps [simp del]

lemma fp_pop_above_min:
  assumes "fp_pop f = Inr (x, f')" "fp_min_len f < fp_length f" "fp_cells f \<noteq> []"
  shows "fp_length f' = fp_length f - 1" "fp_min_len f' = fp_min_len f"
    "fp_cells f' = tl (fp_cells f)"
proof -
  have "\<not> fp_length f - 1 < fp_min_len f"
    using assms(2) unat_pred_of_less [OF assms(2)] by (simp add: word_less_nat_alt)
  with assms show "fp_length f' = fp_length f - 1" "fp_min_len f' = fp_min_len f"
    "fp_cells f' = tl (fp_cells f)"
    by (auto simp: fp_pop_def Let_def split: list.splits if_splits)
qed

function fp_shrink :: "'a fifo_pipeline \<Rightarrow> 'a fifo_pipeline res" where
  "fp_shrink f =
     (if fp_min_len f < fp_length f then
        if fp_cells f = [] then Inl Bad_Pointer
        else if last (fp_cells f) = None then
          (if length (fp_cells f) = 1 then
             res_bind (fp_pop f) (\<lambda>(d, f'). fp_shrink f')
           else fp_shrink (f\<lparr>fp_cells := butlast (fp_cells f), fp_length := fp_length f - 1\<rparr>))
        else Inr f
      else Inr f)"
  by pat_completeness auto
termination
  by (relation "measure (\<lambda>f. unat (fp_length f))")
     (auto simp: unat_pred_of_less dest: fp_pop_above_min(1))

declare fp_shrink.simps [simp del]

definition set_min_length :: "u32 \<Rightarrow> 'a fifo_pipeline \<Rightarrow> 'a fifo_pipeline res" where
  "set_min_length new_min_len f =
     (if new_min_len = fp_min_len f then Inr f
      else if fp_min_len f < new_min_len then fp_grow (f\<lparr>fp_min_len := new_min_len\<rparr>)
      else if fp_cells f = [] then Inl (Assert_Fail ''m_head'')
      else fp_shrink (f\<lparr>fp_min_len := new_min_len\<rparr>))"

section \<open>Invariant and the queue contract\<close>

text \<open>What a consumer does that dereferences the popped pointer.\<close>

definition fp_take :: "'a fifo_pipeline \<Rightarrow> ('a \<times> 'a fifo_pipeline) res" where
  "fp_take f = res_bind (fp_pop f)
     (\<lambda>(d, f'). case d of None \<Rightarrow> Inl Bad_Pointer | Some x \<Rightarrow> Inr (x, f'))"

definition fp_inv :: "'a fifo_pipeline \<Rightarrow> bool" where
  "fp_inv f \<longleftrightarrow> fp_max_len f \<noteq> 0 \<and> unat (fp_length f) = length (fp_cells f) \<and>
     length (fp_cells f) \<le> unat (fp_max_len f)"

text \<open>The pipes the simulator builds have minimum length 0 and only carry real elements.\<close>

definition fp_plain :: "'a fifo_pipeline \<Rightarrow> bool" where
  "fp_plain f \<longleftrightarrow> fp_inv f \<and> fp_min_len f = 0 \<and> None \<notin> set (fp_cells f) \<and>
     fp_n_element f = fp_length f"

definition fp_data :: "'a fifo_pipeline \<Rightarrow> 'a list" where
  "fp_data f = map the (filter (\<lambda>d. d \<noteq> None) (fp_cells f))"

lemma fp_length_0_iff: "fp_inv f \<Longrightarrow> fp_length f = 0 \<longleftrightarrow> fp_cells f = []"
  by (metis fp_inv_def length_0_conv unat_eq_zero)

lemma fp_push_inv:
  assumes "fp_inv f" "fp_push d f = Inr f'"
  shows "fp_inv f'"
proof -
  have "fp_length f < fp_max_len f"
    using assms(2) by (auto simp: fp_push_def split: if_splits)
  then have "unat (fp_length f + 1) = unat (fp_length f) + 1"
    "unat (fp_length f) < unat (fp_max_len f)"
    by (auto simp: unat_succ_of_less word_less_nat_alt)
  then show ?thesis
    using assms by (auto simp: fp_push_def fp_inv_def split: if_splits)
qed

lemma fp_pop_inv:
  assumes "fp_inv f" "fp_pop f = Inr (d, f')"
  shows "fp_inv f'"
proof (cases "fp_cells f")
  case Nil
  with assms show ?thesis by (simp add: fp_pop_def)
next
  case (Cons c cs)
  have "fp_length f \<noteq> 0"
    using Cons fp_length_0_iff [OF assms(1)] by simp
  then have "unat (fp_length f - 1) = unat (fp_length f) - 1"
    by (simp add: unat_minus_one)
  then have "fp_inv (f\<lparr>fp_cells := cs, fp_length := fp_length f - 1, fp_n_element := n\<rparr>)" for n
    using assms(1) Cons by (auto simp: fp_inv_def)
  moreover have n: "fp_inv (g\<lparr>fp_n_element := n\<rparr>) = fp_inv g" for g :: "'a fifo_pipeline" and n
    by (simp add: fp_inv_def)
  moreover note fp_push_inv [OF calculation(1)]
  ultimately show ?thesis
    using assms(2) Cons by (auto simp: fp_pop_def Let_def res_simps simp del: n split: if_splits)
qed

lemma fp_push_total: "fp_length f < fp_max_len f \<Longrightarrow> \<exists>f'. fp_push d f = Inr f'"
  by (simp add: fp_push_def fp_full_def not_le)

lemma fp_push_plain:
  assumes "fp_plain f" "fp_push (Some x) f = Inr f'"
  shows "fp_plain f'" "fp_data f' = fp_data f @ [x]"
proof -
  have "last (fp_cells f) \<noteq> None \<or> fp_cells f = []"
    using assms(1) last_in_set [of "fp_cells f"] by (metis fp_plain_def)
  then have "f' = f\<lparr>fp_cells := fp_cells f @ [Some x], fp_length := fp_length f + 1,
      fp_n_element := fp_n_element f + 1\<rparr>"
    using assms(2) by (auto simp: fp_push_def split: if_splits)
  then show "fp_plain f'" "fp_data f' = fp_data f @ [x]"
    using assms fp_push_inv [OF _ assms(2)] by (auto simp: fp_plain_def fp_data_def)
qed

lemma fp_take_plain:
  assumes "fp_plain f" "fp_take f = Inr (x, f')"
  shows "fp_plain f'" "fp_data f = x # fp_data f'"
proof -
  obtain cs where "fp_cells f = Some x # cs"
    and f': "fp_pop f = Inr (Some x, f')"
    using assms by (auto simp: fp_take_def fp_pop_def fp_plain_def Let_def res_simps
        split: list.splits option.splits if_splits)
  moreover have "f' = f\<lparr>fp_cells := cs, fp_length := fp_length f - 1,
      fp_n_element := fp_n_element f - 1\<rparr>"
    using calculation assms(1) by (auto simp: fp_pop_def fp_plain_def Let_def split: if_splits)
  ultimately show "fp_plain f'" "fp_data f = x # fp_data f'"
    using assms(1) fp_pop_inv [OF _ f'] by (auto simp: fp_plain_def fp_data_def)
qed

interpretation pipe_fifo:
  fifo_contract fp_data fp_plain "\<lambda>_ x. fp_push (Some x)" "\<lambda>_. fp_take" "\<lambda>f. f"
  by unfold_locales (auto dest: fp_push_plain fp_take_plain)

lemma new_fifo_pipeline_plain:
  assumes "new_fifo_pipeline nm 0 maxlen = Inr f"
  shows "fp_plain f" "fp_data f = []" "fp_max_len f = maxlen"
  using assms by (auto simp: new_fifo_pipeline_def fp_plain_def fp_inv_def fp_data_def
      split: if_splits)

lemma fp_push_plain_total:
  assumes "fp_plain f" "\<not> fp_full f"
  shows "\<exists>f'. fp_push (Some x) f = Inr f'"
  using assms by (intro fp_push_total) (auto simp: fp_full_def fp_plain_def fp_inv_def not_le)

section \<open>The minimum length as a delay\<close>

lemma fp_pop_refill:
  assumes "fp_inv f" "unat (fp_min_len f) = length (fp_cells f)" "fp_cells f = d # cs"
  shows "\<exists>f'. fp_pop f = Inr (d, f') \<and> fp_cells f' = cs @ [None] \<and>
    fp_min_len f' = fp_min_len f \<and> fp_inv f'"
proof -
  let ?f2 = "f\<lparr>fp_cells := cs, fp_length := fp_length f - 1, fp_n_element := fp_n_element f - 1\<rparr>"
  have len: "fp_length f = fp_min_len f"
    using assms by (simp add: fp_inv_def word_unat_eq_iff)
  have nz: "fp_length f \<noteq> 0"
    using assms(1,3) fp_length_0_iff by fastforce
  then have pred: "unat (fp_length f - 1) = length cs"
    using assms by (simp add: unat_minus_one fp_inv_def)
  have lt: "fp_length ?f2 < fp_min_len ?f2" "fp_length ?f2 < fp_max_len ?f2"
    using pred len assms by (auto simp: word_less_nat_alt fp_inv_def)
  then obtain f3 where f3: "fp_push None ?f2 = Inr f3"
    using fp_push_total [of ?f2 None] by blast
  have ok: "fp_length f - 1 = 0 \<longrightarrow> cs = []"
    using pred by auto
  have "fp_pop f = Inr (d, f3\<lparr>fp_n_element := fp_n_element f3 - 1\<rparr>)"
    using assms(3) len nz lt f3 ok by (auto simp: fp_pop_def Let_def)
  moreover have "fp_cells f3 = cs @ [None]" "fp_min_len f3 = fp_min_len f"
    using fp_push_below_min(2) [OF f3 lt(1)] fp_push_frame(1) [OF f3] by simp_all
  ultimately show ?thesis
    using fp_pop_inv [OF assms(1)] by auto
qed

lemma fp_push_nulls_fresh:
  assumes "fp_cells f = replicate j None" "j + n = unat (fp_min_len f)" "fp_inv f"
    "unat (fp_min_len f) \<le> unat (fp_max_len f)"
  shows "\<exists>f'. fp_push_nulls n f = Inr f' \<and> fp_cells f' = replicate (j + n) None \<and> fp_inv f' \<and>
    fp_min_len f' = fp_min_len f \<and> fp_max_len f' = fp_max_len f"
  using assms
proof (induction n arbitrary: j f)
  case 0
  then show ?case by simp
next
  case (Suc n)
  have lt: "fp_length f < fp_min_len f" "fp_length f < fp_max_len f"
    using Suc.prems by (auto simp: fp_inv_def word_less_nat_alt)
  then obtain f1 where f1: "fp_push None f = Inr f1"
    using fp_push_total [of f None] by blast
  have "fp_cells f1 = replicate (Suc j) None"
    using fp_push_below_min(2) [OF f1 lt(1)] Suc.prems(1) by (simp add: replicate_append_same)
  then show ?case
    using Suc.IH [of f1 "Suc j"] Suc.prems f1 fp_push_inv [OF _ f1] fp_push_frame [OF f1]
    by (auto simp flip: Suc.prems(2))
qed

fun fp_pops :: "nat \<Rightarrow> 'a fifo_pipeline \<Rightarrow> ('a option list \<times> 'a fifo_pipeline) res" where
  "fp_pops 0 f = Inr ([], f)"
| "fp_pops (Suc n) f =
     res_bind (fp_pop f) (\<lambda>(d, f'). res_bind (fp_pops n f') (\<lambda>(ds, f''). Inr (d # ds, f'')))"

lemma two_steps:
  "fp_pops 2 f = res_bind (fp_pop f) (\<lambda>(d, f1). res_bind (fp_pop f1) (\<lambda>(e, f2). Inr ([d, e], f2)))"
  "fp_push_nulls 2 f = res_bind (fp_push None f) (fp_push None)"
  by (auto simp: numeral_2_eq_2 res_bind_def split: sum.splits prod.splits)

lemma fp_pops_refill:
  assumes "fp_inv f" "unat (fp_min_len f) = length (fp_cells f)" "n \<le> length (fp_cells f)"
  shows "\<exists>f'. fp_pops n f = Inr (take n (fp_cells f), f')"
  using assms
proof (induction n arbitrary: f)
  case 0
  then show ?case by simp
next
  case (Suc n)
  then obtain d cs where cells: "fp_cells f = d # cs"
    by (cases "fp_cells f") auto
  from fp_pop_refill [OF Suc.prems(1,2) cells]
  obtain f' where f': "fp_pop f = Inr (d, f')" "fp_cells f' = cs @ [None]"
    "fp_min_len f' = fp_min_len f" "fp_inv f'"
    by blast
  with Suc.IH [of f'] Suc.prems cells show ?case
    by auto
qed

lemma fp_shrink_data:
  assumes "fp_shrink f = Inr f'"
  shows "fp_data f' = fp_data f"
  using assms
proof (induction f rule: fp_shrink.induct)
  case (1 f)
  show ?case
  proof (cases "fp_min_len f < fp_length f \<and> fp_cells f \<noteq> [] \<and> last (fp_cells f) = None")
    case False
    with "1.prems" show ?thesis
      by (auto simp: fp_shrink.simps [of f] split: if_splits)
  next
    case True
    then obtain cs where cells: "fp_cells f = cs @ [None]"
      by (metis append_butlast_last_id)
    show ?thesis
    proof (cases "length (fp_cells f) = 1")
      case True': True
      then obtain d g where g: "fp_pop f = Inr (d, g)" "fp_shrink g = Inr f'"
        using True "1.prems" by (auto simp: fp_shrink.simps [of f] res_simps)
      then have "fp_data f' = fp_data g"
        using "1.IH"(1) [of "(d, g)" d g] True True' by simp
      moreover have "fp_data g = fp_data f"
        using fp_pop_above_min(3) [OF g(1)] True True' cells by (simp add: fp_data_def)
      ultimately show ?thesis by simp
    next
      case False
      then have "fp_shrink (f\<lparr>fp_cells := butlast (fp_cells f), fp_length := fp_length f - 1\<rparr>) = Inr f'"
        using True "1.prems" by (simp add: fp_shrink.simps [of f])
      then show ?thesis
        using "1.IH"(2) True False cells by (simp add: fp_data_def)
    qed
  qed
qed

lemma fp_grow_data:
  assumes "fp_grow f = Inr f'"
  shows "fp_data f' = fp_data f"
  using assms
proof (induction f rule: fp_grow.induct)
  case (1 f)
  show ?case
  proof (cases "fp_length f < fp_min_len f")
    case True
    then obtain g where g: "fp_push None f = Inr g"
      "fp_grow (g\<lparr>fp_n_element := fp_n_element g - 1\<rparr>) = Inr f'"
      using "1.prems" by (auto simp: fp_grow.simps [of f] res_simps)
    then show ?thesis
      using "1.IH" [OF True g] fp_push_below_min(2) [OF g(1) True] by (simp add: fp_data_def)
  next
    case False
    with "1.prems" show ?thesis by (simp add: fp_grow.simps [of f])
  qed
qed

section \<open>Properties\<close>

text \<open>
  C33. A pipe built with minimum length 0, as every pipe of the simulator is, delivers first in
  first out: after any run of pushes and pops the popped elements followed by the waiting ones are
  the pushed ones in order, \<^verbatim>\<open>get_n_element\<close> counts the waiting ones, and their number never
  exceeds the maximum length.
\<close>

theorem fifo_pipeline_fifo:
  assumes "new_fifo_pipeline nm 0 maxlen = Inr f"
    and "queue_run (\<lambda>_ x. fp_push (Some x)) (\<lambda>_. fp_take) (\<lambda>f. f) ops f = Inr (xs, f')"
  shows "pushed ops = xs @ fp_data f' \<and> unat (fp_n_element f') = length (fp_data f') \<and>
    length (fp_data f') \<le> unat (fp_max_len f')"
proof -
  have "pushed ops = xs @ fp_data f'" and plain: "fp_plain f'"
    using pipe_fifo.run_fifo [OF _ assms(2)] new_fifo_pipeline_plain [OF assms(1)] by auto
  moreover have "filter (\<lambda>d. d \<noteq> None) (fp_cells f') = fp_cells f'"
    using plain by (metis (mono_tags, lifting) fp_plain_def filter_True)
  then have "length (fp_data f') = length (fp_cells f')"
    by (simp add: fp_data_def)
  ultimately show ?thesis
    using plain by (simp add: fp_plain_def fp_inv_def)
qed

theorem fifo_pipeline_fifo_witness:
  "\<exists>f f'. new_fifo_pipeline ''p'' 0 4 = Inr f \<and>
     queue_run (\<lambda>_ x. fp_push (Some x)) (\<lambda>_. fp_take) (\<lambda>f. f) [Push () (1::nat), Push () 2, Pop (), Push () 3] f = Inr ([1], f') \<and>
     fp_data f' = [2, 3] \<and> unat (fp_n_element f') = 2 \<and> 2 \<le> unat (fp_max_len f')"
proof -
  let ?f = "\<lparr>fp_name = ''p'', fp_min_len = 0, fp_max_len = 4, fp_length = 0, fp_n_element = 0, fp_cells = []\<rparr> :: nat fifo_pipeline"
  let ?ops = "[Push () (1::nat), Push () 2, Pop (), Push () 3]"
  have new: "new_fifo_pipeline ''p'' 0 4 = Inr ?f"
    by (simp add: new_fifo_pipeline_def)
  have "case queue_run (\<lambda>_ x. fp_push (Some x)) (\<lambda>_. fp_take) (\<lambda>f. f) ?ops ?f of Inr (xs, f') \<Rightarrow> xs = [1] | Inl _ \<Rightarrow> False"
    by code_simp
  then obtain f' where run: "queue_run (\<lambda>_ x. fp_push (Some x)) (\<lambda>_. fp_take) (\<lambda>f. f) ?ops ?f = Inr ([1], f')"
    by (auto split: sum.splits)
  have "fp_data f' = [2, 3]" "unat (fp_n_element f') = length (fp_data f')" "length (fp_data f') \<le> unat (fp_max_len f')"
    using fifo_pipeline_fifo [OF new run] by simp_all
  then show ?thesis
    using new run by (metis One_nat_def Suc_1 length_Cons list.size(3))
qed

text \<open>
  The minimum length is a delay: an element pushed into a fresh pipe of minimum length
  \<open>m \<ge> 1\<close> comes out of the \<open>m\<close>-th pop, and the pops before it return null pointers.
\<close>

theorem fifo_pipeline_min_length_delay:
  assumes "new_fifo_pipeline nm minlen maxlen = Inr f" "minlen \<noteq> 0" "minlen < maxlen"
    and "fp_push (Some x) f = Inr f'"
  shows "\<exists>f''. fp_pops (unat minlen) f' =
    Inr (replicate (unat minlen - 1) None @ [Some x], f'')"
proof -
  let ?m = "unat minlen"
  let ?f0 = "\<lparr>fp_name = nm, fp_min_len = minlen, fp_max_len = maxlen, fp_length = 0,
    fp_n_element = 0, fp_cells = []\<rparr> :: 'a fifo_pipeline"
  have m: "0 < ?m" "?m < unat maxlen"
    using assms(2,3) by (simp_all add: unat_gt_0 word_less_nat_alt)
  then have nz: "maxlen \<noteq> 0" by auto
  have "fp_inv ?f0" "fp_cells ?f0 = replicate 0 None" "0 + ?m = unat (fp_min_len ?f0)"
    "unat (fp_min_len ?f0) \<le> unat (fp_max_len ?f0)"
    using m nz by (simp_all add: fp_inv_def)
  from fp_push_nulls_fresh [OF this(2,3,1,4)]
  obtain g where g: "fp_push_nulls ?m ?f0 = Inr g" "fp_cells g = replicate ?m None"
    "fp_inv g" "fp_min_len g = minlen" "fp_max_len g = maxlen"
    by auto
  then have f: "f = g"
    using assms(1) nz by (simp add: new_fifo_pipeline_def)
  have len: "fp_length g = minlen"
    using g(2,3) by (simp add: fp_inv_def word_unat_eq_iff)
  have ne: "fp_cells g \<noteq> []" "last (fp_cells g) = None"
    using g(2) m(1) by simp_all
  have cells: "fp_cells f' = replicate (?m - 1) None @ [Some x]" "fp_min_len f' = minlen"
    using assms(4) f ne len g by (auto simp: fp_push_def split: if_splits)
  have "fp_inv f'"
    using fp_push_inv [OF g(3)] assms(4) f by simp
  then show ?thesis
    using fp_pops_refill [of f' ?m] cells m(1) by simp
qed

theorem fifo_pipeline_min_length_delay_witness:
  "\<exists>f''. fp_pops 2 (projr (fp_push (Some (7::nat)) (projr (new_fifo_pipeline ''p'' 2 4)))) =
     Inr ([None, Some 7], f'')"
  using fifo_pipeline_min_length_delay [of "''p''" 2 4 "projr (new_fifo_pipeline ''p'' 2 4)" 7
      "projr (fp_push (Some (7::nat)) (projr (new_fifo_pipeline ''p'' 2 4)))"]
  by (simp add: word_le_nat_alt word_less_nat_alt new_fifo_pipeline_def two_steps fp_push_def fp_full_def)

text \<open>
  Changing the minimum length never loses, adds or reorders an element: the growing and the
  shrinking loop only add and remove null nodes.
\<close>

theorem set_min_length_keeps_data:
  assumes "set_min_length n f = Inr f'"
  shows "fp_data f' = fp_data f"
proof -
  have "fp_data (f\<lparr>fp_min_len := n\<rparr>) = fp_data f"
    by (simp add: fp_data_def)
  then show ?thesis
    using assms fp_grow_data [of "f\<lparr>fp_min_len := n\<rparr>" f'] fp_shrink_data [of "f\<lparr>fp_min_len := n\<rparr>" f']
    by (auto simp: set_min_length_def split: if_splits)
qed

theorem set_min_length_keeps_data_witness:
  "fp_data (projr (set_min_length 1 \<lparr>fp_name = ''p'', fp_min_len = 2, fp_max_len = 4, fp_length = 2,
      fp_n_element = 2, fp_cells = [Some (5::nat), None]\<rparr>)) = [5]"
  using set_min_length_keeps_data [of 1 "\<lparr>fp_name = ''p'', fp_min_len = 2, fp_max_len = 4,
      fp_length = 2, fp_n_element = 2, fp_cells = [Some (5::nat), None]\<rparr>"
      "\<lparr>fp_name = ''p'', fp_min_len = 1, fp_max_len = 4, fp_length = 1, fp_n_element = 2,
      fp_cells = [Some (5::nat)]\<rparr>"]
  by (simp add: set_min_length_def fp_shrink.simps fp_data_def)

text \<open>
  The element counter of a pipe with a minimum length is wrong: the constructor counts the
  null nodes it inserts, \<^verbatim>\<open>pop\<close> does not, and two pops from a fresh pipe of minimum length 1
  leave \<^verbatim>\<open>m_n_element\<close> wrapped around to the largest 32-bit value.
\<close>

theorem fifo_pipeline_counter_wraps:
  "fp_n_element (snd (projr (fp_pops 2 (projr (new_fifo_pipeline nm 1 4))))) = - 1"
  by (simp add: word_le_nat_alt word_less_nat_alt new_fifo_pipeline_def two_steps fp_push_def fp_full_def fp_pop_def)

end
