(* ===== verification/Latency_Queue.thy ===== *)
theory Latency_Queue
  imports Queue_Interface
begin

text \<open>
  \<^verbatim>\<open>include/latency_queue.h\<close>: a bounded link that serialises its elements into flits. An entry
  carries the (divided) clock at which its last flit has arrived. The template's element type only has to
  offer \<^verbatim>\<open>get_size()\<close>, which is a parameter here; a null pointer is not an element.
\<close>

section \<open>Model\<close>

datatype latency_queue_stat = ACTIVE | IDLE | STALLED

record 'a latency_queue =
  lq_print_stat_freq :: int
  lq_head_latency :: u32
  lq_flit_size :: u32
  lq_clock_diver :: u32
  lq_size_limit :: u32
  lq_name :: string
  lq_queue :: "('a \<times> u64) list"
  lq_stat_counter :: "latency_queue_stat \<Rightarrow> u64"

definition new_latency_queue ::
  "u32 \<Rightarrow> u32 \<Rightarrow> string \<Rightarrow> u32 \<Rightarrow> u32 \<Rightarrow> 'a latency_queue res" where
  "new_latency_queue head_latency flit_size nm clock_diver size_limit =
     (if flit_size = 0 then Inl (Assert_Fail ''flit_size'')
      else Inr \<lparr>lq_print_stat_freq = 0, lq_head_latency = head_latency, lq_flit_size = flit_size,
        lq_clock_diver = clock_diver, lq_size_limit = size_limit, lq_name = nm, lq_queue = [],
        lq_stat_counter = (\<lambda>_. 0)\<rparr>)"

definition lq_size :: "'a latency_queue \<Rightarrow> nat" where
  "lq_size q = length (lq_queue q)"

definition lq_flits :: "('a \<Rightarrow> u32) \<Rightarrow> 'a \<Rightarrow> 'a latency_queue \<Rightarrow> u64" where
  "lq_flits get_size x q = ucast ((get_size x + lq_flit_size q - 1) div lq_flit_size q)"

definition lq_ready :: "u64 \<Rightarrow> 'a latency_queue \<Rightarrow> u64" where
  "lq_ready cur_clock q = (ucast (lq_head_latency q) + cur_clock) * ucast (lq_clock_diver q)"

definition lq_push_back ::
  "('a \<Rightarrow> u32) \<Rightarrow> 'a \<Rightarrow> u64 \<Rightarrow> 'a latency_queue \<Rightarrow> bool \<times> 'a latency_queue" where
  "lq_push_back get_size x cur_clock q =
     (if unat (lq_size_limit q) \<le> lq_size q then (False, q)
      else
        let latency = lq_flits get_size x q;
            latency' = (if lq_queue q = [] then latency + lq_ready cur_clock q
                        else latency + max (snd (last (lq_queue q))) (lq_ready cur_clock q))
        in (True, q\<lparr>lq_queue := lq_queue q @ [(x, latency')]\<rparr>))"

definition lq_pop_front :: "'a latency_queue \<Rightarrow> 'a latency_queue res" where
  "lq_pop_front q = (case lq_queue q of [] \<Rightarrow> Inl Empty_Deque | _ # es \<Rightarrow> Inr (q\<lparr>lq_queue := es\<rparr>))"

definition lq_back :: "'a latency_queue \<Rightarrow> 'a res" where
  "lq_back q = (if lq_queue q = [] then Inl Empty_Deque else Inr (fst (last (lq_queue q))))"

definition lq_front :: "'a latency_queue \<Rightarrow> 'a res" where
  "lq_front q = (case lq_queue q of [] \<Rightarrow> Inl Empty_Deque | (x, _) # _ \<Rightarrow> Inr x)"

definition lq_is_arrived :: "u64 \<Rightarrow> 'a latency_queue \<Rightarrow> bool" where
  "lq_is_arrived cur_clock q =
     (case lq_queue q of [] \<Rightarrow> False | (_, t) # _ \<Rightarrow> t \<le> cur_clock * ucast (lq_clock_diver q))"

definition lq_is_idle :: "'a latency_queue \<Rightarrow> bool" where
  "lq_is_idle q = (lq_size q = 0)"

definition lq_total_stat :: "'a latency_queue \<Rightarrow> u64" where
  "lq_total_stat q = lq_stat_counter q ACTIVE + lq_stat_counter q IDLE + lq_stat_counter q STALLED"

definition lq_clear_stat :: "'a latency_queue \<Rightarrow> 'a latency_queue" where
  "lq_clear_stat q = q\<lparr>lq_stat_counter := (\<lambda>_. 0)\<rparr>"

definition lq_print_stat :: "'a latency_queue \<Rightarrow> 'a latency_queue" where
  "lq_print_stat q =
     (if lq_print_stat_freq q \<noteq> 0 \<and> word_of_int (lq_print_stat_freq q) = lq_total_stat q
      then lq_clear_stat q else q)"

definition lq_increase_stat :: "latency_queue_stat \<Rightarrow> 'a latency_queue \<Rightarrow> 'a latency_queue" where
  "lq_increase_stat key q =
     lq_print_stat (q\<lparr>lq_stat_counter := (lq_stat_counter q)(key := lq_stat_counter q key + 1)\<rparr>)"

section \<open>The queue contract\<close>

definition lq_push_clock ::
  "('a \<Rightarrow> u32) \<Rightarrow> u64 \<Rightarrow> 'a \<Rightarrow> 'a latency_queue \<Rightarrow> 'a latency_queue res" where
  "lq_push_clock get_size c x q =
     (case lq_push_back get_size x c q of
        (True, q') \<Rightarrow> Inr q' | (False, _) \<Rightarrow> Inl (Runtime_Error ''push_back refused''))"

text \<open>A consumer takes the front once it has arrived.\<close>

definition lq_take :: "u64 \<Rightarrow> 'a latency_queue \<Rightarrow> ('a \<times> 'a latency_queue) res" where
  "lq_take c q =
     (if lq_is_arrived c q
      then res_bind (lq_front q) (\<lambda>x. res_bind (lq_pop_front q) (\<lambda>q'. Inr (x, q')))
      else Inl (Runtime_Error ''not arrived''))"

definition lq_inv :: "'a latency_queue \<Rightarrow> bool" where
  "lq_inv q \<longleftrightarrow> lq_flit_size q \<noteq> 0 \<and> lq_size q \<le> unat (lq_size_limit q)"

definition lq_contents :: "'a latency_queue \<Rightarrow> 'a list" where
  "lq_contents q = map fst (lq_queue q)"

lemma lq_push_clock_eq_Inr:
  "lq_push_clock get_size c x q = Inr q' \<Longrightarrow>
     lq_size q < unat (lq_size_limit q) \<and> (\<exists>t. q' = q\<lparr>lq_queue := lq_queue q @ [(x, t)]\<rparr>)"
  by (auto simp: lq_push_clock_def lq_push_back_def Let_def split: if_splits)

lemma lq_take_eq_Inr:
  "lq_take c q = Inr (x, q') \<longleftrightarrow>
     (\<exists>t es. lq_queue q = (x, t) # es \<and> t \<le> c * ucast (lq_clock_diver q) \<and> q' = q\<lparr>lq_queue := es\<rparr>)"
  by (auto simp: lq_take_def lq_is_arrived_def lq_front_def lq_pop_front_def
      split: list.splits prod.splits)

interpretation link_fifo:
  fifo_contract lq_contents lq_inv "lq_push_clock get_size" lq_take "lq_increase_stat key"
  for get_size key
proof
  fix q :: "'a latency_queue" and q' p x
  assume q: "lq_inv q"
  show "lq_contents q' = lq_contents q @ [x]" if "lq_push_clock get_size p x q = Inr q'"
    using lq_push_clock_eq_Inr [OF that] by (auto simp: lq_contents_def)
  show "lq_inv q'" if "lq_push_clock get_size p x q = Inr q'"
    using lq_push_clock_eq_Inr [OF that] q by (auto simp: lq_inv_def lq_size_def)
  show "lq_contents q = x # lq_contents q'" if "lq_take p q = Inr (x, q')"
    using that by (auto simp: lq_take_eq_Inr lq_contents_def)
  show "lq_inv q'" if "lq_take p q = Inr (x, q')"
    using that q by (auto simp: lq_take_eq_Inr lq_inv_def lq_size_def)
  show "lq_contents (lq_increase_stat key q) = lq_contents q"
    by (simp add: lq_increase_stat_def lq_print_stat_def lq_clear_stat_def lq_contents_def)
  show "lq_inv (lq_increase_stat key q)"
    using q by (simp add: lq_increase_stat_def lq_print_stat_def lq_clear_stat_def lq_inv_def
        lq_size_def)
qed

definition lq_sorted :: "'a latency_queue \<Rightarrow> bool" where
  "lq_sorted q \<longleftrightarrow> sorted (map (unat \<circ> snd) (lq_queue q))"

section \<open>Properties\<close>

text \<open>
  A link delivers in order and serialises: as long as the 64-bit clock arithmetic does not
  wrap, an accepted element arrives no earlier than the head latency plus its own flits after the
  current clock, and no earlier than the arrival of the element before it plus its own flits; so arrival times
  stay sorted, and an accepted push keeps the length within the size limit.
\<close>

theorem latency_queue_serialises:
  assumes "lq_inv q" "lq_sorted q" "lq_push_back get_size x c q = (True, q')"
    and "unat (lq_flits get_size x q) + unat (lq_ready c q) < 2 ^ 64"
    and "\<forall>e\<in>set (lq_queue q). unat (lq_flits get_size x q) + unat (snd e) < 2 ^ 64"
  shows "\<exists>t. lq_queue q' = lq_queue q @ [(x, t)] \<and>
    unat (lq_ready c q) + unat (lq_flits get_size x q) \<le> unat t \<and>
    (\<forall>e\<in>set (lq_queue q). unat (snd e) + unat (lq_flits get_size x q) \<le> unat t) \<and>
    lq_sorted q' \<and> lq_inv q'"
proof -
  let ?l = "lq_flits get_size x q"
  let ?m = "if lq_queue q = [] then lq_ready c q else max (snd (last (lq_queue q))) (lq_ready c q)"
  have q': "q' = q\<lparr>lq_queue := lq_queue q @ [(x, ?l + ?m)]\<rparr>" and
    room: "lq_size q < unat (lq_size_limit q)"
    using assms(3) by (auto simp: lq_push_back_def Let_def split: if_splits)
  have m: "?m \<in> insert (lq_ready c q) (snd ` set (lq_queue q))"
    by (auto simp: max_def)
  then have nw: "unat (?l + ?m) = unat ?l + unat ?m"
    using assms(4,5) by (intro unat_add_no_wrap) auto
  have le: "unat (snd e) \<le> unat ?m" if "e \<in> set (lq_queue q)" for e
  proof -
    have "lq_queue q \<noteq> []"
      using that by auto
    then obtain es l where es: "lq_queue q = es @ [l]"
      by (cases "lq_queue q" rule: rev_cases) auto
    then have "unat (snd e) \<le> unat (snd l)"
      using that assms(2) by (auto simp: lq_sorted_def sorted_append)
    then show ?thesis
      using es by (simp add: max_def word_le_nat_alt)
  qed
  have "unat (lq_ready c q) \<le> unat ?m"
    by (simp add: max_def word_le_nat_alt)
  then show ?thesis
    using q' nw le room assms(1,2)
    by (auto simp: lq_sorted_def lq_inv_def lq_size_def sorted_append intro: trans_le_add2)
qed

theorem latency_queue_serialises_witness:
  "lq_queue (snd (lq_push_back (\<lambda>_. 72) ''a'' 10
     (projr (new_latency_queue 1 32 ''l'' 1 8)))) = [(''a'', 14)]"
  using latency_queue_serialises [of "projr (new_latency_queue 1 32 ''l'' 1 8)" "\<lambda>_. 72" "''a''" 10
      "snd (lq_push_back (\<lambda>_. 72) ''a'' 10 (projr (new_latency_queue 1 32 ''l'' 1 8)))"]
  by (simp add: new_latency_queue_def lq_inv_def lq_sorted_def lq_size_def lq_push_back_def
      lq_flits_def lq_ready_def)

end
