(* ===== verification/Mem_Fetch.thy ===== *)
theory Mem_Fetch
  imports NDP_Prelude
begin

text \<open>
  \<^verbatim>\<open>src/mem_fetch.h\<close>, \<^verbatim>\<open>src/mem_fetch.cc\<close> and the enumerations of \<^verbatim>\<open>src/cache_defs.h\<close>: the memory
  request that travels through caches, links and DRAM. The simulator passes requests by pointer and
  several components hold the same one at a time (a cache's miss queue, its MSHR table, the queue to the next
  level), so requests live in an explicit store: a pointer is a natural number, \<^verbatim>\<open>new\<close> takes a
  fresh one, \<^verbatim>\<open>delete\<close> removes it, and using a pointer that is not in the store is the error
  \<open>Bad_Pointer\<close>. Fields a constructor leaves uninitialised hold 0. Lists of bits are words:
  \<^verbatim>\<open>SectorMask\<close> has 4 bits, the byte mask 128.
\<close>

section \<open>Enumerations\<close>

datatype mem_access_type =
    GLOBAL_ACC_R | GLOBAL_ACC_W | INST_ACC_R | TLB_ACC_R | L1_CACHE_WA | L2_CACHE_WA
  | L1_CACHE_WB | L2_CACHE_WB | DMA_ALLOC_W | HOST_ACC_R | HOST_ACC_W

datatype mf_type = READ_REQUEST | WRITE_REQUEST | READ_REPLY | WRITE_ACK

datatype CacheBlockState = INVALID | RESERVED | VALID | MODIFIED

datatype CacheRequestStatus = HIT | HIT_RESERVED | MISS | RESERVATION_FAIL | SECTOR_MISS | MSHR_HIT

datatype CacheReservationFailReason =
    LINE_ALLOC_FAIL | MISS_QUEUE_FULL | MSHR_ENTRY_FAIL | MSHR_MERGE_ENTRY_FAIL | MSHR_RW_PENDING

datatype CacheEventType =
    WRITE_BACK_REQUEST_SENT | READ_REQUEST_SENT | WRITE_REQUEST_SENT | WRITE_ALLOCATE_SENT

datatype WritePolicy = READ_ONLY | WRITE_BACK | WRITE_THROUGH | WRITE_EVICT | LOCAL_WB_GLOBAL_WT

datatype AllocationPolicy = ON_MISS | ON_FILL | STREAMING

datatype WriteAllocatePolicy = NO_WRITE_ALLOCATE | WRITE_ALLOCATE | FETCH_ON_WRITE | LAZY_FETCH_ON_READ

datatype CacheType = NORMAL | SECTOR

datatype EvictPolicy = LRU | FIFO

datatype MshrConfig = ASSOC | SECTOR_ASSOC

datatype SetIndexFunction =
    LINEAR_SET_FUNCTION | BITWISE_XORING_FUNCTION | HASH_IPOLY_FUNCTION | CUSTOM_SET_FUNCTION

text \<open>The enumerators of a request's class and of an access outcome, in the order of the C++ enums.\<close>

instantiation mem_access_type :: enum
begin

definition enum_mem_access_type :: "mem_access_type list" where
  "enum_mem_access_type =
     [GLOBAL_ACC_R, GLOBAL_ACC_W, INST_ACC_R, TLB_ACC_R, L1_CACHE_WA, L2_CACHE_WA,
      L1_CACHE_WB, L2_CACHE_WB, DMA_ALLOC_W, HOST_ACC_R, HOST_ACC_W]"

definition enum_all_mem_access_type :: "(mem_access_type \<Rightarrow> bool) \<Rightarrow> bool" where
  "enum_all_mem_access_type p \<longleftrightarrow> list_all p enum_class.enum"

definition enum_ex_mem_access_type :: "(mem_access_type \<Rightarrow> bool) \<Rightarrow> bool" where
  "enum_ex_mem_access_type p \<longleftrightarrow> list_ex p enum_class.enum"

instance
proof
  have "t \<in> set (enum_class.enum :: mem_access_type list)" for t
    by (cases t) (simp_all add: enum_mem_access_type_def)
  then show u: "(UNIV :: mem_access_type set) = set enum_class.enum"
    by blast
  show "distinct (enum_class.enum :: mem_access_type list)"
    by (simp add: enum_mem_access_type_def)
  show "enum_class.enum_all p \<longleftrightarrow> Ball UNIV p" "enum_class.enum_ex p \<longleftrightarrow> Bex UNIV p"
    for p :: "mem_access_type \<Rightarrow> bool"
    by (simp_all add: u enum_all_mem_access_type_def enum_ex_mem_access_type_def list_all_iff list_ex_iff)
qed

end

instantiation CacheRequestStatus :: enum
begin

definition enum_CacheRequestStatus :: "CacheRequestStatus list" where
  "enum_CacheRequestStatus = [HIT, HIT_RESERVED, MISS, RESERVATION_FAIL, SECTOR_MISS, MSHR_HIT]"

definition enum_all_CacheRequestStatus :: "(CacheRequestStatus \<Rightarrow> bool) \<Rightarrow> bool" where
  "enum_all_CacheRequestStatus p \<longleftrightarrow> list_all p enum_class.enum"

definition enum_ex_CacheRequestStatus :: "(CacheRequestStatus \<Rightarrow> bool) \<Rightarrow> bool" where
  "enum_ex_CacheRequestStatus p \<longleftrightarrow> list_ex p enum_class.enum"

instance
proof
  have "t \<in> set (enum_class.enum :: CacheRequestStatus list)" for t
    by (cases t) (simp_all add: enum_CacheRequestStatus_def)
  then show u: "(UNIV :: CacheRequestStatus set) = set enum_class.enum"
    by blast
  show "distinct (enum_class.enum :: CacheRequestStatus list)"
    by (simp add: enum_CacheRequestStatus_def)
  show "enum_class.enum_all p \<longleftrightarrow> Ball UNIV p" "enum_class.enum_ex p \<longleftrightarrow> Bex UNIV p"
    for p :: "CacheRequestStatus \<Rightarrow> bool"
    by (simp_all add: u enum_all_CacheRequestStatus_def enum_ex_CacheRequestStatus_def list_all_iff
        list_ex_iff)
qed

end

section \<open>Requests\<close>

type_synonym sector_mask = "4 word"
type_synonym byte_mask = "128 word"
type_synonym ptr = nat

definition MEM_ACCESS_SIZE :: nat where "MEM_ACCESS_SIZE = 32"
definition SECTOR_CHUNCK_SIZE :: nat where "SECTOR_CHUNCK_SIZE = 4"
definition MAX_MEMORY_ACCESS_SIZE :: nat where
  "MAX_MEMORY_ACCESS_SIZE = MEM_ACCESS_SIZE * SECTOR_CHUNCK_SIZE"
definition PACKET_SIZE :: nat where "PACKET_SIZE = MEM_ACCESS_SIZE"
definition WRITE_PACKET_SIZE :: nat where "WRITE_PACKET_SIZE = 8"

lemmas size_consts [simp] =
  MEM_ACCESS_SIZE_def SECTOR_CHUNCK_SIZE_def MAX_MEMORY_ACCESS_SIZE_def PACKET_SIZE_def
  WRITE_PACKET_SIZE_def

record mem_fetch =
  mf_valid :: bool
  mf_request_id :: u64
  mf_data_size :: u32
  mf_ctrl_size :: u32
  mf_addr :: u64
  mf_access_type :: mem_access_type
  mf_kind :: mf_type
  mf_channel :: u32
  mf_timestamp :: u64
  mf_sector_mask :: sector_mask
  mf_dirty_mask :: sector_mask
  mf_byte_mask :: byte_mask
  mf_atomic :: bool
  mf_ndp_id :: u32
  mf_src_id :: u32
  mf_sub_core_id :: u32
  mf_from_dma :: bool
  mf_from_ndp :: bool
  mf_filtering :: bool
  mf_tlb_request :: bool
  mf_tlb_original :: "ptr option"
  mf_original :: "ptr option"
  mf_wrapped :: "ptr list"
  mf_bi_request :: bool
  mf_bi_writeback :: bool
  mf_uthread_request :: bool
  mf_sc_addr :: bool
  mf_current_state :: string

record mf_store =
  mf_heap :: "ptr \<Rightarrow> mem_fetch option"
  mf_next :: ptr
  unique_uid :: u64

definition empty_store :: mf_store where
  "empty_store = \<lparr>mf_heap = (\<lambda>_. None), mf_next = 1, unique_uid = 0\<rparr>"

text \<open>The index \<^verbatim>\<open>addr % MAX_MEMORY_ACCESS_SIZE / MEM_ACCESS_SIZE\<close> of the sector of an address.\<close>

definition sector_of :: "u64 \<Rightarrow> nat" where
  "sector_of addr = unat addr mod MAX_MEMORY_ACCESS_SIZE div MEM_ACCESS_SIZE"

definition blank_mem_fetch :: mem_fetch where
  "blank_mem_fetch =
     \<lparr>mf_valid = False, mf_request_id = 0, mf_data_size = 0, mf_ctrl_size = 0, mf_addr = 0,
      mf_access_type = GLOBAL_ACC_R, mf_kind = READ_REQUEST, mf_channel = 0, mf_timestamp = 0,
      mf_sector_mask = 0, mf_dirty_mask = 0, mf_byte_mask = 0, mf_atomic = False, mf_ndp_id = 0,
      mf_src_id = 0, mf_sub_core_id = 0, mf_from_dma = False, mf_from_ndp = False,
      mf_filtering = True, mf_tlb_request = False, mf_tlb_original = None, mf_original = None,
      mf_wrapped = [], mf_bi_request = False, mf_bi_writeback = False, mf_uthread_request = False,
      mf_sc_addr = False, mf_current_state = ''NONE''\<rparr>"

definition store_new :: "mem_fetch \<Rightarrow> mf_store \<Rightarrow> ptr \<times> mf_store" where
  "store_new f h = (mf_next h, h\<lparr>mf_heap := (mf_heap h)(mf_next h \<mapsto> f), mf_next := mf_next h + 1\<rparr>)"

definition new_mem_fetch_masked ::
  "u64 \<Rightarrow> mem_access_type \<Rightarrow> mf_type \<Rightarrow> u32 \<Rightarrow> u32 \<Rightarrow> byte_mask \<Rightarrow> sector_mask \<Rightarrow> u64 \<Rightarrow> mf_store
    \<Rightarrow> ptr \<times> mf_store" where
  "new_mem_fetch_masked addr acc_type type data_size ctrl_size byte_mask sector_mask timestamp h =
     store_new (blank_mem_fetch\<lparr>mf_addr := addr, mf_access_type := acc_type, mf_kind := type,
         mf_data_size := data_size, mf_ctrl_size := ctrl_size, mf_byte_mask := byte_mask,
         mf_sector_mask := set_bit (sector_of addr) sector_mask, mf_timestamp := timestamp,
         mf_request_id := unique_uid h, mf_valid := True\<rparr>)
       (h\<lparr>unique_uid := unique_uid h + 1\<rparr>)"

definition new_mem_fetch ::
  "u64 \<Rightarrow> mem_access_type \<Rightarrow> mf_type \<Rightarrow> u32 \<Rightarrow> u32 \<Rightarrow> u64 \<Rightarrow> mf_store \<Rightarrow> ptr \<times> mf_store" where
  "new_mem_fetch addr acc_type type data_size ctrl_size timestamp h =
     new_mem_fetch_masked addr acc_type type data_size ctrl_size 0 0 timestamp h"

definition mf_get :: "mf_store \<Rightarrow> ptr \<Rightarrow> mem_fetch res" where
  "mf_get h p = (case mf_heap h p of None \<Rightarrow> Inl Bad_Pointer | Some f \<Rightarrow> Inr f)"

definition mf_update :: "ptr \<Rightarrow> (mem_fetch \<Rightarrow> mem_fetch) \<Rightarrow> mf_store \<Rightarrow> mf_store res" where
  "mf_update p g h = res_bind (mf_get h p) (\<lambda>f. Inr (h\<lparr>mf_heap := (mf_heap h)(p \<mapsto> g f)\<rparr>))"

definition mf_delete :: "ptr \<Rightarrow> mf_store \<Rightarrow> mf_store res" where
  "mf_delete p h = res_bind (mf_get h p) (\<lambda>_. Inr (h\<lparr>mf_heap := (mf_heap h)(p := None)\<rparr>))"

definition wrap_mem_fetch :: "ptr list \<Rightarrow> mf_store \<Rightarrow> (ptr \<times> mf_store) res" where
  "wrap_mem_fetch wrapped_mf h =
     (case wrapped_mf of
        [] \<Rightarrow> Inl Empty_Deque
      | p # _ \<Rightarrow> res_bind (mf_get h p) (\<lambda>f.
          Inr (store_new (blank_mem_fetch\<lparr>mf_wrapped := wrapped_mf, mf_kind := mf_kind f,
            mf_addr := mf_addr f, mf_src_id := mf_src_id f, mf_access_type := mf_access_type f\<rparr>) h)))"

definition set_reply :: "mem_fetch \<Rightarrow> mem_fetch res" where
  "set_reply f =
     (case mf_kind f of
        READ_REQUEST \<Rightarrow> Inr (f\<lparr>mf_kind := READ_REPLY\<rparr>)
      | WRITE_REQUEST \<Rightarrow> Inr (f\<lparr>mf_kind := WRITE_ACK\<rparr>)
      | _ \<Rightarrow> Inl (Assert_Fail ''0''))"

definition convert_to_write_request :: "u64 \<Rightarrow> mem_fetch \<Rightarrow> mem_fetch res" where
  "convert_to_write_request addr f =
     res_bind (assert_that (mf_kind f = READ_REPLY) ''m_type == READ_REPLY'')
       (\<lambda>_. Inr (f\<lparr>mf_kind := WRITE_REQUEST, mf_addr := addr\<rparr>))"

definition is_write :: "mem_fetch \<Rightarrow> bool" where
  "is_write f \<longleftrightarrow> mf_kind f = WRITE_REQUEST \<or> mf_kind f = WRITE_ACK"

definition is_request :: "mem_fetch \<Rightarrow> bool" where
  "is_request f \<longleftrightarrow> mf_kind f = READ_REQUEST \<or> mf_kind f = WRITE_REQUEST"

definition get_size :: "mem_fetch \<Rightarrow> u32" where
  "get_size f =
     (if mf_kind f = WRITE_REQUEST \<or> mf_kind f = READ_REPLY then mf_data_size f + mf_ctrl_size f
      else mf_ctrl_size f)"

definition set_tlb_original_mf :: "ptr \<Rightarrow> mem_fetch \<Rightarrow> mem_fetch" where
  "set_tlb_original_mf p f = f\<lparr>mf_tlb_request := True, mf_tlb_original := Some p\<rparr>"

definition get_tlb_original_mf :: "mem_fetch \<Rightarrow> ptr option res" where
  "get_tlb_original_mf f =
     res_bind (assert_that (mf_tlb_request f) ''m_tlb_request'') (\<lambda>_. Inr (mf_tlb_original f))"

text \<open>The query that also rewrites the access type.\<close>

definition is_bi_writeback :: "mem_fetch \<Rightarrow> bool \<times> mem_fetch" where
  "is_bi_writeback f = (mf_bi_writeback f, f\<lparr>mf_access_type := GLOBAL_ACC_W\<rparr>)"

section \<open>Lemmas\<close>

definition store_inv :: "mf_store \<Rightarrow> bool" where
  "store_inv h \<longleftrightarrow> (\<forall>p. mf_next h \<le> p \<longrightarrow> mf_heap h p = None)"

lemma store_invD: "store_inv h \<Longrightarrow> mf_heap h p = Some f \<Longrightarrow> p < mf_next h"
  by (metis not_le option.distinct(1) store_inv_def)

lemma mf_get_eq_Inr [res_simps]: "mf_get h p = Inr f \<longleftrightarrow> mf_heap h p = Some f"
  by (auto simp: mf_get_def split: option.splits)

lemma mf_get_Some [simp]: "mf_heap h p = Some f \<Longrightarrow> mf_get h p = Inr f"
  by (simp add: mf_get_def)

lemma mf_update_eq_Inr [res_simps]:
  "mf_update p g h = Inr h' \<longleftrightarrow>
     (\<exists>f. mf_heap h p = Some f \<and> h' = h\<lparr>mf_heap := (mf_heap h)(p \<mapsto> g f)\<rparr>)"
  by (auto simp: mf_update_def res_simps)

lemma mf_update_Some [simp]:
  "mf_heap h p = Some f \<Longrightarrow> mf_update p g h = Inr (h\<lparr>mf_heap := (mf_heap h)(p \<mapsto> g f)\<rparr>)"
  by (simp add: mf_update_def)

text \<open>Evaluation on words, where the natural number of a large address is out of reach.\<close>

lemma sector_of_code [code]: "sector_of addr = unat (addr mod 128 div 32)"
  by (simp add: sector_of_def unat_div unat_mod)

lemma sector_of_less [simp]: "sector_of addr < 4"
  by (simp add: sector_of_def)

lemma store_new_inv: "store_inv h \<Longrightarrow> store_inv (snd (store_new f h))"
  by (simp add: store_new_def store_inv_def)

lemma bit_set_sector:
  "bit (set_bit (sector_of a) (m :: sector_mask)) i \<longleftrightarrow> i = sector_of a \<or> bit m i"
  using sector_of_less [of a] by (auto simp: bit_set_bit_iff)

lemma bit_one_sector: "bit (set_bit (sector_of a) (0 :: sector_mask)) i \<longleftrightarrow> i = unat a mod 128 div 32"
  by (simp only: bit_set_sector) (simp add: sector_of_def)

section \<open>Properties\<close>

text \<open>
  A request built from an address alone carries a one-hot sector mask: exactly the bit of
  the 32-byte sector of its 128-byte line that the address lies in. It is stored at a fresh
  pointer with a fresh id, and all live requests are untouched.
\<close>

theorem new_mem_fetch_sector:
  assumes "store_inv h" "new_mem_fetch addr acc kind ds cs ts h = (p, h')"
  shows "\<exists>f. mf_heap h' p = Some f \<and> mf_addr f = addr \<and> mf_request_id f = unique_uid h \<and>
    (\<forall>i. bit (mf_sector_mask f) i \<longleftrightarrow> i = unat addr mod 128 div 32) \<and>
    mf_heap h p = None \<and> (\<forall>q. q \<noteq> p \<longrightarrow> mf_heap h' q = mf_heap h q) \<and> store_inv h'"
  using assms bit_one_sector [of addr]
  by (auto simp: new_mem_fetch_def new_mem_fetch_masked_def store_new_def store_inv_def)

theorem new_mem_fetch_sector_witness:
  "\<exists>f. mf_heap (snd (new_mem_fetch 0x1040 GLOBAL_ACC_R READ_REQUEST 32 8 0 empty_store)) 1 = Some f \<and>
     bit (mf_sector_mask f) 2"
  using new_mem_fetch_sector [of empty_store "0x1040" GLOBAL_ACC_R READ_REQUEST 32 8 0 1
      "snd (new_mem_fetch 0x1040 GLOBAL_ACC_R READ_REQUEST 32 8 0 empty_store)"]
  by (auto simp: empty_store_def store_inv_def new_mem_fetch_def new_mem_fetch_masked_def store_new_def)

text \<open>
  A request is answered exactly once: turning a request into its reply keeps its direction, stops
  it being a request, and a second answer fails the assertion. Reads carry their data
  on the way back and writes on the way out, so the two sizes of a round trip always add up to the data once
  and the header twice.
\<close>

theorem set_reply_round_trip:
  assumes "is_request f"
  shows "\<exists>f'. set_reply f = Inr f' \<and> \<not> is_request f' \<and> is_write f' = is_write f \<and>
    set_reply f' = Inl (Assert_Fail ''0'') \<and>
    get_size f + get_size f' = mf_data_size f + 2 * mf_ctrl_size f"
  using assms by (cases "mf_kind f")
    (auto simp: is_request_def set_reply_def is_write_def get_size_def)

theorem set_reply_round_trip_witness:
  "\<exists>f'. set_reply blank_mem_fetch = Inr f' \<and> \<not> is_request f'"
  using set_reply_round_trip [of blank_mem_fetch]
  by (auto simp: is_request_def blank_mem_fetch_def)

text \<open>
  Asking whether a request is a back-invalidation write-back changes it: the query overwrites the
  access type, so a read request that is merely asked is classified as a global write from then on.
\<close>

theorem is_bi_writeback_rewrites:
  "\<exists>f. is_bi_writeback f = (False, f\<lparr>mf_access_type := GLOBAL_ACC_W\<rparr>) \<and>
     mf_access_type f = GLOBAL_ACC_R \<and> \<not> is_write f \<and>
     mf_access_type (snd (is_bi_writeback f)) = GLOBAL_ACC_W"
  by (rule exI [of _ blank_mem_fetch]) (simp add: is_bi_writeback_def blank_mem_fetch_def is_write_def)

end
