(* ===== verification/Address_Map.thy ===== *)
theory Address_Map
  imports Hashing
begin

text \<open>
  \<^verbatim>\<open>src/m2ndp_config.cc\<close> and \<^verbatim>\<open>src/m2ndp_config.h\<close>: the part of \<^verbatim>\<open>M2NDPConfig\<close> that computes.
  Address decoding extracts the bits of a physical address that a field mask selects and packs
  them; the channel index hashes the channel field with the bits above it; the clock domains
  advance by their periods, and a step ticks every domain whose time is smallest. Simulated time is a
  \<^verbatim>\<open>double\<close> in the code: here it is any linearly ordered type with an addition passed as a
  parameter.
\<close>

section \<open>Model\<close>

datatype memory_decode = DEVICE | RAM | BANK_GROUP | BANK | MEM_ROW | COLUMN | CH | BURST

record addr_config =
  m_addrdec_mask :: "memory_decode \<Rightarrow> u64"
  m_channel_indexing_policy :: int
  m_num_channels :: u32
  m_num_ndp_units :: u32
  m_stride_size :: u32
  shmem_option :: "int list"

text \<open>The loop of \<^verbatim>\<open>get_partial_bits\<close>, with the iterations left, \<^verbatim>\<open>id\<close> and the shifted words.\<close>

fun partial_bits_loop :: "nat \<Rightarrow> nat \<Rightarrow> u64 \<Rightarrow> u64 \<Rightarrow> u32 \<Rightarrow> u32" where
  "partial_bits_loop 0 id_bit mask_bits addr_bits result = result"
| "partial_bits_loop (Suc i) id_bit mask_bits addr_bits result =
     (if mask_bits AND 1 \<noteq> 0 then
        partial_bits_loop i (id_bit + 1) (drop_bit 1 mask_bits) (drop_bit 1 addr_bits)
          (ucast ((ucast result :: u64) OR push_bit id_bit (1 AND addr_bits)))
      else partial_bits_loop i id_bit (drop_bit 1 mask_bits) (drop_bit 1 addr_bits) result)"

definition get_partial_bits :: "addr_config \<Rightarrow> memory_decode \<Rightarrow> u64 \<Rightarrow> u64" where
  "get_partial_bits cfg d addr =
     ucast (partial_bits_loop 64 0 (m_addrdec_mask cfg d) (addr AND m_addrdec_mask cfg d) 0)"

text \<open>The loop of \<^verbatim>\<open>get_higher_bits\<close>: iterations left, \<^verbatim>\<open>i\<close>, the complemented mask, \<^verbatim>\<open>max_zero_bit\<close>.\<close>

fun max_zero_bit_loop :: "nat \<Rightarrow> nat \<Rightarrow> u64 \<Rightarrow> nat \<Rightarrow> nat" where
  "max_zero_bit_loop 0 i mask_bits max_zero_bit = max_zero_bit"
| "max_zero_bit_loop (Suc n) i mask_bits max_zero_bit =
     max_zero_bit_loop n (i + 1) (drop_bit 1 mask_bits)
       (if mask_bits AND 1 = 0 then i else max_zero_bit)"

definition get_higher_bits :: "addr_config \<Rightarrow> memory_decode \<Rightarrow> u64 \<Rightarrow> u64" where
  "get_higher_bits cfg d addr = drop_bit (max_zero_bit_loop 64 0 (NOT (m_addrdec_mask cfg d)) 0) addr"

text \<open>An \<^verbatim>\<open>int\<close> initialised from a \<^verbatim>\<open>uint64_t\<close> and converted back: truncation, then sign extension.\<close>

definition through_int :: "u64 \<Rightarrow> u64" where
  "through_int w = scast (ucast w :: u32)"

definition get_channel_index :: "addr_config \<Rightarrow> u64 \<Rightarrow> u64 res" where
  "get_channel_index cfg addr =
     (let ch_bits = ucast (get_partial_bits cfg CH addr) :: u32;
          higher_bits = through_int (get_higher_bits cfg CH addr)
      in if m_channel_indexing_policy cfg = 0 then Inr (scast ch_bits)
         else if m_channel_indexing_policy cfg = 1 then
           res_bind (ipoly_hash_function higher_bits ch_bits (m_num_channels cfg)) (\<lambda>r. Inr (ucast r))
         else if m_channel_indexing_policy cfg = 2 then
           Inr (ucast (bitwise_hash_function higher_bits ch_bits (m_num_channels cfg)))
         else Inr 0)"

definition get_m2ndp_index :: "addr_config \<Rightarrow> u64 \<Rightarrow> u64" where
  "get_m2ndp_index cfg addr = through_int (get_partial_bits cfg DEVICE addr)"

definition get_bank_index :: "addr_config \<Rightarrow> u64 \<Rightarrow> u64" where
  "get_bank_index cfg addr = get_partial_bits cfg BANK addr"

text \<open>The \<^verbatim>\<open>int\<close> fields are converted to \<^verbatim>\<open>uint64_t\<close> by the division and the remainder.\<close>

definition get_matched_unit_id :: "addr_config \<Rightarrow> u64 \<Rightarrow> u64 res" where
  "get_matched_unit_id cfg addr =
     (if m_stride_size cfg = 0 \<or> m_num_ndp_units cfg = 0 then Inl Div_By_Zero
      else Inr (through_int (addr div scast (m_stride_size cfg) mod scast (m_num_ndp_units cfg))))"

fun smem_option_loop :: "int \<Rightarrow> int list \<Rightarrow> int option" where
  "smem_option_loop origin_size [] = None"
| "smem_option_loop origin_size (k # ks) =
     (if origin_size \<le> k * 1024 then Some (k * 1024) else smem_option_loop origin_size ks)"

definition smem_option_size :: "addr_config \<Rightarrow> int \<Rightarrow> int res" where
  "smem_option_size cfg origin_size =
     (case smem_option_loop origin_size (shmem_option cfg) of
        Some s \<Rightarrow> Inr s
      | None \<Rightarrow> (if shmem_option cfg = [] then Inl Out_Of_Range
                  else Inr (last (shmem_option cfg) * 1024)))"

text \<open>The clock domains; \<open>mask\<close> is the set of domains that tick in this step.\<close>

datatype clock_domain = LINK | BUFFER_DRAM | BUFFER_NDP | CACHE | CORE | DRAM

record 't clocks =
  domain_time :: "clock_domain \<Rightarrow> 't"
  domain_period :: "clock_domain \<Rightarrow> 't"
  m_ndp_cycle :: u64
  m_clock_mask :: "clock_domain list"

definition gs_min2 :: "'t::linorder \<Rightarrow> 't \<Rightarrow> 't" where
  "gs_min2 a b = (if a < b then a else b)"

definition min3 :: "'t::linorder \<Rightarrow> 't \<Rightarrow> 't \<Rightarrow> 't" where
  "min3 x y z = (if x < y \<and> x < z then x else gs_min2 y z)"

definition smallest_time :: "('t::linorder) clocks \<Rightarrow> 't" where
  "smallest_time c =
     gs_min2 (min3 (min3 (domain_time c LINK) (domain_time c BUFFER_DRAM) (domain_time c BUFFER_NDP))
                   (domain_time c CORE) (domain_time c DRAM))
             (domain_time c CACHE)"

definition tick_domain ::
  "('t \<Rightarrow> 't \<Rightarrow> 't) \<Rightarrow> 't::linorder \<Rightarrow> clock_domain \<Rightarrow> 't clocks \<Rightarrow> 't clocks" where
  "tick_domain add smallest d c =
     (if domain_time c d \<le> smallest then
        c\<lparr>domain_time := (domain_time c)(d := add (domain_time c d) (domain_period c d)),
          m_clock_mask := m_clock_mask c @ [d],
          m_ndp_cycle := (if d = BUFFER_NDP then m_ndp_cycle c + 1 else m_ndp_cycle c)\<rparr>
      else c)"

definition next_clock_domain :: "('t \<Rightarrow> 't \<Rightarrow> 't) \<Rightarrow> ('t::linorder) clocks \<Rightarrow> 't clocks" where
  "next_clock_domain add c =
     (let s = smallest_time c
      in foldl (\<lambda>c d. tick_domain add s d c) (c\<lparr>m_clock_mask := []\<rparr>)
           [LINK, BUFFER_DRAM, BUFFER_NDP, CACHE, CORE, DRAM])"

text \<open>Back-invalidation bookkeeping: addresses are recorded at a granularity of \<open>unit_size\<close> bytes.\<close>

record bi_state =
  bi_addr_unit_size :: u32
  m_handled_bi_addr :: "u64 set"
  m_inprogress_bi_addr :: "u64 set"

definition bi_unit :: "bi_state \<Rightarrow> u64 \<Rightarrow> u64 res" where
  "bi_unit s addr =
     (if bi_addr_unit_size s = 0 then Inl Div_By_Zero else Inr (addr div scast (bi_addr_unit_size s)))"

definition is_handled_bi_addr :: "u64 \<Rightarrow> bi_state \<Rightarrow> bool res" where
  "is_handled_bi_addr addr s = res_bind (bi_unit s addr) (\<lambda>u. Inr (u \<in> m_handled_bi_addr s))"

definition is_bi_inprogress :: "u64 \<Rightarrow> bi_state \<Rightarrow> bool res" where
  "is_bi_inprogress addr s = res_bind (bi_unit s addr) (\<lambda>u. Inr (u \<in> m_inprogress_bi_addr s))"

definition insert_handled_bi_addr :: "u64 \<Rightarrow> bi_state \<Rightarrow> bi_state res" where
  "insert_handled_bi_addr addr s = res_bind (bi_unit s addr)
     (\<lambda>u. Inr (s\<lparr>m_handled_bi_addr := insert u (m_handled_bi_addr s)\<rparr>))"

definition insert_inprogress_bi_addr :: "u64 \<Rightarrow> bi_state \<Rightarrow> bi_state res" where
  "insert_inprogress_bi_addr addr s = res_bind (bi_unit s addr)
     (\<lambda>u. Inr (s\<lparr>m_inprogress_bi_addr := insert u (m_inprogress_bi_addr s)\<rparr>))"

definition remove_inprogress_bi_addr :: "u64 \<Rightarrow> bi_state \<Rightarrow> bi_state res" where
  "remove_inprogress_bi_addr addr s = res_bind (bi_unit s addr)
     (\<lambda>u. Inr (s\<lparr>m_inprogress_bi_addr := m_inprogress_bi_addr s - {u}\<rparr>))"

section \<open>Bit extraction\<close>

text \<open>The reference: the selected bits, least significant first, cut to 32 bits.\<close>

definition field_bits :: "u64 \<Rightarrow> u64 \<Rightarrow> bool list" where
  "field_bits msk addr = map (bit addr) (filter (bit msk) [0..<64])"

lemma and_one_bit: "(w AND 1 \<noteq> 0) = bit w 0" "(w AND 1 = 0) = (\<not> bit w 0)" for w :: "'a::len word"
  by (simp_all add: and_one_eq bit_0 odd_iff_mod_2_eq_one)

lemma partial_bits_step:
  "(ucast ((ucast r :: u64) OR push_bit k (1 AND a)) :: u32) = r OR (if bit a 0 then push_bit k 1 else 0)"
  if "k < 64" for r :: u32 and a :: u64
  using that by (intro bit_word_eqI)
    (auto simp: bit_simps and_one_bit one_and_eq bit_0 odd_iff_mod_2_eq_one)

lemma or_bits_word_snoc:
  "(bits_word bs :: 'a::len word) OR (if b then push_bit (length bs) 1 else 0) = bits_word (bs @ [b])"
  by (intro bit_word_eqI) (auto simp: bit_simps bit_bits_word nth_append)

lemma partial_bits_loop_eq:
  assumes "n + i \<le> 64" "length bs \<le> i"
  shows "partial_bits_loop n (length bs) (drop_bit i msk) (drop_bit i addr) (bits_word bs) =
    bits_word (bs @ map (bit addr) (filter (bit msk) [i..<i + n]))"
  using assms
proof (induction n arbitrary: i bs)
  case (Suc n)
  have step: "[i..<Suc (i + n)] = i # [Suc i..<Suc (i + n)]"
    by (simp add: upt_conv_Cons)
  show ?case
  proof (cases "bit msk i")
    case True
    have "partial_bits_loop n (length (bs @ [bit addr i])) (drop_bit (Suc i) msk)
        (drop_bit (Suc i) addr) (bits_word (bs @ [bit addr i])) =
      bits_word ((bs @ [bit addr i]) @ map (bit addr) (filter (bit msk) [Suc i..<Suc i + n]))"
      using Suc.prems by (intro Suc.IH) auto
    moreover have "(ucast ((ucast (bits_word bs :: u32) :: u64) OR
        push_bit (length bs) (1 AND drop_bit i addr)) :: u32) = bits_word (bs @ [bit addr i])"
      using Suc.prems by (simp add: partial_bits_step or_bits_word_snoc bit_drop_bit_eq
          del: push_bit_and)
    ultimately show ?thesis
      using True Suc.prems
      by (simp add: and_one_bit bit_drop_bit_eq step drop_bit_drop_bit del: upt_Suc)
  next
    case False
    then show ?thesis
      using Suc.IH [of "Suc i" bs] Suc.prems
      by (simp add: and_one_bit bit_drop_bit_eq step drop_bit_drop_bit del: upt_Suc)
  qed
qed simp

lemma get_partial_bits_eq:
  "get_partial_bits cfg d addr = ucast (bits_word (field_bits (m_addrdec_mask cfg d) addr) :: u32)"
proof -
  have "map (bit (addr AND m_addrdec_mask cfg d)) (filter (bit (m_addrdec_mask cfg d)) [0..<64])
      = field_bits (m_addrdec_mask cfg d) addr"
    by (auto simp: field_bits_def bit_and_iff)
  moreover have "(0 :: u32) = bits_word []"
    by (simp add: bits_word_def)
  ultimately show ?thesis
    using partial_bits_loop_eq [of 64 0 "[]" "m_addrdec_mask cfg d" "addr AND m_addrdec_mask cfg d"]
    by (simp add: get_partial_bits_def)
qed

lemma length_field_bits [simp]: "length (field_bits m a) = length (filter (bit m) [0..<64])"
  by (simp add: field_bits_def)

lemma field_bits_eq_iff: "field_bits m a = field_bits m b \<longleftrightarrow> a AND m = b AND m"
proof
  assume "field_bits m a = field_bits m b"
  then have "\<forall>i<64. bit m i \<longrightarrow> bit a i = bit b i"
    by (auto simp: field_bits_def)
  then show "a AND m = b AND m"
    by (intro bit_word_eqI) (auto simp: bit_and_iff)
next
  assume "a AND m = b AND m"
  then have "bit (a AND m) i = bit (b AND m) i" for i
    by simp
  then show "field_bits m a = field_bits m b"
    by (auto simp: field_bits_def bit_and_iff)
qed

lemma max_zero_bit_loop_eq:
  assumes "n + i \<le> 64"
  shows "max_zero_bit_loop n i (drop_bit i (NOT m)) z =
    (if filter (bit m) [i..<i + n] = [] then z else last (filter (bit m) [i..<i + n]))"
  using assms
proof (induction n arbitrary: i z)
  case (Suc n)
  have "[i..<Suc (i + n)] = i # [Suc i..<Suc (i + n)]"
    by (simp add: upt_conv_Cons)
  then show ?case
    using Suc.IH [of "Suc i"] Suc.prems
    by (auto simp: and_one_bit bit_drop_bit_eq bit_not_iff drop_bit_drop_bit simp del: upt_Suc)
qed simp

lemma get_higher_bits_eq:
  "get_higher_bits cfg d addr =
    (let bs = filter (bit (m_addrdec_mask cfg d)) [0..<64]
     in drop_bit (if bs = [] then 0 else last bs) addr)"
  using max_zero_bit_loop_eq [of 64 0 "m_addrdec_mask cfg d" 0]
  by (simp add: get_higher_bits_def Let_def)

text \<open>A field of \<open>n\<close> contiguous bits at position \<open>s\<close>.\<close>

lemma filter_contiguous:
  assumes "s + n \<le> 64"
  shows "filter (bit (push_bit s (Bit_Operations.mask n) :: u64)) [0..<64] = [s..<s + n]"
proof -
  have "[0..<64] = [0..<s] @ [s..<s + n] @ [s + n..<64]"
    using assms upt_add_eq_append [of 0 s "64 - s"] upt_add_eq_append [of s "s + n" "64 - (s + n)"]
    by simp
  moreover have "filter (bit (push_bit s (Bit_Operations.mask n) :: u64)) [s..<s + n] = [s..<s + n]"
    using assms by (intro filter_True) (auto simp: bit_simps)
  moreover have "filter (bit (push_bit s (Bit_Operations.mask n) :: u64)) [0..<s] = []"
    "filter (bit (push_bit s (Bit_Operations.mask n) :: u64)) [s + n..<64] = []"
    by (auto intro!: filter_False simp: bit_simps)
  ultimately show ?thesis
    by simp
qed

lemma contiguous_bits:
  assumes "m_addrdec_mask cfg CH = push_bit s (Bit_Operations.mask n)" "s + n \<le> 64" "n \<le> 32"
  shows "bit (ucast (get_partial_bits cfg CH a) :: u32) i \<longleftrightarrow> i < n \<and> bit a (s + i)"
    and "0 < n \<Longrightarrow> i < 32 \<Longrightarrow>
      bit (through_int (get_higher_bits cfg CH a)) i \<longleftrightarrow> bit a (s + n - 1 + i)"
proof -
  show "bit (ucast (get_partial_bits cfg CH a) :: u32) i \<longleftrightarrow> i < n \<and> bit a (s + i)"
    using assms by (auto simp: get_partial_bits_eq field_bits_def filter_contiguous bit_bits_word
        bit_simps simp del: upt_Suc)
  have "last [s..<s + n] = s + n - 1" if "0 < n"
    using that by simp
  then show "bit (through_int (get_higher_bits cfg CH a)) i \<longleftrightarrow> bit a (s + n - 1 + i)"
    if "0 < n" "i < 32"
    using that assms by (auto simp: get_higher_bits_eq filter_contiguous through_int_def
        bit_simps Let_def add.commute)
qed

text \<open>
  The hash sees the top channel bit twice, as the top index bit and as the lowest upper bit;
  channel selection stays one to one because the row of the top bit does not read that upper bit.
\<close>

lemma ipoly_overlap_inject:
  assumes "\<And>j. 0 < j \<Longrightarrow> j < 32 \<Longrightarrow> bit a j = bit (b :: u64) j"
  shows "bit a 0 = bit (x :: u32) 3 \<Longrightarrow> bit b 0 = bit y 3 \<Longrightarrow> ipoly_16 a x = ipoly_16 b y \<Longrightarrow>
      bit x 0 = bit y 0 \<and> bit x 1 = bit y 1 \<and> bit x 2 = bit y 2 \<and> bit x 3 = bit y 3"
    and "bit a 0 = bit x 4 \<Longrightarrow> bit b 0 = bit y 4 \<Longrightarrow> ipoly_32 a x = ipoly_32 b y \<Longrightarrow>
      bit x 0 = bit y 0 \<and> bit x 1 = bit y 1 \<and> bit x 2 = bit y 2 \<and> bit x 3 = bit y 3 \<and>
      bit x 4 = bit y 4"
    and "bit a 0 = bit x 5 \<Longrightarrow> bit b 0 = bit y 5 \<Longrightarrow> ipoly_64 a x = ipoly_64 b y \<Longrightarrow>
      bit x 0 = bit y 0 \<and> bit x 1 = bit y 1 \<and> bit x 2 = bit y 2 \<and> bit x 3 = bit y 3 \<and>
      bit x 4 = bit y 4 \<and> bit x 5 = bit y 5"
proof -
  have rows: "xor_at (bit a) js = xor_at (bit b) js" if "\<forall>j\<in>set js. 0 < j \<and> j < 32" for js
    using that assms by (induction js) auto
  have zero: "xor_at p (js @ [0]) = (xor_at p js \<noteq> p 0)" for p js
    by (simp add: xor_at_append)
  show "bit a 0 = bit (x :: u32) 3 \<Longrightarrow> bit b 0 = bit y 3 \<Longrightarrow> ipoly_16 a x = ipoly_16 b y \<Longrightarrow>
      bit x 0 = bit y 0 \<and> bit x 1 = bit y 1 \<and> bit x 2 = bit y 2 \<and> bit x 3 = bit y 3"
    unfolding ipoly_16_def
    using rows [of "[11, 10, 9, 8, 6, 4, 3]"] rows [of "[12, 8, 7, 6, 5, 3, 1]"]
      rows [of "[9, 8, 7, 6, 4, 2, 1]"] rows [of "[10, 9, 8, 7, 5, 3, 2]"]
      zero [of _ "[11, 10, 9, 8, 6, 4, 3]"] zero [of _ "[12, 8, 7, 6, 5, 3, 1]"]
    by (simp add: bits_word_inject del: xor_at_simps) argo
  show "bit a 0 = bit x 4 \<Longrightarrow> bit b 0 = bit y 4 \<Longrightarrow> ipoly_32 a x = ipoly_32 b y \<Longrightarrow>
      bit x 0 = bit y 0 \<and> bit x 1 = bit y 1 \<and> bit x 2 = bit y 2 \<and> bit x 3 = bit y 3 \<and>
      bit x 4 = bit y 4"
    unfolding ipoly_32_def
    using rows [of "[13, 12, 11, 10, 9, 6, 5, 3]"] rows [of "[14, 13, 12, 11, 10, 7, 6, 4, 1]"]
      rows [of "[14, 10, 9, 8, 7, 6, 3, 2]"] rows [of "[11, 10, 9, 8, 7, 4, 3, 1]"]
      rows [of "[12, 11, 10, 9, 8, 5, 4, 2]"]
      zero [of _ "[13, 12, 11, 10, 9, 6, 5, 3]"] zero [of _ "[14, 10, 9, 8, 7, 6, 3, 2]"]
    by (simp add: bits_word_inject del: xor_at_simps) argo
  show "bit a 0 = bit x 5 \<Longrightarrow> bit b 0 = bit y 5 \<Longrightarrow> ipoly_64 a x = ipoly_64 b y \<Longrightarrow>
      bit x 0 = bit y 0 \<and> bit x 1 = bit y 1 \<and> bit x 2 = bit y 2 \<and> bit x 3 = bit y 3 \<and>
      bit x 4 = bit y 4 \<and> bit x 5 = bit y 5"
    unfolding ipoly_64_def
    using rows [of "[18, 17, 16, 15, 12, 10, 6, 5]"] rows [of "[15, 13, 12, 11, 10, 7, 5, 1]"]
      rows [of "[16, 14, 13, 12, 11, 8, 6, 2, 1]"] rows [of "[17, 15, 14, 13, 12, 9, 7, 3, 2]"]
      rows [of "[18, 16, 15, 14, 13, 10, 8, 4, 3]"] rows [of "[17, 16, 15, 14, 11, 9, 5, 4]"]
      zero [of _ "[18, 17, 16, 15, 12, 10, 6, 5]"] zero [of _ "[15, 13, 12, 11, 10, 7, 5, 1]"]
    by (simp add: bits_word_inject del: xor_at_simps) argo
qed

section \<open>Clock domains\<close>

lemma all_domains: "set [LINK, BUFFER_DRAM, BUFFER_NDP, CACHE, CORE, DRAM] = UNIV"
proof -
  have "d \<in> set [LINK, BUFFER_DRAM, BUFFER_NDP, CACHE, CORE, DRAM]" for d
    by (cases d) simp_all
  then show ?thesis
    by blast
qed

lemma smallest_time_le: "smallest_time c \<le> domain_time c d"
  by (cases d) (auto simp: smallest_time_def min3_def gs_min2_def)

lemma smallest_time_attained: "\<exists>d. smallest_time c = domain_time c d"
  by (auto simp: smallest_time_def min3_def gs_min2_def)

lemma foldl_tick_domain:
  assumes "distinct ds"
  shows "foldl (\<lambda>c d. tick_domain add s d c) c ds =
    c\<lparr>domain_time := (\<lambda>d. if d \<in> set ds \<and> domain_time c d \<le> s
        then add (domain_time c d) (domain_period c d) else domain_time c d),
      m_clock_mask := m_clock_mask c @ filter (\<lambda>d. domain_time c d \<le> s) ds,
      m_ndp_cycle := m_ndp_cycle c +
        (if BUFFER_NDP \<in> set ds \<and> domain_time c BUFFER_NDP \<le> s then 1 else 0)\<rparr>"
  using assms
proof (induction ds arbitrary: c)
  case (Cons d ds)
  have "filter (\<lambda>e. domain_time (tick_domain add s d c) e \<le> s) ds = filter (\<lambda>e. domain_time c e \<le> s) ds"
    using Cons.prems by (intro filter_cong) (auto simp: tick_domain_def)
  then show ?case
    using Cons by (auto simp: tick_domain_def fun_eq_iff intro!: clocks.equality)
qed simp

lemma foldl_all_domains:
  assumes "distinct ds" "set ds = UNIV"
  shows "foldl (\<lambda>c d. tick_domain add s d c) (c\<lparr>m_clock_mask := []\<rparr>) ds =
    c\<lparr>domain_time := (\<lambda>d. if domain_time c d \<le> s
        then add (domain_time c d) (domain_period c d) else domain_time c d),
      m_clock_mask := filter (\<lambda>d. domain_time c d \<le> s) ds,
      m_ndp_cycle := m_ndp_cycle c + bool_int (domain_time c BUFFER_NDP \<le> s)\<rparr>"
  using foldl_tick_domain [OF assms(1), of add s "c\<lparr>m_clock_mask := []\<rparr>"] assms(2)
  by (simp add: bool_int_def cong: if_cong)

section \<open>Properties\<close>

text \<open>
  Address decoding packs exactly the masked bits: for a field of at most 32 bits the extracted
  value is below two to the number of mask bits, and two addresses decode to the same value if and only if
  they agree on every bit of the mask.
\<close>

theorem get_partial_bits_field:
  assumes "m_addrdec_mask cfg d = m" "length (filter (bit m) [0..<64]) \<le> 32"
  shows "unat (get_partial_bits cfg d a) < 2 ^ length (filter (bit m) [0..<64]) \<and>
    (get_partial_bits cfg d a = get_partial_bits cfg d b \<longleftrightarrow> a AND m = b AND m)"
proof
  have "unat (bits_word (field_bits m a) :: u32) < 2 ^ length (field_bits m a)"
    using assms(2) by (intro bits_word_less) simp
  then show "unat (get_partial_bits cfg d a) < 2 ^ length (filter (bit m) [0..<64])"
    using assms(1) by (simp add: get_partial_bits_eq unsigned_ucast_eq take_bit_nat_def)
  have "get_partial_bits cfg d a = get_partial_bits cfg d b \<longleftrightarrow>
      (bits_word (field_bits m a) :: u32) = bits_word (field_bits m b)"
    using assms(1) by (simp add: get_partial_bits_eq)
  also have "\<dots> \<longleftrightarrow> field_bits m a = field_bits m b"
    using assms(2) by (intro bits_word_inject) auto
  finally show "get_partial_bits cfg d a = get_partial_bits cfg d b \<longleftrightarrow> a AND m = b AND m"
    by (simp add: field_bits_eq_iff)
qed

theorem get_partial_bits_field_witness:
  "unat (get_partial_bits \<lparr>m_addrdec_mask = (\<lambda>_. 0x1f00), m_channel_indexing_policy = 1,
      m_num_channels = 32, m_num_ndp_units = 32, m_stride_size = 256, shmem_option = []\<rparr> CH 0x12345) < 32"
proof -
  have "filter (bit (0x1f00 :: u64)) [0..<64] = [8..<13]"
    by (simp add: upt_conv_Cons bit_numeral_rec)
  then show ?thesis
    using get_partial_bits_field [of "\<lparr>m_addrdec_mask = (\<lambda>_. 0x1f00), m_channel_indexing_policy = 1,
      m_num_channels = 32, m_num_ndp_units = 32, m_stride_size = 256, shmem_option = []\<rparr>" CH
      "0x1f00" "0x12345"] by simp
qed

text \<open>
  With IPOLY indexing over 16, 32 or 64 channels and a contiguous channel field of matching
  width, every address gets a legal channel, and two addresses that differ only inside the channel
  field get different channels: consecutive interleaving units never collide, although the code feeds
  the top channel bit to the hash a second time as the lowest of the upper bits.
\<close>

theorem channel_index_one_to_one:
  assumes "n \<in> {4, 5, 6}" "m_num_channels cfg = 2 ^ n" "m_channel_indexing_policy cfg = 1"
    and "m_addrdec_mask cfg CH = push_bit s (Bit_Operations.mask n)" "s + n \<le> 64"
    and "a AND NOT (m_addrdec_mask cfg CH) = b AND NOT (m_addrdec_mask cfg CH)"
  shows "\<exists>i j. get_channel_index cfg a = Inr i \<and> get_channel_index cfg b = Inr j \<and>
    unat i < 2 ^ n \<and> (i = j \<longrightarrow> a = b)"
proof -
  define ch where "ch w = (ucast (get_partial_bits cfg CH w) :: u32)" for w
  define hi where "hi w = through_int (get_higher_bits cfg CH w)" for w
  define h where "h = (if n = 4 then ipoly_16 else if n = 5 then ipoly_32 else ipoly_64)"
  have n: "0 < n" "n \<le> 32"
    using assms(1) by auto
  have idx: "get_channel_index cfg w = Inr (ucast (h (hi w) (ch w)))" for w
    using assms(1-3) by (auto simp: get_channel_index_def ipoly_hash_function_def h_def ch_def hi_def)
  have ch: "bit (ch w) i \<longleftrightarrow> i < n \<and> bit w (s + i)" for w i
    unfolding ch_def using contiguous_bits(1) [OF assms(4,5) n(2)] by simp
  have hi: "bit (hi w) i \<longleftrightarrow> bit w (s + n - 1 + i)" if "i < 32" for w i
    unfolding hi_def using contiguous_bits(2) [OF assms(4,5) n(2) n(1) that] by simp
  have out: "bit a i = bit b i" if "i < s \<or> s + n \<le> i" for i
  proof -
    have "bit (a AND NOT (m_addrdec_mask cfg CH)) i = bit (b AND NOT (m_addrdec_mask cfg CH)) i"
      using assms(6) by simp
    then show ?thesis
      using that by (cases "i < 64") (auto simp: assms(4) bit_simps dest: bit_imp_le_length)
  qed
  have "unat (h (hi a) (ch a)) < 2 ^ n"
    using assms(1) ipoly_less [of "hi a" "ch a"] by (auto simp: h_def)
  then have bound: "unat (ucast (h (hi a) (ch a)) :: u64) < 2 ^ n"
    by (simp add: unsigned_ucast_eq take_bit_nat_def)
  have "a = b" if "(ucast (h (hi a) (ch a)) :: u64) = ucast (h (hi b) (ch b))"
  proof -
    have eq: "h (hi a) (ch a) = h (hi b) (ch b)"
      using that by simp
    have up: "bit (hi a) j = bit (hi b) j" if "0 < j" "j < 32" for j
    proof -
      have "s + n \<le> s + n - 1 + j"
        using that n(1) by linarith
      then show ?thesis
        using that hi [of j a] hi [of j b] out [of "s + n - 1 + j"] by blast
    qed
    have top: "bit (hi w) 0 = bit (ch w) (n - 1)" for w
      using hi [of 0 w] ch [of w "n - 1"] n(1) by simp
    have inner: "bit (ch a) i = bit (ch b) i" if i: "i < n" for i
    proof -
      consider "n = 4" "i = 0 \<or> i = 1 \<or> i = 2 \<or> i = 3" |
        "n = 5" "i = 0 \<or> i = 1 \<or> i = 2 \<or> i = 3 \<or> i = 4" |
        "n = 6" "i = 0 \<or> i = 1 \<or> i = 2 \<or> i = 3 \<or> i = 4 \<or> i = 5"
        using assms(1) i by force
      then show ?thesis
      proof cases
        case 1
        then show ?thesis
          using ipoly_overlap_inject(1) [OF up, of "ch a" "ch b"] top [of a] top [of b] eq
          by (auto simp: h_def)
      next
        case 2
        then show ?thesis
          using ipoly_overlap_inject(2) [OF up, of "ch a" "ch b"] top [of a] top [of b] eq
          by (auto simp: h_def)
      next
        case 3
        then show ?thesis
          using ipoly_overlap_inject(3) [OF up, of "ch a" "ch b"] top [of a] top [of b] eq
          by (auto simp: h_def)
      qed
    qed
    show ?thesis
    proof (rule bit_word_eqI)
      fix i
      show "bit a i = bit b i"
        using out [of i] inner [of "i - s"] ch [of a "i - s"] ch [of b "i - s"] n by force
    qed
  qed
  then show ?thesis
    using bound idx by auto
qed

theorem channel_index_one_to_one_witness:
  "\<exists>i j. get_channel_index \<lparr>m_addrdec_mask = (\<lambda>_. push_bit 8 (Bit_Operations.mask 5)),
      m_channel_indexing_policy = 1, m_num_channels = 32, m_num_ndp_units = 32, m_stride_size = 256,
      shmem_option = []\<rparr> 0x12000 = Inr i \<and>
    get_channel_index \<lparr>m_addrdec_mask = (\<lambda>_. push_bit 8 (Bit_Operations.mask 5)),
      m_channel_indexing_policy = 1, m_num_channels = 32, m_num_ndp_units = 32, m_stride_size = 256,
      shmem_option = []\<rparr> 0x13100 = Inr j \<and> i \<noteq> j"
  using channel_index_one_to_one [of 5 "\<lparr>m_addrdec_mask = (\<lambda>_. push_bit 8 (Bit_Operations.mask 5)),
      m_channel_indexing_policy = 1, m_num_channels = 32, m_num_ndp_units = 32, m_stride_size = 256,
      shmem_option = []\<rparr>" 8 "0x12000" "0x13100"]
  by (auto simp: mask_eq_exp_minus_1 push_bit_eq_mult)

text \<open>
  A clock step ticks exactly the domains whose time is minimal, at least one of them, advances
  just those by their periods, counts an NDP cycle if and only if the NDP domain ticks, and (with positive
  periods) strictly advances simulated time.
\<close>

theorem next_clock_domain_ticks_earliest:
  assumes "\<And>d t. t < add t (domain_period c d)" "next_clock_domain add c = c'"
  shows "set (m_clock_mask c') = {d. \<forall>e. domain_time c d \<le> domain_time c e} \<and>
    m_clock_mask c' \<noteq> [] \<and> distinct (m_clock_mask c') \<and>
    (\<forall>d. domain_time c' d = (if d \<in> set (m_clock_mask c')
       then add (domain_time c d) (domain_period c d) else domain_time c d)) \<and>
    m_ndp_cycle c' = m_ndp_cycle c + bool_int (BUFFER_NDP \<in> set (m_clock_mask c')) \<and>
    smallest_time c < smallest_time c'"
proof -
  obtain ds where ds: "distinct ds" "set ds = UNIV" and
    c': "c' = c\<lparr>domain_time := (\<lambda>d. if domain_time c d \<le> smallest_time c
        then add (domain_time c d) (domain_period c d) else domain_time c d),
      m_clock_mask := filter (\<lambda>d. domain_time c d \<le> smallest_time c) ds,
      m_ndp_cycle := m_ndp_cycle c + bool_int (domain_time c BUFFER_NDP \<le> smallest_time c)\<rparr>"
  proof
    show "distinct [LINK, BUFFER_DRAM, BUFFER_NDP, CACHE, CORE, DRAM]"
      by simp
    then show "c' = c\<lparr>domain_time := (\<lambda>d. if domain_time c d \<le> smallest_time c
          then add (domain_time c d) (domain_period c d) else domain_time c d),
        m_clock_mask := filter (\<lambda>d. domain_time c d \<le> smallest_time c)
          [LINK, BUFFER_DRAM, BUFFER_NDP, CACHE, CORE, DRAM],
        m_ndp_cycle := m_ndp_cycle c + bool_int (domain_time c BUFFER_NDP \<le> smallest_time c)\<rparr>"
      unfolding assms(2) [symmetric] next_clock_domain_def Let_def
      by (rule foldl_all_domains [OF _ all_domains])
  qed (rule all_domains)
  have min: "domain_time c d \<le> smallest_time c \<longleftrightarrow> (\<forall>e. domain_time c d \<le> domain_time c e)" for d
    using smallest_time_le [of c] smallest_time_attained [of c] by (metis order.trans)
  have msk: "set (m_clock_mask c') = {d. domain_time c d \<le> smallest_time c}"
    by (simp add: c' ds)
  obtain d where "smallest_time c = domain_time c d"
    using smallest_time_attained by blast
  then have "m_clock_mask c' \<noteq> []"
    using msk by (metis empty_iff empty_set mem_Collect_eq order.refl)
  moreover have "smallest_time c < domain_time c' d" for d
    using c' assms(1) [of "domain_time c d" d] smallest_time_le [of c d]
    by (cases "domain_time c d \<le> smallest_time c") simp_all
  moreover have "distinct (m_clock_mask c')"
    by (simp add: c' ds)
  ultimately show ?thesis
    using msk min c' smallest_time_attained [of c'] by auto
qed

theorem next_clock_domain_ticks_earliest_witness:
  "m_ndp_cycle (next_clock_domain (+) \<lparr>domain_time = (\<lambda>_. 0 :: nat), domain_period = (\<lambda>_. 2),
     m_ndp_cycle = 7, m_clock_mask = []\<rparr>) = 8"
  using next_clock_domain_ticks_earliest [of "(+)" "\<lparr>domain_time = (\<lambda>_. 0 :: nat),
      domain_period = (\<lambda>_. 2), m_ndp_cycle = 7, m_clock_mask = []\<rparr>", OF _ refl]
  by (simp add: bool_int_def)

end
