(* ===== verification/Cache_Config.thy ===== *)
theory Cache_Config
  imports Mem_Fetch Address_Map
begin

text \<open>
  \<^verbatim>\<open>CacheConfig\<close> of \<^verbatim>\<open>src/cache.h\<close> and \<^verbatim>\<open>src/cache.cc\<close>: the geometry and policies of a cache, read from
  a colon-separated string, with the binary logarithm, the tag, block and MSHR addresses and the
  set index. The \<^verbatim>\<open>sscanf\<close> of the initialiser is modelled as far as its format string goes:
  characters, unsigned decimal numbers and literal separators, stopping at the first mismatch.
\<close>

section \<open>Model\<close>

definition shift_if :: "bool \<Rightarrow> nat \<Rightarrow> u32" where
  "shift_if b n = push_bit n (bool_int b)"

definition LOGB2 :: "u32 \<Rightarrow> u32" where
  "LOGB2 v =
     (let s4 = shift_if (v AND 0xFFFF0000 \<noteq> 0) 4; v4 = drop_bit (unat s4) v; r4 = 0 OR s4;
          s3 = shift_if (v4 AND 0xFF00 \<noteq> 0) 3; v3 = drop_bit (unat s3) v4; r3 = r4 OR s3;
          s2 = shift_if (v3 AND 0xF0 \<noteq> 0) 2; v2 = drop_bit (unat s2) v3; r2 = r3 OR s2;
          s1 = shift_if (v2 AND 0xC \<noteq> 0) 1; v1 = drop_bit (unat s1) v2; r1 = r2 OR s1;
          s0 = shift_if (v1 AND 0x2 \<noteq> 0) 0
      in r1 OR s0)"

datatype scan_item = Scan_Char | Scan_Unsigned | Scan_Lit char

datatype scan_value = Char_Value char | Unsigned_Value u32

definition digit_value :: "char \<Rightarrow> nat" where
  "digit_value c = of_char c - 48"

definition is_digit :: "char \<Rightarrow> bool" where
  "is_digit c \<longleftrightarrow> 48 \<le> (of_char c :: nat) \<and> (of_char c :: nat) \<le> 57"

definition is_space :: "char \<Rightarrow> bool" where
  "is_space c \<longleftrightarrow> (of_char c :: nat) = 32 \<or> (9 \<le> (of_char c :: nat) \<and> (of_char c :: nat) \<le> 13)"

text \<open>\<^verbatim>\<open>%u\<close> skips white space and takes an optional sign; the value wraps at 32 bits.\<close>

definition scan_sign :: "string \<Rightarrow> bool \<times> string" where
  "scan_sign s =
     (case s of [] \<Rightarrow> (False, [])
      | c # t \<Rightarrow> if c = CHR ''-'' then (True, t) else if c = CHR ''+'' then (False, t) else (False, s))"

fun sscanf :: "scan_item list \<Rightarrow> string \<Rightarrow> scan_value list" where
  "sscanf [] s = []"
| "sscanf (Scan_Char # fs) [] = []"
| "sscanf (Scan_Char # fs) (c # s) = Char_Value c # sscanf fs s"
| "sscanf (Scan_Lit l # fs) s =
     (case s of [] \<Rightarrow> [] | c # s' \<Rightarrow> if c = l then sscanf fs s' else [])"
| "sscanf (Scan_Unsigned # fs) s =
     (let (neg, t) = scan_sign (dropWhile is_space s); ds = takeWhile is_digit t;
          n = foldl (\<lambda>n c. 10 * n + of_nat (digit_value c)) 0 ds
      in if ds = [] then []
         else Unsigned_Value (if neg then - n else n) # sscanf fs (dropWhile is_digit t))"

definition cache_format :: "scan_item list" where
  "cache_format =
     [Scan_Char, Scan_Lit CHR '':'', Scan_Unsigned, Scan_Lit CHR '':'', Scan_Unsigned,
      Scan_Lit CHR '':'', Scan_Unsigned, Scan_Lit CHR '','', Scan_Char, Scan_Lit CHR '':'',
      Scan_Char, Scan_Lit CHR '':'', Scan_Char, Scan_Lit CHR '':'', Scan_Char, Scan_Lit CHR '':'',
      Scan_Char, Scan_Lit CHR '','', Scan_Char, Scan_Lit CHR '':'', Scan_Unsigned,
      Scan_Lit CHR '':'', Scan_Unsigned, Scan_Lit CHR '','', Scan_Unsigned, Scan_Lit CHR '':'',
      Scan_Unsigned, Scan_Lit CHR '','', Scan_Unsigned]"

record cache_config =
  m_valid :: bool
  m_origin_nset :: u32
  m_line_size :: u32
  m_line_size_log2 :: u32
  m_nset :: u32
  m_nset_log2 :: u32
  m_assoc :: u32
  m_origin_assoc :: u32
  m_atom_size :: u32
  m_sector_size_log2 :: u32
  m_mshr_entries :: u32
  m_mshr_max_merge :: u32
  m_miss_queue_size :: u32
  m_result_fifo_entries :: u32
  m_data_port_width :: u32
  m_cache_type :: CacheType
  m_evict_policy :: EvictPolicy
  m_write_policy :: WritePolicy
  m_write_alloc_policy :: WriteAllocatePolicy
  m_alloc_policy :: AllocationPolicy
  m_mshr_type :: MshrConfig
  m_set_index_function :: SetIndexFunction
  m_m2ndp_config :: addr_config

text \<open>The letter maps; \<^verbatim>\<open>operator[]\<close> on an unknown letter yields the enumerator with value 0.\<close>

definition WritePolicyMap :: "char \<Rightarrow> WritePolicy" where
  "WritePolicyMap c =
     (if c = CHR ''B'' then WRITE_BACK else if c = CHR ''T'' then WRITE_THROUGH
      else if c = CHR ''E'' then WRITE_EVICT else if c = CHR ''L'' then LOCAL_WB_GLOBAL_WT
      else READ_ONLY)"

definition AllocationPolicyMap :: "char \<Rightarrow> AllocationPolicy" where
  "AllocationPolicyMap c =
     (if c = CHR ''f'' then ON_FILL else if c = CHR ''s'' then STREAMING else ON_MISS)"

definition WriteAllocatePolicyMap :: "char \<Rightarrow> WriteAllocatePolicy" where
  "WriteAllocatePolicyMap c =
     (if c = CHR ''W'' then WRITE_ALLOCATE else if c = CHR ''F'' then FETCH_ON_WRITE
      else if c = CHR ''L'' then LAZY_FETCH_ON_READ else NO_WRITE_ALLOCATE)"

definition CacheTypeMap :: "char \<Rightarrow> CacheType" where
  "CacheTypeMap c = (if c = CHR ''S'' then SECTOR else NORMAL)"

definition EvictPolicyMap :: "char \<Rightarrow> EvictPolicy" where
  "EvictPolicyMap c = (if c = CHR ''F'' then FIFO else LRU)"

definition MshrConfigMap :: "char \<Rightarrow> MshrConfig" where
  "MshrConfigMap c = (if c = CHR ''S'' then SECTOR_ASSOC else ASSOC)"

definition SetIndexFunctionMap :: "char \<Rightarrow> SetIndexFunction" where
  "SetIndexFunctionMap c =
     (if c = CHR ''X'' then BITWISE_XORING_FUNCTION else if c = CHR ''P'' then HASH_IPOLY_FUNCTION
      else if c = CHR ''C'' then CUSTOM_SET_FUNCTION else LINEAR_SET_FUNCTION)"

text \<open>The numbers and letters the scan assigned; those it did not reach keep their initial 0.\<close>

definition scanned_unsigned :: "scan_value list \<Rightarrow> nat \<Rightarrow> u32" where
  "scanned_unsigned vs k =
     (if k < length vs then (case vs ! k of Unsigned_Value n \<Rightarrow> n | Char_Value _ \<Rightarrow> 0) else 0)"

definition scanned_char :: "scan_value list \<Rightarrow> nat \<Rightarrow> char" where
  "scanned_char vs k =
     (if k < length vs then (case vs ! k of Char_Value c \<Rightarrow> c | Unsigned_Value _ \<Rightarrow> CHR 0x00)
      else CHR 0x00)"

definition cache_config_init :: "string \<Rightarrow> addr_config \<Rightarrow> cache_config res" where
  "cache_config_init config m2ndp_config =
     res_bind (assert_that (0 < length config) ''config.size() > 0'') (\<lambda>_.
     let vs = sscanf cache_format config
     in res_bind (assert_that (12 \<le> length vs) ''ntok >= 12'') (\<lambda>_.
        let ctype = CacheTypeMap (scanned_char vs 0);
            nset = scanned_unsigned vs 1; line_size = scanned_unsigned vs 2;
            assoc = scanned_unsigned vs 3
        in Inr \<lparr>m_valid = True, m_origin_nset = nset, m_line_size = line_size,
            m_line_size_log2 = LOGB2 line_size, m_nset = nset, m_nset_log2 = LOGB2 nset,
            m_assoc = assoc, m_origin_assoc = assoc,
            m_atom_size = (if ctype = SECTOR then of_nat MEM_ACCESS_SIZE else line_size),
            m_sector_size_log2 = LOGB2 (of_nat MEM_ACCESS_SIZE),
            m_mshr_entries = scanned_unsigned vs 10, m_mshr_max_merge = scanned_unsigned vs 11,
            m_miss_queue_size = scanned_unsigned vs 12,
            m_result_fifo_entries = scanned_unsigned vs 13,
            m_data_port_width = scanned_unsigned vs 14, m_cache_type = ctype,
            m_evict_policy = EvictPolicyMap (scanned_char vs 4),
            m_write_policy = WritePolicyMap (scanned_char vs 5),
            m_write_alloc_policy = WriteAllocatePolicyMap (scanned_char vs 7),
            m_alloc_policy = AllocationPolicyMap (scanned_char vs 6),
            m_mshr_type = MshrConfigMap (scanned_char vs 9),
            m_set_index_function = SetIndexFunctionMap (scanned_char vs 8),
            m_m2ndp_config = m2ndp_config\<rparr>))"

definition get_num_lines :: "cache_config \<Rightarrow> u32" where
  "get_num_lines cfg = m_nset cfg * m_assoc cfg"

definition get_total_size_in_kb :: "cache_config \<Rightarrow> u32" where
  "get_total_size_in_kb cfg = (m_line_size cfg * m_nset cfg * m_assoc cfg) div 1024"

definition get_origin_size :: "cache_config \<Rightarrow> u32" where
  "get_origin_size cfg = m_line_size cfg * m_origin_assoc cfg * m_origin_nset cfg"

definition get_tag :: "cache_config \<Rightarrow> u64 \<Rightarrow> u64" where
  "get_tag cfg addr = addr AND NOT (ucast (m_line_size cfg - 1))"

definition get_block_addr :: "cache_config \<Rightarrow> u64 \<Rightarrow> u64" where
  "get_block_addr cfg addr = addr AND NOT (ucast (m_line_size cfg - 1))"

definition get_mshr_addr :: "cache_config \<Rightarrow> u64 \<Rightarrow> u64" where
  "get_mshr_addr cfg addr = addr AND NOT (ucast (m_atom_size cfg - 1))"

text \<open>\<^verbatim>\<open>(addr >> m_line_size_log2) & (m_nset - 1)\<close>, cut to 32 bits.\<close>

definition set_index_bits :: "cache_config \<Rightarrow> u64 \<Rightarrow> u32" where
  "set_index_bits cfg addr =
     ucast (drop_bit (unat (m_line_size_log2 cfg)) addr AND ucast (m_nset cfg - 1))"

text \<open>
  The upper bits are written \<^verbatim>\<open>addr > (m_line_size_log2 + m_nset_log2)\<close> in the code: a comparison, so
  they are 0 or 1.
\<close>

definition set_higher_bits :: "cache_config \<Rightarrow> u64 \<Rightarrow> u64" where
  "set_higher_bits cfg addr = bool_int (ucast (m_line_size_log2 cfg + m_nset_log2 cfg) < addr)"

definition hash_function :: "cache_config \<Rightarrow> u64 \<Rightarrow> u32 res" where
  "hash_function cfg addr =
     (case m_set_index_function cfg of
        LINEAR_SET_FUNCTION \<Rightarrow> Inr (set_index_bits cfg addr)
      | BITWISE_XORING_FUNCTION \<Rightarrow>
          Inr (bitwise_hash_function (set_higher_bits cfg addr) (set_index_bits cfg addr) (m_nset cfg))
      | HASH_IPOLY_FUNCTION \<Rightarrow>
          ipoly_hash_function (set_higher_bits cfg addr) (set_index_bits cfg addr) (m_nset cfg)
      | CUSTOM_SET_FUNCTION \<Rightarrow> Inr 0)"

definition get_set_index :: "cache_config \<Rightarrow> u64 \<Rightarrow> u32 res" where
  "get_set_index cfg addr = hash_function cfg addr"

section \<open>Binary logarithm\<close>

text \<open>
  One halving step: the test on the upper half of a \<open>2 * k\<close>-bit value tells whether it has to
  be shifted by \<open>k\<close>.
\<close>

lemma upper_half_test:
  fixes v hi :: u32
  assumes "\<And>i. bit hi i \<longleftrightarrow> k \<le> i \<and> i < 2 * k" "2 * k \<le> 32" "unat v < 2 ^ (2 * k)" "0 < unat v"
  defines "b \<equiv> v AND hi \<noteq> 0"
  defines "w \<equiv> drop_bit (if b then k else 0) v"
  shows "unat w < 2 ^ k \<and> 0 < unat w"
proof (cases b)
  case True
  then obtain i where i: "bit v i" "k \<le> i"
    using assms(1) unfolding b_def by (auto simp: bit_eq_iff bit_and_iff)
  have w: "unat w = unat v div 2 ^ k"
    using True by (simp add: w_def unat_drop_bit)
  have "2 ^ k \<le> unat v"
    using i word_less_mask_iff_bits [of k v] assms(2) by force
  moreover have "unat v div 2 ^ k < 2 ^ k"
    using assms(3) by (intro less_mult_imp_div_less) (simp add: mult_2 power_add)
  ultimately show ?thesis
    using w by (simp add: div_greater_zero_iff)
next
  case False
  then have "\<not> bit v i" if "k \<le> i" "i < 2 * k" for i
    using that assms(1,2) unfolding b_def by (auto simp: bit_eq_iff bit_and_iff)
  moreover have "i < 2 * k" if "bit v i" for i
    using that assms(2,3) word_less_mask_iff_bits [of "2 * k" v] by auto
  ultimately have "\<forall>i. bit v i \<longrightarrow> i < k"
    by (meson linorder_not_le)
  then have "unat v < 2 ^ k"
    using word_less_mask_iff_bits [of k v] assms(2) by simp
  then show ?thesis
    using False assms(4) by (simp add: w_def)
qed

lemma shift_if_simps [simp]: "shift_if True n = push_bit n 1" "shift_if False n = 0"
  by (simp_all add: shift_if_def bool_int_def)

lemma unat_shift_if:
  "unat (shift_if b 4) = (if b then 16 else 0)" "unat (shift_if b 3) = (if b then 8 else 0)"
  "unat (shift_if b 2) = (if b then 4 else 0)" "unat (shift_if b 1) = (if b then 2 else 0)"
  by (cases b; simp)+

lemma LOGB2_steps:
  fixes v :: u32
  defines "b4 \<equiv> v AND 0xFFFF0000 \<noteq> 0"
  defines "v4 \<equiv> drop_bit (if b4 then 16 else 0) v"
  defines "b3 \<equiv> v4 AND 0xFF00 \<noteq> 0"
  defines "v3 \<equiv> drop_bit (if b3 then 8 else 0) v4"
  defines "b2 \<equiv> v3 AND 0xF0 \<noteq> 0"
  defines "v2 \<equiv> drop_bit (if b2 then 4 else 0) v3"
  defines "b1 \<equiv> v2 AND 0xC \<noteq> 0"
  defines "v1 \<equiv> drop_bit (if b1 then 2 else 0) v2"
  defines "b0 \<equiv> v1 AND 0x2 \<noteq> 0"
  defines "n \<equiv> (if b4 then 16 else 0) + (if b3 then 8 else 0) + (if b2 then 4 else 0) +
    (if b1 then 2 else 0) + (if b0 then 1 else (0::nat))"
  shows "unat (LOGB2 v) = n" and "drop_bit (if b0 then 1 else 0) v1 = drop_bit n v"
proof -
  have "LOGB2 v = shift_if b4 4 OR shift_if b3 3 OR shift_if b2 2 OR shift_if b1 1 OR shift_if b0 0"
    unfolding LOGB2_def Let_def b0_def v1_def b1_def v2_def b2_def v3_def b3_def v4_def b4_def
    by (simp only: unat_shift_if or.left_neutral or.assoc)
  then show "unat (LOGB2 v) = n"
    unfolding n_def by (cases b4; cases b3; cases b2; cases b1; cases b0; simp)
  show "drop_bit (if b0 then 1 else 0) v1 = drop_bit n v"
    unfolding n_def v1_def v2_def v3_def v4_def drop_bit_drop_bit by (simp add: add_ac)
qed

lemma bit_upper_half:
  fixes hi :: u32
  assumes "hi = push_bit k (Bit_Operations.mask k)" "2 * k \<le> 32"
  shows "bit hi i \<longleftrightarrow> k \<le> i \<and> i < 2 * k"
  using assms by (auto simp: bit_simps)

lemma LOGB2_drop:
  assumes "v \<noteq> 0"
  shows "unat (drop_bit (unat (LOGB2 v)) v) = 1"
proof -
  note step = upper_half_test [OF bit_upper_half]
  define b4 where "b4 \<longleftrightarrow> v AND 0xFFFF0000 \<noteq> 0"
  define v4 where "v4 = drop_bit (if b4 then 16 else 0) v"
  define b3 where "b3 \<longleftrightarrow> v4 AND 0xFF00 \<noteq> 0"
  define v3 where "v3 = drop_bit (if b3 then 8 else 0) v4"
  define b2 where "b2 \<longleftrightarrow> v3 AND 0xF0 \<noteq> 0"
  define v2 where "v2 = drop_bit (if b2 then 4 else 0) v3"
  define b1 where "b1 \<longleftrightarrow> v2 AND 0xC \<noteq> 0"
  define v1 where "v1 = drop_bit (if b1 then 2 else 0) v2"
  define b0 where "b0 \<longleftrightarrow> v1 AND 0x2 \<noteq> 0"
  note defs = b4_def v4_def b3_def v3_def b2_def v2_def b1_def v1_def b0_def
  have "unat v4 < 2 ^ 16 \<and> 0 < unat v4"
    unfolding v4_def b4_def using assms unsigned_less [of v]
    by (intro step) (simp_all add: mask_eq_exp_minus_1 unat_gt_0)
  then have "unat v3 < 2 ^ 8 \<and> 0 < unat v3"
    unfolding v3_def b3_def by (intro step) (simp_all add: mask_eq_exp_minus_1)
  then have "unat v2 < 2 ^ 4 \<and> 0 < unat v2"
    unfolding v2_def b2_def by (intro step) (simp_all add: mask_eq_exp_minus_1)
  then have "unat v1 < 2 ^ 2 \<and> 0 < unat v1"
    unfolding v1_def b1_def by (intro step) (simp_all add: mask_eq_exp_minus_1)
  then have "unat (drop_bit (if b0 then 1 else 0) v1) < 2 ^ 1 \<and> 0 < unat (drop_bit (if b0 then 1 else 0) v1)"
    unfolding b0_def by (intro step) (simp_all add: mask_eq_exp_minus_1)
  then have "unat (drop_bit (if b0 then 1 else 0) v1) = 1"
    by simp
  then show ?thesis
    unfolding LOGB2_steps(1) [of v] by (simp only: defs LOGB2_steps(2))
qed

lemma LOGB2_bounds:
  assumes "v \<noteq> 0"
  shows "2 ^ unat (LOGB2 v) \<le> unat v" "unat v < 2 ^ (unat (LOGB2 v) + 1)"
proof -
  have "unat v div 2 ^ unat (LOGB2 v) = 1"
    using LOGB2_drop [OF assms] by (simp add: unat_drop_bit)
  then show "2 ^ unat (LOGB2 v) \<le> unat v" "unat v < 2 ^ (unat (LOGB2 v) + 1)"
    by (metis One_nat_def div_greater_zero_iff zero_less_one,
        metis Suc_1 div_less_iff_less_mult less_add_one mult.commute one_add_one plus_1_eq_Suc
          power_add power_one_right zero_less_numeral zero_less_power)
qed

lemma LOGB2_pow2: "k < 32 \<Longrightarrow> LOGB2 (2 ^ k) = of_nat k"
proof -
  assume k: "k < 32"
  have v: "unat (2 ^ k :: u32) = 2 ^ k"
    using k by (intro unat_pow2) simp
  then have nz: "(2 ^ k :: u32) \<noteq> 0"
    by (metis power_eq_0_iff unsigned_0 zero_neq_numeral)
  have "unat (LOGB2 (2 ^ k :: u32)) = k"
    using LOGB2_bounds [OF nz] v
    by (metis One_nat_def Suc_eq_plus1 le_antisym less_Suc_eq_le one_less_numeral_iff
        power_le_imp_le_exp power_less_imp_less_exp semiring_norm(76))
  then show "LOGB2 (2 ^ k) = of_nat k"
    by (metis of_nat_unat ucast_id)
qed

section \<open>Alignment and set index\<close>

lemma ucast_pow2_minus_1:
  assumes "l < 32"
  shows "(ucast (2 ^ l - 1 :: u32) :: u64) = Bit_Operations.mask l"
proof -
  have "(2 ^ l - 1 :: u32) = Bit_Operations.mask l"
    by (simp add: mask_eq_exp_minus_1)
  then show ?thesis
    using assms by (intro bit_word_eqI) (auto simp: bit_simps)
qed

lemma unat_and_not_mask:
  "unat (a AND NOT (Bit_Operations.mask l)) = unat a div 2 ^ l * 2 ^ l" for a :: u64
proof -
  have "a AND NOT (Bit_Operations.mask l) = push_bit l (drop_bit l a)"
    by (intro bit_word_eqI) (auto simp: bit_simps)
  moreover have "unat a div 2 ^ l * 2 ^ l < 2 ^ 64"
  proof -
    have "unat a < 2 ^ 64"
      using unsigned_less [of a] by simp
    then show ?thesis
      using div_times_less_eq_dividend [of "unat a" "2 ^ l"] by linarith
  qed
  ultimately show ?thesis
    by (simp add: unsigned_push_bit_eq unat_drop_bit push_bit_nat_def take_bit_nat_eq_self)
qed

lemma bit_and_not_mask: "bit (a AND NOT (Bit_Operations.mask l)) i \<longleftrightarrow> l \<le> i \<and> bit a i" for a :: u64
  by (auto simp: bit_simps dest: bit_imp_le_length)

lemma get_block_addr_pow2:
  assumes "m_line_size cfg = 2 ^ l" "l < 32"
  shows "get_block_addr cfg a = a AND NOT (Bit_Operations.mask l)"
    and "get_tag cfg a = a AND NOT (Bit_Operations.mask l)"
  using assms by (simp_all add: get_block_addr_def get_tag_def ucast_pow2_minus_1)

lemma get_mshr_addr_pow2:
  assumes "m_atom_size cfg = 2 ^ l" "l < 32"
  shows "get_mshr_addr cfg a = a AND NOT (Bit_Operations.mask l)"
  using assms by (simp add: get_mshr_addr_def ucast_pow2_minus_1)

lemma get_tag_eq_block_addr: "get_tag cfg a = get_block_addr cfg a"
  by (simp add: get_tag_def get_block_addr_def)

lemma get_tag_idem [simp]: "get_tag cfg (get_block_addr cfg a) = get_block_addr cfg a"
  "get_block_addr cfg (get_block_addr cfg a) = get_block_addr cfg a"
  by (simp_all add: get_tag_def get_block_addr_def and.assoc)

lemma set_index_bits_eq:
  assumes "m_nset cfg = 2 ^ s" "s < 32"
  shows "unat (set_index_bits cfg a) < 2 ^ s"
    and "bit (set_index_bits cfg a) i \<longleftrightarrow> i < s \<and> bit a (unat (m_line_size_log2 cfg) + i)"
proof -
  show b: "bit (set_index_bits cfg a) i \<longleftrightarrow> i < s \<and> bit a (unat (m_line_size_log2 cfg) + i)" for i
    using assms by (auto simp: set_index_bits_def ucast_pow2_minus_1 bit_simps)
  show "unat (set_index_bits cfg a) < 2 ^ s"
    using assms(2) b word_less_mask_iff_bits [of s "set_index_bits cfg a"] by auto
qed

lemma bitwise_hash_less:
  assumes "unat i < 2 ^ s" "s < 32"
  shows "unat (bitwise_hash_function h i (2 ^ s)) < 2 ^ s"
proof -
  have "j < s" if "bit (bitwise_hash_function h i (2 ^ s)) j" for j
    using that assms word_less_mask_iff_bits [of s i]
    by (auto simp: bitwise_hash_function_def ucast_pow2_minus_1 bit_simps)
  then show ?thesis
    using assms(2) word_less_mask_iff_bits [of s "bitwise_hash_function h i (2 ^ s)"] by auto
qed

text \<open>The set count the hash in use can handle: IPOLY asserts on anything but 16, 32 and 64.\<close>

definition sets_ok :: "cache_config \<Rightarrow> nat \<Rightarrow> bool" where
  "sets_ok cfg s \<longleftrightarrow> s < 32 \<and> m_nset cfg = 2 ^ s \<and>
     (m_set_index_function cfg = HASH_IPOLY_FUNCTION \<longrightarrow> s \<in> {4, 5, 6})"

lemma hash_function_less:
  assumes "sets_ok cfg s"
  shows "\<exists>i. hash_function cfg a = Inr i \<and> unat i < 2 ^ s"
proof (cases "m_set_index_function cfg")
  case HASH_IPOLY_FUNCTION
  then have "s \<in> {4, 5, 6}"
    using assms by (simp add: sets_ok_def)
  then show ?thesis
    using assms HASH_IPOLY_FUNCTION
      ipoly_less [of "set_higher_bits cfg a" "set_index_bits cfg a"]
    by (auto simp: sets_ok_def hash_function_def ipoly_hash_function_def)
next
  case BITWISE_XORING_FUNCTION
  then show ?thesis
    using assms set_index_bits_eq(1) [of cfg s a]
    by (auto simp: sets_ok_def hash_function_def bitwise_hash_less)
qed (use assms set_index_bits_eq(1) [of cfg s a] in \<open>auto simp: sets_ok_def hash_function_def\<close>)

section \<open>The configuration string\<close>

text \<open>The decimal numerals and the letters a configuration file uses.\<close>

fun show_unsigned :: "nat \<Rightarrow> string" where
  "show_unsigned n =
     (if n < 10 then [char_of (48 + n)] else show_unsigned (n div 10) @ [char_of (48 + n mod 10)])"

declare show_unsigned.simps [simp del]

lemma of_char_digit: "d < 10 \<Longrightarrow> (of_char (char_of (48 + d) :: char) :: nat) = 48 + d"
  by simp

lemma show_unsigned_digits: "\<forall>c\<in>set (show_unsigned n). is_digit c"
proof (induction n rule: show_unsigned.induct)
  case (1 n)
  then show ?case
    by (subst show_unsigned.simps) (auto simp: is_digit_def of_char_digit)
qed

lemma show_unsigned_not_Nil [simp]: "show_unsigned n \<noteq> []"
  by (subst show_unsigned.simps) simp

lemma show_unsigned_value:
  "foldl (\<lambda>n c. 10 * n + of_nat (digit_value c)) 0 (show_unsigned n) = (of_nat n :: u32)"
proof (induction n rule: show_unsigned.induct)
  case (1 n)
  have "(10 :: u32) * of_nat (n div 10) + of_nat (n mod 10) = of_nat (10 * (n div 10) + n mod 10)"
    by (simp only: of_nat_add of_nat_mult) simp
  then show ?case
    using 1 by (subst show_unsigned.simps) (auto simp: digit_value_def of_char_digit)
qed

lemma digit_not_space: "is_digit c \<Longrightarrow> \<not> is_space c \<and> c \<noteq> CHR ''-'' \<and> c \<noteq> CHR ''+''"
  by (auto simp: is_digit_def is_space_def)

lemma sscanf_show_unsigned:
  assumes "s = [] \<or> \<not> is_digit (hd s)"
  shows "sscanf (Scan_Unsigned # fs) (show_unsigned n @ s) = Unsigned_Value (of_nat n) # sscanf fs s"
proof -
  obtain c ds where ds: "show_unsigned n = c # ds"
    by (metis neq_Nil_conv show_unsigned_not_Nil)
  then have "is_digit c" "\<forall>d\<in>set ds. is_digit d"
    using show_unsigned_digits [of n] by auto
  then have "scan_sign (dropWhile is_space (show_unsigned n @ s)) = (False, show_unsigned n @ s)"
    using digit_not_space [of c] by (simp add: ds scan_sign_def)
  moreover have "takeWhile is_digit (show_unsigned n @ s) = show_unsigned n"
    "dropWhile is_digit (show_unsigned n @ s) = s"
    using assms show_unsigned_digits [of n]
    by (auto simp: takeWhile_append dropWhile_append takeWhile_eq_Nil_iff dropWhile_eq_self_iff)
  ultimately show ?thesis
    by (simp add: show_unsigned_value Let_def)
qed

text \<open>A configuration line in the format of the shipped configuration files.\<close>

definition config_line ::
  "char \<Rightarrow> nat \<Rightarrow> nat \<Rightarrow> nat \<Rightarrow> char \<Rightarrow> char \<Rightarrow> char \<Rightarrow> char \<Rightarrow> char \<Rightarrow> char \<Rightarrow> nat \<Rightarrow> nat \<Rightarrow> nat \<Rightarrow> nat \<Rightarrow> nat
    \<Rightarrow> string" where
  "config_line ct nset line assoc ev wp al wa si mt entries merge missq fifo port =
     [ct] @ '':'' @ show_unsigned nset @ '':'' @ show_unsigned line @ '':'' @ show_unsigned assoc @
     '','' @ [ev] @ '':'' @ [wp] @ '':'' @ [al] @ '':'' @ [wa] @ '':'' @ [si] @ '','' @ [mt] @ '':'' @
     show_unsigned entries @ '':'' @ show_unsigned merge @ '','' @ show_unsigned missq @ '':'' @
     show_unsigned fifo @ '','' @ show_unsigned port"

lemma not_digit_sep: "\<not> is_digit CHR '':''" "\<not> is_digit CHR '',''"
  by (simp_all add: is_digit_def)

lemma sscanf_config_line:
  "sscanf cache_format
     (config_line ct nset line assoc ev wp al wa si mt entries merge missq fifo port) =
   [Char_Value ct, Unsigned_Value (of_nat nset), Unsigned_Value (of_nat line),
    Unsigned_Value (of_nat assoc), Char_Value ev, Char_Value wp, Char_Value al, Char_Value wa,
    Char_Value si, Char_Value mt, Unsigned_Value (of_nat entries), Unsigned_Value (of_nat merge),
    Unsigned_Value (of_nat missq), Unsigned_Value (of_nat fifo), Unsigned_Value (of_nat port)]"
proof -
  have last: "sscanf [Scan_Unsigned] (show_unsigned n) = [Unsigned_Value (of_nat n)]" for n
    using sscanf_show_unsigned [of "[]" "[]" n] by simp
  show ?thesis
    unfolding config_line_def cache_format_def
    by (simp add: sscanf_show_unsigned last not_digit_sep del: sscanf.simps(5))
qed

text \<open>A memory system of 32 channels interleaved at 256 bytes, used by the examples.\<close>

definition example_addr_config :: addr_config where
  "example_addr_config = \<lparr>m_addrdec_mask = (\<lambda>d. if d = CH then push_bit 8 (Bit_Operations.mask 5) else 0),
     m_channel_indexing_policy = 1, m_num_channels = 32, m_num_ndp_units = 32, m_stride_size = 256,
     shmem_option = [0, 8, 16, 32, 64, 128]\<rparr>"

section \<open>Properties\<close>

text \<open>
  \<^verbatim>\<open>LOGB2\<close> is the floor of the binary logarithm: for every non-zero value two to the result
  is at most the value and the next power exceeds it; on powers of two it is exact.
\<close>

theorem LOGB2_floor:
  "(v \<noteq> 0 \<longrightarrow> 2 ^ unat (LOGB2 v) \<le> unat v \<and> unat v < 2 ^ (unat (LOGB2 v) + 1)) \<and>
   (k < 32 \<longrightarrow> LOGB2 (2 ^ k) = of_nat k)"
  using LOGB2_bounds LOGB2_pow2 by auto

theorem LOGB2_floor_witness: "2 ^ unat (LOGB2 100) \<le> (100 :: nat) \<and> LOGB2 (2 ^ 7) = 7"
  using LOGB2_floor [of 100 7] by simp

text \<open>
  For a power-of-two line size the tag and the block address are the address rounded down to
  its line: two addresses share them exactly when they lie in one line, and the block address is its own
  block address. The MSHR address rounds to the atom in the same way.
\<close>

theorem block_address_alignment:
  assumes "m_line_size cfg = 2 ^ l" "l < 32" "m_atom_size cfg = 2 ^ k" "k < 32"
  shows "unat (get_block_addr cfg a) = unat a div 2 ^ l * 2 ^ l \<and>
    (get_tag cfg a = get_tag cfg b \<longleftrightarrow> unat a div 2 ^ l = unat b div 2 ^ l) \<and>
    get_block_addr cfg (get_block_addr cfg a) = get_block_addr cfg a \<and>
    unat (get_mshr_addr cfg a) = unat a div 2 ^ k * 2 ^ k"
  using assms
  by (simp add: get_block_addr_pow2 get_mshr_addr_pow2 unat_and_not_mask word_unat_eq_iff)

theorem block_address_alignment_witness:
  "unat (get_block_addr (projr (cache_config_init ''S:64:128:16,L:B:m:L:L,A:192:4,32:0,32'' example_addr_config)) 0x1234) = 0x1200"
proof -
  have "m_line_size (projr (cache_config_init ''S:64:128:16,L:B:m:L:L,A:192:4,32:0,32'' example_addr_config)) = 128"
    "m_atom_size (projr (cache_config_init ''S:64:128:16,L:B:m:L:L,A:192:4,32:0,32'' example_addr_config)) = 32"
    by (simp_all add: cache_config_init_def cache_format_def is_digit_def is_space_def scan_sign_def
        digit_value_def scanned_unsigned_def scanned_char_def CacheTypeMap_def Let_def)
  then show ?thesis
    using block_address_alignment
      [of "projr (cache_config_init ''S:64:128:16,L:B:m:L:L,A:192:4,32:0,32'' example_addr_config)" 7 5 "0x1234" 0]
    by simp
qed

text \<open>
  C36. The set index is always a legal set: with a power-of-two number of sets (16, 32 or 64 for
  IPOLY) every address gets an index below the number of sets, for all four index functions.
\<close>

theorem set_index_in_range:
  assumes "sets_ok cfg s"
  shows "\<exists>i. get_set_index cfg a = Inr i \<and> unat i < 2 ^ s"
  using hash_function_less [OF assms] by (simp add: get_set_index_def)

theorem set_index_in_range_witness:
  "\<exists>i. get_set_index (projr (cache_config_init ''N:32:32:8,L:R:f:N:P,A:2:4,32:0,128'' example_addr_config)) 0x1234
     = Inr i \<and> unat i < 2 ^ 5"
  by (rule set_index_in_range)
    (simp add: sets_ok_def cache_config_init_def cache_format_def is_digit_def is_space_def
      scan_sign_def digit_value_def scanned_unsigned_def scanned_char_def Let_def)

text \<open>
  The hashed index functions do not hash: the upper bits they mix in are the truth value of
  a comparison, so any two addresses above the comparison bound that agree on the linear index bits fall into
  the same set, whatever their upper bits. Power-of-two strides collide exactly as with the
  linear index.
\<close>

theorem set_hash_ignores_upper_bits:
  assumes "set_index_bits cfg a = set_index_bits cfg b"
    and "ucast (m_line_size_log2 cfg + m_nset_log2 cfg) < a"
    and "ucast (m_line_size_log2 cfg + m_nset_log2 cfg) < b"
  shows "get_set_index cfg a = get_set_index cfg b"
  using assms
  by (auto simp: get_set_index_def hash_function_def set_higher_bits_def split: SetIndexFunction.splits)

theorem set_hash_ignores_upper_bits_witness:
  "get_set_index (projr (cache_config_init ''N:32:32:8,L:R:f:N:P,A:2:4,32:0,128'' example_addr_config)) 0x10000
   = get_set_index (projr (cache_config_init ''N:32:32:8,L:R:f:N:P,A:2:4,32:0,128'' example_addr_config)) 0x20000"
proof -
  have "m_line_size_log2 (projr (cache_config_init ''N:32:32:8,L:R:f:N:P,A:2:4,32:0,128'' example_addr_config)) = LOGB2 (2 ^ 5)"
    "m_nset_log2 (projr (cache_config_init ''N:32:32:8,L:R:f:N:P,A:2:4,32:0,128'' example_addr_config)) = LOGB2 (2 ^ 5)"
    "m_nset (projr (cache_config_init ''N:32:32:8,L:R:f:N:P,A:2:4,32:0,128'' example_addr_config)) = 32"
    by (simp_all add: cache_config_init_def cache_format_def is_digit_def is_space_def scan_sign_def
        digit_value_def scanned_unsigned_def scanned_char_def Let_def)
  then show ?thesis
    by (intro set_hash_ignores_upper_bits) (simp_all only: LOGB2_pow2, simp_all add: set_index_bits_def)
qed

text \<open>
  Reading back a configuration line restores every field: the sizes, the derived logarithms
  and the policies that the letters stand for, for all numbers of the line format.
\<close>

theorem config_line_round_trip:
  "\<exists>cfg. cache_config_init
      (config_line ct nset line assoc ev wp al wa si mt entries merge missq fifo port) ac = Inr cfg \<and>
    m_nset cfg = of_nat nset \<and> m_line_size cfg = of_nat line \<and> m_assoc cfg = of_nat assoc \<and>
    m_line_size_log2 cfg = LOGB2 (of_nat line) \<and> m_nset_log2 cfg = LOGB2 (of_nat nset) \<and>
    m_cache_type cfg = CacheTypeMap ct \<and> m_evict_policy cfg = EvictPolicyMap ev \<and>
    m_write_policy cfg = WritePolicyMap wp \<and> m_alloc_policy cfg = AllocationPolicyMap al \<and>
    m_write_alloc_policy cfg = WriteAllocatePolicyMap wa \<and>
    m_set_index_function cfg = SetIndexFunctionMap si \<and> m_mshr_type cfg = MshrConfigMap mt \<and>
    m_mshr_entries cfg = of_nat entries \<and> m_mshr_max_merge cfg = of_nat merge \<and>
    m_miss_queue_size cfg = of_nat missq \<and> m_data_port_width cfg = of_nat port \<and>
    m_atom_size cfg = (if CacheTypeMap ct = SECTOR then 32 else of_nat line)"
proof -
  have "0 < length (config_line ct nset line assoc ev wp al wa si mt entries merge missq fifo port)"
    by (simp add: config_line_def)
  then show ?thesis
    by (simp add: cache_config_init_def sscanf_config_line scanned_unsigned_def scanned_char_def Let_def)
qed

end
