(* ===== verification/Cache_Block.thy ===== *)
theory Cache_Block
  imports Mem_Fetch
begin

text \<open>
  The cache blocks of \<^verbatim>\<open>src/cache.h\<close> and \<^verbatim>\<open>src/cache.cc\<close>: a line block has one state, a sector
  block one per 32-byte sector. The virtual class \<^verbatim>\<open>CacheBlock\<close> is the datatype of its two subclasses
  and its virtual methods dispatch on it. What the tag array relies on is stated once as a locale and
  interpreted for the line block, the sector block and the dispatching block. The time stamps of a
  line block have 64 bits and those of a sector block 32. The tag and block address of a new block
  are uninitialised in the code; a new block takes them as arguments.
\<close>

section \<open>Line blocks\<close>

record line_block =
  lb_tag :: u64
  lb_block_addr :: u64
  lb_alloc_time :: u64
  lb_last_access_time :: u64
  lb_fill_time :: u64
  lb_status :: CacheBlockState
  lb_ignore_on_fill_status :: bool
  lb_set_modified_on_fill :: bool
  lb_readable :: bool

definition new_line_block :: "u64 \<Rightarrow> u64 \<Rightarrow> line_block" where
  "new_line_block tag block_addr =
     \<lparr>lb_tag = tag, lb_block_addr = block_addr, lb_alloc_time = 0, lb_last_access_time = 0,
      lb_fill_time = 0, lb_status = INVALID, lb_ignore_on_fill_status = False,
      lb_set_modified_on_fill = False, lb_readable = True\<rparr>"

definition lb_allocate :: "u64 \<Rightarrow> u64 \<Rightarrow> u32 \<Rightarrow> sector_mask \<Rightarrow> line_block \<Rightarrow> line_block res" where
  "lb_allocate tag block_addr time m b =
     Inr (b\<lparr>lb_tag := tag, lb_block_addr := block_addr, lb_alloc_time := ucast time,
            lb_last_access_time := ucast time, lb_fill_time := 0, lb_status := RESERVED,
            lb_ignore_on_fill_status := False, lb_set_modified_on_fill := False\<rparr>)"

definition lb_fill :: "u32 \<Rightarrow> sector_mask \<Rightarrow> line_block \<Rightarrow> line_block res" where
  "lb_fill time m b =
     Inr (b\<lparr>lb_fill_time := ucast time,
            lb_status := (if lb_set_modified_on_fill b then MODIFIED else VALID)\<rparr>)"

definition lb_get_status :: "sector_mask \<Rightarrow> line_block \<Rightarrow> CacheBlockState res" where
  "lb_get_status m b = Inr (lb_status b)"

definition lb_set_status :: "CacheBlockState \<Rightarrow> sector_mask \<Rightarrow> line_block \<Rightarrow> line_block res" where
  "lb_set_status st m b = Inr (b\<lparr>lb_status := st\<rparr>)"

definition lb_is_readable :: "sector_mask \<Rightarrow> line_block \<Rightarrow> bool res" where
  "lb_is_readable m b = Inr (lb_readable b)"

definition lb_get_dirty_mask :: "line_block \<Rightarrow> sector_mask" where
  "lb_get_dirty_mask b = NOT 0"

definition lb_get_modified_size :: "line_block \<Rightarrow> u32" where
  "lb_get_modified_size b = of_nat (SECTOR_CHUNCK_SIZE * MEM_ACCESS_SIZE)"

section \<open>Sector blocks\<close>

record sector_block =
  sb_tag :: u64
  sb_block_addr :: u64
  sb_sector_alloc_time :: "u32 list"
  sb_sector_fill_time :: "u32 list"
  sb_sector_last_access_time :: "u32 list"
  sb_line_alloc_time :: u32
  sb_line_fill_time :: u32
  sb_line_last_access_time :: u32
  sb_status :: "CacheBlockState list"
  sb_ignore_on_fill_status :: "bool list"
  sb_set_modified_on_fill_status :: "bool list"
  sb_readable :: "bool list"

text \<open>
  The member initialiser \<^verbatim>\<open>m_readable[4] = {true}\<close> sets the first element only; \<^verbatim>\<open>init\<close> sets all.
\<close>

definition new_sector_block :: "u64 \<Rightarrow> u64 \<Rightarrow> sector_block" where
  "new_sector_block tag block_addr =
     \<lparr>sb_tag = tag, sb_block_addr = block_addr,
      sb_sector_alloc_time = replicate SECTOR_CHUNCK_SIZE 0,
      sb_sector_fill_time = replicate SECTOR_CHUNCK_SIZE 0,
      sb_sector_last_access_time = replicate SECTOR_CHUNCK_SIZE 0, sb_line_alloc_time = 0,
      sb_line_fill_time = 0, sb_line_last_access_time = 0,
      sb_status = replicate SECTOR_CHUNCK_SIZE INVALID,
      sb_ignore_on_fill_status = replicate SECTOR_CHUNCK_SIZE False,
      sb_set_modified_on_fill_status = replicate SECTOR_CHUNCK_SIZE False,
      sb_readable = True # replicate (SECTOR_CHUNCK_SIZE - 1) False\<rparr>"

definition sb_init :: "sector_block \<Rightarrow> sector_block" where
  "sb_init b =
     b\<lparr>sb_sector_alloc_time := replicate SECTOR_CHUNCK_SIZE 0,
       sb_sector_fill_time := replicate SECTOR_CHUNCK_SIZE 0,
       sb_sector_last_access_time := replicate SECTOR_CHUNCK_SIZE 0,
       sb_status := replicate SECTOR_CHUNCK_SIZE INVALID,
       sb_ignore_on_fill_status := replicate SECTOR_CHUNCK_SIZE False,
       sb_set_modified_on_fill_status := replicate SECTOR_CHUNCK_SIZE False,
       sb_readable := replicate SECTOR_CHUNCK_SIZE True,
       sb_line_alloc_time := 0, sb_line_fill_time := 0, sb_line_last_access_time := 0\<rparr>"

definition get_sector_index :: "sector_mask \<Rightarrow> nat res" where
  "get_sector_index m =
     (case filter (bit m) [0..<SECTOR_CHUNCK_SIZE] of
        [i] \<Rightarrow> Inr i
      | _ \<Rightarrow> Inl (Assert_Fail ''sector_mask.count() == 1''))"

definition sb_is_invalid_line :: "sector_block \<Rightarrow> bool" where
  "sb_is_invalid_line b \<longleftrightarrow> (\<forall>st\<in>set (sb_status b). st = INVALID)"

definition sb_is_valid_line :: "sector_block \<Rightarrow> bool" where
  "sb_is_valid_line b \<longleftrightarrow> \<not> sb_is_invalid_line b"

definition sb_is_reserved_line :: "sector_block \<Rightarrow> bool" where
  "sb_is_reserved_line b \<longleftrightarrow> (\<exists>st\<in>set (sb_status b). st = RESERVED)"

definition sb_is_modified_line :: "sector_block \<Rightarrow> bool" where
  "sb_is_modified_line b \<longleftrightarrow> (\<exists>st\<in>set (sb_status b). st = MODIFIED)"

definition sb_allocate :: "u64 \<Rightarrow> u64 \<Rightarrow> u32 \<Rightarrow> sector_mask \<Rightarrow> sector_block \<Rightarrow> sector_block res" where
  "sb_allocate tag block_addr time m b =
     (let b = (sb_init b)\<lparr>sb_tag := tag, sb_block_addr := block_addr\<rparr>
      in res_bind (get_sector_index m) (\<lambda>sidx.
        Inr (b\<lparr>sb_sector_alloc_time := (sb_sector_alloc_time b)[sidx := time],
               sb_sector_last_access_time := (sb_sector_last_access_time b)[sidx := time],
               sb_sector_fill_time := (sb_sector_fill_time b)[sidx := 0],
               sb_status := (sb_status b)[sidx := RESERVED],
               sb_ignore_on_fill_status := (sb_ignore_on_fill_status b)[sidx := False],
               sb_set_modified_on_fill_status := (sb_set_modified_on_fill_status b)[sidx := False],
               sb_line_alloc_time := time, sb_line_last_access_time := time,
               sb_line_fill_time := 0\<rparr>)))"

definition sb_allocate_sector :: "u32 \<Rightarrow> sector_mask \<Rightarrow> sector_block \<Rightarrow> sector_block res" where
  "sb_allocate_sector time m b =
     res_bind (assert_that (sb_is_valid_line b) ''is_valid_line()'') (\<lambda>_.
     res_bind (get_sector_index m) (\<lambda>sidx.
       Inr (b\<lparr>sb_sector_alloc_time := (sb_sector_alloc_time b)[sidx := time],
              sb_sector_last_access_time := (sb_sector_last_access_time b)[sidx := time],
              sb_sector_fill_time := (sb_sector_fill_time b)[sidx := 0],
              sb_set_modified_on_fill_status :=
                (sb_set_modified_on_fill_status b)[sidx := (sb_status b ! sidx = MODIFIED)],
              sb_status := (sb_status b)[sidx := RESERVED],
              sb_ignore_on_fill_status := (sb_ignore_on_fill_status b)[sidx := False],
              sb_readable := (sb_readable b)[sidx := True],
              sb_line_last_access_time := time, sb_line_fill_time := 0\<rparr>)))"

definition sb_fill :: "u32 \<Rightarrow> sector_mask \<Rightarrow> sector_block \<Rightarrow> sector_block res" where
  "sb_fill time m b =
     res_bind (get_sector_index m) (\<lambda>sidx.
       Inr (b\<lparr>sb_status := (sb_status b)[sidx :=
                (if sb_set_modified_on_fill_status b ! sidx then MODIFIED else VALID)],
              sb_sector_fill_time := (sb_sector_fill_time b)[sidx := time],
              sb_line_fill_time := time\<rparr>))"

definition sb_get_dirty_mask :: "sector_block \<Rightarrow> sector_mask" where
  "sb_get_dirty_mask b = bits_word (map (\<lambda>st. st = MODIFIED) (sb_status b))"

definition sb_get_status :: "sector_mask \<Rightarrow> sector_block \<Rightarrow> CacheBlockState res" where
  "sb_get_status m b = res_bind (get_sector_index m) (\<lambda>sidx. Inr (sb_status b ! sidx))"

definition sb_set_status :: "CacheBlockState \<Rightarrow> sector_mask \<Rightarrow> sector_block \<Rightarrow> sector_block res" where
  "sb_set_status st m b =
     res_bind (get_sector_index m) (\<lambda>sidx. Inr (b\<lparr>sb_status := (sb_status b)[sidx := st]\<rparr>))"

definition sb_is_readable :: "sector_mask \<Rightarrow> sector_block \<Rightarrow> bool res" where
  "sb_is_readable m b = res_bind (get_sector_index m) (\<lambda>sidx. Inr (sb_readable b ! sidx))"

definition sb_set_ignore_on_fill :: "bool \<Rightarrow> sector_mask \<Rightarrow> sector_block \<Rightarrow> sector_block res" where
  "sb_set_ignore_on_fill ignore m b =
     res_bind (get_sector_index m) (\<lambda>sidx.
       Inr (b\<lparr>sb_ignore_on_fill_status := (sb_ignore_on_fill_status b)[sidx := ignore]\<rparr>))"

definition sb_set_modified_on_fill :: "bool \<Rightarrow> sector_mask \<Rightarrow> sector_block \<Rightarrow> sector_block res" where
  "sb_set_modified_on_fill modified m b =
     res_bind (get_sector_index m) (\<lambda>sidx.
       Inr (b\<lparr>sb_set_modified_on_fill_status :=
                (sb_set_modified_on_fill_status b)[sidx := modified]\<rparr>))"

definition sb_set_readable :: "bool \<Rightarrow> sector_mask \<Rightarrow> sector_block \<Rightarrow> sector_block res" where
  "sb_set_readable readable m b =
     res_bind (get_sector_index m) (\<lambda>sidx.
       Inr (b\<lparr>sb_readable := (sb_readable b)[sidx := readable]\<rparr>))"

definition sb_set_last_access_time :: "u64 \<Rightarrow> sector_mask \<Rightarrow> sector_block \<Rightarrow> sector_block res" where
  "sb_set_last_access_time time m b =
     res_bind (get_sector_index m) (\<lambda>sidx.
       Inr (b\<lparr>sb_line_last_access_time := ucast time,
              sb_sector_last_access_time := (sb_sector_last_access_time b)[sidx := ucast time]\<rparr>))"

definition sb_get_modified_size :: "sector_block \<Rightarrow> u32" where
  "sb_get_modified_size b =
     of_nat (length (filter (\<lambda>st. st = MODIFIED) (sb_status b))) * of_nat MEM_ACCESS_SIZE"

section \<open>The virtual class\<close>

datatype cache_block = Line_Block line_block | Sector_Block sector_block

definition cb_tag :: "cache_block \<Rightarrow> u64" where
  "cb_tag b = (case b of Line_Block l \<Rightarrow> lb_tag l | Sector_Block s \<Rightarrow> sb_tag s)"

definition cb_block_addr :: "cache_block \<Rightarrow> u64" where
  "cb_block_addr b = (case b of Line_Block l \<Rightarrow> lb_block_addr l | Sector_Block s \<Rightarrow> sb_block_addr s)"

definition match_tag :: "u64 \<Rightarrow> cache_block \<Rightarrow> bool" where
  "match_tag tag b \<longleftrightarrow> cb_tag b = tag"

text \<open>Run a line operation or a sector operation, whichever the block is.\<close>

definition cb_update ::
  "(line_block \<Rightarrow> line_block res) \<Rightarrow> (sector_block \<Rightarrow> sector_block res) \<Rightarrow> cache_block \<Rightarrow> cache_block res" where
  "cb_update f g b =
     (case b of
        Line_Block l \<Rightarrow> res_bind (f l) (\<lambda>l'. Inr (Line_Block l'))
      | Sector_Block s \<Rightarrow> res_bind (g s) (\<lambda>s'. Inr (Sector_Block s')))"

definition cb_allocate :: "u64 \<Rightarrow> u64 \<Rightarrow> u32 \<Rightarrow> sector_mask \<Rightarrow> cache_block \<Rightarrow> cache_block res" where
  "cb_allocate tag block_addr time m =
     cb_update (lb_allocate tag block_addr time m) (sb_allocate tag block_addr time m)"

definition cb_fill :: "u32 \<Rightarrow> sector_mask \<Rightarrow> cache_block \<Rightarrow> cache_block res" where
  "cb_fill time m = cb_update (lb_fill time m) (sb_fill time m)"

definition cb_get_status :: "sector_mask \<Rightarrow> cache_block \<Rightarrow> CacheBlockState res" where
  "cb_get_status m b =
     (case b of Line_Block l \<Rightarrow> lb_get_status m l | Sector_Block s \<Rightarrow> sb_get_status m s)"

definition cb_set_status :: "CacheBlockState \<Rightarrow> sector_mask \<Rightarrow> cache_block \<Rightarrow> cache_block res" where
  "cb_set_status st m = cb_update (lb_set_status st m) (sb_set_status st m)"

definition cb_is_readable :: "sector_mask \<Rightarrow> cache_block \<Rightarrow> bool res" where
  "cb_is_readable m b =
     (case b of Line_Block l \<Rightarrow> lb_is_readable m l | Sector_Block s \<Rightarrow> sb_is_readable m s)"

definition cb_is_valid_line :: "cache_block \<Rightarrow> bool" where
  "cb_is_valid_line b =
     (case b of Line_Block l \<Rightarrow> lb_status l = VALID | Sector_Block s \<Rightarrow> sb_is_valid_line s)"

definition cb_is_invalid_line :: "cache_block \<Rightarrow> bool" where
  "cb_is_invalid_line b =
     (case b of Line_Block l \<Rightarrow> lb_status l = INVALID | Sector_Block s \<Rightarrow> sb_is_invalid_line s)"

definition cb_is_reserved_line :: "cache_block \<Rightarrow> bool" where
  "cb_is_reserved_line b =
     (case b of Line_Block l \<Rightarrow> lb_status l = RESERVED | Sector_Block s \<Rightarrow> sb_is_reserved_line s)"

definition cb_is_modified_line :: "cache_block \<Rightarrow> bool" where
  "cb_is_modified_line b =
     (case b of Line_Block l \<Rightarrow> lb_status l = MODIFIED | Sector_Block s \<Rightarrow> sb_is_modified_line s)"

definition cb_get_last_access_time :: "cache_block \<Rightarrow> u64" where
  "cb_get_last_access_time b =
     (case b of Line_Block l \<Rightarrow> lb_last_access_time l
      | Sector_Block s \<Rightarrow> ucast (sb_line_last_access_time s))"

definition cb_get_alloc_time :: "cache_block \<Rightarrow> u64" where
  "cb_get_alloc_time b =
     (case b of Line_Block l \<Rightarrow> lb_alloc_time l | Sector_Block s \<Rightarrow> ucast (sb_line_alloc_time s))"

definition cb_set_last_access_time :: "u64 \<Rightarrow> sector_mask \<Rightarrow> cache_block \<Rightarrow> cache_block res" where
  "cb_set_last_access_time time m =
     cb_update (\<lambda>l. Inr (l\<lparr>lb_last_access_time := time\<rparr>)) (sb_set_last_access_time time m)"

definition cb_set_ignore_on_fill :: "bool \<Rightarrow> sector_mask \<Rightarrow> cache_block \<Rightarrow> cache_block res" where
  "cb_set_ignore_on_fill ignore m =
     cb_update (\<lambda>l. Inr (l\<lparr>lb_ignore_on_fill_status := ignore\<rparr>)) (sb_set_ignore_on_fill ignore m)"

definition cb_set_modified_on_fill :: "bool \<Rightarrow> sector_mask \<Rightarrow> cache_block \<Rightarrow> cache_block res" where
  "cb_set_modified_on_fill modified m =
     cb_update (\<lambda>l. Inr (l\<lparr>lb_set_modified_on_fill := modified\<rparr>)) (sb_set_modified_on_fill modified m)"

definition cb_set_readable :: "bool \<Rightarrow> sector_mask \<Rightarrow> cache_block \<Rightarrow> cache_block res" where
  "cb_set_readable readable m =
     cb_update (\<lambda>l. Inr (l\<lparr>lb_readable := readable\<rparr>)) (sb_set_readable readable m)"

definition cb_get_modified_size :: "cache_block \<Rightarrow> u32" where
  "cb_get_modified_size b =
     (case b of Line_Block l \<Rightarrow> lb_get_modified_size l | Sector_Block s \<Rightarrow> sb_get_modified_size s)"

definition cb_get_dirty_mask :: "cache_block \<Rightarrow> sector_mask" where
  "cb_get_dirty_mask b =
     (case b of Line_Block l \<Rightarrow> lb_get_dirty_mask l | Sector_Block s \<Rightarrow> sb_get_dirty_mask s)"

text \<open>
  \<^verbatim>\<open>((SectorCacheBlock *)m_lines[idx])->allocate_sector\<close>: the cast of a line block is undefined
  behaviour.
\<close>

definition cb_allocate_sector :: "u32 \<Rightarrow> sector_mask \<Rightarrow> cache_block \<Rightarrow> cache_block res" where
  "cb_allocate_sector time m = cb_update (\<lambda>l. Inl Bad_Pointer) (sb_allocate_sector time m)"

section \<open>The contract the tag array relies on\<close>

text \<open>
  A block answers, for a mask of one sector, in which state that sector is; \<open>dirty\<close> says whether
  a fill will leave the sector modified.
\<close>

locale block_contract =
  fixes wf :: "'b \<Rightarrow> bool"
    and mask_ok :: "sector_mask \<Rightarrow> bool"
    and tag :: "'b \<Rightarrow> u64"
    and dirty :: "sector_mask \<Rightarrow> 'b \<Rightarrow> bool"
    and allocate :: "u64 \<Rightarrow> u64 \<Rightarrow> u32 \<Rightarrow> sector_mask \<Rightarrow> 'b \<Rightarrow> 'b res"
    and fill :: "u32 \<Rightarrow> sector_mask \<Rightarrow> 'b \<Rightarrow> 'b res"
    and get_status :: "sector_mask \<Rightarrow> 'b \<Rightarrow> CacheBlockState res"
    and set_status :: "CacheBlockState \<Rightarrow> sector_mask \<Rightarrow> 'b \<Rightarrow> 'b res"
    and is_invalid :: "'b \<Rightarrow> bool"
    and is_reserved :: "'b \<Rightarrow> bool"
  assumes status_total: "wf b \<Longrightarrow> mask_ok m \<Longrightarrow> \<exists>st. get_status m b = Inr st"
    and status_invalid: "wf b \<Longrightarrow> mask_ok m \<Longrightarrow> is_invalid b \<Longrightarrow> get_status m b = Inr INVALID"
    and status_reserved: "wf b \<Longrightarrow> get_status m b = Inr RESERVED \<Longrightarrow> is_reserved b"
    and allocate_law: "wf b \<Longrightarrow> mask_ok m \<Longrightarrow> \<exists>b'. allocate t a time m b = Inr b' \<and> wf b' \<and> tag b' = t \<and>
      get_status m b' = Inr RESERVED \<and> \<not> dirty m b'"
    and fill_law: "wf b \<Longrightarrow> mask_ok m \<Longrightarrow> \<exists>b'. fill time m b = Inr b' \<and> wf b' \<and> tag b' = tag b \<and>
      get_status m b' = Inr (if dirty m b then MODIFIED else VALID)"
    and set_status_law: "wf b \<Longrightarrow> mask_ok m \<Longrightarrow> \<exists>b'. set_status st m b = Inr b' \<and> wf b' \<and>
      tag b' = tag b \<and> get_status m b' = Inr st"
begin

text \<open>A block that was allocated for a sector and then filled holds valid data of that tag.\<close>

lemma allocate_then_fill:
  assumes "wf b" "mask_ok m"
  shows "\<exists>b1 b2. allocate t a time m b = Inr b1 \<and> get_status m b1 = Inr RESERVED \<and> is_reserved b1 \<and>
    fill time' m b1 = Inr b2 \<and> wf b2 \<and> tag b2 = t \<and> get_status m b2 = Inr VALID \<and> \<not> is_invalid b2"
proof -
  obtain b1 where b1: "allocate t a time m b = Inr b1" "wf b1" "tag b1 = t"
    "get_status m b1 = Inr RESERVED" "\<not> dirty m b1"
    using allocate_law [OF assms] by blast
  obtain b2 where b2: "fill time' m b1 = Inr b2" "wf b2" "tag b2 = t" "get_status m b2 = Inr VALID"
    using fill_law [OF b1(2) assms(2)] b1(3,5) by force
  have "\<not> is_invalid b2"
    using status_invalid [OF b2(2) assms(2)] b2(4) by auto
  then show ?thesis
    using b1 b2 status_reserved by blast
qed

lemma status_not_invalid:
  "wf b \<Longrightarrow> mask_ok m \<Longrightarrow> get_status m b = Inr st \<Longrightarrow> st \<noteq> INVALID \<Longrightarrow> \<not> is_invalid b"
  using status_invalid by force

end

definition one_hot :: "sector_mask \<Rightarrow> bool" where
  "one_hot m \<longleftrightarrow> ok (get_sector_index m)"

definition sb_wf :: "sector_block \<Rightarrow> bool" where
  "sb_wf b \<longleftrightarrow> length (sb_status b) = 4 \<and> length (sb_set_modified_on_fill_status b) = 4 \<and>
     length (sb_readable b) = 4 \<and> length (sb_ignore_on_fill_status b) = 4"

definition cb_wf :: "cache_block \<Rightarrow> bool" where
  "cb_wf b = (case b of Line_Block l \<Rightarrow> lb_readable l | Sector_Block s \<Rightarrow> sb_wf s)"

definition sb_dirty :: "sector_mask \<Rightarrow> sector_block \<Rightarrow> bool" where
  "sb_dirty m b = (case get_sector_index m of Inl _ \<Rightarrow> False | Inr i \<Rightarrow> sb_set_modified_on_fill_status b ! i)"

definition cb_dirty :: "sector_mask \<Rightarrow> cache_block \<Rightarrow> bool" where
  "cb_dirty m b = (case b of Line_Block l \<Rightarrow> lb_set_modified_on_fill l | Sector_Block s \<Rightarrow> sb_dirty m s)"

lemma get_sector_index_less: "get_sector_index m = Inr i \<Longrightarrow> i < 4"
proof -
  assume "get_sector_index m = Inr i"
  then have "filter (bit m) [0..<4] = [i]"
    by (auto simp: get_sector_index_def split: list.splits)
  then have "i \<in> set (filter (bit m) [0..<4])"
    by simp
  then show "i < 4"
    by simp
qed

lemma one_hotE:
  assumes "one_hot m"
  obtains i where "get_sector_index m = Inr i" "i < 4"
  using assms get_sector_index_less by (auto simp: one_hot_def ok_iff)

lemma one_hot_sector: "one_hot (set_bit (sector_of a) 0)"
proof -
  have "filter (bit (set_bit (sector_of a) (0 :: sector_mask))) [0..<4] =
      filter (\<lambda>i. i = sector_of a) [0..<4]"
    by (intro filter_cong) (simp_all only: bit_set_sector, simp)
  also have "\<dots> = [sector_of a]"
  proof -
    have "sector_of a = 0 \<or> sector_of a = 1 \<or> sector_of a = 2 \<or> sector_of a = 3"
      using sector_of_less [of a] by arith
    then show ?thesis
      by (elim disjE) (simp_all add: upt_conv_Cons)
  qed
  finally show ?thesis
    by (simp only: one_hot_def get_sector_index_def size_consts) simp
qed

lemmas sector_ops =
  sb_allocate_def sb_fill_def sb_get_status_def sb_set_status_def sb_init_def sb_dirty_def sb_wf_def

interpretation line: block_contract
  lb_readable "\<lambda>_. True" lb_tag "\<lambda>_. lb_set_modified_on_fill" lb_allocate lb_fill lb_get_status
  lb_set_status "\<lambda>l. lb_status l = INVALID" "\<lambda>l. lb_status l = RESERVED"
  by unfold_locales (auto simp: lb_allocate_def lb_fill_def lb_get_status_def lb_set_status_def)

interpretation sector: block_contract
  sb_wf one_hot sb_tag sb_dirty sb_allocate sb_fill sb_get_status sb_set_status
  sb_is_invalid_line sb_is_reserved_line
proof
  fix b :: sector_block and m :: sector_mask and t a :: u64 and time :: u32 and st
  assume wf: "sb_wf b"
  show "sb_get_status m b = Inr RESERVED \<Longrightarrow> sb_is_reserved_line b"
    using wf get_sector_index_less
    by (auto simp: sb_get_status_def res_simps sb_is_reserved_line_def sb_wf_def in_set_conv_nth)
  assume "one_hot m"
  then obtain i where i: "get_sector_index m = Inr i" "i < 4"
    by (rule one_hotE)
  show "\<exists>st. sb_get_status m b = Inr st"
    using i by (simp add: sb_get_status_def)
  show "sb_is_invalid_line b \<Longrightarrow> sb_get_status m b = Inr INVALID"
    using i wf by (simp add: sb_get_status_def sb_is_invalid_line_def sb_wf_def)
  show "\<exists>b'. sb_allocate t a time m b = Inr b' \<and> sb_wf b' \<and> sb_tag b' = t \<and>
      sb_get_status m b' = Inr RESERVED \<and> \<not> sb_dirty m b'"
    using i wf by (simp add: sector_ops Let_def)
  show "\<exists>b'. sb_fill time m b = Inr b' \<and> sb_wf b' \<and> sb_tag b' = sb_tag b \<and>
      sb_get_status m b' = Inr (if sb_dirty m b then MODIFIED else VALID)"
    using i wf by (simp add: sector_ops)
  show "\<exists>b'. sb_set_status st m b = Inr b' \<and> sb_wf b' \<and> sb_tag b' = sb_tag b \<and>
      sb_get_status m b' = Inr st"
    using i wf by (simp add: sector_ops)
qed

lemmas block_dispatch =
  cb_tag_def cb_wf_def cb_dirty_def cb_get_status_def cb_is_invalid_line_def cb_is_reserved_line_def

lemma cb_update_ex:
  assumes "\<And>l. b = Line_Block l \<Longrightarrow> \<exists>l'. f l = Inr l' \<and> P (Line_Block l')"
    and "\<And>s. b = Sector_Block s \<Longrightarrow> \<exists>s'. g s = Inr s' \<and> P (Sector_Block s')"
  shows "\<exists>b'. cb_update f g b = Inr b' \<and> P b'"
  using assms by (cases b) (auto simp: cb_update_def)

interpretation block: block_contract
  cb_wf one_hot cb_tag cb_dirty cb_allocate cb_fill cb_get_status cb_set_status
  cb_is_invalid_line cb_is_reserved_line
proof
  fix b :: cache_block and m :: sector_mask and t a :: u64 and time :: u32 and st
  assume wf: "cb_wf b"
  show "cb_get_status m b = Inr RESERVED \<Longrightarrow> cb_is_reserved_line b"
    using wf sector.status_reserved line.status_reserved
    by (cases b) (auto simp: block_dispatch lb_get_status_def)
  assume m: "one_hot m"
  show "\<exists>st. cb_get_status m b = Inr st"
    using wf m sector.status_total line.status_total by (cases b) (simp_all add: block_dispatch)
  show "cb_is_invalid_line b \<Longrightarrow> cb_get_status m b = Inr INVALID"
    using wf m sector.status_invalid line.status_invalid by (cases b) (simp_all add: block_dispatch)
  show "\<exists>b'. cb_allocate t a time m b = Inr b' \<and> cb_wf b' \<and> cb_tag b' = t \<and>
      cb_get_status m b' = Inr RESERVED \<and> \<not> cb_dirty m b'"
    unfolding cb_allocate_def by (rule cb_update_ex) (use wf m sector.allocate_law line.allocate_law in \<open>simp_all add: block_dispatch\<close>)
  show "\<exists>b'. cb_fill time m b = Inr b' \<and> cb_wf b' \<and> cb_tag b' = cb_tag b \<and>
      cb_get_status m b' = Inr (if cb_dirty m b then MODIFIED else VALID)"
    unfolding cb_fill_def by (rule cb_update_ex) (use wf m sector.fill_law line.fill_law in \<open>simp_all add: block_dispatch\<close>)
  show "\<exists>b'. cb_set_status st m b = Inr b' \<and> cb_wf b' \<and> cb_tag b' = cb_tag b \<and>
      cb_get_status m b' = Inr st"
    unfolding cb_set_status_def by (rule cb_update_ex) (use wf m sector.set_status_law line.set_status_law in \<open>simp_all add: block_dispatch\<close>)
qed

section \<open>Properties\<close>

text \<open>
  Allocating a block for one sector reserves that sector under the new tag, and filling it
  makes the sector valid; this holds for line and sector blocks alike, for every mask of one sector.
\<close>

theorem block_allocate_fill:
  assumes "cb_wf b" "one_hot m"
  shows "\<exists>b1 b2. cb_allocate t a time m b = Inr b1 \<and> cb_get_status m b1 = Inr RESERVED \<and>
    cb_is_reserved_line b1 \<and> cb_fill time' m b1 = Inr b2 \<and> cb_wf b2 \<and> match_tag t b2 \<and>
    cb_get_status m b2 = Inr VALID \<and> \<not> cb_is_invalid_line b2"
  using block.allocate_then_fill [OF assms] by (simp add: match_tag_def)

theorem block_allocate_fill_witness:
  "\<exists>b1 b2. cb_allocate 0x80 0x80 5 4 (Sector_Block (new_sector_block 0 0)) = Inr b1 \<and>
     cb_fill 9 4 b1 = Inr b2 \<and> cb_get_status 4 b2 = Inr VALID"
  using block_allocate_fill [of "Sector_Block (new_sector_block 0 0)" 4 "0x80" "0x80" 5 9]
  by (auto simp: cb_wf_def sb_wf_def new_sector_block_def one_hot_def get_sector_index_def
      upt_conv_Cons bit_numeral_rec)

text \<open>
  Refetching one sector of a sector block touches no other sector and loses no dirty data: a
  sector that was modified is modified again after the fill, any other becomes valid, it is
  readable, and the tag stays.
\<close>

theorem sector_refetch_keeps_dirty:
  assumes "sb_wf b" "sb_is_valid_line b" "get_sector_index m = Inr i"
  shows "\<exists>b1 b2. sb_allocate_sector t1 m b = Inr b1 \<and> sb_fill t2 m b1 = Inr b2 \<and>
    sb_status b2 = (sb_status b)[i := if sb_status b ! i = MODIFIED then MODIFIED else VALID] \<and>
    sb_readable b2 ! i \<and> sb_tag b2 = sb_tag b \<and> sb_wf b2"
  using assms get_sector_index_less [OF assms(3)]
  by (simp add: sb_allocate_sector_def sb_fill_def sb_wf_def)

theorem sector_refetch_keeps_dirty_witness:
  "\<exists>b1 b2. sb_allocate_sector 1 2 ((new_sector_block 0 0)\<lparr>sb_status := [VALID, MODIFIED, INVALID, INVALID]\<rparr>)
      = Inr b1 \<and> sb_fill 2 2 b1 = Inr b2 \<and> sb_status b2 = [VALID, MODIFIED, INVALID, INVALID]"
  using sector_refetch_keeps_dirty
    [of "(new_sector_block 0 0)\<lparr>sb_status := [VALID, MODIFIED, INVALID, INVALID]\<rparr>" 2 1 1 2]
  by (auto simp: sb_wf_def new_sector_block_def sb_is_valid_line_def sb_is_invalid_line_def
      get_sector_index_def upt_conv_Cons bit_numeral_rec)

end
