(* ===== verification/Tag_Array.thy ===== *)
theory Tag_Array
  imports Cache_Config Cache_Block
begin

text \<open>
  \<^verbatim>\<open>TagArray\<close> of \<^verbatim>\<open>src/cache.h\<close> and \<^verbatim>\<open>src/cache.cc\<close>: the blocks of a cache, \<open>m_nset\<close> sets of
  \<open>m_assoc\<close> ways each, with the lookup that finds a hit or chooses a victim, the access that
  allocates it, and the fill. The configuration is held by reference in the code and passed as an
  argument here; an output parameter \<^verbatim>\<open>idx\<close> is passed in and returned.
\<close>

section \<open>Model\<close>

record evicted_block =
  ev_block_addr :: u64
  ev_modified_size :: u32
  ev_dirty_mask :: sector_mask

definition no_evicted :: evicted_block where
  "no_evicted = \<lparr>ev_block_addr = 0, ev_modified_size = 0, ev_dirty_mask = 0\<rparr>"

record tag_array =
  ta_lines :: "cache_block list"
  ta_core_id :: u32
  ta_type_id :: u32
  ta_access :: u32
  ta_miss :: u32
  ta_pending_hit :: u32
  ta_res_fail :: u32
  ta_sector_miss :: u32
  ta_is_used :: bool

text \<open>\<open>junk\<close> gives the uninitialised tag and block address of each new block.\<close>

definition new_tag_array :: "(nat \<Rightarrow> u64 \<times> u64) \<Rightarrow> cache_config \<Rightarrow> u32 \<Rightarrow> u32 \<Rightarrow> tag_array" where
  "new_tag_array junk cfg core_id type_id =
     \<lparr>ta_lines = map (\<lambda>i. if m_cache_type cfg = SECTOR
          then Sector_Block (new_sector_block (fst (junk i)) (snd (junk i)))
          else Line_Block (new_line_block (fst (junk i)) (snd (junk i))))
        [0..<unat (get_num_lines cfg)],
      ta_core_id = core_id, ta_type_id = type_id, ta_access = 0, ta_miss = 0, ta_pending_hit = 0,
      ta_res_fail = 0, ta_sector_miss = 0, ta_is_used = False\<rparr>"

text \<open>The outcome the probe returns for a way at once, or none: no match, or a match that is invalid.\<close>

definition way_hit :: "u64 \<Rightarrow> sector_mask \<Rightarrow> cache_block \<Rightarrow> CacheRequestStatus option res" where
  "way_hit tag m line =
     (if match_tag tag line then
        res_bind (cb_get_status m line) (\<lambda>st.
          case st of
            RESERVED \<Rightarrow> Inr (Some HIT_RESERVED)
          | VALID \<Rightarrow> Inr (Some HIT)
          | MODIFIED \<Rightarrow> res_bind (cb_is_readable m line)
              (\<lambda>r. Inr (Some (if r then HIT else SECTOR_MISS)))
          | INVALID \<Rightarrow> Inr (if cb_is_valid_line line then Some SECTOR_MISS else None))
      else Inr None)"

record probe_acc =
  pa_valid_line :: u32
  pa_invalid_line :: u32
  pa_valid_timestamp :: u64
  pa_all_reserved :: bool

definition no_line :: u32 where "no_line = - 1"

definition probe_start :: probe_acc where
  "probe_start = \<lparr>pa_valid_line = no_line, pa_invalid_line = no_line, pa_valid_timestamp = - 1,
     pa_all_reserved = True\<rparr>"

definition victim_time :: "cache_config \<Rightarrow> cache_block \<Rightarrow> u64" where
  "victim_time cfg line =
     (case m_evict_policy cfg of LRU \<Rightarrow> cb_get_last_access_time line | FIFO \<Rightarrow> cb_get_alloc_time line)"

definition way_victim :: "cache_config \<Rightarrow> u32 \<Rightarrow> cache_block \<Rightarrow> probe_acc \<Rightarrow> probe_acc" where
  "way_victim cfg index line a =
     (if cb_is_reserved_line line then a
      else let a = a\<lparr>pa_all_reserved := False\<rparr>
           in if cb_is_invalid_line line then a\<lparr>pa_invalid_line := index\<rparr>
              else if victim_time cfg line < pa_valid_timestamp a then
                a\<lparr>pa_valid_timestamp := victim_time cfg line, pa_valid_line := index\<rparr>
              else a)"

text \<open>The loop over the ways: an outcome and its index as soon as a way decides, else the victims.\<close>

fun probe_ways ::
  "cache_config \<Rightarrow> cache_block list \<Rightarrow> u32 \<Rightarrow> u64 \<Rightarrow> sector_mask \<Rightarrow> u32 list \<Rightarrow> probe_acc
    \<Rightarrow> (CacheRequestStatus \<times> u32 + probe_acc) res" where
  "probe_ways cfg lines set_index tag m [] a = Inr (Inr a)"
| "probe_ways cfg lines set_index tag m (way # ways) a =
     (let index = set_index * m_assoc cfg + way
      in if unat index < length lines then
           res_bind (way_hit tag m (lines ! unat index)) (\<lambda>h.
             case h of
               Some st \<Rightarrow> Inr (Inl (st, index))
             | None \<Rightarrow> probe_ways cfg lines set_index tag m ways
                         (way_victim cfg index (lines ! unat index) a))
         else Inl Out_Of_Range)"

definition all_ways :: "cache_config \<Rightarrow> u32 list" where
  "all_ways cfg = map of_nat [0..<unat (m_assoc cfg)]"

definition ta_probe ::
  "cache_config \<Rightarrow> u64 \<Rightarrow> u32 \<Rightarrow> sector_mask \<Rightarrow> tag_array \<Rightarrow> (CacheRequestStatus \<times> u32) res" where
  "ta_probe cfg addr idx m ta =
     res_bind (get_set_index cfg addr) (\<lambda>set_index.
     res_bind (probe_ways cfg (ta_lines ta) set_index (get_tag cfg addr) m (all_ways cfg) probe_start)
       (\<lambda>r. case r of
          Inl (st, index) \<Rightarrow> Inr (st, index)
        | Inr a \<Rightarrow>
            if pa_all_reserved a then
              res_bind (assert_that (m_alloc_policy cfg = ON_MISS) ''get_alloc_policy() == ON_MISS'')
                (\<lambda>_. Inr (RESERVATION_FAIL, idx))
            else if pa_invalid_line a \<noteq> no_line then Inr (MISS, pa_invalid_line a)
            else if pa_valid_line a \<noteq> no_line then Inr (MISS, pa_valid_line a)
            else Inl (Assert_Fail ''0'')))"

definition update_line ::
  "(cache_block \<Rightarrow> cache_block res) \<Rightarrow> u32 \<Rightarrow> tag_array \<Rightarrow> tag_array res" where
  "update_line f idx ta =
     (if unat idx < length (ta_lines ta) then
        res_bind (f (ta_lines ta ! unat idx)) (\<lambda>b. Inr (ta\<lparr>ta_lines := (ta_lines ta)[unat idx := b]\<rparr>))
      else Inl Out_Of_Range)"

text \<open>The value of a state enumerator, as it converts to a bit mask.\<close>

definition state_mask :: "CacheBlockState \<Rightarrow> sector_mask" where
  "state_mask st = (case st of INVALID \<Rightarrow> 0 | RESERVED \<Rightarrow> 1 | VALID \<Rightarrow> 2 | MODIFIED \<Rightarrow> 3)"

text \<open>The eviction and allocation of the miss case.\<close>

definition ta_replace ::
  "cache_config \<Rightarrow> u64 \<Rightarrow> u32 \<Rightarrow> u32 \<Rightarrow> sector_mask \<Rightarrow> bool \<Rightarrow> evicted_block \<Rightarrow> tag_array
    \<Rightarrow> (bool \<times> evicted_block \<times> tag_array) res" where
  "ta_replace cfg addr time idx m wb evicted ta =
     (if unat idx < length (ta_lines ta) then
        let line = ta_lines ta ! unat idx
        in res_bind (if cb_is_modified_line line then
               res_bind (cb_get_status m line) (\<lambda>st.
                 Inr (True, \<lparr>ev_block_addr = cb_block_addr line,
                       ev_modified_size = cb_get_modified_size line, ev_dirty_mask = state_mask st\<rparr>))
             else Inr (wb, evicted)) (\<lambda>(wb', evicted').
           res_bind (update_line (cb_allocate (get_tag cfg addr) (get_block_addr cfg addr) time m) idx ta)
             (\<lambda>ta'. Inr (wb', evicted', ta')))
      else Inl Out_Of_Range)"

definition ta_access_mf ::
  "cache_config \<Rightarrow> u64 \<Rightarrow> u32 \<Rightarrow> u32 \<Rightarrow> mem_fetch \<Rightarrow> bool \<Rightarrow> evicted_block \<Rightarrow> tag_array
    \<Rightarrow> (CacheRequestStatus \<times> u32 \<times> bool \<times> evicted_block \<times> tag_array) res" where
  "ta_access_mf cfg addr time idx mf wb evicted ta =
     (let ta = ta\<lparr>ta_is_used := True, ta_access := ta_access ta + 1\<rparr>;
          m = mf_sector_mask mf
      in res_bind (ta_probe cfg addr idx m ta) (\<lambda>(status, idx).
        case status of
          HIT_RESERVED \<Rightarrow>
            Inr (status, idx, wb, evicted, ta\<lparr>ta_pending_hit := ta_pending_hit ta + 1\<rparr>)
        | HIT \<Rightarrow> res_bind (update_line (cb_set_last_access_time (ucast time) m) idx ta)
            (\<lambda>ta. Inr (status, idx, wb, evicted, ta))
        | SECTOR_MISS \<Rightarrow>
            res_bind (assert_that (m_cache_type cfg = SECTOR) ''get_cache_type() == SECTOR'') (\<lambda>_.
            let ta = ta\<lparr>ta_sector_miss := ta_sector_miss ta + 1\<rparr>
            in if m_alloc_policy cfg = ON_MISS then
                 res_bind (update_line (cb_allocate_sector time m) idx ta)
                   (\<lambda>ta. Inr (status, idx, wb, evicted, ta))
               else Inr (status, idx, wb, evicted, ta))
        | MISS \<Rightarrow>
            (let ta = ta\<lparr>ta_miss := ta_miss ta + 1\<rparr>
             in if m_alloc_policy cfg = ON_MISS then
                  res_bind (ta_replace cfg addr time idx m wb evicted ta)
                    (\<lambda>(wb, evicted, ta). Inr (status, idx, wb, evicted, ta))
                else Inr (status, idx, wb, evicted, ta))
        | RESERVATION_FAIL \<Rightarrow>
            Inr (status, idx, wb, evicted, ta\<lparr>ta_res_fail := ta_res_fail ta + 1\<rparr>)
        | MSHR_HIT \<Rightarrow> Inr (status, idx, wb, evicted, ta)))"

text \<open>The overload without write-back information.\<close>

definition ta_access_simple ::
  "cache_config \<Rightarrow> u64 \<Rightarrow> u32 \<Rightarrow> u32 \<Rightarrow> mem_fetch \<Rightarrow> tag_array
    \<Rightarrow> (CacheRequestStatus \<times> u32 \<times> tag_array) res" where
  "ta_access_simple cfg addr time idx mf ta =
     res_bind (ta_access_mf cfg addr time idx mf False no_evicted ta)
       (\<lambda>(status, idx, _, _, ta). Inr (status, idx, ta))"

definition ta_fill_index :: "cache_config \<Rightarrow> u32 \<Rightarrow> u32 \<Rightarrow> mem_fetch \<Rightarrow> tag_array \<Rightarrow> tag_array res" where
  "ta_fill_index cfg index time mf ta =
     res_bind (assert_that (m_alloc_policy cfg = ON_MISS) ''get_alloc_policy() == ON_MISS'')
       (\<lambda>_. update_line (cb_fill time (mf_sector_mask mf)) index ta)"

text \<open>
  The fill by address. \<^verbatim>\<open>idx\<close> is an uninitialised local: when the probe fails to reserve, the last line
  indexes with it.
\<close>

definition ta_fill_addr :: "cache_config \<Rightarrow> u64 \<Rightarrow> u32 \<Rightarrow> sector_mask \<Rightarrow> tag_array \<Rightarrow> tag_array res" where
  "ta_fill_addr cfg addr time m ta =
     res_bind (ta_probe cfg addr no_line m ta) (\<lambda>(status, idx).
       res_bind
         (if status = MISS then
            update_line (cb_allocate (get_tag cfg addr) (get_block_addr cfg addr) time m) idx ta
          else if status = SECTOR_MISS then
            res_bind (assert_that (m_cache_type cfg = SECTOR) ''get_cache_type() == SECTOR'')
              (\<lambda>_. update_line (cb_allocate_sector time m) idx ta)
          else Inr ta)
         (\<lambda>ta. if status = RESERVATION_FAIL then Inl Bad_Pointer
               else update_line (cb_fill time m) idx ta))"

definition ta_invalidate :: "cache_config \<Rightarrow> tag_array \<Rightarrow> tag_array res" where
  "ta_invalidate cfg ta =
     (if \<not> ta_is_used ta then Inr ta
      else res_foldl (\<lambda>ta i.
             res_foldl (\<lambda>ta j. update_line (cb_set_status INVALID (set_bit j 0)) (of_nat i) ta)
               ta [0..<SECTOR_CHUNCK_SIZE])
             ta [0..<unat (get_num_lines cfg)])"

section \<open>Well-formed tag arrays\<close>

text \<open>
  The geometry: a power-of-two number of sets the hash can handle, at least one way, as many
  blocks as the configuration says, each of the configured kind.
\<close>

definition geometry :: "cache_config \<Rightarrow> nat \<Rightarrow> tag_array \<Rightarrow> bool" where
  "geometry cfg s ta \<longleftrightarrow> sets_ok cfg s \<and> 0 < unat (m_assoc cfg) \<and>
     2 ^ s * unat (m_assoc cfg) < 2 ^ 32 \<and> length (ta_lines ta) = 2 ^ s * unat (m_assoc cfg) \<and>
     (\<forall>b\<in>set (ta_lines ta). cb_wf b \<and> victim_time cfg b < - 1 \<and>
        (m_cache_type cfg = SECTOR \<longleftrightarrow> (\<exists>x. b = Sector_Block x)))"

definition way_index :: "cache_config \<Rightarrow> u32 \<Rightarrow> u32 \<Rightarrow> u32" where
  "way_index cfg set_index way = set_index * m_assoc cfg + way"

text \<open>The indices of the blocks of a set.\<close>

definition set_lines :: "cache_config \<Rightarrow> nat \<Rightarrow> nat set" where
  "set_lines cfg k = {k * unat (m_assoc cfg) ..< k * unat (m_assoc cfg) + unat (m_assoc cfg)}"

lemma geometryD:
  assumes "geometry cfg s ta"
  shows "sets_ok cfg s" "0 < unat (m_assoc cfg)" "2 ^ s * unat (m_assoc cfg) < 2 ^ 32"
    "length (ta_lines ta) = 2 ^ s * unat (m_assoc cfg)"
    "i < length (ta_lines ta) \<Longrightarrow> cb_wf (ta_lines ta ! i)"
    "i < length (ta_lines ta) \<Longrightarrow> victim_time cfg (ta_lines ta ! i) < - 1"
  using assms by (simp_all add: geometry_def)

lemma set_lines_bound:
  assumes "k < 2 ^ s" "i \<in> set_lines cfg k"
  shows "i < 2 ^ s * unat (m_assoc cfg)" "i div unat (m_assoc cfg) = k"
proof -
  have "i < k * unat (m_assoc cfg) + unat (m_assoc cfg)" "k * unat (m_assoc cfg) \<le> i"
    using assms(2) by (auto simp: set_lines_def)
  moreover have "(k + 1) * unat (m_assoc cfg) \<le> 2 ^ s * unat (m_assoc cfg)"
    using assms(1) by (intro mult_le_mono) auto
  ultimately show "i < 2 ^ s * unat (m_assoc cfg)" "i div unat (m_assoc cfg) = k"
    by (simp_all add: div_nat_eqI mult.commute)
qed

lemma way_index_unat:
  assumes "geometry cfg s ta" "unat k < 2 ^ s" "w < unat (m_assoc cfg)"
  shows "unat (way_index cfg k (of_nat w)) = unat k * unat (m_assoc cfg) + w"
    and "unat k * unat (m_assoc cfg) + w \<in> set_lines cfg (unat k)"
proof -
  show mem: "unat k * unat (m_assoc cfg) + w \<in> set_lines cfg (unat k)"
    using assms(3) by (simp add: set_lines_def)
  have lt: "unat k * unat (m_assoc cfg) + w < 2 ^ 32"
    using set_lines_bound(1) [OF assms(2) mem] geometryD(3) [OF assms(1)] by linarith
  have w: "unat (of_nat w :: u32) = w"
    using lt by (simp add: unat_of_nat)
  show "unat (way_index cfg k (of_nat w)) = unat k * unat (m_assoc cfg) + w"
    using lt unfolding way_index_def
    by (subst unat_add_no_wrap; simp add: w unat_word_ariths)
qed

lemma set_lines_ways:
  assumes "geometry cfg s ta" "unat k < 2 ^ s"
  shows "(\<lambda>w. unat (way_index cfg k w)) ` set (all_ways cfg) = set_lines cfg (unat k)"
proof -
  have "(\<lambda>w. unat (way_index cfg k (of_nat w))) ` {0..<unat (m_assoc cfg)}
      = (\<lambda>w. unat k * unat (m_assoc cfg) + w) ` {0..<unat (m_assoc cfg)}"
    using way_index_unat(1) [OF assms] by (intro image_cong) simp_all
  also have "\<dots> = set_lines cfg (unat k)"
    by (simp add: set_lines_def add.commute)
  finally show ?thesis
    by (simp add: all_ways_def image_image)
qed

section \<open>The lookup\<close>

lemma cb_is_readable_total:
  assumes "one_hot m"
  shows "\<exists>r. cb_is_readable m b = Inr r"
  using assms
  by (cases b) (auto simp: cb_is_readable_def lb_is_readable_def sb_is_readable_def elim!: one_hotE)

lemma cb_valid_line_cases:
  assumes "cb_wf b" "cb_get_status m b = Inr INVALID"
  shows "cb_is_valid_line b \<longleftrightarrow> \<not> cb_is_invalid_line b"
  using assms by (cases b)
    (auto simp: cb_is_valid_line_def cb_is_invalid_line_def sb_is_valid_line_def cb_get_status_def
      lb_get_status_def)

lemma way_hit_total:
  assumes "cb_wf b" "one_hot m"
  shows "\<exists>h. way_hit tag m b = Inr h \<and> (h = None \<longleftrightarrow> \<not> match_tag tag b \<or> cb_is_invalid_line b) \<and>
    h \<in> {None, Some HIT, Some HIT_RESERVED, Some SECTOR_MISS}"
proof -
  obtain st where st: "cb_get_status m b = Inr st"
    using block.status_total [OF assms] by blast
  obtain r where r: "cb_is_readable m b = Inr r"
    using cb_is_readable_total [OF assms(2)] by blast
  show ?thesis
  proof (cases "match_tag tag b")
    case True
    then show ?thesis
      using st r block.status_invalid [OF assms] cb_valid_line_cases [OF assms(1), of m]
      by (cases st) (auto simp: way_hit_def)
  qed (simp add: way_hit_def)
qed

lemma way_hit_HIT:
  "way_hit tag m b = Inr (Some HIT) \<longleftrightarrow> match_tag tag b \<and>
     (cb_get_status m b = Inr VALID \<or> cb_get_status m b = Inr MODIFIED \<and> cb_is_readable m b = Inr True)"
  by (cases "cb_get_status m b"; cases "projr (cb_get_status m b)")
    (auto simp: way_hit_def res_simps split: if_splits)

lemma way_hit_HIT_RESERVED:
  "way_hit tag m b = Inr (Some HIT_RESERVED) \<longleftrightarrow> match_tag tag b \<and> cb_get_status m b = Inr RESERVED"
  by (cases "cb_get_status m b"; cases "projr (cb_get_status m b)")
    (auto simp: way_hit_def res_simps split: if_splits)

text \<open>The loop finds the first way that decides, or folds the victim choice over all of them.\<close>

definition hit_at :: "cache_block list \<Rightarrow> u64 \<Rightarrow> sector_mask \<Rightarrow> nat \<Rightarrow> CacheRequestStatus option" where
  "hit_at lines tag m i = projr (way_hit tag m (lines ! i))"

definition victims :: "cache_config \<Rightarrow> cache_block list \<Rightarrow> u32 \<Rightarrow> u32 list \<Rightarrow> probe_acc \<Rightarrow> probe_acc" where
  "victims cfg lines k ways a =
     fold (\<lambda>w. way_victim cfg (way_index cfg k w) (lines ! unat (way_index cfg k w))) ways a"

lemma probe_ways_eq:
  assumes "\<forall>w\<in>set ways. unat (way_index cfg k w) < length lines"
    and "\<forall>b\<in>set lines. cb_wf b" "one_hot m"
  shows "probe_ways cfg lines k tag m ways a =
    Inr (case find (\<lambda>w. hit_at lines tag m (unat (way_index cfg k w)) \<noteq> None) ways of
           Some w \<Rightarrow> Inl (the (hit_at lines tag m (unat (way_index cfg k w))), way_index cfg k w)
         | None \<Rightarrow> Inr (victims cfg lines k ways a))"
  using assms(1)
proof (induction ways arbitrary: a)
  case (Cons w ws)
  have lt: "unat (way_index cfg k w) < length lines"
    using Cons.prems by simp
  then obtain h where h: "way_hit tag m (lines ! unat (way_index cfg k w)) = Inr h"
    using way_hit_total [OF _ assms(3), of _ tag] assms(2) by (metis nth_mem)
  show ?case
    using Cons lt h
    by (cases h) (simp_all add: way_index_def [symmetric] hit_at_def victims_def Let_def
        split: option.splits)
qed (simp add: victims_def)

text \<open>What the victim choice knows after the blocks \<open>W\<close>.\<close>

definition acc_inv :: "cache_config \<Rightarrow> cache_block list \<Rightarrow> nat set \<Rightarrow> probe_acc \<Rightarrow> bool" where
  "acc_inv cfg lines W a \<longleftrightarrow>
     (pa_all_reserved a \<longleftrightarrow> (\<forall>i\<in>W. cb_is_reserved_line (lines ! i))) \<and>
     (if pa_invalid_line a = no_line
      then \<forall>i\<in>W. cb_is_reserved_line (lines ! i) \<or> \<not> cb_is_invalid_line (lines ! i)
      else unat (pa_invalid_line a) \<in> W \<and> cb_is_invalid_line (lines ! unat (pa_invalid_line a)) \<and>
        \<not> cb_is_reserved_line (lines ! unat (pa_invalid_line a))) \<and>
     (if pa_valid_line a = no_line
      then pa_valid_timestamp a = - 1 \<and>
        (\<forall>i\<in>W. cb_is_reserved_line (lines ! i) \<or> cb_is_invalid_line (lines ! i))
      else unat (pa_valid_line a) \<in> W \<and> \<not> cb_is_reserved_line (lines ! unat (pa_valid_line a)) \<and>
        pa_valid_timestamp a = victim_time cfg (lines ! unat (pa_valid_line a)) \<and>
        (\<forall>i\<in>W. \<not> cb_is_reserved_line (lines ! i) \<longrightarrow> \<not> cb_is_invalid_line (lines ! i) \<longrightarrow>
           pa_valid_timestamp a \<le> victim_time cfg (lines ! i)))"

lemma acc_inv_start: "acc_inv cfg lines {} probe_start"
  by (simp add: acc_inv_def probe_start_def)

lemma acc_inv_step:
  assumes "acc_inv cfg lines W a" "victim_time cfg (lines ! unat x) < - 1" "x \<noteq> no_line"
  shows "acc_inv cfg lines (insert (unat x) W) (way_victim cfg x (lines ! unat x) a)"
proof (cases "cb_is_reserved_line (lines ! unat x)")
  case True
  then show ?thesis
    using assms(1) by (auto simp: acc_inv_def way_victim_def)
next
  case nr: False
  show ?thesis
  proof (cases "cb_is_invalid_line (lines ! unat x)")
    case True
    then show ?thesis
      using nr assms(1,3) by (auto simp: acc_inv_def way_victim_def)
  next
    case ni: False
    show ?thesis
    proof (cases "victim_time cfg (lines ! unat x) < pa_valid_timestamp a")
      case True
      have "victim_time cfg (lines ! unat x) \<le> victim_time cfg (lines ! i)"
        if "i \<in> W" "\<not> cb_is_reserved_line (lines ! i)" "\<not> cb_is_invalid_line (lines ! i)" for i
        using that True assms(1) unfolding acc_inv_def by (metis less_imp_le order.trans)
      then show ?thesis
        using nr ni True assms(1,3) by (simp add: acc_inv_def way_victim_def)
    next
      case False
      then have "pa_valid_line a \<noteq> no_line"
        using assms(1,2) unfolding acc_inv_def by metis
      moreover have "way_victim cfg x (lines ! unat x) a = a\<lparr>pa_all_reserved := False\<rparr>"
        using nr ni False by (simp add: way_victim_def)
      ultimately show ?thesis
        using nr ni False assms(1) by (auto simp: acc_inv_def not_less)
    qed
  qed
qed

lemma acc_inv_victims:
  assumes "\<forall>w\<in>set ways. victim_time cfg (lines ! unat (way_index cfg k w)) < - 1 \<and>
      way_index cfg k w \<noteq> no_line"
  shows "acc_inv cfg lines W a \<Longrightarrow>
    acc_inv cfg lines ((\<lambda>w. unat (way_index cfg k w)) ` set ways \<union> W) (victims cfg lines k ways a)"
  using assms
proof (induction ways arbitrary: a W)
  case (Cons w ws)
  have "acc_inv cfg lines (insert (unat (way_index cfg k w)) W)
      (way_victim cfg (way_index cfg k w) (lines ! unat (way_index cfg k w)) a)"
    using Cons.prems by (intro acc_inv_step) auto
  from Cons.IH [OF this] show ?case
    using Cons.prems(2) by (simp add: victims_def)
qed (simp add: victims_def)

text \<open>A legal victim among the blocks \<open>W\<close>: not reserved, invalid if possible, else the oldest.\<close>

definition legal_victim :: "cache_config \<Rightarrow> cache_block list \<Rightarrow> nat set \<Rightarrow> nat \<Rightarrow> bool" where
  "legal_victim cfg lines W i \<longleftrightarrow> i \<in> W \<and> \<not> cb_is_reserved_line (lines ! i) \<and>
     (if \<exists>j\<in>W. cb_is_invalid_line (lines ! j) \<and> \<not> cb_is_reserved_line (lines ! j)
      then cb_is_invalid_line (lines ! i)
      else \<forall>j\<in>W. \<not> cb_is_reserved_line (lines ! j) \<longrightarrow>
             victim_time cfg (lines ! i) \<le> victim_time cfg (lines ! j))"

lemma acc_inv_result:
  assumes "acc_inv cfg lines W a" "\<not> pa_all_reserved a"
  shows "\<exists>x. (if pa_invalid_line a \<noteq> no_line then pa_invalid_line a else pa_valid_line a) = x \<and>
    x \<noteq> no_line \<and> legal_victim cfg lines W (unat x)"
  using assms by (auto simp: acc_inv_def legal_victim_def split: if_splits)

text \<open>The lookup is total on well-formed arrays and its outcome is one of three kinds.\<close>

definition probe_found :: "cache_config \<Rightarrow> u64 \<Rightarrow> sector_mask \<Rightarrow> tag_array \<Rightarrow> nat \<Rightarrow> CacheRequestStatus \<Rightarrow> u32 \<Rightarrow> bool" where
  "probe_found cfg addr m ta k st idx \<longleftrightarrow> st \<in> {HIT, HIT_RESERVED, SECTOR_MISS} \<and>
     unat idx \<in> set_lines cfg k \<and> way_hit (get_tag cfg addr) m (ta_lines ta ! unat idx) = Inr (Some st)"

definition no_match :: "cache_config \<Rightarrow> u64 \<Rightarrow> tag_array \<Rightarrow> nat \<Rightarrow> bool" where
  "no_match cfg addr ta k \<longleftrightarrow> (\<forall>i\<in>set_lines cfg k.
     match_tag (get_tag cfg addr) (ta_lines ta ! i) \<longrightarrow> cb_is_invalid_line (ta_lines ta ! i))"

lemma ta_probe_cases [consumes 2]:
  assumes g: "geometry cfg s ta" and m: "one_hot m"
  obtains (found) k st idx' where "get_set_index cfg addr = Inr k" "unat k < 2 ^ s"
      "ta_probe cfg addr idx m ta = Inr (st, idx')" "probe_found cfg addr m ta (unat k) st idx'"
  | (miss) k idx' where "get_set_index cfg addr = Inr k" "unat k < 2 ^ s"
      "ta_probe cfg addr idx m ta = Inr (MISS, idx')" "no_match cfg addr ta (unat k)"
      "legal_victim cfg (ta_lines ta) (set_lines cfg (unat k)) (unat idx')"
  | (full) k where "get_set_index cfg addr = Inr k" "unat k < 2 ^ s" "no_match cfg addr ta (unat k)"
      "\<forall>i\<in>set_lines cfg (unat k). cb_is_reserved_line (ta_lines ta ! i)"
      "ta_probe cfg addr idx m ta = res_bind
        (assert_that (m_alloc_policy cfg = ON_MISS) ''get_alloc_policy() == ON_MISS'')
        (\<lambda>_. Inr (RESERVATION_FAIL, idx))"
proof -
  let ?lines = "ta_lines ta" and ?tag = "get_tag cfg addr"
  obtain k where k: "get_set_index cfg addr = Inr k" "unat k < 2 ^ s"
    using hash_function_less [OF geometryD(1) [OF g]] by (auto simp: get_set_index_def)
  have ways: "(\<lambda>w. unat (way_index cfg k w)) ` set (all_ways cfg) = set_lines cfg (unat k)"
    by (rule set_lines_ways [OF g k(2)])
  have in_range: "i < length ?lines" if "i \<in> set_lines cfg (unat k)" for i
    using set_lines_bound(1) [OF k(2) that] geometryD(4) [OF g] by simp
  have range: "\<forall>w\<in>set (all_ways cfg). unat (way_index cfg k w) < length ?lines"
    using ways in_range by blast
  have wf: "\<forall>b\<in>set ?lines. cb_wf b"
    using g by (simp add: geometry_def)
  have hits: "hit_at ?lines ?tag m i = None \<longleftrightarrow>
      \<not> match_tag ?tag (?lines ! i) \<or> cb_is_invalid_line (?lines ! i)"
    "way_hit ?tag m (?lines ! i) = Inr (hit_at ?lines ?tag m i)"
    "hit_at ?lines ?tag m i \<in> {None, Some HIT, Some HIT_RESERVED, Some SECTOR_MISS}"
    if "i \<in> set_lines cfg (unat k)" for i
    using way_hit_total [OF geometryD(5) [OF g in_range [OF that]] m, of ?tag]
    by (auto simp: hit_at_def)
  have pr: "ta_probe cfg addr idx m ta =
      (case find (\<lambda>w. hit_at ?lines ?tag m (unat (way_index cfg k w)) \<noteq> None) (all_ways cfg) of
         Some w \<Rightarrow> Inr (the (hit_at ?lines ?tag m (unat (way_index cfg k w))), way_index cfg k w)
       | None \<Rightarrow> (let a = victims cfg ?lines k (all_ways cfg) probe_start
           in if pa_all_reserved a then
              res_bind (assert_that (m_alloc_policy cfg = ON_MISS) ''get_alloc_policy() == ON_MISS'')
                (\<lambda>_. Inr (RESERVATION_FAIL, idx))
            else if pa_invalid_line a \<noteq> no_line then Inr (MISS, pa_invalid_line a)
            else if pa_valid_line a \<noteq> no_line then Inr (MISS, pa_valid_line a)
            else Inl (Assert_Fail ''0'')))"
    using k(1) probe_ways_eq [OF range wf m, of ?tag probe_start]
    by (simp add: ta_probe_def Let_def split: option.splits)
  show thesis
  proof (cases "find (\<lambda>w. hit_at ?lines ?tag m (unat (way_index cfg k w)) \<noteq> None) (all_ways cfg)")
    case (Some w)
    then have w: "w \<in> set (all_ways cfg)" "hit_at ?lines ?tag m (unat (way_index cfg k w)) \<noteq> None"
      by (auto simp: find_Some_iff)
    have iw: "unat (way_index cfg k w) \<in> set_lines cfg (unat k)"
      using w(1) ways by blast
    obtain st where st: "hit_at ?lines ?tag m (unat (way_index cfg k w)) = Some st"
      using w(2) by blast
    have "probe_found cfg addr m ta (unat k) st (way_index cfg k w)"
      using hits(2,3) [OF iw] st iw by (auto simp: probe_found_def)
    then show thesis
      using found [OF k] pr Some st by auto
  next
    case None
    then have none: "\<forall>i\<in>set_lines cfg (unat k). hit_at ?lines ?tag m i = None"
      unfolding ways [symmetric] by (auto simp: find_None_iff)
    then have nm: "no_match cfg addr ta (unat k)"
      using hits(1) by (auto simp: no_match_def)
    define a where "a = victims cfg ?lines k (all_ways cfg) probe_start"
    have small: "way_index cfg k w \<noteq> no_line" if "w \<in> set (all_ways cfg)" for w
    proof
      assume "way_index cfg k w = no_line"
      then have "unat (way_index cfg k w) = 2 ^ 32 - 1"
        by (simp add: no_line_def unsigned_minus_1_eq_mask mask_eq_exp_minus_1)
      then show False
        using range that geometryD(3,4) [OF g] by fastforce
    qed
    have "acc_inv cfg ?lines ((\<lambda>w. unat (way_index cfg k w)) ` set (all_ways cfg) \<union> {}) a"
      unfolding a_def using geometryD(6) [OF g] range small
      by (intro acc_inv_victims acc_inv_start) auto
    then have inv: "acc_inv cfg ?lines (set_lines cfg (unat k)) a"
      by (simp add: ways)
    show thesis
    proof (cases "pa_all_reserved a")
      case True
      then show thesis
        using full [OF k nm] inv pr None by (auto simp: acc_inv_def a_def Let_def)
    next
      case False
      then show thesis
        using acc_inv_result [OF inv False] miss [OF k _ nm] pr None
        by (auto simp: a_def [symmetric] Let_def split: if_splits)
    qed
  qed
qed

section \<open>The invariant of the tag array\<close>

text \<open>
  Every block that is not invalid sits in the set its tag maps to, and no two such blocks carry
  the same tag.
\<close>

definition ta_inv :: "cache_config \<Rightarrow> nat \<Rightarrow> tag_array \<Rightarrow> bool" where
  "ta_inv cfg s ta \<longleftrightarrow> geometry cfg s ta \<and>
     (\<forall>i<length (ta_lines ta). \<not> cb_is_invalid_line (ta_lines ta ! i) \<longrightarrow>
        (\<exists>k. get_set_index cfg (cb_tag (ta_lines ta ! i)) = Inr k \<and> i \<in> set_lines cfg (unat k))) \<and>
     (\<forall>i<length (ta_lines ta). \<forall>j<length (ta_lines ta). i \<noteq> j \<longrightarrow>
        \<not> cb_is_invalid_line (ta_lines ta ! i) \<longrightarrow> \<not> cb_is_invalid_line (ta_lines ta ! j) \<longrightarrow>
        cb_tag (ta_lines ta ! i) \<noteq> cb_tag (ta_lines ta ! j))"

lemma ta_invD:
  assumes "ta_inv cfg s ta"
  shows "geometry cfg s ta"
    and "i < length (ta_lines ta) \<Longrightarrow> \<not> cb_is_invalid_line (ta_lines ta ! i) \<Longrightarrow>
      \<exists>k. get_set_index cfg (cb_tag (ta_lines ta ! i)) = Inr k \<and> i \<in> set_lines cfg (unat k)"
    and "i < length (ta_lines ta) \<Longrightarrow> j < length (ta_lines ta) \<Longrightarrow> i \<noteq> j \<Longrightarrow>
      \<not> cb_is_invalid_line (ta_lines ta ! i) \<Longrightarrow> \<not> cb_is_invalid_line (ta_lines ta ! j) \<Longrightarrow>
      cb_tag (ta_lines ta ! i) \<noteq> cb_tag (ta_lines ta ! j)"
  using assms by (auto simp: ta_inv_def)

definition same_kind :: "cache_block \<Rightarrow> cache_block \<Rightarrow> bool" where
  "same_kind b b' \<longleftrightarrow> (\<exists>x. b = Sector_Block x) = (\<exists>x. b' = Sector_Block x)"

definition keeps :: "cache_config \<Rightarrow> cache_block \<Rightarrow> cache_block \<Rightarrow> bool" where
  "keeps cfg b b' \<longleftrightarrow> cb_wf b' \<and> victim_time cfg b' < - 1 \<and> same_kind b b' \<and> cb_tag b' = cb_tag b \<and>
     (cb_is_invalid_line b \<longrightarrow> cb_is_invalid_line b')"

lemma geometry_update:
  assumes "geometry cfg s ta" "i < length (ta_lines ta)" "cb_wf b" "victim_time cfg b < - 1"
    "same_kind (ta_lines ta ! i) b"
  shows "geometry cfg s (ta\<lparr>ta_lines := (ta_lines ta)[i := b]\<rparr>)"
proof -
  have "(m_cache_type cfg = SECTOR) = (\<exists>x. b = Sector_Block x)"
    using assms(1,5) nth_mem [OF assms(2)] by (simp add: geometry_def same_kind_def)
  then show ?thesis
    using assms(1,3,4) set_update_subset_insert [of "ta_lines ta" i b]
    unfolding geometry_def by fastforce
qed

lemma ta_inv_keeps:
  assumes inv: "ta_inv cfg s ta" and i: "i < length (ta_lines ta)" and b: "keeps cfg (ta_lines ta ! i) b"
  shows "ta_inv cfg s (ta\<lparr>ta_lines := (ta_lines ta)[i := b]\<rparr>)"
proof -
  have "geometry cfg s (ta\<lparr>ta_lines := (ta_lines ta)[i := b]\<rparr>)"
    using b i ta_invD(1) [OF inv] by (intro geometry_update) (auto simp: keeps_def)
  moreover have tag: "cb_tag ((ta_lines ta)[i := b] ! j) = cb_tag (ta_lines ta ! j)"
    "\<not> cb_is_invalid_line ((ta_lines ta)[i := b] ! j) \<Longrightarrow> \<not> cb_is_invalid_line (ta_lines ta ! j)" for j
    using b i by (cases "j = i"; auto simp: keeps_def)+
  ultimately show ?thesis
    unfolding ta_inv_def using ta_invD(2,3) [OF inv]
    by (simp add: tag)
qed

lemma ta_inv_replace:
  assumes inv: "ta_inv cfg s ta" and k: "get_set_index cfg (cb_tag b) = Inr k" "unat k < 2 ^ s"
    and i: "i \<in> set_lines cfg (unat k)"
    and b: "cb_wf b" "victim_time cfg b < - 1" "same_kind (ta_lines ta ! i) b"
    and fresh: "\<forall>j\<in>set_lines cfg (unat k). cb_tag (ta_lines ta ! j) = cb_tag b \<longrightarrow>
      cb_is_invalid_line (ta_lines ta ! j)"
  shows "ta_inv cfg s (ta\<lparr>ta_lines := (ta_lines ta)[i := b]\<rparr>)"
proof -
  have il: "i < length (ta_lines ta)"
    using set_lines_bound(1) [OF k(2) i] geometryD(4) [OF ta_invD(1) [OF inv]] by simp
  have other: "cb_tag (ta_lines ta ! j) \<noteq> cb_tag b"
    if "j < length (ta_lines ta)" "\<not> cb_is_invalid_line (ta_lines ta ! j)" for j
    using ta_invD(2) [OF inv that] k(1) fresh that(2) by force
  have "geometry cfg s (ta\<lparr>ta_lines := (ta_lines ta)[i := b]\<rparr>)"
    using ta_invD(1) [OF inv] il b by (rule geometry_update)
  moreover have "\<exists>k. get_set_index cfg (cb_tag ((ta_lines ta)[i := b] ! j)) = Inr k \<and> j \<in> set_lines cfg (unat k)"
    if "j < length (ta_lines ta)" "\<not> cb_is_invalid_line ((ta_lines ta)[i := b] ! j)" for j
    using that k(1) i il ta_invD(2) [OF inv that(1)] by (cases "j = i") auto
  moreover have "cb_tag ((ta_lines ta)[i := b] ! j) \<noteq> cb_tag ((ta_lines ta)[i := b] ! l)"
    if "j < length (ta_lines ta)" "l < length (ta_lines ta)" "j \<noteq> l"
      "\<not> cb_is_invalid_line ((ta_lines ta)[i := b] ! j)" "\<not> cb_is_invalid_line ((ta_lines ta)[i := b] ! l)"
    for j l
    using that il ta_invD(3) [OF inv that(1-3)] other [OF that(1)] other [OF that(2)]
    by (cases "j = i"; cases "l = i") auto
  ultimately show ?thesis
    by (simp add: ta_inv_def)
qed

section \<open>Block operations keep the invariant\<close>

lemma ucast_time_less [simp]: "(ucast (t :: u32) :: u64) < - 1"
proof -
  have "unat t < 2 ^ 32"
    using unsigned_less [of t] by simp
  then show ?thesis
    by (simp add: word_less_nat_alt unsigned_minus_1_eq_mask mask_eq_exp_minus_1)
qed

lemmas block_times = victim_time_def cb_get_last_access_time_def cb_get_alloc_time_def

lemma cb_allocate_facts:
  assumes "cb_allocate t a time m b = Inr b'" "cb_wf b" "one_hot m"
  shows "cb_wf b'" "cb_tag b' = t" "cb_block_addr b' = a" "victim_time cfg b' < - 1" "same_kind b b'"
    "cb_get_status m b' = Inr RESERVED" "\<not> cb_is_invalid_line b'" "cb_is_reserved_line b'"
    "\<not> cb_dirty m b'"
proof -
  have law: "cb_wf b'" "cb_tag b' = t" "cb_get_status m b' = Inr RESERVED" "\<not> cb_dirty m b'"
    using block.allocate_law [OF assms(2,3), of t a time] assms(1) by auto
  then show "cb_wf b'" "cb_tag b' = t" "cb_get_status m b' = Inr RESERVED" "\<not> cb_dirty m b'"
    "\<not> cb_is_invalid_line b'" "cb_is_reserved_line b'"
    using block.status_not_invalid [OF law(1) assms(3)] block.status_reserved by auto
  show "cb_block_addr b' = a" "victim_time cfg b' < - 1" "same_kind b b'"
    using assms(1)
    by (cases b; cases "m_evict_policy cfg";
        auto simp: cb_allocate_def cb_update_def lb_allocate_def sb_allocate_def res_simps Let_def
          block_times same_kind_def cb_block_addr_def)+
qed

lemma cb_fill_facts:
  assumes "cb_fill time m b = Inr b'" "cb_wf b" "one_hot m" "victim_time cfg b < - 1"
    "\<not> cb_is_invalid_line b"
  shows "keeps cfg b b'" "cb_get_status m b' = Inr (if cb_dirty m b then MODIFIED else VALID)"
    "cb_is_readable m b' = cb_is_readable m b"
proof -
  have law: "cb_wf b'" "cb_tag b' = cb_tag b"
      "cb_get_status m b' = Inr (if cb_dirty m b then MODIFIED else VALID)"
    using block.fill_law [OF assms(2,3), of time] assms(1) by auto
  moreover have "victim_time cfg b' = victim_time cfg b" "same_kind b b'"
    using assms(1)
    by (cases b; cases "m_evict_policy cfg";
        auto simp: cb_fill_def cb_update_def lb_fill_def sb_fill_def res_simps block_times same_kind_def)+
  ultimately show "keeps cfg b b'" "cb_get_status m b' = Inr (if cb_dirty m b then MODIFIED else VALID)"
    using assms(4,5) by (auto simp: keeps_def)
  show "cb_is_readable m b' = cb_is_readable m b"
    using assms(1)
    by (cases b) (auto simp: cb_fill_def cb_update_def lb_fill_def sb_fill_def res_simps
        cb_is_readable_def lb_is_readable_def sb_is_readable_def)
qed

lemma cb_set_status_facts:
  assumes "cb_set_status st m b = Inr b'" "cb_wf b" "one_hot m" "victim_time cfg b < - 1"
    "\<not> cb_is_invalid_line b \<or> st = INVALID"
  shows "keeps cfg b b'" "cb_get_status m b' = Inr st"
proof -
  have law: "cb_wf b'" "cb_tag b' = cb_tag b" "cb_get_status m b' = Inr st"
    using block.set_status_law [OF assms(2,3), of st] assms(1) by auto
  moreover have "victim_time cfg b' = victim_time cfg b" "same_kind b b'"
    using assms(1)
    by (cases b; cases "m_evict_policy cfg";
        auto simp: cb_set_status_def cb_update_def lb_set_status_def sb_set_status_def res_simps
          block_times same_kind_def)+
  moreover have "cb_is_invalid_line b'" if "cb_is_invalid_line b"
    using assms(1,5) that
    by (cases b) (auto simp: cb_set_status_def cb_update_def lb_set_status_def sb_set_status_def
        res_simps cb_is_invalid_line_def sb_is_invalid_line_def
        dest!: set_update_subset_insert [THEN subsetD])
  ultimately show "keeps cfg b b'" "cb_get_status m b' = Inr st"
    using assms(4) by (auto simp: keeps_def)
qed

text \<open>Two blocks that answer every question about states alike.\<close>

definition same_states :: "cache_block \<Rightarrow> cache_block \<Rightarrow> bool" where
  "same_states b b' \<longleftrightarrow> cb_is_invalid_line b' = cb_is_invalid_line b \<and>
     cb_is_reserved_line b' = cb_is_reserved_line b \<and> (\<forall>m. cb_get_status m b' = cb_get_status m b) \<and>
     (\<forall>m. cb_is_readable m b' = cb_is_readable m b)"

lemma cb_set_last_access_time_facts:
  assumes "cb_wf b" "one_hot m" "victim_time cfg b < - 1"
  shows "\<exists>b'. cb_set_last_access_time (ucast (time :: u32)) m b = Inr b' \<and> keeps cfg b b' \<and> same_states b b'"
proof -
  obtain i where i: "get_sector_index m = Inr i" "i < 4"
    using assms(2) by (rule one_hotE)
  show ?thesis
    using assms(1,3) i
    by (cases b; cases "m_evict_policy cfg")
      (auto simp: keeps_def same_states_def cb_set_last_access_time_def cb_update_def
        sb_set_last_access_time_def block_dispatch block_times same_kind_def sb_wf_def
        sb_is_invalid_line_def sb_is_reserved_line_def lb_get_status_def sb_get_status_def
        cb_is_readable_def lb_is_readable_def sb_is_readable_def)
qed

lemma cb_allocate_sector_facts:
  assumes "cb_wf b" "one_hot m" "victim_time cfg b < - 1" "b = Sector_Block x" "\<not> cb_is_invalid_line b"
  shows "\<exists>b'. cb_allocate_sector time m b = Inr b' \<and> keeps cfg b b' \<and>
    cb_get_status m b' = Inr RESERVED \<and> \<not> cb_is_invalid_line b'"
proof -
  obtain i where i: "get_sector_index m = Inr i" "i < 4"
    using assms(2) by (rule one_hotE)
  have x: "sb_wf x" "sb_is_valid_line x"
    using assms(1,4,5) by (auto simp: block_dispatch sb_is_valid_line_def)
  then obtain b' where b': "cb_allocate_sector time m b = Inr b'" "cb_wf b'" "cb_tag b' = cb_tag b"
    "same_kind b b'" "cb_get_status m b' = Inr RESERVED" "victim_time cfg b' < - 1"
    using i assms(3,4)
    by (cases "m_evict_policy cfg")
      (auto simp: cb_allocate_sector_def cb_update_def sb_allocate_sector_def block_dispatch
        block_times same_kind_def sb_wf_def sb_get_status_def)
  then show ?thesis
    using block.status_not_invalid [OF b'(2) assms(2) b'(5)] assms(5) by (auto simp: keeps_def)
qed

section \<open>Lookup after an update\<close>

text \<open>The set index of an address is that of its tag: always so for aligned addresses.\<close>

definition tag_addressed :: "cache_config \<Rightarrow> u64 \<Rightarrow> bool" where
  "tag_addressed cfg addr \<longleftrightarrow> get_set_index cfg addr = get_set_index cfg (get_tag cfg addr)"

lemma tag_addressed_block [simp]: "tag_addressed cfg (get_block_addr cfg addr)"
  by (simp add: tag_addressed_def)

lemma probe_unique:
  assumes inv: "ta_inv cfg s ta" and m: "one_hot m" and addr: "tag_addressed cfg addr"
    and i: "i < length (ta_lines ta)" "match_tag (get_tag cfg addr) (ta_lines ta ! i)"
    and h: "way_hit (get_tag cfg addr) m (ta_lines ta ! i) = Inr (Some st)"
  shows "ta_probe cfg addr idx m ta = Inr (st, of_nat i)"
proof -
  have g: "geometry cfg s ta"
    by (rule ta_invD(1) [OF inv])
  have ni: "\<not> cb_is_invalid_line (ta_lines ta ! i)"
    using way_hit_total [OF geometryD(5) [OF g i(1)] m, of "get_tag cfg addr"] h by auto
  obtain k where k: "get_set_index cfg addr = Inr k" "i \<in> set_lines cfg (unat k)"
    using ta_invD(2) [OF inv i(1) ni] i(2) addr by (auto simp: tag_addressed_def match_tag_def)
  from g m show ?thesis
  proof (cases rule: ta_probe_cases [of cfg s ta m addr idx])
    case (found k' st' idx')
    then have "unat idx' \<in> set_lines cfg (unat k)" "unat k < 2 ^ s"
      "way_hit (get_tag cfg addr) m (ta_lines ta ! unat idx') = Inr (Some st')"
      using k by (auto simp: probe_found_def)
    moreover from this have l: "unat idx' < length (ta_lines ta)"
      using set_lines_bound(1) geometryD(4) [OF g] by simp
    moreover have "\<not> cb_is_invalid_line (ta_lines ta ! unat idx')"
      "match_tag (get_tag cfg addr) (ta_lines ta ! unat idx')"
      using way_hit_total [OF geometryD(5) [OF g l] m, of "get_tag cfg addr"] calculation by auto
    ultimately have eq: "unat idx' = i" and h': "way_hit (get_tag cfg addr) m (ta_lines ta ! i) = Inr (Some st')"
      using ta_invD(3) [OF inv l i(1)] ni i(2) by (auto simp: match_tag_def)
    then show ?thesis
      using found(3) h by (metis Inr_inject of_nat_unat option.inject ucast_id)
  next
    case (miss k' idx')
    then show ?thesis
      using k ni i(2) by (auto simp: no_match_def)
  next
    case (full k')
    then show ?thesis
      using k ni i(2) by (auto simp: no_match_def)
  qed
qed

section \<open>Access and fill\<close>

lemma update_line_eq:
  "unat idx < length (ta_lines ta) \<Longrightarrow> f (ta_lines ta ! unat idx) = Inr b \<Longrightarrow>
   update_line f idx ta = Inr (ta\<lparr>ta_lines := (ta_lines ta)[unat idx := b]\<rparr>)"
  by (simp add: update_line_def)

text \<open>The counters do not matter to the invariant or to the lookup.\<close>

lemma ta_inv_cong: "ta_lines ta' = ta_lines ta \<Longrightarrow> ta_inv cfg s ta' = ta_inv cfg s ta"
  by (simp add: ta_inv_def geometry_def)

lemma ta_probe_cong: "ta_lines ta' = ta_lines ta \<Longrightarrow> ta_probe cfg addr idx m ta' = ta_probe cfg addr idx m ta"
  by (simp add: ta_probe_def)

lemma probe_found_facts:
  assumes "geometry cfg s ta" "one_hot m" "unat k < 2 ^ s" "probe_found cfg addr m ta (unat k) st idx"
  shows "unat idx < length (ta_lines ta)" "cb_wf (ta_lines ta ! unat idx)"
    "victim_time cfg (ta_lines ta ! unat idx) < - 1" "match_tag (get_tag cfg addr) (ta_lines ta ! unat idx)"
    "\<not> cb_is_invalid_line (ta_lines ta ! unat idx)"
    "way_hit (get_tag cfg addr) m (ta_lines ta ! unat idx) = Inr (Some st)"
proof -
  show l: "unat idx < length (ta_lines ta)"
    using assms(3,4) set_lines_bound(1) geometryD(4) [OF assms(1)] by (simp add: probe_found_def)
  show wf: "cb_wf (ta_lines ta ! unat idx)" "victim_time cfg (ta_lines ta ! unat idx) < - 1"
    using geometryD(5,6) [OF assms(1) l] .
  show h: "way_hit (get_tag cfg addr) m (ta_lines ta ! unat idx) = Inr (Some st)"
    using assms(4) by (simp add: probe_found_def)
  show "match_tag (get_tag cfg addr) (ta_lines ta ! unat idx)"
    "\<not> cb_is_invalid_line (ta_lines ta ! unat idx)"
    using way_hit_total [OF wf(1) assms(2), of "get_tag cfg addr"] h by auto
qed

text \<open>A block that is pending for a sector: tagged, not invalid, the sector reserved.\<close>

definition pending_at :: "cache_config \<Rightarrow> u64 \<Rightarrow> sector_mask \<Rightarrow> tag_array \<Rightarrow> u32 \<Rightarrow> bool" where
  "pending_at cfg addr m ta idx \<longleftrightarrow> unat idx < length (ta_lines ta) \<and>
     match_tag (get_tag cfg addr) (ta_lines ta ! unat idx) \<and>
     cb_get_status m (ta_lines ta ! unat idx) = Inr RESERVED"

lemma ta_replace_eq:
  assumes inv: "ta_inv cfg s ta" and m: "one_hot m" and addr: "tag_addressed cfg addr"
    and k: "get_set_index cfg addr = Inr k" "unat k < 2 ^ s" "no_match cfg addr ta (unat k)"
    and v: "legal_victim cfg (ta_lines ta) (set_lines cfg (unat k)) (unat idx)"
  shows "\<exists>wb' ev' b. ta_replace cfg addr time idx m wb ev ta =
      Inr (wb', ev', ta\<lparr>ta_lines := (ta_lines ta)[unat idx := b]\<rparr>) \<and>
    cb_allocate (get_tag cfg addr) (get_block_addr cfg addr) time m (ta_lines ta ! unat idx) = Inr b \<and>
    (wb' \<longleftrightarrow> wb \<or> cb_is_modified_line (ta_lines ta ! unat idx)) \<and>
    ta_inv cfg s (ta\<lparr>ta_lines := (ta_lines ta)[unat idx := b]\<rparr>) \<and>
    pending_at cfg addr m (ta\<lparr>ta_lines := (ta_lines ta)[unat idx := b]\<rparr>) idx"
proof -
  have g: "geometry cfg s ta"
    by (rule ta_invD(1) [OF inv])
  have i: "unat idx \<in> set_lines cfg (unat k)"
    using v by (simp add: legal_victim_def)
  then have l: "unat idx < length (ta_lines ta)"
    using set_lines_bound(1) [OF k(2)] geometryD(4) [OF g] by simp
  obtain st where st: "cb_get_status m (ta_lines ta ! unat idx) = Inr st"
    using block.status_total [OF geometryD(5) [OF g l] m] by blast
  obtain b where b: "cb_allocate (get_tag cfg addr) (get_block_addr cfg addr) time m
      (ta_lines ta ! unat idx) = Inr b"
    using block.allocate_law [OF geometryD(5) [OF g l] m] by blast
  note f = cb_allocate_facts [OF b geometryD(5) [OF g l] m]
  have "ta_inv cfg s (ta\<lparr>ta_lines := (ta_lines ta)[unat idx := b]\<rparr>)"
    using inv k(1) addr k(2) i f(1,2,4,5) k(3)
    by (intro ta_inv_replace [where k = k]) (auto simp: tag_addressed_def no_match_def match_tag_def)
  then show ?thesis
    using l b st f(2,6)
    by (cases "cb_is_modified_line (ta_lines ta ! unat idx)")
      (auto simp: ta_replace_def update_line_def pending_at_def match_tag_def Let_def)
qed

text \<open>What an access leaves behind, by outcome, when blocks are allocated on a miss.\<close>

definition access_post ::
  "cache_config \<Rightarrow> u64 \<Rightarrow> sector_mask \<Rightarrow> tag_array \<Rightarrow> CacheRequestStatus \<Rightarrow> u32 \<Rightarrow> tag_array \<Rightarrow> bool" where
  "access_post cfg addr m ta st idx ta' \<longleftrightarrow>
     (case st of
        HIT \<Rightarrow> unat idx < length (ta_lines ta') \<and>
          way_hit (get_tag cfg addr) m (ta_lines ta' ! unat idx) = Inr (Some HIT)
      | RESERVATION_FAIL \<Rightarrow> ta_lines ta' = ta_lines ta
      | MSHR_HIT \<Rightarrow> False
      | _ \<Rightarrow> pending_at cfg addr m ta' idx)"

lemma line_never_sector_miss:
  assumes "cb_wf b" "way_hit tag m b = Inr (Some SECTOR_MISS)"
  shows "\<exists>x. b = Sector_Block x"
  using assms
  by (cases b) (auto simp: way_hit_def cb_get_status_def lb_get_status_def cb_is_readable_def
      lb_is_readable_def cb_wf_def cb_is_valid_line_def split: CacheBlockState.splits if_splits)

lemma ta_access_spec:
  assumes inv: "ta_inv cfg s ta" and m: "one_hot (mf_sector_mask mf)" and addr: "tag_addressed cfg addr"
    and pol: "m_alloc_policy cfg = ON_MISS"
  shows "\<exists>st idx' wb' ev' ta'. ta_access_mf cfg addr time idx mf wb ev ta = Inr (st, idx', wb', ev', ta') \<and>
    ta_probe cfg addr idx (mf_sector_mask mf) ta = Inr (st, idx') \<and> ta_inv cfg s ta' \<and>
    access_post cfg addr (mf_sector_mask mf) ta st idx' ta' \<and> (st \<noteq> MISS \<longrightarrow> wb' = wb)"
proof -
  let ?m = "mf_sector_mask mf"
  let ?ta = "ta\<lparr>ta_is_used := True, ta_access := ta_access ta + 1\<rparr>"
  have inv': "ta_inv cfg s ?ta" and pr: "ta_probe cfg addr idx ?m ?ta = ta_probe cfg addr idx ?m ta"
    using inv by (simp_all add: ta_inv_cong [of ?ta ta] ta_probe_cong [of ?ta ta])
  have g: "geometry cfg s ta"
    by (rule ta_invD(1) [OF inv])
  from g m show ?thesis
  proof (cases rule: ta_probe_cases [of cfg s ta ?m addr idx])
    case (found k st idx')
    note f = probe_found_facts [OF g m found(2,4)]
    consider "st = HIT" | "st = HIT_RESERVED" | "st = SECTOR_MISS"
      using found(4) by (auto simp: probe_found_def)
    then show ?thesis
    proof cases
      case 1
      obtain b where b: "cb_set_last_access_time (ucast time) ?m (ta_lines ta ! unat idx') = Inr b"
        "keeps cfg (ta_lines ta ! unat idx') b" "same_states (ta_lines ta ! unat idx') b"
        using cb_set_last_access_time_facts [OF f(2) m f(3)] by blast
      have "way_hit (get_tag cfg addr) ?m b = Inr (Some HIT)"
        using f(6) b(2,3) 1 by (auto simp: way_hit_HIT same_states_def keeps_def match_tag_def)
      moreover have "ta_inv cfg s (?ta\<lparr>ta_lines := (ta_lines ta)[unat idx' := b]\<rparr>)"
        using ta_inv_keeps [OF inv', of "unat idx'" b] f(1) b(2) by simp
      ultimately show ?thesis
        using 1 found(3) f(1) b(1) pr
        by (auto simp: ta_access_mf_def update_line_def access_post_def Let_def)
    next
      case 2
      then have "cb_get_status ?m (ta_lines ta ! unat idx') = Inr RESERVED"
        using f(6) by (simp add: way_hit_HIT_RESERVED)
      moreover have "ta_inv cfg s (?ta\<lparr>ta_pending_hit := ta_pending_hit ta + 1\<rparr>)"
        using inv by (rule ta_inv_cong [THEN iffD2, rotated]) simp
      ultimately show ?thesis
        using 2 found(3) f(1,4) pr
        by (auto simp: ta_access_mf_def access_post_def pending_at_def Let_def)
    next
      case 3
      obtain x where x: "ta_lines ta ! unat idx' = Sector_Block x"
        using line_never_sector_miss [OF f(2)] f(6) 3 by blast
      then have ct: "m_cache_type cfg = SECTOR"
        using g nth_mem [OF f(1)] by (auto simp: geometry_def)
      obtain b where b: "cb_allocate_sector time ?m (ta_lines ta ! unat idx') = Inr b"
        "keeps cfg (ta_lines ta ! unat idx') b" "cb_get_status ?m b = Inr RESERVED"
        using cb_allocate_sector_facts [OF f(2) m f(3) x f(5)] by blast
      have "ta_inv cfg s (?ta\<lparr>ta_lines := (ta_lines ta)[unat idx' := b]\<rparr>)"
        using ta_inv_keeps [OF inv', of "unat idx'" b] f(1) b(2) by simp
      then have "ta_inv cfg s (?ta\<lparr>ta_sector_miss := ta_sector_miss ta + 1,
          ta_lines := (ta_lines ta)[unat idx' := b]\<rparr>)"
        by (rule ta_inv_cong [THEN iffD2, rotated]) simp
      then show ?thesis
        using 3 found(3) f(1,4) b ct pol pr
        by (auto simp: ta_access_mf_def update_line_def access_post_def pending_at_def keeps_def
            match_tag_def Let_def)
    qed
  next
    case (miss k idx')
    let ?ta2 = "?ta\<lparr>ta_miss := ta_miss ta + 1\<rparr>"
    have inv2: "ta_inv cfg s ?ta2"
      using inv by (simp add: ta_inv_cong [of ?ta2 ta])
    obtain wb' ev' b where "ta_replace cfg addr time idx' ?m wb ev ?ta2 =
        Inr (wb', ev', ?ta2\<lparr>ta_lines := (ta_lines ?ta2)[unat idx' := b]\<rparr>)"
      "ta_inv cfg s (?ta2\<lparr>ta_lines := (ta_lines ?ta2)[unat idx' := b]\<rparr>)"
      "pending_at cfg addr ?m (?ta2\<lparr>ta_lines := (ta_lines ?ta2)[unat idx' := b]\<rparr>) idx'"
      using ta_replace_eq [OF inv2 m addr miss(1,2), of idx' time wb ev] miss(4,5)
      by (auto simp: no_match_def)
    then show ?thesis
      using miss(3) pol pr by (auto simp: ta_access_mf_def access_post_def Let_def)
  next
    case (full k)
    have "ta_inv cfg s (?ta\<lparr>ta_res_fail := ta_res_fail ta + 1\<rparr>)"
      using inv by (rule ta_inv_cong [THEN iffD2, rotated]) simp
    then show ?thesis
      using full(5) pol pr by (auto simp: ta_access_mf_def access_post_def Let_def)
  qed
qed

text \<open>Filling a pending sector makes the next lookup hit.\<close>

lemma ta_fill_pending:
  assumes inv: "ta_inv cfg s ta" and m: "one_hot (mf_sector_mask mf)" and addr: "tag_addressed cfg addr"
    and pol: "m_alloc_policy cfg = ON_MISS" and p: "pending_at cfg addr (mf_sector_mask mf) ta idx"
    and d: "\<not> cb_dirty (mf_sector_mask mf) (ta_lines ta ! unat idx)"
  shows "\<exists>ta'. ta_fill_index cfg idx time mf ta = Inr ta' \<and> ta_inv cfg s ta' \<and>
    (\<forall>i. ta_probe cfg addr i (mf_sector_mask mf) ta' = Inr (HIT, idx))"
proof -
  let ?m = "mf_sector_mask mf" and ?b = "ta_lines ta ! unat idx"
  have g: "geometry cfg s ta"
    by (rule ta_invD(1) [OF inv])
  have l: "unat idx < length (ta_lines ta)" and t: "match_tag (get_tag cfg addr) ?b"
    and st: "cb_get_status ?m ?b = Inr RESERVED"
    using p by (auto simp: pending_at_def)
  note wf = geometryD(5,6) [OF g l]
  have ni: "\<not> cb_is_invalid_line ?b"
    using block.status_not_invalid [OF wf(1) m st] by simp
  obtain b where b: "cb_fill time ?m ?b = Inr b"
    using block.fill_law [OF wf(1) m] by blast
  note f = cb_fill_facts [OF b wf(1) m wf(2) ni]
  let ?ta = "ta\<lparr>ta_lines := (ta_lines ta)[unat idx := b]\<rparr>"
  have inv': "ta_inv cfg s ?ta"
    by (rule ta_inv_keeps [OF inv l f(1)])
  moreover have "way_hit (get_tag cfg addr) ?m b = Inr (Some HIT)"
    using f(1,2) t d by (simp add: way_hit_HIT keeps_def match_tag_def)
  then have "ta_probe cfg addr i ?m ?ta = Inr (HIT, of_nat (unat idx))" for i
    using probe_unique [OF inv' m addr, of "unat idx" HIT i] l t f(1)
    by (simp add: keeps_def match_tag_def)
  moreover have "ta_fill_index cfg idx time mf ta = Inr ?ta"
    using b l pol by (simp add: ta_fill_index_def update_line_def)
  ultimately show ?thesis
    by auto
qed

lemma pending_probe:
  assumes "ta_inv cfg s ta" "one_hot m" "tag_addressed cfg addr" "pending_at cfg addr m ta idx"
  shows "ta_probe cfg addr i m ta = Inr (HIT_RESERVED, idx)"
proof -
  have "way_hit (get_tag cfg addr) m (ta_lines ta ! unat idx) = Inr (Some HIT_RESERVED)"
    using assms(4) by (simp add: way_hit_HIT_RESERVED pending_at_def)
  then show ?thesis
    using probe_unique [OF assms(1-3), of "unat idx" HIT_RESERVED i] assms(4)
    by (simp add: pending_at_def)
qed

text \<open>A miss leaves a reserved block that is not marked to become dirty.\<close>

lemma access_miss_clean:
  assumes "ta_inv cfg s ta" "one_hot (mf_sector_mask mf)" "m_alloc_policy cfg = ON_MISS"
    and "ta_access_mf cfg (get_block_addr cfg addr) time idx mf wb ev ta = Inr (MISS, idx', wb', ev', ta')"
  shows "ta_inv cfg s ta'" "pending_at cfg (get_block_addr cfg addr) (mf_sector_mask mf) ta' idx'"
    "\<not> cb_dirty (mf_sector_mask mf) (ta_lines ta' ! unat idx')"
proof -
  let ?a = "get_block_addr cfg addr" and ?m = "mf_sector_mask mf"
  show "ta_inv cfg s ta'" and "pending_at cfg ?a ?m ta' idx'"
    using ta_access_spec [OF assms(1,2) tag_addressed_block assms(3), of addr time idx wb ev] assms(4)
    by (auto simp: access_post_def)
  have pr: "ta_probe cfg ?a idx ?m ta = Inr (MISS, idx')"
    using ta_access_spec [OF assms(1,2) tag_addressed_block assms(3), of addr time idx wb ev] assms(4)
    by auto
  let ?ta = "ta\<lparr>ta_is_used := True, ta_access := ta_access ta + 1, ta_miss := ta_miss ta + 1\<rparr>"
  have "ta_probe cfg ?a idx ?m (ta\<lparr>ta_is_used := True, ta_access := ta_access ta + 1\<rparr>) = Inr (MISS, idx')"
    using pr by (simp add: ta_probe_def)
  then have "ta_replace cfg ?a time idx' ?m wb ev ?ta = Inr (wb', ev', ta')"
    using assms(3,4) by (simp add: ta_access_mf_def Let_def res_simps split: prod.splits)
  then obtain b where b: "cb_allocate (get_tag cfg ?a) (get_block_addr cfg ?a) time ?m
      (ta_lines ta ! unat idx') = Inr b" "ta_lines ta' = (ta_lines ta)[unat idx' := b]"
    "unat idx' < length (ta_lines ta)"
    by (auto simp: ta_replace_def update_line_def Let_def res_simps split: if_splits prod.splits)
  then show "\<not> cb_dirty ?m (ta_lines ta' ! unat idx')"
    using cb_allocate_facts(9) [OF b(1) geometryD(5) [OF ta_invD(1) [OF assms(1)] b(3)] assms(2)]
    by simp
qed

lemma new_tag_array_inv:
  assumes "sets_ok cfg s" "0 < unat (m_assoc cfg)" "2 ^ s * unat (m_assoc cfg) < 2 ^ 32"
  shows "ta_inv cfg s (new_tag_array junk cfg c t)"
proof -
  let ?ta = "new_tag_array junk cfg c t"
  have n: "unat (get_num_lines cfg) = 2 ^ s * unat (m_assoc cfg)"
    using assms unat_pow2 [of s, where ?'a = 32]
    by (simp add: get_num_lines_def sets_ok_def unat_word_ariths)
  have inv: "cb_is_invalid_line b" if "b \<in> set (ta_lines ?ta)" for b
    using that by (auto simp: new_tag_array_def cb_is_invalid_line_def new_line_block_def
        new_sector_block_def sb_is_invalid_line_def)
  have "victim_time cfg b < - 1" if "b \<in> set (ta_lines ?ta)" for b
    using that ucast_time_less [of 0]
    by (cases "m_evict_policy cfg") (auto simp: new_tag_array_def block_times new_line_block_def
        new_sector_block_def)
  then have "geometry cfg s ?ta"
    using assms n by (auto simp: geometry_def new_tag_array_def cb_wf_def sb_wf_def
        new_line_block_def new_sector_block_def)
  then show ?thesis
    using inv nth_mem by (auto simp: ta_inv_def)
qed

section \<open>Invalidation\<close>

lemma get_sector_index_set_bit:
  assumes "j < 4"
  shows "get_sector_index (2 ^ j) = Inr j" "get_sector_index (set_bit j 0) = Inr j"
proof -
  have "j = 0 \<or> j = 1 \<or> j = 2 \<or> j = 3"
    using assms by arith
  then show "get_sector_index (2 ^ j) = Inr j"
    by (elim disjE) (simp_all add: get_sector_index_def upt_conv_Cons bit_simps bit_numeral_rec)
  then show "get_sector_index (set_bit j 0) = Inr j"
    by simp
qed

definition invalid_upto :: "nat \<Rightarrow> cache_block \<Rightarrow> bool" where
  "invalid_upto n b \<longleftrightarrow> (\<forall>j<n. cb_get_status (set_bit j 0) b = Inr INVALID)"

lemma invalid_upto_step:
  assumes "invalid_upto n b" "n < 4" "cb_wf b" "cb_set_status INVALID (set_bit n 0) b = Inr b'"
  shows "invalid_upto (Suc n) b'"
  using assms
  by (cases b) (auto simp: invalid_upto_def cb_set_status_def cb_update_def lb_set_status_def
      sb_set_status_def get_sector_index_set_bit cb_get_status_def lb_get_status_def sb_get_status_def
      nth_list_update cb_wf_def sb_wf_def less_Suc_eq)

lemma invalid_upto_4: "cb_wf b \<Longrightarrow> invalid_upto 4 b \<Longrightarrow> cb_is_invalid_line b"
proof (cases b)
  case (Line_Block l)
  moreover assume "invalid_upto 4 b"
  then have "cb_get_status (set_bit 0 0) b = Inr INVALID"
    unfolding invalid_upto_def by (meson zero_less_numeral)
  ultimately show ?thesis
    by (simp add: cb_get_status_def lb_get_status_def cb_is_invalid_line_def)
next
  case (Sector_Block x)
  moreover assume "cb_wf b" "invalid_upto 4 b"
  ultimately show ?thesis
    by (auto simp: invalid_upto_def cb_get_status_def sb_get_status_def get_sector_index_set_bit
        cb_is_invalid_line_def sb_is_invalid_line_def cb_wf_def sb_wf_def in_set_conv_nth)
qed

text \<open>The state between two writes of the inner loop, at block \<open>i\<close> and sector \<open>n\<close>.\<close>

definition clearing :: "cache_config \<Rightarrow> nat \<Rightarrow> nat \<Rightarrow> nat \<Rightarrow> nat \<Rightarrow> tag_array \<Rightarrow> bool" where
  "clearing cfg s len i n ta \<longleftrightarrow> ta_inv cfg s ta \<and> length (ta_lines ta) = len \<and>
     (\<forall>l<i. cb_is_invalid_line (ta_lines ta ! l)) \<and> invalid_upto n (ta_lines ta ! i)"

lemma clear_sector:
  assumes c: "clearing cfg s len i n ta" and i: "i < len" and n: "n < 4"
  shows "\<exists>ta'. update_line (cb_set_status INVALID (set_bit n 0)) (of_nat i) ta = Inr ta' \<and>
    clearing cfg s len i (Suc n) ta'"
proof -
  have inv: "ta_inv cfg s ta" and l: "i < length (ta_lines ta)"
    using c i by (auto simp: clearing_def)
  have g: "geometry cfg s ta"
    by (rule ta_invD(1) [OF inv])
  have ui: "unat (of_nat i :: u32) = i"
    using l geometryD(3,4) [OF g] by (simp add: unat_of_nat)
  have m: "one_hot (set_bit n 0)"
    using n by (simp add: one_hot_def get_sector_index_set_bit)
  obtain b where b: "cb_set_status INVALID (set_bit n 0) (ta_lines ta ! i) = Inr b"
    using block.set_status_law [OF geometryD(5) [OF g l] m] by blast
  have k: "keeps cfg (ta_lines ta ! i) b"
    by (rule cb_set_status_facts [OF b geometryD(5) [OF g l] m geometryD(6) [OF g l]]) simp
  have "invalid_upto (Suc n) b"
    using invalid_upto_step [OF _ n geometryD(5) [OF g l] b] c by (simp add: clearing_def)
  then have "clearing cfg s len i (Suc n) (ta\<lparr>ta_lines := (ta_lines ta)[i := b]\<rparr>)"
    using c l ta_inv_keeps [OF inv l k] by (auto simp: clearing_def nth_list_update)
  then show ?thesis
    using b l ui by (auto simp: update_line_def)
qed

lemma clear_line:
  assumes "clearing cfg s len i 0 ta" "i < len"
  shows "\<exists>ta'. res_foldl (\<lambda>ta j. update_line (cb_set_status INVALID (set_bit j 0)) (of_nat i) ta)
      ta [0..<SECTOR_CHUNCK_SIZE] = Inr ta' \<and> clearing cfg s len (Suc i) 0 ta'"
proof -
  have "\<exists>ta'. res_foldl (\<lambda>ta j. update_line (cb_set_status INVALID (set_bit j 0)) (of_nat i) ta)
      ta [0..<n] = Inr ta' \<and> clearing cfg s len i n ta'" if "n \<le> 4" for n
    using that
  proof (induction n)
    case (Suc n)
    then obtain ta1 where "res_foldl (\<lambda>ta j. update_line (cb_set_status INVALID (set_bit j 0)) (of_nat i) ta)
      ta [0..<n] = Inr ta1" "clearing cfg s len i n ta1"
      by auto
    then show ?case
      using clear_sector [of cfg s len i n ta1] assms(2) Suc.prems by (auto simp: res_foldl_append)
  qed (use assms in auto)
  from this [of 4] obtain ta' where
    r: "res_foldl (\<lambda>ta j. update_line (cb_set_status INVALID (set_bit j 0)) (of_nat i) ta)
      ta [0..<4] = Inr ta'" and c: "clearing cfg s len i 4 ta'"
    by auto
  have "cb_is_invalid_line (ta_lines ta' ! i)"
    using c assms(2) geometryD(5) [OF ta_invD(1), of cfg s ta' i]
    by (auto simp: clearing_def intro!: invalid_upto_4)
  then have "clearing cfg s len (Suc i) 0 ta'"
    using c by (auto simp: clearing_def invalid_upto_def less_Suc_eq)
  then show ?thesis
    using r by simp
qed

lemma ta_invalidate_clears:
  assumes inv: "ta_inv cfg s ta" and used: "ta_is_used ta"
  shows "\<exists>ta'. ta_invalidate cfg ta = Inr ta' \<and> ta_inv cfg s ta' \<and>
    (\<forall>b\<in>set (ta_lines ta'). cb_is_invalid_line b)"
proof -
  let ?step = "\<lambda>ta i. res_foldl (\<lambda>ta j. update_line (cb_set_status INVALID (set_bit j 0)) (of_nat i) ta)
      ta [0..<SECTOR_CHUNCK_SIZE]"
  let ?len = "length (ta_lines ta)"
  have g: "geometry cfg s ta"
    by (rule ta_invD(1) [OF inv])
  have nl: "unat (get_num_lines cfg) = ?len"
    using g unat_pow2 [of s, where ?'a = 32]
    by (simp add: geometry_def get_num_lines_def sets_ok_def unat_word_ariths)
  have "\<exists>ta'. res_foldl ?step ta [0..<n] = Inr ta' \<and> clearing cfg s ?len n 0 ta'" if "n \<le> ?len" for n
    using that
  proof (induction n)
    case 0
    then show ?case
      using inv by (simp add: clearing_def invalid_upto_def)
  next
    case (Suc n)
    then obtain ta1 where "res_foldl ?step ta [0..<n] = Inr ta1" "clearing cfg s ?len n 0 ta1"
      by auto
    then show ?case
      using clear_line [of cfg s ?len n ta1] Suc.prems
      by (auto simp: res_foldl_append simp del: size_consts)
  qed
  from this [of ?len] obtain ta' where "res_foldl ?step ta [0..<?len] = Inr ta'"
    "clearing cfg s ?len ?len 0 ta'"
    by auto
  then show ?thesis
    using used nl by (auto simp: ta_invalidate_def clearing_def in_set_conv_nth simp del: size_consts)
qed

lemma invalid_not_reserved: "cb_wf b \<Longrightarrow> cb_is_invalid_line b \<Longrightarrow> \<not> cb_is_reserved_line b"
  by (cases b) (auto simp: cb_is_invalid_line_def cb_is_reserved_line_def sb_is_invalid_line_def
      sb_is_reserved_line_def)

lemma fresh_probe_miss:
  assumes inv: "ta_inv cfg s ta" and m: "one_hot m"
    and fresh: "\<forall>b\<in>set (ta_lines ta). cb_is_invalid_line b \<and> \<not> cb_is_reserved_line b"
  shows "\<exists>idx'. ta_probe cfg addr idx m ta = Inr (MISS, idx')"
proof -
  have g: "geometry cfg s ta"
    by (rule ta_invD(1) [OF inv])
  from g m show ?thesis
  proof (cases rule: ta_probe_cases [of cfg s ta m addr idx])
    case (found k st idx')
    then show ?thesis
      using probe_found_facts(1,5) [OF g m found(2,4)] fresh by auto
  next
    case (full k)
    have "unat k * unat (m_assoc cfg) \<in> set_lines cfg (unat k)"
      using geometryD(2) [OF g] by (simp add: set_lines_def)
    then show ?thesis
      using full(4) set_lines_bound(1) [OF full(2)] geometryD(4) [OF g] fresh by fastforce
  qed auto
qed

section \<open>Properties\<close>

text \<open>
  C26. The lookup is sound and complete. On a well-formed array it always answers; a hit or a sector
  miss names a block of the right set with the right tag; a miss is reported only if no block of the set
  that is not invalid has the tag, and then its victim is not reserved, is invalid if any block that is free
  is, and else is the oldest by the eviction policy; a failed reservation means every way is reserved.
\<close>

theorem tag_lookup_sound:
  assumes "geometry cfg s ta" "one_hot m" "m_alloc_policy cfg = ON_MISS"
  shows "\<exists>k st idx'. get_set_index cfg addr = Inr k \<and> ta_probe cfg addr idx m ta = Inr (st, idx') \<and>
    (case st of
       HIT \<Rightarrow> probe_found cfg addr m ta (unat k) HIT idx'
     | HIT_RESERVED \<Rightarrow> probe_found cfg addr m ta (unat k) HIT_RESERVED idx'
     | SECTOR_MISS \<Rightarrow> probe_found cfg addr m ta (unat k) SECTOR_MISS idx'
     | MISS \<Rightarrow> no_match cfg addr ta (unat k) \<and>
         legal_victim cfg (ta_lines ta) (set_lines cfg (unat k)) (unat idx')
     | RESERVATION_FAIL \<Rightarrow> no_match cfg addr ta (unat k) \<and> idx' = idx \<and>
         (\<forall>i\<in>set_lines cfg (unat k). cb_is_reserved_line (ta_lines ta ! i))
     | MSHR_HIT \<Rightarrow> False)"
  using assms(1,2)
proof (cases rule: ta_probe_cases [of cfg s ta m addr idx])
  case (found k st idx')
  then show ?thesis
    by (auto simp: probe_found_def)
qed (use assms(3) in auto)

text \<open>A 32-set, 8-way line cache that allocates on a miss, for the examples.\<close>

definition example_line_config :: cache_config where
  "example_line_config = (projr (cache_config_init ''N:32:128:8,L:B:m:W:L,A:2:4,32:0,32'' example_addr_config))"

lemma example_line_config_simps [simp]:
  "m_nset example_line_config = 32" "m_assoc example_line_config = 8"
  "m_alloc_policy example_line_config = ON_MISS" "m_set_index_function example_line_config = LINEAR_SET_FUNCTION"
  "m_line_size example_line_config = 128" "m_cache_type example_line_config = NORMAL"
  "m_evict_policy example_line_config = LRU"
  by (simp_all add: example_line_config_def cache_config_init_def cache_format_def is_digit_def
      is_space_def scan_sign_def digit_value_def scanned_unsigned_def scanned_char_def Let_def
      AllocationPolicyMap_def SetIndexFunctionMap_def CacheTypeMap_def EvictPolicyMap_def)

lemma example_array_inv: "ta_inv example_line_config 5 (new_tag_array (\<lambda>_. (0, 0)) example_line_config 0 0)"
  by (rule new_tag_array_inv) (simp_all add: sets_ok_def)

theorem tag_lookup_sound_witness:
  "\<exists>k st idx'. get_set_index example_line_config 0x1000 = Inr k \<and>
     ta_probe example_line_config 0x1000 7 1 (new_tag_array (\<lambda>_. (0, 0)) example_line_config 0 0)
       = Inr (st, idx') \<and> st \<noteq> MSHR_HIT"
  using tag_lookup_sound [OF ta_invD(1) [OF example_array_inv], of 1 "0x1000" 7]
  by (auto simp: one_hot_def get_sector_index_def upt_conv_Cons bit_simps)

text \<open>
  C8. The tag array never holds a line twice: a new array satisfies the invariant (every block that is
  not invalid is in the set of its tag, tags of such blocks are distinct), and every access with a
  one-sector request keeps it, returns without error with the outcome of the lookup, and on a miss
  leaves the block reserved for the request.
\<close>

theorem tag_array_access_invariant:
  assumes "ta_inv cfg s ta" "one_hot (mf_sector_mask mf)" "m_alloc_policy cfg = ON_MISS"
  shows "\<exists>st idx' wb' ev' ta'.
    ta_access_mf cfg (get_block_addr cfg addr) time idx mf wb ev ta = Inr (st, idx', wb', ev', ta') \<and>
    ta_probe cfg (get_block_addr cfg addr) idx (mf_sector_mask mf) ta = Inr (st, idx') \<and>
    ta_inv cfg s ta' \<and> access_post cfg (get_block_addr cfg addr) (mf_sector_mask mf) ta st idx' ta'"
  using ta_access_spec [OF assms(1,2) tag_addressed_block assms(3)] by blast

theorem tag_array_access_invariant_witness:
  "\<exists>st idx' wb' ev' ta'.
     ta_access_mf example_line_config (get_block_addr example_line_config 0x1234) 3 7
       (blank_mem_fetch\<lparr>mf_sector_mask := 2\<rparr>) False no_evicted
       (new_tag_array (\<lambda>_. (0, 0)) example_line_config 0 0) = Inr (st, idx', wb', ev', ta') \<and>
     ta_inv example_line_config 5 ta'"
  using tag_array_access_invariant [OF example_array_inv,
      of "blank_mem_fetch\<lparr>mf_sector_mask := 2\<rparr>" "0x1234" 3 7 False no_evicted]
  by (auto simp: one_hot_def get_sector_index_def upt_conv_Cons bit_numeral_rec)

text \<open>
  The life of a missing line: an access that misses reserves a block, a second lookup of
  the same sector then finds that block reserved, and once the answer is filled in at the index the
  access returned, every later lookup of the sector hits at that index.
\<close>

theorem miss_fill_hit:
  assumes "ta_inv cfg s ta" "one_hot (mf_sector_mask mf)" "m_alloc_policy cfg = ON_MISS"
    and "ta_access_mf cfg (get_block_addr cfg addr) time idx mf wb ev ta = Inr (MISS, idx', wb', ev', ta')"
  shows "(\<forall>i. ta_probe cfg (get_block_addr cfg addr) i (mf_sector_mask mf) ta' = Inr (HIT_RESERVED, idx')) \<and>
    (\<exists>ta''. ta_fill_index cfg idx' time' mf ta' = Inr ta'' \<and> ta_inv cfg s ta'' \<and>
      (\<forall>i. ta_probe cfg (get_block_addr cfg addr) i (mf_sector_mask mf) ta'' = Inr (HIT, idx')))"
proof -
  note c = access_miss_clean [OF assms]
  show ?thesis
    using ta_fill_pending [OF c(1) assms(2) tag_addressed_block assms(3) c(2,3)]
      pending_probe [OF c(1) assms(2) tag_addressed_block c(2)] by auto
qed

theorem miss_fill_hit_witness:
  "\<exists>idx wb ev ta' ta''.
     ta_access_mf example_line_config (get_block_addr example_line_config 0x1234) 3 7
       (blank_mem_fetch\<lparr>mf_sector_mask := 2\<rparr>) False no_evicted
       (new_tag_array (\<lambda>_. (0, 0)) example_line_config 0 0) = Inr (MISS, idx, wb, ev, ta') \<and>
     ta_fill_index example_line_config idx 9 (blank_mem_fetch\<lparr>mf_sector_mask := 2\<rparr>) ta' = Inr ta'' \<and>
     ta_probe example_line_config (get_block_addr example_line_config 0x1234) 0 2 ta'' = Inr (HIT, idx)"
proof -
  let ?mf = "blank_mem_fetch\<lparr>mf_sector_mask := 2\<rparr>" and ?c = example_line_config
  let ?ta = "new_tag_array (\<lambda>_. (0, 0)) ?c 0 0" and ?a = "get_block_addr example_line_config 0x1234"
  have m: "one_hot (mf_sector_mask ?mf)"
    by (simp add: one_hot_def get_sector_index_def upt_conv_Cons bit_numeral_rec)
  have "\<forall>b\<in>set (ta_lines ?ta). cb_is_invalid_line b \<and> \<not> cb_is_reserved_line b"
    by (auto simp: new_tag_array_def cb_is_invalid_line_def cb_is_reserved_line_def new_line_block_def)
  then obtain i where "ta_probe ?c ?a 7 (mf_sector_mask ?mf) ?ta = Inr (MISS, i)"
    using fresh_probe_miss [OF example_array_inv m] by blast
  then obtain idx wb ev ta' where a: "ta_access_mf ?c ?a 3 7 ?mf False no_evicted ?ta = Inr (MISS, idx, wb, ev, ta')"
    using ta_access_spec [OF example_array_inv m tag_addressed_block, of "0x1234" 3 7 False no_evicted]
    by auto
  from miss_fill_hit [OF example_array_inv m _ a, of 9] show ?thesis
    using a by auto
qed

text \<open>
  The dirty mask handed to the write-back of an evicted sector line is not the set of its dirty
  sectors: it is the numeric value of the state of the sector the new request wants. Evicting a block whose
  third sector is modified for a request to the first sector reports the empty mask.
\<close>

theorem evicted_mask_is_state_code:
  assumes "unat idx < length (ta_lines ta)" "cb_is_modified_line (ta_lines ta ! unat idx)"
    and "ta_replace cfg addr time idx m wb ev ta = Inr (wb', ev', ta')"
  shows "\<exists>st. cb_get_status m (ta_lines ta ! unat idx) = Inr st \<and> ev_dirty_mask ev' = state_mask st"
  using assms by (auto simp: ta_replace_def res_simps Let_def)

theorem evicted_mask_is_state_code_witness:
  "let b = Sector_Block ((new_sector_block 0 0)\<lparr>sb_status := [INVALID, INVALID, MODIFIED, INVALID]\<rparr>);
       ta = \<lparr>ta_lines = [b], ta_core_id = 0, ta_type_id = 0, ta_access = 0, ta_miss = 0,
         ta_pending_hit = 0, ta_res_fail = 0, ta_sector_miss = 0, ta_is_used = True\<rparr>
   in \<exists>ev ta'. ta_replace example_line_config 0x80 5 0 1 False no_evicted ta = Inr (True, ev, ta') \<and>
        ev_dirty_mask ev = 0 \<and> cb_get_dirty_mask b = 4"
proof -
  let ?b = "Sector_Block ((new_sector_block 0 0)\<lparr>sb_status := [INVALID, INVALID, MODIFIED, INVALID]\<rparr>)"
  let ?ta = "\<lparr>ta_lines = [?b], ta_core_id = 0, ta_type_id = 0, ta_access = 0, ta_miss = 0,
         ta_pending_hit = 0, ta_res_fail = 0, ta_sector_miss = 0, ta_is_used = True\<rparr>"
  have s: "get_sector_index 1 = Inr 0"
    by (simp add: get_sector_index_def upt_conv_Cons bit_simps)
  have d: "cb_is_modified_line ?b" "cb_get_status 1 ?b = Inr INVALID" "cb_get_dirty_mask ?b = 4"
    by (simp_all add: cb_is_modified_line_def sb_is_modified_line_def cb_get_status_def sb_get_status_def
        s cb_get_dirty_mask_def sb_get_dirty_mask_def bits_word_def horner_sum_bit_eq_take_bit)
  then obtain ev ta' where r: "ta_replace example_line_config 0x80 5 0 1 False no_evicted ?ta = Inr (True, ev, ta')"
    by (auto simp: ta_replace_def update_line_def cb_allocate_def cb_update_def sb_allocate_def s
        Let_def)
  then show ?thesis
    using evicted_mask_is_state_code [OF _ _ r] d by (auto simp: Let_def state_mask_def)
qed

text \<open>
  Invalidation empties a cache that was used: it returns without error, keeps the invariant,
  leaves every block invalid, and after it no lookup hits: every one-sector probe misses.
\<close>

theorem invalidate_empties:
  assumes "ta_inv cfg s ta" "ta_is_used ta" "one_hot m"
  shows "\<exists>ta'. ta_invalidate cfg ta = Inr ta' \<and> ta_inv cfg s ta' \<and>
    (\<forall>b\<in>set (ta_lines ta'). cb_is_invalid_line b) \<and>
    (\<forall>addr idx. \<exists>idx'. ta_probe cfg addr idx m ta' = Inr (MISS, idx'))"
proof -
  obtain ta' where ta': "ta_invalidate cfg ta = Inr ta'" "ta_inv cfg s ta'"
    "\<forall>b\<in>set (ta_lines ta'). cb_is_invalid_line b"
    using ta_invalidate_clears [OF assms(1,2)] by blast
  moreover have "\<forall>b\<in>set (ta_lines ta'). \<not> cb_is_reserved_line b"
    using ta'(2,3) invalid_not_reserved by (auto simp: ta_inv_def geometry_def)
  ultimately show ?thesis
    using fresh_probe_miss [OF ta'(2) assms(3)] by auto
qed

theorem invalidate_empties_witness:
  "\<exists>ta'. ta_invalidate example_line_config
      ((new_tag_array (\<lambda>_. (0, 0)) example_line_config 0 0)\<lparr>ta_is_used := True\<rparr>) = Inr ta' \<and>
    ta_inv example_line_config 5 ta'"
proof -
  let ?ta = "(new_tag_array (\<lambda>_. (0, 0)) example_line_config 0 0)\<lparr>ta_is_used := True\<rparr>"
  have "ta_inv example_line_config 5 ?ta"
    by (rule ta_inv_cong [THEN iffD2, OF _ example_array_inv]) simp
  from invalidate_empties [OF this, of 1] show ?thesis
    by (auto simp: one_hot_def get_sector_index_def upt_conv_Cons bit_simps)
qed

end
