(* ===== verification/Alist_Sums.thy ===== *)
theory Alist_Sums
  imports NDP_Prelude "HOL-Library.AList" "HOL-Library.Multiset"
begin

text \<open>
  Association lists with distinct keys, the model of the maps of the simulator whose entries are
  collected: what an update, an insertion or a deletion does to a sum over the entries. The conservation
  lemmas of the MSHR table and of the register files rest on these.
\<close>

text \<open>Updating, inserting and deleting a key of an association list, seen as a sum over its entries.\<close>

lemma sum_list_update:
  fixes f :: "'v \<Rightarrow> 'b::comm_monoid_add"
  assumes "distinct (map fst xs)" "map_of xs k = Some e"
  shows "(\<Sum>(a, v)\<leftarrow>AList.update k e' xs. f v) + f e = (\<Sum>(a, v)\<leftarrow>xs. f v) + f e'"
  using assms
proof (induction xs)
  case (Cons x xs)
  show ?case
  proof (cases "fst x = k")
    case True
    then show ?thesis
      using Cons.prems by (cases x) (auto simp: ac_simps)
  next
    case False
    then show ?thesis
      using Cons by (cases x) (auto simp: ac_simps)
  qed
qed simp

lemma sum_list_insert:
  fixes f :: "'v \<Rightarrow> 'b::comm_monoid_add"
  assumes "map_of xs k = None"
  shows "(\<Sum>(a, v)\<leftarrow>AList.update k e' xs. f v) = (\<Sum>(a, v)\<leftarrow>xs. f v) + f e'"
    and "length (AList.update k e' xs) = length xs + 1"
  using assms by (induction xs) (auto simp: ac_simps split: if_splits)

lemma delete_absent: "k \<notin> fst ` set xs \<Longrightarrow> AList.delete k xs = xs"
  by (induction xs) auto

lemma sum_list_delete:
  fixes f :: "'v \<Rightarrow> 'b::comm_monoid_add"
  assumes "distinct (map fst xs)" "map_of xs k = Some e"
  shows "(\<Sum>(a, v)\<leftarrow>AList.delete k xs. f v) + f e = (\<Sum>(a, v)\<leftarrow>xs. f v)"
  using assms
proof (induction xs)
  case (Cons x xs)
  show ?case
  proof (cases "fst x = k")
    case True
    then have "AList.delete k xs = xs"
      using Cons.prems(1) by (intro delete_absent) simp
    then show ?thesis
      using True Cons.prems by (cases x) (auto simp: ac_simps)
  next
    case False
    then show ?thesis
      using Cons by (cases x) (auto simp: ac_simps)
  qed
qed simp

lemma length_update_present: "map_of xs k = Some e \<Longrightarrow> length (AList.update k e' xs) = length xs"
  by (induction xs) (auto split: if_splits)

end
