(* ===== verification/Mshr.thy ===== *)
theory Mshr
  imports Mem_Fetch Alist_Sums
begin

text \<open>
  \<^verbatim>\<open>MshrTable\<close> of \<^verbatim>\<open>src/cache.h\<close> and \<^verbatim>\<open>src/cache.cc\<close>: the outstanding misses of a cache. An entry
  collects the requests that wait for one block; when the block's data returns the block is queued for response
  and its requests are handed out in order of arrival, the entry disappearing with the last. The
  \<^verbatim>\<open>std::map\<close> is an association list with distinct keys. The table's contract with its cache, that no
  request is lost, invented or answered twice, is the locale \<open>request_pool\<close>.
\<close>

section \<open>Model\<close>

record mshr_entry =
  me_list :: "ptr list"
  me_has_atomic :: bool

record mshr_table =
  ms_num_entries :: u32
  ms_max_merged :: u32
  ms_table :: "(u64 \<times> mshr_entry) list"
  ms_current_response :: "u64 list"

definition new_mshr_table :: "u32 \<Rightarrow> u32 \<Rightarrow> mshr_table" where
  "new_mshr_table num_entries max_merged =
     \<lparr>ms_num_entries = num_entries, ms_max_merged = max_merged, ms_table = [],
      ms_current_response = []\<rparr>"

definition empty_entry :: mshr_entry where
  "empty_entry = \<lparr>me_list = [], me_has_atomic = False\<rparr>"

definition ms_probe :: "u64 \<Rightarrow> mshr_table \<Rightarrow> bool" where
  "ms_probe block_addr t = (map_of (ms_table t) block_addr \<noteq> None)"

definition ms_full :: "u64 \<Rightarrow> mshr_table \<Rightarrow> bool" where
  "ms_full block_addr t =
     (case map_of (ms_table t) block_addr of
        Some e \<Rightarrow> unat (ms_max_merged t) \<le> length (me_list e)
      | None \<Rightarrow> unat (ms_num_entries t) \<le> length (ms_table t))"

text \<open>\<^verbatim>\<open>m_table[block_addr]\<close>: the entry, a default one if there is none.\<close>

definition ms_entry :: "u64 \<Rightarrow> mshr_table \<Rightarrow> mshr_entry" where
  "ms_entry block_addr t = (case map_of (ms_table t) block_addr of Some e \<Rightarrow> e | None \<Rightarrow> empty_entry)"

definition ms_add :: "u64 \<Rightarrow> ptr \<Rightarrow> bool \<Rightarrow> mshr_table \<Rightarrow> mshr_table res" where
  "ms_add block_addr mf is_atomic t =
     res_bind (assert_that (\<not> ms_full block_addr t) ''!full(block_addr)'') (\<lambda>_.
     let e = ms_entry block_addr t;
         e' = e\<lparr>me_list := me_list e @ [mf],
                me_has_atomic := (if is_atomic then True else me_has_atomic e)\<rparr>
     in Inr (t\<lparr>ms_table := AList.update block_addr e' (ms_table t)\<rparr>))"

definition ms_mark_ready :: "u64 \<Rightarrow> mshr_table \<Rightarrow> (bool \<times> mshr_table) res" where
  "ms_mark_ready block_addr t =
     res_bind (assert_that (ms_probe block_addr t) ''probe(block_addr)'') (\<lambda>_.
       Inr (me_has_atomic (ms_entry block_addr t),
            t\<lparr>ms_current_response := ms_current_response t @ [block_addr]\<rparr>))"

definition ms_access_ready :: "mshr_table \<Rightarrow> bool" where
  "ms_access_ready t = (ms_current_response t \<noteq> [])"

definition ms_top_next_access :: "mshr_table \<Rightarrow> ptr res" where
  "ms_top_next_access t =
     res_bind (assert_that (ms_access_ready t) ''access_ready()'') (\<lambda>_.
     let block_addr = hd (ms_current_response t)
     in res_bind (assert_that (ms_probe block_addr t) ''probe(block_addr)'') (\<lambda>_.
        case me_list (ms_entry block_addr t) of [] \<Rightarrow> Inl Empty_Deque | mf # _ \<Rightarrow> Inr mf))"

definition ms_pop_next_access :: "mshr_table \<Rightarrow> (ptr \<times> mshr_table) res" where
  "ms_pop_next_access t =
     res_bind (assert_that (ms_access_ready t) ''access_ready()'') (\<lambda>_.
     let block_addr = hd (ms_current_response t)
     in res_bind (assert_that (ms_probe block_addr t) ''probe(block_addr)'') (\<lambda>_.
        let e = ms_entry block_addr t
        in case me_list e of
             [] \<Rightarrow> Inl Empty_Deque
           | mf # rest \<Rightarrow>
               if rest = [] then
                 Inr (mf, t\<lparr>ms_table := AList.delete block_addr (ms_table t),
                            ms_current_response := tl (ms_current_response t)\<rparr>)
               else Inr (mf, t\<lparr>ms_table := AList.update block_addr (e\<lparr>me_list := rest\<rparr>) (ms_table t)\<rparr>)))"

text \<open>The scan of \<^verbatim>\<open>is_read_after_write_pending\<close> over the writes and reads of an entry.\<close>

fun raw_scan :: "bool \<Rightarrow> bool list \<Rightarrow> bool" where
  "raw_scan write_found [] = False"
| "raw_scan write_found (w # ws) =
     (if w then raw_scan True ws else if write_found then True else raw_scan write_found ws)"

text \<open>The subscript creates an entry when there is none, so the query returns the table.\<close>

definition ms_is_read_after_write_pending ::
  "mf_store \<Rightarrow> u64 \<Rightarrow> mshr_table \<Rightarrow> (bool \<times> mshr_table) res" where
  "ms_is_read_after_write_pending h block_addr t =
     res_bind (res_foldl (\<lambda>ws p. res_bind (mf_get h p) (\<lambda>f. Inr (ws @ [is_write f]))) []
         (me_list (ms_entry block_addr t))) (\<lambda>ws.
       Inr (raw_scan False ws,
         if ms_probe block_addr t then t
         else t\<lparr>ms_table := AList.update block_addr empty_entry (ms_table t)\<rparr>))"

section \<open>The contract with the cache\<close>

datatype ('k, 'a) pool_op = Add 'k 'a | Ready 'k | Take

fun pool_run ::
  "('k \<Rightarrow> 'a \<Rightarrow> 's \<Rightarrow> 's res) \<Rightarrow> ('k \<Rightarrow> 's \<Rightarrow> 's res) \<Rightarrow> ('s \<Rightarrow> ('a \<times> 's) res) \<Rightarrow>
    ('k, 'a) pool_op list \<Rightarrow> 's \<Rightarrow> ('a list \<times> 's) res" where
  "pool_run add ready grab [] s = Inr ([], s)"
| "pool_run add ready grab (Add k x # ops) s = res_bind (add k x s) (pool_run add ready grab ops)"
| "pool_run add ready grab (Ready k # ops) s = res_bind (ready k s) (pool_run add ready grab ops)"
| "pool_run add ready grab (Take # ops) s =
     res_bind (grab s) (\<lambda>(x, s'). res_bind (pool_run add ready grab ops s') (\<lambda>(xs, t). Inr (x # xs, t)))"

fun added :: "('k, 'a) pool_op list \<Rightarrow> 'a multiset" where
  "added [] = {#}"
| "added (Add k x # ops) = add_mset x (added ops)"
| "added (_ # ops) = added ops"

locale request_pool =
  fixes requests :: "'s \<Rightarrow> 'a multiset"
    and invar :: "'s \<Rightarrow> bool"
    and add :: "'k \<Rightarrow> 'a \<Rightarrow> 's \<Rightarrow> 's res"
    and ready :: "'k \<Rightarrow> 's \<Rightarrow> 's res"
    and grab :: "'s \<Rightarrow> ('a \<times> 's) res"
  assumes add_law: "invar s \<Longrightarrow> add k x s = Inr s' \<Longrightarrow> invar s' \<and> requests s' = add_mset x (requests s)"
    and ready_law: "invar s \<Longrightarrow> ready k s = Inr s' \<Longrightarrow> invar s' \<and> requests s' = requests s"
    and grab_law: "invar s \<Longrightarrow> grab s = Inr (x, s') \<Longrightarrow> invar s' \<and> requests s = add_mset x (requests s')"
begin

text \<open>Over any run, what was there and what was added is what was taken and what is left.\<close>

lemma conservation:
  "invar s \<Longrightarrow> pool_run add ready grab ops s = Inr (xs, s') \<Longrightarrow>
    invar s' \<and> requests s + added ops = mset xs + requests s'"
proof (induction ops arbitrary: s xs)
  case (Cons op ops)
  show ?case
  proof (cases op)
    case (Add k x)
    then obtain t where "add k x s = Inr t" "pool_run add ready grab ops t = Inr (xs, s')"
      using Cons.prems(2) by (auto simp: res_simps)
    then show ?thesis
      using Cons.IH [of t xs] add_law [OF Cons.prems(1), of k x t] Add by auto
  next
    case (Ready k)
    then obtain t where "ready k s = Inr t" "pool_run add ready grab ops t = Inr (xs, s')"
      using Cons.prems(2) by (auto simp: res_simps)
    then show ?thesis
      using Cons.IH [of t xs] ready_law [OF Cons.prems(1), of k t] Ready by auto
  next
    case Take
    then obtain x t ys where t: "grab s = Inr (x, t)" "pool_run add ready grab ops t = Inr (ys, s')"
      "xs = x # ys"
      using Cons.prems(2) by (auto simp: res_simps split: prod.splits)
    then show ?thesis
      using Cons.IH [OF _ t(2)] grab_law [OF Cons.prems(1) t(1)] Take by auto
  qed
qed simp

end

section \<open>Invariant\<close>

declare map_of_eq_Some_iff [simp del]

definition ms_inv :: "mshr_table \<Rightarrow> bool" where
  "ms_inv t \<longleftrightarrow> distinct (map fst (ms_table t)) \<and> length (ms_table t) \<le> unat (ms_num_entries t) \<and>
     (\<forall>a e. map_of (ms_table t) a = Some e \<longrightarrow>
        me_list e \<noteq> [] \<and> length (me_list e) \<le> max 1 (unat (ms_max_merged t)))"

definition ms_requests :: "mshr_table \<Rightarrow> ptr multiset" where
  "ms_requests t = (\<Sum>(a, e)\<leftarrow>ms_table t. mset (me_list e))"

lemma ms_add_cases:
  assumes "ms_add a p at t = Inr t'"
  obtains (new) "map_of (ms_table t) a = None" "length (ms_table t) < unat (ms_num_entries t)"
      "t' = t\<lparr>ms_table := AList.update a \<lparr>me_list = [p], me_has_atomic = at\<rparr> (ms_table t)\<rparr>"
  | (merge) e where "map_of (ms_table t) a = Some e" "length (me_list e) < unat (ms_max_merged t)"
      "t' = t\<lparr>ms_table := AList.update a (e\<lparr>me_list := me_list e @ [p],
         me_has_atomic := at \<or> me_has_atomic e\<rparr>) (ms_table t)\<rparr>"
proof (cases "map_of (ms_table t) a")
  case None
  then show ?thesis
    using assms new by (auto simp: ms_add_def ms_full_def ms_entry_def empty_entry_def res_simps Let_def
        split: if_splits)
next
  case (Some e)
  have "(if at then True else me_has_atomic e) = (at \<or> me_has_atomic e)"
    by simp
  then show ?thesis
    using assms merge Some by (auto simp: ms_add_def ms_full_def ms_entry_def res_simps Let_def)
qed

lemma ms_add_inv:
  assumes "ms_inv t" "ms_add a p at t = Inr t'"
  shows "ms_inv t'" "ms_requests t' = add_mset p (ms_requests t)"
proof -
  have "ms_inv t' \<and> ms_requests t' = add_mset p (ms_requests t)"
    using assms(2)
  proof (cases rule: ms_add_cases)
    case new
    then show ?thesis
      using assms(1) sum_list_insert(1) [OF new(1), where f = "\<lambda>e. mset (me_list e)"]
        sum_list_insert(2) [OF new(1)] by (auto simp: ms_inv_def ms_requests_def
          AList.distinct_update AList.update_conv' split: if_splits)
  next
    case (merge e)
    have "ms_requests t' + mset (me_list e) = ms_requests t + mset (me_list e @ [p])"
      using sum_list_update [where xs = "ms_table t" and k = a and e = e and f = "\<lambda>e. mset (me_list e)"]
        assms(1) merge
      by (simp add: ms_inv_def ms_requests_def)
    then show ?thesis
      using assms(1) merge by (auto simp: ms_inv_def AList.distinct_update AList.update_conv'
          length_update_present split: if_splits)
  qed
  then show "ms_inv t'" "ms_requests t' = add_mset p (ms_requests t)"
    by auto
qed

lemma ms_pop_cases:
  assumes "ms_pop_next_access t = Inr (p, t')"
  obtains (last) a rs e where "ms_current_response t = a # rs" "map_of (ms_table t) a = Some e"
      "me_list e = [p]"
      "t' = t\<lparr>ms_table := AList.delete a (ms_table t), ms_current_response := rs\<rparr>"
  | (more) a rs e ps where "ms_current_response t = a # rs" "map_of (ms_table t) a = Some e"
      "me_list e = p # ps" "ps \<noteq> []"
      "t' = t\<lparr>ms_table := AList.update a (e\<lparr>me_list := ps\<rparr>) (ms_table t)\<rparr>"
proof -
  obtain a rs where a: "ms_current_response t = a # rs"
    using assms by (cases "ms_current_response t") (auto simp: ms_pop_next_access_def ms_access_ready_def)
  obtain e where e: "map_of (ms_table t) a = Some e"
    using assms a by (auto simp: ms_pop_next_access_def ms_access_ready_def ms_probe_def res_simps Let_def)
  show thesis
  proof (cases "me_list e")
    case (Cons q ps)
    then show thesis
      using assms a e last more
      by (cases "ps = []") (auto simp: ms_pop_next_access_def ms_access_ready_def ms_probe_def ms_entry_def)
  qed (use assms a e in \<open>auto simp: ms_pop_next_access_def ms_access_ready_def ms_probe_def ms_entry_def\<close>)
qed

lemma ms_pop_inv:
  assumes "ms_inv t" "ms_pop_next_access t = Inr (p, t')"
  shows "ms_inv t'" "ms_requests t = add_mset p (ms_requests t')"
proof -
  have "ms_inv t' \<and> ms_requests t = add_mset p (ms_requests t')"
    using assms(2)
  proof (cases rule: ms_pop_cases)
    case (last a rs e)
    then show ?thesis
      using assms(1) sum_list_delete [where xs = "ms_table t" and k = a and e = e and f = "\<lambda>e. mset (me_list e)"]
        AList.length_delete_le [of a "ms_table t"]
      by (auto simp: ms_inv_def ms_requests_def AList.distinct_delete AList.delete_conv' split: if_splits)
  next
    case (more a rs e ps)
    then have "ms_requests t' + mset (me_list e) = ms_requests t + mset ps"
      using assms(1) sum_list_update [where xs = "ms_table t" and k = a and e = e and f = "\<lambda>e. mset (me_list e)"]
      by (simp add: ms_inv_def ms_requests_def)
    moreover have "length ps \<le> max 1 (unat (ms_max_merged t))"
      using assms(1) more(2,3) by (fastforce simp: ms_inv_def)
    ultimately show ?thesis
      using assms(1) more by (auto simp: ms_inv_def AList.distinct_update AList.update_conv'
          length_update_present split: if_splits)
  qed
  then show "ms_inv t'" "ms_requests t = add_mset p (ms_requests t')"
    by auto
qed

lemma ms_mark_ready_eq:
  "ms_mark_ready a t = Inr (at, t') \<longleftrightarrow> (\<exists>e. map_of (ms_table t) a = Some e \<and> at = me_has_atomic e \<and>
     t' = t\<lparr>ms_current_response := ms_current_response t @ [a]\<rparr>)"
  by (auto simp: ms_mark_ready_def res_simps ms_probe_def ms_entry_def)

lemma ms_mark_ready_inv:
  "ms_inv t \<Longrightarrow> ms_mark_ready a t = Inr (at, t') \<Longrightarrow> ms_inv t' \<and> ms_requests t' = ms_requests t"
  by (auto simp: ms_mark_ready_eq ms_inv_def ms_requests_def)

interpretation mshr: request_pool
  ms_requests ms_inv "\<lambda>(a, at) p. ms_add a p at" "\<lambda>(a, _ :: bool) t. res_bind (ms_mark_ready a t) (\<lambda>(_, t'). Inr t')"
  ms_pop_next_access
proof
  fix t t' and k :: "u64 \<times> bool" and p
  assume t: "ms_inv t"
  show "(case k of (a, at) \<Rightarrow> \<lambda>p. ms_add a p at) p t = Inr t' \<Longrightarrow>
      ms_inv t' \<and> ms_requests t' = add_mset p (ms_requests t)"
    using ms_add_inv [OF t, of "fst k" p "snd k" t'] by (simp add: case_prod_unfold)
  show "(case k of (a, _) \<Rightarrow> \<lambda>t. res_bind (ms_mark_ready a t) (\<lambda>(_, t'). Inr t')) t = Inr t' \<Longrightarrow>
      ms_inv t' \<and> ms_requests t' = ms_requests t"
    using ms_mark_ready_inv [OF t, of "fst k"] by (auto simp: case_prod_unfold res_simps)
  show "ms_pop_next_access t = Inr (p, t') \<Longrightarrow> ms_inv t' \<and> ms_requests t = add_mset p (ms_requests t')"
    using ms_pop_inv [OF t, of p t'] by simp
qed

section \<open>Draining a block\<close>

fun ms_pops :: "nat \<Rightarrow> mshr_table \<Rightarrow> (ptr list \<times> mshr_table) res" where
  "ms_pops 0 t = Inr ([], t)"
| "ms_pops (Suc n) t =
     res_bind (ms_pop_next_access t) (\<lambda>(p, t'). res_bind (ms_pops n t') (\<lambda>(ps, t''). Inr (p # ps, t'')))"

lemma ms_pops_drain:
  assumes "ms_current_response t = a # rs" "map_of (ms_table t) a = Some e" "me_list e \<noteq> []"
    "distinct (map fst (ms_table t))"
  shows "\<exists>t'. ms_pops (length (me_list e)) t = Inr (me_list e, t') \<and> ms_current_response t' = rs \<and>
    map_of (ms_table t') = (map_of (ms_table t))(a := None)"
  using assms
proof (induction "me_list e" arbitrary: t e)
  case (Cons p ps)
  have pl: "me_list e = p # ps"
    using Cons.hyps(2) by simp
  show ?case
  proof (cases "ps = []")
    case True
    then show ?thesis
      using Cons.prems pl
      by (simp add: ms_pop_next_access_def ms_access_ready_def ms_probe_def ms_entry_def
          AList.delete_conv')
  next
    case False
    let ?t = "t\<lparr>ms_table := AList.update a (e\<lparr>me_list := ps\<rparr>) (ms_table t)\<rparr>"
    have "ms_pop_next_access t = Inr (p, ?t)"
      using Cons.prems pl False
      by (simp add: ms_pop_next_access_def ms_access_ready_def ms_probe_def ms_entry_def)
    moreover obtain t' where "ms_pops (length ps) ?t = Inr (ps, t')" "ms_current_response t' = rs"
      "map_of (ms_table t') = (map_of (ms_table ?t))(a := None)"
      using Cons.hyps(1) [of "e\<lparr>me_list := ps\<rparr>" ?t] Cons.prems False
      by (auto simp: AList.update_conv' AList.distinct_update)
    ultimately show ?thesis
      using pl by (simp add: AList.update_conv')
  qed
qed simp

section \<open>Properties\<close>

text \<open>
  C4. No request is lost, invented or answered twice: over every sequence of additions, block
  arrivals and responses on a new table, the requests added are, as a multiset, those responded plus those
  still waiting, and the table stays within its limits.
\<close>

theorem mshr_conserves_requests:
  assumes "pool_run (\<lambda>(a, at) p. ms_add a p at)
      (\<lambda>(a, _ :: bool) t. res_bind (ms_mark_ready a t) (\<lambda>(_, t'). Inr t')) ms_pop_next_access
      ops (new_mshr_table n mx) = Inr (ps, t)"
  shows "added ops = mset ps + ms_requests t \<and> ms_inv t"
proof -
  have "ms_inv (new_mshr_table n mx)" "ms_requests (new_mshr_table n mx) = {#}"
    by (simp_all add: ms_inv_def ms_requests_def new_mshr_table_def)
  then show ?thesis
    using mshr.conservation [OF _ assms] by simp
qed

theorem mshr_conserves_requests_witness:
  "\<exists>t. pool_run (\<lambda>(a, at) p. ms_add a p at)
      (\<lambda>(a, _ :: bool) t. res_bind (ms_mark_ready a t) (\<lambda>(_, t'). Inr t')) ms_pop_next_access
      [Add (0x80, False) 1, Add (0x100, False) 2, Add (0x80, False) 3, Ready (0x80, False), Take]
      (new_mshr_table 2 2) = Inr ([1], t) \<and> ms_requests t = {#2, 3#}"
proof -
  let ?ops = "[Add (0x80, False) 1, Add (0x100, False) 2, Add (0x80, False) 3, Ready (0x80, False), Take]"
  obtain t where t: "pool_run (\<lambda>(a, at) p. ms_add a p at)
      (\<lambda>(a, _ :: bool) t. res_bind (ms_mark_ready a t) (\<lambda>(_, t'). Inr t')) ms_pop_next_access
      ?ops (new_mshr_table 2 2) = Inr ([1], t)"
    by (simp add: ms_add_def ms_full_def ms_entry_def empty_entry_def new_mshr_table_def
        ms_mark_ready_def ms_probe_def ms_pop_next_access_def ms_access_ready_def)
  then show ?thesis
    using mshr_conserves_requests [OF t] by auto
qed

text \<open>
  Admission: a request is accepted exactly when the table is not full for its block; it is then
  appended behind the requests already waiting for that block, no other block's entry changes, and the number of
  entries and the merges per entry stay within their limits.
\<close>

theorem mshr_admission:
  assumes "ms_inv t"
  shows "(if ms_full a t then \<not> ok (ms_add a p at t)
    else \<exists>t'. ms_add a p at t = Inr t' \<and> ms_inv t' \<and>
      me_list (ms_entry a t') = me_list (ms_entry a t) @ [p] \<and>
      (\<forall>b. b \<noteq> a \<longrightarrow> map_of (ms_table t') b = map_of (ms_table t) b) \<and>
      ms_current_response t' = ms_current_response t)"
proof (cases "ms_full a t")
  case False
  then obtain t' where t': "ms_add a p at t = Inr t'"
    by (simp add: ms_add_def Let_def)
  moreover have "ms_inv t'"
    by (rule ms_add_inv [OF assms t'])
  ultimately show ?thesis
    using False by (auto simp: ms_add_def ms_entry_def Let_def AList.update_conv')
qed (simp add: ms_add_def)

theorem mshr_admission_witness: "\<not> ok (ms_add 0x80 7 False (new_mshr_table 0 4))"
  using mshr_admission [of "new_mshr_table 0 4" "0x80" 7 False]
  by (simp add: ms_inv_def new_mshr_table_def ms_full_def)

text \<open>
  C31. Responses come in order: when the data of a block has arrived and it is the only block that
  is ready, the table hands out exactly the requests waiting for it, in the order they were added,
  then forgets the block and nothing else.
\<close>

theorem mshr_drains_in_order:
  assumes "ms_inv t" "ms_current_response t = []" "ms_probe a t"
  shows "\<exists>at t1 t2. ms_mark_ready a t = Inr (at, t1) \<and>
    ms_pops (length (me_list (ms_entry a t))) t1 = Inr (me_list (ms_entry a t), t2) \<and>
    \<not> ms_access_ready t2 \<and> map_of (ms_table t2) = (map_of (ms_table t))(a := None)"
proof -
  obtain e where e: "map_of (ms_table t) a = Some e"
    using assms(3) by (auto simp: ms_probe_def)
  then have ne: "me_list e \<noteq> []" "distinct (map fst (ms_table t))"
    using assms(1) by (auto simp: ms_inv_def)
  let ?t = "t\<lparr>ms_current_response := [a]\<rparr>"
  have "ms_mark_ready a t = Inr (me_has_atomic e, ?t)"
    using e assms(2) by (simp add: ms_mark_ready_eq)
  then show ?thesis
    using ms_pops_drain [of ?t a "[]" e] e ne by (auto simp: ms_entry_def ms_access_ready_def)
qed

theorem mshr_drains_in_order_witness:
  "\<exists>t2. res_bind (ms_add 0x80 5 False (new_mshr_table 4 4)) (\<lambda>t. res_bind (ms_add 0x80 9 False t)
     (\<lambda>t. res_bind (ms_mark_ready 0x80 t) (\<lambda>(_, t). ms_pops (Suc (Suc 0)) t))) = Inr ([5, 9], t2)"
proof -
  let ?t = "\<lparr>ms_num_entries = 4, ms_max_merged = 4,
    ms_table = [(0x80, \<lparr>me_list = [5, 9], me_has_atomic = False\<rparr>)], ms_current_response = []\<rparr>"
  have t: "res_bind (ms_add 0x80 5 False (new_mshr_table 4 4)) (ms_add 0x80 9 False) = Inr ?t"
    by (simp add: ms_add_def ms_full_def ms_entry_def empty_entry_def new_mshr_table_def)
  have "ms_inv ?t" "ms_probe 0x80 ?t" "me_list (ms_entry 0x80 ?t) = [5, 9]"
    by (simp_all add: ms_inv_def ms_probe_def ms_entry_def)
  then obtain at t1 t2 where "ms_mark_ready 0x80 ?t = Inr (at, t1)" "ms_pops (Suc (Suc 0)) t1 = Inr ([5, 9], t2)"
    using mshr_drains_in_order [of ?t "0x80"] by (auto simp del: ms_pops.simps)
  then show ?thesis
    using t by (auto simp: res_simps simp del: ms_pops.simps)
qed

end
