(* ===== verification/Cache_Stats.thy ===== *)
theory Cache_Stats
  imports Mem_Fetch
begin

text \<open>
  \<^verbatim>\<open>src/cache_stats.h\<close> and \<^verbatim>\<open>src/cache_stats.cc\<close>: the counters of a cache, one per access type and
  outcome, with their sums. The two-dimensional vectors are functions of the enumerators; an enumerator is always
  a valid index, so the range checks of the code hold. Counters have 64 bits and wrap.
\<close>

section \<open>Model\<close>

record cache_stats =
  st_stats :: "mem_access_type \<Rightarrow> CacheRequestStatus \<Rightarrow> u64"
  st_fail_stats :: "mem_access_type \<Rightarrow> CacheReservationFailReason \<Rightarrow> u64"
  st_port_available_cycles :: u64
  st_data_port_busy_cycles :: u64
  st_fill_port_busy_cycles :: u64
  st_prev_hit :: u64
  st_prev_miss :: u64

definition new_cache_stats :: cache_stats where
  "new_cache_stats = \<lparr>st_stats = (\<lambda>_ _. 0), st_fail_stats = (\<lambda>_ _. 0), st_port_available_cycles = 0,
     st_data_port_busy_cycles = 0, st_fill_port_busy_cycles = 0, st_prev_hit = 0, st_prev_miss = 0\<rparr>"

definition stats_clear :: "cache_stats \<Rightarrow> cache_stats" where
  "stats_clear s = s\<lparr>st_stats := (\<lambda>_ _. 0), st_fail_stats := (\<lambda>_ _. 0), st_port_available_cycles := 0,
     st_data_port_busy_cycles := 0, st_fill_port_busy_cycles := 0\<rparr>"

definition inc_stats :: "mem_access_type \<Rightarrow> CacheRequestStatus \<Rightarrow> cache_stats \<Rightarrow> cache_stats" where
  "inc_stats ty oc s =
     s\<lparr>st_stats := (st_stats s)(ty := (st_stats s ty)(oc := st_stats s ty oc + 1))\<rparr>"

definition inc_fail_stats :: "mem_access_type \<Rightarrow> CacheReservationFailReason \<Rightarrow> cache_stats \<Rightarrow> cache_stats" where
  "inc_fail_stats ty oc s =
     s\<lparr>st_fail_stats := (st_fail_stats s)(ty := (st_fail_stats s ty)(oc := st_fail_stats s ty oc + 1))\<rparr>"

definition select_stats_status :: "CacheRequestStatus \<Rightarrow> CacheRequestStatus \<Rightarrow> CacheRequestStatus" where
  "select_stats_status probe access =
     (if probe = HIT_RESERVED \<and> access \<noteq> RESERVATION_FAIL then probe
      else if probe = SECTOR_MISS \<and> access = MISS then probe
      else access)"

text \<open>\<^verbatim>\<open>operator+\<close>: a fresh object, so the interval counters of the sum are 0.\<close>

definition stats_plus :: "cache_stats \<Rightarrow> cache_stats \<Rightarrow> cache_stats" where
  "stats_plus s t = new_cache_stats\<lparr>
     st_stats := (\<lambda>i j. st_stats s i j + st_stats t i j),
     st_fail_stats := (\<lambda>i j. st_fail_stats s i j + st_fail_stats t i j),
     st_port_available_cycles := st_port_available_cycles s + st_port_available_cycles t,
     st_data_port_busy_cycles := st_data_port_busy_cycles s + st_data_port_busy_cycles t,
     st_fill_port_busy_cycles := st_fill_port_busy_cycles s + st_fill_port_busy_cycles t\<rparr>"

text \<open>\<^verbatim>\<open>operator+=\<close> keeps the interval counters of the left operand.\<close>

definition stats_add :: "cache_stats \<Rightarrow> cache_stats \<Rightarrow> cache_stats" where
  "stats_add s t = s\<lparr>
     st_stats := (\<lambda>i j. st_stats s i j + st_stats t i j),
     st_fail_stats := (\<lambda>i j. st_fail_stats s i j + st_fail_stats t i j),
     st_port_available_cycles := st_port_available_cycles s + st_port_available_cycles t,
     st_data_port_busy_cycles := st_data_port_busy_cycles s + st_data_port_busy_cycles t,
     st_fill_port_busy_cycles := st_fill_port_busy_cycles s + st_fill_port_busy_cycles t\<rparr>"

text \<open>The double loops over types and outcomes.\<close>

definition sum_stats :: "mem_access_type list \<Rightarrow> CacheRequestStatus list \<Rightarrow> cache_stats \<Rightarrow> u64" where
  "sum_stats tys ocs s = (\<Sum>ty\<leftarrow>tys. \<Sum>oc\<leftarrow>ocs. st_stats s ty oc)"

definition read_types :: "mem_access_type list" where
  "read_types = [GLOBAL_ACC_R, INST_ACC_R, HOST_ACC_R, TLB_ACC_R]"

definition write_types :: "mem_access_type list" where
  "write_types = [GLOBAL_ACC_W, L1_CACHE_WA, L1_CACHE_WB, L2_CACHE_WA, L2_CACHE_WB, DMA_ALLOC_W, HOST_ACC_W]"

definition get_hit :: "cache_stats \<Rightarrow> u64" where
  "get_hit s = sum_stats enum_class.enum (filter (\<lambda>j. j = HIT) enum_class.enum) s"

definition get_miss :: "cache_stats \<Rightarrow> u64" where
  "get_miss s = sum_stats enum_class.enum (filter (\<lambda>j. j = MISS \<or> j = SECTOR_MISS) enum_class.enum) s"

definition get_accesses :: "cache_stats \<Rightarrow> u64" where
  "get_accesses s = sum_stats enum_class.enum
     (filter (\<lambda>j. j = HIT \<or> j = MISS \<or> j = SECTOR_MISS \<or> j = HIT_RESERVED) enum_class.enum) s"

definition get_read_hit :: "cache_stats \<Rightarrow> u64" where
  "get_read_hit s = sum_stats read_types [HIT, HIT_RESERVED] s"

definition get_write_hit :: "cache_stats \<Rightarrow> u64" where
  "get_write_hit s = sum_stats write_types [HIT, HIT_RESERVED] s"

definition get_read_miss :: "cache_stats \<Rightarrow> u64" where
  "get_read_miss s = sum_stats read_types [MISS, SECTOR_MISS] s"

definition get_write_miss :: "cache_stats \<Rightarrow> u64" where
  "get_write_miss s = sum_stats write_types [MISS, SECTOR_MISS] s"

definition get_interval_hit :: "cache_stats \<Rightarrow> u64 \<times> cache_stats" where
  "get_interval_hit s = (get_hit s - st_prev_hit s, s\<lparr>st_prev_hit := get_hit s\<rparr>)"

definition get_interval_miss :: "cache_stats \<Rightarrow> u64 \<times> cache_stats" where
  "get_interval_miss s = (get_miss s - st_prev_miss s, s\<lparr>st_prev_miss := get_miss s\<rparr>)"

section \<open>Lemmas\<close>

lemmas stats_sums = sum_stats_def enum_mem_access_type_def enum_CacheRequestStatus_def read_types_def
  write_types_def get_hit_def get_miss_def get_accesses_def get_read_hit_def get_write_hit_def
  get_read_miss_def get_write_miss_def

lemma sum_stats_inc:
  assumes "distinct tys" "distinct ocs"
  shows "sum_stats tys ocs (inc_stats ty oc s) =
    sum_stats tys ocs s + bool_int (ty \<in> set tys \<and> oc \<in> set ocs)"
proof -
  have inner: "(\<Sum>j\<leftarrow>ocs. st_stats (inc_stats ty oc s) i j) =
      (\<Sum>j\<leftarrow>ocs. st_stats s i j) + bool_int (i = ty \<and> oc \<in> set ocs)" for i
    using assms(2) by (induction ocs) (auto simp: inc_stats_def bool_int_def)
  show ?thesis
    using assms(1) unfolding sum_stats_def
    by (induction tys) (auto simp: inner bool_int_def)
qed

lemma read_write_types: "distinct (read_types @ write_types)" "set (read_types @ write_types) = UNIV"
proof -
  show "distinct (read_types @ write_types)"
    by (simp add: read_types_def write_types_def)
  have "ty \<in> set (read_types @ write_types)" for ty
    by (cases ty) (simp_all add: read_types_def write_types_def)
  then show "set (read_types @ write_types) = UNIV"
    by blast
qed

section \<open>Properties\<close>

text \<open>
  The reported totals are consistent: reads and writes together account for every hit,
  pending hit, miss and sector miss exactly once, so the four read/write counters add up to
  the number of accesses, and recording one access outcome raises exactly the total it belongs to.
\<close>

theorem stats_read_write_split:
  "get_read_hit s + get_write_hit s + get_read_miss s + get_write_miss s = get_accesses s \<and>
   get_read_miss s + get_write_miss s = get_miss s \<and>
   get_hit (inc_stats ty oc s) = get_hit s + bool_int (oc = HIT) \<and>
   get_miss (inc_stats ty oc s) = get_miss s + bool_int (oc = MISS \<or> oc = SECTOR_MISS) \<and>
   get_accesses (inc_stats ty oc s) =
     get_accesses s + bool_int (oc \<noteq> RESERVATION_FAIL \<and> oc \<noteq> MSHR_HIT)"
proof -
  have ty: "ty \<in> set enum_class.enum" and d: "distinct (enum_class.enum :: mem_access_type list)"
    by (simp_all add: enum_UNIV enum_distinct)
  have "get_hit (inc_stats ty oc s) = get_hit s + bool_int (oc = HIT)"
    "get_miss (inc_stats ty oc s) = get_miss s + bool_int (oc = MISS \<or> oc = SECTOR_MISS)"
    "get_accesses (inc_stats ty oc s) = get_accesses s + bool_int (oc \<noteq> RESERVATION_FAIL \<and> oc \<noteq> MSHR_HIT)"
    unfolding get_hit_def get_miss_def get_accesses_def
    by (subst sum_stats_inc; cases oc; simp add: d ty enum_CacheRequestStatus_def)+
  moreover have "get_read_hit s + get_write_hit s + get_read_miss s + get_write_miss s = get_accesses s"
    "get_read_miss s + get_write_miss s = get_miss s"
    by (simp_all add: stats_sums)
  ultimately show ?thesis
    by simp
qed

text \<open>
  Aggregation is additive: the totals of a sum of two statistics, by either operator, are the
  sums of the totals.
\<close>

theorem stats_plus_additive:
  "get_hit (stats_plus s t) = get_hit s + get_hit t \<and> get_miss (stats_plus s t) = get_miss s + get_miss t \<and>
   get_accesses (stats_plus s t) = get_accesses s + get_accesses t \<and>
   st_stats (stats_add s t) = st_stats (stats_plus s t) \<and>
   st_fail_stats (stats_add s t) = st_fail_stats (stats_plus s t) \<and>
   st_prev_hit (stats_add s t) = st_prev_hit s \<and> st_prev_hit (stats_plus s t) = 0"
  by (simp add: stats_sums stats_plus_def stats_add_def new_cache_stats_def)

end
