(* ===== verification/Cache_Core.thy ===== *)
theory Cache_Core
  imports Tag_Array Mshr Cache_Stats Fifo_Pipeline
begin

text \<open>
  The caches of \<^verbatim>\<open>src/cache.h\<close> and \<^verbatim>\<open>src/cache.cc\<close>: the base class with its miss queue, MSHR table and
  bookkeeping of outstanding requests, the read-only cache and the data cache with its write policies. A cache
  works on requests that other components hold too, so every operation threads the store of requests; the
  event list a caller passes by reference is threaded with it. The queue to the next level is an argument of
  \<^verbatim>\<open>cycle\<close>. The member function pointers that \<^verbatim>\<open>DataCache::init\<close> sets from the configuration are a
  dispatch on the configuration. Port occupancy is a 32-bit signed counter.
\<close>

section \<open>State\<close>

record cache_event =
  ce_type :: CacheEventType
  ce_evicted :: evicted_block

record extra_mf_fields =
  ex_valid :: bool
  ex_block_addr :: u64
  ex_addr :: u64
  ex_cache_index :: u32
  ex_data_size :: u32
  ex_pending_read :: u32

record cache =
  ca_id :: u32
  ca_name :: string
  ca_tags :: tag_array
  ca_mshrs :: mshr_table
  ca_miss_queue :: "ptr list"
  ca_stats :: cache_stats
  ca_extra :: "ptr \<Rightarrow> extra_mf_fields option"
  ca_data_port_occupied :: u32
  ca_fill_port_occupied :: u32
  ca_write_alloc_type :: mem_access_type
  ca_write_back_type :: mem_access_type

text \<open>What an access works on: the cache, the requests and the caller's event list.\<close>

record cache_ctx =
  cx_cache :: cache
  cx_store :: mf_store
  cx_events :: "cache_event list"

definition new_cache ::
  "(nat \<Rightarrow> u64 \<times> u64) \<Rightarrow> string \<Rightarrow> cache_config \<Rightarrow> u32 \<Rightarrow> u32 \<Rightarrow> bool \<Rightarrow> cache" where
  "new_cache junk name cfg core_id type_id is_l1 =
     \<lparr>ca_id = core_id, ca_name = name @ show_unsigned (unat core_id), ca_tags = new_tag_array junk cfg core_id type_id,
      ca_mshrs = new_mshr_table (m_mshr_entries cfg) (m_mshr_max_merge cfg), ca_miss_queue = [],
      ca_stats = new_cache_stats, ca_extra = (\<lambda>_. None), ca_data_port_occupied = 0,
      ca_fill_port_occupied = 0,
      ca_write_alloc_type = (if is_l1 then L1_CACHE_WA else L2_CACHE_WA),
      ca_write_back_type = (if is_l1 then L1_CACHE_WB else L2_CACHE_WB)\<rparr>"

definition new_event :: "CacheEventType \<Rightarrow> cache_event" where
  "new_event ty = \<lparr>ce_type = ty, ce_evicted = no_evicted\<rparr>"

definition was_event_sent :: "cache_event list \<Rightarrow> CacheEventType \<Rightarrow> cache_event \<Rightarrow> bool \<times> cache_event" where
  "was_event_sent events ty found =
     (case find (\<lambda>e. ce_type e = ty) events of Some e \<Rightarrow> (True, e) | None \<Rightarrow> (False, found))"

text \<open>\<^verbatim>\<open>was_writeback_sent\<close> takes the event to fill in by value, so the caller's stays as it was.\<close>

definition was_writeback_sent :: "cache_event list \<Rightarrow> cache_event \<Rightarrow> bool \<times> cache_event" where
  "was_writeback_sent events event = (fst (was_event_sent events WRITE_BACK_REQUEST_SENT event), event)"

definition was_write_sent :: "cache_event list \<Rightarrow> bool" where
  "was_write_sent events = fst (was_event_sent events WRITE_REQUEST_SENT \<lparr>ce_type = READ_REQUEST_SENT, ce_evicted = no_evicted\<rparr>)"

definition was_read_sent :: "cache_event list \<Rightarrow> bool" where
  "was_read_sent events = fst (was_event_sent events READ_REQUEST_SENT \<lparr>ce_type = READ_REQUEST_SENT, ce_evicted = no_evicted\<rparr>)"

definition was_write_allocate_sent :: "cache_event list \<Rightarrow> bool" where
  "was_write_allocate_sent events = fst (was_event_sent events WRITE_ALLOCATE_SENT \<lparr>ce_type = READ_REQUEST_SENT, ce_evicted = no_evicted\<rparr>)"

section \<open>The base class\<close>

definition upd_cache :: "(cache \<Rightarrow> cache) \<Rightarrow> cache_ctx \<Rightarrow> cache_ctx" where
  "upd_cache f x = x\<lparr>cx_cache := f (cx_cache x)\<rparr>"

definition miss_queue_full :: "cache_config \<Rightarrow> u32 \<Rightarrow> cache \<Rightarrow> bool" where
  "miss_queue_full cfg num_misses c \<longleftrightarrow>
     unat (m_miss_queue_size cfg) < length (ca_miss_queue c) + unat num_misses"

definition count_fail :: "mem_access_type \<Rightarrow> CacheReservationFailReason \<Rightarrow> cache_ctx \<Rightarrow> cache_ctx" where
  "count_fail ty why = upd_cache (\<lambda>c. c\<lparr>ca_stats := inc_fail_stats ty why (ca_stats c)\<rparr>)"

definition count_stat :: "mem_access_type \<Rightarrow> CacheRequestStatus \<Rightarrow> cache_ctx \<Rightarrow> cache_ctx" where
  "count_stat ty oc = upd_cache (\<lambda>c. c\<lparr>ca_stats := inc_stats ty oc (ca_stats c)\<rparr>)"

text \<open>The tag access of a context: with or without write-back information.\<close>

definition cx_access ::
  "cache_config \<Rightarrow> u64 \<Rightarrow> u32 \<Rightarrow> u32 \<Rightarrow> ptr \<Rightarrow> bool \<Rightarrow> evicted_block \<Rightarrow> cache_ctx
    \<Rightarrow> (CacheRequestStatus \<times> u32 \<times> bool \<times> evicted_block \<times> cache_ctx) res" where
  "cx_access cfg addr time idx mf wb evicted x =
     res_bind (mf_get (cx_store x) mf) (\<lambda>f.
     res_bind (ta_access_mf cfg addr time idx f wb evicted (ca_tags (cx_cache x)))
       (\<lambda>(st, idx, wb, evicted, ta).
          Inr (st, idx, wb, evicted, upd_cache (\<lambda>c. c\<lparr>ca_tags := ta\<rparr>) x)))"

definition cx_access_simple ::
  "cache_config \<Rightarrow> u64 \<Rightarrow> u32 \<Rightarrow> u32 \<Rightarrow> ptr \<Rightarrow> cache_ctx \<Rightarrow> (CacheRequestStatus \<times> u32 \<times> cache_ctx) res" where
  "cx_access_simple cfg addr time idx mf x =
     res_bind (mf_get (cx_store x) mf) (\<lambda>f.
     res_bind (ta_access_simple cfg addr time idx f (ca_tags (cx_cache x)))
       (\<lambda>(st, idx, ta). Inr (st, idx, upd_cache (\<lambda>c. c\<lparr>ca_tags := ta\<rparr>) x)))"

definition cx_update_line ::
  "(cache_block \<Rightarrow> cache_block res) \<Rightarrow> u32 \<Rightarrow> cache_ctx \<Rightarrow> cache_ctx res" where
  "cx_update_line g idx x =
     res_bind (update_line g idx (ca_tags (cx_cache x)))
       (\<lambda>ta. Inr (upd_cache (\<lambda>c. c\<lparr>ca_tags := ta\<rparr>) x))"

text \<open>The tag access and MSHR insertion the two branches of \<^verbatim>\<open>send_read_request\<close> share.\<close>

definition merge_request ::
  "cache_config \<Rightarrow> u64 \<Rightarrow> u64 \<Rightarrow> u32 \<Rightarrow> ptr \<Rightarrow> u32 \<Rightarrow> bool \<Rightarrow> evicted_block \<Rightarrow> bool \<Rightarrow> cache_ctx
    \<Rightarrow> (u32 \<times> bool \<times> evicted_block \<times> cache_ctx) res" where
  "merge_request cfg block_addr mshr_addr idx mf time wb evicted read_only x =
     res_bind
       (if read_only then res_bind (cx_access_simple cfg block_addr time idx mf x)
          (\<lambda>(_, idx, x). Inr (idx, wb, evicted, x))
        else res_bind (cx_access cfg block_addr time idx mf wb evicted x)
          (\<lambda>(_, idx, wb, evicted, x). Inr (idx, wb, evicted, x)))
       (\<lambda>(idx, wb, evicted, x).
         res_bind (mf_get (cx_store x) mf) (\<lambda>f.
         res_bind (ms_add mshr_addr mf (mf_atomic f) (ca_mshrs (cx_cache x))) (\<lambda>ms.
           Inr (idx, wb, evicted, upd_cache (\<lambda>c. c\<lparr>ca_mshrs := ms\<rparr>) x))))"

definition send_read_request ::
  "cache_config \<Rightarrow> u64 \<Rightarrow> u64 \<Rightarrow> u32 \<Rightarrow> ptr \<Rightarrow> u32 \<Rightarrow> bool \<Rightarrow> evicted_block \<Rightarrow> bool \<Rightarrow> bool \<Rightarrow> cache_ctx
    \<Rightarrow> (bool \<times> bool \<times> evicted_block \<times> cache_ctx) res" where
  "send_read_request cfg addr block_addr idx mf time wb evicted read_only wa x =
     (let mshr_addr = get_mshr_addr cfg addr;
          mshr_hit = ms_probe mshr_addr (ca_mshrs (cx_cache x));
          mshr_avail = \<not> ms_full mshr_addr (ca_mshrs (cx_cache x))
      in res_bind (mf_get (cx_store x) mf) (\<lambda>f.
        if mshr_hit \<and> mshr_avail then
          res_bind (merge_request cfg block_addr mshr_addr idx mf time wb evicted read_only x)
            (\<lambda>(_, wb, evicted, x). Inr (True, wb, evicted, count_stat (mf_access_type f) MSHR_HIT x))
        else if \<not> mshr_hit \<and> mshr_avail \<and> \<not> miss_queue_full cfg 0 (cx_cache x) then
          res_bind (merge_request cfg block_addr mshr_addr idx mf time wb evicted read_only x)
            (\<lambda>(idx, wb, evicted, x).
              let extra = \<lparr>ex_valid = True, ex_block_addr = mshr_addr, ex_addr = mf_addr f,
                    ex_cache_index = idx, ex_data_size = mf_data_size f,
                    ex_pending_read = (if m_mshr_type cfg = SECTOR_ASSOC
                      then m_line_size cfg div of_nat MEM_ACCESS_SIZE else 0)\<rparr>
              in res_bind (mf_update mf (\<lambda>g. g\<lparr>mf_data_size := m_atom_size cfg, mf_addr := mshr_addr\<rparr>)
                     (cx_store x)) (\<lambda>h.
                 Inr (True, wb, evicted,
                   (upd_cache (\<lambda>c. c\<lparr>ca_extra := (ca_extra c)(mf \<mapsto> extra),
                      ca_miss_queue := ca_miss_queue c @ [mf]\<rparr>) x)
                   \<lparr>cx_store := h,
                    cx_events := (if wa then cx_events x else cx_events x @ [new_event READ_REQUEST_SENT])\<rparr>)))
        else if mshr_hit \<and> \<not> mshr_avail then
          Inr (False, wb, evicted, count_fail (mf_access_type f) MSHR_MERGE_ENTRY_FAIL x)
        else if \<not> mshr_hit \<and> \<not> mshr_avail then
          Inr (False, wb, evicted, count_fail (mf_access_type f) MSHR_ENTRY_FAIL x)
        else Inr (False, wb, evicted, x)))"

text \<open>The overload for callers that have no write-back.\<close>

definition send_read_request_simple ::
  "cache_config \<Rightarrow> u64 \<Rightarrow> u64 \<Rightarrow> u32 \<Rightarrow> ptr \<Rightarrow> u32 \<Rightarrow> bool \<Rightarrow> bool \<Rightarrow> cache_ctx \<Rightarrow> (bool \<times> cache_ctx) res" where
  "send_read_request_simple cfg addr block_addr idx mf time read_only wa x =
     res_bind (send_read_request cfg addr block_addr idx mf time False no_evicted read_only wa x)
       (\<lambda>(do_miss, _, _, x). Inr (do_miss, x))"

text \<open>Port bandwidth. \<^verbatim>\<open>event\<close> stays the default one, so a write-back costs 0 cycles.\<close>

definition use_data_port ::
  "cache_config \<Rightarrow> ptr \<Rightarrow> CacheRequestStatus \<Rightarrow> cache_ctx \<Rightarrow> cache_ctx res" where
  "use_data_port cfg mf outcome x =
     res_bind (mf_get (cx_store x) mf) (\<lambda>f.
     let data_size = mf_data_size f; port_width = m_data_port_width cfg;
         occupy = (\<lambda>n. upd_cache (\<lambda>c. c\<lparr>ca_data_port_occupied := ca_data_port_occupied c + n\<rparr>) x)
     in case outcome of
          HIT \<Rightarrow> if port_width = 0 then Inl Div_By_Zero
                 else Inr (occupy (data_size div port_width + bool_int (data_size mod port_width \<noteq> 0)))
        | SECTOR_MISS \<Rightarrow> Inr x
        | RESERVATION_FAIL \<Rightarrow> Inr x
        | MSHR_HIT \<Rightarrow> Inl (Assert_Fail ''0'')
        | _ \<Rightarrow>
            (let (sent, event) = was_writeback_sent (cx_events x) (new_event READ_REQUEST_SENT)
             in if sent then
                  if port_width = 0 then Inl Div_By_Zero
                  else Inr (occupy (ev_modified_size (ce_evicted event) div port_width))
                else Inr x))"

definition use_fill_port :: "cache_config \<Rightarrow> cache \<Rightarrow> cache res" where
  "use_fill_port cfg c =
     (if m_data_port_width cfg = 0 then Inl Div_By_Zero
      else Inr (c\<lparr>ca_fill_port_occupied := ca_fill_port_occupied c + m_atom_size cfg div m_data_port_width cfg\<rparr>))"

definition replenish_port_bandwidth :: "cache \<Rightarrow> cache" where
  "replenish_port_bandwidth c =
     c\<lparr>ca_data_port_occupied := (if 0 < sint (ca_data_port_occupied c)
         then ca_data_port_occupied c - 1 else ca_data_port_occupied c),
       ca_fill_port_occupied := (if 0 < sint (ca_fill_port_occupied c)
         then ca_fill_port_occupied c - 1 else ca_fill_port_occupied c)\<rparr>"

text \<open>The two queries are switched off in the code: the counters above are kept but not consulted.\<close>

definition data_port_free :: "cache \<Rightarrow> bool" where
  "data_port_free c \<longleftrightarrow> True"

definition fill_port_free :: "cache \<Rightarrow> bool" where
  "fill_port_free c \<longleftrightarrow> True"

definition cache_cycle :: "cache \<Rightarrow> ptr fifo_pipeline \<Rightarrow> (cache \<times> ptr fifo_pipeline) res" where
  "cache_cycle c q =
     res_bind
       (case ca_miss_queue c of
          [] \<Rightarrow> Inr (c, q)
        | mf # rest \<Rightarrow>
            if fp_full q then Inr (c, q)
            else res_bind (fp_push (Some mf) q) (\<lambda>q. Inr (c\<lparr>ca_miss_queue := rest\<rparr>, q)))
       (\<lambda>(c, q). Inr (replenish_port_bandwidth c, q))"

text \<open>The part of \<^verbatim>\<open>Cache::fill\<close> that resolves a sector of a line-wide request to the original one.\<close>

definition fill_resolve ::
  "cache_config \<Rightarrow> ptr \<Rightarrow> cache_ctx \<Rightarrow> (ptr option \<times> cache_ctx) res" where
  "fill_resolve cfg mf x =
     (if m_mshr_type cfg = SECTOR_ASSOC then
        res_bind (mf_get (cx_store x) mf) (\<lambda>f.
        case mf_original f of
          None \<Rightarrow> Inl (Assert_Fail ''mf->get_original_mf()'')
        | Some orig \<Rightarrow>
            (case ca_extra (cx_cache x) orig of
               None \<Rightarrow> Inl (Assert_Fail ''m_extra_mf_fields.find(...)'')
             | Some e \<Rightarrow>
                 let e' = e\<lparr>ex_pending_read := ex_pending_read e - 1\<rparr>;
                     x' = upd_cache (\<lambda>c. c\<lparr>ca_extra := (ca_extra c)(orig \<mapsto> e')\<rparr>) x
                 in res_bind (mf_delete mf (cx_store x')) (\<lambda>h.
                    Inr (if 0 < ex_pending_read e' then None else Some orig, x'\<lparr>cx_store := h\<rparr>))))
      else Inr (Some mf, x))"

definition fill_found ::
  "cache_config \<Rightarrow> ptr \<Rightarrow> u32 \<Rightarrow> cache_ctx \<Rightarrow> cache_ctx res" where
  "fill_found cfg mf time x =
     (case ca_extra (cx_cache x) mf of
        None \<Rightarrow> Inl (Assert_Fail ''m_extra_mf_fields.find(mf) != end()'')
      | Some field \<Rightarrow>
          res_bind (mf_update mf (\<lambda>g. g\<lparr>mf_data_size := ex_data_size field, mf_addr := ex_addr field\<rparr>)
            (cx_store x)) (\<lambda>h.
          res_bind (mf_get h mf) (\<lambda>f.
          res_bind
            (if m_alloc_policy cfg = ON_MISS then
               ta_fill_index cfg (ex_cache_index field) time f (ca_tags (cx_cache x))
             else if m_alloc_policy cfg = ON_FILL then
               ta_fill_addr cfg (ex_block_addr field) time (mf_sector_mask f) (ca_tags (cx_cache x))
             else Inr (ca_tags (cx_cache x))) (\<lambda>ta.
          res_bind (ms_mark_ready (ex_block_addr field) (ca_mshrs (cx_cache x))) (\<lambda>(has_atomic, ms).
          res_bind
            (if has_atomic then
               res_bind (assert_that (m_alloc_policy cfg = ON_MISS) ''get_alloc_policy() == ON_MISS'')
                 (\<lambda>_. update_line (cb_set_status MODIFIED (mf_sector_mask f)) (ex_cache_index field) ta)
             else Inr ta) (\<lambda>ta.
          res_bind (use_fill_port cfg ((cx_cache x)\<lparr>ca_tags := ta, ca_mshrs := ms,
              ca_extra := (ca_extra (cx_cache x))(mf := None)\<rparr>)) (\<lambda>c.
          Inr (x\<lparr>cx_cache := c, cx_store := h\<rparr>))))))))"

definition cache_fill :: "cache_config \<Rightarrow> ptr \<Rightarrow> u32 \<Rightarrow> cache_ctx \<Rightarrow> cache_ctx res" where
  "cache_fill cfg mf time x =
     res_bind (fill_resolve cfg mf x) (\<lambda>(p, x).
       case p of None \<Rightarrow> Inr x | Some mf \<Rightarrow> fill_found cfg mf time x)"

definition waiting_for_fill :: "ptr \<Rightarrow> cache \<Rightarrow> bool" where
  "waiting_for_fill mf c = (ca_extra c mf \<noteq> None)"

definition cache_pop_next_access :: "cache \<Rightarrow> (ptr \<times> cache) res" where
  "cache_pop_next_access c =
     res_bind (ms_pop_next_access (ca_mshrs c)) (\<lambda>(p, ms). Inr (p, c\<lparr>ca_mshrs := ms\<rparr>))"

definition force_tag_access :: "cache_config \<Rightarrow> u64 \<Rightarrow> u32 \<Rightarrow> sector_mask \<Rightarrow> cache \<Rightarrow> cache res" where
  "force_tag_access cfg addr time m c =
     res_bind (ta_fill_addr cfg addr time m (ca_tags c)) (\<lambda>ta. Inr (c\<lparr>ca_tags := ta\<rparr>))"

definition cache_invalidate :: "cache_config \<Rightarrow> cache \<Rightarrow> cache res" where
  "cache_invalidate cfg c = res_bind (ta_invalidate cfg (ca_tags c)) (\<lambda>ta. Inr (c\<lparr>ca_tags := ta\<rparr>))"

section \<open>The read-only cache\<close>

definition read_only_access ::
  "cache_config \<Rightarrow> u64 \<Rightarrow> u32 \<Rightarrow> ptr \<Rightarrow> cache_ctx \<Rightarrow> (CacheRequestStatus \<times> cache_ctx) res" where
  "read_only_access cfg addr time mf x =
     res_bind (mf_get (cx_store x) mf) (\<lambda>f.
     res_bind (assert_that (mf_data_size f \<le> m_atom_size cfg) ''get_data_size() <= get_atom_size()'') (\<lambda>_.
     res_bind (assert_that (m_write_policy cfg = READ_ONLY) ''get_write_policy() == READ_ONLY'') (\<lambda>_.
     res_bind (assert_that (\<not> is_write f) ''!mf->is_write()'') (\<lambda>_.
     let block_addr = get_block_addr cfg addr
     in res_bind (ta_probe cfg block_addr no_line (mf_sector_mask f) (ca_tags (cx_cache x))) (\<lambda>(status, idx).
        res_bind
          (if status = HIT then
             res_bind (cx_access_simple cfg block_addr time idx mf x) (\<lambda>(st, _, x). Inr (st, x))
           else if status \<noteq> RESERVATION_FAIL then
             if \<not> miss_queue_full cfg 0 (cx_cache x) then
               res_bind (send_read_request_simple cfg addr block_addr idx mf time True False x)
                 (\<lambda>(do_miss, x). Inr (if do_miss then MISS else RESERVATION_FAIL, x))
             else Inr (RESERVATION_FAIL, count_fail (mf_access_type f) MISS_QUEUE_FULL x)
           else Inr (RESERVATION_FAIL, count_fail (mf_access_type f) LINE_ALLOC_FAIL x))
          (\<lambda>(cache_status, x).
            res_bind (use_data_port cfg mf cache_status
                (count_stat (mf_access_type f) (select_stats_status status cache_status) x))
              (\<lambda>x. Inr (cache_status, x))))))))"

section \<open>The data cache\<close>

definition send_write_request :: "ptr \<Rightarrow> cache_event \<Rightarrow> cache_ctx \<Rightarrow> cache_ctx" where
  "send_write_request mf request x =
     (upd_cache (\<lambda>c. c\<lparr>ca_miss_queue := ca_miss_queue c @ [mf]\<rparr>) x)
       \<lparr>cx_events := cx_events x @ [request]\<rparr>"

text \<open>One round of the loop of \<^verbatim>\<open>write_back\<close>.\<close>

definition write_back_one ::
  "cache_config \<Rightarrow> evicted_block \<Rightarrow> u32 \<Rightarrow> cache_ctx \<Rightarrow> nat \<Rightarrow> cache_ctx res" where
  "write_back_one cfg evicted time x i =
     (let evicted_addr = ev_block_addr evicted + of_nat (i * PACKET_SIZE);
          (wb_mf, h) = new_mem_fetch evicted_addr (ca_write_back_type (cx_cache x)) WRITE_REQUEST
            (of_nat PACKET_SIZE) (of_nat WRITE_PACKET_SIZE) (ucast time) (cx_store x)
      in res_bind (get_channel_index (m_m2ndp_config cfg) evicted_addr) (\<lambda>ch.
         res_bind (mf_update wb_mf (\<lambda>g. g\<lparr>mf_dirty_mask := ev_dirty_mask evicted, mf_channel := ucast ch\<rparr>) h)
           (\<lambda>h. Inr (send_write_request wb_mf
              \<lparr>ce_type = WRITE_BACK_REQUEST_SENT, ce_evicted = evicted\<rparr> (x\<lparr>cx_store := h\<rparr>)))))"

definition write_back :: "cache_config \<Rightarrow> evicted_block \<Rightarrow> u32 \<Rightarrow> cache_ctx \<Rightarrow> cache_ctx res" where
  "write_back cfg evicted time x =
     res_foldl (write_back_one cfg evicted time) x [0..<unat (ev_modified_size evicted) div PACKET_SIZE]"

text \<open>The write-back of an evicted block that every allocating path ends with.\<close>

definition write_back_if ::
  "cache_config \<Rightarrow> bool \<Rightarrow> evicted_block \<Rightarrow> u32 \<Rightarrow> cache_ctx \<Rightarrow> cache_ctx res" where
  "write_back_if cfg wb evicted time x =
     (if wb \<and> m_write_policy cfg \<noteq> WRITE_THROUGH then write_back cfg evicted time x else Inr x)"

definition wr_hit_wb ::
  "cache_config \<Rightarrow> u64 \<Rightarrow> u32 \<Rightarrow> ptr \<Rightarrow> u32 \<Rightarrow> cache_ctx \<Rightarrow> (CacheRequestStatus \<times> cache_ctx) res" where
  "wr_hit_wb cfg addr idx mf time x =
     res_bind (cx_access_simple cfg (get_block_addr cfg addr) time idx mf x) (\<lambda>(_, idx, x).
     res_bind (mf_get (cx_store x) mf) (\<lambda>f.
     res_bind (cx_update_line (cb_set_status MODIFIED (mf_sector_mask f)) idx x) (\<lambda>x.
     Inr (HIT, x))))"

definition wr_hit_wt ::
  "cache_config \<Rightarrow> u64 \<Rightarrow> u32 \<Rightarrow> ptr \<Rightarrow> u32 \<Rightarrow> cache_ctx \<Rightarrow> (CacheRequestStatus \<times> cache_ctx) res" where
  "wr_hit_wt cfg addr idx mf time x =
     res_bind (mf_get (cx_store x) mf) (\<lambda>f.
     if miss_queue_full cfg 0 (cx_cache x) then
       Inr (RESERVATION_FAIL, count_fail (mf_access_type f) MISS_QUEUE_FULL x)
     else res_bind (cx_access_simple cfg (get_block_addr cfg addr) time idx mf x) (\<lambda>(_, idx, x).
       res_bind (cx_update_line (cb_set_status MODIFIED (mf_sector_mask f)) idx x) (\<lambda>x.
       Inr (HIT, send_write_request mf (new_event WRITE_REQUEST_SENT) x))))"

definition wr_hit_we ::
  "cache_config \<Rightarrow> u64 \<Rightarrow> u32 \<Rightarrow> ptr \<Rightarrow> u32 \<Rightarrow> cache_ctx \<Rightarrow> (CacheRequestStatus \<times> cache_ctx) res" where
  "wr_hit_we cfg addr idx mf time x =
     res_bind (mf_get (cx_store x) mf) (\<lambda>f.
     if miss_queue_full cfg 0 (cx_cache x) then
       Inr (RESERVATION_FAIL, count_fail (mf_access_type f) MISS_QUEUE_FULL x)
     else
       res_bind (cx_update_line (cb_set_status INVALID (mf_sector_mask f)) idx
           (send_write_request mf (new_event WRITE_REQUEST_SENT) x)) (\<lambda>x. Inr (HIT, x)))"

definition wr_hit_global_we_local_wb ::
  "cache_config \<Rightarrow> u64 \<Rightarrow> u32 \<Rightarrow> ptr \<Rightarrow> u32 \<Rightarrow> cache_ctx \<Rightarrow> (CacheRequestStatus \<times> cache_ctx) res" where
  "wr_hit_global_we_local_wb cfg addr idx mf time x =
     res_bind (mf_get (cx_store x) mf) (\<lambda>f.
     if mf_from_ndp f then wr_hit_wb cfg addr idx mf time x else wr_hit_we cfg addr idx mf time x)"

text \<open>The read request a write miss sends: the new request for the same atom.\<close>

definition new_alloc_request :: "cache_config \<Rightarrow> mem_fetch \<Rightarrow> u32 \<Rightarrow> cache_ctx \<Rightarrow> (ptr \<times> cache_ctx) res" where
  "new_alloc_request cfg f time x =
     (let (p, h) = new_mem_fetch_masked (mf_addr f) (ca_write_alloc_type (cx_cache x)) READ_REQUEST
            (m_atom_size cfg) (mf_ctrl_size f) (mf_byte_mask f) (mf_sector_mask f) (ucast time) (cx_store x)
      in res_bind (mf_update p (\<lambda>g. g\<lparr>mf_channel := mf_channel f\<rparr>) h) (\<lambda>h. Inr (p, x\<lparr>cx_store := h\<rparr>)))"

definition wr_miss_wa_naive ::
  "cache_config \<Rightarrow> u64 \<Rightarrow> u32 \<Rightarrow> ptr \<Rightarrow> u32 \<Rightarrow> CacheRequestStatus \<Rightarrow> cache_ctx
    \<Rightarrow> (CacheRequestStatus \<times> cache_ctx) res" where
  "wr_miss_wa_naive cfg addr idx mf time status x =
     res_bind (mf_get (cx_store x) mf) (\<lambda>f.
     let block_addr = get_block_addr cfg addr; mshr_addr = get_mshr_addr cfg addr;
         mshr_hit = ms_probe mshr_addr (ca_mshrs (cx_cache x));
         mshr_avail = \<not> ms_full mshr_addr (ca_mshrs (cx_cache x));
         refuse = (\<lambda>why. Inr (RESERVATION_FAIL, count_fail (mf_access_type f) why x))
     in if miss_queue_full cfg 2 (cx_cache x) then refuse MISS_QUEUE_FULL
        else if mshr_hit \<and> \<not> mshr_avail then refuse MSHR_MERGE_ENTRY_FAIL
        else if \<not> mshr_hit \<and> \<not> mshr_avail then refuse MSHR_ENTRY_FAIL
        else
          res_bind (new_alloc_request cfg f time (send_write_request mf (new_event WRITE_REQUEST_SENT) x))
            (\<lambda>(new_mf, x).
          res_bind (send_read_request cfg addr block_addr idx new_mf time False no_evicted False True x)
            (\<lambda>(do_miss, wb, evicted, x).
              if do_miss then
                res_bind (assert_that (wb \<and> m_write_policy cfg \<noteq> WRITE_THROUGH \<longrightarrow> status = MISS) ''status == MISS'')
                  (\<lambda>_. res_bind (write_back_if cfg wb evicted time x) (\<lambda>x. Inr (MISS, x)))
              else Inr (RESERVATION_FAIL, x))))"

definition popcount :: "byte_mask \<Rightarrow> nat" where
  "popcount m = length (filter (bit m) [0..<MAX_MEMORY_ACCESS_SIZE])"

definition wr_miss_wa_fetch_on_write ::
  "cache_config \<Rightarrow> u64 \<Rightarrow> u32 \<Rightarrow> ptr \<Rightarrow> u32 \<Rightarrow> CacheRequestStatus \<Rightarrow> cache_ctx
    \<Rightarrow> (CacheRequestStatus \<times> cache_ctx) res" where
  "wr_miss_wa_fetch_on_write cfg addr idx mf time status x =
     res_bind (mf_get (cx_store x) mf) (\<lambda>f.
     let block_addr = get_block_addr cfg addr; mshr_addr = get_mshr_addr cfg addr;
         m = mf_sector_mask f;
         refuse = (\<lambda>why x. Inr (RESERVATION_FAIL, count_fail (mf_access_type f) why x))
     in if popcount (mf_byte_mask f) = unat (m_atom_size cfg) then
          if miss_queue_full cfg 0 (cx_cache x) then refuse MISS_QUEUE_FULL x
          else
            res_bind (cx_access cfg block_addr time idx mf False no_evicted x) (\<lambda>(_, idx, wb, evicted, x).
            res_bind (assert_that (status \<noteq> HIT) ''status != HIT'') (\<lambda>_.
            res_bind (cx_update_line (cb_set_status MODIFIED m) idx x) (\<lambda>x.
            res_bind (if status = HIT_RESERVED then cx_update_line (cb_set_ignore_on_fill True m) idx x
                      else Inr x) (\<lambda>x.
            res_bind (if status \<noteq> RESERVATION_FAIL then write_back_if cfg wb evicted time x else Inr x) (\<lambda>x.
            Inr (RESERVATION_FAIL, x))))))
        else
          let mshr_hit = ms_probe mshr_addr (ca_mshrs (cx_cache x));
              mshr_avail = \<not> ms_full mshr_addr (ca_mshrs (cx_cache x))
          in if miss_queue_full cfg 1 (cx_cache x) then refuse MISS_QUEUE_FULL x
             else if mshr_hit \<and> \<not> mshr_avail then refuse MSHR_MERGE_ENTRY_FAIL x
             else if \<not> mshr_hit \<and> \<not> mshr_avail then refuse MSHR_ENTRY_FAIL x
             else
               res_bind
                 (if mshr_hit then ms_is_read_after_write_pending (cx_store x) mshr_addr (ca_mshrs (cx_cache x))
                  else Inr (False, ca_mshrs (cx_cache x))) (\<lambda>(raw, ms).
               let x = upd_cache (\<lambda>c. c\<lparr>ca_mshrs := ms\<rparr>) x
               in if mshr_hit \<and> raw \<and> is_write f then refuse MSHR_RW_PENDING x
                  else
                    res_bind (new_alloc_request cfg f time x) (\<lambda>(new_mf, x).
                    res_bind (send_read_request cfg addr block_addr idx new_mf time False no_evicted False True x)
                      (\<lambda>(do_miss, wb, evicted, x).
                    res_bind (cx_update_line (cb_set_modified_on_fill True m) idx x) (\<lambda>x.
                    let x = x\<lparr>cx_events := cx_events x @ [new_event WRITE_ALLOCATE_SENT]\<rparr>
                    in res_bind
                         (if do_miss then
                            res_bind (assert_that (wb \<and> m_write_policy cfg \<noteq> WRITE_THROUGH \<longrightarrow> status = MISS)
                                ''status == MISS'') (\<lambda>_. write_back_if cfg wb evicted time x)
                          else Inr x)
                         (\<lambda>x. Inr (RESERVATION_FAIL, x)))))))"

definition wr_miss_wa_lazy_fetch_on_read ::
  "cache_config \<Rightarrow> u64 \<Rightarrow> u32 \<Rightarrow> ptr \<Rightarrow> u32 \<Rightarrow> CacheRequestStatus \<Rightarrow> cache_ctx
    \<Rightarrow> (CacheRequestStatus \<times> cache_ctx) res" where
  "wr_miss_wa_lazy_fetch_on_read cfg addr idx mf time status x =
     res_bind (mf_get (cx_store x) mf) (\<lambda>f.
     let m = mf_sector_mask f
     in if miss_queue_full cfg 0 (cx_cache x) then
          Inr (RESERVATION_FAIL, count_fail (mf_access_type f) MISS_QUEUE_FULL x)
        else
          let x = (if m_write_policy cfg = WRITE_THROUGH
                   then send_write_request mf (new_event WRITE_REQUEST_SENT) x else x)
          in res_bind (cx_access cfg (get_block_addr cfg addr) time idx mf False no_evicted x)
               (\<lambda>(access_status, idx, wb, evicted, x).
             res_bind (assert_that (status \<noteq> HIT) ''status != HIT'') (\<lambda>_.
             res_bind (cx_update_line (cb_set_status MODIFIED m) idx x) (\<lambda>x.
             res_bind
               (if access_status = HIT_RESERVED then
                  res_bind (cx_update_line (cb_set_ignore_on_fill True m) idx x)
                    (cx_update_line (cb_set_modified_on_fill True m) idx)
                else Inr x) (\<lambda>x.
             res_bind
               (if popcount (mf_byte_mask f) = unat (m_atom_size cfg)
                then cx_update_line (cb_set_readable True m) idx x
                else cx_update_line (cb_set_readable True m) idx x) (\<lambda>x.
             if access_status \<noteq> RESERVATION_FAIL then
               res_bind (write_back_if cfg wb evicted time x) (\<lambda>x. Inr (MISS, x))
             else Inr (RESERVATION_FAIL, x)))))))"

definition wr_miss_no_wa ::
  "cache_config \<Rightarrow> ptr \<Rightarrow> cache_ctx \<Rightarrow> (CacheRequestStatus \<times> cache_ctx) res" where
  "wr_miss_no_wa cfg mf x =
     res_bind (mf_get (cx_store x) mf) (\<lambda>f.
     if miss_queue_full cfg 0 (cx_cache x) then
       Inr (RESERVATION_FAIL, count_fail (mf_access_type f) MISS_QUEUE_FULL x)
     else Inr (MISS, send_write_request mf (new_event WRITE_REQUEST_SENT) x))"

definition rd_hit_base ::
  "cache_config \<Rightarrow> u64 \<Rightarrow> u32 \<Rightarrow> ptr \<Rightarrow> u32 \<Rightarrow> cache_ctx \<Rightarrow> (CacheRequestStatus \<times> cache_ctx) res" where
  "rd_hit_base cfg addr idx mf time x =
     res_bind (mf_get (cx_store x) mf) (\<lambda>f.
     res_bind (cx_access_simple cfg (get_block_addr cfg addr) time idx mf x) (\<lambda>(_, idx, x).
     res_bind (if mf_atomic f then cx_update_line (cb_set_status MODIFIED (mf_sector_mask f)) idx x
               else Inr x) (\<lambda>x.
     Inr (HIT, x))))"

definition rd_miss_base ::
  "cache_config \<Rightarrow> u64 \<Rightarrow> u32 \<Rightarrow> ptr \<Rightarrow> u32 \<Rightarrow> cache_ctx \<Rightarrow> (CacheRequestStatus \<times> cache_ctx) res" where
  "rd_miss_base cfg addr idx mf time x =
     res_bind (mf_get (cx_store x) mf) (\<lambda>f.
     if miss_queue_full cfg 1 (cx_cache x) then
       res_bind (mf_update mf (\<lambda>g. g\<lparr>mf_current_state := ''MISS_QUEUE_FULL''\<rparr>) (cx_store x)) (\<lambda>h.
         Inr (RESERVATION_FAIL, count_fail (mf_access_type f) MISS_QUEUE_FULL (x\<lparr>cx_store := h\<rparr>)))
     else
       res_bind (send_read_request cfg addr (get_block_addr cfg addr) idx mf time False no_evicted False True x)
         (\<lambda>(do_miss, wb, evicted, x).
           if do_miss then res_bind (write_back_if cfg wb evicted time x) (\<lambda>x. Inr (MISS, x))
           else Inr (RESERVATION_FAIL, x)))"

text \<open>The handlers \<^verbatim>\<open>DataCache::init\<close> selects.\<close>

definition m_wr_hit ::
  "cache_config \<Rightarrow> u64 \<Rightarrow> u32 \<Rightarrow> ptr \<Rightarrow> u32 \<Rightarrow> cache_ctx \<Rightarrow> (CacheRequestStatus \<times> cache_ctx) res" where
  "m_wr_hit cfg =
     (case m_write_policy cfg of
        READ_ONLY \<Rightarrow> (\<lambda>_ _ _ _ _. Inl (Assert_Fail ''0''))
      | WRITE_BACK \<Rightarrow> wr_hit_wb cfg
      | WRITE_THROUGH \<Rightarrow> wr_hit_wt cfg
      | WRITE_EVICT \<Rightarrow> wr_hit_we cfg
      | LOCAL_WB_GLOBAL_WT \<Rightarrow> wr_hit_global_we_local_wb cfg)"

definition m_wr_miss ::
  "cache_config \<Rightarrow> u64 \<Rightarrow> u32 \<Rightarrow> ptr \<Rightarrow> u32 \<Rightarrow> CacheRequestStatus \<Rightarrow> cache_ctx
    \<Rightarrow> (CacheRequestStatus \<times> cache_ctx) res" where
  "m_wr_miss cfg addr idx mf time status x =
     (case m_write_alloc_policy cfg of
        NO_WRITE_ALLOCATE \<Rightarrow> wr_miss_no_wa cfg mf x
      | WRITE_ALLOCATE \<Rightarrow> wr_miss_wa_naive cfg addr idx mf time status x
      | FETCH_ON_WRITE \<Rightarrow> wr_miss_wa_fetch_on_write cfg addr idx mf time status x
      | LAZY_FETCH_ON_READ \<Rightarrow> wr_miss_wa_lazy_fetch_on_read cfg addr idx mf time status x)"

definition process_tag_probe ::
  "cache_config \<Rightarrow> bool \<Rightarrow> CacheRequestStatus \<Rightarrow> u64 \<Rightarrow> u32 \<Rightarrow> ptr \<Rightarrow> u32 \<Rightarrow> cache_ctx
    \<Rightarrow> (CacheRequestStatus \<times> cache_ctx) res" where
  "process_tag_probe cfg wr probe_status addr idx mf time x =
     res_bind (mf_get (cx_store x) mf) (\<lambda>f.
     res_bind
       (if wr then
          if probe_status = HIT then m_wr_hit cfg addr idx mf time x
          else if probe_status \<noteq> RESERVATION_FAIL \<or> m_write_alloc_policy cfg = NO_WRITE_ALLOCATE then
            m_wr_miss cfg addr idx mf time probe_status x
          else Inr (probe_status, count_fail (mf_access_type f) LINE_ALLOC_FAIL x)
        else
          if probe_status = HIT then rd_hit_base cfg addr idx mf time x
          else if probe_status \<noteq> RESERVATION_FAIL then rd_miss_base cfg addr idx mf time x
          else Inr (probe_status, count_fail (mf_access_type f) LINE_ALLOC_FAIL x))
       (\<lambda>(access_status, x).
         res_bind (use_data_port cfg mf access_status x) (\<lambda>x. Inr (access_status, x))))"

definition data_cache_access ::
  "cache_config \<Rightarrow> u64 \<Rightarrow> u32 \<Rightarrow> ptr \<Rightarrow> cache_ctx \<Rightarrow> (CacheRequestStatus \<times> cache_ctx) res" where
  "data_cache_access cfg addr time mf x =
     res_bind (mf_get (cx_store x) mf) (\<lambda>f.
     res_bind (ta_probe cfg (get_block_addr cfg addr) no_line (mf_sector_mask f) (ca_tags (cx_cache x)))
       (\<lambda>(probe_status, idx).
     res_bind (process_tag_probe cfg (is_write f) probe_status addr idx mf time x) (\<lambda>(access_status, x).
     Inr (access_status,
          count_stat (mf_access_type f) (select_stats_status probe_status access_status) x))))"

section \<open>What the operations leave alone\<close>

lemma upd_cache_simps [simp]:
  "cx_cache (upd_cache g x) = g (cx_cache x)" "cx_store (upd_cache g x) = cx_store x"
  "cx_events (upd_cache g x) = cx_events x"
  by (simp_all add: upd_cache_def)

lemma count_simps [simp]:
  "cx_cache (count_fail ty why x) = (cx_cache x)\<lparr>ca_stats := inc_fail_stats ty why (ca_stats (cx_cache x))\<rparr>"
  "cx_cache (count_stat ty oc x) = (cx_cache x)\<lparr>ca_stats := inc_stats ty oc (ca_stats (cx_cache x))\<rparr>"
  "cx_store (count_fail ty why x) = cx_store x" "cx_store (count_stat ty oc x) = cx_store x"
  "cx_events (count_fail ty why x) = cx_events x" "cx_events (count_stat ty oc x) = cx_events x"
  by (simp_all add: count_fail_def count_stat_def)

text \<open>The part of a cache that decides its behaviour, without statistics and port counters.\<close>

definition core_of :: "cache \<Rightarrow> tag_array \<times> mshr_table \<times> ptr list \<times> (ptr \<Rightarrow> extra_mf_fields option)" where
  "core_of c = (ca_tags c, ca_mshrs c, ca_miss_queue c, ca_extra c)"

lemma occupy_core [simp]: "core_of (c\<lparr>ca_data_port_occupied := n\<rparr>) = core_of c"
  by (simp add: core_of_def)

lemma stats_core [simp]: "core_of (c\<lparr>ca_stats := n\<rparr>) = core_of c"
  by (simp add: core_of_def)

lemma use_data_port_frame:
  assumes "use_data_port cfg mf st x = Inr x'"
  shows "core_of (cx_cache x') = core_of (cx_cache x)" "cx_store x' = cx_store x"
proof -
  have "\<exists>n. x' = x \<or> x' = upd_cache (\<lambda>c. c\<lparr>ca_data_port_occupied := ca_data_port_occupied c + n\<rparr>) x"
  proof (cases "mf_get (cx_store x) mf")
    case (Inl e)
    then show ?thesis using assms by (simp add: use_data_port_def)
  next
    case (Inr f)
    then show ?thesis using assms
      by (cases st) (auto simp: use_data_port_def Let_def was_writeback_sent_def split: if_splits)
  qed
  then show "core_of (cx_cache x') = core_of (cx_cache x)" "cx_store x' = cx_store x"
    by auto
qed

lemma use_data_port_core [simp]:
  assumes "use_data_port cfg mf st x = Inr x'"
  shows "ca_tags (cx_cache x') = ca_tags (cx_cache x)" "ca_mshrs (cx_cache x') = ca_mshrs (cx_cache x)"
    "ca_miss_queue (cx_cache x') = ca_miss_queue (cx_cache x)" "ca_extra (cx_cache x') = ca_extra (cx_cache x)"
  using use_data_port_frame(1) [OF assms] by (simp_all add: core_of_def)

text \<open>A write-back adds requests at fresh pointers to the end of the miss queue, nothing else.\<close>

definition extends :: "cache_ctx \<Rightarrow> cache_ctx \<Rightarrow> bool" where
  "extends x x' \<longleftrightarrow> ca_tags (cx_cache x') = ca_tags (cx_cache x) \<and> ca_mshrs (cx_cache x') = ca_mshrs (cx_cache x) \<and>
     ca_extra (cx_cache x') = ca_extra (cx_cache x) \<and> store_inv (cx_store x') \<and>
     (\<exists>ps. ca_miss_queue (cx_cache x') = ca_miss_queue (cx_cache x) @ ps) \<and>
     (\<forall>p f. mf_heap (cx_store x) p = Some f \<longrightarrow> mf_heap (cx_store x') p = Some f)"

lemma extends_refl: "store_inv (cx_store x) \<Longrightarrow> extends x x"
  by (simp add: extends_def)

lemma extends_trans: "extends x y \<Longrightarrow> extends y z \<Longrightarrow> extends x z"
  by (auto simp: extends_def)

lemma write_back_one_eq:
  assumes "write_back_one cfg ev time x i = Inr x'" "store_inv (cx_store x)"
  shows "\<exists>p f. ca_miss_queue (cx_cache x') = ca_miss_queue (cx_cache x) @ [p] \<and>
    mf_heap (cx_store x') p = Some f \<and> mf_addr f = ev_block_addr ev + of_nat (i * 32) \<and>
    mf_kind f = WRITE_REQUEST \<and> mf_data_size f = 32 \<and> extends x x'"
proof -
  let ?a = "ev_block_addr ev + of_nat (i * 32)"
  obtain p h where n: "new_mem_fetch ?a (ca_write_back_type (cx_cache x)) WRITE_REQUEST 32 8
      (ucast time) (cx_store x) = (p, h)"
    by fastforce
  obtain f where f: "mf_heap h p = Some f" "mf_addr f = ?a" "mf_kind f = WRITE_REQUEST"
    "mf_data_size f = 32" and p: "mf_heap (cx_store x) p = None" "store_inv h"
    "\<forall>q. q \<noteq> p \<longrightarrow> mf_heap h q = mf_heap (cx_store x) q" "p < mf_next h"
    using n assms(2) by (auto simp: new_mem_fetch_def new_mem_fetch_masked_def store_new_def store_inv_def)
  obtain ch where "x' = send_write_request p \<lparr>ce_type = WRITE_BACK_REQUEST_SENT, ce_evicted = ev\<rparr>
      (x\<lparr>cx_store := h\<lparr>mf_heap := (mf_heap h)(p \<mapsto> f\<lparr>mf_dirty_mask := ev_dirty_mask ev, mf_channel := ch\<rparr>)\<rparr>\<rparr>)"
    using assms(1) n f(1) by (auto simp: write_back_one_def Let_def res_simps)
  then show ?thesis
    using f p by (auto simp: send_write_request_def extends_def upd_cache_def store_inv_def)
qed

lemma write_back_fold_extends:
  assumes "res_foldl (write_back_one cfg ev time) x ns = Inr x'" "store_inv (cx_store x)"
  shows "extends x x'"
  using assms
proof (induction ns arbitrary: x)
  case Nil
  then show ?case by (simp add: extends_refl)
next
  case (Cons i ns)
  then obtain y where y: "write_back_one cfg ev time x i = Inr y"
      "res_foldl (write_back_one cfg ev time) y ns = Inr x'"
    by (auto simp: res_simps)
  have "extends x y"
    using write_back_one_eq [OF y(1) Cons.prems(2)] by blast
  moreover from this have "extends y x'"
    using Cons.IH [OF y(2)] by (simp add: extends_def)
  ultimately show ?case by (rule extends_trans)
qed

lemma write_back_extends:
  assumes "store_inv (cx_store x)" "write_back cfg ev time x = Inr x'"
  shows "extends x x'"
  using assms write_back_fold_extends unfolding write_back_def by blast

lemma write_back_if_extends:
  assumes "store_inv (cx_store x)" "write_back_if cfg wb ev time x = Inr x'"
  shows "extends x x'"
  using assms write_back_extends by (auto simp: write_back_if_def extends_refl split: if_splits)

section \<open>A miss and its answer\<close>

lemma probe_miss_any_idx:
  "ta_probe cfg addr idx m ta = Inr (MISS, j) \<Longrightarrow> ta_probe cfg addr idx' m ta = Inr (MISS, j)"
  by (auto simp: ta_probe_def res_simps split: sum.splits if_splits)

text \<open>What a request for a new block changes.\<close>

definition miss_fields :: "cache_config \<Rightarrow> u64 \<Rightarrow> u32 \<Rightarrow> mem_fetch \<Rightarrow> extra_mf_fields" where
  "miss_fields cfg mshr_addr idx f =
     \<lparr>ex_valid = True, ex_block_addr = mshr_addr, ex_addr = mf_addr f, ex_cache_index = idx,
      ex_data_size = mf_data_size f,
      ex_pending_read = (if m_mshr_type cfg = SECTOR_ASSOC then m_line_size cfg div 32 else 0)\<rparr>"

lemma send_read_request_new:
  assumes "send_read_request cfg addr block_addr idx mf time wb ev False wa x = Inr (True, wb', ev', x')"
    and "mf_heap (cx_store x) mf = Some f" "\<not> ms_probe (get_mshr_addr cfg addr) (ca_mshrs (cx_cache x))"
  shows "\<exists>st idx' ta ms. ta_access_mf cfg block_addr time idx f wb ev (ca_tags (cx_cache x)) = Inr (st, idx', wb', ev', ta) \<and>
    ms_add (get_mshr_addr cfg addr) mf (mf_atomic f) (ca_mshrs (cx_cache x)) = Inr ms \<and>
    cx_cache x' = (cx_cache x)\<lparr>ca_tags := ta, ca_mshrs := ms, ca_miss_queue := ca_miss_queue (cx_cache x) @ [mf],
      ca_extra := (ca_extra (cx_cache x))(mf \<mapsto> miss_fields cfg (get_mshr_addr cfg addr) idx' f)\<rparr> \<and>
    cx_store x' = (cx_store x)\<lparr>mf_heap := (mf_heap (cx_store x))
      (mf \<mapsto> f\<lparr>mf_data_size := m_atom_size cfg, mf_addr := get_mshr_addr cfg addr\<rparr>)\<rparr>"
  using assms
  by (auto simp: send_read_request_def merge_request_def cx_access_def Let_def res_simps miss_fields_def
      count_fail_def split: if_splits)

lemma send_read_request_refused:
  assumes "send_read_request cfg addr block_addr idx mf time wb ev ro wa x = Inr (False, wb', ev', x')"
  shows "core_of (cx_cache x') = core_of (cx_cache x) \<and> cx_store x' = cx_store x"
  using assms
  by (auto simp: send_read_request_def Let_def res_simps split: if_splits prod.splits)

lemma ms_add_new:
  assumes "ms_add a p at t = Inr t'" "\<not> ms_probe a t"
  shows "map_of (ms_table t') a = Some \<lparr>me_list = [p], me_has_atomic = at\<rparr>"
    "ms_current_response t' = ms_current_response t"
  using assms by (auto simp: ms_add_def ms_probe_def ms_entry_def empty_entry_def Let_def res_simps
      AList.update_conv' split: option.splits)

lemma ms_round_trip:
  assumes "map_of (ms_table t) a = Some \<lparr>me_list = [p], me_has_atomic = at\<rparr>" "ms_current_response t = []"
  shows "\<exists>t' t''. ms_mark_ready a t = Inr (at, t') \<and> ms_pop_next_access t' = Inr (p, t'')"
  using assms by (auto simp: ms_mark_ready_eq ms_pop_next_access_def ms_access_ready_def ms_probe_def
      ms_entry_def Let_def)

text \<open>The state between a missing read and its answer.\<close>

definition read_pending :: "cache_config \<Rightarrow> nat \<Rightarrow> u64 \<Rightarrow> ptr \<Rightarrow> mem_fetch \<Rightarrow> u32 \<Rightarrow> cache_ctx \<Rightarrow> bool" where
  "read_pending cfg s addr p f idx x \<longleftrightarrow>
     ta_inv cfg s (ca_tags (cx_cache x)) \<and> one_hot (mf_sector_mask f) \<and>
     pending_at cfg (get_block_addr cfg addr) (mf_sector_mask f) (ca_tags (cx_cache x)) idx \<and>
     \<not> cb_dirty (mf_sector_mask f) (ta_lines (ca_tags (cx_cache x)) ! unat idx) \<and>
     map_of (ms_table (ca_mshrs (cx_cache x))) (get_mshr_addr cfg addr) = Some \<lparr>me_list = [p], me_has_atomic = False\<rparr> \<and>
     ms_current_response (ca_mshrs (cx_cache x)) = [] \<and>
     ca_extra (cx_cache x) p = Some (miss_fields cfg (get_mshr_addr cfg addr) idx f) \<and>
     mf_heap (cx_store x) p = Some (f\<lparr>mf_data_size := m_atom_size cfg, mf_addr := get_mshr_addr cfg addr\<rparr>)"

lemma read_pending_cong:
  assumes "read_pending cfg s addr p f idx x" "core_of (cx_cache x') = (ca_tags (cx_cache x), ca_mshrs (cx_cache x), q, ca_extra (cx_cache x))"
    "mf_heap (cx_store x') p = mf_heap (cx_store x) p"
  shows "read_pending cfg s addr p f idx x'"
  using assms by (simp add: read_pending_def core_of_def)

lemma fill_read_pending:
  assumes "read_pending cfg s addr p f idx x" "m_alloc_policy cfg = ON_MISS" "m_mshr_type cfg = ASSOC"
    "m_data_port_width cfg \<noteq> 0"
  shows "\<exists>x' c. cache_fill cfg p time x = Inr x' \<and> \<not> waiting_for_fill p (cx_cache x') \<and>
    mf_heap (cx_store x') p = Some f \<and> ta_inv cfg s (ca_tags (cx_cache x')) \<and>
    ta_probe cfg (get_block_addr cfg addr) no_line (mf_sector_mask f) (ca_tags (cx_cache x')) = Inr (HIT, idx) \<and>
    cache_pop_next_access (cx_cache x') = Inr (p, c)"
proof -
  let ?c = "cx_cache x"
  note r = assms(1) [unfolded read_pending_def]
  have m: "one_hot (mf_sector_mask f)" and inv: "ta_inv cfg s (ca_tags ?c)"
    using r by auto
  obtain ta where ta: "ta_fill_index cfg idx time f (ca_tags ?c) = Inr ta" "ta_inv cfg s ta"
    "ta_probe cfg (get_block_addr cfg addr) no_line (mf_sector_mask f) ta = Inr (HIT, idx)"
    using ta_fill_pending [OF inv m tag_addressed_block assms(2)] r by blast
  obtain ms ms' where ms: "ms_mark_ready (get_mshr_addr cfg addr) (ca_mshrs ?c) = Inr (False, ms)"
    "ms_pop_next_access ms = Inr (p, ms')"
    using ms_round_trip r by blast
  have "f\<lparr>mf_data_size := m_atom_size cfg, mf_addr := get_mshr_addr cfg addr,
      mf_data_size := mf_data_size f, mf_addr := mf_addr f\<rparr> = f"
    by (cases f) simp
  then show ?thesis
    using r ta ms assms(2-4)
    by (auto simp: cache_fill_def fill_resolve_def fill_found_def miss_fields_def use_fill_port_def
        waiting_for_fill_def cache_pop_next_access_def)
qed

lemma rd_miss_pending:
  assumes inv: "ta_inv cfg s (ca_tags (cx_cache x))" "store_inv (cx_store x)"
    and f: "mf_heap (cx_store x) p = Some f" "\<not> mf_atomic f" "one_hot (mf_sector_mask f)"
    and pol: "m_alloc_policy cfg = ON_MISS"
    and new: "\<not> ms_probe (get_mshr_addr cfg addr) (ca_mshrs (cx_cache x))" "ms_current_response (ca_mshrs (cx_cache x)) = []"
    and miss: "ta_probe cfg (get_block_addr cfg addr) idx (mf_sector_mask f) (ca_tags (cx_cache x)) = Inr (MISS, idx)"
    and acc: "rd_miss_base cfg addr idx p time x = Inr (MISS, x')"
  shows "read_pending cfg s addr p f idx x' \<and>
    (\<exists>ps. ca_miss_queue (cx_cache x') = ca_miss_queue (cx_cache x) @ p # ps)"
proof -
  obtain wb ev y where y: "send_read_request cfg addr (get_block_addr cfg addr) idx p time False no_evicted False True x
      = Inr (True, wb, ev, y)" "write_back_if cfg wb ev time y = Inr x'"
    using acc f(1) by (auto simp: rd_miss_base_def res_simps split: if_splits prod.splits)
  obtain st idx' ta ms where
    t: "ta_access_mf cfg (get_block_addr cfg addr) time idx f False no_evicted (ca_tags (cx_cache x)) = Inr (st, idx', wb, ev, ta)"
    and ms: "ms_add (get_mshr_addr cfg addr) p (mf_atomic f) (ca_mshrs (cx_cache x)) = Inr ms"
    and c: "cx_cache y = (cx_cache x)\<lparr>ca_tags := ta, ca_mshrs := ms, ca_miss_queue := ca_miss_queue (cx_cache x) @ [p],
      ca_extra := (ca_extra (cx_cache x))(p \<mapsto> miss_fields cfg (get_mshr_addr cfg addr) idx' f)\<rparr>"
    and h: "cx_store y = (cx_store x)\<lparr>mf_heap := (mf_heap (cx_store x))
      (p \<mapsto> f\<lparr>mf_data_size := m_atom_size cfg, mf_addr := get_mshr_addr cfg addr\<rparr>)\<rparr>"
    using send_read_request_new [OF y(1) f(1) new(1)] by blast
  have st: "st = MISS" "idx' = idx"
    using ta_access_spec [OF inv(1) f(3) tag_addressed_block pol, of addr time idx False no_evicted] t miss
    by auto
  note ok = access_miss_clean [OF inv(1) f(3) pol t [unfolded st]]
  have "store_inv (cx_store y)"
    using inv(2) h store_invD [OF inv(2) f(1)] by (auto simp: store_inv_def)
  then have e: "extends y x'"
    by (rule write_back_if_extends [OF _ y(2)])
  have "read_pending cfg s addr p f idx y"
    using ok c h f new st ms_add_new [OF ms new(1)] by (simp add: read_pending_def)
  then show ?thesis
    using e c h by (auto simp: extends_def core_of_def elim!: read_pending_cong)
qed

lemma write_back_addresses:
  assumes "res_foldl (write_back_one cfg ev time) x ns = Inr x'" "store_inv (cx_store x)"
  shows "\<exists>ps fs. ca_miss_queue (cx_cache x') = ca_miss_queue (cx_cache x) @ ps \<and>
    map (mf_heap (cx_store x')) ps = map Some fs \<and>
    map mf_addr fs = map (\<lambda>i. ev_block_addr ev + of_nat (i * 32)) ns \<and>
    (\<forall>f\<in>set fs. mf_kind f = WRITE_REQUEST \<and> mf_data_size f = 32)"
  using assms
proof (induction ns arbitrary: x)
  case Nil
  then show ?case by simp
next
  case (Cons i ns)
  then obtain y where y: "write_back_one cfg ev time x i = Inr y"
      "res_foldl (write_back_one cfg ev time) y ns = Inr x'"
    by (auto simp: res_simps)
  obtain p f where p: "ca_miss_queue (cx_cache y) = ca_miss_queue (cx_cache x) @ [p]"
    "mf_heap (cx_store y) p = Some f" "mf_addr f = ev_block_addr ev + of_nat (i * 32)"
    "mf_kind f = WRITE_REQUEST" "mf_data_size f = 32" "extends x y"
    using write_back_one_eq [OF y(1) Cons.prems(2)] by blast
  have inv: "store_inv (cx_store y)"
    using p(6) by (simp add: extends_def)
  obtain ps fs where ps: "ca_miss_queue (cx_cache x') = ca_miss_queue (cx_cache y) @ ps"
    "map (mf_heap (cx_store x')) ps = map Some fs"
    "map mf_addr fs = map (\<lambda>i. ev_block_addr ev + of_nat (i * 32)) ns"
    "\<forall>f\<in>set fs. mf_kind f = WRITE_REQUEST \<and> mf_data_size f = 32"
    using Cons.IH [OF y(2) inv] by blast
  have "mf_heap (cx_store x') p = Some f"
    using write_back_fold_extends [OF y(2) inv] p(2) by (simp add: extends_def)
  then show ?case
    using p ps by (intro exI [of _ "p # ps"] exI [of _ "f # fs"]) auto
qed

lemma rd_refused:
  assumes "rd_miss_base cfg addr idx p time x = Inr (RESERVATION_FAIL, x')"
  shows "core_of (cx_cache x') = core_of (cx_cache x)"
  using assms send_read_request_refused [where x = x]
  by (fastforce simp: rd_miss_base_def res_simps split: if_splits prod.splits)

section \<open>An example cache\<close>

text \<open>A 2-set, 2-way line cache with an MSHR of two entries, with one request at pointer 1.\<close>

definition small_config :: cache_config where
  "small_config = projr (cache_config_init ''N:2:128:2,L:B:m:W:L,A:2:4,32:0,32'' example_addr_config)"

definition small_ctx :: "u32 \<Rightarrow> cache_ctx" where
  "small_ctx n =
     \<lparr>cx_cache = (new_cache (\<lambda>_. (0, 0)) ''L1'' small_config 0 0 True)\<lparr>ca_mshrs := new_mshr_table n 4\<rparr>,
      cx_store = snd (new_mem_fetch 0x1234 GLOBAL_ACC_R READ_REQUEST 32 8 0 empty_store), cx_events = []\<rparr>"

definition small_request :: mem_fetch where
  "small_request = the (mf_heap (cx_store (small_ctx 0)) 1)"

lemma small_config_simps [simp]:
  "m_nset small_config = 2" "m_assoc small_config = 2"
  "m_alloc_policy small_config = ON_MISS" "m_set_index_function small_config = LINEAR_SET_FUNCTION"
  "m_mshr_type small_config = ASSOC" "m_data_port_width small_config = 32"
  by (simp_all add: small_config_def cache_config_init_def cache_format_def is_digit_def
      is_space_def scan_sign_def digit_value_def scanned_unsigned_def scanned_char_def Let_def
      AllocationPolicyMap_def SetIndexFunctionMap_def CacheTypeMap_def EvictPolicyMap_def MshrConfigMap_def)

lemma small_array_inv: "ta_inv small_config 1 (ca_tags (cx_cache (small_ctx n)))"
  by (simp add: small_ctx_def new_cache_def new_tag_array_inv sets_ok_def)

lemma small_store_inv: "store_inv (cx_store (small_ctx n))"
  by (simp add: small_ctx_def store_inv_def new_mem_fetch_def new_mem_fetch_masked_def store_new_def
      empty_store_def)

lemma small_request_at: "mf_heap (cx_store (small_ctx n)) 1 = Some small_request"
  by (simp add: small_request_def small_ctx_def store_inv_def new_mem_fetch_def new_mem_fetch_masked_def
      store_new_def empty_store_def)

lemma small_request_facts:
  "\<not> is_write small_request" "\<not> mf_atomic small_request" "one_hot (mf_sector_mask small_request)"
  by code_simp+

section \<open>Properties\<close>

text \<open>
  A cycle of a cache moves at most the oldest request from the miss queue to the queue of the next
  level: it never fails, loses or reorders a request, and does nothing to the queues when the next level is full.
\<close>

theorem cache_cycle_forwards_in_order:
  assumes "fp_plain q"
  shows "\<exists>c' q'. cache_cycle c q = Inr (c', q') \<and> fp_plain q' \<and>
    fp_data q' @ ca_miss_queue c' = fp_data q @ ca_miss_queue c \<and>
    length (ca_miss_queue c) \<le> Suc (length (ca_miss_queue c')) \<and>
    (ca_miss_queue c' = ca_miss_queue c \<longleftrightarrow> ca_miss_queue c = [] \<or> fp_full q)"
proof (cases "ca_miss_queue c = [] \<or> fp_full q")
  case True
  then show ?thesis
    using assms by (auto simp: cache_cycle_def replenish_port_bandwidth_def split: list.splits)
next
  case False
  then obtain mf rest where m: "ca_miss_queue c = mf # rest" "\<not> fp_full q"
    by (auto simp: neq_Nil_conv)
  obtain q' where "fp_push (Some mf) q = Inr q'"
    using fp_push_plain_total [OF assms m(2)] by blast
  then show ?thesis
    using m fp_push_plain [OF assms] by (simp add: cache_cycle_def replenish_port_bandwidth_def)
qed

theorem cache_cycle_forwards_in_order_witness:
  "\<exists>c' q'. cache_cycle ((new_cache (\<lambda>_. (0, 0)) ''L1'' example_line_config 0 0 True)\<lparr>ca_miss_queue := [4, 9]\<rparr>)
      (projr (new_fifo_pipeline ''icnt'' 0 8)) = Inr (c', q') \<and> fp_data q' @ ca_miss_queue c' = [4, 9]"
proof -
  have "new_fifo_pipeline ''icnt'' 0 8 = Inr (projr (new_fifo_pipeline ''icnt'' 0 8) :: ptr fifo_pipeline)"
    by (simp add: new_fifo_pipeline_def)
  note q = new_fifo_pipeline_plain [OF this]
  show ?thesis
    using cache_cycle_forwards_in_order [OF q(1),
        of "(new_cache (\<lambda>_. (0, 0)) ''L1'' example_line_config 0 0 True)\<lparr>ca_miss_queue := [4, 9]\<rparr>"] q(2)
    by auto
qed

text \<open>
  C23. The life of a read that misses for a block no request is waiting for: the data cache reserves a line,
  registers the request with the MSHR, queues it behind the earlier misses and rewrites its address and size to the
  block; when the answer is filled in, the request has its own address and size again, the line hits, and the
  request is the next response.
\<close>

theorem read_miss_round_trip:
  assumes "ta_inv cfg s (ca_tags (cx_cache x))" "store_inv (cx_store x)" "mf_heap (cx_store x) p = Some f"
    "\<not> is_write f" "\<not> mf_atomic f" "one_hot (mf_sector_mask f)" "m_alloc_policy cfg = ON_MISS"
    "m_mshr_type cfg = ASSOC" "m_data_port_width cfg \<noteq> 0"
    "\<not> ms_probe (get_mshr_addr cfg addr) (ca_mshrs (cx_cache x))" "ms_current_response (ca_mshrs (cx_cache x)) = []"
    "ta_probe cfg (get_block_addr cfg addr) no_line (mf_sector_mask f) (ca_tags (cx_cache x)) = Inr (MISS, idx)"
    and access: "data_cache_access cfg addr time p x = Inr (MISS, x1)"
  shows "waiting_for_fill p (cx_cache x1) \<and>
    (\<exists>ps. ca_miss_queue (cx_cache x1) = ca_miss_queue (cx_cache x) @ p # ps) \<and>
    mf_heap (cx_store x1) p = Some (f\<lparr>mf_data_size := m_atom_size cfg, mf_addr := get_mshr_addr cfg addr\<rparr>) \<and>
    (\<exists>x2 c3. cache_fill cfg p time' x1 = Inr x2 \<and> \<not> waiting_for_fill p (cx_cache x2) \<and>
      mf_heap (cx_store x2) p = Some f \<and>
      ta_probe cfg (get_block_addr cfg addr) no_line (mf_sector_mask f) (ca_tags (cx_cache x2)) = Inr (HIT, idx) \<and>
      cache_pop_next_access (cx_cache x2) = Inr (p, c3))"
proof -
  obtain y z where y: "rd_miss_base cfg addr idx p time x = Inr (MISS, y)" "use_data_port cfg p MISS y = Inr z"
    "x1 = count_stat (mf_access_type f) (select_stats_status MISS MISS) z"
    using access assms(3,4,12)
    by (auto simp: data_cache_access_def process_tag_probe_def res_simps split: prod.splits)
  have "read_pending cfg s addr p f idx y \<and> (\<exists>ps. ca_miss_queue (cx_cache y) = ca_miss_queue (cx_cache x) @ p # ps)"
    using rd_miss_pending [OF assms(1-3,5-7,10,11) probe_miss_any_idx [OF assms(12)] y(1)] .
  moreover have "core_of (cx_cache x1) = core_of (cx_cache y)" "cx_store x1 = cx_store y"
    using use_data_port_frame [OF y(2)] y(3) by simp_all
  ultimately have r: "read_pending cfg s addr p f idx x1"
    and q: "\<exists>ps. ca_miss_queue (cx_cache x1) = ca_miss_queue (cx_cache x) @ p # ps"
    by (auto simp: core_of_def elim!: read_pending_cong)
  show ?thesis
    using fill_read_pending [OF r assms(7-9), of time'] r q
    by (auto simp: read_pending_def waiting_for_fill_def)
qed

theorem read_miss_round_trip_witness:
  "\<exists>x1 x2 c3. data_cache_access small_config 0x1234 3 1 (small_ctx 2) = Inr (MISS, x1) \<and>
    waiting_for_fill 1 (cx_cache x1) \<and> cache_fill small_config 1 40 x1 = Inr x2 \<and>
    cache_pop_next_access (cx_cache x2) = Inr (1, c3)"
proof -
  let ?m = "mf_sector_mask small_request" and ?ta = "ca_tags (cx_cache (small_ctx 2))"
  have "case ta_probe small_config (get_block_addr small_config 0x1234) no_line ?m ?ta of
      Inr (st, _) \<Rightarrow> st = MISS | Inl _ \<Rightarrow> False"
    by code_simp
  then obtain idx where probe: "ta_probe small_config (get_block_addr small_config 0x1234) no_line ?m ?ta = Inr (MISS, idx)"
    by (auto split: sum.splits)
  have "case data_cache_access small_config 0x1234 3 1 (small_ctx 2) of Inr (st, _) \<Rightarrow> st = MISS | Inl _ \<Rightarrow> False"
    by code_simp
  then obtain x1 where access: "data_cache_access small_config 0x1234 3 1 (small_ctx 2) = Inr (MISS, x1)"
    by (auto split: sum.splits)
  have new: "\<not> ms_probe (get_mshr_addr small_config 0x1234) (ca_mshrs (cx_cache (small_ctx 2)))"
    "ms_current_response (ca_mshrs (cx_cache (small_ctx 2))) = []"
    by (simp_all add: small_ctx_def new_mshr_table_def ms_probe_def)
  show ?thesis
    using read_miss_round_trip [OF small_array_inv small_store_inv small_request_at small_request_facts
        _ _ _ new probe access, of 40] access
    by auto
qed

text \<open>
  C30. A read that the data cache refuses has no effect on the cache: tags, MSHRs, the miss queue and the
  records of outstanding requests are as before, so the caller may present the request again.
\<close>

theorem refused_read_changes_nothing:
  assumes "mf_heap (cx_store x) p = Some f" "\<not> is_write f"
    and "data_cache_access cfg addr time p x = Inr (RESERVATION_FAIL, x')"
  shows "ca_tags (cx_cache x') = ca_tags (cx_cache x) \<and> ca_mshrs (cx_cache x') = ca_mshrs (cx_cache x) \<and>
    ca_miss_queue (cx_cache x') = ca_miss_queue (cx_cache x) \<and> ca_extra (cx_cache x') = ca_extra (cx_cache x)"
proof -
  obtain st idx y z where t: "ta_probe cfg (get_block_addr cfg addr) no_line (mf_sector_mask f) (ca_tags (cx_cache x)) = Inr (st, idx)"
    and y: "(if st = HIT then rd_hit_base cfg addr idx p time x
        else if st \<noteq> RESERVATION_FAIL then rd_miss_base cfg addr idx p time x
        else Inr (st, count_fail (mf_access_type f) LINE_ALLOC_FAIL x)) = Inr (RESERVATION_FAIL, y)"
      "use_data_port cfg p RESERVATION_FAIL y = Inr z" "core_of (cx_cache x') = core_of (cx_cache z)"
    using assms by (auto simp: data_cache_access_def process_tag_probe_def res_simps split: prod.splits)
  have "core_of (cx_cache y) = core_of (cx_cache x)"
  proof (cases "st = HIT \<or> st = RESERVATION_FAIL")
    case True
    then show ?thesis using y(1) by (auto simp: rd_hit_base_def res_simps split: prod.splits)
  next
    case False
    then show ?thesis using y(1) rd_refused by simp
  qed
  then show ?thesis
    using y(3) use_data_port_frame(1) [OF y(2)] by (simp add: core_of_def)
qed

theorem refused_read_changes_nothing_witness:
  "\<exists>x'. data_cache_access small_config 0x1234 3 1 (small_ctx 0) = Inr (RESERVATION_FAIL, x') \<and>
    ca_miss_queue (cx_cache x') = []"
proof -
  have "case data_cache_access small_config 0x1234 3 1 (small_ctx 0) of
      Inr (st, _) \<Rightarrow> st = RESERVATION_FAIL | Inl _ \<Rightarrow> False"
    by code_simp
  then obtain x' where x': "data_cache_access small_config 0x1234 3 1 (small_ctx 0) = Inr (RESERVATION_FAIL, x')"
    by (auto split: sum.splits)
  then show ?thesis
    using refused_read_changes_nothing [OF small_request_at small_request_facts(1) x']
    by (simp add: small_ctx_def new_cache_def)
qed

text \<open>
  A write-back writes a prefix of the evicted line: the requests queued cover the first
  \<open>modified_size / 32\<close> sectors from the start of the block, whichever sectors are modified.
\<close>

theorem write_back_covers_prefix:
  assumes "write_back cfg ev time x = Inr x'" "store_inv (cx_store x)"
  shows "\<exists>ps fs. ca_miss_queue (cx_cache x') = ca_miss_queue (cx_cache x) @ ps \<and>
    map (mf_heap (cx_store x')) ps = map Some fs \<and>
    map mf_addr fs = map (\<lambda>i. ev_block_addr ev + of_nat (i * 32)) [0..<unat (ev_modified_size ev) div 32] \<and>
    (\<forall>f\<in>set fs. mf_kind f = WRITE_REQUEST \<and> mf_data_size f = 32)"
  using write_back_addresses [OF assms(1) [unfolded write_back_def] assms(2)] by simp

theorem write_back_covers_prefix_witness:
  "\<exists>x' ps fs. write_back small_config (no_evicted\<lparr>ev_block_addr := 0x1000, ev_modified_size := 64\<rparr>) 3 (small_ctx 2)
      = Inr x' \<and> ca_miss_queue (cx_cache x') = ps \<and> map (mf_heap (cx_store x')) ps = map Some fs \<and>
    map mf_addr fs = [0x1000, 0x1020]"
proof -
  let ?ev = "no_evicted\<lparr>ev_block_addr := 0x1000, ev_modified_size := 64\<rparr>"
  have "case write_back small_config ?ev 3 (small_ctx 2) of Inr _ \<Rightarrow> True | Inl _ \<Rightarrow> False"
    by code_simp
  then obtain x' where x': "write_back small_config ?ev 3 (small_ctx 2) = Inr x'"
    by (auto split: sum.splits)
  have "ca_miss_queue (cx_cache (small_ctx 2)) = []"
    by (simp add: small_ctx_def new_cache_def)
  then show ?thesis
    using write_back_covers_prefix [OF x' small_store_inv] x'
    by (auto simp: upt_conv_Cons)
qed

text \<open>
  A write miss under the fetch-on-write policy is never accepted: whatever path it takes, also when the
  line was allocated and marked modified or the fetch was sent, the handler reports a failed reservation, so the
  caller presents the same write again.
\<close>

theorem fetch_on_write_never_accepted:
  assumes "wr_miss_wa_fetch_on_write cfg addr idx mf time status x = Inr (st, x')"
  shows "st = RESERVATION_FAIL"
  using assms
  by (auto simp: wr_miss_wa_fetch_on_write_def Let_def res_simps split: if_splits prod.splits)

theorem fetch_on_write_never_accepted_witness:
  "\<exists>x'. wr_miss_wa_fetch_on_write small_config 0x1234 0 1 3 MISS (small_ctx 2) = Inr (RESERVATION_FAIL, x')"
proof -
  have "case wr_miss_wa_fetch_on_write small_config 0x1234 0 1 3 MISS (small_ctx 2) of
      Inr _ \<Rightarrow> True | Inl _ \<Rightarrow> False"
    by code_simp
  then obtain st x' where x': "wr_miss_wa_fetch_on_write small_config 0x1234 0 1 3 MISS (small_ctx 2) = Inr (st, x')"
    by (auto split: sum.splits)
  then show ?thesis
    using fetch_on_write_never_accepted [OF x'] by simp
qed

end
