(* ===== verification/Tlb.thy ===== *)
theory Tlb
  imports Cache_Core Delay_Queue
begin

text \<open>
  \<^verbatim>\<open>src/tlb.h\<close> and \<^verbatim>\<open>src/tlb.cc\<close>: the translation look-aside buffer in front of the memory of an NDP unit.
  A translation waits for the hit latency, then looks up a read-only cache of page-table entries with a request of
  its own that remembers the original one; a miss goes to memory (and, when the in-DRAM TLB is modelled, through a
  latency queue on its way back), and the original request leaves through the queue of finished
  translations. The set of in-DRAM TLB addresses belongs to the configuration and is shared, so it is part of the state
  an operation works on. The values the constructor reads from the configuration are the record of parameters.
\<close>

section \<open>Model\<close>

record tlb_config =
  tc_page_size :: int
  tc_entry_size :: int
  tc_hit_latency :: int
  tc_request_queue_size :: int
  tc_miss_handling :: bool
  tc_miss_latency :: int
  tc_use_dram_tlb :: bool
  tc_cache :: cache_config

record tlb =
  tl_id :: u32
  tl_ideal :: bool
  tl_hit_latency :: int
  tl_finished :: "ptr fifo_pipeline"
  tl_request :: "ptr delay_queue"
  tl_dram :: "ptr delay_queue"
  tl_cache :: cache

text \<open>What an operation works on: the TLB, the requests and the addresses the in-DRAM TLB has seen.\<close>

record tlb_ctx =
  tx_tlb :: tlb
  tx_store :: mf_store
  tx_accessed :: "u64 set"

definition DRAM_TLB_BASE :: u64 where "DRAM_TLB_BASE = 0x100000000000"

definition CXL_OVERHEAD :: u32 where "CXL_OVERHEAD = 8"

definition new_tlb :: "(nat \<Rightarrow> u64 \<times> u64) \<Rightarrow> u32 \<Rightarrow> tlb_config \<Rightarrow> tlb res" where
  "new_tlb junk tlb_id tc =
     res_bind (new_fifo_pipeline ''tlb_finished_mf'' 0 (word_of_int (tc_request_queue_size tc))) (\<lambda>fin.
     Inr \<lparr>tl_id = tlb_id, tl_ideal = False, tl_hit_latency = tc_hit_latency tc, tl_finished = fin,
          tl_request = new_delay_queue ''tlb_req_queue'' True (tc_request_queue_size tc),
          tl_dram = new_delay_queue ''dram_tlb_latency_queue'' True (tc_request_queue_size tc),
          tl_cache = new_cache junk ''tlb'' (tc_cache tc) tlb_id 0 False\<rparr>)"

definition set_ideal_tlb :: "tlb \<Rightarrow> tlb" where
  "set_ideal_tlb t = t\<lparr>tl_ideal := True, tl_hit_latency := 0\<rparr>"

text \<open>The sum is taken in 64 bits, since the argument is unsigned.\<close>

definition tlb_full_size :: "tlb_config \<Rightarrow> u64 \<Rightarrow> tlb \<Rightarrow> bool" where
  "tlb_full_size tc mf_size t \<longleftrightarrow>
     (word_of_int (tc_request_queue_size tc) :: u64)
       \<le> word_of_int (dq_size (tl_request t) + dq_size (tl_dram t)) + mf_size"

definition tlb_full :: "tlb_config \<Rightarrow> tlb \<Rightarrow> bool" where
  "tlb_full tc t = tlb_full_size tc 0 t"

definition get_tlb_addr :: "tlb_config \<Rightarrow> u64 \<Rightarrow> u64 res" where
  "get_tlb_addr tc addr =
     (let page_size = word_of_int (tc_page_size tc) :: u64
      in if page_size = 0 then Inl Div_By_Zero
         else Inr (addr div page_size * word_of_int (tc_entry_size tc) + DRAM_TLB_BASE))"

text \<open>The view of the cache an operation of \<^verbatim>\<open>m_tlb\<close> works on, with a fresh event list.\<close>

definition tx_cache :: "tlb_ctx \<Rightarrow> cache_ctx" where
  "tx_cache x = \<lparr>cx_cache = tl_cache (tx_tlb x), cx_store = tx_store x, cx_events = []\<rparr>"

definition tx_put :: "tlb_ctx \<Rightarrow> cache_ctx \<Rightarrow> tlb_ctx" where
  "tx_put x c = x\<lparr>tx_tlb := (tx_tlb x)\<lparr>tl_cache := cx_cache c\<rparr>, tx_store := cx_store c\<rparr>"

definition upd_tlb :: "(tlb \<Rightarrow> tlb) \<Rightarrow> tlb_ctx \<Rightarrow> tlb_ctx" where
  "upd_tlb g x = x\<lparr>tx_tlb := g (tx_tlb x)\<rparr>"

definition tx_fill :: "tlb_config \<Rightarrow> u64 \<Rightarrow> ptr \<Rightarrow> tlb_ctx \<Rightarrow> tlb_ctx res" where
  "tx_fill tc ndp_cycle mf x =
     res_bind (cache_fill (tc_cache tc) mf (ucast ndp_cycle) (tx_cache x)) (\<lambda>c. Inr (tx_put x c))"

definition tlb_fill :: "tlb_config \<Rightarrow> u64 \<Rightarrow> ptr \<Rightarrow> tlb_ctx \<Rightarrow> tlb_ctx res" where
  "tlb_fill tc ndp_cycle mf x =
     res_bind (mf_update mf (\<lambda>f. f\<lparr>mf_current_state := ''TLB Fill''\<rparr>) (tx_store x)) (\<lambda>h.
     let x = x\<lparr>tx_store := h\<rparr>
     in res_bind (mf_get h mf) (\<lambda>f.
        if \<not> tc_miss_handling tc then
          res_bind (assert_that (DRAM_TLB_BASE \<le> mf_addr f) ''mf->get_addr() >= DRAM_TLB_BASE'')
            (\<lambda>_. tx_fill tc ndp_cycle mf x)
        else if mf_addr f \<notin> tx_accessed x then
          res_bind (dq_push mf (tc_miss_latency tc) (tl_dram (tx_tlb x))) (\<lambda>q.
            Inr (upd_tlb (\<lambda>t. t\<lparr>tl_dram := q\<rparr>)
              (x\<lparr>tx_accessed := (if tc_use_dram_tlb tc then insert (mf_addr f) (tx_accessed x) else tx_accessed x)\<rparr>)))
        else tx_fill tc ndp_cycle mf x))"

definition tlb_waiting_for_fill :: "ptr \<Rightarrow> tlb \<Rightarrow> bool" where
  "tlb_waiting_for_fill mf t = waiting_for_fill mf (tl_cache t)"

definition tlb_access :: "tlb_config \<Rightarrow> ptr \<Rightarrow> tlb \<Rightarrow> tlb res" where
  "tlb_access tc mf t =
     res_bind (assert_that (\<not> tlb_full tc t) ''!full()'') (\<lambda>_.
     res_bind (dq_push mf (tl_hit_latency t) (tl_request t)) (\<lambda>q. Inr (t\<lparr>tl_request := q\<rparr>)))"

definition tlb_data_ready :: "tlb \<Rightarrow> bool" where
  "tlb_data_ready t = (\<not> fp_empty (tl_finished t))"

definition tlb_get_data :: "tlb \<Rightarrow> ptr option" where
  "tlb_get_data t = fp_top (tl_finished t)"

definition tlb_pop_data :: "tlb \<Rightarrow> tlb res" where
  "tlb_pop_data t = res_bind (fp_pop (tl_finished t)) (\<lambda>(_, q). Inr (t\<lparr>tl_finished := q\<rparr>))"

definition tlb_cycle :: "tlb \<Rightarrow> ptr fifo_pipeline \<Rightarrow> (tlb \<times> ptr fifo_pipeline) res" where
  "tlb_cycle t to_mem =
     res_bind (cache_cycle (tl_cache t) to_mem) (\<lambda>(c, to_mem).
       Inr (t\<lparr>tl_cache := c, tl_request := dq_tick (tl_request t), tl_dram := dq_tick (tl_dram t)\<rparr>, to_mem))"

text \<open>The three parts of \<^verbatim>\<open>bank_access_cycle\<close>.\<close>

definition tlb_dram_part :: "tlb_config \<Rightarrow> u64 \<Rightarrow> tlb_ctx \<Rightarrow> tlb_ctx res" where
  "tlb_dram_part tc ndp_cycle x =
     (if dq_empty (tl_dram (tx_tlb x)) then Inr x
      else
        res_bind (dq_top (tl_dram (tx_tlb x))) (\<lambda>mf.
        res_bind (tx_fill tc ndp_cycle mf x) (\<lambda>x.
        res_bind (dq_pop (tl_dram (tx_tlb x))) (\<lambda>q. Inr (upd_tlb (\<lambda>t. t\<lparr>tl_dram := q\<rparr>) x)))))"

definition tlb_response_part :: "tlb_ctx \<Rightarrow> tlb_ctx res" where
  "tlb_response_part x =
     (if ms_access_ready (ca_mshrs (tl_cache (tx_tlb x))) \<and> \<not> fp_full (tl_finished (tx_tlb x)) then
        res_bind (cache_pop_next_access (tl_cache (tx_tlb x))) (\<lambda>(mf, c).
        res_bind (mf_get (tx_store x) mf) (\<lambda>f.
        res_bind (if is_request f then set_reply f else Inr f) (\<lambda>f.
        res_bind (get_tlb_original_mf f) (\<lambda>orig.
        res_bind (fp_push orig (tl_finished (tx_tlb x))) (\<lambda>fin.
        res_bind (mf_delete mf (tx_store x)) (\<lambda>h.
          Inr (upd_tlb (\<lambda>t. t\<lparr>tl_cache := c, tl_finished := fin\<rparr>) (x\<lparr>tx_store := h\<rparr>))))))))
      else Inr x)"

definition new_tlb_request :: "tlb_config \<Rightarrow> u64 \<Rightarrow> u64 \<Rightarrow> ptr \<Rightarrow> tlb_ctx \<Rightarrow> (ptr \<times> tlb_ctx) res" where
  "new_tlb_request tc ndp_cycle tlb_addr mf x =
     (let (p, h) = new_mem_fetch tlb_addr TLB_ACC_R READ_REQUEST (word_of_int (tc_entry_size tc))
            CXL_OVERHEAD ndp_cycle (tx_store x)
      in res_bind (get_channel_index (m_m2ndp_config (tc_cache tc)) tlb_addr) (\<lambda>ch.
         res_bind (mf_update p (\<lambda>f. (set_tlb_original_mf mf (f\<lparr>mf_from_ndp := True, mf_ndp_id := tl_id (tx_tlb x)\<rparr>))
             \<lparr>mf_channel := ucast ch\<rparr>) h)
           (\<lambda>h. Inr (p, x\<lparr>tx_store := h\<rparr>))))"

definition tlb_lookup_part :: "tlb_config \<Rightarrow> u64 \<Rightarrow> tlb_ctx \<Rightarrow> tlb_ctx res" where
  "tlb_lookup_part tc ndp_cycle x =
     (if \<not> dq_empty (tl_request (tx_tlb x)) \<and> data_port_free (tl_cache (tx_tlb x)) then
        res_bind (dq_top (tl_request (tx_tlb x))) (\<lambda>mf.
        res_bind (mf_get (tx_store x) mf) (\<lambda>f.
        res_bind (get_tlb_addr tc (mf_addr f)) (\<lambda>tlb_addr.
        res_bind (new_tlb_request tc ndp_cycle tlb_addr mf x) (\<lambda>(tlb_mf, x).
        res_bind
          (if \<not> tl_ideal (tx_tlb x) then
             res_bind (read_only_access (tc_cache tc) tlb_addr (ucast ndp_cycle) tlb_mf (tx_cache x))
               (\<lambda>(stat, c). Inr (stat, tx_put x c))
           else Inr (MISS, x)) (\<lambda>(stat, x).
        let full = fp_full (tl_finished (tx_tlb x));
            pop = (\<lambda>x. res_bind (dq_pop (tl_request (tx_tlb x))) (\<lambda>q. Inr (upd_tlb (\<lambda>t. t\<lparr>tl_request := q\<rparr>) x)));
            drop_mf = (\<lambda>x. res_bind (mf_delete tlb_mf (tx_store x)) (\<lambda>h. Inr (x\<lparr>tx_store := h\<rparr>)))
        in if (stat = HIT \<or> tl_ideal (tx_tlb x)) \<and> \<not> full then
             res_bind (fp_push (Some mf) (tl_finished (tx_tlb x))) (\<lambda>fin.
             res_bind (drop_mf (upd_tlb (\<lambda>t. t\<lparr>tl_finished := fin\<rparr>) x)) pop)
           else if stat = HIT \<and> full then drop_mf x
           else if stat \<noteq> RESERVATION_FAIL then pop x
           else drop_mf x)))))
      else Inr x)"

definition bank_access_cycle :: "tlb_config \<Rightarrow> u64 \<Rightarrow> tlb_ctx \<Rightarrow> tlb_ctx res" where
  "bank_access_cycle tc ndp_cycle x =
     res_bind (tlb_dram_part tc ndp_cycle x) (\<lambda>x.
     res_bind (tlb_response_part x) (tlb_lookup_part tc ndp_cycle))"

section \<open>What the cache operations keep of the requests\<close>

text \<open>The link from a lookup request to the translation it serves.\<close>

definition links :: "mf_store \<Rightarrow> ptr \<Rightarrow> (bool \<times> ptr option) option" where
  "links h p = map_option (\<lambda>f. (mf_tlb_request f, mf_tlb_original f)) (mf_heap h p)"

definition same_links :: "mf_store \<Rightarrow> mf_store \<Rightarrow> bool" where
  "same_links h h' \<longleftrightarrow> links h' = links h \<and> mf_next h' = mf_next h"

lemma same_links_refl [simp]: "same_links h h"
  by (simp add: same_links_def)

lemma same_links_trans: "same_links h h' \<Longrightarrow> same_links h' h'' \<Longrightarrow> same_links h h''"
  by (simp add: same_links_def)

lemma links_None: "links h p = None \<longleftrightarrow> mf_heap h p = None"
  by (simp add: links_def)

lemma same_links_inv: "same_links h h' \<Longrightarrow> store_inv h' \<longleftrightarrow> store_inv h"
  unfolding store_inv_def same_links_def by (metis links_None)

lemma same_links_update:
  assumes "mf_heap h p = Some f" "mf_tlb_request g = mf_tlb_request f" "mf_tlb_original g = mf_tlb_original f"
  shows "same_links h (h\<lparr>mf_heap := (mf_heap h)(p \<mapsto> g)\<rparr>)"
  using assms by (auto simp: same_links_def links_def)

lemma fill_frame:
  assumes "cache_fill cfg p time x = Inr x'" "m_mshr_type cfg = ASSOC" "ms_inv (ca_mshrs (cx_cache x))"
  shows "same_links (cx_store x) (cx_store x')" "ms_inv (ca_mshrs (cx_cache x'))"
    "ms_requests (ca_mshrs (cx_cache x')) = ms_requests (ca_mshrs (cx_cache x))"
proof -
  obtain field h at ms where f: "ca_extra (cx_cache x) p = Some field"
    "mf_update p (\<lambda>g. g\<lparr>mf_data_size := ex_data_size field, mf_addr := ex_addr field\<rparr>) (cx_store x) = Inr h"
    "ms_mark_ready (ex_block_addr field) (ca_mshrs (cx_cache x)) = Inr (at, ms)"
    "cx_store x' = h" "ca_mshrs (cx_cache x') = ms"
    using assms(1,2)
    by (auto simp: cache_fill_def fill_resolve_def fill_found_def use_fill_port_def res_simps
        split: option.splits if_splits prod.splits)
  show "same_links (cx_store x) (cx_store x')"
    using f(2,4) by (auto simp: res_simps same_links_def links_def)
  show "ms_inv (ca_mshrs (cx_cache x'))"
    "ms_requests (ca_mshrs (cx_cache x')) = ms_requests (ca_mshrs (cx_cache x))"
    using ms_mark_ready_inv [OF assms(3) f(3)] f(5) by auto
qed

lemma probe_hit_any_idx:
  "ta_probe cfg addr idx m ta = Inr (HIT, j) \<Longrightarrow> ta_probe cfg addr idx' m ta = Inr (HIT, j)"
  by (auto simp: ta_probe_def res_simps split: sum.splits if_splits)

lemma access_hit_status:
  assumes "ta_probe cfg addr idx (mf_sector_mask f) ta = Inr (HIT, j)"
    and "ta_access_mf cfg addr time j f wb ev ta = Inr (st, k, wb', ev', ta')"
  shows "st = HIT"
proof -
  have "ta_probe cfg addr j (mf_sector_mask f) (ta\<lparr>ta_is_used := True, ta_access := ta_access ta + 1\<rparr>) = Inr (HIT, j)"
    using probe_hit_any_idx [OF assms(1)] by (simp add: ta_probe_def)
  then show ?thesis
    using assms(2) by (simp add: ta_access_mf_def Let_def res_simps)
qed

lemma merge_request_frame:
  assumes "merge_request cfg blk a idx mf time wb ev True x = Inr (idx', wb', ev', x')"
  shows "cx_store x' = cx_store x" "\<exists>at. ms_add a mf at (ca_mshrs (cx_cache x)) = Inr (ca_mshrs (cx_cache x'))"
  using assms by (auto simp: merge_request_def cx_access_simple_def res_simps)

lemma send_read_request_frame:
  assumes "send_read_request cfg addr blk idx mf time wb ev True wa x = Inr (True, wb', ev', x')"
  shows "same_links (cx_store x) (cx_store x') \<and>
    (\<exists>a at. ms_add a mf at (ca_mshrs (cx_cache x)) = Inr (ca_mshrs (cx_cache x')))"
proof -
  obtain idx' wb1 ev1 y where
    m: "merge_request cfg blk (get_mshr_addr cfg addr) idx mf time wb ev True x = Inr (idx', wb1, ev1, y)"
    and "cx_store x' = cx_store y \<or> (\<exists>f. mf_heap (cx_store y) mf = Some f \<and> cx_store x' = (cx_store y)\<lparr>mf_heap :=
      (mf_heap (cx_store y))(mf \<mapsto> f\<lparr>mf_data_size := m_atom_size cfg, mf_addr := get_mshr_addr cfg addr\<rparr>)\<rparr>)"
    and "ca_mshrs (cx_cache x') = ca_mshrs (cx_cache y)"
    using assms by (auto simp: send_read_request_def Let_def res_simps split: if_splits)
  then show ?thesis
    using merge_request_frame [OF m] by (auto simp: same_links_def links_def)
qed

text \<open>An access of the read-only cache adds the request to the MSHRs exactly if it reports a miss.\<close>

lemma read_only_access_frame:
  assumes "read_only_access cfg addr time mf x = Inr (st, x')"
  shows "same_links (cx_store x) (cx_store x')"
    "if st = MISS then \<exists>a at. ms_add a mf at (ca_mshrs (cx_cache x)) = Inr (ca_mshrs (cx_cache x'))
     else (st = HIT \<or> st = RESERVATION_FAIL) \<and> ca_mshrs (cx_cache x') = ca_mshrs (cx_cache x)"
proof -
  let ?b = "get_block_addr cfg addr"
  obtain f status idx y where f: "mf_heap (cx_store x) mf = Some f"
    and p: "ta_probe cfg ?b no_line (mf_sector_mask f) (ca_tags (cx_cache x)) = Inr (status, idx)"
    and y: "(if status = HIT then res_bind (cx_access_simple cfg ?b time idx mf x) (\<lambda>(st, _, x). Inr (st, x))
       else if status \<noteq> RESERVATION_FAIL then
         if \<not> miss_queue_full cfg 0 (cx_cache x) then
           res_bind (send_read_request_simple cfg addr ?b idx mf time True False x)
             (\<lambda>(do_miss, x). Inr (if do_miss then MISS else RESERVATION_FAIL, x))
         else Inr (RESERVATION_FAIL, count_fail (mf_access_type f) MISS_QUEUE_FULL x)
       else Inr (RESERVATION_FAIL, count_fail (mf_access_type f) LINE_ALLOC_FAIL x)) = Inr (st, y)"
    and u: "use_data_port cfg mf st (count_stat (mf_access_type f) (select_stats_status status st) y) = Inr x'"
    using assms by (auto simp: read_only_access_def Let_def res_simps split: prod.splits)
  have fr: "cx_store x' = cx_store y" "ca_mshrs (cx_cache x') = ca_mshrs (cx_cache y)"
    using use_data_port_frame [OF u] by (auto simp: core_of_def)
  have "same_links (cx_store x) (cx_store y) \<and>
    (if st = MISS then \<exists>a at. ms_add a mf at (ca_mshrs (cx_cache x)) = Inr (ca_mshrs (cx_cache y))
     else (st = HIT \<or> st = RESERVATION_FAIL) \<and> ca_mshrs (cx_cache y) = ca_mshrs (cx_cache x))"
  proof (cases "status = HIT")
    case True
    then obtain k wb ev ta where "ta_access_mf cfg ?b time idx f False no_evicted (ca_tags (cx_cache x)) = Inr (st, k, wb, ev, ta)"
      "y = upd_cache (\<lambda>c. c\<lparr>ca_tags := ta\<rparr>) x"
      using y f by (auto simp: cx_access_simple_def ta_access_simple_def res_simps)
    then show ?thesis
      using access_hit_status [OF p [unfolded True], of time False no_evicted st k wb ev ta] by simp
  next
    case False
    show ?thesis
    proof (cases "status = RESERVATION_FAIL \<or> miss_queue_full cfg 0 (cx_cache x)")
      case True
      then show ?thesis using y False by (auto split: if_splits)
    next
      case nf: False
      then obtain d wb ev where "send_read_request cfg addr ?b idx mf time False no_evicted True False x = Inr (d, wb, ev, y)"
        "st = (if d then MISS else RESERVATION_FAIL)"
        using y False by (auto simp: send_read_request_simple_def res_simps)
      then show ?thesis
        using send_read_request_frame [of cfg addr ?b idx mf time False no_evicted False x wb ev y]
          send_read_request_refused [of cfg addr ?b idx mf time False no_evicted True False x wb ev y]
        by (cases d) (auto simp: core_of_def)
    qed
  qed
  then show "same_links (cx_store x) (cx_store x')"
    "if st = MISS then \<exists>a at. ms_add a mf at (ca_mshrs (cx_cache x)) = Inr (ca_mshrs (cx_cache x'))
     else (st = HIT \<or> st = RESERVATION_FAIL) \<and> ca_mshrs (cx_cache x') = ca_mshrs (cx_cache x)"
    using fr by simp_all
qed

section \<open>The requests in flight\<close>

abbreviation tx_mshrs :: "tlb_ctx \<Rightarrow> mshr_table" where
  "tx_mshrs x \<equiv> ca_mshrs (tl_cache (tx_tlb x))"

definition origin :: "mf_store \<Rightarrow> ptr \<Rightarrow> ptr" where
  "origin h p = (case links h p of Some (_, Some q) \<Rightarrow> q | _ \<Rightarrow> 0)"

text \<open>The translations the TLB has accepted and not handed back: waiting for the lookup, for memory, or finished.\<close>

definition outstanding :: "tlb_ctx \<Rightarrow> ptr multiset" where
  "outstanding x = mset (dq_contents (tl_request (tx_tlb x)))
     + image_mset (origin (tx_store x)) (ms_requests (tx_mshrs x)) + mset (fp_data (tl_finished (tx_tlb x)))"

definition tlb_inv :: "tlb_ctx \<Rightarrow> bool" where
  "tlb_inv x \<longleftrightarrow> ms_inv (tx_mshrs x) \<and> store_inv (tx_store x) \<and> fp_plain (tl_finished (tx_tlb x)) \<and>
     (\<forall>p. p \<in># ms_requests (tx_mshrs x) \<longrightarrow> count (ms_requests (tx_mshrs x)) p = 1 \<and>
        (\<exists>q. links (tx_store x) p = Some (True, Some q)))"

lemma origin_links: "links h' = links h \<Longrightarrow> origin h' = origin h"
  by (simp add: origin_def fun_eq_iff)

lemma tlb_inv_cong:
  assumes "tlb_inv x" "ms_inv (tx_mshrs x')" "ms_requests (tx_mshrs x') = ms_requests (tx_mshrs x)"
    "same_links (tx_store x) (tx_store x')" "tl_finished (tx_tlb x') = tl_finished (tx_tlb x)"
    "dq_contents (tl_request (tx_tlb x')) = dq_contents (tl_request (tx_tlb x))"
  shows "tlb_inv x' \<and> outstanding x' = outstanding x"
proof -
  have l: "links (tx_store x') = links (tx_store x)"
    using assms(4) by (simp add: same_links_def)
  have "store_inv (tx_store x')"
    using assms(1) same_links_inv [OF assms(4)] by (simp add: tlb_inv_def)
  then show ?thesis
    using assms l origin_links [OF l] by (simp add: tlb_inv_def outstanding_def)
qed

lemma tlb_dram_part_keeps:
  assumes "tlb_inv x" "tlb_dram_part tc t x = Inr x'" "m_mshr_type (tc_cache tc) = ASSOC"
  shows "tlb_inv x' \<and> outstanding x' = outstanding x \<and> tl_ideal (tx_tlb x') = tl_ideal (tx_tlb x)"
proof (cases "dq_empty (tl_dram (tx_tlb x))")
  case True
  then show ?thesis using assms by (simp add: tlb_dram_part_def)
next
  case False
  then obtain mf c q where c: "cache_fill (tc_cache tc) mf (ucast t) (tx_cache x) = Inr c"
    "x' = upd_tlb (\<lambda>t. t\<lparr>tl_dram := q\<rparr>) (tx_put x c)"
    using assms(2) by (auto simp: tlb_dram_part_def tx_fill_def res_simps)
  have "ms_inv (ca_mshrs (cx_cache (tx_cache x)))"
    using assms(1) by (simp add: tlb_inv_def tx_cache_def)
  note fr = fill_frame [OF c(1) assms(3) this]
  have "tlb_inv x' \<and> outstanding x' = outstanding x"
    by (rule tlb_inv_cong [OF assms(1)]) (use fr c(2) in \<open>simp_all add: upd_tlb_def tx_put_def tx_cache_def\<close>)
  then show ?thesis
    using c(2) by (simp add: upd_tlb_def tx_put_def)
qed

lemma image_origin_cong:
  "(\<And>p. p \<in># M \<Longrightarrow> links h' p = links h p) \<Longrightarrow> image_mset (origin h') M = image_mset (origin h) M"
  by (rule image_mset_cong) (simp add: origin_def)

lemma links_delete: "links (h\<lparr>mf_heap := (mf_heap h)(p := None)\<rparr>) = (links h)(p := None)"
  by (auto simp: links_def fun_eq_iff)

lemma store_inv_delete: "store_inv h \<Longrightarrow> store_inv (h\<lparr>mf_heap := (mf_heap h)(p := None)\<rparr>)"
  by (simp add: store_inv_def)

lemma mf_delete_eq_Inr [res_simps]:
  "mf_delete p h = Inr h' \<longleftrightarrow> mf_heap h p \<noteq> None \<and> h' = h\<lparr>mf_heap := (mf_heap h)(p := None)\<rparr>"
  by (auto simp: mf_delete_def res_simps)

lemma tlb_response_part_keeps:
  assumes inv: "tlb_inv x" and r: "tlb_response_part x = Inr x'"
  shows "tlb_inv x' \<and> outstanding x' = outstanding x \<and> tl_ideal (tx_tlb x') = tl_ideal (tx_tlb x)"
proof (cases "ms_access_ready (tx_mshrs x) \<and> \<not> fp_full (tl_finished (tx_tlb x))")
  case False
  then show ?thesis using inv r by (auto simp: tlb_response_part_def)
next
  case True
  then obtain p ms f f' orig fin where pop: "ms_pop_next_access (tx_mshrs x) = Inr (p, ms)"
    and f: "mf_heap (tx_store x) p = Some f" "(if is_request f then set_reply f else Inr f) = Inr f'"
    and o: "get_tlb_original_mf f' = Inr orig" "fp_push orig (tl_finished (tx_tlb x)) = Inr fin"
    and x': "x' = upd_tlb (\<lambda>t. t\<lparr>tl_cache := (tl_cache (tx_tlb x))\<lparr>ca_mshrs := ms\<rparr>, tl_finished := fin\<rparr>)
       (x\<lparr>tx_store := (tx_store x)\<lparr>mf_heap := (mf_heap (tx_store x))(p := None)\<rparr>\<rparr>)"
    using r by (auto simp: tlb_response_part_def cache_pop_next_access_def res_simps)
  note mp = ms_pop_inv [OF _ pop]
  have ms: "ms_inv ms" "ms_requests (tx_mshrs x) = add_mset p (ms_requests ms)"
    using mp inv by (auto simp: tlb_inv_def)
  then obtain q where l: "links (tx_store x) p = Some (True, Some q)" and np: "p \<notin># ms_requests ms"
    using inv by (force simp: tlb_inv_def count_eq_zero_iff)
  have "mf_tlb_original f' = mf_tlb_original f" "mf_tlb_request f' = mf_tlb_request f"
    using f(2) by (auto simp: set_reply_def split: if_splits mf_type.splits)
  then have "orig = Some q"
    using o(1) f(1) l by (auto simp: get_tlb_original_mf_def links_def res_simps)
  then have fin: "fp_plain fin" "fp_data fin = fp_data (tl_finished (tx_tlb x)) @ [q]"
    using fp_push_plain [of "tl_finished (tx_tlb x)" q fin] o(2) inv by (auto simp: tlb_inv_def)
  have img: "image_mset (origin (tx_store x')) (ms_requests ms) = image_mset (origin (tx_store x)) (ms_requests ms)"
    using np by (intro image_origin_cong) (auto simp: x' upd_tlb_def links_delete)
  have "origin (tx_store x) p = q"
    using l by (simp add: origin_def)
  then have "outstanding x' = outstanding x"
    using img fin ms(2) x' by (simp add: outstanding_def upd_tlb_def)
  moreover have "tlb_inv x'"
    using inv ms fin np x' by (auto simp: tlb_inv_def upd_tlb_def links_delete store_inv_delete)
  ultimately show ?thesis
    using x' by (simp add: upd_tlb_def)
qed

lemma new_tlb_request_frame:
  assumes "new_tlb_request tc t a mf x = Inr (p, y)" "store_inv (tx_store x)"
  shows "tx_tlb y = tx_tlb x" "links (tx_store x) p = None" "store_inv (tx_store y)"
    "links (tx_store y) = (links (tx_store x))(p \<mapsto> (True, Some mf))"
  using assms
  by (auto simp: new_tlb_request_def new_mem_fetch_def new_mem_fetch_masked_def store_new_def Let_def
      res_simps links_def set_tlb_original_mf_def store_inv_def fun_eq_iff)

lemma new_tlb_request_tlb: "new_tlb_request tc t a mf x = Inr (p, y) \<Longrightarrow> tx_tlb y = tx_tlb x"
  by (auto simp: new_tlb_request_def res_simps split: prod.splits)

lemma dq_top_pop:
  assumes "dq_top q = Inr x" "dq_pop q = Inr q'"
  shows "dq_contents q = x # dq_contents q'"
  using assms by (auto simp: dq_top_def dq_pop_def dq_contents_def split: list.splits if_splits)

text \<open>The effect of a lookup, by its outcome; the lookup request is at a fresh pointer.\<close>

lemma tlb_lookup_cases [consumes 3]:
  assumes "tlb_lookup_part tc t x = Inr x'" "store_inv (tx_store x)" "\<not> tl_ideal (tx_tlb x)"
  obtains (none) "x' = x"
  | (found) mf q fin where "dq_contents (tl_request (tx_tlb x)) = mf # dq_contents q"
      "fp_push (Some mf) (tl_finished (tx_tlb x)) = Inr fin" "links (tx_store x') = links (tx_store x)"
      "store_inv (tx_store x')" "tx_mshrs x' = tx_mshrs x" "tl_request (tx_tlb x') = q" "tl_finished (tx_tlb x') = fin"
  | (again) "links (tx_store x') = links (tx_store x)" "store_inv (tx_store x')" "tx_mshrs x' = tx_mshrs x"
      "tl_request (tx_tlb x') = tl_request (tx_tlb x)" "tl_finished (tx_tlb x') = tl_finished (tx_tlb x)"
  | (sent) mf p a at q where "dq_contents (tl_request (tx_tlb x)) = mf # dq_contents q"
      "links (tx_store x) p = None" "links (tx_store x') = (links (tx_store x))(p \<mapsto> (True, Some mf))"
      "store_inv (tx_store x')" "ms_add a p at (tx_mshrs x) = Inr (tx_mshrs x')" "tl_request (tx_tlb x') = q"
      "tl_finished (tx_tlb x') = tl_finished (tx_tlb x)"
proof (cases "dq_empty (tl_request (tx_tlb x)) \<or> \<not> data_port_free (tl_cache (tx_tlb x))")
  case True
  then show ?thesis using assms(1) none by (auto simp: tlb_lookup_part_def)
next
  case False
  then obtain mf f a p y stat c where top: "dq_top (tl_request (tx_tlb x)) = Inr mf"
    and req: "new_tlb_request tc t a mf x = Inr (p, y)" and ni: "\<not> tl_ideal (tx_tlb y)"
    and acc: "read_only_access (tc_cache tc) a (ucast t) p (tx_cache y) = Inr (stat, c)"
    and rest: "(if stat = HIT \<and> \<not> fp_full (tl_finished (tx_tlb y)) then
        res_bind (fp_push (Some mf) (tl_finished (tx_tlb y))) (\<lambda>fin.
        res_bind (mf_delete p (cx_store c)) (\<lambda>h.
        res_bind (dq_pop (tl_request (tx_tlb y))) (\<lambda>q.
          Inr ((tx_put y c)\<lparr>tx_store := h, tx_tlb := (tx_tlb (tx_put y c))\<lparr>tl_finished := fin, tl_request := q\<rparr>\<rparr>))))
      else if stat = HIT \<or> stat = RESERVATION_FAIL then
        res_bind (mf_delete p (cx_store c)) (\<lambda>h. Inr ((tx_put y c)\<lparr>tx_store := h\<rparr>))
      else res_bind (dq_pop (tl_request (tx_tlb y))) (\<lambda>q.
          Inr ((tx_put y c)\<lparr>tx_tlb := (tx_tlb (tx_put y c))\<lparr>tl_request := q\<rparr>\<rparr>))) = Inr x'"
    using assms(1,3) new_tlb_request_frame(1) [OF _ assms(2)]
    by (fastforce simp: tlb_lookup_part_def Let_def res_simps tx_put_def upd_tlb_def split: if_splits)
  note n = new_tlb_request_frame [OF req assms(2)]
  note fr = read_only_access_frame [OF acc]
  have sl: "same_links (tx_store y) (cx_store c)"
    using fr(1) by (simp add: tx_cache_def)
  have st: "store_inv (cx_store c)" and lc: "links (cx_store c) = (links (tx_store x))(p \<mapsto> (True, Some mf))"
    using n sl same_links_inv [OF sl] by (auto simp: same_links_def)
  have ld: "(links (cx_store c))(p := None) = links (tx_store x)"
    using lc n(2) by (auto simp: fun_eq_iff)
  show ?thesis
  proof (cases "stat = MISS")
    case True
    then obtain q where q: "dq_pop (tl_request (tx_tlb x)) = Inr q"
      "x' = (tx_put y c)\<lparr>tx_tlb := (tx_tlb (tx_put y c))\<lparr>tl_request := q\<rparr>\<rparr>"
      using rest n(1) by (auto simp: res_simps)
    moreover obtain b at where "ms_add b p at (tx_mshrs x) = Inr (ca_mshrs (cx_cache c))"
      using fr(2) True n(1) by (auto simp: tx_cache_def)
    ultimately show ?thesis
      using sent [OF dq_top_pop [OF top q(1)] n(2)] lc st n(1) by (simp add: tx_put_def)
  next
    case False
    then have ms: "ca_mshrs (cx_cache c) = tx_mshrs x" "stat = HIT \<or> stat = RESERVATION_FAIL"
      using fr(2) n(1) by (auto simp: tx_cache_def)
    show ?thesis
    proof (cases "stat = HIT \<and> \<not> fp_full (tl_finished (tx_tlb y))")
      case True
      then obtain fin q where "fp_push (Some mf) (tl_finished (tx_tlb x)) = Inr fin" "dq_pop (tl_request (tx_tlb x)) = Inr q"
        "x' = (tx_put y c)\<lparr>tx_store := (cx_store c)\<lparr>mf_heap := (mf_heap (cx_store c))(p := None)\<rparr>,
          tx_tlb := (tx_tlb (tx_put y c))\<lparr>tl_finished := fin, tl_request := q\<rparr>\<rparr>"
        using rest n(1) by (auto simp: res_simps)
      then show ?thesis
        using found [OF dq_top_pop [OF top]] ms(1) ld st n(1)
        by (simp add: tx_put_def links_delete store_inv_delete)
    next
      case False
      then have "x' = (tx_put y c)\<lparr>tx_store := (cx_store c)\<lparr>mf_heap := (mf_heap (cx_store c))(p := None)\<rparr>\<rparr>"
        using rest ms(2) by (auto simp: res_simps)
      then show ?thesis
        using again ms(1) ld st n(1) by (simp add: tx_put_def links_delete store_inv_delete)
    qed
  qed
qed

lemma tlb_lookup_part_keeps:
  assumes inv: "tlb_inv x" and l: "tlb_lookup_part tc t x = Inr x'" and ni: "\<not> tl_ideal (tx_tlb x)"
  shows "tlb_inv x' \<and> outstanding x' = outstanding x"
proof -
  have s: "store_inv (tx_store x)" and pl: "fp_plain (tl_finished (tx_tlb x))" and mi: "ms_inv (tx_mshrs x)"
    using inv by (auto simp: tlb_inv_def)
  from l s ni show ?thesis
  proof (cases rule: tlb_lookup_cases)
    case none
    then show ?thesis using inv by simp
  next
    case (found mf q fin)
    note push = fp_push_plain [OF pl found(2)]
    show ?thesis
      using found push inv origin_links [OF found(3)] by (simp add: tlb_inv_def outstanding_def)
  next
    case again
    then show ?thesis
      using inv origin_links [OF again(1)] by (simp add: tlb_inv_def outstanding_def)
  next
    case (sent mf p a at q)
    have np: "p \<notin># ms_requests (tx_mshrs x)"
      using inv sent(2) by (auto simp: tlb_inv_def)
    note ms = ms_add_inv [OF mi sent(5)]
    have "image_mset (origin (tx_store x')) (ms_requests (tx_mshrs x)) = image_mset (origin (tx_store x)) (ms_requests (tx_mshrs x))"
      using np sent(3) by (intro image_origin_cong) auto
    moreover have "origin (tx_store x') p = mf"
      using sent(3) by (simp add: origin_def)
    ultimately have "outstanding x' = outstanding x"
      using sent(1,6,7) ms(2) by (simp add: outstanding_def)
    moreover have "tlb_inv x'"
      using inv ms np sent(3,4,7) by (auto simp: tlb_inv_def not_in_iff)
    ultimately show ?thesis by simp
  qed
qed

section \<open>An example TLB\<close>

definition small_tlb_config :: tlb_config where
  "small_tlb_config =
     \<lparr>tc_page_size = 4096, tc_entry_size = 32, tc_hit_latency = 0, tc_request_queue_size = 4, tc_miss_handling = False,
      tc_miss_latency = 0, tc_use_dram_tlb = True,
      tc_cache = projr (cache_config_init ''N:2:32:2,L:R:f:N:L,A:2:4,32:0,32'' example_addr_config)\<rparr>"

definition small_tlb_ctx :: "(tlb \<Rightarrow> tlb) \<Rightarrow> tlb_ctx" where
  "small_tlb_ctx g =
     \<lparr>tx_tlb = g (projr (tlb_access small_tlb_config 1 (projr (new_tlb (\<lambda>_. (0, 0)) 0 small_tlb_config)))),
      tx_store = snd (new_mem_fetch 0x5234 GLOBAL_ACC_R READ_REQUEST 32 8 0 empty_store), tx_accessed = {}\<rparr>"

lemma small_tlb_inv: "tlb_inv (small_tlb_ctx (\<lambda>t. t))"
  by (simp add: tlb_inv_def small_tlb_ctx_def tlb_access_def new_tlb_def tlb_full_def tlb_full_size_def
      small_tlb_config_def new_delay_queue_def dq_push_def new_cache_def new_mshr_table_def ms_inv_def ms_requests_def
      new_fifo_pipeline_def fp_plain_def fp_inv_def store_inv_def new_mem_fetch_def
      new_mem_fetch_masked_def store_new_def empty_store_def)

section \<open>Properties\<close>

text \<open>
  C6. The TLB neither loses nor duplicates a translation: in every bank cycle of a TLB that is not ideal, whether the
  lookup at the head hits, misses, is refused or finds the output full and whether answers arrive, the
  translations waiting for a lookup, waiting for memory and finished are together the same as before.
\<close>

theorem tlb_conserves_translations:
  assumes "tlb_inv x" "\<not> tl_ideal (tx_tlb x)" "m_mshr_type (tc_cache tc) = ASSOC"
    and "bank_access_cycle tc ndp_cycle x = Inr x'"
  shows "tlb_inv x' \<and> outstanding x' = outstanding x"
proof -
  obtain y z where y: "tlb_dram_part tc ndp_cycle x = Inr y" "tlb_response_part y = Inr z"
    "tlb_lookup_part tc ndp_cycle z = Inr x'"
    using assms(4) by (auto simp: bank_access_cycle_def res_simps)
  note d = tlb_dram_part_keeps [OF assms(1) y(1) assms(3)]
  note r = tlb_response_part_keeps [OF conjunct1 [OF d] y(2)]
  show ?thesis
    using tlb_lookup_part_keeps [OF conjunct1 [OF r] y(3)] d r assms(2) by simp
qed

theorem tlb_conserves_translations_witness:
  "\<exists>x'. bank_access_cycle small_tlb_config 9 (small_tlb_ctx (\<lambda>t. t)) = Inr x' \<and> outstanding x' = {#1#}"
proof -
  have "case bank_access_cycle small_tlb_config 9 (small_tlb_ctx (\<lambda>t. t)) of Inr _ \<Rightarrow> True | Inl _ \<Rightarrow> False"
    by code_simp
  then obtain x' where x': "bank_access_cycle small_tlb_config 9 (small_tlb_ctx (\<lambda>t. t)) = Inr x'"
    by (auto split: sum.splits)
  have "\<not> tl_ideal (tx_tlb (small_tlb_ctx (\<lambda>t. t)))" "m_mshr_type (tc_cache small_tlb_config) = ASSOC"
    by code_simp+
  moreover have "outstanding (small_tlb_ctx (\<lambda>t. t)) = {#1#}"
    by (simp add: outstanding_def small_tlb_ctx_def tlb_access_def new_tlb_def tlb_full_def tlb_full_size_def
        small_tlb_config_def new_delay_queue_def dq_push_def dq_contents_def new_cache_def new_mshr_table_def
        ms_requests_def new_fifo_pipeline_def fp_data_def)
  ultimately show ?thesis
    using tlb_conserves_translations [OF small_tlb_inv _ _ x'] x' by auto
qed

text \<open>
  An ideal TLB loses a translation when its output is full: the lookup counts as a miss, the request is taken
  off the queue and is neither finished nor registered with the MSHRs.
\<close>

theorem ideal_tlb_drops_translation:
  assumes "tl_ideal (tx_tlb x)" "fp_full (tl_finished (tx_tlb x))" "dq_empty (tl_dram (tx_tlb x))"
    and "dq_top (tl_request (tx_tlb x)) = Inr mf" "bank_access_cycle tc ndp_cycle x = Inr x'"
  shows "dq_contents (tl_request (tx_tlb x)) = mf # dq_contents (tl_request (tx_tlb x')) \<and>
    tl_finished (tx_tlb x') = tl_finished (tx_tlb x) \<and> tl_cache (tx_tlb x') = tl_cache (tx_tlb x)"
proof -
  have l: "tlb_lookup_part tc ndp_cycle x = Inr x'"
    using assms(2,3,5) by (simp add: bank_access_cycle_def tlb_dram_part_def tlb_response_part_def)
  have "\<not> dq_empty (tl_request (tx_tlb x))"
    using assms(4) by (auto simp: dq_top_def)
  then obtain q where "dq_pop (tl_request (tx_tlb x)) = Inr q" "tx_tlb x' = (tx_tlb x)\<lparr>tl_request := q\<rparr>"
    using l assms(1,2,4)
    by (auto simp: tlb_lookup_part_def data_port_free_def Let_def res_simps upd_tlb_def dest!: new_tlb_request_tlb)
  then show ?thesis
    using dq_top_pop [OF assms(4)] by simp
qed

theorem ideal_tlb_drops_translation_witness:
  "\<exists>x'. bank_access_cycle small_tlb_config 9
      (small_tlb_ctx (\<lambda>t. set_ideal_tlb t\<lparr>tl_finished := (tl_finished t)\<lparr>fp_max_len := 1, fp_length := 1, fp_cells := [Some 7]\<rparr>\<rparr>)) = Inr x' \<and>
    dq_contents (tl_request (tx_tlb x')) = []"
proof -
  let ?x = "small_tlb_ctx (\<lambda>t. set_ideal_tlb t\<lparr>tl_finished := (tl_finished t)\<lparr>fp_max_len := 1, fp_length := 1, fp_cells := [Some 7]\<rparr>\<rparr>)"
  have "case bank_access_cycle small_tlb_config 9 ?x of Inr _ \<Rightarrow> True | Inl _ \<Rightarrow> False"
    by code_simp
  then obtain x' where x': "bank_access_cycle small_tlb_config 9 ?x = Inr x'"
    by (auto split: sum.splits)
  have "tl_ideal (tx_tlb ?x)" "fp_full (tl_finished (tx_tlb ?x))" "dq_empty (tl_dram (tx_tlb ?x))"
    "dq_top (tl_request (tx_tlb ?x)) = Inr 1" "dq_contents (tl_request (tx_tlb ?x)) = [1]"
    by code_simp+
  then show ?thesis
    using ideal_tlb_drops_translation [OF _ _ _ _ x'] x' by fastforce
qed

end
