(* ===== verification/Instruction.thy ===== *)
theory Instruction
  imports NDP_Prelude
begin

text \<open>
  \<^verbatim>\<open>src/ndp_instruction.h\<close> and the classification part of \<^verbatim>\<open>src/ndp_instruction.cc\<close>: the opcodes of the NDP
  units, the mnemonics of the assembler, the operand kinds, the instruction record and the predicates by which the
  pipeline decides how to treat an instruction; and the requests, instruction columns and kernels of
  \<^verbatim>\<open>src/common.h\<close> that carry instructions. The opcode enumeration is split into the groups its comments name,
  with one constructor per group around them. Source operands, the destination and immediates are 64-bit integers
  in the code and here integers: they are register numbers and small immediates.
\<close>

section \<open>Opcodes\<close>

datatype scalar_opcode =
    INVALID_INST | NOP | ADD | ADDI | SUB | MUL | MULI | SLL | SLLI | SRL | SRLI | DIV | REM
  | AND_op | ANDI | OR_op | ORI | CSRW | CSRWI | LI | LB | LW | LD | LBU | SB | SD | SW | FADD
  | FSUB | FDIV | FMUL | FMV | FLW | FSW | NUM_SCALAR_OPCODES

datatype vector_opcode =
    VSETVLI | VADD | VSUB | VRSUB | VMUL | VDIV | VSLL | VSRL | VSRA | VNADD | VMV | VFADD | VFSUB
  | VFRSUB | VFMUL | VFDIV | VFRDIV | VFMACC | VFMSUB | VFWMACC | VFNCVT | VFCVT | VFWCVT
  | VFWSUB | VFWMUL | VFREDOSUM | VWREDOSUM | VFREDOMAX | VWREDOMAX | VFMV | VFSQRT | VMIN | VMAX

datatype vmem_opcode =
    VLE8 | VSE8 | VLE16 | VSE16 | VLE32 | VSE32 | VLE64 | VSE64 | VAMOADDEI8 | VAMOADDEI16
  | VAMOADDEI32 | VAMOADDEI64 | VAMOANDEI16 | VAMOANDEI32 | VAMOOREI16 | VAMOOREI32 | VAMOMAXEI16
  | VAMOMAXEI32 | VAMOMINEI16 | VAMOMINEI32 | AMOADD | AMOMAX | FAMOADD | FAMOADDH | FAMOMAX

datatype vmask_opcode =
    VID | VMSET | VMSEQ | VMSNE | VMSLT | VMSGT | VMSLE | VMSGE | VMAND | VMOR | VCOMPRESS | VAND
  | VOR | VFIRST | NUM_VECTOR_OPCODES

datatype vextra_opcode =
    VLSSEG | VSLIDE1DOWN | VSLIDEDOWN | VSLIDE1UP | VSLIDEUP | VREDSUM | VREDMAX | VREDMIN
  | VREDAND | VREDOR | VLUXEI32 | VLUXEI64 | VSUXEI32 | VSUXEI64 | VFSGNJ | VFSGNJN | VFSGNJX

datatype branch_opcode =
    J | BEQ | BEQZ | BGT | BGTZ | BLT | BLTZ | BLE | BLEZ | BGE | BGEZ | BNE | BNEZ

datatype special_opcode =
    FEXP | VFEXP | TEST | EXIT

datatype Opcode =
    Scalar scalar_opcode
  | Vector vector_opcode
  | Vmem vmem_opcode
  | Vmask vmask_opcode
  | Vextra vextra_opcode
  | Branch branch_opcode
  | Special special_opcode

definition opcode_type_map :: "(string \<times> Opcode) list" where
  "opcode_type_map =
    [(''add'', Scalar ADD), (''addi'', Scalar ADDI), (''sub'', Scalar SUB), (''mul'', Scalar MUL),
     (''muli'', Scalar MULI), (''sll'', Scalar SLL), (''slli'', Scalar SLLI), (''srl'', Scalar SRL),
     (''srli'', Scalar SRLI), (''div'', Scalar DIV), (''rem'', Scalar REM), (''and'', Scalar AND_op),
     (''andi'', Scalar ANDI), (''or'', Scalar OR_op), (''ori'', Scalar ORI), (''csrw'', Scalar CSRW),
     (''csrwi'', Scalar CSRWI), (''li'', Scalar LI), (''lb'', Scalar LB), (''lw'', Scalar LW),
     (''ld'', Scalar LD), (''lbu'', Scalar LBU), (''sb'', Scalar SB), (''sd'', Scalar SD),
     (''sw'', Scalar SW), (''fadd'', Scalar FADD), (''fsub'', Scalar FSUB), (''fmul'', Scalar FMUL),
     (''fdiv'', Scalar FDIV), (''fmv'', Scalar FMV), (''flw'', Scalar FLW), (''fsw'', Scalar FSW),
     (''vsetvli'', Vector VSETVLI), (''vadd'', Vector VADD), (''vsub'', Vector VSUB),
     (''vrsub'', Vector VRSUB), (''vmul'', Vector VMUL), (''vdiv'', Vector VDIV), (''vsll'', Vector VSLL),
     (''vsrl'', Vector VSRL), (''vsra'', Vector VSRA), (''vnadd'', Vector VNADD),
     (''vfrdiv'', Vector VFRDIV), (''vmv'', Vector VMV), (''vfadd'', Vector VFADD),
     (''vfsub'', Vector VFSUB), (''vfrsub'', Vector VFRSUB), (''vfmul'', Vector VFMUL),
     (''vfwmul'', Vector VFWMUL), (''vfdiv'', Vector VFDIV), (''vfmacc'', Vector VFMACC),
     (''vfmsub'', Vector VFMSUB), (''vfwmacc'', Vector VFWMACC), (''vfncvt'', Vector VFNCVT),
     (''vfcvt'', Vector VFCVT), (''vfwcvt'', Vector VFWCVT), (''vfwsub'', Vector VFWSUB),
     (''vfwmul'', Vector VFWMUL), (''vfredosum'', Vector VFREDOSUM), (''vwredosum'', Vector VWREDOSUM),
     (''vfredomax'', Vector VFREDOMAX), (''vwredomax'', Vector VWREDOMAX), (''vfmv'', Vector VFMV),
     (''vfsqrt'', Vector VFSQRT), (''vmin'', Vector VMIN), (''vmax'', Vector VMAX), (''vle8'', Vmem VLE8),
     (''vse8'', Vmem VSE8), (''vle16'', Vmem VLE16), (''vse16'', Vmem VSE16), (''vle32'', Vmem VLE32),
     (''vse32'', Vmem VSE32), (''vle64'', Vmem VLE64), (''vse64'', Vmem VSE64),
     (''vamoaddei8'', Vmem VAMOADDEI8), (''vamoaddei16'', Vmem VAMOADDEI16),
     (''vamoaddei32'', Vmem VAMOADDEI32), (''vamoaddei64'', Vmem VAMOADDEI64),
     (''vamoandei16'', Vmem VAMOANDEI16), (''vamoandei32'', Vmem VAMOANDEI32),
     (''vamoorei16'', Vmem VAMOOREI16), (''vamoorei32'', Vmem VAMOOREI32),
     (''vamomaxei16'', Vmem VAMOMAXEI16), (''vamomaxei32'', Vmem VAMOMAXEI32),
     (''vamominei16'', Vmem VAMOMINEI16), (''vamominei32'', Vmem VAMOMINEI32), (''amoadd'', Vmem AMOADD),
     (''amomax'', Vmem AMOMAX), (''famoadd'', Vmem FAMOADD), (''famoaddh'', Vmem FAMOADDH),
     (''famomax'', Vmem FAMOMAX), (''vid'', Vmask VID), (''vmset'', Vmask VMSET), (''vmseq'', Vmask VMSEQ),
     (''vmsne'', Vmask VMSNE), (''vmslt'', Vmask VMSLT), (''vmsgt'', Vmask VMSGT), (''vmsle'', Vmask VMSLE),
     (''vmsge'', Vmask VMSGE), (''vmand'', Vmask VMAND), (''vmor'', Vmask VMOR),
     (''vcompress'', Vmask VCOMPRESS), (''vand'', Vmask VAND), (''vor'', Vmask VOR),
     (''vfirst'', Vmask VFIRST), (''vlsseg'', Vextra VLSSEG), (''vslide1down'', Vextra VSLIDE1DOWN),
     (''vslidedown'', Vextra VSLIDEDOWN), (''vslide1up'', Vextra VSLIDE1UP),
     (''vslideup'', Vextra VSLIDEUP), (''vredsum'', Vextra VREDSUM), (''vredmax'', Vextra VREDMAX),
     (''vredmin'', Vextra VREDMIN), (''vredand'', Vextra VREDAND), (''vredor'', Vextra VREDOR),
     (''vfsgnj'', Vextra VFSGNJ), (''vfsgnjn'', Vextra VFSGNJN), (''vfsgnjx'', Vextra VFSGNJX),
     (''j'', Branch J), (''beq'', Branch BEQ), (''beqz'', Branch BEQZ), (''bgt'', Branch BGT),
     (''bgtz'', Branch BGTZ), (''blt'', Branch BLT), (''ble'', Branch BLE), (''bltz'', Branch BLTZ),
     (''blez'', Branch BLEZ), (''bge'', Branch BGE), (''bgez'', Branch BGEZ), (''bne'', Branch BNE),
     (''bnez'', Branch BNEZ), (''vluxei32'', Vextra VLUXEI32), (''vluxei64'', Vextra VLUXEI64),
     (''vsuxei32'', Vextra VSUXEI32), (''vsuxei64'', Vextra VSUXEI64), (''fexp'', Special FEXP),
     (''vfexp'', Special VFEXP), (''TEST'', Special TEST), (''EXIT'', Special EXIT)]"

datatype OperandType =
    OT_NONE | OT_V | OT_WV | OT_VV | OT_VI | OT_VX | OT_VF | OT_VS | OT_V_V | OT_V_X | OT_V_I | OT_V_F |
  OT_F_S | OT_S_F | OT_XU_F_V | OT_X_F_V | OT_F_XU_V | OT_F_X_V | OT_F_F_V | OT_F_F_W | OT_XU_F_W |
  OT_X_F_W | OT_F_XU_W | OT_F_X_W | OT_VM | OT_M | OT_MM | OT_X_S | OT_S_X | OT_X_W | OT_W_X | OT_WX |
  OT_D | OT_W

definition operand_type_map :: "(string \<times> OperandType) list" where
  "operand_type_map =
    [(''v'', OT_V), (''wv'', OT_WV), (''vv'', OT_VV), (''vi'', OT_VI), (''vx'', OT_VX), (''vf'', OT_VF),
     (''vs'', OT_VS), (''v.v'', OT_V_V), (''v.x'', OT_V_X), (''v.i'', OT_V_I), (''v.f'', OT_V_F),
     (''f.s'', OT_F_S), (''s.f'', OT_S_F), (''xu.f.v'', OT_XU_F_V), (''x.f.v'', OT_X_F_V),
     (''f.xu.v'', OT_F_XU_V), (''f.x.v'', OT_F_X_V), (''f.f.v'', OT_F_F_V), (''f.f.w'', OT_F_F_W),
     (''vm'', OT_VM), (''m'', OT_M), (''mm'', OT_MM), (''x.s'', OT_X_S), (''s.x'', OT_S_X),
     (''x.w'', OT_X_W), (''w.x'', OT_W_X), (''wx'', OT_WX), (''d'', OT_D), (''w'', OT_W)]"

datatype AluOpType =
    INT_ADD_OP | INT_MAX_OP | INT_MUL_OP | INT_MAD_OP | INT_DIV_OP | FP_ADD_OP | FP_MAX_OP | FP_MUL_OP
  | FP_MAD_OP | FP_DIV_OP | SFU_OP | INT_REDUCE_OP | FP_REDUCE_OP | LDST_OP | ADDRESS_OP | NUM_ALU_OP_TYPE

datatype ArithOp =
    ARITH_ADD | ARITH_SUB | ARITH_MUL | ARITH_DIV | ARITH_MIN | ARITH_MAX | ARITH_REM | ARITH_MOD
  | ARITH_SHL | ARITH_SHR | ARITH_AND | ARITH_OR | ARITH_XOR

section \<open>Registers and immediates\<close>

definition REG_X_BASE :: int where "REG_X_BASE = 100000"
definition REG_F_BASE :: int where "REG_F_BASE = 150000"
definition REG_V_BASE :: int where "REG_V_BASE = 200000"
definition REG_PX_BASE :: int where "REG_PX_BASE = 300000"
definition REG_PF_BASE :: int where "REG_PF_BASE = 350000"
definition REG_PV_BASE :: int where "REG_PV_BASE = 400000"
definition SPCIAL_REG_START :: int where "SPCIAL_REG_START = 1500000"
definition REG_NDP_ID :: int where "REG_NDP_ID = SPCIAL_REG_START + 1"
definition REG_REQUEST_OFFSET :: int where "REG_REQUEST_OFFSET = SPCIAL_REG_START + 2"
definition REG_ADDR :: int where "REG_ADDR = SPCIAL_REG_START + 4"
definition REG_X0 :: int where "REG_X0 = SPCIAL_REG_START + 6"
definition SPECIAL_IMMEDIATE_START :: int where "SPECIAL_IMMEDIATE_START = 1600000"
definition IMM_M1 :: int where "IMM_M1 = SPECIAL_IMMEDIATE_START + 8"
definition IMM_M2 :: int where "IMM_M2 = SPECIAL_IMMEDIATE_START + 9"

lemmas reg_consts =
  REG_X_BASE_def REG_F_BASE_def REG_V_BASE_def REG_PX_BASE_def REG_PF_BASE_def REG_PV_BASE_def
  SPCIAL_REG_START_def REG_NDP_ID_def REG_REQUEST_OFFSET_def REG_ADDR_def REG_X0_def
  SPECIAL_IMMEDIATE_START_def IMM_M1_def IMM_M2_def

section \<open>Instructions\<close>

text \<open>The time stamps and the set of addresses an execution touches are left out.\<close>

record ndp_instruction =
  sInst :: string
  opcode :: Opcode
  operand_type :: OperandType
  src :: "int list"
  dest :: int
  segDest :: "int list"
  segCnt :: int
  last_inst :: bool
  double_reg :: bool
  doBranch :: bool

text \<open>A new instruction: the initialiser of \<^verbatim>\<open>src\<close> sets the first element only, the others become 0.\<close>

definition new_instruction :: "string \<Rightarrow> Opcode \<Rightarrow> OperandType \<Rightarrow> int \<Rightarrow> int list \<Rightarrow> ndp_instruction" where
  "new_instruction text op ty d seg =
     \<lparr>sInst = text, opcode = op, operand_type = ty, src = [- 1, 0, 0, 0, 0], dest = d, segDest = seg, segCnt = 0,
      last_inst = False, double_reg = False, doBranch = False\<rparr>"

definition float_ops :: "Opcode set" where
  "float_ops =
     set [Scalar FADD, Scalar FSUB, Scalar FDIV, Scalar FMUL, Scalar FMV, Scalar FLW, Scalar FSW, Vector VFADD,
          Vector VFSUB, Vector VFRSUB, Vector VFMUL, Vector VFWMUL, Vector VFDIV, Vector VFMACC, Vector VFWMACC,
          Vector VFNCVT, Vector VFCVT, Vector VFWCVT, Vector VFMV, Vector VFREDOMAX, Vector VFREDOSUM,
          Special FEXP, Special VFEXP, Vector VFWSUB, Vector VFMSUB, Vector VFSQRT]"

definition vector_ops :: "Opcode set" where
  "vector_ops =
     set [Vector VADD, Vector VSUB, Vector VSRL, Vector VRSUB, Vector VMUL, Vector VDIV, Vector VMV,
          Vector VFADD, Vector VFSUB, Vector VFRSUB, Vector VFMUL, Vector VFWMUL, Vector VFDIV, Vector VFRDIV,
          Vector VFMACC, Vector VFWMACC, Vector VFNCVT, Vector VFCVT, Vector VFWCVT, Vector VFMV,
          Vector VFREDOMAX, Vector VFREDOSUM, Vector VWREDOSUM, Vector VWREDOMAX, Vector VMIN, Vector VMAX,
          Vmem VLE8, Vmem VSE8, Vmem VSE16, Vmem VLE32, Vmem VSE32, Vmem VLE64, Vmem VSE64, Vmem VAMOADDEI8,
          Vmem VAMOADDEI16, Vmem VLE16, Vmem VAMOADDEI32, Vmem VAMOADDEI64, Vmem VAMOANDEI16, Vmem VAMOANDEI32,
          Vmem VAMOOREI16, Vmem VAMOOREI32, Vmem VAMOMAXEI16, Vmem VAMOMAXEI32, Vmem VAMOMINEI16,
          Vmem VAMOMINEI32, Vmask VAND, Vmask VOR, Vmask VFIRST, Special TEST, Vextra VSLIDE1DOWN,
          Vextra VSLIDEDOWN, Vextra VSLIDE1UP, Vextra VSLIDEUP, Vextra VREDSUM, Vextra VREDMAX, Vextra VREDMIN,
          Vextra VREDAND, Vextra VREDOR, Vextra VLUXEI32, Vextra VSUXEI32, Vextra VLUXEI64, Vextra VSUXEI64,
          Vextra VLSSEG, Vmask VMSET, Vmask VMSEQ, Vmask VMSNE, Vmask VMSLT, Vmask VMSGT, Vmask VMSLE,
          Vmask VMSGE, Vmask VMAND, Vmask VMOR, Vmask VCOMPRESS, Vector VNADD, Vector VSLL, Vmask VID,
          Special VFEXP, Vextra VFSGNJ, Vextra VFSGNJN, Vextra VFSGNJX, Vector VFWSUB, Vector VFMSUB,
          Vector VFSQRT]"

definition narrowing_ops :: "Opcode set" where
  "narrowing_ops =
     set [Vector VFNCVT]"

definition widening_ops :: "Opcode set" where
  "widening_ops =
     set [Vector VFWMACC, Vector VFWCVT, Vector VFWSUB, Vector VFWMUL, Vector VWREDOSUM, Vector VWREDOMAX]"

definition amo_ops :: "Opcode set" where
  "amo_ops =
     set [Vmem VAMOADDEI16, Vmem VAMOADDEI32, Vmem VAMOADDEI64, Vmem VAMOANDEI16, Vmem VAMOANDEI32,
          Vmem VAMOOREI16, Vmem VAMOOREI32, Vmem VAMOMAXEI16, Vmem VAMOMAXEI32, Vmem VAMOMINEI16,
          Vmem VAMOMINEI32, Vmem AMOADD, Vmem AMOMAX, Vmem FAMOADD, Vmem FAMOMAX, Vmem VAMOADDEI8, Vmem FAMOADDH]"

definition csr_ops :: "Opcode set" where
  "csr_ops =
     set [Vector VSETVLI]"

definition vmask_ops :: "Opcode set" where
  "vmask_ops =
     set [Vmask VMSEQ, Vmask VMSNE, Vmask VMSLT, Vmask VMSGT, Vmask VMSLE, Vmask VMSGE]"

definition seg_ops :: "Opcode set" where
  "seg_ops =
     set [Vextra VLSSEG]"

definition branch_ops :: "Opcode set" where
  "branch_ops =
     set [Branch J, Branch BEQ, Branch BEQZ, Branch BGT, Branch BLEZ, Branch BGTZ, Branch BLT, Branch BLE,
          Branch BLTZ, Branch BGE, Branch BGEZ, Branch BNE, Branch BNEZ]"

definition CheckScalarOp :: "ndp_instruction \<Rightarrow> bool" where
  "CheckScalarOp i \<longleftrightarrow> opcode i \<notin> vector_ops"

definition CheckFloatOp :: "ndp_instruction \<Rightarrow> bool" where
  "CheckFloatOp i \<longleftrightarrow> opcode i \<in> float_ops"

definition CheckVectorOp :: "ndp_instruction \<Rightarrow> bool" where
  "CheckVectorOp i \<longleftrightarrow> opcode i \<in> vector_ops"

definition CheckNarrowingOp :: "ndp_instruction \<Rightarrow> bool" where
  "CheckNarrowingOp i \<longleftrightarrow> opcode i \<in> narrowing_ops"

definition CheckWideningOp :: "ndp_instruction \<Rightarrow> bool" where
  "CheckWideningOp i \<longleftrightarrow> opcode i \<in> widening_ops"

definition CheckAmoOp :: "ndp_instruction \<Rightarrow> bool" where
  "CheckAmoOp i \<longleftrightarrow> opcode i \<in> amo_ops"

definition CheckCsrOp :: "ndp_instruction \<Rightarrow> bool" where
  "CheckCsrOp i \<longleftrightarrow> opcode i \<in> csr_ops"

definition CheckVmaskOp :: "ndp_instruction \<Rightarrow> bool" where
  "CheckVmaskOp i \<longleftrightarrow> opcode i \<in> vmask_ops"

definition CheckSegOp :: "ndp_instruction \<Rightarrow> bool" where
  "CheckSegOp i \<longleftrightarrow> opcode i \<in> seg_ops"

definition CheckLoadOp :: "ndp_instruction \<Rightarrow> bool" where
  "CheckLoadOp i \<longleftrightarrow>
     opcode i \<in> set [Vmem VLE8, Vmem VLE16, Vmem VLE32, Vmem VLE64, Scalar LW, Scalar LD, Scalar LB, Scalar FLW,
       Vextra VLUXEI32, Vextra VLUXEI64, Vextra VLSSEG] \<or> CheckAmoOp i"

definition CheckStoreOp :: "ndp_instruction \<Rightarrow> bool" where
  "CheckStoreOp i \<longleftrightarrow>
     opcode i \<in> set [Vmem VSE8, Vmem VSE16, Vmem VSE32, Vmem VSE64, Scalar SW, Scalar SD, Scalar SB, Scalar FSW,
       Vextra VSUXEI32]"

definition CheckDestWrite :: "ndp_instruction \<Rightarrow> bool" where
  "CheckDestWrite i \<longleftrightarrow>
     \<not> (opcode i \<in> set [Vector VSETVLI, Scalar CSRWI, Scalar CSRW] \<or> CheckStoreOp i \<or> CheckAmoOp i)"

definition GetAluOpType :: "ndp_instruction \<Rightarrow> AluOpType" where
  "GetAluOpType i =
     (if CheckLoadOp i \<or> CheckStoreOp i then ADDRESS_OP
      else if opcode i \<in> set [Scalar DIV, Scalar FDIV, Vector VDIV, Vector VFDIV, Special VFEXP, Special FEXP, Vector VFSQRT]
      then SFU_OP
      else if CheckFloatOp i then
        if opcode i \<in> set [Vector VFMACC, Vector VFMSUB] then FP_MAD_OP
        else if opcode i = Vector VMAX then FP_MAX_OP
        else if opcode i \<in> set [Scalar FMUL, Vector VFMUL] then FP_MUL_OP
        else FP_ADD_OP
      else if opcode i \<in> set [Scalar MUL, Scalar MULI, Vector VMUL] then INT_MUL_OP
      else INT_ADD_OP)"

definition GetArithOp :: "ndp_instruction \<Rightarrow> ArithOp res" where
  "GetArithOp i =
     (if opcode i \<in> set [Vmem VAMOADDEI8, Vmem VAMOADDEI16, Vmem VAMOADDEI32, Vmem VAMOADDEI64] then Inr ARITH_ADD
      else if opcode i \<in> set [Vmem VAMOANDEI16, Vmem VAMOANDEI32] then Inr ARITH_AND
      else if opcode i \<in> set [Vmem VAMOOREI16, Vmem VAMOOREI32] then Inr ARITH_OR
      else if opcode i \<in> set [Vmem VAMOMAXEI16, Vmem VAMOMAXEI32] then Inr ARITH_MAX
      else if opcode i \<in> set [Vmem VAMOMINEI16, Vmem VAMOMINEI32] then Inr ARITH_MIN
      else Inl (Assert_Fail ''0''))"

definition CheckBranchOp :: "ndp_instruction \<Rightarrow> bool" where
  "CheckBranchOp i \<longleftrightarrow> opcode i \<in> branch_ops"

definition CheckIndexedOp :: "ndp_instruction \<Rightarrow> bool" where
  "CheckIndexedOp i \<longleftrightarrow> opcode i = Vextra VLUXEI32 \<or> opcode i = Vextra VSUXEI32"

section \<open>What carries instructions\<close>

datatype RequestType = INITIALIZER | KERNEL_BODY | FINALIZER

record request_info =
  ri_type :: RequestType
  ri_id :: u64
  ri_launch_id :: u64
  ri_kernel_id :: u32
  ri_kernel_body_id :: u32
  ri_addr :: u64
  ri_offset :: u64

text \<open>The vector control block of a column is not used by the components modelled here and is left out.\<close>

record inst_column =
  ic_id :: int
  ic_kernel_id :: int
  ic_type :: RequestType
  ic_insts :: "ndp_instruction list"
  ic_loop_map :: "(int \<times> int) list"
  ic_req :: request_info
  ic_xregs :: int
  ic_fregs :: int
  ic_vregs :: int
  ic_base_addr :: u64

record ndp_kernel =
  nk_valid :: bool
  nk_active :: bool
  nk_kernel_id :: int
  nk_kernel_name :: string
  nk_initializer_regs :: "int \<times> int \<times> int"
  nk_kernel_body_regs :: "(int \<times> int \<times> int) list"
  nk_finalizer_regs :: "int \<times> int \<times> int"
  nk_num_kernel_bodies :: int
  nk_initializer_insts :: "ndp_instruction list"
  nk_kernel_body_insts :: "ndp_instruction list list"
  nk_loop_map :: "(int \<times> int) list"
  nk_finalizer_insts :: "ndp_instruction list"

section \<open>Properties\<close>

text \<open>The opcodes that read or write memory, by their mnemonics.\<close>

definition memory_opcodes :: "Opcode list" where
  "memory_opcodes =
     [Scalar LB, Scalar LW, Scalar LD, Scalar LBU, Scalar SB, Scalar SD, Scalar SW, Scalar FLW, Scalar FSW,
      Vmem VLE8, Vmem VSE8, Vmem VLE16, Vmem VSE16, Vmem VLE32, Vmem VSE32, Vmem VLE64, Vmem VSE64,
      Vextra VLUXEI32, Vextra VLUXEI64, Vextra VSUXEI32, Vextra VSUXEI64, Vextra VLSSEG,
      Vmem VAMOADDEI8, Vmem VAMOADDEI16, Vmem VAMOADDEI32, Vmem VAMOADDEI64, Vmem VAMOANDEI16, Vmem VAMOANDEI32,
      Vmem VAMOOREI16, Vmem VAMOOREI32, Vmem VAMOMAXEI16, Vmem VAMOMAXEI32, Vmem VAMOMINEI16, Vmem VAMOMINEI32,
      Vmem AMOADD, Vmem AMOMAX, Vmem FAMOADD, Vmem FAMOADDH, Vmem FAMOMAX]"

text \<open>
  The pipeline recognises the memory instructions by \<^verbatim>\<open>GetAluOpType\<close>: an instruction is sent to address
  generation exactly if its opcode reads or writes memory, except for the byte load \<^verbatim>\<open>lbu\<close> and the indexed
  64-bit store \<^verbatim>\<open>vsuxei64\<close>, which no predicate counts as a memory access.
\<close>

theorem address_ops_are_memory_ops:
  "GetAluOpType i = ADDRESS_OP \<longleftrightarrow>
     opcode i \<in> set memory_opcodes \<and> opcode i \<noteq> Scalar LBU \<and> opcode i \<noteq> Vextra VSUXEI64"
  by (auto simp: GetAluOpType_def CheckLoadOp_def CheckStoreOp_def CheckAmoOp_def amo_ops_def memory_opcodes_def
      split: if_splits)

end
