(* ===== verification/Register_Unit.thy ===== *)
theory Register_Unit
  imports Instruction Alist_Sums
begin

text \<open>
  \<^verbatim>\<open>src/register_unit.h\<close> and \<^verbatim>\<open>src/register_unit.cc\<close>: register renaming of an NDP unit. Each of the three
  register classes has a free list of physical registers and a map from packets to bindings of architectural to
  physical registers; the code writes the operations on them out three times, here they are one definition on a
  \<open>reg_file\<close> and three instances. A vector register may own a second one (\<^verbatim>\<open>m_double_vreg\<close>). Maps are
  association lists with distinct keys; the order in which the hash map \<^verbatim>\<open>robin_hood::unordered_map\<close> runs over
  a binding is a parameter. Floating-point values are of any type. The accesses to the vector register values
  (\<^verbatim>\<open>ReadVreg\<close>, \<^verbatim>\<open>WriteVreg\<close>) are in \<open>Vector_Registers\<close>.
\<close>

declare map_of_eq_Some_iff [simp del]

section \<open>State\<close>

type_synonym register_binding = "(int \<times> int) list"
type_synonym register_map = "(int \<times> register_binding) list"

record reg_file =
  rf_free :: "int list"
  rf_map :: register_map

datatype reg_stat = X_READ | F_READ | V_READ | X_WRITE | F_WRITE | V_WRITE

record 'f register_unit =
  ru_num_xregs :: int
  ru_num_fregs :: int
  ru_num_vregs :: int
  ru_stats :: "reg_stat \<Rightarrow> u32"
  ru_cvt_vlmul :: int
  ru_x :: reg_file
  ru_f :: reg_file
  ru_v :: reg_file
  ru_double :: register_binding
  ru_xreg_table :: "u64 list"
  ru_freg_table :: "'f list"
  ru_after_rename :: "inst_column list"
  ru_not_ready :: "int set"

definition phys_regs :: "int \<Rightarrow> int \<Rightarrow> int list" where
  "phys_regs base n = map (\<lambda>v. base + int v) [0..<nat n]"

definition new_register_unit :: "'f \<Rightarrow> int \<Rightarrow> int \<Rightarrow> int \<Rightarrow> int \<Rightarrow> 'f register_unit" where
  "new_register_unit zero junk_vlmul num_xreg num_freg num_vreg =
     \<lparr>ru_num_xregs = num_xreg, ru_num_fregs = num_freg, ru_num_vregs = num_vreg, ru_stats = (\<lambda>_. 0),
      ru_cvt_vlmul = junk_vlmul,
      ru_x = \<lparr>rf_free = phys_regs REG_PX_BASE num_xreg, rf_map = []\<rparr>,
      ru_f = \<lparr>rf_free = phys_regs REG_PF_BASE num_freg, rf_map = []\<rparr>,
      ru_v = \<lparr>rf_free = phys_regs REG_PV_BASE num_vreg, rf_map = []\<rparr>,
      ru_double = [], ru_xreg_table = replicate (nat num_xreg) 0, ru_freg_table = replicate (nat num_freg) zero,
      ru_after_rename = [], ru_not_ready = {}\<rparr>"

section \<open>Register files\<close>

text \<open>The binding of a packet; a packet without one has the empty binding.\<close>

definition binding :: "int \<Rightarrow> reg_file \<Rightarrow> register_binding" where
  "binding key rf = (case map_of (rf_map rf) key of None \<Rightarrow> [] | Some b \<Rightarrow> b)"

definition CheckSpecialReg :: "int \<Rightarrow> bool" where
  "CheckSpecialReg reg \<longleftrightarrow> SPCIAL_REG_START < reg"

definition LookUp :: "int \<Rightarrow> int \<Rightarrow> reg_file \<Rightarrow> int res" where
  "LookUp key reg rf =
     (case map_of (binding key rf) reg of
        Some p \<Rightarrow> Inr p
      | None \<Rightarrow> if CheckSpecialReg reg then Inr reg else Inl (Runtime_Error ''Register not found''))"

text \<open>\<^verbatim>\<open>front()\<close> and \<^verbatim>\<open>pop_front()\<close> of a free list.\<close>

definition rf_take :: "reg_file \<Rightarrow> (int \<times> reg_file) res" where
  "rf_take rf = (case rf_free rf of [] \<Rightarrow> Inl Empty_Deque | p # ps \<Rightarrow> Inr (p, rf\<lparr>rf_free := ps\<rparr>))"

text \<open>\<^verbatim>\<open>mapping[key][reg] = p\<close>.\<close>

definition rf_bind :: "int \<Rightarrow> int \<Rightarrow> int \<Rightarrow> reg_file \<Rightarrow> reg_file" where
  "rf_bind key reg p rf =
     rf\<lparr>rf_map := AList.update key (AList.update reg p (binding key rf)) (rf_map rf)\<rparr>"

definition rf_dest :: "int \<Rightarrow> int \<Rightarrow> reg_file \<Rightarrow> (int \<times> reg_file) res" where
  "rf_dest key reg rf =
     (case map_of (binding key rf) reg of
        Some p \<Rightarrow> Inr (p, rf)
      | None \<Rightarrow> res_bind (rf_take rf) (\<lambda>(p, rf). Inr (p, rf_bind key reg p rf)))"

section \<open>Renaming\<close>

definition LookUpX :: "int \<Rightarrow> int \<Rightarrow> 'f register_unit \<Rightarrow> int res" where
  "LookUpX key reg u = LookUp key reg (ru_x u)"

definition LookUpF :: "int \<Rightarrow> int \<Rightarrow> 'f register_unit \<Rightarrow> int res" where
  "LookUpF key reg u = LookUp key reg (ru_f u)"

definition LookUpV :: "int \<Rightarrow> int \<Rightarrow> 'f register_unit \<Rightarrow> int res" where
  "LookUpV key reg u = LookUp key reg (ru_v u)"

definition DestRenameX :: "int \<Rightarrow> ndp_instruction \<Rightarrow> 'f register_unit \<Rightarrow> (int \<times> 'f register_unit) res" where
  "DestRenameX key inst u = res_bind (rf_dest key (dest inst) (ru_x u)) (\<lambda>(p, rf). Inr (p, u\<lparr>ru_x := rf\<rparr>))"

definition DestRenameF :: "int \<Rightarrow> ndp_instruction \<Rightarrow> 'f register_unit \<Rightarrow> (int \<times> 'f register_unit) res" where
  "DestRenameF key inst u = res_bind (rf_dest key (dest inst) (ru_f u)) (\<lambda>(p, rf). Inr (p, u\<lparr>ru_f := rf\<rparr>))"

definition CheckDoubleReg :: "int \<Rightarrow> 'f register_unit \<Rightarrow> bool" where
  "CheckDoubleReg reg u \<longleftrightarrow> \<not> reg < REG_PV_BASE \<and> map_of (ru_double u) reg \<noteq> None"

text \<open>The vector destination: a new register, and a second one under the given condition.\<close>

definition dest_v :: "int \<Rightarrow> int \<Rightarrow> ('f register_unit \<Rightarrow> bool) \<Rightarrow> 'f register_unit \<Rightarrow> (int \<times> 'f register_unit) res" where
  "dest_v key reg dbl u =
     (case map_of (binding key (ru_v u)) reg of
        Some p \<Rightarrow> Inr (p, u)
      | None \<Rightarrow>
          res_bind (rf_take (ru_v u)) (\<lambda>(p, rf).
          let u = u\<lparr>ru_v := rf_bind key reg p rf\<rparr>
          in if dbl u then
               res_bind (rf_take (ru_v u)) (\<lambda>(q, rf).
                 Inr (p, u\<lparr>ru_v := rf, ru_double := AList.update p q (ru_double u)\<rparr>))
             else Inr (p, u)))"

definition needs_double :: "ndp_instruction \<Rightarrow> 'f register_unit \<Rightarrow> bool" where
  "needs_double inst u \<longleftrightarrow>
     \<not> CheckNarrowingOp inst \<and> CheckDoubleReg (src inst ! 0) u \<or>
     CheckWideningOp inst \<and> \<not> CheckDoubleReg (src inst ! 0) u"

definition DestRenameV :: "int \<Rightarrow> ndp_instruction \<Rightarrow> 'f register_unit \<Rightarrow> (int \<times> 'f register_unit) res" where
  "DestRenameV key inst u =
     dest_v key (dest inst) (\<lambda>u. needs_double inst u \<or> ru_cvt_vlmul u = IMM_M2) u"

definition DestRenameSegV :: "int \<Rightarrow> ndp_instruction \<Rightarrow> nat \<Rightarrow> 'f register_unit \<Rightarrow> (int \<times> 'f register_unit) res" where
  "DestRenameSegV key inst index u = dest_v key (segDest inst ! index) (needs_double inst) u"

definition CheckExistVreg :: "int \<Rightarrow> int \<Rightarrow> 'f register_unit \<Rightarrow> bool" where
  "CheckExistVreg key reg u \<longleftrightarrow> map_of (binding key (ru_v u)) reg \<noteq> None"

definition CheckExistRenameVreg :: "int \<Rightarrow> 'f register_unit \<Rightarrow> bool" where
  "CheckExistRenameVreg reg u \<longleftrightarrow> reg \<notin> set (rf_free (ru_v u))"

definition GetAnother :: "int \<Rightarrow> 'f register_unit \<Rightarrow> int res" where
  "GetAnother reg u =
     res_bind (assert_that (CheckDoubleReg reg u) ''CheckDoubleReg(reg)'') (\<lambda>_.
     res_bind (assert_that (REG_PV_BASE \<le> reg \<and> reg < REG_PV_BASE + ru_num_vregs u) ''reg in range'') (\<lambda>_.
     Inr (the (map_of (ru_double u) reg))))"

text \<open>
  The steps of \<^verbatim>\<open>Convert\<close> on one instruction: the instruction as read (\<open>inst\<close>), and the renamed copy threaded
  with the unit. Every step renames one operand; the order of the steps is the order of the statements.
\<close>

type_synonym 'f rename_state = "ndp_instruction \<times> 'f register_unit"
type_synonym 'f rename_step = "'f rename_state \<Rightarrow> 'f rename_state res"

definition set_src :: "nat \<Rightarrow> int \<Rightarrow> ndp_instruction \<Rightarrow> ndp_instruction" where
  "set_src i p r = r\<lparr>src := (src r)[i := p]\<rparr>"

definition src_x :: "int \<Rightarrow> ndp_instruction \<Rightarrow> nat \<Rightarrow> 'f rename_step" where
  "src_x key inst i = (\<lambda>(r, u). res_bind (LookUpX key (src inst ! i) u) (\<lambda>p. Inr (set_src i p r, u)))"

definition src_f :: "int \<Rightarrow> ndp_instruction \<Rightarrow> nat \<Rightarrow> 'f rename_step" where
  "src_f key inst i = (\<lambda>(r, u). res_bind (LookUpF key (src inst ! i) u) (\<lambda>p. Inr (set_src i p r, u)))"

definition src_v :: "int \<Rightarrow> ndp_instruction \<Rightarrow> nat \<Rightarrow> 'f rename_step" where
  "src_v key inst i = (\<lambda>(r, u). res_bind (LookUpV key (src inst ! i) u) (\<lambda>p. Inr (set_src i p r, u)))"

definition read_dest :: "(int \<Rightarrow> int \<Rightarrow> 'f register_unit \<Rightarrow> int res) \<Rightarrow> int \<Rightarrow> ndp_instruction \<Rightarrow> 'f rename_step" where
  "read_dest look key inst = (\<lambda>(r, u). res_bind (look key (dest inst) u) (\<lambda>p. Inr (r\<lparr>dest := p\<rparr>, u)))"

definition dest_step ::
  "(int \<Rightarrow> ndp_instruction \<Rightarrow> 'f register_unit \<Rightarrow> (int \<times> 'f register_unit) res) \<Rightarrow> int \<Rightarrow> ndp_instruction
    \<Rightarrow> 'f rename_step" where
  "dest_step ren key inst = (\<lambda>(r, u). res_bind (ren key inst u) (\<lambda>(p, u). Inr (r\<lparr>dest := p\<rparr>, u)))"

text \<open>\<^verbatim>\<open>DestRenameV(key, renamed)\<close>: the destination renamed for the copy, whose sources are physical by then.\<close>

definition dest_v_renamed :: "int \<Rightarrow> 'f rename_step" where
  "dest_v_renamed key = (\<lambda>(r, u). dest_step DestRenameV key r (r, u))"

definition seg_step :: "int \<Rightarrow> nat \<Rightarrow> 'f rename_step" where
  "seg_step key i = (\<lambda>(r, u). res_bind (DestRenameSegV key r i u)
     (\<lambda>(p, u). Inr (r\<lparr>segDest := (segDest r)[i := p]\<rparr>, u)))"

definition when_step :: "bool \<Rightarrow> 'f rename_step \<Rightarrow> 'f rename_step" where
  "when_step b f = (\<lambda>s. if b then f s else Inr s)"

definition steps :: "'f rename_step list \<Rightarrow> 'f rename_step" where
  "steps fs s = res_foldl (\<lambda>s f. f s) s fs"

definition rename_branch :: "int \<Rightarrow> ndp_instruction \<Rightarrow> 'f rename_step" where
  "rename_branch key inst =
     (if opcode inst = Branch J then steps []
      else steps [src_x key inst 0,
        when_step (opcode inst \<in> set [Branch BEQ, Branch BGT, Branch BLT, Branch BNE, Branch BLE, Branch BGE]) (src_x key inst 1)])"

definition rename_seg :: "int \<Rightarrow> ndp_instruction \<Rightarrow> 'f rename_step" where
  "rename_seg key inst =
     (if operand_type inst = OT_V then
        steps ([src_x key inst 0, src_v key inst 1, dest_v_renamed key] @ map (seg_step key) [0..<nat (segCnt inst)])
      else steps [])"

text \<open>The operand kind \<^verbatim>\<open>V\<close>: loads, stores, atomics and a few unary operations.\<close>

definition rename_v :: "int \<Rightarrow> ndp_instruction \<Rightarrow> 'f rename_step" where
  "rename_v key inst =
     (let op = opcode inst
      in if op = Vector VFSQRT then steps [dest_step DestRenameV key inst, src_v key inst 0, src_v key inst 1]
         else if op = Vmask VID \<or> op = Special VFEXP then steps [src_v key inst 0, dest_step DestRenameV key inst]
         else steps [src_x key inst 0,
           if op \<in> set [Vmem VSE8, Vmem VSE16, Vmem VSE32, Vmem VSE64] then read_dest LookUpV key inst
           else if op \<in> set [Vmem VLE8, Vmem VLE16, Vmem VLE32, Vmem VLE64] then dest_step DestRenameV key inst
           else if op = Vextra VLUXEI32 \<or> op = Vextra VLUXEI64 then
             steps [dest_step DestRenameV key inst, src_v key inst 2, when_step (src inst ! 3 \<noteq> - 1) (src_v key inst 3)]
           else if op = Vextra VSUXEI32 \<or> op = Vextra VSUXEI64 then
             steps [src_x key inst 0, read_dest LookUpV key inst, src_v key inst 2, src_v key inst 3]
           else if CheckAmoOp inst then
             steps [if REG_V_BASE \<le> dest inst \<and> dest inst < REG_PX_BASE then read_dest LookUpV key inst
                    else (\<lambda>(r, u). Inr (r\<lparr>dest := - 1\<rparr>, u)),
                    src_x key inst 0, src_v key inst 1, src_v key inst 2, when_step (src inst ! 3 \<noteq> - 1) (src_v key inst 3)]
           else steps [src_v key inst 1, src_v key inst 2]])"

definition rename_vector :: "int \<Rightarrow> ndp_instruction \<Rightarrow> 'f rename_step" where
  "rename_vector key inst =
     (let op = opcode inst; ty = operand_type inst
      in if ty = OT_M then
           if op = Vmask VMSET then dest_step DestRenameV key inst
           else if op = Vmask VFIRST then steps [dest_step DestRenameX key inst, src_v key inst 0]
           else steps []
         else if ty = OT_X_S then steps [dest_step DestRenameX key inst, src_v key inst 0]
         else if ty = OT_V then rename_v key inst
         else if ty \<in> set [OT_WV, OT_VV, OT_VS, OT_VM, OT_MM] then
           steps [src_v key inst 0, src_v key inst 1,
             (\<lambda>(r, u). when_step (CheckExistVreg key (src inst ! 2) u) (src_v key inst 2) (r, u)),
             dest_step DestRenameV key inst]
         else if ty \<in> set [OT_VI, OT_V_V, OT_XU_F_V, OT_X_F_V, OT_F_XU_V, OT_F_X_V, OT_F_F_V, OT_F_F_W] then
           steps [src_v key inst 0, dest_v_renamed key]
         else if ty = OT_V_I then steps [when_step (src inst ! 1 \<noteq> - 1) (src_v key inst 1), dest_v_renamed key]
         else if ty = OT_V_X \<or> ty = OT_S_X then
           steps [src_x key inst 0, when_step (src inst ! 1 \<noteq> - 1) (src_v key inst 1), dest_v_renamed key]
         else if ty = OT_VX \<or> ty = OT_WX then steps [src_v key inst 0, src_x key inst 1, dest_v_renamed key]
         else if ty = OT_VF then
           steps ((if op = Vector VFMSUB then [src_f key inst 0, src_v key inst 1]
                   else [src_v key inst 0, src_f key inst 1]) @ [dest_v_renamed key])
         else if ty = OT_S_F \<or> ty = OT_V_F then steps [src_f key inst 0, dest_v_renamed key]
         else if ty = OT_F_S then steps [src_v key inst 0, (\<lambda>(r, u). dest_step DestRenameF key r (r, u))]
         else steps [])"

definition rename_scalar :: "int \<Rightarrow> ndp_instruction \<Rightarrow> 'f rename_step" where
  "rename_scalar key inst =
     (let op = opcode inst
      in if op \<in> set [Scalar ADD, Scalar SUB, Scalar MUL, Scalar DIV, Scalar REM, Scalar AND_op, Scalar SLL,
             Scalar SRL, Scalar OR_op] then
           steps [src_x key inst 0, src_x key inst 1, dest_step DestRenameX key inst]
         else if op \<in> set [Scalar ADDI, Scalar MULI, Scalar ANDI, Scalar SLLI, Scalar SRLI, Scalar ORI] then
           steps [src_x key inst 0, dest_step DestRenameX key inst]
         else if op = Scalar LI then dest_step DestRenameX key inst
         else if op \<in> set [Scalar LBU, Scalar LB, Scalar LW, Scalar LD] then
           steps [src_x key inst 0, dest_step DestRenameX key inst]
         else if op \<in> set [Scalar SB, Scalar SW, Scalar SD] then steps [src_x key inst 0, read_dest LookUpX key inst]
         else if op = Vmem AMOADD \<or> op = Vmem AMOMAX then
           steps [dest_step DestRenameX key inst, src_x key inst 1, src_x key inst 2]
         else if op \<in> set [Vmem FAMOADD, Vmem FAMOADDH, Vmem FAMOMAX] then
           steps [dest_step DestRenameF key inst, src_f key inst 1, src_x key inst 2]
         else if op = Scalar CSRW then src_x key inst 0
         else if op \<in> set [Scalar FADD, Scalar FSUB, Scalar FDIV, Scalar FMUL] then
           steps [src_f key inst 0, src_f key inst 1, dest_step DestRenameF key inst]
         else if op = Scalar FLW then steps [src_x key inst 0, dest_step DestRenameF key inst]
         else if op = Scalar FSW then steps [src_x key inst 0, read_dest LookUpF key inst]
         else if op = Scalar FMV then
           if operand_type inst = OT_X_W then steps [src_f key inst 0, dest_step DestRenameX key inst]
           else if operand_type inst = OT_W_X then steps [src_x key inst 0, dest_step DestRenameF key inst]
           else steps []
         else if op = Special FEXP then steps [src_f key inst 0, dest_step DestRenameF key inst]
         else steps [])"

definition rename_inst :: "int \<Rightarrow> ndp_instruction \<Rightarrow> 'f rename_step" where
  "rename_inst key inst = (\<lambda>(r, u).
     (if CheckBranchOp inst then rename_branch key inst
      else if CheckSegOp inst then rename_seg key inst
      else if CheckVectorOp inst then rename_vector key inst
      else rename_scalar key inst)
     (r, if opcode inst = Vector VSETVLI then u\<lparr>ru_cvt_vlmul := src inst ! 2\<rparr> else u))"

definition convert_step ::
  "int \<Rightarrow> ndp_instruction list \<times> 'f register_unit \<Rightarrow> ndp_instruction \<Rightarrow> (ndp_instruction list \<times> 'f register_unit) res" where
  "convert_step key = (\<lambda>(out, u) inst. res_bind (rename_inst key inst (inst, u)) (\<lambda>(r, u). Inr (out @ [r], u)))"

text \<open>The initial values of \<^verbatim>\<open>x1\<close> and \<^verbatim>\<open>x2\<close>: a fresh register, bound and written.\<close>

definition bind_initial :: "int \<Rightarrow> int \<Rightarrow> u64 \<Rightarrow> 'f register_unit \<Rightarrow> 'f register_unit res" where
  "bind_initial key reg val u =
     res_bind (rf_take (ru_x u)) (\<lambda>(p, rf).
       let i = nat (p - REG_PX_BASE)
       in if i < length (ru_xreg_table u) then
            Inr (u\<lparr>ru_x := rf_bind key reg p rf, ru_xreg_table := (ru_xreg_table u)[i := val]\<rparr>)
          else Inl Out_Of_Range)"

definition Convert ::
  "ndp_instruction list \<Rightarrow> int \<Rightarrow> request_info \<Rightarrow> 'f register_unit \<Rightarrow> (ndp_instruction list \<times> 'f register_unit) res" where
  "Convert insts packet_id req u =
     res_bind (bind_initial packet_id (REG_X_BASE + 1) (ri_addr req) u) (\<lambda>u.
     res_bind (bind_initial packet_id (REG_X_BASE + 2) (ri_offset req) u) (\<lambda>u.
     res_foldl (convert_step packet_id) ([], u\<lparr>ru_cvt_vlmul := IMM_M1\<rparr>) insts))"

section \<open>The operations of the unit\<close>

text \<open>The counts are compared after conversion to an unsigned 64-bit size.\<close>

definition exceeds :: "int \<Rightarrow> int list \<Rightarrow> bool" where
  "exceeds n free \<longleftrightarrow> (of_nat (length free) :: u64) < word_of_int n"

definition RenameFull :: "inst_column \<Rightarrow> 'f register_unit \<Rightarrow> bool" where
  "RenameFull c u \<longleftrightarrow> exceeds (ic_xregs c) (rf_free (ru_x u)) \<or> exceeds (ic_fregs c) (rf_free (ru_f u)) \<or>
     exceeds (ic_vregs c) (rf_free (ru_v u))"

definition RenamePush :: "inst_column \<Rightarrow> int \<Rightarrow> 'f register_unit \<Rightarrow> 'f register_unit res" where
  "RenamePush c packet_id u =
     res_bind (assert_that (\<not> RenameFull c u) ''!RenameFull(inst_column)'') (\<lambda>_.
     res_bind (Convert (ic_insts c) packet_id (ic_req c) u) (\<lambda>(insts, u).
     Inr (u\<lparr>ru_after_rename := ru_after_rename u @ [c\<lparr>ic_insts := insts\<rparr>]\<rparr>)))"

definition RenameEmpty :: "'f register_unit \<Rightarrow> bool" where
  "RenameEmpty u \<longleftrightarrow> ru_after_rename u = []"

definition RenameTop :: "'f register_unit \<Rightarrow> inst_column res" where
  "RenameTop u = (case ru_after_rename u of [] \<Rightarrow> Inl Empty_Deque | c # _ \<Rightarrow> Inr c)"

definition RenamePop :: "'f register_unit \<Rightarrow> 'f register_unit res" where
  "RenamePop u = (case ru_after_rename u of [] \<Rightarrow> Inl Empty_Deque | _ # cs \<Rightarrow> Inr (u\<lparr>ru_after_rename := cs\<rparr>))"

definition CheckReady :: "int \<Rightarrow> 'f register_unit \<Rightarrow> bool" where
  "CheckReady reg u \<longleftrightarrow> reg \<notin> ru_not_ready u"

definition SetNotReady :: "int \<Rightarrow> 'f register_unit \<Rightarrow> 'f register_unit" where
  "SetNotReady reg u = u\<lparr>ru_not_ready := insert reg (ru_not_ready u)\<rparr>"

definition SetReady :: "int \<Rightarrow> 'f register_unit \<Rightarrow> 'f register_unit" where
  "SetReady reg u = u\<lparr>ru_not_ready := ru_not_ready u - {reg}\<rparr>"

text \<open>
  \<^verbatim>\<open>FreeRegs\<close>. \<open>order\<close> is the order in which the hash map runs over a binding. A vector register gives its
  second register back with it.
\<close>

definition rf_release :: "(register_binding \<Rightarrow> register_binding) \<Rightarrow> int \<Rightarrow> reg_file \<Rightarrow> reg_file" where
  "rf_release order key rf =
     \<lparr>rf_free = rf_free rf @ map snd (order (binding key rf)), rf_map = AList.delete key (rf_map rf)\<rparr>"

definition release_v :: "'f register_unit \<Rightarrow> int \<times> int \<Rightarrow> 'f register_unit" where
  "release_v u b =
     (let reg = snd b; u' = u\<lparr>ru_v := (ru_v u)\<lparr>rf_free := rf_free (ru_v u) @ [reg]\<rparr>\<rparr>
      in if CheckDoubleReg reg u' then
           u'\<lparr>ru_v := (ru_v u')\<lparr>rf_free := rf_free (ru_v u') @ [the (map_of (ru_double u') reg)]\<rparr>,
              ru_double := AList.delete reg (ru_double u')\<rparr>
         else u')"

definition FreeRegs :: "(register_binding \<Rightarrow> register_binding) \<Rightarrow> int \<Rightarrow> 'f register_unit \<Rightarrow> 'f register_unit" where
  "FreeRegs order packet_id u =
     (let u = u\<lparr>ru_x := rf_release order packet_id (ru_x u), ru_f := rf_release order packet_id (ru_f u)\<rparr>;
          u = foldl release_v u (order (binding packet_id (ru_v u)))
      in u\<lparr>ru_v := (ru_v u)\<lparr>rf_map := AList.delete packet_id (rf_map (ru_v u))\<rparr>\<rparr>)"

section \<open>Scalar register values\<close>

definition count_reg :: "reg_stat \<Rightarrow> 'f register_unit \<Rightarrow> 'f register_unit" where
  "count_reg st u = u\<lparr>ru_stats := (ru_stats u)(st := ru_stats u st + 1)\<rparr>"

definition IsXreg :: "int \<Rightarrow> 'f register_unit \<Rightarrow> bool" where
  "IsXreg reg u \<longleftrightarrow> REG_PX_BASE \<le> reg \<and> reg < REG_PX_BASE + ru_num_xregs u"

definition IsFreg :: "int \<Rightarrow> 'f register_unit \<Rightarrow> bool" where
  "IsFreg reg u \<longleftrightarrow> REG_PF_BASE \<le> reg \<and> reg < REG_PF_BASE + ru_num_fregs u"

definition IsVreg :: "int \<Rightarrow> 'f register_unit \<Rightarrow> bool" where
  "IsVreg reg u \<longleftrightarrow> REG_PV_BASE \<le> reg \<and> reg < REG_PV_BASE + ru_num_vregs u"

definition ReadXreg :: "int \<Rightarrow> u64 \<Rightarrow> request_info \<Rightarrow> 'f register_unit \<Rightarrow> (u64 \<times> 'f register_unit) res" where
  "ReadXreg reg ndp_id req u =
     res_bind
       (if reg = REG_NDP_ID then Inr ndp_id
        else if reg = REG_ADDR then Inr (ri_addr req)
        else if reg = REG_REQUEST_OFFSET then Inr (ri_offset req)
        else if reg = REG_X0 then Inr 0
        else if IsXreg reg u then Inr (ru_xreg_table u ! nat (reg - REG_PX_BASE))
        else Inl (Runtime_Error ''RegisterUnit::ReadXreg: Invalid register''))
       (\<lambda>v. Inr (v, count_reg X_READ u))"

definition WriteXreg :: "int \<Rightarrow> u64 \<Rightarrow> 'f register_unit \<Rightarrow> 'f register_unit res" where
  "WriteXreg reg value u =
     (if IsXreg reg u then
        Inr (count_reg X_WRITE (u\<lparr>ru_xreg_table := (ru_xreg_table u)[nat (reg - REG_PX_BASE) := value]\<rparr>))
      else Inl (Runtime_Error ''RegisterUnit::WriteXreg: Invalid register''))"

definition ReadFreg :: "int \<Rightarrow> 'f register_unit \<Rightarrow> ('f \<times> 'f register_unit) res" where
  "ReadFreg reg u =
     (if IsFreg reg u then Inr (ru_freg_table u ! nat (reg - REG_PF_BASE), count_reg F_READ u)
      else Inl (Runtime_Error ''RegisterUnit::ReadFreg: Invalid register''))"

definition WriteFreg :: "int \<Rightarrow> 'f \<Rightarrow> 'f register_unit \<Rightarrow> 'f register_unit res" where
  "WriteFreg reg value u =
     (if IsFreg reg u then
        Inr (count_reg F_WRITE (u\<lparr>ru_freg_table := (ru_freg_table u)[nat (reg - REG_PF_BASE) := value]\<rparr>))
      else Inl (Runtime_Error ''RegisterUnit::WriteFreg: Invalid register''))"

section \<open>Ownership of physical registers\<close>

definition regs_of :: "register_binding \<Rightarrow> int multiset" where
  "regs_of b = (\<Sum>(r, p)\<leftarrow>b. {#p#})"

definition bound :: "reg_file \<Rightarrow> int multiset" where
  "bound rf = (\<Sum>(k, b)\<leftarrow>rf_map rf. regs_of b)"

definition rf_wf :: "reg_file \<Rightarrow> bool" where
  "rf_wf rf \<longleftrightarrow> distinct (map fst (rf_map rf)) \<and>
     (\<forall>k b. map_of (rf_map rf) k = Some b \<longrightarrow> distinct (map fst b))"

lemma regs_of_mset: "regs_of b = mset (map snd b)"
  by (induction b) (auto simp: regs_of_def)

lemma regs_of_simps [simp]: "regs_of [] = {#}"
  by (simp add: regs_of_def)

lemma regs_of_insert: "map_of b r = None \<Longrightarrow> regs_of (AList.update r p b) = add_mset p (regs_of b)"
  unfolding regs_of_def using sum_list_insert(1) [of b r "\<lambda>p. {#p#}" p] by simp

lemma regs_of_delete:
  "distinct (map fst b) \<Longrightarrow> map_of b r = Some p \<Longrightarrow> regs_of b = add_mset p (regs_of (AList.delete r b))"
  unfolding regs_of_def using sum_list_delete [of b r p "\<lambda>p. {#p#}"] by simp

lemma regs_of_member: "p \<in># regs_of b \<longleftrightarrow> p \<in> snd ` set b"
  by (simp add: regs_of_mset)

lemma binding_distinct: "rf_wf rf \<Longrightarrow> distinct (map fst (binding key rf))"
  by (auto simp: rf_wf_def binding_def split: option.splits)

lemma bound_delete: "rf_wf rf \<Longrightarrow> bound rf = regs_of (binding key rf) + bound (rf\<lparr>rf_map := AList.delete key (rf_map rf)\<rparr>)"
proof (cases "map_of (rf_map rf) key")
  case None
  then have "AList.delete key (rf_map rf) = rf_map rf"
    by (intro delete_absent) (auto simp: map_of_eq_None_iff)
  then show ?thesis using None by (simp add: binding_def bound_def)
next
  case (Some b)
  assume "rf_wf rf"
  then show ?thesis
    using Some sum_list_delete [of "rf_map rf" key b regs_of]
    by (simp add: binding_def bound_def rf_wf_def add.commute)
qed

lemma rf_wf_delete: "rf_wf rf \<Longrightarrow> rf_wf (rf\<lparr>rf_map := AList.delete key (rf_map rf)\<rparr>)"
  by (auto simp: rf_wf_def AList.distinct_delete AList.delete_conv' split: if_splits)

lemma rf_bind_facts:
  assumes "rf_wf rf" "map_of (binding key rf) reg = None"
  shows "rf_wf (rf_bind key reg p rf)" "bound (rf_bind key reg p rf) = add_mset p (bound rf)"
    "rf_free (rf_bind key reg p rf) = rf_free rf"
proof -
  let ?b = "AList.update reg p (binding key rf)"
  have d: "distinct (map fst ?b)"
    using binding_distinct [OF assms(1)] by (rule AList.distinct_update)
  then show "rf_wf (rf_bind key reg p rf)"
    using assms(1) by (auto simp: rf_wf_def rf_bind_def AList.distinct_update AList.update_conv' split: if_splits)
  have n: "regs_of ?b = add_mset p (regs_of (binding key rf))"
    by (rule regs_of_insert [OF assms(2)])
  show "bound (rf_bind key reg p rf) = add_mset p (bound rf)"
  proof (cases "map_of (rf_map rf) key")
    case None
    then show ?thesis
      using n sum_list_insert(1) [OF None, of regs_of ?b] by (simp add: bound_def rf_bind_def binding_def)
  next
    case (Some b)
    then show ?thesis
      using n sum_list_update [of "rf_map rf" key b regs_of ?b] assms(1)
      by (simp add: bound_def rf_bind_def binding_def rf_wf_def)
  qed
  show "rf_free (rf_bind key reg p rf) = rf_free rf"
    by (simp add: rf_bind_def)
qed

text \<open>A register file with the physical registers it owns.\<close>

definition rf_inv :: "int list \<Rightarrow> reg_file \<Rightarrow> bool" where
  "rf_inv regs rf \<longleftrightarrow> rf_wf rf \<and> mset (rf_free rf) + bound rf = mset regs"

lemma rf_take_eq:
  "rf_take rf = Inr (p, rf') \<longleftrightarrow> (\<exists>ps. rf_free rf = p # ps \<and> rf' = rf\<lparr>rf_free := ps\<rparr>)"
  by (auto simp: rf_take_def split: list.splits)

lemma rf_take_simps [simp]:
  "bound (rf\<lparr>rf_free := ps\<rparr>) = bound rf" "rf_wf (rf\<lparr>rf_free := ps\<rparr>) = rf_wf rf"
  "binding key (rf\<lparr>rf_free := ps\<rparr>) = binding key rf"
  by (simp_all add: bound_def rf_wf_def binding_def)

lemma rf_dest_inv:
  assumes "rf_inv regs rf" "rf_dest key reg rf = Inr (p, rf')"
  shows "rf_inv regs rf'" "map_of (binding key rf') reg = Some p"
proof -
  have "rf_inv regs rf' \<and> map_of (binding key rf') reg = Some p"
  proof (cases "map_of (binding key rf) reg")
    case (Some q)
    then show ?thesis using assms by (simp add: rf_dest_def)
  next
    case None
    then obtain ps where ps: "rf_free rf = p # ps" "rf' = rf_bind key reg p (rf\<lparr>rf_free := ps\<rparr>)"
      using assms(2) by (auto simp: rf_dest_def res_simps rf_take_eq)
    have "rf_wf (rf\<lparr>rf_free := ps\<rparr>)" "map_of (binding key (rf\<lparr>rf_free := ps\<rparr>)) reg = None"
      using assms(1) None by (simp_all add: rf_inv_def)
    note b = rf_bind_facts [OF this, of p]
    have "map_of (binding key rf') reg = Some p"
      using ps(2) by (simp add: rf_bind_def binding_def AList.update_conv')
    then show ?thesis
      using assms(1) ps b by (simp add: rf_inv_def)
  qed
  then show "rf_inv regs rf'" "map_of (binding key rf') reg = Some p"
    by auto
qed

lemma rf_release_inv:
  assumes "rf_inv regs rf" "\<And>b. mset (order b) = mset b"
  shows "rf_inv regs (rf_release order key rf)"
proof -
  have "mset (map snd (order (binding key rf))) = regs_of (binding key rf)"
    using assms(2) by (metis mset_map regs_of_mset)
  then show ?thesis
    using assms(1) rf_wf_delete [of rf key] bound_delete [of rf key]
    by (auto simp: rf_inv_def rf_release_def bound_def rf_wf_def ac_simps)
qed

text \<open>A physical register is bound to at most one architectural register of one packet.\<close>

lemma bound_injective:
  assumes wf: "rf_wf rf" and one: "count (bound rf) p \<le> 1"
    and p: "map_of (binding k rf) r = Some p" "map_of (binding k' rf) r' = Some p"
  shows "k = k' \<and> r = r'"
proof -
  have b: "bound rf = regs_of (binding k rf) + bound (rf\<lparr>rf_map := AList.delete k (rf_map rf)\<rparr>)"
    by (rule bound_delete [OF wf])
  have in1: "p \<in># regs_of (AList.delete r'' (binding k'' rf))"
    if "map_of (binding k'' rf) r1 = Some p" "r1 \<noteq> r''" for k'' r1 r''
    using that by (auto simp: regs_of_member AList.delete_eq image_iff dest!: map_of_SomeD intro!: bexI [of _ "(r1, p)"])
  have k: "k = k'"
  proof (rule ccontr)
    assume "k \<noteq> k'"
    then have "binding k' (rf\<lparr>rf_map := AList.delete k (rf_map rf)\<rparr>) = binding k' rf"
      by (simp add: binding_def AList.delete_conv')
    then have "p \<in># bound (rf\<lparr>rf_map := AList.delete k (rf_map rf)\<rparr>)"
      using bound_delete [OF rf_wf_delete [OF wf], of k k'] map_of_SomeD [OF p(2)]
      by (force simp: regs_of_member)
    moreover have "p \<in># regs_of (binding k rf)"
      using map_of_SomeD [OF p(1)] by (force simp: regs_of_member)
    ultimately have "2 \<le> count (bound rf) p"
      using b by (simp add: Suc_le_eq flip: count_greater_zero_iff)
    then show False using one by simp
  qed
  have "r = r'"
  proof (rule ccontr)
    assume "r \<noteq> r'"
    then have "p \<in># regs_of (AList.delete r (binding k rf))"
      using in1 [of k r' r] p(2) k by simp
    then have "2 \<le> count (bound rf) p"
      using b regs_of_delete [OF binding_distinct [OF wf] p(1)]
      by (simp flip: count_greater_zero_iff)
    then show False using one by simp
  qed
  then show ?thesis using k by simp
qed

lemma count_part: "A + B = mset regs \<Longrightarrow> distinct regs \<Longrightarrow> count A p \<le> 1"
  by (metis count_mset_0_iff count_union distinct_count_atmost_1 le_add1 le_zero_eq nat_le_linear)

section \<open>The invariant of the unit\<close>

definition phys_v :: "int \<Rightarrow> int list" where
  "phys_v n = phys_regs REG_PV_BASE n"

text \<open>The vector file shares its registers with the second halves of double registers.\<close>

definition v_inv :: "int list \<Rightarrow> reg_file \<Rightarrow> register_binding \<Rightarrow> bool" where
  "v_inv regs rf dbl \<longleftrightarrow> rf_wf rf \<and> mset (rf_free rf) + bound rf + regs_of dbl = mset regs \<and>
     distinct (map fst dbl) \<and> fst ` set dbl \<subseteq> set_mset (bound rf)"

definition ru_inv :: "int \<Rightarrow> int \<Rightarrow> int \<Rightarrow> 'f register_unit \<Rightarrow> bool" where
  "ru_inv nx nf nv u \<longleftrightarrow> rf_inv (phys_regs REG_PX_BASE nx) (ru_x u) \<and> rf_inv (phys_regs REG_PF_BASE nf) (ru_f u) \<and>
     v_inv (phys_regs REG_PV_BASE nv) (ru_v u) (ru_double u)"

lemma distinct_phys_regs [simp]: "distinct (phys_regs base n)"
  by (auto simp: phys_regs_def distinct_map inj_on_def)

lemma phys_regs_ge: "p \<in> set (phys_regs base n) \<Longrightarrow> base \<le> p"
  by (auto simp: phys_regs_def)

lemma distinct_parts:
  assumes "A + B = mset xs" "distinct xs" "p \<in># A"
  shows "p \<notin># B"
proof
  assume "p \<in># B"
  then have "2 \<le> count (A + B) p"
    using assms(3) by (simp add: Suc_le_eq flip: count_greater_zero_iff)
  then show False
    using assms(1,2) by (simp add: distinct_count_atmost_1 split: if_splits)
qed

lemma dest_v_inv:
  assumes "ru_inv nx nf nv u" "dest_v key reg dbl u = Inr (p, u')"
  shows "ru_inv nx nf nv u' \<and> map_of (binding key (ru_v u')) reg = Some p"
proof (cases "map_of (binding key (ru_v u)) reg")
  case (Some q)
  then show ?thesis using assms by (simp add: dest_v_def)
next
  case None
  let ?regs = "phys_regs REG_PV_BASE nv"
  have v: "v_inv ?regs (ru_v u) (ru_double u)"
    using assms(1) by (simp add: ru_inv_def)
  obtain ps where ps: "rf_free (ru_v u) = p # ps"
    using assms(2) None by (auto simp: dest_v_def res_simps rf_take_eq Let_def split: if_splits)
  let ?rf = "rf_bind key reg p ((ru_v u)\<lparr>rf_free := ps\<rparr>)"
  have "rf_wf ((ru_v u)\<lparr>rf_free := ps\<rparr>)" "map_of (binding key ((ru_v u)\<lparr>rf_free := ps\<rparr>)) reg = None"
    using v None by (simp_all add: v_inv_def)
  note b = rf_bind_facts [OF this, of p]
  have bd: "map_of (binding key ?rf) reg = Some p"
    by (simp add: rf_bind_def binding_def AList.update_conv')
  have v': "v_inv ?regs ?rf (ru_double u)"
    using v ps b by (auto simp: v_inv_def)
  have "p \<notin># bound (ru_v u)"
    using v ps distinct_parts [of "mset (rf_free (ru_v u))" "bound (ru_v u) + regs_of (ru_double u)" ?regs p]
    by (auto simp: v_inv_def add.assoc)
  then have np: "map_of (ru_double u) p = None"
    using v by (auto simp: v_inv_def map_of_eq_None_iff)
  show ?thesis
  proof (cases "dbl (u\<lparr>ru_v := ?rf\<rparr>)")
    case False
    then have "u' = u\<lparr>ru_v := ?rf\<rparr>"
      using assms(2) None ps by (auto simp: dest_v_def res_simps rf_take_eq Let_def)
    then show ?thesis
      using assms(1) v' bd by (simp add: ru_inv_def)
  next
    case True
    then obtain q qs where q: "rf_free ?rf = q # qs"
      "u' = u\<lparr>ru_v := ?rf\<lparr>rf_free := qs\<rparr>, ru_double := AList.update p q (ru_double u)\<rparr>"
      using assms(2) None ps by (auto simp: dest_v_def res_simps rf_take_eq Let_def)
    have "fst ` set (AList.update p q (ru_double u)) = insert p (fst ` set (ru_double u))"
      by (simp add: AList.dom_update)
    then have "v_inv ?regs (?rf\<lparr>rf_free := qs\<rparr>) (AList.update p q (ru_double u))"
      using v' q(1) b(2) regs_of_insert [OF np, of q]
      by (auto simp: v_inv_def AList.distinct_update add_mset_commute)
    then show ?thesis
      using assms(1) q(2) bd by (simp add: ru_inv_def)
  qed
qed

text \<open>Steps that keep a property of the unit.\<close>

definition keeps :: "('f register_unit \<Rightarrow> bool) \<Rightarrow> 'f rename_step \<Rightarrow> bool" where
  "keeps P f \<longleftrightarrow> (\<forall>r u r' u'. P u \<longrightarrow> f (r, u) = Inr (r', u') \<longrightarrow> P u')"

named_theorems keeps_intros "composition of steps that keep a property"

lemma keeps_steps [keeps_intros]: "(\<And>f. f \<in> set fs \<Longrightarrow> keeps P f) \<Longrightarrow> keeps P (steps fs)"
proof (induction fs)
  case Nil
  then show ?case by (simp add: keeps_def steps_def)
next
  case (Cons f fs)
  have k: "keeps P f" "keeps P (steps fs)"
    using Cons by simp_all
  show ?case
    unfolding keeps_def
  proof (intro allI impI)
    fix r u r' u'
    assume u: "P u" and e: "steps (f # fs) (r, u) = Inr (r', u')"
    then obtain r1 u1 where "f (r, u) = Inr (r1, u1)" "steps fs (r1, u1) = Inr (r', u')"
      by (auto simp: steps_def res_simps)
    then show "P u'"
      using k u unfolding keeps_def by blast
  qed
qed

lemma keeps_when [keeps_intros]: "keeps P f \<Longrightarrow> keeps P (when_step b f)"
  by (simp add: keeps_def when_step_def)

lemma keeps_reads [keeps_intros]:
  "keeps P (src_x key inst i)" "keeps P (src_f key inst i)" "keeps P (src_v key inst i)"
  "keeps P (read_dest look key inst)"
  by (auto simp: keeps_def src_x_def src_f_def src_v_def read_dest_def res_simps)

lemma DestRename_inv:
  "ru_inv nx nf nv u \<Longrightarrow> DestRenameX key inst u = Inr (p, u') \<Longrightarrow> ru_inv nx nf nv u'"
  "ru_inv nx nf nv u \<Longrightarrow> DestRenameF key inst u = Inr (p, u') \<Longrightarrow> ru_inv nx nf nv u'"
  "ru_inv nx nf nv u \<Longrightarrow> DestRenameV key inst u = Inr (p, u') \<Longrightarrow> ru_inv nx nf nv u'"
  "ru_inv nx nf nv u \<Longrightarrow> DestRenameSegV key inst i u = Inr (p, u') \<Longrightarrow> ru_inv nx nf nv u'"
  by (auto simp: DestRenameX_def DestRenameF_def DestRenameV_def DestRenameSegV_def ru_inv_def res_simps
      dest: rf_dest_inv(1)) (auto simp: ru_inv_def dest!: dest_v_inv [of nx nf nv, rotated])

lemma keeps_dest_step:
  assumes "\<And>u u' p inst. P u \<Longrightarrow> ren key inst u = Inr (p, u') \<Longrightarrow> P u'"
  shows "keeps P (dest_step ren key inst)" "keeps P (\<lambda>(r, u). dest_step ren key r (r, u))"
  using assms by (auto simp: keeps_def dest_step_def res_simps)

lemma keeps_split [keeps_intros]:
  "(\<And>u. keeps P (f u)) \<Longrightarrow> keeps P (\<lambda>(r, u). f u (r, u))"
  "keeps P (\<lambda>(r, u). Inr (g r, u))"
  by (auto simp: keeps_def)

text \<open>
  A property of the unit that the renaming of a destination for one packet keeps, and that does not depend on the
  register grouping, is kept by the renaming of a whole list of instructions for that packet.
\<close>

locale rename_invariant =
  fixes P :: "'f register_unit \<Rightarrow> bool" and key :: int
  assumes dest_x: "P u \<Longrightarrow> DestRenameX key inst u = Inr (p, u') \<Longrightarrow> P u'"
    and dest_f: "P u \<Longrightarrow> DestRenameF key inst u = Inr (p, u') \<Longrightarrow> P u'"
    and dest_v: "P u \<Longrightarrow> DestRenameV key inst u = Inr (p, u') \<Longrightarrow> P u'"
    and dest_seg: "P u \<Longrightarrow> DestRenameSegV key inst i u = Inr (p, u') \<Longrightarrow> P u'"
    and vlmul: "P u \<Longrightarrow> P (u\<lparr>ru_cvt_vlmul := m\<rparr>)"
begin

lemma keeps_seg_step: "keeps P (seg_step key i)"
  by (auto simp: keeps_def seg_step_def res_simps dest: dest_seg)

lemmas keeps_dests =
  keeps_dest_step [where P = P and ren = DestRenameX, OF dest_x]
  keeps_dest_step [where P = P and ren = DestRenameF, OF dest_f]
  keeps_dest_step [where P = P and ren = DestRenameV, OF dest_v]

lemma keeps_dest_v_renamed: "keeps P (dest_v_renamed key)"
  unfolding dest_v_renamed_def by (rule keeps_dests)

lemmas keeps_rules = keeps_intros keeps_seg_step keeps_dests keeps_dest_v_renamed

lemma keeps_branch: "keeps P (rename_branch key inst)"
  by (auto simp: rename_branch_def intro!: keeps_rules)

lemma keeps_seg: "keeps P (rename_seg key inst)"
  by (auto simp: rename_seg_def intro!: keeps_rules)

lemma keeps_v: "keeps P (rename_v key inst)"
  by (auto simp: rename_v_def Let_def intro!: keeps_rules)

lemma keeps_vector: "keeps P (rename_vector key inst)"
  using keeps_v by (auto simp: rename_vector_def Let_def intro!: keeps_rules)

lemma keeps_scalar: "keeps P (rename_scalar key inst)"
  by (auto simp: rename_scalar_def Let_def intro!: keeps_rules)

lemma rename_keeps:
  assumes "P u" "rename_inst key inst (r, u) = Inr (r', u')"
  shows "P u'"
proof -
  let ?u = "if opcode inst = Vector VSETVLI then u\<lparr>ru_cvt_vlmul := src inst ! 2\<rparr> else u"
  let ?g = "if CheckBranchOp inst then rename_branch key inst else if CheckSegOp inst then rename_seg key inst
    else if CheckVectorOp inst then rename_vector key inst else rename_scalar key inst"
  have "keeps P ?g"
    by (simp add: keeps_branch keeps_seg keeps_vector keeps_scalar)
  moreover have "P ?u" "?g (r, ?u) = Inr (r', u')"
    using assms vlmul by (simp_all add: rename_inst_def)
  ultimately show ?thesis
    unfolding keeps_def by blast
qed

lemma convert_fold:
  "P u \<Longrightarrow> res_foldl (convert_step key) (out, u) insts = Inr (out', u') \<Longrightarrow> P u'"
proof (induction insts arbitrary: out u)
  case (Cons inst insts)
  then obtain r u1 where r: "rename_inst key inst (inst, u) = Inr (r, u1)"
    "res_foldl (convert_step key) (out @ [r], u1) insts = Inr (out', u')"
    by (auto simp: convert_step_def res_simps)
  then show ?case
    using Cons.IH rename_keeps Cons.prems(1) by blast
qed simp

end

interpretation conserved: rename_invariant "ru_inv nx nf nv" key for nx nf nv key
  by unfold_locales (blast dest: DestRename_inv, blast dest: DestRename_inv, blast dest: DestRename_inv,
      blast dest: DestRename_inv, simp add: ru_inv_def)

text \<open>Renaming for a packet binds registers of that packet only.\<close>

definition rf_keys :: "reg_file \<Rightarrow> int set" where
  "rf_keys rf = fst ` set (rf_map rf)"

definition only_key :: "int \<Rightarrow> 'f register_unit \<Rightarrow> bool" where
  "only_key key u \<longleftrightarrow> rf_keys (ru_x u) \<union> rf_keys (ru_f u) \<union> rf_keys (ru_v u) \<subseteq> {key}"

lemma rf_keys_simps [simp]:
  "rf_keys (rf\<lparr>rf_free := ps\<rparr>) = rf_keys rf" "rf_keys (rf_bind key reg p rf) = insert key (rf_keys rf)"
  by (simp_all add: rf_keys_def rf_bind_def dom_map_of_conv_image_fst [symmetric] AList.update_conv')

lemma rf_dest_keys: "rf_dest key reg rf = Inr (p, rf') \<Longrightarrow> rf_keys rf' \<subseteq> insert key (rf_keys rf)"
  by (auto simp: rf_dest_def res_simps rf_take_eq split: option.splits)

lemma dest_v_only_key:
  assumes "only_key key u" "dest_v key reg dbl u = Inr (p, u')"
  shows "only_key key u'"
proof (cases "map_of (binding key (ru_v u)) reg")
  case None
  then obtain ps where ps: "rf_free (ru_v u) = p # ps"
    using assms(2) by (auto simp: dest_v_def res_simps rf_take_eq Let_def split: if_splits)
  let ?u = "u\<lparr>ru_v := rf_bind key reg p ((ru_v u)\<lparr>rf_free := ps\<rparr>)\<rparr>"
  have "u' = ?u \<or> (\<exists>qs d. u' = ?u\<lparr>ru_v := (ru_v ?u)\<lparr>rf_free := qs\<rparr>, ru_double := d\<rparr>)"
    using assms(2) None ps by (cases "dbl ?u") (auto simp: dest_v_def res_simps rf_take_eq Let_def)
  then show ?thesis
    using assms(1) by (auto simp: only_key_def)
qed (use assms in \<open>simp add: dest_v_def\<close>)

lemma DestRename_only_key:
  "only_key key u \<Longrightarrow> DestRenameX key inst u = Inr (p, u') \<Longrightarrow> only_key key u'"
  "only_key key u \<Longrightarrow> DestRenameF key inst u = Inr (p, u') \<Longrightarrow> only_key key u'"
  by (auto simp: DestRenameX_def DestRenameF_def only_key_def res_simps dest!: rf_dest_keys)

interpretation single: rename_invariant "only_key key" key for key
  by unfold_locales (blast dest: DestRename_only_key, blast dest: DestRename_only_key,
      auto simp: DestRenameV_def DestRenameSegV_def dest: dest_v_only_key, simp add: only_key_def)

lemma bind_initial_inv:
  assumes "ru_inv nx nf nv u" "map_of (binding key (ru_x u)) reg = None" "bind_initial key reg val u = Inr u'"
  shows "ru_inv nx nf nv u'" "\<exists>p. binding key (ru_x u') = AList.update reg p (binding key (ru_x u))"
proof -
  obtain p ps tab where p: "rf_free (ru_x u) = p # ps"
    "u' = u\<lparr>ru_x := rf_bind key reg p ((ru_x u)\<lparr>rf_free := ps\<rparr>), ru_xreg_table := tab\<rparr>"
    using assms(3) by (auto simp: bind_initial_def res_simps rf_take_eq Let_def split: if_splits)
  have "rf_wf ((ru_x u)\<lparr>rf_free := ps\<rparr>)" "map_of (binding key ((ru_x u)\<lparr>rf_free := ps\<rparr>)) reg = None"
    using assms(1,2) by (simp_all add: ru_inv_def rf_inv_def)
  note b = rf_bind_facts [OF this, of p]
  show "ru_inv nx nf nv u'"
    using assms(1) p b by (simp add: ru_inv_def rf_inv_def)
  show "\<exists>p. binding key (ru_x u') = AList.update reg p (binding key (ru_x u))"
    using p(2) by (auto simp: rf_bind_def binding_def AList.update_conv')
qed

lemma Convert_inv:
  assumes "ru_inv nx nf nv u" "map_of (rf_map (ru_x u)) key = None" "Convert insts key req u = Inr (out, u')"
  shows "ru_inv nx nf nv u'"
proof -
  obtain u1 u2 where u: "bind_initial key (REG_X_BASE + 1) (ri_addr req) u = Inr u1"
    "bind_initial key (REG_X_BASE + 2) (ri_offset req) u1 = Inr u2"
    "res_foldl (convert_step key) ([], u2\<lparr>ru_cvt_vlmul := IMM_M1\<rparr>) insts = Inr (out, u')"
    using assms(3) by (auto simp: Convert_def res_simps)
  have e: "binding key (ru_x u) = []"
    using assms(2) by (simp add: binding_def)
  note i1 = bind_initial_inv [OF assms(1) _ u(1)]
  have "map_of (binding key (ru_x u1)) (REG_X_BASE + 2) = None"
    using i1(2) e by (auto simp: AList.update_conv')
  then have "ru_inv nx nf nv u2"
    using bind_initial_inv(1) [OF i1(1) _ u(2)] e by simp
  then have "ru_inv nx nf nv (u2\<lparr>ru_cvt_vlmul := IMM_M1\<rparr>)"
    by (simp add: ru_inv_def)
  then show ?thesis
    using conserved.convert_fold u(3) by blast
qed

lemma Convert_only_key:
  assumes "only_key key u" "Convert insts key req u = Inr (out, u')"
  shows "only_key key u'"
proof -
  have b: "only_key key u2" if "only_key key u1" "bind_initial key reg val u1 = Inr u2" for u1 u2 :: "'a register_unit" and reg val
    using that by (auto simp: bind_initial_def only_key_def res_simps rf_take_eq Let_def split: if_splits)
  obtain u1 u2 where u: "bind_initial key (REG_X_BASE + 1) (ri_addr req) u = Inr u1"
    "bind_initial key (REG_X_BASE + 2) (ri_offset req) u1 = Inr u2"
    "res_foldl (convert_step key) ([], u2\<lparr>ru_cvt_vlmul := IMM_M1\<rparr>) insts = Inr (out, u')"
    using assms(2) by (auto simp: Convert_def res_simps)
  have "only_key key (u2\<lparr>ru_cvt_vlmul := IMM_M1\<rparr>)"
    using b u(1,2) assms(1) single.vlmul by blast
  then show ?thesis
    using single.convert_fold u(3) by blast
qed

text \<open>The loop that gives vector registers back.\<close>

lemma release_v_facts:
  assumes "distinct (map fst (ru_double u))" "REG_PV_BASE \<le> snd b"
  shows "mset (rf_free (ru_v (release_v u b))) + regs_of (ru_double (release_v u b)) =
      add_mset (snd b) (mset (rf_free (ru_v u)) + regs_of (ru_double u))"
    "ru_double (release_v u b) = AList.delete (snd b) (ru_double u)"
    "rf_map (ru_v (release_v u b)) = rf_map (ru_v u)"
    "ru_x (release_v u b) = ru_x u" "ru_f (release_v u b) = ru_f u"
proof -
  have a: "map_of (ru_double u) (snd b) = None \<Longrightarrow> AList.delete (snd b) (ru_double u) = ru_double u"
    by (intro delete_absent) (auto simp: map_of_eq_None_iff)
  show "mset (rf_free (ru_v (release_v u b))) + regs_of (ru_double (release_v u b)) =
      add_mset (snd b) (mset (rf_free (ru_v u)) + regs_of (ru_double u))"
    "ru_double (release_v u b) = AList.delete (snd b) (ru_double u)"
    "rf_map (ru_v (release_v u b)) = rf_map (ru_v u)"
    "ru_x (release_v u b) = ru_x u" "ru_f (release_v u b) = ru_f u"
    using assms a regs_of_delete [OF assms(1), of "snd b"]
    by (auto simp: release_v_def Let_def CheckDoubleReg_def)
qed

lemma release_v_fold:
  assumes "distinct (map fst (ru_double u))" "\<forall>b\<in>set bs. REG_PV_BASE \<le> snd b"
  shows "mset (rf_free (ru_v (foldl release_v u bs))) + regs_of (ru_double (foldl release_v u bs)) =
      mset (map snd bs) + (mset (rf_free (ru_v u)) + regs_of (ru_double u)) \<and>
    fst ` set (ru_double (foldl release_v u bs)) = fst ` set (ru_double u) - set (map snd bs) \<and>
    distinct (map fst (ru_double (foldl release_v u bs))) \<and> rf_map (ru_v (foldl release_v u bs)) = rf_map (ru_v u) \<and>
    ru_x (foldl release_v u bs) = ru_x u \<and> ru_f (foldl release_v u bs) = ru_f u"
  using assms
proof (induction bs arbitrary: u)
  case (Cons b bs)
  have r: "REG_PV_BASE \<le> snd b"
    using Cons.prems(2) by simp
  note f = release_v_facts [OF Cons.prems(1) r]
  have d: "distinct (map fst (ru_double (release_v u b)))"
    using Cons.prems(1) f(2) by (simp add: AList.distinct_delete)
  have "fst ` set (ru_double (release_v u b)) = fst ` set (ru_double u) - {snd b}"
    using f(2) arg_cong [OF AList.delete_keys [of "snd b" "ru_double u"], of set] by simp
  then show ?case
    using Cons.IH [OF d] Cons.prems(2) f by auto
qed simp

lemma FreeRegs_inv:
  assumes inv: "ru_inv nx nf nv u" and ord: "\<And>b. mset (order b) = mset b"
  shows "ru_inv nx nf nv (FreeRegs order key u)"
proof -
  let ?u = "u\<lparr>ru_x := rf_release order key (ru_x u), ru_f := rf_release order key (ru_f u)\<rparr>"
  let ?bs = "order (binding key (ru_v u))" and ?regs = "phys_regs REG_PV_BASE nv"
  let ?w = "foldl release_v ?u ?bs"
  have v: "v_inv ?regs (ru_v u) (ru_double u)"
    using inv by (simp add: ru_inv_def)
  then have wf: "rf_wf (ru_v u)" and tot: "mset (rf_free (ru_v u)) + bound (ru_v u) + regs_of (ru_double u) = mset ?regs"
    and dd: "distinct (map fst (ru_double u))" "fst ` set (ru_double u) \<subseteq> set_mset (bound (ru_v u))"
    by (auto simp: v_inv_def)
  have bs: "mset (map snd ?bs) = regs_of (binding key (ru_v u))"
    using ord by (metis mset_map regs_of_mset)
  note bd = bound_delete [OF wf, of key]
  have ge: "\<forall>b\<in>set ?bs. REG_PV_BASE \<le> snd b"
  proof
    fix b
    assume "b \<in> set ?bs"
    then have "snd b \<in># regs_of (binding key (ru_v u))"
      by (metis bs image_eqI list.set_map set_mset_mset)
    then have "snd b \<in># mset ?regs"
      using tot bd by (metis union_iff)
    then show "REG_PV_BASE \<le> snd b"
      by (simp add: phys_regs_ge)
  qed
  have "distinct (map fst (ru_double ?u))"
    using dd by simp
  note r = release_v_fold [OF this ge]
  let ?rf = "(ru_v ?w)\<lparr>rf_map := AList.delete key (rf_map (ru_v ?w))\<rparr>"
  have b': "bound ?rf = bound ((ru_v u)\<lparr>rf_map := AList.delete key (rf_map (ru_v u))\<rparr>)" and wf': "rf_wf ?rf"
    using r rf_wf_delete [OF wf, of key] by (simp_all add: bound_def rf_wf_def)
  have "mset (rf_free ?rf) + bound ?rf + regs_of (ru_double ?w) = mset ?regs"
    using r tot bs bd b' by (simp add: ac_simps)
  moreover have "fst ` set (ru_double ?w) \<subseteq> set_mset (bound ?rf)"
  proof
    fix q
    assume "q \<in> fst ` set (ru_double ?w)"
    then have "q \<in> fst ` set (ru_double u)" "q \<notin> set (map snd ?bs)"
      using r by simp_all
    then have "q \<in># bound (ru_v u)" "q \<notin># regs_of (binding key (ru_v u))"
      using dd(2) by (blast, metis bs set_mset_mset)
    then show "q \<in># bound ?rf"
      using bd b' by simp
  qed
  ultimately have "v_inv ?regs ?rf (ru_double ?w)"
    using r wf' by (simp add: v_inv_def)
  moreover have "FreeRegs order key u = ?w\<lparr>ru_v := ?rf\<rparr>"
    by (simp add: FreeRegs_def Let_def)
  ultimately show ?thesis
    using inv r rf_release_inv [OF _ ord] by (simp add: ru_inv_def)
qed

section \<open>Reachable units\<close>

text \<open>
  The life of a unit: a column is renamed for a packet that is not live, renamed columns are taken, registers are
  written and marked, and a finished packet gives its registers back.
\<close>

inductive ru_reachable ::
  "(register_binding \<Rightarrow> register_binding) \<Rightarrow> int \<Rightarrow> int \<Rightarrow> int \<Rightarrow> 'f register_unit \<Rightarrow> bool"
  for order nx nf nv where
  new: "ru_reachable order nx nf nv (new_register_unit zero junk nx nf nv)"
| push: "ru_reachable order nx nf nv u \<Longrightarrow> map_of (rf_map (ru_x u)) packet_id = None \<Longrightarrow>
    RenamePush c packet_id u = Inr u' \<Longrightarrow> ru_reachable order nx nf nv u'"
| pop: "ru_reachable order nx nf nv u \<Longrightarrow> RenamePop u = Inr u' \<Longrightarrow> ru_reachable order nx nf nv u'"
| free: "ru_reachable order nx nf nv u \<Longrightarrow> ru_reachable order nx nf nv (FreeRegs order packet_id u)"
| write_x: "ru_reachable order nx nf nv u \<Longrightarrow> WriteXreg reg v u = Inr u' \<Longrightarrow> ru_reachable order nx nf nv u'"
| write_f: "ru_reachable order nx nf nv u \<Longrightarrow> WriteFreg reg w u = Inr u' \<Longrightarrow> ru_reachable order nx nf nv u'"
| busy: "ru_reachable order nx nf nv u \<Longrightarrow> ru_reachable order nx nf nv (SetNotReady reg u)"
| ready: "ru_reachable order nx nf nv u \<Longrightarrow> ru_reachable order nx nf nv (SetReady reg u)"

lemma ru_inv_new: "ru_inv nx nf nv (new_register_unit zero junk nx nf nv)"
  by (simp add: ru_inv_def new_register_unit_def rf_inv_def v_inv_def rf_wf_def bound_def)

lemma reachable_inv:
  assumes "ru_reachable order nx nf nv u" "\<And>b. mset (order b) = mset b"
  shows "ru_inv nx nf nv u"
  using assms(1)
proof (induction rule: ru_reachable.induct)
  case (new zero junk)
  show ?case by (rule ru_inv_new)
next
  case (push u packet_id c u')
  then obtain out u1 where c: "Convert (ic_insts c) packet_id (ic_req c) u = Inr (out, u1)"
    and u': "u' = u1\<lparr>ru_after_rename := ru_after_rename u1 @ [c\<lparr>ic_insts := out\<rparr>]\<rparr>"
    by (auto simp: RenamePush_def res_simps)
  have "ru_inv nx nf nv u1"
    by (rule Convert_inv [OF push.IH push.hyps(2) c])
  then show ?case
    using u' by (simp add: ru_inv_def)
next
  case (pop u u')
  then show ?case
    by (auto simp: RenamePop_def ru_inv_def split: list.splits)
next
  case (free u packet_id)
  then show ?case using FreeRegs_inv assms(2) by blast
next
  case (write_x u reg v u')
  then show ?case by (auto simp: WriteXreg_def count_reg_def ru_inv_def split: if_splits)
next
  case (write_f u reg w u')
  then show ?case by (auto simp: WriteFreg_def count_reg_def ru_inv_def split: if_splits)
qed (simp_all add: SetNotReady_def SetReady_def ru_inv_def)

section \<open>Properties\<close>

text \<open>
  C3. Physical registers are conserved: in every state a register unit reaches, whatever columns were renamed
  and packets freed and in whatever order the hash maps list a packet's registers, each physical register is exactly
  once on the free list, bound to an architectural register of a live packet, or the second half of a bound double
  vector register.
\<close>

theorem register_conservation:
  assumes "ru_reachable order nx nf nv u" "\<And>b. mset (order b) = mset b"
  shows "mset (rf_free (ru_x u)) + bound (ru_x u) = mset (phys_regs REG_PX_BASE nx) \<and>
    mset (rf_free (ru_f u)) + bound (ru_f u) = mset (phys_regs REG_PF_BASE nf) \<and>
    mset (rf_free (ru_v u)) + bound (ru_v u) + regs_of (ru_double u) = mset (phys_regs REG_PV_BASE nv)"
  using reachable_inv [OF assms] by (simp add: ru_inv_def rf_inv_def v_inv_def)

text \<open>A column of one instruction for the examples: \<^verbatim>\<open>add x3, x1, x2\<close>.\<close>

definition example_column :: inst_column where
  "example_column =
     \<lparr>ic_id = 0, ic_kernel_id = 0, ic_type = KERNEL_BODY,
      ic_insts = [(new_instruction ''add'' (Scalar ADD) OT_NONE (REG_X_BASE + 3) [])
        \<lparr>src := [REG_X_BASE + 1, REG_X_BASE + 2, 0, 0, 0]\<rparr>],
      ic_loop_map = [], ic_req = \<lparr>ri_type = KERNEL_BODY, ri_id = 0, ri_launch_id = 0, ri_kernel_id = 0,
        ri_kernel_body_id = 0, ri_addr = 0x1000, ri_offset = 64\<rparr>,
      ic_xregs = 1, ic_fregs = 0, ic_vregs = 0, ic_base_addr = 0\<rparr>"

definition example_unit :: "nat register_unit" where
  "example_unit = projr (RenamePush example_column 7 (new_register_unit 0 0 4 0 0))"

lemma example_unit_reachable: "ru_reachable (\<lambda>b. b) 4 0 0 example_unit"
proof (rule ru_reachable.push)
  show "ru_reachable (\<lambda>b. b) 4 0 0 (new_register_unit (0::nat) 0 4 0 0)"
    by (rule ru_reachable.new)
  show "map_of (rf_map (ru_x (new_register_unit (0::nat) 0 4 0 0))) 7 = None"
    by (simp add: new_register_unit_def)
  have "case RenamePush example_column 7 (new_register_unit (0::nat) 0 4 0 0) of Inr _ \<Rightarrow> True | Inl _ \<Rightarrow> False"
    by code_simp
  then show "RenamePush example_column 7 (new_register_unit (0::nat) 0 4 0 0) = Inr example_unit"
    by (auto simp: example_unit_def split: sum.splits)
qed

theorem register_conservation_witness:
  "mset (rf_free (ru_x example_unit)) + bound (ru_x example_unit) = mset (phys_regs REG_PX_BASE 4)"
  using register_conservation [OF example_unit_reachable] by simp

text \<open>
  C25. Packets are isolated: in every reachable state two architectural registers, of the same packet or of
  different ones, that are both renamed to the same physical scalar register are the same register of
  the same packet; likewise for floating-point and vector registers.
\<close>

theorem renaming_isolates_packets:
  assumes "ru_reachable order nx nf nv u" "\<And>b. mset (order b) = mset b" "p \<le> SPCIAL_REG_START"
  shows "(LookUpX k r u = Inr p \<longrightarrow> LookUpX k' r' u = Inr p \<longrightarrow> k = k' \<and> r = r') \<and>
    (LookUpF k r u = Inr p \<longrightarrow> LookUpF k' r' u = Inr p \<longrightarrow> k = k' \<and> r = r') \<and>
    (LookUpV k r u = Inr p \<longrightarrow> LookUpV k' r' u = Inr p \<longrightarrow> k = k' \<and> r = r')"
proof -
  have inv: "ru_inv nx nf nv u"
    by (rule reachable_inv [OF assms(1,2)])
  have bound: "map_of (binding j rf) q = Some p" if "LookUp j q rf = Inr p" for j q rf
    using that assms(3) by (auto simp: LookUp_def CheckSpecialReg_def split: option.splits if_splits)
  have one: "count (bound (ru_x u)) p \<le> 1" "count (bound (ru_f u)) p \<le> 1" "count (bound (ru_v u)) p \<le> 1"
    and wf: "rf_wf (ru_x u)" "rf_wf (ru_f u)" "rf_wf (ru_v u)"
    using inv count_part [OF _ distinct_phys_regs] unfolding ru_inv_def rf_inv_def v_inv_def
    by (metis add.commute add.left_commute)+
  show ?thesis
    using bound bound_injective one wf unfolding LookUpX_def LookUpF_def LookUpV_def by metis
qed

theorem renaming_isolates_packets_witness:
  "LookUpX 7 (REG_X_BASE + 1) example_unit = Inr REG_PX_BASE \<and>
   LookUpX 7 (REG_X_BASE + 3) example_unit \<noteq> Inr REG_PX_BASE"
proof -
  have "LookUpX 7 (REG_X_BASE + 1) example_unit = Inr REG_PX_BASE"
    by code_simp
  moreover have "REG_PX_BASE \<le> SPCIAL_REG_START"
    by (simp add: reg_consts)
  ultimately show ?thesis
    using renaming_isolates_packets [OF example_unit_reachable _ \<open>REG_PX_BASE \<le> SPCIAL_REG_START\<close>,
        of 7 "REG_X_BASE + 1" 7 "REG_X_BASE + 3"] by auto
qed

text \<open>
  Registers hold their values: in a unit whose table has its size, a value written through the renaming of a
  register is what a read through the same renaming returns, and a write changes no other physical register.
\<close>

theorem register_write_read:
  assumes "length (ru_xreg_table u) = nat (ru_num_xregs u)" "REG_PX_BASE + ru_num_xregs u \<le> SPCIAL_REG_START"
    and "WriteXreg p v u = Inr u'"
  shows "(\<exists>u''. ReadXreg p ndp_id req u' = Inr (v, u'')) \<and>
    (\<forall>q w u''. q \<noteq> p \<longrightarrow> ReadXreg q ndp_id req u = Inr (w, u'') \<longrightarrow> (\<exists>u3. ReadXreg q ndp_id req u' = Inr (w, u3))) \<and>
    length (ru_xreg_table u') = nat (ru_num_xregs u')"
proof -
  have p: "IsXreg p u" "u' = count_reg X_WRITE (u\<lparr>ru_xreg_table := (ru_xreg_table u)[nat (p - REG_PX_BASE) := v]\<rparr>)"
    using assms(3) by (auto simp: WriteXreg_def split: if_splits)
  have n: "ru_num_xregs u' = ru_num_xregs u" "ru_xreg_table u' = (ru_xreg_table u)[nat (p - REG_PX_BASE) := v]"
    using p(2) by (simp_all add: count_reg_def)
  have x: "IsXreg q u' = IsXreg q u" for q
    using n(1) by (simp add: IsXreg_def)
  have special: "p \<noteq> REG_NDP_ID" "p \<noteq> REG_ADDR" "p \<noteq> REG_REQUEST_OFFSET" "p \<noteq> REG_X0"
    using p(1) assms(2) by (auto simp: IsXreg_def reg_consts)
  have "nat (p - REG_PX_BASE) < length (ru_xreg_table u)"
    using p(1) assms(1) by (auto simp: IsXreg_def)
  moreover have "nat (p - REG_PX_BASE) \<noteq> nat (q - REG_PX_BASE)" if "q \<noteq> p" "IsXreg q u" for q
    using that p(1) by (auto simp: IsXreg_def)
  ultimately show ?thesis
    using p(1) special n x assms(1) by (auto simp: ReadXreg_def res_simps split: if_splits)
qed

theorem register_write_read_witness:
  "\<exists>u' u''. WriteXreg (REG_PX_BASE + 2) 99 example_unit = Inr u' \<and>
    ReadXreg (REG_PX_BASE + 2) 0 (ic_req example_column) u' = Inr (99, u'')"
proof -
  have "case WriteXreg (REG_PX_BASE + 2) 99 example_unit of Inr _ \<Rightarrow> True | Inl _ \<Rightarrow> False"
    by code_simp
  then obtain u' where u': "WriteXreg (REG_PX_BASE + 2) 99 example_unit = Inr u'"
    by (auto split: sum.splits)
  have "length (ru_xreg_table example_unit) = nat (ru_num_xregs example_unit)"
    "REG_PX_BASE + ru_num_xregs example_unit \<le> SPCIAL_REG_START"
    by code_simp+
  then show ?thesis
    using register_write_read [OF _ _ u', of 0 "ic_req example_column"] u' by blast
qed

text \<open>
  Under \<^verbatim>\<open>LMUL = 1\<close> the result of a vector-vector operation that does not widen is never a double register, also
  when its first source is one: the test looks at the architectural source number, which is never double.
\<close>

theorem vector_result_not_double:
  fixes u :: "'f register_unit"
  assumes "DestRenameV key inst u = Inr (p, u')" "map_of (binding key (ru_v u)) (dest inst) = None"
    and "src inst ! 0 < REG_PV_BASE" "\<not> CheckWideningOp inst" "ru_cvt_vlmul u = IMM_M1"
  shows "ru_double u' = ru_double u"
proof -
  have "\<not> needs_double inst w" for w :: "'f register_unit"
    using assms(3,4) by (simp add: needs_double_def CheckDoubleReg_def)
  then show ?thesis
    using assms(1,2,5) by (auto simp: DestRenameV_def dest_v_def res_simps Let_def IMM_M1_def IMM_M2_def)
qed

theorem vector_result_not_double_witness:
  "\<exists>p u'. DestRenameV 7 ((new_instruction ''vadd'' (Vector VADD) OT_VV (REG_V_BASE + 3) [])\<lparr>src := [REG_V_BASE + 1, 0, 0, 0, 0]\<rparr>)
      (new_register_unit (0::nat) IMM_M1 0 0 4) = Inr (p, u') \<and> ru_double u' = []"
proof -
  let ?i = "(new_instruction ''vadd'' (Vector VADD) OT_VV (REG_V_BASE + 3) [])\<lparr>src := [REG_V_BASE + 1, 0, 0, 0, 0]\<rparr>"
  let ?u = "new_register_unit (0::nat) IMM_M1 0 0 4"
  have "case DestRenameV 7 ?i ?u of Inr _ \<Rightarrow> True | Inl _ \<Rightarrow> False"
    by code_simp
  then obtain p u' where u': "DestRenameV 7 ?i ?u = Inr (p, u')"
    by (auto split: sum.splits)
  have "\<not> CheckWideningOp ?i" "src ?i ! 0 < REG_PV_BASE" "map_of (binding 7 (ru_v ?u)) (dest ?i) = None"
    "ru_cvt_vlmul ?u = IMM_M1" "ru_double ?u = []"
    by code_simp+
  then show ?thesis
    using vector_result_not_double [OF u'] u' by metis
qed

end
