(* ===== verification/Instruction_Buffer.thy ===== *)
theory Instruction_Buffer
  imports Register_Unit Delay_Queue
begin

text \<open>
  \<^verbatim>\<open>src/instruction_buffer.h\<close> and \<^verbatim>\<open>src/instruction_buffer.cc\<close>: the store of registered kernels of an NDP unit.
  It counts the registers the phases of a kernel need when the kernel is registered, and turns a request for a
  phase into a column of its instructions one cycle later. Kernels are shared pointers in the code; the buffer is their
  only writer in what is modelled, so they are values here. The register sets are finite sets of register numbers.
\<close>

section \<open>Model\<close>

definition BUFFER_ACCESS_DELAY :: int where "BUFFER_ACCESS_DELAY = 1"
definition BUFFER_ACCESS_INTERVAL :: int where "BUFFER_ACCESS_INTERVAL = 1"
definition WORD_SIZE :: nat where "WORD_SIZE = 4"
definition NDP_FUNCTION_OFFSET :: u64 where "NDP_FUNCTION_OFFSET = 0x10000"

record instruction_buffer =
  ib_ndp_id :: int
  ib_max_kernel_register :: u32
  ib_delay_queue :: "request_info delay_queue"
  ib_kernels :: "(int \<times> ndp_kernel) list"
  ib_columns :: "inst_column list"

definition new_instruction_buffer :: "int \<Rightarrow> int \<Rightarrow> instruction_buffer" where
  "new_instruction_buffer max_kernel_register ndp_id =
     \<lparr>ib_ndp_id = ndp_id, ib_max_kernel_register = word_of_int max_kernel_register,
      ib_delay_queue = new_delay_queue ''inst_buffer'' False 1, ib_kernels = [], ib_columns = []\<rparr>"

definition can_register :: "instruction_buffer \<Rightarrow> bool" where
  "can_register b \<longleftrightarrow> length (ib_kernels b) < unat (ib_max_kernel_register b)"

text \<open>The registers seen so far and \<^verbatim>\<open>vmul\<close>.\<close>

record reg_count =
  rc_x :: "int set"
  rc_f :: "int set"
  rc_v :: "int set"
  rc_double :: "int set"
  rc_vmul :: int

definition count_inst :: "reg_count \<Rightarrow> ndp_instruction \<Rightarrow> reg_count" where
  "count_inst c inst =
     (if CheckScalarOp inst then
        if CheckFloatOp inst then c\<lparr>rc_f := insert (dest inst) (rc_f c)\<rparr>
        else if opcode inst \<noteq> Scalar CSRWI \<and> opcode inst \<noteq> Scalar CSRW then c\<lparr>rc_x := insert (dest inst) (rc_x c)\<rparr>
        else c
      else if opcode inst = Vector VSETVLI then
        if src inst ! 3 = IMM_M1 then c\<lparr>rc_vmul := 1\<rparr>
        else if src inst ! 3 = IMM_M2 then c\<lparr>rc_vmul := 2\<rparr>
        else c
      else if operand_type inst = OT_F_S then c\<lparr>rc_f := insert (dest inst) (rc_f c)\<rparr>
      else if opcode inst \<notin> set [Vmem VSE16, Vmem VSE32, Vextra VSUXEI32] then
        c\<lparr>rc_v := insert (dest inst) (rc_v c),
          rc_double := (if 1 < rc_vmul c then insert (dest inst) (rc_double c) else rc_double c)\<rparr>
      else c)"

definition count_required_regs :: "ndp_instruction list \<Rightarrow> int \<times> int \<times> int" where
  "count_required_regs insts =
     (let c = foldl count_inst \<lparr>rc_x = {}, rc_f = {}, rc_v = {}, rc_double = {}, rc_vmul = 1\<rparr> insts
      in (int (card (rc_x c)), int (card (rc_f c)), int (card (rc_v c)) + int (card (rc_double c))))"

text \<open>The loop over the bodies stores the counts of body \<open>i\<close> at index \<open>i\<close>.\<close>

definition count_body :: "ndp_kernel \<Rightarrow> nat \<Rightarrow> ndp_kernel res" where
  "count_body k i =
     (if i < length (nk_kernel_body_insts k) \<and> i < length (nk_kernel_body_regs k) then
        Inr (k\<lparr>nk_kernel_body_regs := (nk_kernel_body_regs k)[i := count_required_regs (nk_kernel_body_insts k ! i)]\<rparr>)
      else Inl Out_Of_Range)"

definition register_kernel :: "ndp_kernel \<Rightarrow> instruction_buffer \<Rightarrow> instruction_buffer res" where
  "register_kernel k b =
     (if map_of (ib_kernels b) (nk_kernel_id k) \<noteq> None then Inr b
      else
        res_bind (res_foldl count_body
            (k\<lparr>nk_valid := True, nk_initializer_regs := count_required_regs (nk_initializer_insts k)\<rparr>)
            [0..<nat (nk_num_kernel_bodies k)]) (\<lambda>k.
        Inr (b\<lparr>ib_kernels := AList.update (nk_kernel_id k)
          (k\<lparr>nk_finalizer_regs := count_required_regs (nk_finalizer_insts k)\<rparr>) (ib_kernels b)\<rparr>)))"

definition unregister_kernel :: "int \<Rightarrow> instruction_buffer \<Rightarrow> instruction_buffer" where
  "unregister_kernel kernel_id b = b\<lparr>ib_kernels := AList.delete kernel_id (ib_kernels b)\<rparr>"

text \<open>The instructions and register counts of the phase a request asks for.\<close>

definition phase_code :: "request_info \<Rightarrow> ndp_kernel \<Rightarrow> (ndp_instruction list \<times> int \<times> int \<times> int) res" where
  "phase_code req k =
     (case ri_type req of
        INITIALIZER \<Rightarrow> Inr (nk_initializer_insts k, nk_initializer_regs k)
      | FINALIZER \<Rightarrow> Inr (nk_finalizer_insts k, nk_finalizer_regs k)
      | KERNEL_BODY \<Rightarrow>
          (let i = unat (ri_kernel_body_id req)
           in if i < length (nk_kernel_body_insts k) \<and> i < length (nk_kernel_body_regs k) then
                Inr (nk_kernel_body_insts k ! i, nk_kernel_body_regs k ! i)
              else Inl Out_Of_Range))"

definition phase_base :: "request_info \<Rightarrow> ndp_kernel \<Rightarrow> u64" where
  "phase_base req k =
     ucast (ri_kernel_id req) * NDP_FUNCTION_OFFSET +
     (case ri_type req of
        INITIALIZER \<Rightarrow> 0
      | KERNEL_BODY \<Rightarrow> of_nat (length (nk_initializer_insts k) * WORD_SIZE)
      | FINALIZER \<Rightarrow> of_nat (length (nk_initializer_insts k) * WORD_SIZE)
                       + of_nat (length (nk_kernel_body_insts k) * WORD_SIZE))"

definition make_column :: "request_info \<Rightarrow> ndp_kernel \<Rightarrow> inst_column res" where
  "make_column req k =
     res_bind (phase_code req k) (\<lambda>(insts, x, f, v).
       Inr \<lparr>ic_id = 0, ic_kernel_id = sint (ri_kernel_id req), ic_type = ri_type req, ic_insts = insts,
            ic_loop_map = nk_loop_map k, ic_req = req, ic_xregs = x, ic_fregs = f, ic_vregs = v,
            ic_base_addr = phase_base req k\<rparr>)"

definition ib_cycle :: "instruction_buffer \<Rightarrow> instruction_buffer res" where
  "ib_cycle b =
     (let b = b\<lparr>ib_delay_queue := dq_tick (ib_delay_queue b)\<rparr>
      in if dq_empty (ib_delay_queue b) then Inr b
         else
           res_bind (dq_top (ib_delay_queue b)) (\<lambda>req.
           case map_of (ib_kernels b) (sint (ri_kernel_id req)) of
             None \<Rightarrow> Inl Bad_Pointer
           | Some k \<Rightarrow>
               res_bind (make_column req k) (\<lambda>col.
               res_bind (dq_pop (ib_delay_queue b)) (\<lambda>q.
               Inr (b\<lparr>ib_columns := ib_columns b @ [col], ib_delay_queue := q\<rparr>)))))"

definition can_push_request :: "instruction_buffer \<Rightarrow> bool" where
  "can_push_request b \<longleftrightarrow> \<not> dq_full (ib_delay_queue b)"

definition ib_push :: "request_info \<Rightarrow> instruction_buffer \<Rightarrow> instruction_buffer res" where
  "ib_push info b =
     res_bind (dq_push_interval info BUFFER_ACCESS_DELAY BUFFER_ACCESS_INTERVAL (ib_delay_queue b))
       (\<lambda>q. Inr (b\<lparr>ib_delay_queue := q\<rparr>))"

definition can_pop :: "instruction_buffer \<Rightarrow> bool" where
  "can_pop b \<longleftrightarrow> ib_columns b \<noteq> []"

definition ib_top :: "instruction_buffer \<Rightarrow> inst_column res" where
  "ib_top b = res_bind (assert_that (can_pop b) ''can_pop()'') (\<lambda>_. Inr (hd (ib_columns b)))"

definition ib_pop :: "instruction_buffer \<Rightarrow> (inst_column \<times> instruction_buffer) res" where
  "ib_pop b =
     res_bind (assert_that (can_pop b) ''can_pop()'') (\<lambda>_.
     res_bind (ib_top b) (\<lambda>col. Inr (col, b\<lparr>ib_columns := tl (ib_columns b)\<rparr>)))"

section \<open>Properties\<close>


definition example_kernel :: ndp_kernel where
  "example_kernel =
     \<lparr>nk_valid = False, nk_active = False, nk_kernel_id = 3, nk_kernel_name = ''k'', nk_initializer_regs = (0, 0, 0),
      nk_kernel_body_regs = [(0, 0, 0)], nk_finalizer_regs = (0, 0, 0), nk_num_kernel_bodies = 1,
      nk_initializer_insts = [], nk_kernel_body_insts = [ic_insts example_column], nk_loop_map = [],
      nk_finalizer_insts = []\<rparr>"


text \<open>
  The finalizer's code address lies one word per body, not per body instruction, behind the start of the body code:
  a body that has more instructions than the kernel has bodies shares instruction addresses with the finalizer.
\<close>

theorem finalizer_address_counts_bodies:
  "phase_base (req\<lparr>ri_type := FINALIZER\<rparr>) k =
     phase_base (req\<lparr>ri_type := KERNEL_BODY\<rparr>) k + of_nat (4 * length (nk_kernel_body_insts k))"
  by (simp add: phase_base_def WORD_SIZE_def)

text \<open>The vector destinations that the count considers.\<close>

definition vector_dests :: "ndp_instruction list \<Rightarrow> int set" where
  "vector_dests insts = dest ` {i \<in> set insts. CheckVectorOp i \<and> operand_type i \<noteq> OT_F_S \<and>
     opcode i \<notin> set [Vmem VSE16, Vmem VSE32, Vextra VSUXEI32]}"

lemma vsetvli_is_scalar: "opcode i = Vector VSETVLI \<Longrightarrow> CheckScalarOp i"
  by (simp add: CheckScalarOp_def vector_ops_def)

lemma count_fold:
  assumes "rc_vmul c = 1"
  shows "rc_vmul (foldl count_inst c insts) = 1 \<and> rc_double (foldl count_inst c insts) = rc_double c \<and>
    rc_v (foldl count_inst c insts) = rc_v c \<union> vector_dests insts"
  using assms
proof (induction insts arbitrary: c)
  case Nil
  then show ?case by (simp add: vector_dests_def)
next
  case (Cons i insts)
  have s: "rc_vmul (count_inst c i) = 1" "rc_double (count_inst c i) = rc_double c"
    "rc_v (count_inst c i) = rc_v c \<union> vector_dests [i]"
    using Cons.prems vsetvli_is_scalar [of i]
    by (auto simp: count_inst_def vector_dests_def CheckScalarOp_def CheckVectorOp_def)
  have "vector_dests (i # insts) = vector_dests [i] \<union> vector_dests insts"
    by (auto simp: vector_dests_def)
  then show ?case
    using Cons.IH [OF s(1)] s by auto
qed

text \<open>
  The count of vector registers ignores the register grouping: it is the number of different vector
  destinations, since \<^verbatim>\<open>vsetvli\<close> counts as a scalar instruction and its case is never reached; a kernel that sets
  \<^verbatim>\<open>LMUL = 2\<close> needs two registers per destination.
\<close>

theorem vector_count_ignores_lmul:
  "snd (snd (count_required_regs insts)) = int (card (vector_dests insts))"
  using count_fold [of "\<lparr>rc_x = {}, rc_f = {}, rc_v = {}, rc_double = {}, rc_vmul = 1\<rparr>" insts]
  by (simp add: count_required_regs_def Let_def)

section \<open>Registers taken by renaming\<close>

text \<open>The integer instructions that write a scalar register.\<close>

definition int_ops :: "Opcode list" where
  "int_ops = [Scalar ADD, Scalar SUB, Scalar MUL, Scalar DIV, Scalar REM, Scalar AND_op, Scalar SLL, Scalar SRL, Scalar OR_op, Scalar ADDI,
     Scalar MULI, Scalar ANDI, Scalar SLLI, Scalar SRLI, Scalar ORI, Scalar LI, Scalar LBU, Scalar LB, Scalar LW, Scalar LD]"

lemma int_ops_classes:
  "\<forall>op\<in>set int_ops. op \<notin> vector_ops \<and> op \<notin> float_ops \<and> op \<notin> branch_ops \<and> op \<notin> seg_ops \<and>
     op \<notin> set [Vector VSETVLI, Scalar CSRWI, Scalar CSRW]"
  by code_simp

lemma int_op_checks:
  assumes "opcode inst \<in> set int_ops"
  shows "CheckScalarOp inst" "\<not> CheckVectorOp inst" "\<not> CheckFloatOp inst" "\<not> CheckBranchOp inst" "\<not> CheckSegOp inst"
    "opcode inst \<noteq> Vector VSETVLI" "opcode inst \<noteq> Scalar CSRWI" "opcode inst \<noteq> Scalar CSRW"
  using int_ops_classes assms
  by (auto simp: CheckScalarOp_def CheckVectorOp_def CheckFloatOp_def CheckBranchOp_def CheckSegOp_def)

text \<open>The architectural registers that a packet has bound. Each costs one register of the free list.\<close>

definition bound_names :: "int \<Rightarrow> reg_file \<Rightarrow> int set" where
  "bound_names key rf = fst ` set (binding key rf)"

definition names_cost :: "int \<Rightarrow> int set \<Rightarrow> reg_file \<Rightarrow> reg_file \<Rightarrow> bool" where
  "names_cost key A rf rf' \<longleftrightarrow> bound_names key rf' = bound_names key rf \<union> A \<and>
     length (rf_free rf') + card (bound_names key rf') = length (rf_free rf) + card (bound_names key rf)"

lemma names_cost_trans: "names_cost key A rf rf' \<Longrightarrow> names_cost key B rf' rf'' \<Longrightarrow> names_cost key (A \<union> B) rf rf''"
  by (auto simp: names_cost_def)

lemma binding_bind: "binding key (rf_bind key reg p rf) = AList.update reg p (binding key rf)"
  by (simp add: binding_def rf_bind_def update_conv')

lemma take_bind_cost:
  assumes "rf_take rf = Inr (p, rf1)" "map_of (binding key rf) reg = None"
  shows "names_cost key {reg} rf (rf_bind key reg p rf1)"
proof -
  have "binding key rf1 = binding key rf" "length (rf_free rf) = Suc (length (rf_free rf1))"
    using assms(1) by (auto simp: rf_take_eq binding_def)
  moreover have "reg \<notin> bound_names key rf" "finite (bound_names key rf)"
    using assms(2) by (simp_all add: bound_names_def map_of_eq_None_iff)
  moreover have "rf_free (rf_bind key reg p rf1) = rf_free rf1"
    by (simp add: rf_bind_def)
  ultimately show ?thesis
    by (simp add: names_cost_def bound_names_def binding_bind dom_update)
qed

lemma rf_dest_cost:
  assumes "rf_dest key reg rf = Inr (p, rf')"
  shows "names_cost key {reg} rf rf'"
proof (cases "map_of (binding key rf) reg")
  case None
  then show ?thesis
    using assms take_bind_cost [OF _ None] by (auto simp: rf_dest_def res_simps)
next
  case (Some q)
  then have "reg \<in> bound_names key rf"
    by (force simp: bound_names_def dest: map_of_SomeD)
  then show ?thesis
    using assms Some by (auto simp: rf_dest_def names_cost_def)
qed

lemma dest_step_x:
  assumes "dest_step DestRenameX key inst (r, u) = Inr (r', u')"
  shows "\<exists>p. rf_dest key (dest inst) (ru_x u) = Inr (p, ru_x u')"
  using assms by (auto simp: dest_step_def DestRenameX_def res_simps)

lemma rename_int_cost:
  assumes "opcode inst \<in> set int_ops" "rename_inst key inst (r, u) = Inr (r', u')"
  shows "names_cost key {dest inst} (ru_x u) (ru_x u')"
proof -
  have "rename_scalar key inst (r, u) = Inr (r', u')"
    using assms(2) int_op_checks [OF assms(1)] by (simp add: rename_inst_def)
  then obtain r1 where "dest_step DestRenameX key inst (r1, u) = Inr (r', u')"
    using assms(1) by (auto simp: int_ops_def rename_scalar_def Let_def steps_def src_x_def res_simps)
  then show ?thesis
    using dest_step_x rf_dest_cost by blast
qed

lemma convert_int_cost:
  assumes "\<forall>i\<in>set insts. opcode i \<in> set int_ops" "res_foldl (convert_step key) (out, u) insts = Inr (out', u')"
  shows "names_cost key (dest ` set insts) (ru_x u) (ru_x u')"
  using assms
proof (induction insts arbitrary: out u)
  case (Cons i insts)
  then obtain r u1 where "rename_inst key i (i, u) = Inr (r, u1)" "res_foldl (convert_step key) (out @ [r], u1) insts = Inr (out', u')"
    by (auto simp: convert_step_def res_simps)
  then show ?case
    using names_cost_trans [OF rename_int_cost Cons.IH] Cons.prems(1) by fastforce
qed (simp add: names_cost_def)

lemma bind_initial_cost:
  assumes "bind_initial key reg val u = Inr u'" "reg \<notin> bound_names key (ru_x u)"
  shows "names_cost key {reg} (ru_x u) (ru_x u')"
proof -
  have "map_of (binding key (ru_x u)) reg = None"
    using assms(2) by (simp add: bound_names_def map_of_eq_None_iff)
  then show ?thesis
    using assms(1) take_bind_cost by (fastforce simp: bind_initial_def Let_def res_simps split: if_split_asm)
qed

text \<open>The renaming of a packet that has no registers yet.\<close>

lemma rename_push_cost:
  assumes "RenamePush c key u = Inr u'" "map_of (rf_map (ru_x u)) key = None" "\<forall>i\<in>set (ic_insts c). opcode i \<in> set int_ops"
  shows "length (rf_free (ru_x u)) = length (rf_free (ru_x u')) + card ({REG_X_BASE + 1, REG_X_BASE + 2} \<union> dest ` set (ic_insts c))"
proof -
  obtain u1 u2 out v where u: "bind_initial key (REG_X_BASE + 1) (ri_addr (ic_req c)) u = Inr u1"
    "bind_initial key (REG_X_BASE + 2) (ri_offset (ic_req c)) u1 = Inr u2"
    "res_foldl (convert_step key) ([], u2\<lparr>ru_cvt_vlmul := IMM_M1\<rparr>) (ic_insts c) = Inr (out, v)" "ru_x u' = ru_x v"
    using assms(1) by (auto simp: RenamePush_def Convert_def res_simps)
  have none: "bound_names key (ru_x u) = {}"
    using assms(2) by (simp add: bound_names_def binding_def)
  have "names_cost key {REG_X_BASE + 1} (ru_x u) (ru_x u1)"
    by (rule bind_initial_cost [OF u(1)]) (simp add: none)
  moreover from this have "names_cost key {REG_X_BASE + 2} (ru_x u1) (ru_x u2)"
    by (intro bind_initial_cost [OF u(2)]) (simp add: names_cost_def none)
  moreover have "names_cost key (dest ` set (ic_insts c)) (ru_x u2) (ru_x v)"
    using convert_int_cost [OF assms(3) u(3)] by simp
  ultimately have "names_cost key ({REG_X_BASE + 1} \<union> {REG_X_BASE + 2} \<union> dest ` set (ic_insts c)) (ru_x u) (ru_x v)"
    by (rule names_cost_trans [OF names_cost_trans])
  then show ?thesis
    by (auto simp: names_cost_def none u(4) insert_commute)
qed

lemma count_int_ops:
  assumes "\<forall>i\<in>set insts. opcode i \<in> set int_ops"
  shows "count_required_regs insts = (int (card (dest ` set insts)), 0, 0)"
proof -
  have one: "count_inst c i = c\<lparr>rc_x := insert (dest i) (rc_x c)\<rparr>" if "opcode i \<in> set int_ops" for c i
    using int_op_checks [OF that] by (simp add: count_inst_def)
  have "foldl count_inst c insts = c\<lparr>rc_x := rc_x c \<union> dest ` set insts\<rparr>" for c
    using assms by (induction insts arbitrary: c) (simp_all add: one)
  then show ?thesis
    by (simp add: count_required_regs_def Let_def)
qed

text \<open>
  C34. The admission check of renaming does not count the registers of \<^verbatim>\<open>x1\<close> and \<^verbatim>\<open>x2\<close>. A column of integer instructions, with the counts
  the buffer computes, is admitted exactly when there are as many free scalar registers as it has different destinations. Its renaming for a
  packet without registers, when it succeeds, takes one register for each of \<^verbatim>\<open>x1\<close>, \<^verbatim>\<open>x2\<close> and the destinations. So a column that writes neither
  \<^verbatim>\<open>x1\<close> nor \<^verbatim>\<open>x2\<close> is admitted with too few registers, and its renaming fails, when the free registers are enough for the destinations but
  not for two more.
\<close>

theorem rename_admission_insufficient:
  assumes "(ic_xregs c, ic_fregs c, ic_vregs c) = count_required_regs (ic_insts c)" "\<forall>i\<in>set (ic_insts c). opcode i \<in> set int_ops"
    and "map_of (rf_map (ru_x u)) key = None" "length (rf_free (ru_x u)) < 2 ^ 64"
    and "n = card (dest ` set (ic_insts c))" "n < 2 ^ 64"
  shows "(RenameFull c u \<longleftrightarrow> length (rf_free (ru_x u)) < n) \<and>
    (\<forall>u'. RenamePush c key u = Inr u' \<longrightarrow> length (rf_free (ru_x u)) =
       length (rf_free (ru_x u')) + card ({REG_X_BASE + 1, REG_X_BASE + 2} \<union> dest ` set (ic_insts c))) \<and>
    ({REG_X_BASE + 1, REG_X_BASE + 2} \<inter> dest ` set (ic_insts c) = {} \<and> n \<le> length (rf_free (ru_x u)) \<and> length (rf_free (ru_x u)) < n + 2 \<longrightarrow>
       \<not> RenameFull c u \<and> \<not> ok (RenamePush c key u))"
proof -
  have counts: "ic_xregs c = int n" "ic_fregs c = 0" "ic_vregs c = 0"
    using assms(1,5) count_int_ops [OF assms(2)] by simp_all
  have full: "RenameFull c u \<longleftrightarrow> length (rf_free (ru_x u)) < n"
    using assms(4,6) by (simp add: RenameFull_def exceeds_def counts word_less_nat_alt unsigned_of_nat take_bit_nat_eq_self)
  note cost = rename_push_cost [OF _ assms(3,2)]
  have "\<not> ok (RenamePush c key u)"
    if "{REG_X_BASE + 1, REG_X_BASE + 2} \<inter> dest ` set (ic_insts c) = {}" "length (rf_free (ru_x u)) < n + 2"
  proof -
    have "card ({REG_X_BASE + 1, REG_X_BASE + 2} \<union> dest ` set (ic_insts c)) = 2 + n"
      using that(1) assms(5) by (subst card_Un_disjoint) simp_all
    then show ?thesis
      using cost that(2) by (cases "RenamePush c key u") (auto simp: ok_def)
  qed
  then show ?thesis
    using full cost by auto
qed

text \<open>One addition to \<^verbatim>\<open>x3\<close> on a unit of two scalar registers.\<close>

theorem rename_admission_insufficient_witness:
  "\<not> RenameFull example_column (new_register_unit (0::nat) 0 2 0 0) \<and> \<not> ok (RenamePush example_column 7 (new_register_unit (0::nat) 0 2 0 0))"
proof -
  let ?u = "new_register_unit (0::nat) 0 2 0 0"
  have ops: "\<forall>i\<in>set (ic_insts example_column). opcode i \<in> set int_ops"
    by (simp add: example_column_def int_ops_def new_instruction_def)
  have counts: "(ic_xregs example_column, ic_fregs example_column, ic_vregs example_column) = count_required_regs (ic_insts example_column)"
    unfolding count_int_ops [OF ops] by (simp add: example_column_def)
  have regs: "map_of (rf_map (ru_x ?u)) 7 = None" "length (rf_free (ru_x ?u)) = 2"
    by (simp_all add: new_register_unit_def phys_regs_def)
  have one: "1 = card (dest ` set (ic_insts example_column))" "{REG_X_BASE + 1, REG_X_BASE + 2} \<inter> dest ` set (ic_insts example_column) = {}"
    by (simp_all add: example_column_def new_instruction_def)
  show ?thesis
    using rename_admission_insufficient [OF counts ops regs(1) _ one(1)] one(2) regs(2) by simp
qed

end
