(* ===== verification/UThread_Generator.thy ===== *)
theory UThread_Generator
  imports Instruction Address_Map Fifo_Pipeline "HOL-Library.AList"
begin

text \<open>
  \<^verbatim>\<open>src/uthread_generator.h\<close> and \<^verbatim>\<open>src/uthread_generator.cc\<close>: the front end of an NDP unit. A kernel launch over a
  range of memory becomes one request per packet of the range that belongs to this unit and per kernel body, between
  an initializer and a finalizer; launches wait for scratchpad space and are issued phase by phase, by counting the
  requests that finished. The static counter of request ids is part of the state. \<^verbatim>\<open>std::set<int>\<close> is its sorted
  list, \<^verbatim>\<open>std::map\<close> with a default on reading is a total function, and the map of launches, whose
  emptiness is observed, an association list. The arguments a launch writes into its
  scratchpad are in \<open>Functional_Core\<close>.
\<close>

section \<open>Model\<close>

record launch_info =
  li_kernel_id :: int
  li_base_addr :: u64
  li_size :: u64
  li_smem_size :: u64
  li_launch_id :: int

record uthread_config =
  uc_addr :: addr_config
  uc_spad_size :: int
  uc_max_kernel_launch :: int
  uc_coarse_grained :: bool
  uc_sc_work :: bool

record uthread_generator =
  ug_ndp_id :: int
  ug_launched :: bool
  ug_registered :: "int set"
  ug_num_kernel_bodies :: "int \<Rightarrow> int"
  ug_active :: "int list"
  ug_infos :: "(int \<times> launch_info) list"
  ug_launch_queue :: "int list"
  ug_generated :: "(int \<times> request_info list) list"
  ug_total :: "int \<Rightarrow> int"
  ug_count :: "int \<Rightarrow> int"
  ug_req_id :: u64

definition new_uthread_generator :: "int \<Rightarrow> u64 \<Rightarrow> uthread_generator" where
  "new_uthread_generator ndp_id req_id =
     \<lparr>ug_ndp_id = ndp_id, ug_launched = False, ug_registered = {}, ug_num_kernel_bodies = (\<lambda>_. 0), ug_active = [],
      ug_infos = [], ug_launch_queue = [], ug_generated = [], ug_total = (\<lambda>_. 0), ug_count = (\<lambda>_. 0),
      ug_req_id = req_id\<rparr>"

definition ug_register_kernel :: "ndp_kernel \<Rightarrow> uthread_generator \<Rightarrow> uthread_generator" where
  "ug_register_kernel k g =
     g\<lparr>ug_registered := insert (nk_kernel_id k) (ug_registered g),
       ug_num_kernel_bodies := (ug_num_kernel_bodies g)(nk_kernel_id k := nk_num_kernel_bodies k)\<rparr>"

definition ug_unregister_kernel :: "int \<Rightarrow> uthread_generator \<Rightarrow> uthread_generator" where
  "ug_unregister_kernel kernel_id g =
     g\<lparr>ug_registered := ug_registered g - {kernel_id},
       ug_num_kernel_bodies := (ug_num_kernel_bodies g)(kernel_id := 0)\<rparr>"

definition is_active :: "uthread_generator \<Rightarrow> bool" where
  "is_active g \<longleftrightarrow> ug_infos g \<noteq> []"

definition is_launch_active :: "int \<Rightarrow> uthread_generator \<Rightarrow> bool" where
  "is_launch_active launch_id g \<longleftrightarrow> map_of (ug_infos g) launch_id \<noteq> None"

definition check_addr_match :: "uthread_config \<Rightarrow> uthread_generator \<Rightarrow> u64 \<Rightarrow> bool res" where
  "check_addr_match uc g addr =
     res_bind (get_matched_unit_id (uc_addr uc) addr) (\<lambda>i.
       Inr (i = word_of_int (ug_ndp_id g mod sint (m_num_ndp_units (uc_addr uc)))))"

text \<open>The loop \<^verbatim>\<open>for (addr = base; addr < base + size; addr += PACKET_SIZE)\<close>, which need not end.\<close>

partial_function (option) packet_addrs :: "u64 \<Rightarrow> u64 \<Rightarrow> u64 list option" where
  [code]: "packet_addrs addr limit =
     (if addr < limit then Option.bind (packet_addrs (addr + 32) limit) (\<lambda>xs. Some (addr # xs)) else Some [])"

definition matched_addrs :: "uthread_config \<Rightarrow> uthread_generator \<Rightarrow> u64 list \<Rightarrow> u64 list res" where
  "matched_addrs uc g addrs =
     res_foldl (\<lambda>out a. res_bind (check_addr_match uc g a) (\<lambda>m. Inr (if m then out @ [a] else out))) [] addrs"

definition new_request :: "launch_info \<Rightarrow> RequestType \<Rightarrow> u32 \<Rightarrow> u64 \<Rightarrow> u64 \<Rightarrow> request_info" where
  "new_request li ty body addr offset =
     \<lparr>ri_type = ty, ri_id = 0, ri_launch_id = word_of_int (li_launch_id li), ri_kernel_id = word_of_int (li_kernel_id li),
      ri_kernel_body_id = body, ri_addr = addr, ri_offset = offset\<rparr>"

text \<open>The requests in the order they are made; the ids of the static counter follow that order.\<close>

definition body_requests :: "launch_info \<Rightarrow> u64 list \<Rightarrow> nat \<Rightarrow> request_info list" where
  "body_requests li addrs kid =
     map (\<lambda>a. new_request li KERNEL_BODY (of_nat kid) a (a - li_base_addr li)) addrs"

definition number_requests :: "u64 \<Rightarrow> request_info list \<Rightarrow> request_info list" where
  "number_requests req_id rs = map (\<lambda>(i, r). r\<lparr>ri_id := req_id + of_nat i\<rparr>) (zip [0..<length rs] rs)"

definition launch_requests :: "launch_info \<Rightarrow> int \<Rightarrow> int \<Rightarrow> u64 list \<Rightarrow> request_info list" where
  "launch_requests li ndp_id num_bodies addrs =
     (let edge = (\<lambda>ty. new_request li ty 0 (li_base_addr li) (word_of_int ndp_id));
          bodies = concat (map (body_requests li addrs) (0 # [1..<nat num_bodies]))
      in if addrs = [] then [] else edge INITIALIZER # bodies @ [edge FINALIZER])"

definition finish_launch :: "int \<Rightarrow> uthread_generator \<Rightarrow> uthread_generator" where
  "finish_launch launch_id g =
     g\<lparr>ug_active := removeAll launch_id (ug_active g), ug_total := (ug_total g)(launch_id := 0),
       ug_count := (ug_count g)(launch_id := 0), ug_infos := AList.delete launch_id (ug_infos g)\<rparr>"

text \<open>Reading \<^verbatim>\<open>m_launch_infos[id]\<close>: an absent launch is created with all fields 0.\<close>

definition default_info :: launch_info where
  "default_info = \<lparr>li_kernel_id = 0, li_base_addr = 0, li_size = 0, li_smem_size = 0, li_launch_id = 0\<rparr>"

definition read_info :: "int \<Rightarrow> uthread_generator \<Rightarrow> launch_info \<times> uthread_generator" where
  "read_info i g =
     (case map_of (ug_infos g) i of
        Some li \<Rightarrow> (li, g)
      | None \<Rightarrow> (default_info, g\<lparr>ug_infos := AList.update i default_info (ug_infos g)\<rparr>))"

definition get_allocated_spad_size :: "uthread_generator \<Rightarrow> u32 \<times> uthread_generator" where
  "get_allocated_spad_size g =
     foldl (\<lambda>(sz, g) i. let (li, g) = read_info i g in (ucast (ucast sz + li_smem_size li), g)) (0, g) (ug_active g)"

definition check_kernel_launch :: "uthread_config \<Rightarrow> uthread_generator \<Rightarrow> uthread_generator" where
  "check_kernel_launch uc g =
     (case ug_launch_queue g of
        [] \<Rightarrow> g
      | launch_id # rest \<Rightarrow>
          if ug_launched g then g
          else
            let (li, g) = read_info launch_id g; (alloc, g) = get_allocated_spad_size g
            in if li_smem_size li + ucast alloc \<le> word_of_int (uc_spad_size uc - 8192) \<and>
                  (of_nat (length (ug_active g)) :: u64) < word_of_int (uc_max_kernel_launch uc)
               then g\<lparr>ug_active := (if launch_id \<in> set (ug_active g) then ug_active g else insort launch_id (ug_active g)),
                      ug_launch_queue := rest, ug_launched := True\<rparr>
               else g)"

definition launch :: "uthread_config \<Rightarrow> launch_info \<Rightarrow> uthread_generator \<Rightarrow> uthread_generator res" where
  "launch uc li g =
     (let i = li_launch_id li; g = g\<lparr>ug_infos := AList.update i li (ug_infos g)\<rparr>
      in res_bind (assert_that (li_smem_size li \<le> word_of_int (uc_spad_size uc)) ''smem_size <= get_spad_size()'') (\<lambda>_.
         res_bind (assert_that (li_size li mod 32 = 0) ''size % PACKET_SIZE == 0'') (\<lambda>_.
         if li_kernel_id li \<notin> ug_registered g then Inr g
         else
           case packet_addrs (li_base_addr li) (li_base_addr li + li_size li) of
             None \<Rightarrow> Inl (Runtime_Error ''loop does not end'')
           | Some addrs \<Rightarrow>
               res_bind (matched_addrs uc g addrs) (\<lambda>ms.
               let rs = number_requests (ug_req_id g)
                     (launch_requests li (ug_ndp_id g) (ug_num_kernel_bodies g (li_kernel_id li)) ms);
                   g = g\<lparr>ug_req_id := ug_req_id g + of_nat (length rs), ug_total := (ug_total g)(i := int (length rs)),
                         ug_count := (ug_count g)(i := 0)\<rparr>;
                   g = (if rs \<noteq> [] then g\<lparr>ug_launch_queue := ug_launch_queue g @ [i],
                                           ug_generated := AList.update i rs (ug_generated g)\<rparr>
                        else finish_launch i g)
               in Inr (check_kernel_launch uc g)))))"

definition increase_count :: "int \<Rightarrow> uthread_generator \<Rightarrow> uthread_generator" where
  "increase_count launch_id g = g\<lparr>ug_count := (ug_count g)(launch_id := ug_count g launch_id + 1)\<rparr>"

text \<open>
  \<^verbatim>\<open>info->launch_id\<close> indexes maps keyed by \<^verbatim>\<open>int\<close>, so it is read back as a signed 32-bit number; the C++
  division truncates.
\<close>

definition req_launch :: "request_info \<Rightarrow> int" where
  "req_launch r = sint (ucast (ri_launch_id r) :: u32)"

definition cdiv :: "int \<Rightarrow> int \<Rightarrow> int" where
  "cdiv a b = (if (a < 0) \<noteq> (b < 0) then - (\<bar>a\<bar> div \<bar>b\<bar>) else \<bar>a\<bar> div \<bar>b\<bar>)"

definition check_can_issue :: "uthread_generator \<Rightarrow> request_info \<Rightarrow> bool res" where
  "check_can_issue g r =
     (let i = req_launch r; c = ug_count g i; n = ug_total g i
      in case ri_type r of
           INITIALIZER \<Rightarrow> Inr True
         | KERNEL_BODY \<Rightarrow>
             if c = 0 then Inr False
             else
               let nb = ug_num_kernel_bodies g (sint (ri_kernel_id r))
               in if nb = 0 then Inl Div_By_Zero
                  else let reqs_per_body = cdiv (n - 2) nb
                       in if reqs_per_body = 0 then Inl Div_By_Zero
                          else Inr (ri_kernel_body_id r = word_of_int (cdiv (c - 1) reqs_per_body))
         | FINALIZER \<Rightarrow> Inr (c = n - 1))"

fun next_launch_scan :: "uthread_generator \<Rightarrow> int list \<Rightarrow> int res" where
  "next_launch_scan g [] = Inr (- 1)"
| "next_launch_scan g (i # is') =
     (case map_of (ug_generated g) i of
        None \<Rightarrow> next_launch_scan g is'
      | Some [] \<Rightarrow> next_launch_scan g is'
      | Some (r # _) \<Rightarrow> res_bind (check_can_issue g r) (\<lambda>b. if b then Inr i else next_launch_scan g is'))"

definition get_next_launch_id :: "uthread_generator \<Rightarrow> int res" where
  "get_next_launch_id g = next_launch_scan g (ug_active g)"

text \<open>The requests of a launch; reading the map creates an empty entry, which the code then erases.\<close>

definition requests_of :: "int \<Rightarrow> uthread_generator \<Rightarrow> request_info list" where
  "requests_of i g = (case map_of (ug_generated g) i of None \<Rightarrow> [] | Some rs \<Rightarrow> rs)"

definition issue :: "int \<Rightarrow> request_info \<Rightarrow> request_info list \<Rightarrow> uthread_generator \<times> request_info fifo_pipeline
    \<Rightarrow> (uthread_generator \<times> request_info fifo_pipeline) res" where
  "issue i r rs = (\<lambda>(g, q). res_bind (fp_push (Some r) q) (\<lambda>q.
     Inr (g\<lparr>ug_generated := AList.update i rs (ug_generated g)\<rparr>, q)))"

text \<open>One round of the loop of \<^verbatim>\<open>generate_uthreads\<close>: the flags say whether a request went out and whether to stop.\<close>

definition generate_one ::
  "uthread_generator \<times> request_info fifo_pipeline
    \<Rightarrow> (bool \<times> bool \<times> uthread_generator \<times> request_info fifo_pipeline) res" where
  "generate_one = (\<lambda>(g, q).
     if ug_active g \<noteq> [] \<and> ug_generated g \<noteq> [] then
       res_bind (get_next_launch_id g) (\<lambda>i.
       if i = - 1 then Inr (False, True, g, q)
       else case requests_of i g of
              [] \<Rightarrow> Inr (False, True, g\<lparr>ug_generated := AList.delete i (ug_generated g)\<rparr>, q)
            | r # rs \<Rightarrow>
                if ri_type r = KERNEL_BODY \<and> 1 \<le> ug_count g i then
                  res_bind (issue i r rs (g, q)) (\<lambda>(g, q). Inr (True, False, g, q))
                else Inr (False, False, g, q))
     else Inr (False, False, g, q))"

fun generate_uthreads ::
  "nat \<Rightarrow> bool \<Rightarrow> uthread_generator \<times> request_info fifo_pipeline
    \<Rightarrow> (bool \<times> uthread_generator \<times> request_info fifo_pipeline) res" where
  "generate_uthreads 0 can_issue (g, q) = Inr (can_issue, g, q)"
| "generate_uthreads (Suc n) can_issue (g, q) =
     res_bind (generate_one (g, q)) (\<lambda>(sent, stop, g, q).
       if stop then Inr (False, g, q) else generate_uthreads n (can_issue \<or> sent) (g, q))"

text \<open>The part of \<^verbatim>\<open>cycle\<close> for the first and the last request of a launch; the flag says that the code returned.\<close>

definition issue_edge ::
  "uthread_generator \<times> request_info fifo_pipeline \<Rightarrow> (bool \<times> uthread_generator \<times> request_info fifo_pipeline) res" where
  "issue_edge = (\<lambda>(g, q).
     if ug_active g \<noteq> [] \<and> ug_generated g \<noteq> [] then
       res_bind (get_next_launch_id g) (\<lambda>i.
       if i = - 1 then Inr (True, g, q)
       else case requests_of i g of
              [] \<Rightarrow> Inr (True, g\<lparr>ug_generated := AList.delete i (ug_generated g)\<rparr>, q)
            | r # rs \<Rightarrow>
                if ri_type r = FINALIZER \<and> ug_count g i = ug_total g i - 1 \<or> ri_type r = INITIALIZER then
                  res_bind (issue i r rs (g, q)) (\<lambda>(g, q). Inr (False, g, q))
                else Inr (False, g, q))
     else Inr (False, g, q))"

definition ug_cycle ::
  "uthread_config \<Rightarrow> uthread_generator \<times> request_info fifo_pipeline
    \<Rightarrow> (uthread_generator \<times> request_info fifo_pipeline) res" where
  "ug_cycle uc = (\<lambda>(g, q).
     let g = check_kernel_launch uc g
     in res_bind (if \<not> uc_coarse_grained uc \<and> \<not> uc_sc_work uc then generate_uthreads 1 False (g, q) else Inr (False, g, q))
          (\<lambda>(_, g, q).
        res_bind (issue_edge (g, q)) (\<lambda>(returned, g, q).
          Inr (if returned then g else g\<lparr>ug_launched := False\<rparr>, q))))"

section \<open>Lemmas\<close>

lemma packet_addrs_upto:
  "unat a + 32 * n < 2 ^ 64 \<Longrightarrow> packet_addrs a (a + of_nat (32 * n)) = Some (map (\<lambda>i. a + of_nat (32 * i)) [0..<n])"
proof (induction n arbitrary: a)
  case 0
  then show ?case by (simp add: packet_addrs.simps)
next
  case (Suc n)
  have u: "unat (a + 32) = unat a + 32"
    using Suc.prems by (simp add: unat_word_ariths)
  have "unat (a + of_nat (32 * Suc n)) = unat a + 32 * Suc n"
    using Suc.prems by (simp only: unat_word_ariths unat_of_nat) simp
  then have less: "a < a + of_nat (32 * Suc n)"
    by (simp add: word_less_nat_alt)
  have lim: "a + of_nat (32 * Suc n) = (a + 32) + of_nat (32 * n)"
    by (simp add: algebra_simps)
  have "packet_addrs (a + 32) (a + of_nat (32 * Suc n)) = Some (map (\<lambda>i. (a + 32) + of_nat (32 * i)) [0..<n])"
    unfolding lim using Suc.IH [of "a + 32"] Suc.prems u by simp
  moreover have "map (\<lambda>i. (a + 32) + of_nat (32 * i)) [0..<n] = map (\<lambda>i. a + of_nat (32 * i)) [1..<Suc n]"
    unfolding map_Suc_upt [of 0 n, symmetric] One_nat_def by (simp add: algebra_simps)
  ultimately show ?case
    using less by (subst packet_addrs.simps) (simp add: upt_conv_Cons del: upt_Suc)
qed

lemma packet_addrs_range:
  assumes "sz mod 32 = 0"
  shows "packet_addrs base (base + sz) =
    Some (if unat base + unat sz < 2 ^ 64 then map (\<lambda>i. base + of_nat (32 * i)) [0..<unat sz div 32] else [])"
proof (cases "unat base + unat sz < 2 ^ 64")
  case True
  have "unat sz mod 32 = unat (sz mod 32)"
    by (simp add: unat_mod)
  then have "unat sz mod 32 = 0"
    using assms by simp
  then have m: "32 * (unat sz div 32) = unat sz"
    by presburger
  have e: "of_nat (32 * (unat sz div 32)) = sz"
    unfolding m by simp
  have "unat base + 32 * (unat sz div 32) < 2 ^ 64"
    using True m by simp
  from packet_addrs_upto [OF this] show ?thesis
    unfolding e using True by simp
next
  case False
  have "unat (base + sz) = unat base + unat sz - 2 ^ 64"
    using False unat_plus_if' [of base sz] by simp
  moreover have "unat sz < 2 ^ 64"
    using unsigned_less [of sz] by simp
  ultimately have "\<not> base < base + sz"
    using False by (simp add: word_less_nat_alt)
  then show ?thesis
    using False by (subst packet_addrs.simps) simp
qed

lemma matched_addrs_fold:
  "res_foldl (\<lambda>out a. res_bind (check_addr_match uc g a) (\<lambda>m. Inr (if m then out @ [a] else out))) out addrs = Inr ms
    \<Longrightarrow> ms = out @ filter (\<lambda>a. check_addr_match uc g a = Inr True) addrs"
proof (induction addrs arbitrary: out)
  case (Cons a addrs)
  then obtain m where "check_addr_match uc g a = Inr m"
    "res_foldl (\<lambda>out a. res_bind (check_addr_match uc g a) (\<lambda>m. Inr (if m then out @ [a] else out)))
       (if m then out @ [a] else out) addrs = Inr ms"
    by (auto simp: res_simps)
  then show ?case
    using Cons.IH by (cases m) fastforce+
qed simp

lemmas matched_addrs_eq = matched_addrs_fold [where out = "[]", folded matched_addrs_def, simplified]

lemma check_kernel_launch_frame:
  "ug_count (check_kernel_launch uc g) = ug_count g \<and> ug_total (check_kernel_launch uc g) = ug_total g \<and>
   ug_num_kernel_bodies (check_kernel_launch uc g) = ug_num_kernel_bodies g \<and>
   ug_generated (check_kernel_launch uc g) = ug_generated g"
proof -
  have r: "ug_count (snd (read_info i g)) = ug_count g" "ug_total (snd (read_info i g)) = ug_total g"
    "ug_num_kernel_bodies (snd (read_info i g)) = ug_num_kernel_bodies g"
    "ug_generated (snd (read_info i g)) = ug_generated g" "ug_active (snd (read_info i g)) = ug_active g" for i g
    by (auto simp: read_info_def split: option.splits)
  have a: "ug_count (snd (foldl (\<lambda>(sz, g) i. let (li, g) = read_info i g in (ucast (ucast sz + li_smem_size li), g)) (sz, g) is')) = ug_count g \<and>
    ug_total (snd (foldl (\<lambda>(sz, g) i. let (li, g) = read_info i g in (ucast (ucast sz + li_smem_size li), g)) (sz, g) is')) = ug_total g \<and>
    ug_num_kernel_bodies (snd (foldl (\<lambda>(sz, g) i. let (li, g) = read_info i g in (ucast (ucast sz + li_smem_size li), g)) (sz, g) is')) = ug_num_kernel_bodies g \<and>
    ug_generated (snd (foldl (\<lambda>(sz, g) i. let (li, g) = read_info i g in (ucast (ucast sz + li_smem_size li), g)) (sz, g) is')) = ug_generated g"
    for sz :: u32 and g is'
    by (induction is' arbitrary: sz g) (simp_all add: case_prod_unfold Let_def r)
  show ?thesis
    using a [of 0] r
    by (simp add: check_kernel_launch_def get_allocated_spad_size_def case_prod_unfold Let_def split: list.splits)
qed

lemma check_can_issue_cong:
  "ug_count g' = ug_count g \<Longrightarrow> ug_total g' = ug_total g \<Longrightarrow> ug_num_kernel_bodies g' = ug_num_kernel_bodies g \<Longrightarrow>
    check_can_issue g' = check_can_issue g"
  by (rule ext) (simp add: check_can_issue_def Let_def split: RequestType.split)

lemma next_launch_scan_front:
  "next_launch_scan g is' = Inr i \<Longrightarrow> i \<noteq> - 1 \<Longrightarrow> requests_of i g = r # rs \<Longrightarrow> check_can_issue g r = Inr True"
proof (induction is')
  case (Cons j is')
  show ?case
  proof (cases "requests_of j g")
    case Nil
    then show ?thesis
      using Cons by (auto simp: requests_of_def split: option.splits)
  next
    case (Cons q qs)
    then have "map_of (ug_generated g) j = Some (q # qs)"
      by (auto simp: requests_of_def split: option.splits)
    then show ?thesis
      using Cons.prems Cons.IH Cons \<open>requests_of j g = q # qs\<close> Cons.prems
      by (auto simp: res_simps split: if_splits)
  qed
qed simp

lemma issue_facts:
  assumes "fp_plain q" "issue i r rs (g, q) = Inr (g', q')"
  shows "fp_plain q' \<and> fp_data q' = fp_data q @ [r] \<and> ug_count g' = ug_count g \<and> ug_total g' = ug_total g \<and>
    ug_num_kernel_bodies g' = ug_num_kernel_bodies g"
  using assms fp_push_plain [OF assms(1), of r] by (auto simp: issue_def res_simps)

text \<open>What one issue attempt does to the queue: nothing, or one request that may be issued.\<close>

definition issues :: "uthread_generator \<times> request_info fifo_pipeline \<Rightarrow> uthread_generator \<times> request_info fifo_pipeline \<Rightarrow> bool" where
  "issues = (\<lambda>(g, q) (g', q'). fp_plain q' \<and> check_can_issue g' = check_can_issue g \<and>
     (\<exists>new. fp_data q' = fp_data q @ new \<and> length new \<le> 1 \<and> (\<forall>r\<in>set new. check_can_issue g r = Inr True)))"

lemma issues_refl: "fp_plain q \<Longrightarrow> ug_count g' = ug_count g \<Longrightarrow> ug_total g' = ug_total g \<Longrightarrow>
    ug_num_kernel_bodies g' = ug_num_kernel_bodies g \<Longrightarrow> issues (g, q) (g', q)"
  using check_can_issue_cong [of g' g] by (simp add: issues_def)

lemma issue_issues:
  assumes "fp_plain q" "get_next_launch_id g = Inr i" "i \<noteq> - 1" "requests_of i g = r # rs"
    "issue i r rs (g, q) = Inr (g', q')"
  shows "issues (g, q) (g', q')"
  using issue_facts [OF assms(1,5)] next_launch_scan_front [OF assms(2) [unfolded get_next_launch_id_def] assms(3,4)]
    check_can_issue_cong [of g' g] by (auto simp: issues_def)

lemma generate_one_issues:
  assumes "fp_plain q" "generate_one (g, q) = Inr (sent, stop, g', q')"
  shows "issues (g, q) (g', q')"
proof (cases "ug_active g \<noteq> [] \<and> ug_generated g \<noteq> []")
  case True
  then obtain i where i: "get_next_launch_id g = Inr i"
    using assms(2) by (auto simp: generate_one_def res_simps)
  show ?thesis
    using assms True i issues_refl [OF assms(1)] issue_issues [OF assms(1) i]
    by (auto simp: generate_one_def res_simps split: if_splits list.splits)
qed (use assms issues_refl in \<open>auto simp: generate_one_def\<close>)

lemma issue_edge_issues:
  assumes "fp_plain q" "issue_edge (g, q) = Inr (ret, g', q')"
  shows "issues (g, q) (g', q')"
proof (cases "ug_active g \<noteq> [] \<and> ug_generated g \<noteq> []")
  case True
  then obtain i where i: "get_next_launch_id g = Inr i"
    using assms(2) by (auto simp: issue_edge_def res_simps)
  show ?thesis
    using assms True i issues_refl [OF assms(1)] issue_issues [OF assms(1) i]
    by (auto simp: issue_edge_def res_simps split: if_splits list.splits)
qed (use assms issues_refl in \<open>auto simp: issue_edge_def\<close>)

lemma generate_uthreads_1:
  "generate_uthreads 1 False (g, q) = Inr (b, g', q') \<Longrightarrow> \<exists>sent stop. generate_one (g, q) = Inr (sent, stop, g', q')"
  by (auto simp: res_simps split: if_splits)

section \<open>An example\<close>

text \<open>One unit, 64 bytes of scratchpad over the reserve, one kernel with two bodies.\<close>

definition example_uthread_config :: uthread_config where
  "example_uthread_config =
     \<lparr>uc_addr = \<lparr>m_addrdec_mask = (\<lambda>_. 0), m_channel_indexing_policy = 0, m_num_channels = 1, m_num_ndp_units = 2,
        m_stride_size = 32, shmem_option = []\<rparr>,
      uc_spad_size = 16384, uc_max_kernel_launch = 2, uc_coarse_grained = False, uc_sc_work = False\<rparr>"

definition example_generator :: uthread_generator where
  "example_generator =
     (new_uthread_generator 1 100)\<lparr>ug_registered := {5}, ug_num_kernel_bodies := (\<lambda>_. 0)(5 := 2)\<rparr>"

definition example_launch :: launch_info where
  "example_launch =
     \<lparr>li_kernel_id = 5, li_base_addr = 0x1000, li_size = 128, li_smem_size = 64, li_launch_id = 3\<rparr>"

section \<open>Properties\<close>

text \<open>
  C27. The loop over the packets of a launch ends whenever the size is a multiple of the packet size, the condition the
  launch asserts, and visits exactly the packets of the range in order; a range that wraps around the end of the
  address space is empty.
\<close>

theorem launch_loop_terminates:
  assumes "li_size li mod 32 = 0"
  shows "packet_addrs (li_base_addr li) (li_base_addr li + li_size li) =
    Some (if unat (li_base_addr li) + unat (li_size li) < 2 ^ 64
          then map (\<lambda>i. li_base_addr li + of_nat (32 * i)) [0..<unat (li_size li) div 32] else [])"
  by (rule packet_addrs_range [OF assms])

theorem launch_loop_terminates_witness:
  "packet_addrs 0x1000 0x1040 = Some [0x1000, 0x1020]"
  using launch_loop_terminates [of "\<lparr>li_kernel_id = 0, li_base_addr = 0x1000, li_size = 0x40, li_smem_size = 0, li_launch_id = 0\<rparr>"]
  by (simp add: upt_conv_Cons)

text \<open>
  C22. Phases are kept apart: whatever a cycle puts on the request queue (at most two requests, behind those already
  there) may be issued by the counts: a body request only after the initializer finished and while exactly the bodies before
  its own are complete, a finalizer only when every other request of its launch has finished.
\<close>

theorem cycle_respects_phases:
  assumes "fp_plain q" "ug_cycle uc (g, q) = Inr (g', q')"
  shows "fp_plain q' \<and> (\<exists>new. fp_data q' = fp_data q @ new \<and> length new \<le> 2 \<and>
    (\<forall>r\<in>set new. let c = ug_count g (req_launch r); n = ug_total g (req_launch r) in
      (ri_type r = KERNEL_BODY \<longrightarrow> c \<noteq> 0 \<and> ri_kernel_body_id r =
         word_of_int (cdiv (c - 1) (cdiv (n - 2) (ug_num_kernel_bodies g (sint (ri_kernel_id r)))))) \<and>
      (ri_type r = FINALIZER \<longrightarrow> c = n - 1)))"
proof -
  let ?g = "check_kernel_launch uc g"
  have c0: "check_can_issue ?g = check_can_issue g"
    using check_kernel_launch_frame [of uc g] check_can_issue_cong by blast
  obtain g1 q1 ret g2 where
    s: "(if \<not> uc_coarse_grained uc \<and> \<not> uc_sc_work uc then \<exists>sent stop. generate_one (?g, q) = Inr (sent, stop, g1, q1)
         else (g1, q1) = (?g, q))"
    and e: "issue_edge (g1, q1) = Inr (ret, g2, q')"
    using assms(2) generate_uthreads_1 [of ?g q]
    by (auto simp: ug_cycle_def Let_def res_simps simp del: generate_uthreads.simps split: if_splits)
  have i1: "issues (?g, q) (g1, q1)"
    using s generate_one_issues [OF assms(1)] issues_refl [OF assms(1), of ?g ?g] by (auto split: if_splits)
  then have "fp_plain q1" "check_can_issue g1 = check_can_issue g"
    using c0 by (auto simp: issues_def)
  moreover from this(1) have "issues (g1, q1) (g2, q')"
    by (rule issue_edge_issues [OF _ e])
  ultimately obtain n1 n2 where n: "fp_plain q'" "fp_data q' = fp_data q @ n1 @ n2" "length n1 \<le> 1" "length n2 \<le> 1"
    "\<forall>r\<in>set (n1 @ n2). check_can_issue g r = Inr True"
    using i1 c0 by (fastforce simp: issues_def)
  have may: "let c = ug_count g (req_launch r); n = ug_total g (req_launch r) in
      (ri_type r = KERNEL_BODY \<longrightarrow> c \<noteq> 0 \<and> ri_kernel_body_id r =
         word_of_int (cdiv (c - 1) (cdiv (n - 2) (ug_num_kernel_bodies g (sint (ri_kernel_id r)))))) \<and>
      (ri_type r = FINALIZER \<longrightarrow> c = n - 1)" if "check_can_issue g r = Inr True" for r
    using that by (auto simp: check_can_issue_def Let_def split: if_splits)
  show ?thesis
    using n may by (intro conjI exI [of _ "n1 @ n2"]) auto
qed

theorem cycle_respects_phases_witness:
  "\<exists>g' q' new. ug_cycle example_uthread_config
      (projr (launch example_uthread_config example_launch example_generator), projr (new_fifo_pipeline ''q'' 0 8)) = Inr (g', q') \<and>
    fp_data q' = new \<and> length new \<le> 2"
proof -
  let ?g = "projr (launch example_uthread_config example_launch example_generator)"
  let ?q = "projr (new_fifo_pipeline ''q'' 0 8) :: request_info fifo_pipeline"
  have "case ug_cycle example_uthread_config (?g, ?q) of Inr _ \<Rightarrow> True | Inl _ \<Rightarrow> False"
    by code_simp
  then obtain g' q' where c: "ug_cycle example_uthread_config (?g, ?q) = Inr (g', q')"
    by (auto split: sum.splits)
  have "new_fifo_pipeline ''q'' 0 8 = Inr ?q"
    by (simp add: new_fifo_pipeline_def)
  note q = new_fifo_pipeline_plain [OF this]
  show ?thesis
    using cycle_respects_phases [OF q(1) c] c q(2) by auto
qed

text \<open>
  C24. A launch covers its range: for a registered kernel whose range holds packets of this unit, the requests
  generated are an initializer, then for each body, in order, one request per packet of the range that belongs
  to the unit, in address order and with its offset, then a finalizer; and the total is their number.
\<close>

theorem launch_covers_range:
  assumes "launch uc li g = Inr g'" "li_kernel_id li \<in> ug_registered g" "ug_num_kernel_bodies g (li_kernel_id li) = int (Suc nb)"
    and "unat (li_base_addr li) + unat (li_size li) < 2 ^ 64"
    and "ms = filter (\<lambda>a. check_addr_match uc (g\<lparr>ug_infos := AList.update (li_launch_id li) li (ug_infos g)\<rparr>) a = Inr True)
           (map (\<lambda>i. li_base_addr li + of_nat (32 * i)) [0..<unat (li_size li) div 32])" "ms \<noteq> []"
  shows "map (\<lambda>r. (ri_type r, ri_kernel_body_id r, ri_addr r, ri_offset r)) (requests_of (li_launch_id li) g') =
      (INITIALIZER, 0, li_base_addr li, word_of_int (ug_ndp_id g)) #
      concat (map (\<lambda>k. map (\<lambda>a. (KERNEL_BODY, of_nat k, a, a - li_base_addr li)) ms) [0..<Suc nb]) @
      [(FINALIZER, 0, li_base_addr li, word_of_int (ug_ndp_id g))] \<and>
    ug_total g' (li_launch_id li) = int (2 + Suc nb * length ms)"
proof -
  let ?i = "li_launch_id li" and ?g = "g\<lparr>ug_infos := AList.update (li_launch_id li) li (ug_infos g)\<rparr>"
  let ?rs = "launch_requests li (ug_ndp_id g) (int (Suc nb)) ms"
  have sz: "li_size li mod 32 = 0"
    using assms(1) by (auto simp: launch_def Let_def res_simps)
  obtain addrs where a: "packet_addrs (li_base_addr li) (li_base_addr li + li_size li) = Some addrs"
    "addrs = map (\<lambda>i. li_base_addr li + of_nat (32 * i)) [0..<unat (li_size li) div 32]"
    using packet_addrs_range [OF sz, of "li_base_addr li"] assms(4) by simp
  have m: "matched_addrs uc ?g addrs = Inr ms"
  proof -
    obtain ms' where "matched_addrs uc ?g addrs = Inr ms'"
      using assms(1,2) a(1) by (auto simp: launch_def Let_def res_simps)
    then show ?thesis
      using matched_addrs_eq assms(5) a(2) by blast
  qed
  have ne: "number_requests (ug_req_id g) ?rs \<noteq> []" "length (number_requests (ug_req_id g) ?rs) = length ?rs"
    using assms(6) by (auto simp: number_requests_def launch_requests_def Let_def)
  have g': "requests_of ?i g' = number_requests (ug_req_id g) ?rs" "ug_total g' ?i = int (length ?rs)"
    using assms(1-3) a(1) m ne check_kernel_launch_frame
    by (auto simp: launch_def Let_def res_simps requests_of_def AList.update_conv')
  have num: "map h (number_requests n rs) = map h rs" if "\<And>r i. h (r\<lparr>ri_id := i\<rparr>) = h r" for h :: "request_info \<Rightarrow> 'z" and n rs
    using that by (auto simp: number_requests_def intro!: nth_equalityI)
  have bodies: "map (\<lambda>r. (ri_type r, ri_kernel_body_id r, ri_addr r, ri_offset r)) (concat (map (body_requests li ms) ks)) =
      concat (map (\<lambda>k. map (\<lambda>a. (KERNEL_BODY, of_nat k, a, a - li_base_addr li)) ms) ks)" for ks
    by (induction ks) (simp_all add: body_requests_def new_request_def)
  have len: "length (concat (map (body_requests li ms) ks)) = length ks * length ms" for ks
    by (induction ks) (simp_all add: body_requests_def)
  have ks: "0 # [1..<nat (int (Suc nb))] = [0..<Suc nb]"
    unfolding nat_int by (simp add: upt_conv_Cons del: upt_Suc)
  show ?thesis
    using g' assms(6) bodies [of "[0..<Suc nb]"] len [of "[0..<Suc nb]"]
    unfolding launch_requests_def Let_def ks by (simp add: num new_request_def del: upt_Suc)
qed

theorem launch_covers_range_witness:
  "\<exists>g'. launch example_uthread_config example_launch example_generator = Inr g' \<and> ug_total g' 3 = 6"
proof -
  have "case launch example_uthread_config example_launch example_generator of Inr _ \<Rightarrow> True | Inl _ \<Rightarrow> False"
    by code_simp
  then obtain g' where g': "launch example_uthread_config example_launch example_generator = Inr g'"
    by (auto split: sum.splits)
  have ms: "[0x1020, 0x1060] = filter (\<lambda>a. check_addr_match example_uthread_config (example_generator\<lparr>ug_infos :=
      AList.update (li_launch_id example_launch) example_launch (ug_infos example_generator)\<rparr>) a = Inr True)
      (map (\<lambda>i. li_base_addr example_launch + of_nat (32 * i)) [0..<unat (li_size example_launch) div 32])"
    by code_simp
  have "li_kernel_id example_launch \<in> ug_registered example_generator"
    "ug_num_kernel_bodies example_generator (li_kernel_id example_launch) = int (Suc 1)"
    "unat (li_base_addr example_launch) + unat (li_size example_launch) < 2 ^ 64" "li_launch_id example_launch = 3"
    by (simp_all add: example_launch_def example_generator_def)
  then show ?thesis
    using launch_covers_range [OF g' _ _ _ ms] g' by auto
qed

text \<open>
  Launching a kernel that is not registered leaves the launch active for good: it is entered into the table of
  launches but no request is generated and nothing is queued, so nothing ever finishes it.
\<close>

theorem unregistered_launch_stays_active:
  assumes "li_kernel_id li \<notin> ug_registered g" "launch uc li g = Inr g'"
  shows "is_launch_active (li_launch_id li) g' \<and> ug_launch_queue g' = ug_launch_queue g \<and>
    ug_generated g' = ug_generated g \<and> ug_active g' = ug_active g"
  using assms by (auto simp: launch_def Let_def res_simps is_launch_active_def AList.update_conv')

theorem unregistered_launch_stays_active_witness:
  "\<exists>g'. launch example_uthread_config example_launch (new_uthread_generator 1 100) = Inr g' \<and> is_launch_active 3 g'"
proof -
  have u: "li_kernel_id example_launch \<notin> ug_registered (new_uthread_generator 1 100)"
    by (simp add: new_uthread_generator_def)
  have "case launch example_uthread_config example_launch (new_uthread_generator 1 100) of Inr _ \<Rightarrow> True | Inl _ \<Rightarrow> False"
    by code_simp
  then obtain g' where g': "launch example_uthread_config example_launch (new_uthread_generator 1 100) = Inr g'"
    by (auto split: sum.splits)
  then show ?thesis
    using unregistered_launch_stays_active [OF u g'] by (simp add: example_launch_def)
qed

end
