(* ===== verification/Ndp_Stats.thy ===== *)
theory Ndp_Stats
  imports Cache_Stats Register_Unit
begin

text \<open>
  \<^verbatim>\<open>src/ndp_stats.h\<close> and \<^verbatim>\<open>src/ndp_stats.cc\<close>: the counters of an NDP unit. The vectors indexed by an
  enumeration are functions of it, the map of waiting instructions is a partial function of the instruction's text and
  the mask of the registers it waits for. Counters are unsigned 64-bit, so they wrap. The printing functions are output
  only, except that printing an interval remembers the counters it printed.
\<close>

section \<open>Model\<close>

datatype Status =
    EMPTY_QUEUE
  | SCALAR_DEPENDENCY_WAIT | AMO_DEPENDENCY_WAIT | VECTOR_DEPENDENCY_WAIT | VLE_DEPENDENCY_WAIT | VSE_DEPENDENCY_WAIT
  | SPAD_UNIT_FULL | LDST_UNIT_FULL | SCALAR_UNIT_FULL | SF_UNIT_FULL | FP_UNIT_FULL
  | SPAD_VECTOR_UNIT_FULL | LDST_VECTOR_UNIT_FULL | SCALAR_VECTOR_UNIT_FULL | SF_VECTOR_UNIT_FULL | FP_VECTOR_UNIT_FULL
  | ADDRESS_UNIT_FULL | ADDRESS_VECTOR_UNIT_FULL
  | INSTRUCTION_BRANCH_WAIT | INSTRUCTION_CACHE_WAIT | INSTRUCTION_BLOCK_DEPENDENCY_WAIT
  | TO_MEM_FULL | TO_CROSSBAR_FULL | FROM_MEM_FULL | FROM_CROSSBAR_FULL | TLB_QUEUE_FULL | EXECUTION_UNIT_FULL
  | SPAD_DELAY_QUEUE_FULL | DATA_PORT_FULL | FILL_PORT_FULL | SPAD_QUEUE_FULL | LDST_QUEUE_FULL | FROM_ICACHE_FULL
  | CACHE_RESERVATION_FAIL | CACHE_DATA_ACCESS | CACHE_DATA_FILL
  | ISSUE_SUCCESS | SUCCESS

datatype MEM_STATUS =
    TO_MEM_PUSH_MY_CHANNEL | TO_MEM_PUSH_OTHER_CHANNEL | SCRATCHPAD_READ | SCRATCHPAD_WRITE | SCRATCHPAD_ACCESS_COUNT

datatype WaitRegEnum = DEST | SRC0 | SRC1 | SRC2 | SRC3 | SRC4 | MASK

definition wait_reg_index :: "WaitRegEnum \<Rightarrow> nat" where
  "wait_reg_index r = (case r of DEST \<Rightarrow> 0 | SRC0 \<Rightarrow> 1 | SRC1 \<Rightarrow> 2 | SRC2 \<Rightarrow> 3 | SRC3 \<Rightarrow> 4 | SRC4 \<Rightarrow> 5 | MASK \<Rightarrow> 6)"

text \<open>The text of an instruction and the mask of registers it waits for.\<close>

type_synonym wait_instruction = "string \<times> u32"

definition new_wait_instruction :: "string \<Rightarrow> WaitRegEnum list \<Rightarrow> wait_instruction" where
  "new_wait_instruction inst regs = (inst, foldl (\<lambda>m r. m OR push_bit (wait_reg_index r) 1) 0 regs)"

definition add_waiting_reg :: "WaitRegEnum \<Rightarrow> wait_instruction \<Rightarrow> wait_instruction" where
  "add_waiting_reg r w = (fst w, snd w OR push_bit (wait_reg_index r) 1)"

text \<open>The issue counters, one per kind of unit.\<close>

datatype issue_unit = I_ISSUE | F_ISSUE | SF_ISSUE | ADDR_ISSUE | LDST_ISSUE | SPAD_ISSUE | V_ISSUE | V_SF_ISSUE | V_ADDR_ISSUE
  | V_LDST_ISSUE | V_SPAD_ISSUE

record ndp_stats =
  ns_id :: u32
  ns_num_sub_core :: int
  ns_cycle :: u64
  ns_inst_issue_count :: u64
  ns_max_ndp_inst_queue_size :: u64
  ns_ndp_inst_queue_size :: u64
  ns_issue_success_cycle :: u64
  ns_issue_success_count :: u64
  ns_issue_count :: "issue_unit \<Rightarrow> u64"
  ns_v_active_lane :: u64
  ns_v_total_lane :: u64
  ns_spad_read_count :: u64
  ns_spad_write_count :: u64
  ns_status :: "Status \<Rightarrow> u64"
  ns_memory_status :: "MEM_STATUS \<Rightarrow> u64"
  ns_wait_insts :: "wait_instruction \<rightharpoonup> u64"
  ns_total_status :: u64
  ns_inst_queue_full_count :: u64
  ns_register_stall_count :: u64
  ns_inst_column_q_full_count :: u64
  ns_itlb :: cache_stats
  ns_icache :: cache_stats
  ns_dtlb :: cache_stats
  ns_l1d :: cache_stats
  ns_l2d :: cache_stats
  ns_l0_icache :: cache_stats
  ns_register :: "reg_stat \<Rightarrow> u32"
  ns_prev_issue_success_count :: u64
  ns_prev_cache_access :: u64
  ns_prev_cache_fill :: u64
  ns_max_wb :: "u64 \<times> u64 \<times> u64 \<times> u64"

text \<open>The identifier is not initialised by the constructor.\<close>

definition ndp_stats_clear :: "ndp_stats \<Rightarrow> ndp_stats" where
  "ndp_stats_clear s =
     s\<lparr>ns_status := (\<lambda>_. 0), ns_memory_status := (\<lambda>_. 0), ns_cycle := 0, ns_max_ndp_inst_queue_size := 0,
       ns_ndp_inst_queue_size := 0, ns_issue_success_cycle := 0, ns_issue_success_count := 0,
       ns_inst_queue_full_count := 0, ns_register_stall_count := 0, ns_inst_column_q_full_count := 0,
       ns_itlb := stats_clear (ns_itlb s), ns_icache := stats_clear (ns_icache s), ns_dtlb := stats_clear (ns_dtlb s),
       ns_l1d := stats_clear (ns_l1d s), ns_l2d := stats_clear (ns_l2d s)\<rparr>"

definition new_ndp_stats :: "u32 \<Rightarrow> ndp_stats" where
  "new_ndp_stats junk_id =
     ndp_stats_clear
     \<lparr>ns_id = junk_id, ns_num_sub_core = 4, ns_cycle = 0, ns_inst_issue_count = 0, ns_max_ndp_inst_queue_size = 0,
      ns_ndp_inst_queue_size = 0, ns_issue_success_cycle = 0, ns_issue_success_count = 0, ns_issue_count = (\<lambda>_. 0),
      ns_v_active_lane = 0, ns_v_total_lane = 0, ns_spad_read_count = 0, ns_spad_write_count = 0,
      ns_status = (\<lambda>_. 0), ns_memory_status = (\<lambda>_. 0), ns_wait_insts = (\<lambda>_. None), ns_total_status = 0,
      ns_inst_queue_full_count = 0, ns_register_stall_count = 0, ns_inst_column_q_full_count = 0,
      ns_itlb = new_cache_stats, ns_icache = new_cache_stats, ns_dtlb = new_cache_stats, ns_l1d = new_cache_stats,
      ns_l2d = new_cache_stats, ns_l0_icache = new_cache_stats, ns_register = (\<lambda>_. 0),
      ns_prev_issue_success_count = 0, ns_prev_cache_access = 0, ns_prev_cache_fill = 0, ns_max_wb = (0, 0, 0, 0)\<rparr>"

definition inc_cycle :: "ndp_stats \<Rightarrow> ndp_stats" where
  "inc_cycle s = s\<lparr>ns_cycle := ns_cycle s + 1\<rparr>"

text \<open>The comparison converts the signed size to unsigned 64-bit.\<close>

definition inc_ndp_inst_queue_size :: "int \<Rightarrow> ndp_stats \<Rightarrow> ndp_stats" where
  "inc_ndp_inst_queue_size n s =
     s\<lparr>ns_ndp_inst_queue_size := ns_ndp_inst_queue_size s + word_of_int n,
       ns_max_ndp_inst_queue_size :=
         (if ns_max_ndp_inst_queue_size s < word_of_int n then word_of_int n else ns_max_ndp_inst_queue_size s)\<rparr>"

definition inc_issue_success :: "int \<Rightarrow> ndp_stats \<Rightarrow> ndp_stats" where
  "inc_issue_success n s =
     s\<lparr>ns_issue_success_cycle := ns_issue_success_cycle s + 1,
       ns_issue_success_count := ns_issue_success_count s + word_of_int n\<rparr>"

definition inc_inst_issue_count :: "int \<Rightarrow> ndp_stats \<Rightarrow> ndp_stats" where
  "inc_inst_issue_count n s = s\<lparr>ns_inst_issue_count := ns_inst_issue_count s + word_of_int n\<rparr>"

definition add_status :: "Status \<Rightarrow> ndp_stats \<Rightarrow> ndp_stats" where
  "add_status st s = s\<lparr>ns_status := (ns_status s)(st := ns_status s st + 1), ns_total_status := ns_total_status s + 1\<rparr>"

definition add_status_list :: "Status list \<Rightarrow> ndp_stats \<Rightarrow> ndp_stats" where
  "add_status_list sts s = foldl (\<lambda>s st. add_status st s) s sts"

definition add_memory_status :: "MEM_STATUS \<Rightarrow> int \<Rightarrow> ndp_stats \<Rightarrow> ndp_stats" where
  "add_memory_status st access_size s =
     (let m = (ns_memory_status s)(st := ns_memory_status s st + 1)
      in s\<lparr>ns_memory_status :=
           (if st = SCRATCHPAD_READ \<or> st = SCRATCHPAD_WRITE
            then m(SCRATCHPAD_ACCESS_COUNT := m SCRATCHPAD_ACCESS_COUNT + word_of_int access_size) else m)\<rparr>)"

definition add_wait_instruction :: "wait_instruction \<Rightarrow> ndp_stats \<Rightarrow> ndp_stats" where
  "add_wait_instruction w s =
     s\<lparr>ns_wait_insts := (ns_wait_insts s)(w \<mapsto> (case ns_wait_insts s w of Some n \<Rightarrow> n + 1 | None \<Rightarrow> 1))\<rparr>"

definition inc_inst_queue_full :: "ndp_stats \<Rightarrow> ndp_stats" where
  "inc_inst_queue_full s = s\<lparr>ns_inst_queue_full_count := ns_inst_queue_full_count s + 1\<rparr>"

definition inc_register_stall :: "ndp_stats \<Rightarrow> ndp_stats" where
  "inc_register_stall s = s\<lparr>ns_register_stall_count := ns_register_stall_count s + 1\<rparr>"

definition inc_inst_column_q_full :: "ndp_stats \<Rightarrow> ndp_stats" where
  "inc_inst_column_q_full s = s\<lparr>ns_inst_column_q_full_count := ns_inst_column_q_full_count s + 1\<rparr>"

definition inc_unit_issue_count :: "issue_unit \<Rightarrow> ndp_stats \<Rightarrow> ndp_stats" where
  "inc_unit_issue_count u s = s\<lparr>ns_issue_count := (ns_issue_count s)(u := ns_issue_count s u + 1)\<rparr>"

definition inc_active_vlane_count :: "int \<Rightarrow> int \<Rightarrow> ndp_stats \<Rightarrow> ndp_stats" where
  "inc_active_vlane_count active lanes s =
     s\<lparr>ns_v_active_lane := ns_v_active_lane s + word_of_int active, ns_v_total_lane := ns_v_total_lane s + word_of_int lanes\<rparr>"

definition set_max_wb_per_cyc :: "u64 \<Rightarrow> u64 \<Rightarrow> u64 \<Rightarrow> u64 \<Rightarrow> ndp_stats \<Rightarrow> ndp_stats" where
  "set_max_wb_per_cyc total_count vreg xreg freg s = s\<lparr>ns_max_wb := (total_count, vreg, xreg, freg)\<rparr>"

definition print_stats_interval :: "ndp_stats \<Rightarrow> ndp_stats" where
  "print_stats_interval s =
     s\<lparr>ns_prev_cache_access := ns_status s CACHE_DATA_ACCESS, ns_prev_cache_fill := ns_status s CACHE_DATA_FILL,
       ns_prev_issue_success_count := ns_issue_success_count s\<rparr>"

text \<open>The loop that adds the entries of one map of waiting instructions to another; its order does not matter.\<close>

definition add_wait_insts :: "(wait_instruction \<rightharpoonup> u64) \<Rightarrow> (wait_instruction \<rightharpoonup> u64) \<Rightarrow> (wait_instruction \<rightharpoonup> u64)" where
  "add_wait_insts m n =
     (\<lambda>w. case n w of None \<Rightarrow> m w | Some k \<Rightarrow> (case m w of Some j \<Rightarrow> Some (j + k) | None \<Rightarrow> Some k))"

definition register_stats_plus :: "(reg_stat \<Rightarrow> u32) \<Rightarrow> (reg_stat \<Rightarrow> u32) \<Rightarrow> (reg_stat \<Rightarrow> u32)" where
  "register_stats_plus a b = (\<lambda>i. a i + b i)"

text \<open>\<^verbatim>\<open>operator+\<close> adds into a new object, so what it does not add is zero in the result.\<close>

definition ndp_stats_plus :: "u32 \<Rightarrow> ndp_stats \<Rightarrow> ndp_stats \<Rightarrow> ndp_stats" where
  "ndp_stats_plus junk_id s other =
     (let sum = new_ndp_stats junk_id
      in sum\<lparr>ns_l0_icache := stats_plus (ns_l0_icache s) (ns_l0_icache other),
           ns_itlb := stats_plus (ns_itlb s) (ns_itlb other), ns_icache := stats_plus (ns_icache s) (ns_icache other),
           ns_dtlb := stats_plus (ns_dtlb s) (ns_dtlb other), ns_l1d := stats_plus (ns_l1d s) (ns_l1d other),
           ns_l2d := stats_plus (ns_l2d s) (ns_l2d other), ns_register := register_stats_plus (ns_register s) (ns_register other),
           ns_wait_insts := add_wait_insts (add_wait_insts (ns_wait_insts sum) (ns_wait_insts other)) (ns_wait_insts s),
           ns_status := (\<lambda>i. ns_status sum i + (ns_status s i + ns_status other i)),
           ns_memory_status := (\<lambda>i. ns_memory_status sum i + (ns_memory_status s i + ns_memory_status other i)),
           ns_inst_issue_count := ns_inst_issue_count s + ns_inst_issue_count other,
           ns_issue_count := (\<lambda>u. ns_issue_count s u + ns_issue_count other u),
           ns_v_active_lane := ns_v_active_lane s + ns_v_active_lane other,
           ns_v_total_lane := ns_v_total_lane s + ns_v_total_lane other,
           ns_spad_read_count := ns_spad_read_count s + ns_spad_read_count other,
           ns_spad_write_count := ns_spad_write_count s + ns_spad_write_count other\<rparr>)"

definition ndp_stats_add :: "ndp_stats \<Rightarrow> ndp_stats \<Rightarrow> ndp_stats" where
  "ndp_stats_add s other =
     s\<lparr>ns_l0_icache := stats_add (ns_l0_icache s) (ns_l0_icache other),
       ns_itlb := stats_add (ns_itlb s) (ns_itlb other), ns_icache := stats_add (ns_icache s) (ns_icache other),
       ns_dtlb := stats_add (ns_dtlb s) (ns_dtlb other), ns_l1d := stats_add (ns_l1d s) (ns_l1d other),
       ns_l2d := stats_add (ns_l2d s) (ns_l2d other), ns_register := register_stats_plus (ns_register s) (ns_register other),
       ns_status := (\<lambda>i. ns_status s i + ns_status other i),
       ns_memory_status := (\<lambda>i. ns_memory_status s i + ns_memory_status other i),
       ns_wait_insts := add_wait_insts (ns_wait_insts s) (ns_wait_insts other),
       ns_inst_issue_count := ns_inst_issue_count s + ns_inst_issue_count other,
       ns_issue_count := (\<lambda>u. ns_issue_count s u + ns_issue_count other u),
       ns_v_active_lane := ns_v_active_lane s + ns_v_active_lane other,
       ns_v_total_lane := ns_v_total_lane s + ns_v_total_lane other,
       ns_spad_read_count := ns_spad_read_count s + ns_spad_read_count other,
       ns_spad_write_count := ns_spad_write_count s + ns_spad_write_count other\<rparr>"

section \<open>Sums over the units\<close>

text \<open>What the two sums agree on: the counters both add. The cycle and issue-success counters are not among them.\<close>

definition summed :: "ndp_stats \<Rightarrow> (Status \<Rightarrow> u64) \<times> (MEM_STATUS \<Rightarrow> u64) \<times> (issue_unit \<Rightarrow> u64) \<times> (wait_instruction \<Rightarrow> u64) \<times> u64" where
  "summed s = (ns_status s, ns_memory_status s, ns_issue_count s,
     \<lambda>w. case ns_wait_insts s w of None \<Rightarrow> 0 | Some n \<Rightarrow> n, ns_inst_issue_count s)"

lemma add_wait_insts_value:
  "(case add_wait_insts m n w of None \<Rightarrow> 0 | Some k \<Rightarrow> k) =
    (case m w of None \<Rightarrow> 0 | Some k \<Rightarrow> k) + (case n w of None \<Rightarrow> 0 | Some k \<Rightarrow> k)"
  by (simp add: add_wait_insts_def split: option.splits)

lemma summed_plus: "summed (ndp_stats_plus j s t) = summed (ndp_stats_add s t)"
  by (rule sym, simp add: summed_def ndp_stats_plus_def ndp_stats_add_def new_ndp_stats_def ndp_stats_clear_def Let_def
      add_wait_insts_value add.commute)

text \<open>
  The device's report adds the units with \<^verbatim>\<open>operator+=\<close> to the first one: the cycle and issue-success counters it
  prints for the total are those of the first unit; with \<^verbatim>\<open>operator+\<close> they would be zero.
\<close>

lemma ndp_stats_sums_drop_cycles:
  "ns_issue_success_count (ndp_stats_add s t) = ns_issue_success_count s \<and> ns_cycle (ndp_stats_add s t) = ns_cycle s \<and>
    ns_inst_queue_full_count (ndp_stats_add s t) = ns_inst_queue_full_count s \<and>
    ns_issue_success_count (ndp_stats_plus j s t) = 0 \<and> ns_cycle (ndp_stats_plus j s t) = 0"
  by (simp add: ndp_stats_add_def ndp_stats_plus_def new_ndp_stats_def ndp_stats_clear_def Let_def)

text \<open>Every status that is added is counted once in its own counter and once in the total.\<close>

lemma add_status_list_counts:
  "ns_status (add_status_list sts s) st = ns_status s st + of_nat (count_list sts st)"
  "ns_total_status (add_status_list sts s) = ns_total_status s + of_nat (length sts)"
  unfolding add_status_list_def by (induction sts arbitrary: s) (auto simp: add_status_def)

end
