(* ===== verification/Instruction_Queue.thy ===== *)
theory Instruction_Queue
  imports Ndp_Stats Cache_Core Delay_Queue
begin

text \<open>
  \<^verbatim>\<open>src/instruction_queue.h\<close> and \<^verbatim>\<open>src/instruction_queue.cc\<close>: the columns of instructions a sub-core works on. A
  column is admitted when a slot is free and no other phase of its launch is running; every cycle the queue looks
  up the next instructions of its columns in the level-0 instruction cache (a read-only cache). The code keeps a
  pointer from a fetch request to its column; the request also carries the column's id, by which the model finds the
  column. The iterator into the deque is the index of the column.
\<close>

section \<open>Model\<close>

record iq_column = inst_column +
  iq_valid :: bool
  iq_pc :: int
  iq_block :: bool
  iq_current :: "ndp_instruction option"
  iq_pending :: bool
  iq_counter :: u32
  iq_fetched :: "ndp_instruction option"
  iq_fetched_last :: bool

type_synonym dep_key = "int \<times> int"

record dependency_info =
  di_type :: RequestType
  di_kernel_body_id :: u32
  di_count :: int

record iq_config =
  qc_uthread_slots :: int
  qc_inst_fetch_per_cycle :: int
  qc_request_queue_size :: int
  qc_l0icache_hit_latency :: int
  qc_cache :: cache_config

record instruction_queue =
  iq_id :: int
  iq_sub_core_id :: int
  iq_inst_col_id :: int
  iq_ideal_icache :: bool
  iq_l0_icache_hit_latency :: int
  iq_icache_queue :: "ptr delay_queue"
  iq_num_columns :: int
  iq_columns :: "iq_column list"
  iq_iter :: nat
  iq_deps :: "(dep_key \<times> dependency_info) list"

definition new_instruction_queue :: "iq_config \<Rightarrow> int \<Rightarrow> int \<Rightarrow> instruction_queue" where
  "new_instruction_queue qc qid sub_core_id =
     \<lparr>iq_id = qid, iq_sub_core_id = sub_core_id, iq_inst_col_id = 0, iq_ideal_icache = False,
      iq_l0_icache_hit_latency = qc_l0icache_hit_latency qc,
      iq_icache_queue = new_delay_queue ''l0_icache_queue'' True (qc_request_queue_size qc),
      iq_num_columns = 0, iq_columns = [], iq_iter = 0, iq_deps = []\<rparr>"

definition set_ideal_icache :: "instruction_queue \<Rightarrow> instruction_queue" where
  "set_ideal_icache q = q\<lparr>iq_ideal_icache := True, iq_l0_icache_hit_latency := 0\<rparr>"

definition get_dependency_key :: "('a) inst_column_scheme \<Rightarrow> dep_key" where
  "get_dependency_key c = (ic_kernel_id c, sint (ucast (ri_launch_id (ic_req c)) :: u32))"

definition same_phase :: "dependency_info \<Rightarrow> ('a) inst_column_scheme \<Rightarrow> bool" where
  "same_phase d c \<longleftrightarrow> di_type d = ic_type c \<and> di_kernel_body_id d = ri_kernel_body_id (ic_req c)"

definition iq_can_push :: "iq_config \<Rightarrow> iq_column \<Rightarrow> instruction_queue \<Rightarrow> bool" where
  "iq_can_push qc c q \<longleftrightarrow>
     \<not> qc_uthread_slots qc \<le> iq_num_columns q \<and>
     (case map_of (iq_deps q) (get_dependency_key c) of Some d \<Rightarrow> same_phase d c | None \<Rightarrow> True)"

definition iq_push :: "iq_config \<Rightarrow> iq_column \<Rightarrow> instruction_queue \<Rightarrow> instruction_queue res" where
  "iq_push qc c q =
     res_bind (assert_that (iq_can_push qc c q) ''can_push(inst_column)'') (\<lambda>_.
     res_bind (assert_that (ic_insts c \<noteq> []) ''This should not happen'') (\<lambda>_.
     let c' = c\<lparr>iq_valid := True, ic_id := iq_inst_col_id q\<rparr>; key = get_dependency_key c;
         q = q\<lparr>iq_inst_col_id := iq_inst_col_id q + 1, iq_num_columns := iq_num_columns q + 1,
               iq_columns := iq_columns q @ [c'], iq_iter := 0\<rparr>
     in case map_of (iq_deps q) key of
          None \<Rightarrow> Inr (q\<lparr>iq_deps := AList.update key
            \<lparr>di_type = ic_type c, di_kernel_body_id = ri_kernel_body_id (ic_req c), di_count = 1\<rparr> (iq_deps q)\<rparr>)
        | Some d \<Rightarrow>
            res_bind (assert_that (same_phase d c) ''same phase'') (\<lambda>_.
              Inr (q\<lparr>iq_deps := AList.update key (d\<lparr>di_count := di_count d + 1\<rparr>) (iq_deps q)\<rparr>))))"

text \<open>The column at the iterator.\<close>

definition iq_cursor :: "instruction_queue \<Rightarrow> iq_column res" where
  "iq_cursor q = (if iq_iter q < length (iq_columns q) then Inr (iq_columns q ! iq_iter q) else Inl Out_Of_Range)"

definition inst_fetch_fail :: "instruction_queue \<Rightarrow> Status res" where
  "inst_fetch_fail q =
     res_bind (iq_cursor q) (\<lambda>c.
       Inr (if iq_block c then INSTRUCTION_BRANCH_WAIT
            else if iq_pending c \<or> iq_current c = None then INSTRUCTION_CACHE_WAIT
            else SUCCESS))"

definition can_fetch :: "instruction_queue \<Rightarrow> bool res" where
  "can_fetch q = res_bind (inst_fetch_fail q) (\<lambda>s. Inr (s = SUCCESS))"

definition fetch_instruction :: "instruction_queue \<Rightarrow> ndp_instruction res" where
  "fetch_instruction q =
     res_bind (can_fetch q) (\<lambda>b. res_bind (assert_that b ''can_fetch()'') (\<lambda>_.
     res_bind (iq_cursor q) (\<lambda>c. case iq_current c of None \<Rightarrow> Inl Bad_Pointer | Some i \<Rightarrow> Inr i)))"

definition upd_cursor :: "(iq_column \<Rightarrow> iq_column) \<Rightarrow> instruction_queue \<Rightarrow> instruction_queue" where
  "upd_cursor g q = q\<lparr>iq_columns := (iq_columns q)[iq_iter q := g (iq_columns q ! iq_iter q)]\<rparr>"

definition fetch_success :: "instruction_queue \<Rightarrow> instruction_queue res" where
  "fetch_success q =
     res_bind (iq_cursor q) (\<lambda>_. Inr (upd_cursor (\<lambda>c. c\<lparr>iq_fetched := iq_current c, iq_counter := 0, iq_current := None\<rparr>) q))"

text \<open>The context of the fetched instruction, as far as the queue fills it in; the column remembers the last flag.\<close>

record inst_context =
  fc_ndp_id :: int
  fc_sub_core_id :: int
  fc_inst_col_id :: int
  fc_request_info :: request_info
  fc_last_inst :: bool
  fc_max_pc :: int
  fc_exit :: bool

definition fetch_context :: "instruction_queue \<Rightarrow> (inst_context \<times> instruction_queue) res" where
  "fetch_context q =
     res_bind (can_fetch q) (\<lambda>b. res_bind (assert_that b ''can_fetch()'') (\<lambda>_.
     res_bind (iq_cursor q) (\<lambda>c.
     let at_end = (iq_pc c = int (length (ic_insts c)) - 1);
         lst = at_end \<and> \<not> CheckBranchOp (ic_insts c ! nat (iq_pc c))
     in Inr (\<lparr>fc_ndp_id = iq_id q, fc_sub_core_id = iq_sub_core_id q, fc_inst_col_id = ic_id c, fc_request_info = ic_req c,
              fc_last_inst = lst, fc_max_pc = int (length (ic_insts c)) - 1, fc_exit = False\<rparr>,
             upd_cursor (\<lambda>c. c\<lparr>iq_fetched_last := lst\<rparr>) q))))"

definition find_inst_column :: "int \<Rightarrow> instruction_queue \<Rightarrow> nat res" where
  "find_inst_column col_id q =
     (case find (\<lambda>i. ic_id (iq_columns q ! i) = col_id) [0..<length (iq_columns q)] of
        Some i \<Rightarrow> Inr i | None \<Rightarrow> Inl (Assert_Fail ''0''))"

definition finish_inst_column :: "int \<Rightarrow> instruction_queue \<Rightarrow> instruction_queue res" where
  "finish_inst_column col_id q =
     res_bind (find_inst_column col_id q) (\<lambda>i.
     let key = get_dependency_key (iq_columns q ! i)
     in case map_of (iq_deps q) key of
          None \<Rightarrow> Inl (Assert_Fail ''m_dependency_info.find(key) != end()'')
        | Some d \<Rightarrow>
            Inr (q\<lparr>iq_deps := (if di_count d - 1 = 0 then AList.delete key (iq_deps q)
                               else AList.update key (d\<lparr>di_count := di_count d - 1\<rparr>) (iq_deps q)),
                   iq_num_columns := iq_num_columns q - 1,
                   iq_columns := take i (iq_columns q) @ drop (Suc i) (iq_columns q), iq_iter := 0\<rparr>))"

definition iq_all_empty :: "instruction_queue \<Rightarrow> bool" where
  "iq_all_empty q \<longleftrightarrow> iq_columns q = []"

definition iq_empty :: "instruction_queue \<Rightarrow> bool res" where
  "iq_empty q = res_bind (iq_cursor q) (\<lambda>c. Inr (\<not> iq_valid c))"

definition wrap_iter :: "instruction_queue \<Rightarrow> nat \<Rightarrow> nat" where
  "wrap_iter q i = (if i + 1 = length (iq_columns q) then 0 else i + 1)"

definition iq_next :: "instruction_queue \<Rightarrow> instruction_queue" where
  "iq_next q = q\<lparr>iq_iter := wrap_iter q (iq_iter q)\<rparr>"

definition check_finished :: "iq_column \<Rightarrow> bool" where
  "check_finished c \<longleftrightarrow> (of_nat (length (ic_insts c)) :: u64) \<le> word_of_int (iq_pc c)"

section \<open>The fetch cycle\<close>

record iq_ctx =
  qx_queue :: instruction_queue
  qx_cache :: cache
  qx_store :: mf_store

text \<open>An instruction has arrived for the column of a request; an answer of the cache also asserts that it was awaited.\<close>

definition deliver :: "bool \<Rightarrow> ptr \<Rightarrow> iq_ctx \<Rightarrow> iq_ctx res" where
  "deliver answer mf x =
     res_bind (mf_get (qx_store x) mf) (\<lambda>f.
     case find (\<lambda>i. ic_id (iq_columns (qx_queue x) ! i) = sint (mf_src_id f)) [0..<length (iq_columns (qx_queue x))] of
       None \<Rightarrow> Inl Bad_Pointer
     | Some i \<Rightarrow>
         let c = iq_columns (qx_queue x) ! i
         in if answer \<and> \<not> iq_pending c then Inl (Assert_Fail ''col->pending'')
            else if 0 \<le> iq_pc c \<and> nat (iq_pc c) < length (ic_insts c) then
              Inr (x\<lparr>qx_queue := (qx_queue x)\<lparr>iq_columns := (iq_columns (qx_queue x))
                [i := c\<lparr>iq_current := Some (ic_insts c ! nat (iq_pc c)), iq_pending := False\<rparr>]\<rparr>\<rparr>)
            else Inl Out_Of_Range)"

definition pop_fetch :: "iq_ctx \<Rightarrow> iq_ctx res" where
  "pop_fetch x = res_bind (dq_pop (iq_icache_queue (qx_queue x))) (\<lambda>d.
     Inr (x\<lparr>qx_queue := (qx_queue x)\<lparr>iq_icache_queue := d\<rparr>\<rparr>))"

text \<open>One round of the first loop; once the queue is empty the rounds that follow do nothing, as after the \<^verbatim>\<open>break\<close>.\<close>

definition lookup_round :: "iq_config \<Rightarrow> u64 \<Rightarrow> iq_ctx \<Rightarrow> nat \<Rightarrow> iq_ctx res" where
  "lookup_round qc ndp_cycle x i =
     (if dq_empty (iq_icache_queue (qx_queue x)) then Inr x
      else
        res_bind (dq_top (iq_icache_queue (qx_queue x))) (\<lambda>mf.
        res_bind (mf_get (qx_store x) mf) (\<lambda>f.
        res_bind
          (if \<not> iq_ideal_icache (qx_queue x) then
             res_bind (read_only_access (qc_cache qc) (mf_addr f) (ucast ndp_cycle) mf
                 \<lparr>cx_cache = qx_cache x, cx_store = qx_store x, cx_events = []\<rparr>)
               (\<lambda>(st, c). Inr (st, x\<lparr>qx_cache := cx_cache c, qx_store := cx_store c\<rparr>))
           else Inr (MISS, x)) (\<lambda>(status, x).
        if status = HIT \<or> iq_ideal_icache (qx_queue x) then res_bind (deliver False mf x) pop_fetch
        else if status \<noteq> RESERVATION_FAIL then pop_fetch x
        else Inr x))))"

definition response_round :: "iq_ctx \<Rightarrow> nat \<Rightarrow> iq_ctx res" where
  "response_round x i =
     (if ms_access_ready (ca_mshrs (qx_cache x)) then
        res_bind (cache_pop_next_access (qx_cache x)) (\<lambda>(mf, c).
        res_bind (mf_get (qx_store x) mf) (\<lambda>f.
        res_bind (if is_request f then set_reply f else Inr f) (\<lambda>_.
        res_bind (deliver True mf (x\<lparr>qx_cache := c\<rparr>)) (\<lambda>x.
        res_bind (mf_delete mf (qx_store x)) (\<lambda>h. Inr (x\<lparr>qx_store := h\<rparr>))))))
      else Inr x)"

definition request_round :: "iq_config \<Rightarrow> u64 \<Rightarrow> iq_ctx \<times> nat \<Rightarrow> nat \<Rightarrow> (iq_ctx \<times> nat) res" where
  "request_round qc ndp_cycle = (\<lambda>(x, it) _.
     if it < length (iq_columns (qx_queue x)) then
       let q = qx_queue x; c = iq_columns q ! it
       in res_bind
            (if iq_current c = None \<and> \<not> iq_block c \<and> \<not> iq_pending c \<and> \<not> check_finished c then
               let inst_addr = ic_base_addr c + word_of_int (iq_pc c) * 4;
                   (p, h) = new_mem_fetch inst_addr INST_ACC_R READ_REQUEST 4 8 ndp_cycle (qx_store x)
               in res_bind (get_channel_index (m_m2ndp_config (qc_cache qc)) inst_addr) (\<lambda>ch.
                  res_bind (mf_update p (\<lambda>f. f\<lparr>mf_src_id := word_of_int (ic_id c), mf_from_ndp := True,
                      mf_ndp_id := word_of_int (iq_id q), mf_sub_core_id := word_of_int (iq_sub_core_id q),
                      mf_channel := ucast ch\<rparr>) h) (\<lambda>h.
                  res_bind (dq_push p (iq_l0_icache_hit_latency q) (iq_icache_queue q)) (\<lambda>d.
                  Inr (x\<lparr>qx_store := h, qx_queue := q\<lparr>iq_icache_queue := d,
                    iq_columns := (iq_columns q)[it := c\<lparr>iq_pending := True\<rparr>]\<rparr>\<rparr>))))
             else Inr x) (\<lambda>x. Inr (x, wrap_iter (qx_queue x) it))
     else Inl Out_Of_Range)"

definition iq_cycle :: "iq_config \<Rightarrow> u64 \<Rightarrow> iq_ctx \<Rightarrow> iq_ctx res" where
  "iq_cycle qc ndp_cycle x =
     (let x = x\<lparr>qx_queue := (qx_queue x)\<lparr>iq_icache_queue := dq_tick (iq_icache_queue (qx_queue x))\<rparr>\<rparr>;
          n = nat (min (qc_inst_fetch_per_cycle qc) (iq_num_columns (qx_queue x)))
      in res_bind (res_foldl (lookup_round qc ndp_cycle) x [0..<n]) (\<lambda>x.
         res_bind (res_foldl response_round x [0..<n]) (\<lambda>x.
         res_bind (res_foldl (request_round qc ndp_cycle) (x, iq_iter (qx_queue x)) [0..<n]) (\<lambda>(x, _). Inr x))))"

section \<open>Invariant\<close>

declare map_of_eq_Some_iff [simp del]

text \<open>What of a column decides the dependencies: its launch, and the phase.\<close>

definition phase_of :: "('a) inst_column_scheme \<Rightarrow> dep_key \<times> RequestType \<times> u32" where
  "phase_of c = (get_dependency_key c, ic_type c, ri_kernel_body_id (ic_req c))"

definition deps_ok :: "('k \<times> RequestType \<times> u32) list \<Rightarrow> ('k \<times> dependency_info) list \<Rightarrow> bool" where
  "deps_ok vs deps \<longleftrightarrow> distinct (map fst deps) \<and>
     (\<forall>key. case map_of deps key of
        None \<Rightarrow> key \<notin> fst ` set vs
      | Some d \<Rightarrow> di_count d = int (count_list (map fst vs) key) \<and> key \<in> fst ` set vs \<and>
          (\<forall>v\<in>set vs. fst v = key \<longrightarrow> snd v = (di_type d, di_kernel_body_id d)))"

definition iq_inv :: "iq_config \<Rightarrow> instruction_queue \<Rightarrow> bool" where
  "iq_inv qc q \<longleftrightarrow> iq_num_columns q = int (length (iq_columns q)) \<and>
     int (length (iq_columns q)) \<le> max 0 (qc_uthread_slots qc) \<and> deps_ok (map phase_of (iq_columns q)) (iq_deps q)"

lemma same_phase_iff: "same_phase d c \<longleftrightarrow> snd (phase_of c) = (di_type d, di_kernel_body_id d)"
  by (auto simp: same_phase_def phase_of_def)

lemma fst_phase_of [simp]: "fst (phase_of c) = get_dependency_key c"
  by (simp add: phase_of_def)

text \<open>The entry of one launch.\<close>

definition dep_at :: "('k \<times> RequestType \<times> u32) list \<Rightarrow> dependency_info option \<Rightarrow> 'k \<Rightarrow> bool" where
  "dep_at vs e key \<longleftrightarrow> (case e of
      None \<Rightarrow> key \<notin> fst ` set vs
    | Some d \<Rightarrow> di_count d = int (count_list (map fst vs) key) \<and> key \<in> fst ` set vs \<and>
        (\<forall>v\<in>set vs. fst v = key \<longrightarrow> snd v = (di_type d, di_kernel_body_id d)))"

lemma deps_ok_iff: "deps_ok vs deps \<longleftrightarrow> distinct (map fst deps) \<and> (\<forall>key. dep_at vs (map_of deps key) key)"
  by (simp add: deps_ok_def dep_at_def)

lemma dep_at_append: "fst v \<noteq> key \<Longrightarrow> dep_at (vs @ [v]) e key = dep_at vs e key"
  by (cases e) (simp_all add: dep_at_def image_iff)

lemma dep_at_remove: "fst v \<noteq> key \<Longrightarrow> dep_at (xs @ v # ys) e key = dep_at (xs @ ys) e key"
  by (cases e) (simp_all add: dep_at_def image_Un)

lemma deps_ok_others:
  "deps_ok vs deps \<Longrightarrow> \<forall>key. key \<noteq> fst v \<longrightarrow> dep_at (vs @ [v]) (map_of deps key) key"
  "deps_ok (xs @ v # ys) deps \<Longrightarrow> \<forall>key. key \<noteq> fst v \<longrightarrow> dep_at (xs @ ys) (map_of deps key) key"
  using dep_at_append [of v] dep_at_remove [of v] unfolding deps_ok_iff by metis+

lemma deps_ok_distinct: "deps_ok vs deps \<Longrightarrow> distinct (map fst deps)"
  by (simp add: deps_ok_def)

lemma deps_ok_push_new:
  assumes "deps_ok vs deps" "map_of deps (fst v) = None"
  shows "deps_ok (vs @ [v]) (AList.update (fst v) \<lparr>di_type = fst (snd v), di_kernel_body_id = snd (snd v), di_count = 1\<rparr> deps)"
proof -
  let ?e = "\<lparr>di_type = fst (snd v), di_kernel_body_id = snd (snd v), di_count = 1\<rparr>"
  have "dep_at vs None (fst v)"
    using assms by (metis deps_ok_iff)
  then have n: "fst v \<notin> fst ` set vs"
    by (simp add: dep_at_def)
  then have "count_list (map fst vs) (fst v) = 0" "\<forall>w\<in>set vs. fst w \<noteq> fst v"
    by (simp add: count_list_0_iff, metis image_eqI)
  then have "dep_at (vs @ [v]) (Some ?e) (fst v)"
    by (simp add: dep_at_def)
  then show ?thesis
    using deps_ok_others(1) [OF assms(1), of v] deps_ok_distinct [OF assms(1)]
    by (simp add: deps_ok_iff AList.distinct_update AList.update_conv')
qed

lemma deps_ok_push_same:
  assumes "deps_ok vs deps" "map_of deps (fst v) = Some d" "snd v = (di_type d, di_kernel_body_id d)"
  shows "deps_ok (vs @ [v]) (AList.update (fst v) (d\<lparr>di_count := di_count d + 1\<rparr>) deps)"
proof -
  have "dep_at vs (Some d) (fst v)"
    using assms(1,2) by (metis deps_ok_iff)
  then have "dep_at (vs @ [v]) (Some (d\<lparr>di_count := di_count d + 1\<rparr>)) (fst v)"
    using assms(3) by (simp add: dep_at_def)
  then show ?thesis
    using deps_ok_others(1) [OF assms(1), of v] deps_ok_distinct [OF assms(1)]
    by (simp add: deps_ok_iff AList.distinct_update AList.update_conv')
qed

lemma deps_ok_remove:
  assumes "deps_ok (xs @ v # ys) deps" "map_of deps (fst v) = Some d"
  shows "deps_ok (xs @ ys) (if di_count d - 1 = 0 then AList.delete (fst v) deps
    else AList.update (fst v) (d\<lparr>di_count := di_count d - 1\<rparr>) deps)"
proof -
  have at: "dep_at (xs @ v # ys) (Some d) (fst v)"
    using assms by (metis deps_ok_iff)
  have z: "count_list (map fst (xs @ ys)) (fst v) = 0 \<longleftrightarrow> fst v \<notin> fst ` set (xs @ ys)"
    by (simp add: count_list_0_iff image_Un)
  have c: "di_count d - 1 = int (count_list (map fst (xs @ ys)) (fst v))"
    using at by (simp add: dep_at_def)
  show ?thesis
  proof (cases "di_count d - 1 = 0")
    case True
    then have "dep_at (xs @ ys) None (fst v)"
      using c z by (simp add: dep_at_def)
    then show ?thesis
      using True deps_ok_others(2) [OF assms(1)] deps_ok_distinct [OF assms(1)] by (simp add: deps_ok_iff AList.distinct_delete AList.delete_conv')
  next
    case False
    then have "fst v \<in> fst ` set (xs @ ys)"
      using c z by auto
    then have "dep_at (xs @ ys) (Some (d\<lparr>di_count := di_count d - 1\<rparr>)) (fst v)"
      using at c by (simp add: dep_at_def)
    then show ?thesis
      using False deps_ok_others(2) [OF assms(1)] deps_ok_distinct [OF assms(1)] by (simp add: deps_ok_iff AList.distinct_update AList.update_conv')
  qed
qed

lemma iq_push_inv:
  assumes "iq_inv qc q" "iq_push qc c q = Inr q'"
  shows "iq_inv qc q'"
proof -
  let ?c = "c\<lparr>iq_valid := True, ic_id := iq_inst_col_id q\<rparr>"
  have pv: "phase_of ?c = phase_of c"
    by (simp add: phase_of_def get_dependency_key_def)
  have room: "iq_num_columns q < qc_uthread_slots qc"
    using assms(2) by (auto simp: iq_push_def res_simps iq_can_push_def)
  have d: "deps_ok (map phase_of (iq_columns q)) (iq_deps q)"
    using assms(1) by (simp add: iq_inv_def)
  have q': "iq_columns q' = iq_columns q @ [?c]" "iq_num_columns q' = iq_num_columns q + 1"
    using assms(2) by (auto simp: iq_push_def res_simps Let_def split: option.splits)
  have "deps_ok (map phase_of (iq_columns q) @ [phase_of c]) (iq_deps q')"
  proof (cases "map_of (iq_deps q) (get_dependency_key c)")
    case None
    then have "iq_deps q' = AList.update (fst (phase_of c)) \<lparr>di_type = fst (snd (phase_of c)),
        di_kernel_body_id = snd (snd (phase_of c)), di_count = 1\<rparr> (iq_deps q)"
      using assms(2) by (auto simp: iq_push_def res_simps Let_def phase_of_def)
    then show ?thesis
      using deps_ok_push_new [OF d, of "phase_of c"] None by simp
  next
    case (Some e)
    then have "iq_deps q' = AList.update (fst (phase_of c)) (e\<lparr>di_count := di_count e + 1\<rparr>) (iq_deps q)" "same_phase e c"
      using assms(2) by (auto simp: iq_push_def res_simps Let_def)
    then show ?thesis
      using deps_ok_push_same [OF d, of "phase_of c" e] Some by (simp add: same_phase_iff)
  qed
  then show ?thesis
    using assms(1) q' room pv by (simp add: iq_inv_def)
qed

lemma finish_inv:
  assumes "iq_inv qc q" "finish_inst_column i q = Inr q'"
  shows "iq_inv qc q'"
proof -
  obtain k where k: "k < length (iq_columns q)" "find_inst_column i q = Inr k"
    using assms(2)
    by (auto simp: finish_inst_column_def res_simps find_inst_column_def find_Some_iff split: option.splits)
  let ?xs = "take k (iq_columns q)" and ?ys = "drop (Suc k) (iq_columns q)" and ?c = "iq_columns q ! k"
  have cols: "iq_columns q = ?xs @ ?c # ?ys"
    by (rule id_take_nth_drop [OF k(1)])
  obtain d where d: "map_of (iq_deps q) (get_dependency_key ?c) = Some d"
    and q': "iq_columns q' = ?xs @ ?ys" "iq_num_columns q' = iq_num_columns q - 1"
      "iq_deps q' = (if di_count d - 1 = 0 then AList.delete (get_dependency_key ?c) (iq_deps q)
         else AList.update (get_dependency_key ?c) (d\<lparr>di_count := di_count d - 1\<rparr>) (iq_deps q))"
    using assms(2) k(2) by (auto simp: finish_inst_column_def Let_def split: option.splits)
  have "deps_ok (map phase_of ?xs @ phase_of ?c # map phase_of ?ys) (iq_deps q)"
    using assms(1) cols unfolding iq_inv_def by (metis list.simps(9) map_append)
  then have "deps_ok (map phase_of ?xs @ map phase_of ?ys) (iq_deps q')"
    using deps_ok_remove [of "map phase_of ?xs" "phase_of ?c" "map phase_of ?ys" "iq_deps q" d] d q'(3)
    by (simp only: fst_phase_of)
  then show ?thesis
    using assms(1) q'(1,2) k(1) by (simp add: iq_inv_def)
qed

text \<open>Every column has the entry of its launch, so columns of one launch are in one phase.\<close>

lemma inv_dependency:
  assumes "iq_inv qc q" "c \<in> set (iq_columns q)"
  shows "\<exists>d. map_of (iq_deps q) (get_dependency_key c) = Some d \<and> snd (phase_of c) = (di_type d, di_kernel_body_id d)"
proof -
  have "dep_at (map phase_of (iq_columns q)) (map_of (iq_deps q) (get_dependency_key c)) (get_dependency_key c)"
    using assms(1) unfolding iq_inv_def deps_ok_iff by blast
  moreover have "get_dependency_key c \<in> fst ` set (map phase_of (iq_columns q))"
    using assms(2) by force
  ultimately show ?thesis
    using assms(2) by (cases "map_of (iq_deps q) (get_dependency_key c)") (auto simp: dep_at_def)
qed

lemma inv_same_phase:
  assumes "iq_inv qc q" "c \<in> set (iq_columns q)" "c' \<in> set (iq_columns q)" "get_dependency_key c = get_dependency_key c'"
  shows "ic_type c = ic_type c' \<and> ri_kernel_body_id (ic_req c) = ri_kernel_body_id (ic_req c')"
  using inv_dependency [OF assms(1,2)] inv_dependency [OF assms(1,3)] assms(4) by (auto simp: phase_of_def)

lemma iq_inv_new: "iq_inv qc (new_instruction_queue qc i j)"
  by (simp add: iq_inv_def new_instruction_queue_def deps_ok_def)

text \<open>The fetch cycle changes only the fetch state of columns.\<close>

definition same_columns :: "instruction_queue \<Rightarrow> instruction_queue \<Rightarrow> bool" where
  "same_columns q q' \<longleftrightarrow> map phase_of (iq_columns q') = map phase_of (iq_columns q) \<and> iq_deps q' = iq_deps q \<and>
     iq_num_columns q' = iq_num_columns q"

lemma same_columns_refl [simp]: "same_columns q q"
  by (simp add: same_columns_def)

lemma same_columns_trans: "same_columns q q' \<Longrightarrow> same_columns q' q'' \<Longrightarrow> same_columns q q''"
  by (simp add: same_columns_def)

lemma same_columns_inv: "same_columns q q' \<Longrightarrow> iq_inv qc q \<Longrightarrow> iq_inv qc q'"
  unfolding same_columns_def iq_inv_def by (metis length_map)

lemma phase_of_fetch [simp]:
  "phase_of (c\<lparr>iq_current := i, iq_pending := b\<rparr>) = phase_of (c :: iq_column)"
  "phase_of (c\<lparr>iq_pending := b\<rparr>) = phase_of c"
  "phase_of (c\<lparr>iq_fetched := j, iq_counter := n, iq_current := i\<rparr>) = phase_of c"
  "phase_of (c\<lparr>iq_fetched_last := b\<rparr>) = phase_of c"
  by (simp_all add: phase_of_def get_dependency_key_def)

lemma map_phase_update: "phase_of c = phase_of (cs ! i) \<Longrightarrow> map phase_of (cs[i := c]) = map phase_of cs"
  by (metis list_update_id map_update)

lemma deliver_frame: "deliver b mf x = Inr x' \<Longrightarrow> same_columns (qx_queue x) (qx_queue x')"
  unfolding deliver_def res_simps Let_def
  by (elim exE conjE, simp split: option.splits if_splits)
    (hypsubst, auto simp: same_columns_def phase_of_def get_dependency_key_def simp del: map_update intro!: map_phase_update)

lemma pop_fetch_frame: "pop_fetch x = Inr x' \<Longrightarrow> same_columns (qx_queue x) (qx_queue x')"
  by (auto simp: pop_fetch_def res_simps same_columns_def)

lemma lookup_round_frame: "lookup_round qc t x i = Inr x' \<Longrightarrow> same_columns (qx_queue x) (qx_queue x')"
  unfolding lookup_round_def
  by (simp split: if_splits)
    (auto simp: res_simps split: if_splits dest!: deliver_frame pop_fetch_frame elim: same_columns_trans)

lemma response_round_frame: "response_round x i = Inr x' \<Longrightarrow> same_columns (qx_queue x) (qx_queue x')"
  by (auto simp: response_round_def res_simps split: if_splits dest!: deliver_frame)

lemma request_round_frame: "request_round qc t (x, k) i = Inr (x', k') \<Longrightarrow> same_columns (qx_queue x) (qx_queue x')"
  by (auto simp: request_round_def Let_def res_simps same_columns_def map_phase_update split: if_splits prod.splits)

lemma foldl_frame:
  assumes "\<And>x i x'. f x i = Inr x' \<Longrightarrow> same_columns (g x) (g x')" "res_foldl f x ns = Inr x'"
  shows "same_columns (g x) (g x')"
  using assms(2)
proof (induction ns arbitrary: x)
  case (Cons i ns)
  then show ?case
    using assms(1) same_columns_trans by (fastforce simp: res_simps)
qed simp

lemma iq_cycle_inv:
  assumes "iq_inv qc (qx_queue x)" "iq_cycle qc t x = Inr x'"
  shows "iq_inv qc (qx_queue x')"
proof -
  let ?x = "x\<lparr>qx_queue := (qx_queue x)\<lparr>iq_icache_queue := dq_tick (iq_icache_queue (qx_queue x))\<rparr>\<rparr>"
  obtain n y z k where y: "res_foldl (lookup_round qc t) ?x [0..<n] = Inr y"
    "res_foldl response_round y [0..<n] = Inr z"
    "res_foldl (request_round qc t) (z, iq_iter (qx_queue z)) [0..<n] = Inr (x', k)"
    using assms(2) by (auto simp: iq_cycle_def Let_def res_simps)
  have "same_columns (qx_queue x) (qx_queue ?x)"
    by (simp add: same_columns_def)
  moreover have "same_columns (qx_queue ?x) (qx_queue y)"
    by (rule foldl_frame [OF _ y(1)]) (rule lookup_round_frame)
  moreover have "same_columns (qx_queue y) (qx_queue z)"
    by (rule foldl_frame [OF _ y(2)]) (rule response_round_frame)
  moreover have "same_columns (qx_queue (fst (z, iq_iter (qx_queue z)))) (qx_queue (fst (x', k)))"
    by (rule foldl_frame [where g = "\<lambda>s. qx_queue (fst s)", OF _ y(3)])
      (metis prod.collapse request_round_frame)
  ultimately have "same_columns (qx_queue x) (qx_queue x')"
    using same_columns_trans by (metis fst_conv)
  then show ?thesis
    using same_columns_inv assms(1) by blast
qed

lemma fetch_success_frame: "fetch_success q = Inr q' \<Longrightarrow> same_columns q q'"
  by (auto simp: fetch_success_def res_simps upd_cursor_def same_columns_def map_phase_update)

lemma fetch_context_frame: "fetch_context q = Inr (fc, q') \<Longrightarrow> same_columns q q'"
  by (auto simp: fetch_context_def res_simps upd_cursor_def same_columns_def map_phase_update Let_def)

lemma iq_next_frame: "same_columns q (iq_next q)"
  by (simp add: same_columns_def iq_next_def)

section \<open>Reachable queues\<close>

inductive iq_reachable :: "iq_config \<Rightarrow> instruction_queue \<Rightarrow> bool" for qc where
  new: "iq_reachable qc (new_instruction_queue qc i j)"
| push: "iq_reachable qc q \<Longrightarrow> iq_push qc c q = Inr q' \<Longrightarrow> iq_reachable qc q'"
| finish: "iq_reachable qc q \<Longrightarrow> finish_inst_column i q = Inr q' \<Longrightarrow> iq_reachable qc q'"
| next_column: "iq_reachable qc q \<Longrightarrow> iq_reachable qc (iq_next q)"
| fetched: "iq_reachable qc q \<Longrightarrow> fetch_success q = Inr q' \<Longrightarrow> iq_reachable qc q'"
| context_read: "iq_reachable qc q \<Longrightarrow> fetch_context q = Inr (fc, q') \<Longrightarrow> iq_reachable qc q'"
| cycle: "iq_reachable qc (qx_queue x) \<Longrightarrow> iq_cycle qc t x = Inr x' \<Longrightarrow> iq_reachable qc (qx_queue x')"

lemma iq_reachable_inv: "iq_reachable qc q \<Longrightarrow> iq_inv qc q"
proof (induction rule: iq_reachable.induct)
  case (new i j)
  show ?case by (rule iq_inv_new)
next
  case (push q c q')
  then show ?case using iq_push_inv by blast
next
  case (finish q i q')
  then show ?case using finish_inv by blast
next
  case (next_column q)
  then show ?case using iq_next_frame same_columns_inv by blast
next
  case (fetched q q')
  then show ?case using fetch_success_frame same_columns_inv by blast
next
  case (context_read q fc q')
  then show ?case using fetch_context_frame same_columns_inv by blast
next
  case (cycle x t x')
  then show ?case using iq_cycle_inv by blast
qed

section \<open>Properties\<close>

text \<open>
  C5. Phases of one launch never overlap in a sub-core: in every state the queue reaches, two columns of
  the same kernel and launch are in the same phase (initializer, the same body, or finalizer), the queue holds at most
  as many columns as there are thread slots, and a column of a launch that is running is refused when it is of another type or of another
  kernel body.
\<close>

theorem phases_never_overlap:
  assumes "iq_reachable qc q"
  shows "(\<forall>c\<in>set (iq_columns q). \<forall>c'\<in>set (iq_columns q). get_dependency_key c = get_dependency_key c' \<longrightarrow>
      ic_type c = ic_type c' \<and> ri_kernel_body_id (ic_req c) = ri_kernel_body_id (ic_req c')) \<and>
    int (length (iq_columns q)) \<le> max 0 (qc_uthread_slots qc) \<and>
    (\<forall>c\<in>set (iq_columns q). \<forall>c'. get_dependency_key c' = get_dependency_key c \<and>
      (ic_type c' \<noteq> ic_type c \<or> ri_kernel_body_id (ic_req c') \<noteq> ri_kernel_body_id (ic_req c)) \<longrightarrow> \<not> iq_can_push qc c' q)"
proof -
  have inv: "iq_inv qc q"
    by (rule iq_reachable_inv [OF assms])
  have refuse: "\<not> iq_can_push qc c' q"
    if "c \<in> set (iq_columns q)" "get_dependency_key c' = get_dependency_key c"
      "ic_type c' \<noteq> ic_type c \<or> ri_kernel_body_id (ic_req c') \<noteq> ri_kernel_body_id (ic_req c)" for c c'
    using inv_dependency [OF inv that(1)] that(2,3) by (auto simp: iq_can_push_def same_phase_def phase_of_def)
  show ?thesis
  proof (intro conjI ballI impI allI)
    show "int (length (iq_columns q)) \<le> max 0 (qc_uthread_slots qc)"
      using inv by (simp add: iq_inv_def)
  qed (use inv_same_phase [OF inv] refuse in blast)+
qed

text \<open>A queue of two slots, and a column of one body instruction of kernel 1, launch 0.\<close>

definition example_iq_config :: iq_config where
  "example_iq_config = \<lparr>qc_uthread_slots = 2, qc_inst_fetch_per_cycle = 2, qc_request_queue_size = 4,
     qc_l0icache_hit_latency = 1, qc_cache = projr (cache_config_init ''N:4:128:2,L:R:m:N:L,A:4:4,4:0,32'' example_addr_config)\<rparr>"

definition example_iq_column :: iq_column where
  "example_iq_column = \<lparr>ic_id = 0, ic_kernel_id = 1, ic_type = KERNEL_BODY,
     ic_insts = [new_instruction ''add'' (Scalar ADD) OT_NONE 3 []], ic_loop_map = [],
     ic_req = \<lparr>ri_type = KERNEL_BODY, ri_id = 0, ri_launch_id = 0, ri_kernel_id = 1, ri_kernel_body_id = 0,
       ri_addr = 0, ri_offset = 0\<rparr>, ic_xregs = 1, ic_fregs = 0, ic_vregs = 0, ic_base_addr = 0,
     iq_valid = False, iq_pc = 0, iq_block = False, iq_current = None, iq_pending = False, iq_counter = 0,
     iq_fetched = None, iq_fetched_last = False\<rparr>"

definition example_body_column :: "nat \<Rightarrow> iq_column" where
  "example_body_column n = example_iq_column\<lparr>ic_req := (ic_req example_iq_column)\<lparr>ri_kernel_body_id := of_nat n\<rparr>\<rparr>"

theorem phases_never_overlap_witness:
  "\<exists>q. iq_push example_iq_config example_iq_column (new_instruction_queue example_iq_config 0 0) = Inr q \<and>
     length (iq_columns q) = 1 \<and> iq_can_push example_iq_config (example_body_column 0) q \<and>
     \<not> iq_can_push example_iq_config (example_iq_column\<lparr>ic_type := FINALIZER\<rparr>) q \<and>
     \<not> iq_can_push example_iq_config (example_body_column 1) q"
proof -
  let ?q = "projr (iq_push example_iq_config example_iq_column (new_instruction_queue example_iq_config 0 0))"
  let ?c = "example_iq_column\<lparr>iq_valid := True, ic_id := 0\<rparr>"
  have push: "iq_push example_iq_config example_iq_column (new_instruction_queue example_iq_config 0 0) = Inr ?q"
    and cols: "iq_columns ?q = [?c]" and same: "iq_can_push example_iq_config (example_body_column 0) ?q"
    by (simp_all add: iq_push_def iq_can_push_def new_instruction_queue_def example_iq_config_def example_iq_column_def
        example_body_column_def same_phase_def get_dependency_key_def)
  have "iq_reachable example_iq_config ?q"
    by (rule iq_reachable.push [OF iq_reachable.new push])
  then have refuse: "\<not> iq_can_push example_iq_config c' ?q"
    if "get_dependency_key c' = get_dependency_key ?c"
      "ic_type c' \<noteq> ic_type ?c \<or> ri_kernel_body_id (ic_req c') \<noteq> ri_kernel_body_id (ic_req ?c)" for c'
    using phases_never_overlap [of example_iq_config ?q] that cols by (metis list.set_intros(1))
  have "\<not> iq_can_push example_iq_config (example_iq_column\<lparr>ic_type := FINALIZER\<rparr>) ?q"
      "\<not> iq_can_push example_iq_config (example_body_column 1) ?q"
    by (rule refuse; simp add: get_dependency_key_def example_iq_column_def example_body_column_def)+
  then show ?thesis
    using push cols same by (metis One_nat_def length_Cons list.size(3))
qed

end
