(* ===== verification/Vector_Data.thy ===== *)
theory Vector_Data
  imports NDP_Prelude Complex_Main "HOL-Library.Signed_Division"
begin

text \<open>
  \<^verbatim>\<open>src/vector_data.h\<close> and \<^verbatim>\<open>src/vector_data.cc\<close>: the values of vector registers and of memory packets. A
  vector is a sequence of 32-bit cells, each a union of one 32-bit, two 16-bit or four 8-bit elements (little-endian),
  with the type and the number of its elements; a 64-bit element takes two cells, the upper half first. Element
  indices are natural numbers; an index outside the cells is an error value. Single and half precision numbers are
  their bit patterns; what the processor and the libraries \<^verbatim>\<open>half.hpp\<close> and \<^verbatim>\<open>fp16.h\<close> compute on them is a parameter.
  Signed integer addition, subtraction and multiplication wrap; an integer division that overflows is an error, as one by zero. The length computations of the constructors, done on floats by the code, are exact
  for the powers of two that occur and are done on rational numbers.
\<close>

section \<open>Elements\<close>

type_synonym u16 = "16 word"

datatype DataType = FLOAT16 | FLOAT32 | INT16 | INT32 | INT64 | UINT8 | CHAR8 | BOOL | VMASK | MAX_DataType

datatype LogicalOp = EQ | NE | LT | LE | GT | GE

definition logical_operate :: "LogicalOp \<Rightarrow> 'a::linorder \<Rightarrow> 'a \<Rightarrow> bool" where
  "logical_operate op lhs rhs =
     (case op of EQ \<Rightarrow> lhs = rhs | NE \<Rightarrow> lhs \<noteq> rhs | LT \<Rightarrow> lhs < rhs | LE \<Rightarrow> lhs \<le> rhs | GT \<Rightarrow> rhs < lhs | GE \<Rightarrow> rhs \<le> lhs)"

text \<open>The element \<open>k\<close> of a cell, at the width of the element type.\<close>

definition get_field :: "nat \<Rightarrow> u32 \<Rightarrow> 'a::len word" where
  "get_field k d = ucast (drop_bit (LENGTH('a) * k) d)"

definition set_field :: "nat \<Rightarrow> 'a::len word \<Rightarrow> u32 \<Rightarrow> u32" where
  "set_field k v d =
     (d AND NOT (push_bit (LENGTH('a) * k) (Bit_Operations.mask LENGTH('a)))) OR push_bit (LENGTH('a) * k) (ucast v)"

text \<open>A number as a C++ expression of the code has it.\<close>

datatype num_kind = K_F32 | K_F16 | K_I64 | K_I32 | K_I16 | K_U8

datatype vnum = N_F32 u32 | N_F16 u16 | N_I64 u64 | N_I32 u32 | N_I16 u16 | N_U8 u8

datatype vec_op = Plus | Minus | Times | Divide

text \<open>
  The floating-point unit: the result bits of an operation with a floating-point operand, converted to the kind of the
  result, the order and the test for zero, the exponential function, and the conversions \<^verbatim>\<open>fp16_ieee_from_fp32_value\<close>
  of a half to its stored bits and back.
\<close>

record fp_ops =
  fp_arith :: "vec_op \<Rightarrow> vnum \<Rightarrow> vnum \<Rightarrow> num_kind \<Rightarrow> u64"
  fp_less :: "vnum \<Rightarrow> vnum \<Rightarrow> bool"
  fp_nonzero :: "vnum \<Rightarrow> bool"
  fp_exp :: "vnum \<Rightarrow> num_kind \<Rightarrow> u64"
  fp_half_store :: "u16 \<Rightarrow> u16"
  fp_half_load :: "u16 \<Rightarrow> u16"

section \<open>Vectors\<close>

definition PACKET_ENTRIES :: nat where "PACKET_ENTRIES = 8"

record vector_data =
  vd_type :: DataType
  vd_vlen :: u32
  vd_double_reg :: bool
  vd_data :: "u32 list"

definition round_up :: "nat \<Rightarrow> nat \<Rightarrow> nat" where
  "round_up n s = ((n + s - 1) div s) * s"

definition new_vector_data :: vector_data where
  "new_vector_data =
     \<lparr>vd_type = MAX_DataType, vd_vlen = of_nat PACKET_ENTRIES, vd_double_reg = False, vd_data = replicate PACKET_ENTRIES 0\<rparr>"

definition new_vector_data_double :: "bool \<Rightarrow> vector_data" where
  "new_vector_data_double double_reg =
     (let n = (if double_reg then PACKET_ENTRIES * 2 else PACKET_ENTRIES)
      in \<lparr>vd_type = MAX_DataType, vd_vlen = of_nat n, vd_double_reg = double_reg, vd_data = replicate n 0\<rparr>)"

definition new_vector_data_sew :: "nat \<Rightarrow> rat \<Rightarrow> vector_data" where
  "new_vector_data_sew sew lmul =
     (let vlen = 32 * 8 * lmul / of_nat sew;
          dv = 32 / of_nat sew;
          vec_len = nat \<lfloor>vlen / dv\<rfloor>
      in \<lparr>vd_type = MAX_DataType, vd_vlen = of_nat (nat \<lfloor>vlen\<rfloor>), vd_double_reg = (lmul = 2),
          vd_data = replicate (round_up vec_len PACKET_ENTRIES) 0\<rparr>)"

text \<open>The constructor from a context, of which it reads the element width and the register grouping.\<close>

definition new_vector_data_context :: "nat \<Rightarrow> rat \<Rightarrow> vector_data" where
  "new_vector_data_context vsew vlmul =
     (let vlen = (of_nat (nat \<lfloor>32 * 8 * vlmul / of_nat vsew\<rfloor>) :: u32);
          vec_len = unat vlen * vsew div 32
      in \<lparr>vd_type = MAX_DataType, vd_vlen = vlen, vd_double_reg = (vlmul = 2),
          vd_data = replicate (round_up vec_len PACKET_ENTRIES) 0\<rparr>)"

definition vd_resize :: "nat \<Rightarrow> u32 list \<Rightarrow> u32 list" where
  "vd_resize n ds = take n ds @ replicate (n - length ds) 0"

definition SetVectorDoubleReg :: "vector_data \<Rightarrow> vector_data" where
  "SetVectorDoubleReg v = v\<lparr>vd_data := vd_resize (PACKET_ENTRIES * 2) (vd_data v), vd_double_reg := True\<rparr>"

definition Widen :: "vector_data \<Rightarrow> vector_data res" where
  "Widen v =
     (let n = unat (vd_vlen v)
      in if n \<le> length (vd_data v) then Inr (v\<lparr>vd_data := take n (vd_data v) @ take n (vd_data v)\<rparr>)
         else Inl Out_Of_Range)"

definition SetType :: "DataType \<Rightarrow> vector_data \<Rightarrow> vector_data" where
  "SetType ty v = v\<lparr>vd_type := ty\<rparr>"

definition SetVlen :: "u32 \<Rightarrow> vector_data \<Rightarrow> vector_data" where
  "SetVlen n v = v\<lparr>vd_vlen := n\<rparr>"

text \<open>One cell of a vector.\<close>

definition cell :: "nat \<Rightarrow> vector_data \<Rightarrow> u32 res" where
  "cell k v = (if k < length (vd_data v) then Inr (vd_data v ! k) else Inl Out_Of_Range)"

definition set_cell :: "DataType \<Rightarrow> nat \<Rightarrow> (u32 \<Rightarrow> u32) \<Rightarrow> vector_data \<Rightarrow> vector_data res" where
  "set_cell ty k g v =
     (if k < length (vd_data v) then Inr (v\<lparr>vd_type := ty, vd_data := (vd_data v)[k := g (vd_data v ! k)]\<rparr>)
      else Inl Out_Of_Range)"

definition SetFloat :: "u32 \<Rightarrow> nat \<Rightarrow> vector_data \<Rightarrow> vector_data res" where
  "SetFloat x i v =
     res_bind (assert_that (i < unat (vd_vlen v)) ''index < m_vlen'') (\<lambda>_. set_cell FLOAT32 i (\<lambda>_. x) v)"

definition SetInt :: "u32 \<Rightarrow> nat \<Rightarrow> vector_data \<Rightarrow> vector_data res" where
  "SetInt x i v =
     res_bind (assert_that (i < unat (vd_vlen v)) ''index < m_vlen'') (\<lambda>_. set_cell INT32 i (\<lambda>_. x) v)"

definition SetShort :: "u16 \<Rightarrow> nat \<Rightarrow> vector_data \<Rightarrow> vector_data res" where
  "SetShort x i v =
     res_bind (assert_that (i div 2 < unat (vd_vlen v)) ''(index / 2) < m_vlen'') (\<lambda>_.
       set_cell INT16 (i div 2) (set_field (i mod 2) x) v)"

definition SetU8 :: "u8 \<Rightarrow> nat \<Rightarrow> vector_data \<Rightarrow> vector_data res" where
  "SetU8 x i v =
     res_bind (assert_that (i div 4 < unat (vd_vlen v)) ''(index / 4) < m_vlen'') (\<lambda>_.
       set_cell UINT8 (i div 4) (set_field (i mod 4) x) v)"

definition SetLong :: "u64 \<Rightarrow> nat \<Rightarrow> vector_data \<Rightarrow> vector_data res" where
  "SetLong x i v =
     res_bind (assert_that (i < unat (vd_vlen v)) ''index < m_vlen'') (\<lambda>_.
     res_bind (set_cell INT64 (2 * i) (\<lambda>_. ucast (drop_bit 32 x)) v) (\<lambda>v.
       set_cell INT64 (2 * i + 1) (\<lambda>_. ucast (x AND 0xffffffff)) v))"

definition SetHalf :: "fp_ops \<Rightarrow> u16 \<Rightarrow> nat \<Rightarrow> vector_data \<Rightarrow> vector_data res" where
  "SetHalf fp x i v =
     res_bind (assert_that (i div 2 < unat (vd_vlen v)) ''(index / 2) < m_vlen'') (\<lambda>_.
       set_cell FLOAT16 (i div 2) (set_field (i mod 2) (fp_half_store fp x)) v)"

definition SetChar :: "u8 \<Rightarrow> nat \<Rightarrow> vector_data \<Rightarrow> vector_data res" where
  "SetChar x i v =
     res_bind (assert_that (i div 4 < unat (vd_vlen v)) ''(index / 4) < m_vlen'') (\<lambda>_.
       set_cell CHAR8 (i div 4) (set_field (i mod 4) x) v)"

definition SetBool :: "bool \<Rightarrow> nat \<Rightarrow> vector_data \<Rightarrow> vector_data res" where
  "SetBool x i v =
     res_bind (assert_that (i div 4 < unat (vd_vlen v)) ''(index / 4) < m_vlen'') (\<lambda>_.
       set_cell BOOL (i div 4) (set_field (i mod 4) (bool_int x :: u8)) v)"

text \<open>The mask bit is added to the cell.\<close>

definition SetVmask :: "bool \<Rightarrow> nat \<Rightarrow> vector_data \<Rightarrow> vector_data res" where
  "SetVmask x i v =
     (if x then set_cell VMASK (i div 32) (\<lambda>d. d + push_bit (i mod 32) 1) v else Inr (v\<lparr>vd_type := VMASK\<rparr>))"

definition GetFloatData :: "nat \<Rightarrow> vector_data \<Rightarrow> u32 res" where
  "GetFloatData i v = cell i v"

definition GetIntData :: "nat \<Rightarrow> vector_data \<Rightarrow> u32 res" where
  "GetIntData i v = cell i v"

definition GetShortData :: "nat \<Rightarrow> vector_data \<Rightarrow> u16 res" where
  "GetShortData i v = res_bind (cell (i div 2) v) (\<lambda>d. Inr (get_field (i mod 2) d))"

definition GetU8Data :: "nat \<Rightarrow> vector_data \<Rightarrow> u8 res" where
  "GetU8Data i v = res_bind (cell (i div 4) v) (\<lambda>d. Inr (get_field (i mod 4) d))"

definition GetLongData :: "nat \<Rightarrow> vector_data \<Rightarrow> u64 res" where
  "GetLongData i v =
     res_bind (cell (2 * i) v) (\<lambda>h. res_bind (cell (2 * i + 1) v) (\<lambda>l.
       Inr (push_bit 32 (scast h) OR (scast l AND 0xffffffff))))"

definition GetHalfData :: "fp_ops \<Rightarrow> nat \<Rightarrow> vector_data \<Rightarrow> u16 res" where
  "GetHalfData fp i v = res_bind (cell (i div 2) v) (\<lambda>d. Inr (fp_half_load fp (get_field (i mod 2) d)))"

definition GetCharData :: "nat \<Rightarrow> vector_data \<Rightarrow> u8 res" where
  "GetCharData i v = res_bind (cell (i div 4) v) (\<lambda>d. Inr (get_field (i mod 4) d))"

definition GetBoolData :: "nat \<Rightarrow> vector_data \<Rightarrow> bool res" where
  "GetBoolData i v = res_bind (cell (i div 4) v) (\<lambda>d. Inr ((get_field (i mod 4) d :: u8) \<noteq> 0))"

definition GetVmask :: "vector_data \<Rightarrow> u32 res" where
  "GetVmask v = cell 0 v"

definition GetVmaskData :: "nat \<Rightarrow> vector_data \<Rightarrow> bool res" where
  "GetVmaskData i v = res_bind (cell (i div 32) v) (\<lambda>d. Inr (drop_bit (i mod 32) d mod 2 = 1))"

definition GetVmaskAsByte :: "nat \<Rightarrow> vector_data \<Rightarrow> u8 res" where
  "GetVmaskAsByte index v =
     res_foldl (\<lambda>r i. res_bind (GetVmaskData i v) (\<lambda>b. Inr (r + push_bit (i mod 8) (bool_int b)))) 0 [index..<index + 8]"

definition GetPrecision :: "vector_data \<Rightarrow> u32" where
  "GetPrecision v =
     (case vd_type v of INT64 \<Rightarrow> 8 | FLOAT32 \<Rightarrow> 4 | INT32 \<Rightarrow> 4 | INT16 \<Rightarrow> 2 | FLOAT16 \<Rightarrow> 2 | _ \<Rightarrow> 1)"

text \<open>The number of cells that \<^verbatim>\<open>Append\<close> and \<^verbatim>\<open>Split\<close> move: one per element, two for 64-bit elements.\<close>

definition cells_moved :: "vector_data \<Rightarrow> nat" where
  "cells_moved v = (if vd_type v = INT64 then 2 * unat (vd_vlen v) else unat (vd_vlen v))"

definition Append :: "vector_data \<Rightarrow> vector_data \<Rightarrow> vector_data res" where
  "Append rhs v =
     (if cells_moved rhs \<le> length (vd_data rhs) then
        let v = v\<lparr>vd_data := vd_data v @ take (cells_moved rhs) (vd_data rhs), vd_vlen := vd_vlen v + vd_vlen rhs\<rparr>
        in if vd_double_reg v then Inl (Runtime_Error ''Double appending register'')
           else Inr (v\<lparr>vd_double_reg := True\<rparr>)
      else Inl Out_Of_Range)"

definition split_half :: "DataType \<Rightarrow> vector_data" where
  "split_half ty =
     (case ty of
        INT64 \<Rightarrow> new_vector_data_sew 64 1
      | INT32 \<Rightarrow> new_vector_data_sew 32 1
      | FLOAT32 \<Rightarrow> new_vector_data_sew 32 1
      | INT16 \<Rightarrow> new_vector_data_sew 16 1
      | FLOAT16 \<Rightarrow> new_vector_data_sew 16 1
      | CHAR8 \<Rightarrow> new_vector_data_sew 8 1
      | _ \<Rightarrow> new_vector_data)"

text \<open>The loop copies the cells in order, the first half to the first result; it fails at the first cell out of range.\<close>

definition Split :: "vector_data \<Rightarrow> (vector_data \<times> vector_data) res" where
  "Split v =
     (let n = cells_moved v; r = split_half (vd_type v);
          fill = (\<lambda>cs. r\<lparr>vd_data := cs @ drop (length cs) (vd_data r), vd_type := vd_type v, vd_vlen := vd_vlen v div 2\<rparr>)
      in if n \<le> length (vd_data v) \<and> n div 2 \<le> length (vd_data r) \<and> n - n div 2 \<le> length (vd_data r) then
           Inr (fill (take (n div 2) (vd_data v)), fill (take (n - n div 2) (drop (n div 2) (vd_data v))))
         else Inl Out_Of_Range)"

section \<open>Arithmetic\<close>

definition is_fp :: "vnum \<Rightarrow> bool" where
  "is_fp n = (case n of N_F32 _ \<Rightarrow> True | N_F16 _ \<Rightarrow> True | _ \<Rightarrow> False)"

definition num_int :: "vnum \<Rightarrow> int" where
  "num_int n =
     (case n of N_I64 x \<Rightarrow> sint x | N_I32 x \<Rightarrow> sint x | N_I16 x \<Rightarrow> sint x | N_U8 x \<Rightarrow> uint x | N_F32 x \<Rightarrow> 0 | N_F16 x \<Rightarrow> 0)"

definition num_kind_of :: "vnum \<Rightarrow> num_kind" where
  "num_kind_of n = (case n of N_F32 _ \<Rightarrow> K_F32 | N_F16 _ \<Rightarrow> K_F16 | N_I64 _ \<Rightarrow> K_I64 | N_I32 _ \<Rightarrow> K_I32 | N_I16 _ \<Rightarrow> K_I16
     | N_U8 _ \<Rightarrow> K_U8)"

definition make_num :: "num_kind \<Rightarrow> u64 \<Rightarrow> vnum" where
  "make_num k b =
     (case k of K_F32 \<Rightarrow> N_F32 (ucast b) | K_F16 \<Rightarrow> N_F16 (ucast b) | K_I64 \<Rightarrow> N_I64 b | K_I32 \<Rightarrow> N_I32 (ucast b)
      | K_I16 \<Rightarrow> N_I16 (ucast b) | K_U8 \<Rightarrow> N_U8 (ucast b))"

text \<open>
  Integer operations: exact, then converted to the width of the result, which is the wrapped result of C++. The
  quotient is cut towards zero. The operands of a division are promoted to \<^verbatim>\<open>int\<close>, or to \<^verbatim>\<open>int64_t\<close> when one of them
  has 64 bits; a division by zero, and the one of the most negative promoted number by -1, whose quotient does not fit,
  trap and are an error.
\<close>

definition trunc_div :: "int \<Rightarrow> int \<Rightarrow> int" where
  "trunc_div a b = (if (a < 0) \<noteq> (b < 0) then - (\<bar>a\<bar> div \<bar>b\<bar>) else \<bar>a\<bar> div \<bar>b\<bar>)"

definition promoted_bits :: "vnum \<Rightarrow> vnum \<Rightarrow> nat" where
  "promoted_bits a b = (if num_kind_of a = K_I64 \<or> num_kind_of b = K_I64 then 64 else 32)"

definition int_arith :: "nat \<Rightarrow> vec_op \<Rightarrow> int \<Rightarrow> int \<Rightarrow> int res" where
  "int_arith w op a b =
     (case op of
        Plus \<Rightarrow> Inr (a + b)
      | Minus \<Rightarrow> Inr (a - b)
      | Times \<Rightarrow> Inr (a * b)
      | Divide \<Rightarrow> if b = 0 \<or> a = - (2 ^ (w - 1)) \<and> b = - 1 then Inl Div_By_Zero else Inr (trunc_div a b))"

definition num_arith :: "fp_ops \<Rightarrow> vec_op \<Rightarrow> vnum \<Rightarrow> vnum \<Rightarrow> num_kind \<Rightarrow> vnum res" where
  "num_arith fp op a b k =
     (if is_fp a \<or> is_fp b then Inr (make_num k (fp_arith fp op a b k))
      else res_bind (int_arith (promoted_bits a b) op (num_int a) (num_int b)) (\<lambda>r. Inr (make_num k (word_of_int r))))"

text \<open>Reading an element at the type of its vector, and the overloaded \<^verbatim>\<open>SetData\<close>.\<close>

definition get_num :: "fp_ops \<Rightarrow> num_kind \<Rightarrow> nat \<Rightarrow> vector_data \<Rightarrow> vnum res" where
  "get_num fp k i v =
     (case k of
        K_F32 \<Rightarrow> res_bind (GetFloatData i v) (\<lambda>x. Inr (N_F32 x))
      | K_F16 \<Rightarrow> res_bind (GetHalfData fp i v) (\<lambda>x. Inr (N_F16 x))
      | K_I64 \<Rightarrow> res_bind (GetLongData i v) (\<lambda>x. Inr (N_I64 x))
      | K_I32 \<Rightarrow> res_bind (GetIntData i v) (\<lambda>x. Inr (N_I32 x))
      | K_I16 \<Rightarrow> res_bind (GetShortData i v) (\<lambda>x. Inr (N_I16 x))
      | K_U8 \<Rightarrow> res_bind (GetU8Data i v) (\<lambda>x. Inr (N_U8 x)))"

definition set_num :: "fp_ops \<Rightarrow> vnum \<Rightarrow> nat \<Rightarrow> vector_data \<Rightarrow> vector_data res" where
  "set_num fp n i v =
     (case n of
        N_F32 x \<Rightarrow> SetFloat x i v
      | N_F16 x \<Rightarrow> SetHalf fp x i v
      | N_I64 x \<Rightarrow> SetLong x i v
      | N_I32 x \<Rightarrow> SetInt x i v
      | N_I16 x \<Rightarrow> SetShort x i v
      | N_U8 x \<Rightarrow> SetU8 x i v)"

definition type_kind :: "DataType \<Rightarrow> num_kind option" where
  "type_kind ty =
     (case ty of FLOAT32 \<Rightarrow> Some K_F32 | FLOAT16 \<Rightarrow> Some K_F16 | INT64 \<Rightarrow> Some K_I64 | INT32 \<Rightarrow> Some K_I32
      | INT16 \<Rightarrow> Some K_I16 | UINT8 \<Rightarrow> Some K_U8 | _ \<Rightarrow> None)"

text \<open>
  The operators on two vectors differ in the pairs of types they support: an element is stored at the kind of the left
  operand, left as it is, or the operator throws.
\<close>

datatype action = Store | Skip | Throw

definition add_action :: "DataType \<Rightarrow> DataType \<Rightarrow> action" where
  "add_action l r =
     (if l = FLOAT32 then (if r \<in> {FLOAT32, FLOAT16, INT32} then Store else Throw)
      else if l = FLOAT16 \<or> l = INT32 then (if r \<in> {FLOAT32, FLOAT16, INT32, INT16} then Store else Throw)
      else if l = INT64 then (if r = INT64 then Store else Throw)
      else Throw)"

definition sub_action :: "DataType \<Rightarrow> DataType \<Rightarrow> action" where
  "sub_action l r =
     (if l \<in> {FLOAT32, FLOAT16, INT32, INT16} then (if r \<in> {FLOAT32, FLOAT16, INT32, INT16} then Store else Throw)
      else if l = INT64 then (if r = INT64 then Store else Skip)
      else Throw)"

definition mul_action :: "DataType \<Rightarrow> DataType \<Rightarrow> action" where
  "mul_action l r =
     (if l \<in> {FLOAT32, FLOAT16, INT32} then (if r \<in> {FLOAT32, FLOAT16, INT32, INT16} then Store else Throw) else Throw)"

definition div_action :: "DataType \<Rightarrow> DataType \<Rightarrow> action" where
  "div_action l r =
     (if l \<in> {FLOAT32, FLOAT16, INT32, INT16} then (if r \<in> {FLOAT32, FLOAT16, INT32, INT16} then Store else Throw)
      else Throw)"

definition op_action :: "vec_op \<Rightarrow> DataType \<Rightarrow> DataType \<Rightarrow> action" where
  "op_action op = (case op of Plus \<Rightarrow> add_action | Minus \<Rightarrow> sub_action | Times \<Rightarrow> mul_action | Divide \<Rightarrow> div_action)"

definition vector_elem :: "fp_ops \<Rightarrow> vec_op \<Rightarrow> vector_data \<Rightarrow> vector_data \<Rightarrow> vector_data \<Rightarrow> nat \<Rightarrow> vector_data res" where
  "vector_elem fp op lhs rhs ret i =
     (case op_action op (vd_type lhs) (vd_type rhs) of
        Skip \<Rightarrow> Inr ret
      | Throw \<Rightarrow> Inl (Runtime_Error ''invalid m_type'')
      | Store \<Rightarrow>
          (case (type_kind (vd_type lhs), type_kind (vd_type rhs)) of
             (Some k, Some k') \<Rightarrow>
               res_bind (get_num fp k i lhs) (\<lambda>a. res_bind (get_num fp k' i rhs) (\<lambda>b.
               res_bind (num_arith fp op a b k) (\<lambda>n. set_num fp n i ret)))
           | _ \<Rightarrow> Inl (Runtime_Error ''invalid m_type'')))"

definition vector_binary :: "fp_ops \<Rightarrow> vec_op \<Rightarrow> vector_data \<Rightarrow> vector_data \<Rightarrow> vector_data res" where
  "vector_binary fp op lhs rhs =
     res_bind (assert_that (vd_vlen lhs = vd_vlen rhs) ''lhs.GetVlen() == rhs.GetVlen()'') (\<lambda>_.
       res_foldl (vector_elem fp op lhs rhs) lhs [0..<unat (vd_vlen lhs)])"

text \<open>
  The operators with a scalar: whether a type of the vector is supported, and the type the code sets afterwards. The
  element is stored at the kind of the vector's type.
\<close>

definition scalar_type :: "vec_op \<Rightarrow> bool \<Rightarrow> num_kind \<Rightarrow> DataType \<Rightarrow> DataType option" where
  "scalar_type op vector_first s ty =
     (case ty of
        FLOAT32 \<Rightarrow> Some FLOAT32
      | FLOAT16 \<Rightarrow> Some FLOAT16
      | INT32 \<Rightarrow> Some (if s = K_F32 \<and> (op = Plus \<or> op = Minus \<and> \<not> vector_first) then FLOAT32 else INT32)
      | INT16 \<Rightarrow> Some (if s = K_F32 \<and> (op = Plus \<or> op = Minus \<and> \<not> vector_first) then FLOAT16 else INT16)
      | INT64 \<Rightarrow> if s \<noteq> K_F32 \<and> op = Plus \<or> s = K_I32 \<and> op = Times then Some INT64 else None
      | UINT8 \<Rightarrow> if s = K_I32 \<and> op = Times then Some UINT8 else None
      | _ \<Rightarrow> None)"

definition scalar_elem :: "fp_ops \<Rightarrow> vec_op \<Rightarrow> bool \<Rightarrow> vector_data \<Rightarrow> vnum \<Rightarrow> vector_data \<Rightarrow> nat \<Rightarrow> vector_data res" where
  "scalar_elem fp op vector_first v n ret i =
     (case (scalar_type op vector_first (num_kind_of n) (vd_type v), type_kind (vd_type v)) of
        (Some ty, Some k) \<Rightarrow>
          res_bind (get_num fp k i v) (\<lambda>a.
          res_bind (if vector_first then num_arith fp op a n k else num_arith fp op n a k) (\<lambda>r.
          res_bind (set_num fp r i ret) (\<lambda>ret. Inr (SetType ty ret))))
      | _ \<Rightarrow> Inl (Runtime_Error ''invalid m_type''))"

definition vector_scalar :: "fp_ops \<Rightarrow> vec_op \<Rightarrow> bool \<Rightarrow> vector_data \<Rightarrow> vnum \<Rightarrow> vector_data res" where
  "vector_scalar fp op vector_first v n = res_foldl (scalar_elem fp op vector_first v n) v [0..<unat (vd_vlen v)]"

text \<open>The operators as the source overloads them: on two vectors, and on a vector and a scalar in either order.\<close>

definition operator_plus :: "fp_ops \<Rightarrow> vector_data \<Rightarrow> vector_data \<Rightarrow> vector_data res" where
  "operator_plus fp lhs rhs = vector_binary fp Plus lhs rhs"

definition operator_minus :: "fp_ops \<Rightarrow> vector_data \<Rightarrow> vector_data \<Rightarrow> vector_data res" where
  "operator_minus fp lhs rhs = vector_binary fp Minus lhs rhs"

definition operator_times :: "fp_ops \<Rightarrow> vector_data \<Rightarrow> vector_data \<Rightarrow> vector_data res" where
  "operator_times fp lhs rhs = vector_binary fp Times lhs rhs"

definition operator_divide :: "fp_ops \<Rightarrow> vector_data \<Rightarrow> vector_data \<Rightarrow> vector_data res" where
  "operator_divide fp lhs rhs = vector_binary fp Divide lhs rhs"

definition operator_plus_float :: "fp_ops \<Rightarrow> vector_data \<Rightarrow> u32 \<Rightarrow> vector_data res" where
  "operator_plus_float fp lhs rhs = vector_scalar fp Plus True lhs (N_F32 rhs)"

definition operator_plus_int :: "fp_ops \<Rightarrow> vector_data \<Rightarrow> u32 \<Rightarrow> vector_data res" where
  "operator_plus_int fp lhs rhs = vector_scalar fp Plus True lhs (N_I32 rhs)"

definition operator_plus_long :: "fp_ops \<Rightarrow> vector_data \<Rightarrow> u64 \<Rightarrow> vector_data res" where
  "operator_plus_long fp lhs rhs = vector_scalar fp Plus True lhs (N_I64 rhs)"

definition operator_minus_float :: "fp_ops \<Rightarrow> vector_data \<Rightarrow> u32 \<Rightarrow> vector_data res" where
  "operator_minus_float fp lhs rhs = vector_scalar fp Minus True lhs (N_F32 rhs)"

definition operator_minus_int :: "fp_ops \<Rightarrow> vector_data \<Rightarrow> u32 \<Rightarrow> vector_data res" where
  "operator_minus_int fp lhs rhs = vector_scalar fp Minus True lhs (N_I32 rhs)"

definition operator_float_minus :: "fp_ops \<Rightarrow> u32 \<Rightarrow> vector_data \<Rightarrow> vector_data res" where
  "operator_float_minus fp lhs rhs = vector_scalar fp Minus False rhs (N_F32 lhs)"

definition operator_int_minus :: "fp_ops \<Rightarrow> u32 \<Rightarrow> vector_data \<Rightarrow> vector_data res" where
  "operator_int_minus fp lhs rhs = vector_scalar fp Minus False rhs (N_I32 lhs)"

definition operator_times_float :: "fp_ops \<Rightarrow> vector_data \<Rightarrow> u32 \<Rightarrow> vector_data res" where
  "operator_times_float fp lhs rhs = vector_scalar fp Times True lhs (N_F32 rhs)"

definition operator_times_int :: "fp_ops \<Rightarrow> vector_data \<Rightarrow> u32 \<Rightarrow> vector_data res" where
  "operator_times_int fp lhs rhs = vector_scalar fp Times True lhs (N_I32 rhs)"

definition operator_divide_float :: "fp_ops \<Rightarrow> vector_data \<Rightarrow> u32 \<Rightarrow> vector_data res" where
  "operator_divide_float fp lhs rhs = vector_scalar fp Divide True lhs (N_F32 rhs)"

definition operator_float_divide :: "fp_ops \<Rightarrow> u32 \<Rightarrow> vector_data \<Rightarrow> vector_data res" where
  "operator_float_divide fp lhs rhs = vector_scalar fp Divide False rhs (N_F32 lhs)"

definition operator_divide_int :: "fp_ops \<Rightarrow> vector_data \<Rightarrow> u32 \<Rightarrow> vector_data res" where
  "operator_divide_int fp lhs rhs = vector_scalar fp Divide True lhs (N_I32 rhs)"

text \<open>Maximum and minimum, the logical operations, whose truth values go through the overload for \<^verbatim>\<open>bool\<close>, and the exponential.\<close>

definition num_less :: "fp_ops \<Rightarrow> vnum \<Rightarrow> vnum \<Rightarrow> bool" where
  "num_less fp a b = (if is_fp a then fp_less fp a b else num_int a < num_int b)"

definition num_nonzero :: "fp_ops \<Rightarrow> vnum \<Rightarrow> bool" where
  "num_nonzero fp a = (if is_fp a then fp_nonzero fp a else num_int a \<noteq> 0)"

text \<open>Both operands are read at the type of the first.\<close>

definition vector_zip ::
  "fp_ops \<Rightarrow> (vnum \<Rightarrow> vnum \<Rightarrow> nat \<Rightarrow> vector_data \<Rightarrow> vector_data res) \<Rightarrow> vector_data \<Rightarrow> vector_data \<Rightarrow> vector_data res" where
  "vector_zip fp put v rhs =
     res_foldl (\<lambda>ret i.
       if vd_type v \<in> {FLOAT32, FLOAT16, INT64, INT32, INT16} then
         (case type_kind (vd_type v) of
            None \<Rightarrow> Inl (Runtime_Error ''invalid m_type'')
          | Some k \<Rightarrow> res_bind (get_num fp k i v) (\<lambda>a. res_bind (get_num fp k i rhs) (\<lambda>b. put a b i ret)))
       else Inl (Runtime_Error ''invalid m_type'')) v [0..<unat (vd_vlen v)]"

definition Max_vector :: "fp_ops \<Rightarrow> vector_data \<Rightarrow> vector_data \<Rightarrow> vector_data res" where
  "Max_vector fp v rhs = vector_zip fp (\<lambda>a b. set_num fp (if num_less fp a b then b else a)) v rhs"

definition Min_vector :: "fp_ops \<Rightarrow> vector_data \<Rightarrow> vector_data \<Rightarrow> vector_data res" where
  "Min_vector fp v rhs = vector_zip fp (\<lambda>a b. set_num fp (if num_less fp b a then b else a)) v rhs"

definition And_vector :: "fp_ops \<Rightarrow> vector_data \<Rightarrow> vector_data \<Rightarrow> vector_data res" where
  "And_vector fp v rhs = vector_zip fp (\<lambda>a b. SetBool (num_nonzero fp a \<and> num_nonzero fp b)) v rhs"

definition Or_vector :: "fp_ops \<Rightarrow> vector_data \<Rightarrow> vector_data \<Rightarrow> vector_data res" where
  "Or_vector fp v rhs = vector_zip fp (\<lambda>a b. SetBool (num_nonzero fp a \<or> num_nonzero fp b)) v rhs"

definition Exp_vector :: "fp_ops \<Rightarrow> vector_data \<Rightarrow> vector_data \<Rightarrow> vector_data res" where
  "Exp_vector fp v rhs =
     res_foldl (\<lambda>ret i.
       if vd_type v = FLOAT32 then
         res_bind (get_num fp K_F32 i rhs) (\<lambda>a. set_num fp (make_num K_F32 (fp_exp fp a K_F32)) i ret)
       else if vd_type v = FLOAT16 then
         res_bind (get_num fp K_F16 i rhs) (\<lambda>a. set_num fp (make_num K_F16 (fp_exp fp a K_F16)) i ret)
       else Inl (Runtime_Error ''VectorData::Exp: Support only fp32'')) v [0..<unat (vd_vlen v)]"

section \<open>Fields of a cell\<close>

lemma bit_get_field:
  "bit (get_field k d :: 'a::len word) n \<longleftrightarrow> n < LENGTH('a) \<and> bit d (LENGTH('a) * k + n)"
  by (auto simp: get_field_def bit_ucast_iff bit_drop_bit_eq)

lemma bit_set_field:
  fixes v :: "'a::len word"
  assumes "n < 32"
  shows "bit (set_field k v d) n \<longleftrightarrow>
    (if LENGTH('a) * k \<le> n \<and> n < LENGTH('a) * k + LENGTH('a) then bit v (n - LENGTH('a) * k) else bit d n)"
  using assms by (auto simp: set_field_def bit_simps dest: bit_imp_le_length)

lemma get_set_field:
  fixes v :: "'a::len word"
  assumes "LENGTH('a) * k + LENGTH('a) \<le> 32"
  shows "get_field k (set_field k v d) = v"
  using assms by (intro bit_word_eqI) (simp add: bit_get_field bit_set_field)

lemma field_position:
  assumes "n < L" "L * k \<le> L * j + n" "L * j + n < L * k + L"
  shows "j = (k :: nat)"
proof -
  have "L * k < L * (j + 1)" "L * j < L * (k + 1)"
    using assms by simp_all
  then show ?thesis
    by (metis add.commute assms(1) less_Suc_eq_le le_antisym mult_less_cancel1 plus_1_eq_Suc)
qed

lemma get_set_field_other:
  fixes v :: "'a::len word"
  assumes "LENGTH('a) * j + LENGTH('a) \<le> 32" "j \<noteq> k"
  shows "(get_field j (set_field k v d) :: 'a word) = get_field j d"
proof (intro bit_word_eqI)
  fix n assume n: "n < LENGTH('a)"
  then have "\<not> (LENGTH('a) * k \<le> LENGTH('a) * j + n \<and> LENGTH('a) * j + n < LENGTH('a) * k + LENGTH('a))"
    using field_position [of n "LENGTH('a)" k j] assms(2) by auto
  then show "bit (get_field j (set_field k v d) :: 'a word) n = bit (get_field j d :: 'a word) n"
    using n assms(1) by (auto simp: bit_get_field bit_set_field)
qed

lemma long_halves: "push_bit 32 (scast (ucast (drop_bit 32 x) :: u32)) OR (scast (ucast (x AND 0xffffffff) :: u32) AND 0xffffffff) = (x :: u64)"
proof -
  have m: "(0xffffffff :: u64) = Bit_Operations.mask 32"
    by (simp add: mask_numeral)
  show ?thesis
    unfolding m
  proof (intro bit_word_eqI)
    fix n assume n: "n < LENGTH(64)"
    then consider "n < 31" | "n = 31" | "31 < n" "n < 63" | "n = 63"
      by fastforce
    then show "bit (push_bit 32 (scast (ucast (drop_bit 32 x) :: u32)) OR
        (scast (ucast (x AND Bit_Operations.mask 32) :: u32) AND Bit_Operations.mask 32) :: u64) n = bit x n"
      by cases (auto simp: bit_simps)
  qed
qed

section \<open>Reading what was written\<close>

definition kind_bits :: "num_kind \<Rightarrow> nat" where
  "kind_bits k = (case k of K_I64 \<Rightarrow> 64 | K_F32 \<Rightarrow> 32 | K_I32 \<Rightarrow> 32 | K_F16 \<Rightarrow> 16 | K_I16 \<Rightarrow> 16 | K_U8 \<Rightarrow> 8)"

definition kind_type :: "num_kind \<Rightarrow> DataType" where
  "kind_type k = (case k of K_I64 \<Rightarrow> INT64 | K_F32 \<Rightarrow> FLOAT32 | K_I32 \<Rightarrow> INT32 | K_F16 \<Rightarrow> FLOAT16 | K_I16 \<Rightarrow> INT16 | K_U8 \<Rightarrow> UINT8)"

lemma type_kind_iff: "type_kind ty = Some k \<longleftrightarrow> ty = kind_type k"
  by (cases ty; cases k) (simp_all add: type_kind_def kind_type_def)

definition same_shape :: "vector_data \<Rightarrow> vector_data \<Rightarrow> bool" where
  "same_shape v v' \<longleftrightarrow> vd_vlen v' = vd_vlen v \<and> length (vd_data v') = length (vd_data v) \<and> vd_double_reg v' = vd_double_reg v"

lemma same_shape_refl [simp]: "same_shape v v"
  by (simp add: same_shape_def)

lemma same_shape_trans: "same_shape v v' \<Longrightarrow> same_shape v' v'' \<Longrightarrow> same_shape v v''"
  by (simp add: same_shape_def)

named_theorems vd_access "the element accessors"

lemmas [vd_access] = GetFloatData_def GetIntData_def GetShortData_def GetU8Data_def GetLongData_def GetHalfData_def
  SetFloat_def SetInt_def SetShort_def SetU8_def SetLong_def SetHalf_def cell_def set_cell_def

lemma get_num_in_range:
  assumes "kind_bits k * i + kind_bits k \<le> 32 * length (vd_data v)"
  shows "\<exists>n. get_num fp k i v = Inr n \<and> num_kind_of n = k"
  using assms by (cases k) (auto simp: get_num_def vd_access kind_bits_def num_kind_of_def)

text \<open>The assertion on the index, which counts cells for the narrow kinds.\<close>

definition index_ok :: "num_kind \<Rightarrow> nat \<Rightarrow> vector_data \<Rightarrow> bool" where
  "index_ok k i v \<longleftrightarrow>
     (case k of K_F16 \<Rightarrow> i div 2 | K_I16 \<Rightarrow> i div 2 | K_U8 \<Rightarrow> i div 4 | _ \<Rightarrow> i) < unat (vd_vlen v)"

lemma index_ok_less: "i < unat (vd_vlen v) \<Longrightarrow> index_ok k i v"
  by (auto simp: index_ok_def split: num_kind.splits intro: le_less_trans [OF div_le_dividend])

lemma set_num_in_range:
  assumes "kind_bits (num_kind_of n) * i + kind_bits (num_kind_of n) \<le> 32 * length (vd_data v)" "index_ok (num_kind_of n) i v"
  shows "\<exists>v'. set_num fp n i v = Inr v' \<and> same_shape v v' \<and> vd_type v' = kind_type (num_kind_of n)"
  using assms
  by (cases n) (auto simp: set_num_def vd_access kind_bits_def num_kind_of_def kind_type_def same_shape_def index_ok_def)

text \<open>What the library promises of a half: storing and loading it is the identity.\<close>

definition half_exact :: "fp_ops \<Rightarrow> bool" where
  "half_exact fp \<longleftrightarrow> (\<forall>h. fp_half_load fp (fp_half_store fp h) = h)"

lemma set_num_get_same:
  assumes "half_exact fp \<or> num_kind_of n \<noteq> K_F16" "set_num fp n i v = Inr v'"
  shows "get_num fp (num_kind_of n) i v' = Inr n"
  using assms(2)
proof (cases n)
  case (N_I64 x)
  then show ?thesis
    using assms(2) by (auto simp: set_num_def get_num_def vd_access num_kind_of_def res_simps long_halves split: if_splits)
qed (use assms in \<open>auto simp: set_num_def get_num_def vd_access num_kind_of_def res_simps get_set_field half_exact_def
       split: if_splits\<close>)

lemma set_num_get_other:
  assumes "set_num fp n i v = Inr v'" "j \<noteq> i"
  shows "get_num fp (num_kind_of n) j v' = get_num fp (num_kind_of n) j v"
proof (cases n)
  case (N_I64 x)
  then show ?thesis
    using assms by (auto simp: set_num_def get_num_def vd_access num_kind_of_def res_simps nth_list_update split: if_splits)
next
  case (N_F16 x)
  have "j mod 2 \<noteq> i mod 2" if "j div 2 = i div 2"
    using that assms(2) by (metis div_mult_mod_eq)
  then show ?thesis
    using N_F16 assms
    by (cases "j div 2 = i div 2")
      (auto simp: set_num_def get_num_def vd_access num_kind_of_def res_simps get_set_field_other nth_list_update split: if_splits)
next
  case (N_I16 x)
  have "j mod 2 \<noteq> i mod 2" if "j div 2 = i div 2"
    using that assms(2) by (metis div_mult_mod_eq)
  then show ?thesis
    using N_I16 assms
    by (cases "j div 2 = i div 2")
      (auto simp: set_num_def get_num_def vd_access num_kind_of_def res_simps get_set_field_other nth_list_update split: if_splits)
next
  case (N_U8 x)
  have "j mod 4 \<noteq> i mod 4" if "j div 4 = i div 4"
    using that assms(2) by (metis div_mult_mod_eq)
  then show ?thesis
    using N_U8 assms
    by (cases "j div 4 = i div 4")
      (auto simp: set_num_def get_num_def vd_access num_kind_of_def res_simps get_set_field_other nth_list_update split: if_splits)
qed (use assms in \<open>auto simp: set_num_def get_num_def vd_access num_kind_of_def res_simps split: if_splits\<close>)

section \<open>Element-wise operations\<close>

text \<open>A vector whose elements fit into its cells.\<close>

definition type_bits :: "DataType \<Rightarrow> nat" where
  "type_bits ty = (case ty of INT64 \<Rightarrow> 64 | FLOAT32 \<Rightarrow> 32 | INT32 \<Rightarrow> 32 | INT16 \<Rightarrow> 16 | FLOAT16 \<Rightarrow> 16 | VMASK \<Rightarrow> 1
     | MAX_DataType \<Rightarrow> 0 | _ \<Rightarrow> 8)"

definition vd_ok :: "vector_data \<Rightarrow> bool" where
  "vd_ok v \<longleftrightarrow> type_bits (vd_type v) * unat (vd_vlen v) \<le> 32 * length (vd_data v)"

lemma type_bits_kind [simp]: "type_bits (kind_type k) = kind_bits k"
  by (cases k) (simp_all add: type_bits_def kind_type_def kind_bits_def)

lemma vd_ok_elem:
  assumes "vd_ok v" "type_kind (vd_type v) = Some k" "i < unat (vd_vlen v)"
  shows "kind_bits k * i + kind_bits k \<le> 32 * length (vd_data v)"
proof -
  have "kind_bits k * (i + 1) \<le> kind_bits k * unat (vd_vlen v)"
    using assms(3) by (intro mult_le_mono) auto
  then show ?thesis
    using assms(1,2) by (simp add: vd_ok_def type_kind_iff)
qed

lemma num_kind_make [simp]: "num_kind_of (make_num k b) = k"
  by (cases k) (simp_all add: num_kind_of_def make_num_def)

lemma num_arith_kind: "num_arith fp op a b k = Inr n \<Longrightarrow> num_kind_of n = k"
  by (auto simp: num_arith_def res_simps split: if_splits)

text \<open>The integer divisions without a result: by zero, and of the most negative number of the promoted type by -1.\<close>

definition div_undefined :: "vnum \<Rightarrow> vnum \<Rightarrow> bool" where
  "div_undefined a b \<longleftrightarrow> \<not> is_fp a \<and> \<not> is_fp b \<and>
     (num_int b = 0 \<or> num_int b = - 1 \<and> num_int a = - (2 ^ (promoted_bits a b - 1)))"

lemma num_arith_error: "num_arith fp op a b k = Inl e \<longleftrightarrow> e = Div_By_Zero \<and> op = Divide \<and> div_undefined a b"
  by (cases op) (auto simp: num_arith_def int_arith_def div_undefined_def res_simps)

text \<open>An element of a vector, read at the type of the vector.\<close>

definition elem_at :: "fp_ops \<Rightarrow> vector_data \<Rightarrow> nat \<Rightarrow> vnum \<Rightarrow> bool" where
  "elem_at fp v i a \<longleftrightarrow> (\<exists>k. type_kind (vd_type v) = Some k \<and> get_num fp k i v = Inr a)"

text \<open>
  A loop that stores one number per element: it stays inside the cells, and the elements of the result are the
  numbers stored.
\<close>

lemma elem_fold:
  assumes fit: "\<And>i. i < m \<Longrightarrow> kind_bits k * i + kind_bits k \<le> 32 * length (vd_data v)"
    and m: "\<And>i. i < m \<Longrightarrow> index_ok k i v" and half: "half_exact fp \<or> k \<noteq> K_F16"
    and g: "\<And>i. i < m \<Longrightarrow> num_kind_of (g i) = k"
    and step: "\<And>ret i. i < m \<Longrightarrow> f ret i = set_num fp (g i) i ret"
  shows "\<exists>r. res_foldl f v [0..<m] = Inr r \<and> same_shape v r \<and> (0 < m \<longrightarrow> vd_type r = kind_type k) \<and>
    (m = 0 \<longrightarrow> r = v) \<and> (\<forall>i<m. get_num fp k i r = Inr (g i)) \<and>
    (\<forall>i\<ge>m. get_num fp k i r = get_num fp k i v)"
  using assms
proof (induction m)
  case (Suc m)
  obtain r where r: "res_foldl f v [0..<m] = Inr r" "same_shape v r" "\<forall>i<m. get_num fp k i r = Inr (g i)"
    "\<forall>i\<ge>m. get_num fp k i r = get_num fp k i v"
    using Suc.IH [OF Suc.prems(1,2,3) Suc.prems(4,5)] by (metis (no_types, lifting) less_Suc_eq)
  have "index_ok k m r" "kind_bits k * m + kind_bits k \<le> 32 * length (vd_data r)"
    using Suc.prems(1,2) [of m] r(2) by (simp_all add: same_shape_def index_ok_def)
  then obtain r' where r': "set_num fp (g m) m r = Inr r'" "same_shape r r'" "vd_type r' = kind_type k"
    using set_num_in_range [of "g m" m r fp] Suc.prems(4) [of m] by auto
  have "res_foldl f v [0..<Suc m] = Inr r'"
    using r(1) r'(1) Suc.prems(5) [of m r] by (simp add: res_foldl_append)
  moreover have "get_num fp k i r' = Inr (g i)" if "i < Suc m" for i
    using that r(3) half set_num_get_same [OF _ r'(1)] set_num_get_other [OF r'(1), of i] Suc.prems(4) [of m]
    by (cases "i = m") auto
  moreover have "get_num fp k i r' = get_num fp k i v" if "Suc m \<le> i" for i
    using that r(4) set_num_get_other [OF r'(1), of i] Suc.prems(4) [of m] by auto
  ultimately show ?case
    using same_shape_trans [OF r(2) r'(2)] r'(3) by blast
qed simp

lemma res_foldl_outcome:
  assumes "P s" "\<And>s x. P s \<Longrightarrow> x \<in> set xs \<Longrightarrow> (case f s x of Inr s' \<Rightarrow> P s' | Inl e \<Rightarrow> Q e)"
  shows "case res_foldl f s xs of Inr s' \<Rightarrow> P s' | Inl e \<Rightarrow> Q e"
  using assms
proof (induction xs arbitrary: s)
  case (Cons x xs)
  then show ?case
    using Cons.prems(2) [OF Cons.prems(1), of x] by (cases "f s x") (simp_all add: Cons.IH Cons.prems)
qed simp

text \<open>The states of a loop over the elements of \<open>v\<close> whose results have type \<open>ty\<close>.\<close>

definition elem_state :: "vector_data \<Rightarrow> DataType set \<Rightarrow> vector_data \<Rightarrow> bool" where
  "elem_state v tys r \<longleftrightarrow> same_shape v r \<and> vd_type r \<in> tys"

lemma set_num_state:
  assumes "elem_state v tys r" "vd_ok v" "type_kind (vd_type v) = Some (num_kind_of n)" "i < unat (vd_vlen v)"
  shows "\<exists>r'. set_num fp n i r = Inr r' \<and> elem_state v {vd_type v} r'"
proof -
  have "kind_bits (num_kind_of n) * i + kind_bits (num_kind_of n) \<le> 32 * length (vd_data r)" "i < unat (vd_vlen r)"
    using assms vd_ok_elem [OF assms(2-4)] by (simp_all add: elem_state_def same_shape_def)
  then show ?thesis
    using set_num_in_range [of n i r fp] index_ok_less [of i r] assms(1,3) same_shape_trans
    by (auto simp: elem_state_def type_kind_iff)
qed

lemma vector_elem_outcome:
  assumes "vd_ok lhs" "vd_ok rhs" "vd_vlen lhs = vd_vlen rhs" "i < unat (vd_vlen lhs)" "elem_state lhs {vd_type lhs} ret"
  shows "case vector_elem fp op lhs rhs ret i of Inr r \<Rightarrow> elem_state lhs {vd_type lhs} r
    | Inl e \<Rightarrow> e = Runtime_Error ''invalid m_type'' \<and> op_action op (vd_type lhs) (vd_type rhs) = Throw \<or>
        e = Div_By_Zero \<and> op = Divide \<and> (\<exists>a b. elem_at fp lhs i a \<and> elem_at fp rhs i b \<and> div_undefined a b)"
proof (cases "op_action op (vd_type lhs) (vd_type rhs)")
  case Store
  then obtain k k' where k: "type_kind (vd_type lhs) = Some k" "type_kind (vd_type rhs) = Some k'"
    by (cases op; cases "vd_type lhs"; cases "vd_type rhs")
      (simp_all add: op_action_def add_action_def sub_action_def mul_action_def div_action_def type_kind_def)
  obtain a b where ab: "get_num fp k i lhs = Inr a" "get_num fp k' i rhs = Inr b"
    using get_num_in_range vd_ok_elem [OF assms(1) k(1)] vd_ok_elem [OF assms(2) k(2)] assms(3,4) by metis
  show ?thesis
  proof (cases "num_arith fp op a b k")
    case (Inl e)
    then have "e = Div_By_Zero \<and> op = Divide \<and> div_undefined a b"
      by (simp add: num_arith_error)
    then show ?thesis
      using ab k Store Inl by (auto simp: vector_elem_def elem_at_def)
  next
    case (Inr n)
    then obtain r where "set_num fp n i ret = Inr r" "elem_state lhs {vd_type lhs} r"
      using set_num_state [OF assms(5,1) _ assms(4), of n fp] k(1) num_arith_kind [OF Inr] by auto
    then show ?thesis
      using ab k Store Inr by (simp add: vector_elem_def)
  qed
qed (use assms in \<open>simp_all add: vector_elem_def\<close>)

lemma vd_ok_same: "vd_ok v \<Longrightarrow> same_shape v r \<Longrightarrow> type_bits (vd_type r) = type_bits (vd_type v) \<Longrightarrow> vd_ok r"
  by (simp add: vd_ok_def same_shape_def)

lemma scalar_type_bits: "scalar_type op b s ty = Some ty' \<Longrightarrow> type_bits ty' = type_bits ty \<and> (\<exists>k. type_kind ty = Some k)"
  by (auto simp: scalar_type_def type_bits_def type_kind_def split: DataType.splits if_splits)

lemma scalar_elem_outcome:
  assumes "vd_ok v" "i < unat (vd_vlen v)" "elem_state v UNIV ret"
  shows "case scalar_elem fp op b v n ret i of
      Inr r \<Rightarrow> \<exists>ty. scalar_type op b (num_kind_of n) (vd_type v) = Some ty \<and> elem_state v {ty} r
    | Inl e \<Rightarrow> e = Runtime_Error ''invalid m_type'' \<and> scalar_type op b (num_kind_of n) (vd_type v) = None \<or>
        e = Div_By_Zero \<and> op = Divide \<and> (\<exists>a. elem_at fp v i a \<and> (if b then div_undefined a n else div_undefined n a))"
proof (cases "scalar_type op b (num_kind_of n) (vd_type v)")
  case (Some ty)
  then obtain k where k: "type_kind (vd_type v) = Some k"
    using scalar_type_bits by blast
  obtain a where a: "get_num fp k i v = Inr a"
    using get_num_in_range vd_ok_elem [OF assms(1) k assms(2)] by metis
  let ?m = "if b then num_arith fp op a n k else num_arith fp op n a k"
  show ?thesis
  proof (cases ?m)
    case (Inl e)
    then have "e = Div_By_Zero \<and> op = Divide \<and> (if b then div_undefined a n else div_undefined n a)"
      by (cases b) (simp_all add: num_arith_error)
    then show ?thesis
      using a k Some Inl by (cases b) (auto simp: scalar_elem_def elem_at_def)
  next
    case (Inr m)
    then have "num_kind_of m = k"
      using num_arith_kind by (metis (full_types))
    then obtain r where "set_num fp m i ret = Inr r" "elem_state v {vd_type v} r"
      using set_num_state [OF assms(3,1) _ assms(2), of m fp] k by auto
    then show ?thesis
      using a k Some Inr by (simp add: scalar_elem_def elem_state_def SetType_def same_shape_def)
  qed
qed (simp add: scalar_elem_def)

section \<open>Properties\<close>

text \<open>
  What is written into a vector is read back: after \<^verbatim>\<open>SetData\<close> of a number of any kind at an index, reading the
  index at that kind gives the number, every other element of that kind is unchanged, and the length and the cells of
  the vector keep their number; a 64-bit element is put together from its two halves.
\<close>

theorem vector_set_get:
  assumes "half_exact fp" "set_num fp n i v = Inr v'"
  shows "get_num fp (num_kind_of n) i v' = Inr n \<and>
    (\<forall>j. j \<noteq> i \<longrightarrow> get_num fp (num_kind_of n) j v' = get_num fp (num_kind_of n) j v) \<and>
    vd_vlen v' = vd_vlen v \<and> length (vd_data v') = length (vd_data v)"
proof -
  have "vd_vlen v' = vd_vlen v \<and> length (vd_data v') = length (vd_data v)"
    using assms(2) by (cases n) (auto simp: set_num_def vd_access res_simps split: if_splits)
  then show ?thesis
    using set_num_get_same [OF disjI1 [OF assms(1)] assms(2)] set_num_get_other [OF assms(2)] by blast
qed

definition id_fp :: fp_ops where
  "id_fp = \<lparr>fp_arith = (\<lambda>_ _ _ _. 0), fp_less = (\<lambda>_ _. False), fp_nonzero = (\<lambda>_. False), fp_exp = (\<lambda>_ _. 0),
     fp_half_store = (\<lambda>h. h), fp_half_load = (\<lambda>h. h)\<rparr>"

theorem vector_set_get_witness:
  "\<exists>v'. set_num id_fp (N_I64 0x123456789) 2 (new_vector_data\<lparr>vd_vlen := 4\<rparr>) = Inr v' \<and>
     get_num id_fp K_I64 2 v' = Inr (N_I64 0x123456789)"
proof -
  have h: "half_exact id_fp"
    by (simp add: half_exact_def id_fp_def)
  obtain v' where v': "set_num id_fp (N_I64 0x123456789) 2 (new_vector_data\<lparr>vd_vlen := 4\<rparr>) = Inr v'"
    by (simp add: set_num_def vd_access new_vector_data_def PACKET_ENTRIES_def)
  then show ?thesis
    using vector_set_get [OF h v'] by (simp add: num_kind_of_def)
qed

text \<open>
  C37. Vector arithmetic is type safe: on vectors whose elements fit into their cells, no operator indexes out of range.
  It returns a vector of the same length and number of cells that again fits, of the type of the left operand (of the
  type table of the scalar operators), or fails, and it fails for these reasons only: the assertion on the lengths when they
  differ, the exception when the operator does not support the types, and the trap of an integer division when at some index the
  divisor is zero, or the dividend is the most negative number of the promoted type and the divisor -1.
\<close>

theorem vector_arith_type_safe:
  assumes "vd_ok v" "vd_ok w"
  shows "(case vector_binary fp op v w of
       Inr r \<Rightarrow> same_shape v r \<and> vd_ok r \<and> vd_type r = vd_type v
     | Inl e \<Rightarrow> e = Assert_Fail ''lhs.GetVlen() == rhs.GetVlen()'' \<and> vd_vlen v \<noteq> vd_vlen w \<or>
         e = Runtime_Error ''invalid m_type'' \<and> op_action op (vd_type v) (vd_type w) = Throw \<or>
         e = Div_By_Zero \<and> op = Divide \<and> (\<exists>i<unat (vd_vlen v). \<exists>a b. elem_at fp v i a \<and> elem_at fp w i b \<and> div_undefined a b)) \<and>
    (case vector_scalar fp op first v n of
       Inr r \<Rightarrow> same_shape v r \<and> vd_ok r \<and>
         (vd_type r = vd_type v \<or> scalar_type op first (num_kind_of n) (vd_type v) = Some (vd_type r))
     | Inl e \<Rightarrow> e = Runtime_Error ''invalid m_type'' \<and> scalar_type op first (num_kind_of n) (vd_type v) = None \<or>
         e = Div_By_Zero \<and> op = Divide \<and>
           (\<exists>i<unat (vd_vlen v). \<exists>a. elem_at fp v i a \<and> (if first then div_undefined a n else div_undefined n a)))"
    (is "?binary \<and> ?scalar")
proof
  have self: "elem_state v {vd_type v} v"
    by (simp add: elem_state_def)
  show ?binary
  proof (cases "vd_vlen v = vd_vlen w")
    case True
    have "case res_foldl (vector_elem fp op v w) v [0..<unat (vd_vlen v)] of Inr r \<Rightarrow> elem_state v {vd_type v} r
      | Inl e \<Rightarrow> e = Runtime_Error ''invalid m_type'' \<and> op_action op (vd_type v) (vd_type w) = Throw \<or>
          e = Div_By_Zero \<and> op = Divide \<and> (\<exists>i<unat (vd_vlen v). \<exists>a b. elem_at fp v i a \<and> elem_at fp w i b \<and> div_undefined a b)"
    proof (rule res_foldl_outcome, rule self)
      fix r i assume r: "elem_state v {vd_type v} r" and i: "i \<in> set [0..<unat (vd_vlen v)]"
      then show "case vector_elem fp op v w r i of Inr r \<Rightarrow> elem_state v {vd_type v} r
        | Inl e \<Rightarrow> e = Runtime_Error ''invalid m_type'' \<and> op_action op (vd_type v) (vd_type w) = Throw \<or>
            e = Div_By_Zero \<and> op = Divide \<and> (\<exists>i<unat (vd_vlen v). \<exists>a b. elem_at fp v i a \<and> elem_at fp w i b \<and> div_undefined a b)"
        using vector_elem_outcome [OF assms True _ r, of i, where fp = fp and op = op] by (auto split: sum.splits)
    qed
    then show ?thesis
      using True vd_ok_same [OF assms(1)] by (auto simp: vector_binary_def elem_state_def split: sum.splits)
  qed (simp add: vector_binary_def)
  let ?P = "\<lambda>r. elem_state v ({vd_type v} \<union> set_option (scalar_type op first (num_kind_of n) (vd_type v))) r"
  have "case res_foldl (scalar_elem fp op first v n) v [0..<unat (vd_vlen v)] of Inr r \<Rightarrow> ?P r
      | Inl e \<Rightarrow> e = Runtime_Error ''invalid m_type'' \<and> scalar_type op first (num_kind_of n) (vd_type v) = None \<or>
          e = Div_By_Zero \<and> op = Divide \<and>
            (\<exists>i<unat (vd_vlen v). \<exists>a. elem_at fp v i a \<and> (if first then div_undefined a n else div_undefined n a))"
  proof (rule res_foldl_outcome)
    show "?P v"
      by (simp add: elem_state_def)
    fix r i assume r: "?P r" and i: "i \<in> set [0..<unat (vd_vlen v)]"
    then have "elem_state v UNIV r"
      by (simp add: elem_state_def)
    then show "case scalar_elem fp op first v n r i of Inr r \<Rightarrow> ?P r
      | Inl e \<Rightarrow> e = Runtime_Error ''invalid m_type'' \<and> scalar_type op first (num_kind_of n) (vd_type v) = None \<or>
          e = Div_By_Zero \<and> op = Divide \<and>
            (\<exists>i<unat (vd_vlen v). \<exists>a. elem_at fp v i a \<and> (if first then div_undefined a n else div_undefined n a))"
      using scalar_elem_outcome [OF assms(1), of i r, where fp = fp and op = op and b = first and n = n] i
      by (cases first) (auto simp: elem_state_def split: sum.splits)
  qed
  then show ?scalar
    using vd_ok_same [OF assms(1)] scalar_type_bits [of op first "num_kind_of n" "vd_type v"]
    by (cases first) (auto simp: vector_scalar_def elem_state_def split: sum.splits)
qed

text \<open>Adding two vectors of zeros succeeds; dividing the most negative numbers by -1 is the overflow.\<close>

theorem vector_arith_type_safe_witness:
  "vd_ok (SetType INT32 new_vector_data) \<and> ok (vector_binary id_fp Plus (SetType INT32 new_vector_data) (SetType INT32 new_vector_data)) \<and>
   vector_binary id_fp Divide (SetType INT32 (new_vector_data\<lparr>vd_data := replicate 8 0x80000000\<rparr>))
     (SetType INT32 (new_vector_data\<lparr>vd_data := replicate 8 0xFFFFFFFF\<rparr>)) = Inl Div_By_Zero"
proof -
  let ?v = "SetType INT32 new_vector_data"
  have v: "vd_ok ?v"
    by (simp add: vd_ok_def SetType_def new_vector_data_def PACKET_ENTRIES_def type_bits_def)
  have "op_action Plus (vd_type ?v) (vd_type ?v) = Store"
    by (simp add: op_action_def add_action_def SetType_def)
  then have "ok (vector_binary id_fp Plus ?v ?v)"
    using vector_arith_type_safe [OF v v, where fp = id_fp and op = Plus] by (auto simp: ok_def split: sum.splits)
  moreover have "vector_binary id_fp Divide (SetType INT32 (new_vector_data\<lparr>vd_data := replicate 8 0x80000000\<rparr>))
     (SetType INT32 (new_vector_data\<lparr>vd_data := replicate 8 0xFFFFFFFF\<rparr>)) = Inl Div_By_Zero"
    by code_simp
  ultimately show ?thesis
    using v by blast
qed

lemma trunc_div_sdiv: "trunc_div a b = a sdiv b"
  by (auto simp: trunc_div_def signed_divide_int_def sgn_if)

text \<open>The operations on words: the wrapped ring operations, and the signed quotient where it exists.\<close>

fun word_op :: "vec_op \<Rightarrow> vnum \<Rightarrow> vnum \<Rightarrow> vnum option" where
  "word_op Plus (N_I32 x) (N_I32 y) = Some (N_I32 (x + y))"
| "word_op Minus (N_I32 x) (N_I32 y) = Some (N_I32 (x - y))"
| "word_op Times (N_I32 x) (N_I32 y) = Some (N_I32 (x * y))"
| "word_op Divide (N_I32 x) (N_I32 y) =
     (if y = 0 \<or> x = 0x80000000 \<and> y = - 1 then None else Some (N_I32 (word_of_int (sint x sdiv sint y))))"
| "word_op Plus (N_I64 x) (N_I64 y) = Some (N_I64 (x + y))"
| "word_op Minus (N_I64 x) (N_I64 y) = Some (N_I64 (x - y))"
| "word_op _ _ _ = None"

lemma ucast_word_of_int: "(ucast (word_of_int k :: u64) :: u32) = word_of_int k"
  by (intro bit_word_eqI) (simp add: bit_ucast_iff bit_word_of_int_iff)

lemma word32_of_sint: "word_of_int (sint x) = (x :: u32)"
  by simp

lemma sint32_eqD: "sint (x :: u32) = m \<Longrightarrow> x = word_of_int m"
  using word32_of_sint [of x] by simp

lemma sint32_special:
  "sint (x :: u32) = 0 \<longleftrightarrow> x = 0" "sint (x :: u32) = - 1 \<longleftrightarrow> x = - 1" "sint (x :: u32) = - 2147483648 \<longleftrightarrow> x = 0x80000000"
  by (auto dest: sint32_eqD)

lemma num_arith_word:
  assumes "num_kind_of a = k" "num_kind_of b = k" "k = K_I32 \<or> k = K_I64 \<and> op \<in> {Plus, Minus}"
  shows "num_arith fp op a b k = (case word_op op a b of Some n \<Rightarrow> Inr n | None \<Rightarrow> Inl Div_By_Zero)"
    "\<And>n. word_op op a b = Some n \<Longrightarrow> num_kind_of n = k"
  using assms
  by (cases op; cases a; cases b;
      auto simp: num_arith_def is_fp_def int_arith_def num_int_def make_num_def num_kind_of_def ucast_word_of_int
        promoted_bits_def sint32_special trunc_div_sdiv split: if_splits)+

lemma vector_elem_word:
  assumes "vd_type v = kind_type k" "vd_type w = kind_type k" "k = K_I32 \<or> k = K_I64 \<and> op \<in> {Plus, Minus}"
    and "get_num fp k i v = Inr a" "num_kind_of a = k" "get_num fp k i w = Inr b" "num_kind_of b = k"
  shows "vector_elem fp op v w ret i = (case word_op op a b of Some n \<Rightarrow> set_num fp n i ret | None \<Rightarrow> Inl Div_By_Zero)"
proof -
  have "op_action op (vd_type v) (vd_type w) = Store"
    using assms(1-3) by (cases op) (auto simp: op_action_def add_action_def sub_action_def mul_action_def div_action_def kind_type_def)
  then show ?thesis
    using assms num_arith_word(1) [OF assms(5,7,3), of fp]
    by (auto simp: vector_elem_def type_kind_iff [THEN iffD2] split: option.splits)
qed

lemma word_elems:
  fixes fp :: fp_ops
  assumes "vd_ok v" "vd_ok w" "vd_vlen v = vd_vlen w" "vd_type v = kind_type k" "vd_type w = kind_type k" "i < unat (vd_vlen v)"
  defines "a \<equiv> projr (get_num fp k i v)" and "b \<equiv> projr (get_num fp k i w)"
  shows "get_num fp k i v = Inr a" "num_kind_of a = k" "get_num fp k i w = Inr b" "num_kind_of b = k"
    "k = K_I32 \<or> k = K_I64 \<and> op \<in> {Plus, Minus} \<Longrightarrow>
      vector_elem fp op v w ret i = (case word_op op a b of Some n \<Rightarrow> set_num fp n i ret | None \<Rightarrow> Inl Div_By_Zero)"
proof -
  have kinds: "type_kind (vd_type v) = Some k" "type_kind (vd_type w) = Some k"
    using assms(4,5) by (simp_all add: type_kind_iff)
  show ab: "get_num fp k i v = Inr a" "num_kind_of a = k" "get_num fp k i w = Inr b" "num_kind_of b = k"
    using get_num_in_range [OF vd_ok_elem [OF assms(1) kinds(1) assms(6)], of fp]
      get_num_in_range [OF vd_ok_elem [OF assms(2) kinds(2)], of i fp] assms(3,6) by (auto simp: a_def b_def)
  show "vector_elem fp op v w ret i = (case word_op op a b of Some n \<Rightarrow> set_num fp n i ret | None \<Rightarrow> Inl Div_By_Zero)"
    if "k = K_I32 \<or> k = K_I64 \<and> op \<in> {Plus, Minus}"
    by (rule vector_elem_word [OF assms(4,5) that ab])
qed

text \<open>The loop over the elements in front of the first without a result.\<close>

lemma word_prefix:
  assumes "vd_ok v" "vd_ok w" "vd_vlen v = vd_vlen w" "vd_type v = kind_type k" "vd_type w = kind_type k"
    and kop: "k = K_I32 \<or> k = K_I64 \<and> op \<in> {Plus, Minus}"
    and m: "m \<le> unat (vd_vlen v)" "\<forall>i<m. word_op op (projr (get_num fp k i v)) (projr (get_num fp k i w)) \<noteq> None"
  shows "\<exists>r. res_foldl (vector_elem fp op v w) v [0..<m] = Inr r \<and> same_shape v r \<and> (0 < m \<longrightarrow> vd_type r = kind_type k) \<and>
    (m = 0 \<longrightarrow> r = v) \<and> (\<forall>i<m. get_num fp k i r = Inr (the (word_op op (projr (get_num fp k i v)) (projr (get_num fp k i w)))))"
proof -
  let ?r = "\<lambda>i. the (word_op op (projr (get_num fp k i v)) (projr (get_num fp k i w)))"
  have s: "kind_bits k * i + kind_bits k \<le> 32 * length (vd_data v)" "index_ok k i v" "num_kind_of (?r i) = k"
    "vector_elem fp op v w ret i = set_num fp (?r i) i ret" if "i < m" for ret i
  proof -
    have i: "i < unat (vd_vlen v)"
      using that m(1) by simp
    note e = word_elems [OF assms(1-5) i, where fp = fp]
    show "kind_bits k * i + kind_bits k \<le> 32 * length (vd_data v)" "index_ok k i v" "num_kind_of (?r i) = k"
      "vector_elem fp op v w ret i = set_num fp (?r i) i ret"
      using that m(2) vd_ok_elem [OF assms(1) type_kind_iff [THEN iffD2, OF assms(4)] i] index_ok_less [OF i]
        num_arith_word(2) [OF e(2,4) kop] e(5) [OF kop] by auto
  qed
  have "half_exact fp \<or> k \<noteq> K_F16"
    using kop by auto
  then show ?thesis
    using elem_fold [where fp = fp and g = ?r, OF s(1,2) _ s(3,4)] by blast
qed

lemma least_below: "\<exists>i<(n :: nat). P i \<Longrightarrow> \<exists>i<n. P i \<and> (\<forall>m<i. \<not> P m)"
  by (metis LeastI Least_le not_less_Least order.strict_trans1)

text \<open>
  C38. Integer arithmetic of two vectors of the same type and length, whatever the floating-point unit does. On 32-bit elements
  addition, subtraction, multiplication and division, and on 64-bit elements addition and subtraction, are the operation on words of each pair of
  elements: the wrapped ring operation, and the signed quotient cut towards zero; the division of vectors fails when one of the element divisions has
  no quotient. On 64-bit elements multiplication and division throw.
\<close>

theorem vector_int_arith:
  assumes "vd_ok v" "vd_ok w" "vd_vlen v = vd_vlen w" "vd_type v = kind_type k" "vd_type w = kind_type k" "k = K_I32 \<or> k = K_I64"
  shows "(k = K_I32 \<or> op \<in> {Plus, Minus} \<longrightarrow>
      (if \<exists>i<unat (vd_vlen v). \<exists>a b. get_num fp k i v = Inr a \<and> get_num fp k i w = Inr b \<and> word_op op a b = None
       then op = Divide \<and> vector_binary fp op v w = Inl Div_By_Zero
       else \<exists>r. vector_binary fp op v w = Inr r \<and> same_shape v r \<and> vd_type r = vd_type v \<and>
         (\<forall>i<unat (vd_vlen v). \<exists>a b n. get_num fp k i v = Inr a \<and> get_num fp k i w = Inr b \<and>
            get_num fp k i r = Inr n \<and> word_op op a b = Some n))) \<and>
    (k = K_I64 \<and> op \<in> {Times, Divide} \<and> 0 < unat (vd_vlen v) \<longrightarrow> vector_binary fp op v w = Inl (Runtime_Error ''invalid m_type''))"
    (is "(?S \<longrightarrow> ?words) \<and> (?T \<longrightarrow> ?throws)")
proof (intro conjI impI)
  assume ?T
  then obtain m where "unat (vd_vlen v) = Suc m" "vector_elem fp op v w v 0 = Inl (Runtime_Error ''invalid m_type'')"
    using assms(4,5) by (cases "unat (vd_vlen v)")
      (auto simp: vector_elem_def op_action_def mul_action_def div_action_def kind_type_def)
  then show ?throws
    using assms(3) by (simp add: vector_binary_def upt_conv_Cons del: upt_Suc)
next
  let ?n = "unat (vd_vlen v)" and ?f = "vector_elem fp op v w"
  let ?a = "\<lambda>i. projr (get_num fp k i v)" and ?b = "\<lambda>i. projr (get_num fp k i w)"
  let ?r = "\<lambda>i. the (word_op op (?a i) (?b i))"
  assume "?S"
  then have kop: "k = K_I32 \<or> k = K_I64 \<and> op \<in> {Plus, Minus}"
    using assms(6) by auto
  note ab = word_elems(1-4) [OF assms(1-5), where fp = fp] and step = word_elems(5) [OF assms(1-5) _ kop, where fp = fp]
    and upto = word_prefix [OF assms(1-5) kop, where fp = fp]
  show ?words
  proof (cases "\<exists>i<?n. word_op op (?a i) (?b i) = None")
    case True
    then obtain i where i: "i < ?n" "word_op op (?a i) (?b i) = None" "\<forall>m<i. word_op op (?a m) (?b m) \<noteq> None"
      using least_below [of ?n "\<lambda>i. word_op op (?a i) (?b i) = None"] by blast
    obtain r where r: "res_foldl ?f v [0..<i] = Inr r"
      using upto [OF less_imp_le [OF i(1)] i(3)] by blast
    have "[0..<?n] = [0..<i] @ i # [Suc i..<?n]"
      using i(1) by (metis append_Cons append_Nil le_add_diff_inverse less_imp_le_nat upt_add_eq_append upt_conv_Cons zero_le)
    then have "vector_binary fp op v w = Inl Div_By_Zero"
      using r step [OF i(1)] i(2) assms(3) by (simp add: vector_binary_def res_foldl_append)
    moreover have "op = Divide"
      using i(2) ab(2,4) [OF i(1)] kop by (cases op; cases "?a i"; cases "?b i") (auto simp: num_kind_of_def)
    ultimately show ?thesis
      using i(1,2) ab(1,3) [OF i(1)] by auto
  next
    case False
    then obtain r where r: "res_foldl ?f v [0..<?n] = Inr r" "same_shape v r" "vd_type r = vd_type v" "\<forall>i<?n. get_num fp k i r = Inr (?r i)"
      using upto [of ?n] assms(4) by (metis neq0_conv order_refl)
    have "\<nexists>i a b. i < ?n \<and> get_num fp k i v = Inr a \<and> get_num fp k i w = Inr b \<and> word_op op a b = None"
      using False by auto
    moreover have "\<exists>a b n. get_num fp k i v = Inr a \<and> get_num fp k i w = Inr b \<and> get_num fp k i r = Inr n \<and> word_op op a b = Some n"
      if "i < ?n" for i
      using ab(1,3) [OF that] r(4) that False by auto
    ultimately show ?thesis
      using r(1-3) assms(3) by (simp add: vector_binary_def)
  qed
qed

text \<open>A multiplication that wraps, a signed division, and a division by zero.\<close>

theorem vector_int_arith_witness:
  "(\<exists>r. vector_binary id_fp Times (SetType INT32 (new_vector_data\<lparr>vd_data := replicate 8 0x10001\<rparr>))
         (SetType INT32 (new_vector_data\<lparr>vd_data := replicate 8 0x10001\<rparr>)) = Inr r \<and>
       get_num id_fp K_I32 0 r = Inr (N_I32 0x20001)) \<and>
   vector_binary id_fp Divide (SetType INT32 (new_vector_data\<lparr>vd_data := replicate 8 0x10001\<rparr>)) (SetType INT32 new_vector_data) =
     Inl Div_By_Zero"
proof
  let ?v = "SetType INT32 (new_vector_data\<lparr>vd_data := replicate 8 0x10001\<rparr>)" and ?z = "SetType INT32 new_vector_data"
  have v: "vd_ok ?v" "vd_type ?v = kind_type K_I32" "unat (vd_vlen ?v) = 8" "vd_ok ?z" "vd_type ?z = kind_type K_I32" "vd_vlen ?v = vd_vlen ?z"
    by (simp_all add: vd_ok_def SetType_def new_vector_data_def PACKET_ENTRIES_def type_bits_def kind_type_def)
  have g: "get_num id_fp K_I32 i ?v = Inr (N_I32 0x10001)" "get_num id_fp K_I32 i ?z = Inr (N_I32 0)" if "i < 8" for i
    using that by (simp_all add: get_num_def vd_access SetType_def new_vector_data_def PACKET_ENTRIES_def)
  have none: "\<not> (\<exists>i<8. \<exists>a b. get_num id_fp K_I32 i ?v = Inr a \<and> get_num id_fp K_I32 i ?v = Inr b \<and> word_op Times a b = None)"
    using g(1) by auto
  note times = vector_int_arith [OF v(1,1) refl v(2,2) disjI1 [OF refl], where op = Times and fp = id_fp, unfolded v(3), THEN conjunct1,
      THEN mp, OF disjI1 [OF refl]]
  obtain r where "vector_binary id_fp Times ?v ?v = Inr r" "\<forall>i<8. \<exists>a b n. get_num id_fp K_I32 i ?v = Inr a \<and>
      get_num id_fp K_I32 i ?v = Inr b \<and> get_num id_fp K_I32 i r = Inr n \<and> word_op Times a b = Some n"
    using iffD1 [OF if_not_P [OF none] times] by blast
  then show "\<exists>r. vector_binary id_fp Times ?v ?v = Inr r \<and> get_num id_fp K_I32 0 r = Inr (N_I32 0x20001)"
    using g(1) [of 0] by fastforce
  have "\<exists>i<8. \<exists>a b. get_num id_fp K_I32 i ?v = Inr a \<and> get_num id_fp K_I32 i ?z = Inr b \<and> word_op Divide a b = None"
    using g [of 0] by (intro exI [of _ 0]) simp
  then show "vector_binary id_fp Divide ?v ?z = Inl Div_By_Zero"
    using vector_int_arith [OF v(1,4,6,2,5) disjI1 [OF refl], where op = Divide and fp = id_fp, unfolded v(3), THEN conjunct1,
      THEN mp, OF disjI1 [OF refl]] by (simp only: if_P simp_thms)
qed

definition packet :: "DataType \<Rightarrow> vector_data \<Rightarrow> bool" where
  "packet ty v \<longleftrightarrow> vd_type v = ty \<and> vd_vlen v = of_nat (256 div type_bits ty) \<and> \<not> vd_double_reg v \<and> length (vd_data v) = 8"

lemma split_half_cells: "ty \<in> {INT64, INT32, FLOAT32} \<Longrightarrow> length (vd_data (split_half ty)) = 8 \<and> \<not> vd_double_reg (split_half ty)"
  by (auto simp: split_half_def new_vector_data_sew_def round_up_def PACKET_ENTRIES_def)

lemma cells_moved_packet: "packet ty v \<Longrightarrow> ty \<in> {INT64, INT32, FLOAT32} \<Longrightarrow> cells_moved v = 8"
  by (auto simp: packet_def cells_moved_def type_bits_def)

lemma vector_data_eqI:
  "vd_type v = vd_type w \<Longrightarrow> vd_vlen v = vd_vlen w \<Longrightarrow> vd_double_reg v = vd_double_reg w \<Longrightarrow> vd_data v = vd_data w \<Longrightarrow>
    v = (w :: vector_data)"
  by simp

lemma packets_join:
  assumes "packet ty v" "packet ty w" "ty \<in> {INT64, INT32, FLOAT32}"
  shows "\<exists>c. Append w v = Inr c \<and> Split c = Inr (v, w) \<and> vd_type c = ty \<and> vd_double_reg c \<and>
    vd_vlen c = vd_vlen v + vd_vlen w \<and> length (vd_data c) = 16"
proof -
  let ?c = "v\<lparr>vd_data := vd_data v @ vd_data w, vd_vlen := vd_vlen v + vd_vlen w, vd_double_reg := True\<rparr>"
  have app: "Append w v = Inr ?c"
    using assms cells_moved_packet [OF assms(2,3)] by (simp add: Append_def packet_def)
  have moved: "cells_moved ?c = 16" "vd_vlen ?c div 2 = vd_vlen v" "vd_vlen w = vd_vlen v"
    using assms by (auto simp: packet_def cells_moved_def type_bits_def)
  have len: "length (vd_data v) = 8" "length (vd_data w) = 8" "vd_type v = ty" "vd_type w = ty" "\<not> vd_double_reg v" "\<not> vd_double_reg w"
    using assms by (simp_all add: packet_def)
  have "Split ?c = Inr (v, w)"
    using split_half_cells [OF assms(3)] moved len unfolding Split_def Let_def
    by (auto intro!: vector_data_eqI)
  then show ?thesis
    using app len by auto
qed

text \<open>
  Reading a register pair and writing it back is the identity for the full-width types: appending one packet to
  another and splitting the result gives both packets back. For the narrow types, whose packets have more elements than
  cells, \<^verbatim>\<open>Append\<close> reads behind the end of the second packet.
\<close>

theorem append_split_round_trip:
  assumes "packet ty v" "packet ty w"
  shows "(ty \<in> {INT64, INT32, FLOAT32} \<longrightarrow> (\<exists>c. Append w v = Inr c \<and> vd_double_reg c \<and> Split c = Inr (v, w))) \<and>
    (ty \<in> {INT16, FLOAT16, CHAR8, UINT8, BOOL} \<longrightarrow> Append w v = Inl Out_Of_Range)"
proof (intro conjI impI)
  assume "ty \<in> {INT64, INT32, FLOAT32}"
  then show "\<exists>c. Append w v = Inr c \<and> vd_double_reg c \<and> Split c = Inr (v, w)"
    using packets_join [OF assms] by blast
next
  assume "ty \<in> {INT16, FLOAT16, CHAR8, UINT8, BOOL}"
  then have "cells_moved w > length (vd_data w)"
    using assms(2) by (auto simp: packet_def cells_moved_def type_bits_def)
  then show "Append w v = Inl Out_Of_Range"
    by (simp add: Append_def)
qed

theorem append_split_round_trip_witness:
  "\<exists>c. Append (SetType INT32 new_vector_data) (SetType INT32 (new_vector_data\<lparr>vd_data := [1, 2, 3, 4, 5, 6, 7, 8]\<rparr>)) = Inr c \<and>
     Split c = Inr (SetType INT32 (new_vector_data\<lparr>vd_data := [1, 2, 3, 4, 5, 6, 7, 8]\<rparr>), SetType INT32 new_vector_data)"
proof -
  have p: "packet INT32 (SetType INT32 (new_vector_data\<lparr>vd_data := [1, 2, 3, 4, 5, 6, 7, 8]\<rparr>))"
    "packet INT32 (SetType INT32 new_vector_data)"
    by (simp_all add: packet_def SetType_def new_vector_data_def type_bits_def PACKET_ENTRIES_def)
  show ?thesis
    using append_split_round_trip [OF p] by auto
qed

text \<open>Setting a mask bit that is set already adds, so that the bit is cleared and the carry changes the bits above it.\<close>

lemma SetVmask_carries:
  assumes "i < 31" "vd_data v \<noteq> []" "vd_data v ! 0 = push_bit i 1"
  shows "\<exists>v'. SetVmask True i v = Inr v' \<and> GetVmaskData i v' = Inr False \<and> GetVmaskData (Suc i) v' = Inr True"
proof -
  have "push_bit i 1 + push_bit i 1 = (push_bit (Suc i) 1 :: u32)"
    by simp
  moreover have "drop_bit i (push_bit (Suc i) (1 :: u32)) = 2" "drop_bit (Suc i) (push_bit (Suc i) (1 :: u32)) = 1"
    using assms(1) by (auto intro!: bit_word_eqI simp: bit_simps)
  ultimately show ?thesis
    using assms by (simp add: SetVmask_def set_cell_def GetVmaskData_def cell_def)
qed

text \<open>The result of the logical operations is a vector of type \<^verbatim>\<open>BOOL\<close>, whatever the type of the operands.\<close>

lemma And_vector_is_BOOL:
  assumes "And_vector fp v w = Inr r" "0 < unat (vd_vlen v)"
  shows "vd_type r = BOOL"
proof -
  obtain n where n: "unat (vd_vlen v) = Suc n"
    using assms(2) by (cases "unat (vd_vlen v)") auto
  show ?thesis
    using assms(1) unfolding And_vector_def vector_zip_def n
    by (auto simp: res_foldl_append res_simps SetBool_def set_cell_def split: if_splits option.splits)
qed

end
