(* ===== verification/Memory_Map.thy ===== *)
theory Memory_Map
  imports Vector_Data "HOL-Library.AList"
begin

text \<open>
  \<^verbatim>\<open>src/memory_map.h\<close> and \<^verbatim>\<open>src/memory_map.cc\<close>: the memory of the functional simulation, one vector per packet
  address. \<^verbatim>\<open>HashMemoryMap\<close> keeps the vectors themselves (an association list; its order is not observable),
  \<^verbatim>\<open>PointerMemoryMap\<close> reads and writes arrays of the host, which are lists of the bit patterns of their elements, found
  through a \<^verbatim>\<open>std::map\<close> of regions, kept sorted by address. The constructor that reads a memory image from a file is not
  modelled. \<^verbatim>\<open>exit(1)\<close> is an error value.
\<close>

section \<open>Addresses\<close>

definition SCRATCHPAD_BASE :: u64 where "SCRATCHPAD_BASE = 0x1000000000000000"
definition SCRATCHPAD_MAX_SIZE :: u64 where "SCRATCHPAD_MAX_SIZE = 0x0100000000000000"

definition CheckScratchpad :: "u64 \<Rightarrow> bool" where
  "CheckScratchpad addr \<longleftrightarrow> SCRATCHPAD_BASE \<le> addr \<and> addr < SCRATCHPAD_BASE + SCRATCHPAD_MAX_SIZE"

definition FormatAddr :: "u64 \<Rightarrow> u64" where
  "FormatAddr addr = addr AND NOT 31"

section \<open>The hash map\<close>

record hash_memory_map =
  hm_use_synthetic :: bool
  hm_synthetic_base :: u64
  hm_synthetic_size :: u64
  hm_size :: u64
  hm_base :: u64
  hm_data :: "(u64 \<times> vector_data) list"

definition new_hash_memory_map :: "u64 \<Rightarrow> u64 \<Rightarrow> hash_memory_map" where
  "new_hash_memory_map base sz =
     \<lparr>hm_use_synthetic = False, hm_synthetic_base = 0, hm_synthetic_size = 0, hm_size = sz, hm_base = base, hm_data = []\<rparr>"

definition set_synthetic_memory :: "u64 \<Rightarrow> u64 \<Rightarrow> hash_memory_map \<Rightarrow> hash_memory_map" where
  "set_synthetic_memory base sz m = m\<lparr>hm_use_synthetic := True, hm_synthetic_base := base, hm_synthetic_size := sz\<rparr>"

definition in_map :: "u64 \<Rightarrow> hash_memory_map \<Rightarrow> bool" where
  "in_map addr m \<longleftrightarrow> hm_base m \<le> addr \<and> addr < hm_base m + hm_size m"

text \<open>The conversion of a number to a float is a parameter.\<close>

definition hm_load :: "(u32 \<Rightarrow> u32) \<Rightarrow> u64 \<Rightarrow> hash_memory_map \<Rightarrow> vector_data res" where
  "hm_load to_float addr m =
     res_bind (assert_that (in_map addr m) ''addr >= m_base && addr < m_base + m_size'') (\<lambda>_.
     if hm_use_synthetic m \<and> hm_synthetic_base m \<le> addr \<and> addr < hm_synthetic_base m + hm_synthetic_size m then
       SetFloat (to_float (ucast (addr AND 0xfffff))) 0 (new_vector_data_sew 32 1)
     else case map_of (hm_data m) addr of
            None \<Rightarrow> Inl (Runtime_Error ''HashMemoryMap::Load failed'')
          | Some v \<Rightarrow> if vd_double_reg v then Inl (Runtime_Error ''HashMemoryMap::Double reg Stored!'') else Inr v)"

definition hm_store :: "u64 \<Rightarrow> vector_data \<Rightarrow> hash_memory_map \<Rightarrow> hash_memory_map res" where
  "hm_store addr v m =
     res_bind (assert_that (in_map addr m) ''addr >= m_base && addr < m_base + m_size'') (\<lambda>_.
     if (case map_of (hm_data m) addr of Some old \<Rightarrow> vd_double_reg old | None \<Rightarrow> False)
     then Inl (Runtime_Error ''HashMemoryMap::Double reg Stored!'')
     else Inr (m\<lparr>hm_data := AList.update addr v (hm_data m)\<rparr>))"

definition hm_check_addr :: "u64 \<Rightarrow> hash_memory_map \<Rightarrow> bool" where
  "hm_check_addr addr m \<longleftrightarrow> map_of (hm_data m) addr \<noteq> None"

definition hm_reset :: "hash_memory_map \<Rightarrow> hash_memory_map" where
  "hm_reset m = m\<lparr>hm_data := []\<rparr>"

text \<open>
  The comparison of a map with another: a loop over the elements of an entry, then the loop over the entries. The
  closeness of two floats is a parameter. The flag of an entry says that the loop is left.
\<close>

definition res_all :: "(nat \<Rightarrow> bool res) \<Rightarrow> nat \<Rightarrow> bool res" where
  "res_all f n = res_foldl (\<lambda>b i. res_bind (f i) (\<lambda>c. Inr (b \<and> c))) True [0..<n]"

definition res_eq :: "'a res \<Rightarrow> 'a res \<Rightarrow> bool res" where
  "res_eq m m' = res_bind m (\<lambda>x. res_bind m' (\<lambda>y. Inr (x = y)))"

definition match_entry :: "fp_ops \<Rightarrow> (vnum \<Rightarrow> vnum \<Rightarrow> bool) \<Rightarrow> vector_data \<Rightarrow> vector_data \<Rightarrow> (bool \<times> bool) res" where
  "match_entry fp fp_close val other =
     (let typed = (\<lambda>ty f n. if vd_type other \<noteq> ty then Inr (False, True) else res_bind (res_all f n) (\<lambda>b. Inr (b, False)));
          close = (\<lambda>k i. res_bind (get_num fp k i other) (\<lambda>x. res_bind (get_num fp k i val) (\<lambda>y. Inr (fp_close x y))))
      in case vd_type val of
           FLOAT16 \<Rightarrow> typed FLOAT16 (close K_F16) (PACKET_ENTRIES * 2)
         | FLOAT32 \<Rightarrow> typed FLOAT32 (close K_F32) PACKET_ENTRIES
         | INT32 \<Rightarrow> typed INT32 (\<lambda>i. res_eq (GetIntData i other) (GetIntData i val)) PACKET_ENTRIES
         | INT64 \<Rightarrow> typed INT64 (\<lambda>i. res_bind (GetLongData i val) (\<lambda>y.
             if y = - 1 then Inr True else res_bind (GetLongData i other) (\<lambda>x. Inr (x = y)))) (PACKET_ENTRIES div 2)
         | VMASK \<Rightarrow> Inr (\<not> (vd_type other \<noteq> UINT8 \<or> vd_type other \<noteq> VMASK), vd_type other \<noteq> UINT8 \<or> vd_type other \<noteq> VMASK)
         | UINT8 \<Rightarrow> typed UINT8 (\<lambda>i. res_eq (GetU8Data i other) (GetU8Data i val)) (PACKET_ENTRIES * 4)
         | BOOL \<Rightarrow> typed BOOL (\<lambda>i. res_eq (GetBoolData i other) (GetBoolData i val)) (PACKET_ENTRIES * 4)
         | _ \<Rightarrow> Inr (True, False))"

fun match_entries ::
  "fp_ops \<Rightarrow> (vnum \<Rightarrow> vnum \<Rightarrow> bool) \<Rightarrow> (u64 \<times> vector_data) list \<Rightarrow> hash_memory_map \<Rightarrow> bool \<Rightarrow> bool res" where
  "match_entries fp fp_close [] other result = Inr result"
| "match_entries fp fp_close ((key, val) # es) other result =
     (case map_of (hm_data other) key of
        None \<Rightarrow> Inr False
      | Some other_val \<Rightarrow>
          res_bind (match_entry fp fp_close val other_val) (\<lambda>(b, stop).
            if stop then Inr False else match_entries fp fp_close es other (result \<and> b)))"

definition hm_match :: "fp_ops \<Rightarrow> (vnum \<Rightarrow> vnum \<Rightarrow> bool) \<Rightarrow> hash_memory_map \<Rightarrow> hash_memory_map \<Rightarrow> bool res" where
  "hm_match fp fp_close m other = match_entries fp fp_close (hm_data m) other True"

section \<open>The pointer map\<close>

type_synonym host_memory = "nat \<Rightarrow> u64 list option"

record memory_info =
  mi_size :: u64
  mi_type :: DataType
  mi_ptr :: nat

type_synonym pointer_memory_map = "(u64 \<times> memory_info) list"

fun region_insert :: "u64 \<Rightarrow> memory_info \<Rightarrow> pointer_memory_map \<Rightarrow> pointer_memory_map" where
  "region_insert k i [] = [(k, i)]"
| "region_insert k i ((k', i') # rs) =
     (if k < k' then (k, i) # (k', i') # rs else if k = k' then (k, i) # rs else (k', i') # region_insert k i rs)"

definition AllocateMemory :: "u64 \<Rightarrow> u64 \<Rightarrow> DataType \<Rightarrow> nat \<Rightarrow> pointer_memory_map \<Rightarrow> pointer_memory_map" where
  "AllocateMemory addr sz ty p m = region_insert addr \<lparr>mi_size = sz, mi_type = ty, mi_ptr = p\<rparr> m"

definition FreeMemory :: "u64 \<Rightarrow> pointer_memory_map \<Rightarrow> pointer_memory_map" where
  "FreeMemory addr m = AList.delete addr m"

definition in_region :: "u64 \<Rightarrow> u64 \<times> memory_info \<Rightarrow> bool" where
  "in_region addr r \<longleftrightarrow> fst r \<le> addr \<and> addr < fst r + mi_size (snd r)"

definition GetBaseAddr :: "u64 \<Rightarrow> pointer_memory_map \<Rightarrow> u64" where
  "GetBaseAddr addr m = (case find (in_region addr) m of Some (key, _) \<Rightarrow> key | None \<Rightarrow> - 1)"

definition pm_check_addr :: "u64 \<Rightarrow> pointer_memory_map \<Rightarrow> bool" where
  "pm_check_addr addr m \<longleftrightarrow> GetBaseAddr addr m \<noteq> - 1"

definition pm_reset :: "pointer_memory_map \<Rightarrow> pointer_memory_map" where
  "pm_reset m = []"

definition exit_1 :: error where "exit_1 = Runtime_Error ''exit(1)''"

text \<open>The size of an element of a host array, the number of elements of a packet, and the number of elements a store writes.\<close>

definition elem_size :: "DataType \<Rightarrow> nat option" where
  "elem_size ty =
     (case ty of FLOAT32 \<Rightarrow> Some 4 | FLOAT16 \<Rightarrow> Some 2 | INT64 \<Rightarrow> Some 8 | INT32 \<Rightarrow> Some 4 | INT16 \<Rightarrow> Some 2 | CHAR8 \<Rightarrow> Some 1
      | UINT8 \<Rightarrow> Some 1 | VMASK \<Rightarrow> Some 1 | _ \<Rightarrow> None)"

definition load_count :: "DataType \<Rightarrow> nat \<Rightarrow> nat" where
  "load_count ty sz = (if ty = VMASK then 8 else 32 div sz)"

definition store_count :: "vector_data \<Rightarrow> nat" where
  "store_count v = (if vd_type v = VMASK then 8 else unat (vd_vlen v))"

definition put_elem :: "fp_ops \<Rightarrow> DataType \<Rightarrow> u64 \<Rightarrow> nat \<Rightarrow> vector_data \<Rightarrow> vector_data res" where
  "put_elem fp ty e i v =
     (case type_kind ty of
        Some k \<Rightarrow> set_num fp (make_num k e) i v
      | None \<Rightarrow> if ty = CHAR8 then SetChar (ucast e) i v else SetVmask (e \<noteq> 0) i v)"

definition num_bits :: "vnum \<Rightarrow> u64" where
  "num_bits n =
     (case n of N_F32 x \<Rightarrow> ucast x | N_F16 x \<Rightarrow> ucast x | N_I64 x \<Rightarrow> x | N_I32 x \<Rightarrow> ucast x | N_I16 x \<Rightarrow> ucast x | N_U8 x \<Rightarrow> ucast x)"

definition take_elem :: "fp_ops \<Rightarrow> DataType \<Rightarrow> nat \<Rightarrow> vector_data \<Rightarrow> u64 res" where
  "take_elem fp ty i v =
     (case type_kind ty of
        Some k \<Rightarrow> res_bind (get_num fp k i v) (\<lambda>n. Inr (num_bits n))
      | None \<Rightarrow>
          if ty = CHAR8 then res_bind (GetCharData i v) (\<lambda>x. Inr (ucast x))
          else res_bind (GetVmaskData i v) (\<lambda>b. Inr (bool_int b)))"

definition pm_load :: "fp_ops \<Rightarrow> host_memory \<Rightarrow> u64 \<Rightarrow> pointer_memory_map \<Rightarrow> vector_data res" where
  "pm_load fp host addr m =
     (let base = GetBaseAddr addr m; offset = unat (addr - base)
      in case map_of m base of
           None \<Rightarrow> Inl Bad_Pointer
         | Some info \<Rightarrow>
             (case (elem_size (mi_type info), host (mi_ptr info)) of
                (None, _) \<Rightarrow> Inl exit_1
              | (Some sz, None) \<Rightarrow> Inl Bad_Pointer
              | (Some sz, Some arr) \<Rightarrow>
                  res_bind (res_foldl (\<lambda>v i.
                      if offset div sz + i < length arr then put_elem fp (mi_type info) (arr ! (offset div sz + i)) i v
                      else Inl Out_Of_Range)
                    (SetType (mi_type info) new_vector_data) [0..<load_count (mi_type info) sz])
                    (\<lambda>v. Inr (SetVlen (of_nat (load_count (mi_type info) sz)) v))))"

definition pm_store :: "fp_ops \<Rightarrow> u64 \<Rightarrow> vector_data \<Rightarrow> pointer_memory_map \<Rightarrow> host_memory \<Rightarrow> host_memory res" where
  "pm_store fp addr v m host =
     (if \<not> pm_check_addr addr m then Inl exit_1
      else
        let base = GetBaseAddr addr m; offset = unat (addr - base)
        in case map_of m base of
             None \<Rightarrow> Inl Bad_Pointer
           | Some info \<Rightarrow>
               res_bind (assert_that (mi_type info = vd_type v) ''info.type == data.GetType()'') (\<lambda>_.
               case (elem_size (mi_type info), host (mi_ptr info)) of
                 (None, _) \<Rightarrow> Inl exit_1
               | (Some sz, None) \<Rightarrow> Inl Bad_Pointer
               | (Some sz, Some arr) \<Rightarrow>
                   res_bind (res_foldl (\<lambda>arr i.
                       if offset div sz + i < length arr then
                         res_bind (take_elem fp (mi_type info) i v) (\<lambda>e. Inr (arr[offset div sz + i := e]))
                       else Inl Out_Of_Range) arr [0..<store_count v])
                     (\<lambda>arr. Inr (host(mi_ptr info \<mapsto> arr)))))"

text \<open>
  The comparison of two pointer maps: no case of its \<^verbatim>\<open>switch\<close> ends with \<^verbatim>\<open>break\<close>, so that the first element
  compared, of whatever type, runs into the default case.
\<close>

definition compared_size :: "DataType \<Rightarrow> nat option" where
  "compared_size ty =
     (case ty of FLOAT32 \<Rightarrow> Some 4 | INT32 \<Rightarrow> Some 4 | FLOAT16 \<Rightarrow> Some 2 | INT16 \<Rightarrow> Some 2 | INT64 \<Rightarrow> Some 8 | CHAR8 \<Rightarrow> Some 1
      | _ \<Rightarrow> None)"

fun pm_match :: "pointer_memory_map \<Rightarrow> pointer_memory_map \<Rightarrow> bool res" where
  "pm_match [] other = Inr True"
| "pm_match ((key, val) # rs) other =
     (case map_of other key of
        None \<Rightarrow>
          (if pm_check_addr key other \<and> mi_size val = 0 \<and> mi_type val = FLOAT16 then pm_match rs other else Inr False)
      | Some oi \<Rightarrow>
          if \<not> (pm_check_addr key other \<and> mi_size val = mi_size oi \<and> mi_type val = mi_type oi) then Inr False
          else case compared_size (mi_type val) of
                 None \<Rightarrow> Inl exit_1
               | Some sz \<Rightarrow> if 0 < unat (mi_size val) div sz then Inl exit_1 else pm_match rs other)"

section \<open>Lemmas\<close>

lemma make_num_bits: "make_num (num_kind_of n) (num_bits n) = n"
proof -
  have "(ucast (ucast x :: u64) :: u32) = x" "(ucast (ucast y :: u64) :: u16) = y" "(ucast (ucast z :: u64) :: u8) = z" for x y z
    by (intro bit_word_eqI; simp add: bit_ucast_iff)+
  then show ?thesis
    by (cases n) (simp_all add: make_num_def num_kind_of_def num_bits_def)
qed

lemma res_all_total:
  assumes "\<And>i. i < n \<Longrightarrow> \<exists>c. f i = Inr c"
  shows "res_all f n = Inr (\<forall>i<n. f i = Inr True)"
  using assms
proof (induction n)
  case (Suc n)
  then have IH: "res_all f n = Inr (\<forall>i<n. f i = Inr True)"
    by simp
  obtain c where c: "f n = Inr c"
    using Suc.prems by blast
  have "res_all f (Suc n) = res_bind (res_all f n) (\<lambda>b. res_bind (f n) (\<lambda>c. Inr (b \<and> c)))"
    using c by (simp add: res_all_def res_foldl_append)
  then show ?case
    using IH c by (auto simp: less_Suc_eq)
qed (simp add: res_all_def)

lemma res_eq_total: "m = Inr x \<Longrightarrow> m' = Inr y \<Longrightarrow> res_eq m m' = Inr (m = m')"
  by (simp add: res_eq_def)

text \<open>The copying loop of a store: the elements from the offset on are the ones of the vector.\<close>

lemma store_loop:
  assumes "\<And>i. i < n \<Longrightarrow> g i = Inr (e i)" "off + n \<le> length arr"
  shows "res_foldl (\<lambda>arr i. if off + i < length arr then res_bind (g i) (\<lambda>e. Inr (arr[off + i := e])) else Inl Out_Of_Range)
      arr [0..<n] = Inr (take off arr @ map e [0..<n] @ drop (off + n) arr)"
  using assms
proof (induction n)
  case (Suc n)
  have len: "length (take off arr @ map e [0..<n] @ drop (off + n) arr) = length arr"
    using Suc.prems(2) by simp
  have "(take off arr @ map e [0..<n] @ drop (off + n) arr)[off + n := e n] =
      take off arr @ map e [0..<Suc n] @ drop (off + Suc n) arr"
    using Suc.prems(2) Cons_nth_drop_Suc [of "off + n" arr, symmetric] by (simp add: list_update_append)
  then show ?case
    using Suc.IH [OF Suc.prems(1)] Suc.prems len by (simp add: res_foldl_append)
qed simp

lemma store_loop_bound:
  assumes "res_foldl (\<lambda>arr i. if off + i < length arr then res_bind (g i) (\<lambda>e. Inr (arr[off + i := e])) else Inl Out_Of_Range)
      arr [0..<n] = Inr arr'"
  shows "length arr' = length arr \<and> (0 < n \<longrightarrow> off + n \<le> length arr) \<and> (\<forall>i<n. \<exists>e. g i = Inr e)"
  using assms
proof (induction n arbitrary: arr')
  case (Suc n)
  obtain a where a: "res_foldl (\<lambda>arr i. if off + i < length arr then res_bind (g i) (\<lambda>e. Inr (arr[off + i := e])) else Inl Out_Of_Range)
      arr [0..<n] = Inr a" "off + n < length a" "\<exists>e. g n = Inr e \<and> arr' = a[off + n := e]"
    using Suc.prems by (auto simp: res_foldl_append res_simps split: if_splits)
  have IH: "length a = length arr" "\<forall>i<n. \<exists>e. g i = Inr e"
    using Suc.IH [OF a(1)] by blast+
  have "length arr' = length arr" "off + Suc n \<le> length arr"
    using a(2,3) IH(1) by auto
  moreover have "\<forall>i<Suc n. \<exists>e. g i = Inr e"
    using IH(2) a(3) less_Suc_eq by metis
  ultimately show ?case by blast
qed simp

lemma pm_store_cases:
  assumes "pm_store fp addr v m host = Inr host'" "elem_size (vd_type v) = Some sz"
  obtains info arr arr' where "map_of m (GetBaseAddr addr m) = Some info" "mi_type info = vd_type v" "host (mi_ptr info) = Some arr"
    "host' = host(mi_ptr info \<mapsto> arr')"
    "res_foldl (\<lambda>arr i. if unat (addr - GetBaseAddr addr m) div sz + i < length arr then
        res_bind (take_elem fp (mi_type info) i v) (\<lambda>e. Inr (arr[unat (addr - GetBaseAddr addr m) div sz + i := e]))
        else Inl Out_Of_Range) arr [0..<store_count v] = Inr arr'"
  using assms that by (auto simp: pm_store_def Let_def res_simps split: if_splits option.splits)

lemma elem_size_kind: "type_kind ty = Some k \<Longrightarrow> elem_size ty = Some (kind_bits k div 8) \<and> ty \<noteq> VMASK"
  by (cases k) (simp_all add: type_kind_iff kind_type_def elem_size_def kind_bits_def)

lemma fresh_vector_fits:
  assumes "i < 256 div kind_bits k"
  shows "kind_bits k * i + kind_bits k \<le> 32 * length (vd_data (SetType ty new_vector_data))"
    "index_ok k i (SetType ty new_vector_data)"
  using assms
  by (cases k; simp add: kind_bits_def SetType_def new_vector_data_def PACKET_ENTRIES_def index_ok_def div_less_iff_less_mult)+

section \<open>Properties\<close>

text \<open>
  A packet stored through a pointer map is loaded back: when a store of a packet of numbers succeeds, a load from the
  same address succeeds and returns the same type, length and elements, and no array of the host other than the one of
  the region has changed, nor any element of that array outside the packet.
\<close>

theorem pointer_store_load:
  assumes "half_exact fp" "type_kind (vd_type v) = Some k" "unat (vd_vlen v) = 256 div kind_bits k"
    and st: "pm_store fp addr v m host = Inr host'"
  shows "(\<exists>w. pm_load fp host' addr m = Inr w \<and> vd_type w = vd_type v \<and> vd_vlen w = vd_vlen v \<and>
      (\<forall>i<unat (vd_vlen v). get_num fp k i w = get_num fp k i v)) \<and>
    (\<exists>p off. (\<forall>q. q \<noteq> p \<longrightarrow> host' q = host q) \<and> (\<exists>arr arr'. host p = Some arr \<and> host' p = Some arr' \<and>
      length arr' = length arr \<and> (\<forall>j. \<not> (off \<le> j \<and> j < off + unat (vd_vlen v)) \<longrightarrow> j < length arr \<longrightarrow> arr' ! j = arr ! j)))"
proof -
  let ?n = "256 div kind_bits k" and ?sz = "kind_bits k div 8"
  have es: "elem_size (vd_type v) = Some ?sz" "vd_type v \<noteq> VMASK"
    using elem_size_kind [OF assms(2)] by simp_all
  have pos: "0 < ?n" "32 div ?sz = ?n"
    by (cases k; simp add: kind_bits_def)+
  obtain info arr arr' where i: "map_of m (GetBaseAddr addr m) = Some info" "mi_type info = vd_type v" "host (mi_ptr info) = Some arr"
    and h': "host' = host(mi_ptr info \<mapsto> arr')"
    and l: "res_foldl (\<lambda>arr i. if unat (addr - GetBaseAddr addr m) div ?sz + i < length arr then
        res_bind (take_elem fp (mi_type info) i v) (\<lambda>e. Inr (arr[unat (addr - GetBaseAddr addr m) div ?sz + i := e]))
        else Inl Out_Of_Range) arr [0..<store_count v] = Inr arr'"
    by (rule pm_store_cases [OF st es(1)])
  have cnt: "store_count v = ?n"
    using es(2) assms(3) by (simp add: store_count_def)
  define off where "off = unat (addr - GetBaseAddr addr m) div ?sz"
  note loop = l [unfolded cnt i(2), folded off_def]
  have b: "off + ?n \<le> length arr" "\<forall>i<?n. \<exists>e. take_elem fp (vd_type v) i v = Inr e"
    using store_loop_bound [OF loop] pos by blast+
  have num: "\<exists>x. get_num fp k i v = Inr x \<and> take_elem fp (vd_type v) i v = Inr (num_bits x)" if "i < ?n" for i
    using b(2) that assms(2) by (auto simp: take_elem_def res_simps)
  let ?x = "\<lambda>i. projr (get_num fp k i v)"
  have x: "get_num fp k i v = Inr (?x i)" "take_elem fp (vd_type v) i v = Inr (num_bits (?x i))" if "i < ?n" for i
    using num [OF that] by auto
  have xk: "num_kind_of (?x i) = k" if "i < ?n" for i
    using x(1) [OF that] by (cases k) (auto simp: get_num_def num_kind_of_def res_simps)
  have arr': "arr' = take off arr @ map (\<lambda>i. num_bits (?x i)) [0..<?n] @ drop (off + ?n) arr"
    using store_loop [OF x(2) b(1)] loop by simp
  then have nth: "off + i < length arr'" "arr' ! (off + i) = num_bits (?x i)" if "i < ?n" for i
    using that b(1) by (simp_all add: nth_append)
  let ?f = "\<lambda>w i. if off + i < length arr' then put_elem fp (vd_type v) (arr' ! (off + i)) i w else Inl Out_Of_Range"
  have step: "?f w i = set_num fp (?x i) i w" if "i < ?n" for w i
    using nth [OF that] assms(2) make_num_bits [of "?x i"] xk [OF that] by (simp add: put_elem_def)
  obtain r where r: "res_foldl ?f (SetType (vd_type v) new_vector_data) [0..<?n] = Inr r" "vd_type r = kind_type k"
    "\<forall>i<?n. get_num fp k i r = Inr (?x i)"
    using elem_fold [OF fresh_vector_fits disjI1 [OF assms(1)] xk step] pos(1) by (metis (no_types, lifting))
  let ?w = "SetVlen (of_nat ?n) r"
  have "pm_load fp host' addr m = Inr ?w"
    using i h' es r(1) pos(2) by (simp add: pm_load_def Let_def load_count_def flip: off_def cong: if_cong)
  moreover have "vd_vlen ?w = vd_vlen v"
    by (simp add: SetVlen_def flip: assms(3))
  moreover have "get_num fp k i ?w = get_num fp k i r" for i
    by (cases k) (simp_all add: get_num_def vd_access SetVlen_def)
  moreover have "vd_type ?w = vd_type v"
    using r(2) assms(2) by (simp add: SetVlen_def type_kind_iff)
  moreover have "arr' ! j = arr ! j" if "\<not> (off \<le> j \<and> j < off + ?n)" "j < length arr" for j
    using that b(1) unfolding arr' by (auto simp: nth_append)
  moreover have "length arr' = length arr"
    using b(1) unfolding arr' by simp
  ultimately show ?thesis
    using r(3) x(1) i(3) h' assms(3) by (intro conjI exI [of _ ?w] exI [of _ "mi_ptr info"] exI [of _ off] exI [of _ arr] exI [of _ arr']) auto
qed

theorem pointer_store_load_witness:
  "\<exists>host'. pm_store id_fp 0x1020 (SetType INT32 (new_vector_data\<lparr>vd_data := [1, 2, 3, 4, 5, 6, 7, 8]\<rparr>))
       (AllocateMemory 0x1000 64 INT32 7 []) [7 \<mapsto> replicate 16 0] = Inr host' \<and>
     ok (pm_load id_fp host' 0x1020 (AllocateMemory 0x1000 64 INT32 7 []))"
proof -
  let ?v = "SetType INT32 (new_vector_data\<lparr>vd_data := [1, 2, 3, 4, 5, 6, 7, 8]\<rparr>)"
  let ?m = "AllocateMemory 0x1000 64 INT32 7 []"
  have v: "half_exact id_fp" "type_kind (vd_type ?v) = Some K_I32" "unat (vd_vlen ?v) = 256 div kind_bits K_I32"
    by (simp_all add: half_exact_def id_fp_def type_kind_def SetType_def new_vector_data_def PACKET_ENTRIES_def kind_bits_def)
  have "case pm_store id_fp 0x1020 ?v ?m [7 \<mapsto> replicate 16 0] of Inr _ \<Rightarrow> True | Inl _ \<Rightarrow> False"
    by code_simp
  then obtain host' where h: "pm_store id_fp 0x1020 ?v ?m [7 \<mapsto> replicate 16 0] = Inr host'"
    by (auto split: sum.splits)
  then show ?thesis
    using pointer_store_load [OF v h] by auto
qed

text \<open>
  The hash map is a memory: a load after a store returns what was stored, other addresses are not affected. A double
  register is accepted by the store, but then the address is lost: every later load from it and store to it throws.
\<close>

theorem hash_store_load:
  assumes "hm_store a v m = Inr m'" "\<not> hm_use_synthetic m"
  shows "(\<not> vd_double_reg v \<longrightarrow> hm_load to_float a m' = Inr v) \<and>
    (\<forall>b. b \<noteq> a \<longrightarrow> hm_load to_float b m' = hm_load to_float b m \<and> hm_check_addr b m' = hm_check_addr b m) \<and>
    (vd_double_reg v \<longrightarrow> hm_load to_float a m' = Inl (Runtime_Error ''HashMemoryMap::Double reg Stored!'') \<and>
      (\<forall>w. hm_store a w m' = Inl (Runtime_Error ''HashMemoryMap::Double reg Stored!'')))"
proof -
  have m': "m' = m\<lparr>hm_data := AList.update a v (hm_data m)\<rparr>" and a: "in_map a m"
    using assms(1) by (auto simp: hm_store_def res_simps split: if_splits)
  have in_map': "in_map b m' = in_map b m" for b
    by (simp add: m' in_map_def)
  have d: "map_of (hm_data m') b = (if b = a then Some v else map_of (hm_data m) b)" for b
    by (simp add: m' AList.update_conv')
  have s: "\<not> hm_use_synthetic m'"
    using assms(2) by (simp add: m')
  show ?thesis
    using a s assms(2) by (simp add: hm_load_def hm_store_def hm_check_addr_def in_map' d)
qed

theorem hash_store_load_witness:
  "\<exists>m'. hm_store 0x40 new_vector_data (new_hash_memory_map 0 0x1000) = Inr m' \<and>
     hm_load (\<lambda>x. x) 0x40 m' = Inr new_vector_data"
proof -
  have "case hm_store 0x40 new_vector_data (new_hash_memory_map 0 0x1000) of Inr _ \<Rightarrow> True | Inl _ \<Rightarrow> False"
    by code_simp
  then obtain m' where m': "hm_store 0x40 new_vector_data (new_hash_memory_map 0 0x1000) = Inr m'"
    by (auto split: sum.splits)
  have "\<not> hm_use_synthetic (new_hash_memory_map 0 0x1000)" "\<not> vd_double_reg new_vector_data"
    by (simp_all add: new_hash_memory_map_def new_vector_data_def)
  then show ?thesis
    using hash_store_load [OF m', of "\<lambda>x. x"] m' by blast
qed

text \<open>
  What \<^verbatim>\<open>Match\<close> requires of an entry of eight cells: nothing for 16-bit integers and characters; otherwise the same type, and equal cells
  for 32-bit and byte elements, equal 64-bit elements wherever the first is not -1, equal truth values, close floats. No clause holds for a mask.
\<close>

definition packet_matches :: "fp_ops \<Rightarrow> (vnum \<Rightarrow> vnum \<Rightarrow> bool) \<Rightarrow> vector_data \<Rightarrow> vector_data \<Rightarrow> bool" where
  "packet_matches fp fp_close val w \<longleftrightarrow>
     vd_type val \<in> {INT16, CHAR8, MAX_DataType} \<or>
     vd_type w = vd_type val \<and>
       (vd_type val \<in> {INT32, UINT8} \<and> vd_data w = vd_data val \<or>
        vd_type val = INT64 \<and> (\<forall>i<4. GetLongData i val = Inr (- 1) \<or> GetLongData i w = GetLongData i val) \<or>
        vd_type val = BOOL \<and> (\<forall>i<32. GetBoolData i w = GetBoolData i val) \<or>
        vd_type val \<in> {FLOAT32, FLOAT16} \<and>
          (\<forall>i<256 div type_bits (vd_type val). \<exists>x y. elem_at fp w i x \<and> elem_at fp val i y \<and> fp_close x y))"

text \<open>Equal elements of the integer types are equal cells.\<close>

lemma bytes_eq:
  assumes "\<And>j. j < 4 \<Longrightarrow> (get_field j d :: u8) = get_field j d'"
  shows "d = d'"
proof (rule bit_word_eqI)
  fix n assume "n < LENGTH(32)"
  then have "n div 8 < 4" "8 * (n div 8) + n mod 8 = n" "n mod 8 < 8"
    by auto
  then show "bit d n \<longleftrightarrow> bit d' n"
    using bit_get_field [of "n div 8" d "n mod 8", where 'a = 8] bit_get_field [of "n div 8" d' "n mod 8", where 'a = 8] assms [of "n div 8"]
    by simp
qed

lemma ints_are_cells:
  assumes "length (vd_data v) = 8" "length (vd_data w) = 8"
  shows "(\<forall>i<8. GetIntData i w = GetIntData i v) \<longleftrightarrow> vd_data w = vd_data v"
  using assms by (auto simp: vd_access list_eq_iff_nth_eq)

lemma bytes_are_cells:
  assumes "length (vd_data v) = 8" "length (vd_data w) = 8"
  shows "(\<forall>i<32. GetU8Data i w = GetU8Data i v) \<longleftrightarrow> vd_data w = vd_data v"
proof
  assume eq: "\<forall>i<32. GetU8Data i w = GetU8Data i v"
  show "vd_data w = vd_data v"
  proof (rule nth_equalityI)
    fix i assume i: "i < length (vd_data w)"
    have "(get_field j (vd_data w ! i) :: u8) = get_field j (vd_data v ! i)" if "j < 4" for j
    proof -
      have "4 * i + j < 32" "(4 * i + j) div 4 = i" "(4 * i + j) mod 4 = j"
        using that i assms by auto
      then show ?thesis
        using eq i assms by (auto simp: vd_access dest!: spec [of _ "4 * i + j"])
    qed
    then show "vd_data w ! i = vd_data v ! i"
      by (rule bytes_eq)
  qed (use assms in simp)
qed (simp add: GetU8Data_def cell_def)

lemma close_elems:
  assumes "get_num fp k i w = Inr a" "get_num fp k i v = Inr b" "type_kind (vd_type w) = Some k" "type_kind (vd_type v) = Some k"
  shows "(\<exists>x. elem_at fp w i x \<and> (\<exists>y. elem_at fp v i y \<and> c x y)) \<longleftrightarrow> c a b"
  using assms by (simp add: elem_at_def)

lemma typed_case:
  assumes "\<And>i. i < n \<Longrightarrow> f i = Inr (g i)"
    and "packet_matches fp c val other \<longleftrightarrow> vd_type other = ty \<and> (\<forall>i<n. g i)"
    and "match_entry fp c val other =
      (if vd_type other \<noteq> ty then Inr (False, True) else res_bind (res_all f n) (\<lambda>b. Inr (b, False)))"
  shows "\<exists>stop. match_entry fp c val other = Inr (packet_matches fp c val other, stop) \<and>
    (stop \<longrightarrow> \<not> packet_matches fp c val other)"
  using res_all_total [of n f] assms by auto

lemma getters_total:
  assumes "length (vd_data v) = 8"
  shows "i < 8 \<Longrightarrow> GetIntData i v = Inr (projr (GetIntData i v))"
    "i < 4 \<Longrightarrow> GetLongData i v = Inr (projr (GetLongData i v))"
    "i < 32 \<Longrightarrow> GetU8Data i v = Inr (projr (GetU8Data i v))"
    "i < 32 \<Longrightarrow> GetBoolData i v = Inr (projr (GetBoolData i v))"
    "i < 8 \<Longrightarrow> get_num fp K_F32 i v = Inr (projr (get_num fp K_F32 i v))"
    "i < 16 \<Longrightarrow> get_num fp K_F16 i v = Inr (projr (get_num fp K_F16 i v))"
  using assms by (simp_all add: vd_access GetBoolData_def get_num_def div_less_iff_less_mult)

lemma res_bind_projr: "m = Inr (projr m) \<Longrightarrow> res_bind m f = f (projr m)"
  by (metis res_bind_Inr)

lemma match_entry_eq:
  assumes v: "length (vd_data val) = 8" and w: "length (vd_data other) = 8"
  shows "\<exists>stop. match_entry fp c val other = Inr (packet_matches fp c val other, stop) \<and>
    (stop \<longrightarrow> \<not> packet_matches fp c val other)"
proof (cases "vd_type val")
  case FLOAT16
  show ?thesis
    by (rule typed_case [where ty = FLOAT16 and n = 16 and
          f = "\<lambda>i. res_bind (get_num fp K_F16 i other) (\<lambda>x. res_bind (get_num fp K_F16 i val) (\<lambda>y. Inr (c x y)))" and
          g = "\<lambda>i. c (projr (get_num fp K_F16 i other)) (projr (get_num fp K_F16 i val))"])
      (use getters_total(6) [OF v] getters_total(6) [OF w] FLOAT16 in
        \<open>auto simp: match_entry_def packet_matches_def PACKET_ENTRIES_def res_bind_projr type_kind_def type_bits_def
          close_elems [OF getters_total(6) [OF w] getters_total(6) [OF v]]\<close>)
next
  case FLOAT32
  show ?thesis
    by (rule typed_case [where ty = FLOAT32 and n = 8 and
          f = "\<lambda>i. res_bind (get_num fp K_F32 i other) (\<lambda>x. res_bind (get_num fp K_F32 i val) (\<lambda>y. Inr (c x y)))" and
          g = "\<lambda>i. c (projr (get_num fp K_F32 i other)) (projr (get_num fp K_F32 i val))"])
      (use getters_total(5) [OF v] getters_total(5) [OF w] FLOAT32 in
        \<open>auto simp: match_entry_def packet_matches_def PACKET_ENTRIES_def res_bind_projr type_kind_def type_bits_def
          close_elems [OF getters_total(5) [OF w] getters_total(5) [OF v]]\<close>)
next
  case INT32
  show ?thesis
    by (rule typed_case [where ty = INT32 and n = 8 and f = "\<lambda>i. res_eq (GetIntData i other) (GetIntData i val)" and
          g = "\<lambda>i. GetIntData i other = GetIntData i val"])
      (use res_eq_total [OF getters_total(1) [OF w] getters_total(1) [OF v]] INT32 ints_are_cells [OF v w] in
        \<open>simp_all add: match_entry_def packet_matches_def PACKET_ENTRIES_def\<close>)
next
  case INT64
  have "res_bind (GetLongData i val) (\<lambda>y. if y = - 1 then Inr True else res_bind (GetLongData i other) (\<lambda>x. Inr (x = y))) =
      Inr (GetLongData i val = Inr (- 1) \<or> GetLongData i other = GetLongData i val)" if i: "i < 4" for i
  proof -
    obtain x y where "GetLongData i val = Inr x" "GetLongData i other = Inr y"
      using getters_total(2) [OF v i] getters_total(2) [OF w i] by blast
    then show ?thesis by simp
  qed
  then show ?thesis
    by (intro typed_case [where ty = INT64 and n = 4 and
          f = "\<lambda>i. res_bind (GetLongData i val) (\<lambda>y. if y = - 1 then Inr True else res_bind (GetLongData i other) (\<lambda>x. Inr (x = y)))" and
          g = "\<lambda>i. GetLongData i val = Inr (- 1) \<or> GetLongData i other = GetLongData i val"])
      (use INT64 in \<open>simp_all add: match_entry_def packet_matches_def PACKET_ENTRIES_def\<close>)
next
  case UINT8
  show ?thesis
    by (rule typed_case [where ty = UINT8 and n = 32 and f = "\<lambda>i. res_eq (GetU8Data i other) (GetU8Data i val)" and
          g = "\<lambda>i. GetU8Data i other = GetU8Data i val"])
      (use res_eq_total [OF getters_total(3) [OF w] getters_total(3) [OF v]] UINT8 bytes_are_cells [OF v w] in
        \<open>simp_all add: match_entry_def packet_matches_def PACKET_ENTRIES_def\<close>)
next
  case BOOL
  show ?thesis
    by (rule typed_case [where ty = BOOL and n = 32 and f = "\<lambda>i. res_eq (GetBoolData i other) (GetBoolData i val)" and
          g = "\<lambda>i. GetBoolData i other = GetBoolData i val"])
      (use res_eq_total [OF getters_total(4) [OF w] getters_total(4) [OF v]] BOOL in
        \<open>simp_all add: match_entry_def packet_matches_def PACKET_ENTRIES_def\<close>)
qed (auto simp: match_entry_def packet_matches_def)

lemma match_entries_eq:
  assumes "\<forall>e\<in>set (hm_data other). length (vd_data (snd e)) = 8" "\<forall>e\<in>set es. length (vd_data (snd e)) = 8"
  shows "match_entries fp c es other r =
      Inr (r \<and> (\<forall>(key, val)\<in>set es. \<exists>w. map_of (hm_data other) key = Some w \<and> packet_matches fp c val w))"
  using assms(2)
proof (induction es arbitrary: r)
  case (Cons e es)
  obtain key val where e: "e = (key, val)"
    by (cases e)
  show ?case
  proof (cases "map_of (hm_data other) key")
    case (Some w)
    then have "length (vd_data w) = 8"
      using assms(1) map_of_SomeD by fastforce
    then obtain stop where "match_entry fp c val w = Inr (packet_matches fp c val w, stop)" "stop \<longrightarrow> \<not> packet_matches fp c val w"
      using match_entry_eq Cons.prems e by fastforce
    then show ?thesis
      using Some e Cons by auto
  qed (simp add: e)
qed simp

text \<open>
  C17. The comparison of two memory images whose entries are full packets of eight cells returns, and its result is true exactly if every entry of
  the first image has an entry of the second at its address which matches it. A packet of 32-bit integers or bytes is matched by one of the same
  type with the same cells, a packet of 64-bit integers by one with the same elements except where the first has -1, a packet of truth values by
  one with the same truth values, and a packet of floats by one with close elements, always of the same type. There are two deviations: an entry
  of 16-bit integers or characters is matched by anything at its address, and an entry of mask bits by nothing.
\<close>

theorem hash_match_spec:
  assumes "\<forall>e\<in>set (hm_data m). length (vd_data (snd e)) = 8" "\<forall>e\<in>set (hm_data other). length (vd_data (snd e)) = 8"
  shows "hm_match fp fp_close m other = Inr (\<forall>(key, val)\<in>set (hm_data m). \<exists>w. map_of (hm_data other) key = Some w \<and>
     (vd_type val \<in> {INT16, CHAR8, MAX_DataType} \<or>
      vd_type w = vd_type val \<and>
        (vd_type val \<in> {INT32, UINT8} \<and> vd_data w = vd_data val \<or>
         vd_type val = INT64 \<and> (\<forall>i<4. GetLongData i val = Inr (- 1) \<or> GetLongData i w = GetLongData i val) \<or>
         vd_type val = BOOL \<and> (\<forall>i<32. GetBoolData i w = GetBoolData i val) \<or>
         vd_type val \<in> {FLOAT32, FLOAT16} \<and>
           (\<forall>i<256 div type_bits (vd_type val). \<exists>x y. elem_at fp w i x \<and> elem_at fp val i y \<and> fp_close x y))))"
  using match_entries_eq [OF assms(2,1), of fp fp_close True] unfolding hm_match_def packet_matches_def by simp

text \<open>Two images of 32-bit integers, which match themselves and differ in one element from each other.\<close>

definition example_image :: "u32 \<Rightarrow> hash_memory_map" where
  "example_image x = (new_hash_memory_map 0 64)\<lparr>hm_data := [(0, SetType INT32 new_vector_data),
     (32, SetType INT32 (new_vector_data\<lparr>vd_data := [1, 2, 3, 4, 5, 6, 7, x]\<rparr>))]\<rparr>"

theorem hash_match_spec_witness:
  "hm_match id_fp (\<lambda>_ _. False) (example_image 8) (example_image 8) = Inr True \<and>
   hm_match id_fp (\<lambda>_ _. False) (example_image 8) (example_image 9) = Inr False"
proof
  have full: "\<forall>e\<in>set (hm_data (example_image x)). length (vd_data (snd e)) = 8" for x
    by (simp add: example_image_def SetType_def new_vector_data_def PACKET_ENTRIES_def)
  show "hm_match id_fp (\<lambda>_ _. False) (example_image 8) (example_image 8) = Inr True"
    unfolding hash_match_spec [OF full full] by (simp add: example_image_def SetType_def)
  show "hm_match id_fp (\<lambda>_ _. False) (example_image 8) (example_image 9) = Inr False"
    unfolding hash_match_spec [OF full full] by (simp add: example_image_def SetType_def)
qed

text \<open>The comparison of two equal pointer maps that have a region with an element ends the program.\<close>

lemma pm_match_exits:
  assumes "0 < unat sz div 8" "base \<noteq> - 1" "base < base + sz"
  shows "pm_match (AllocateMemory base sz INT64 p []) (AllocateMemory base sz INT64 p []) = Inl exit_1"
  using assms by (simp add: AllocateMemory_def compared_size_def pm_check_addr_def GetBaseAddr_def in_region_def)

end
