(* ===== verification/Ldst_Unit.thy ===== *)
theory Ldst_Unit
  imports Tlb Instruction_Queue Memory_Map
begin

text \<open>
  \<^verbatim>\<open>src/ldst_unit.h\<close> and \<^verbatim>\<open>src/ldst_unit.cc\<close>: the load-store unit of an NDP unit. An instruction with its packet
  addresses waits in one of the units; a load is split into one request per packet, all pointing to one
  \<^verbatim>\<open>ReadRequestInfo\<close> that counts the outstanding answers, a store into one request per packet. The requests wait for the
  hit latency of the first-level cache in a queue per bank, look up the data cache, and leave through the TLB to memory.
  The answer that brings the count to zero announces the destination register to its sub-core. Scratchpad
  instructions go through a latency queue instead.

  The unit's queues to and from the memory, the TLB, the statistics and the finished contexts are shared
  with the NDP unit; they are fields of the state, as are the requests, the read-request objects (found from a
  request by the map \<open>ls_info\<close>) and the back-invalidation sets of the configuration. The comparison of
  \<^verbatim>\<open>rand()\<close> with the back-invalidation rate is the parameter \<open>lc_draw\<close>, a sequence of truth values. A \<^verbatim>\<open>std::set\<close> of
  addresses is an ascending list. The first-level cache exists unless the configuration skips it.
\<close>

section \<open>State\<close>

text \<open>An instruction in a unit: the instruction, its \<^verbatim>\<open>addr_set\<close> and its context.\<close>

record exec_op =
  xo_inst :: ndp_instruction
  xo_addrs :: "u64 list"
  xo_context :: inst_context

record read_request_info =
  rr_key_mf :: ptr
  rr_count :: u32

record ldst_config =
  lc_addr :: addr_config
  lc_tlb :: tlb_config
  lc_l1d :: cache_config
  lc_skip_l1d :: bool
  lc_l1d_num_banks :: u32
  lc_l2d_num_banks :: u32
  lc_l1d_hit_latency :: int
  lc_packet_size :: u32
  lc_request_queue_size :: u32
  lc_num_ldst_units :: nat
  lc_num_spad_units :: nat
  lc_num_v_ldst_units :: nat
  lc_num_v_spad_units :: nat
  lc_spad_latency :: int
  lc_ldst_latency :: int
  lc_ldst_interval :: int
  lc_adaptive_l1d :: bool
  lc_spad_size :: int
  lc_scaled_sets :: "u32 \<Rightarrow> u32 \<Rightarrow> int \<Rightarrow> u32"
  lc_bi_enabled :: bool
  lc_draw :: "nat \<Rightarrow> bool"

type_synonym exec_queue = "exec_op delay_queue"

record ldst_unit =
  ls_ndp_id :: u32
  ls_cycle :: u64
  ls_l1d :: "cache option"
  ls_latency :: "ptr delay_queue list"
  ls_max_index :: "int list"
  ls_to_tlb :: "ptr fifo_pipeline"
  ls_tlb :: tlb
  ls_stats :: ndp_stats
  ls_to_mem :: "ptr fifo_pipeline list"
  ls_from_mem :: "ptr fifo_pipeline list"
  ls_to_reg :: "int fifo_pipeline list"
  ls_units :: "exec_queue list"
  ls_spad_units :: "exec_queue list"
  ls_v_units :: "exec_queue list"
  ls_v_spad_units :: "exec_queue list"
  ls_spad_delay :: exec_queue
  ls_pending :: "ptr \<Rightarrow> exec_op option"
  ls_pending_write_count :: u32
  ls_finished :: "inst_context list"
  ls_store :: mf_store
  ls_info :: "ptr \<Rightarrow> nat option"
  ls_infos :: "nat \<Rightarrow> read_request_info option"
  ls_next_info :: nat
  ls_bi :: bi_state
  ls_bi_mfs :: "u64 \<Rightarrow> ptr option"
  ls_draws :: nat

definition l1_hit_latency :: "ldst_config \<Rightarrow> int" where
  "l1_hit_latency lc = (if lc_skip_l1d lc then 0 else lc_l1d_hit_latency lc)"

definition MAX_VLMUL :: int where "MAX_VLMUL = 2"

definition max_l1_latency_queue_size :: "ldst_config \<Rightarrow> int" where
  "max_l1_latency_queue_size lc = l1_hit_latency lc + 32 * MAX_VLMUL"

definition new_units :: "string \<Rightarrow> nat \<Rightarrow> exec_queue list" where
  "new_units name n = map (\<lambda>i. new_delay_queue (name @ show_unsigned i) False (-1)) [0..<n]"

text \<open>
  The constructor: the TLB, the statistics, the queues and the requests belong to the NDP unit. Without a first-level
  cache the queue to the TLB is default-constructed and never used; it is the argument \<open>junk_tlb\<close>.
\<close>

definition new_ldst_unit ::
  "(nat \<Rightarrow> u64 \<times> u64) \<Rightarrow> ptr fifo_pipeline \<Rightarrow> ldst_config \<Rightarrow> u32 \<Rightarrow> tlb \<Rightarrow> ndp_stats \<Rightarrow> ptr fifo_pipeline list \<Rightarrow> ptr fifo_pipeline list
    \<Rightarrow> int fifo_pipeline list \<Rightarrow> mf_store \<Rightarrow> bi_state \<Rightarrow> (u64 \<Rightarrow> ptr option) \<Rightarrow> ldst_unit res" where
  "new_ldst_unit junk junk_tlb lc ndp_id tlb stats to_mem from_mem to_reg h bi bi_mfs =
     res_bind (if lc_skip_l1d lc then Inr junk_tlb else new_fifo_pipeline ''to_tlb'' 0 (lc_request_queue_size lc)) (\<lambda>to_tlb.
     Inr \<lparr>ls_ndp_id = ndp_id, ls_cycle = 0,
       ls_l1d = (if lc_skip_l1d lc then None else Some (new_cache junk ''l1d_cache'' (lc_l1d lc) ndp_id 0 True)),
       ls_latency = replicate (unat (lc_l1d_num_banks lc)) (new_delay_queue ''l1_latency_queue'' True (max_l1_latency_queue_size lc)),
       ls_max_index = replicate (unat (lc_l1d_num_banks lc)) 0, ls_to_tlb = to_tlb, ls_tlb = tlb, ls_stats = stats,
       ls_to_mem = to_mem, ls_from_mem = from_mem, ls_to_reg = to_reg,
       ls_units = new_units ''ldst_unit_'' (lc_num_ldst_units lc), ls_spad_units = new_units ''spad_unit_'' (lc_num_spad_units lc),
       ls_v_units = new_units ''v_ldst_unit_'' (lc_num_v_ldst_units lc),
       ls_v_spad_units = new_units ''v_spad_unit_'' (lc_num_v_spad_units lc),
       ls_spad_delay = new_delay_queue ''spad_delay_queue'' False (-1), ls_pending = (\<lambda>_. None), ls_pending_write_count = 0,
       ls_finished = [], ls_store = h, ls_info = (\<lambda>_. None), ls_infos = (\<lambda>_. None), ls_next_info = 0, ls_bi = bi, ls_bi_mfs = bi_mfs, ls_draws = 0\<rparr>)"

text \<open>
  Resizing the first-level cache to what the scratchpad leaves of it; the rounding of the floating-point ratio is the
  parameter \<open>lc_scaled_sets\<close>. The cache refers to the configuration, so the result is the new configuration.
\<close>

definition set_l1d_size :: "ldst_config \<Rightarrow> int \<Rightarrow> ldst_config res" where
  "set_l1d_size lc smem_size =
     (if lc_adaptive_l1d lc then
        res_bind (assert_that (word_of_int (lc_spad_size lc) = get_origin_size (lc_l1d lc)) ''get_spad_size() == get_origin_size()'') (\<lambda>_.
        res_bind (smem_option_size (lc_addr lc) smem_size) (\<lambda>opt.
        Inr (lc\<lparr>lc_l1d := (lc_l1d lc)\<lparr>m_nset :=
          lc_scaled_sets lc (m_origin_nset (lc_l1d lc)) (get_origin_size (lc_l1d lc)) opt\<rparr>\<rparr>)))
      else Inr lc)"

section \<open>Admission\<close>

definition check_units_full :: "exec_queue list \<Rightarrow> bool" where
  "check_units_full us \<longleftrightarrow> list_all dq_full us"

definition check_units_finished :: "exec_queue list \<Rightarrow> bool" where
  "check_units_finished us \<longleftrightarrow> list_all dq_queue_empty us"

definition ldst_full :: "ldst_unit \<Rightarrow> bool" where
  "ldst_full x \<longleftrightarrow> check_units_full (ls_units x) \<and> check_units_full (ls_spad_units x) \<and> check_units_full (ls_v_units x) \<and>
     check_units_full (ls_v_spad_units x)"

definition ldst_check_unit_finished :: "ldst_unit \<Rightarrow> bool" where
  "ldst_check_unit_finished x \<longleftrightarrow> check_units_finished (ls_units x) \<and> check_units_finished (ls_spad_units x) \<and>
     check_units_finished (ls_v_units x) \<and> check_units_finished (ls_v_spad_units x)"

definition ldst_active :: "ldst_unit \<Rightarrow> bool" where
  "ldst_active x \<longleftrightarrow> 0 < ls_pending_write_count x \<or> \<not> ldst_check_unit_finished x"

text \<open>The units an instruction goes to, as a pair of the field and its update.\<close>

definition get_ldst_unit :: "ndp_instruction \<Rightarrow> bool \<Rightarrow> (ldst_unit \<Rightarrow> exec_queue list) \<times> (exec_queue list \<Rightarrow> ldst_unit \<Rightarrow> ldst_unit)" where
  "get_ldst_unit inst spad =
     (if spad then
        if CheckVectorOp inst then (ls_v_spad_units, \<lambda>us x. x\<lparr>ls_v_spad_units := us\<rparr>)
        else (ls_spad_units, \<lambda>us x. x\<lparr>ls_spad_units := us\<rparr>)
      else
        if CheckVectorOp inst then (ls_v_units, \<lambda>us x. x\<lparr>ls_v_units := us\<rparr>)
        else (ls_units, \<lambda>us x. x\<lparr>ls_units := us\<rparr>))"

text \<open>A push into the first queue that is not full.\<close>

fun push_first_free :: "exec_op \<Rightarrow> int \<Rightarrow> int \<Rightarrow> exec_queue list \<Rightarrow> (bool \<times> exec_queue list) res" where
  "push_first_free op latency interval [] = Inr (False, [])"
| "push_first_free op latency interval (u # us) =
     (if \<not> dq_full u then res_bind (dq_push_interval op latency interval u) (\<lambda>u. Inr (True, u # us))
      else res_bind (push_first_free op latency interval us) (\<lambda>(b, us). Inr (b, u # us)))"

definition issue_ldst_unit :: "ldst_config \<Rightarrow> exec_op \<Rightarrow> bool \<Rightarrow> ldst_unit \<Rightarrow> (Status \<times> ldst_unit) res" where
  "issue_ldst_unit lc op spad_op x =
     (let (get, put) = get_ldst_unit (xo_inst op) spad_op
      in res_bind (push_first_free op (lc_ldst_latency lc) (lc_ldst_interval lc) (get x)) (\<lambda>(b, us).
         Inr (if b then ISSUE_SUCCESS else if spad_op then SPAD_DELAY_QUEUE_FULL else LDST_UNIT_FULL, put us x)))"

section \<open>Global memory instructions\<close>

definition l1_bank :: "ldst_config \<Rightarrow> u64 \<Rightarrow> nat res" where
  "l1_bank lc addr =
     (if lc_l1d_num_banks lc = 0 then Inl Div_By_Zero
      else Inr (unat (get_bank_index (lc_addr lc) addr mod ucast (lc_l1d_num_banks lc))))"

definition check_l1_hit_pipeline_full :: "ldst_config \<Rightarrow> u64 list \<Rightarrow> ldst_unit \<Rightarrow> bool res" where
  "check_l1_hit_pipeline_full lc addrs x =
     res_bind (res_foldl (\<lambda>counts addr. res_bind (l1_bank lc addr) (\<lambda>b. Inr (counts[b := counts ! b + 1])))
       (replicate (unat (lc_l1d_num_banks lc)) 0) addrs) (\<lambda>counts.
     Inr (list_ex (\<lambda>b. max_l1_latency_queue_size lc < ls_max_index x ! b + counts ! b) [0..<unat (lc_l1d_num_banks lc)]))"

definition push_latency :: "ldst_config \<Rightarrow> u64 \<Rightarrow> ptr \<Rightarrow> int \<Rightarrow> ldst_unit \<Rightarrow> ldst_unit res" where
  "push_latency lc addr p latency x =
     res_bind (l1_bank lc addr) (\<lambda>b.
     if b < length (ls_latency x) then
       res_bind (dq_push p latency (ls_latency x ! b)) (\<lambda>q. Inr (x\<lparr>ls_latency := (ls_latency x)[b := q]\<rparr>))
     else Inl Out_Of_Range)"

text \<open>A new request of this unit.\<close>

definition new_ldst_request :: "ldst_config \<Rightarrow> mem_access_type \<Rightarrow> mf_type \<Rightarrow> u64 \<Rightarrow> ldst_unit \<Rightarrow> (ptr \<times> ldst_unit) res" where
  "new_ldst_request lc acc ty addr x =
     (let (p, h) = new_mem_fetch addr acc ty (lc_packet_size lc) CXL_OVERHEAD (ls_cycle x) (ls_store x)
      in res_bind (get_channel_index (lc_addr lc) addr) (\<lambda>ch.
         res_bind (mf_update p (\<lambda>f. f\<lparr>mf_from_ndp := True, mf_ndp_id := ls_ndp_id x, mf_channel := ucast ch\<rparr>) h)
           (\<lambda>h. Inr (p, x\<lparr>ls_store := h\<rparr>))))"

definition update_request :: "ptr \<Rightarrow> (mem_fetch \<Rightarrow> mem_fetch) \<Rightarrow> ldst_unit \<Rightarrow> ldst_unit res" where
  "update_request p g x = res_bind (mf_update p g (ls_store x)) (\<lambda>h. Inr (x\<lparr>ls_store := h\<rparr>))"

text \<open>One draw; every packet of an instruction draws, whatever its address.\<close>

definition next_draw :: "ldst_config \<Rightarrow> ldst_unit \<Rightarrow> bool \<times> ldst_unit" where
  "next_draw lc x = (lc_draw lc (ls_draws x), x\<lparr>ls_draws := ls_draws x + 1\<rparr>)"

definition load_bi :: "ldst_config \<Rightarrow> u64 \<Rightarrow> ptr \<Rightarrow> ldst_unit \<Rightarrow> ldst_unit res" where
  "load_bi lc addr p x =
     (if \<not> lc_bi_enabled lc then Inr x
      else
        let (d, x) = next_draw lc x
        in res_bind (is_handled_bi_addr addr (ls_bi x)) (\<lambda>handled.
           res_bind (is_bi_inprogress addr (ls_bi x)) (\<lambda>inprogress.
           if d \<and> \<not> handled \<and> \<not> inprogress then
             res_bind (insert_handled_bi_addr addr (ls_bi x)) (\<lambda>b.
             res_bind (insert_inprogress_bi_addr addr b) (\<lambda>b.
             res_bind (bi_unit b addr) (\<lambda>u.
             update_request p (\<lambda>f. f\<lparr>mf_bi_request := True, mf_data_size := bi_addr_unit_size b, mf_current_state := ''BI_LOAD''\<rparr>)
               (x\<lparr>ls_bi := b, ls_bi_mfs := (ls_bi_mfs x)(u \<mapsto> p)\<rparr>))))
           else if \<not> handled \<and> \<not> inprogress then
             res_bind (insert_handled_bi_addr addr (ls_bi x)) (\<lambda>b.
             update_request p (\<lambda>f. f\<lparr>mf_current_state := ''NOT BI''\<rparr>) (x\<lparr>ls_bi := b\<rparr>))
           else if inprogress then
             res_bind (update_request p (\<lambda>f. f\<lparr>mf_current_state := ''BI_INPROGRESS''\<rparr>) x) (\<lambda>x.
             res_bind (bi_unit (ls_bi x) addr) (\<lambda>u.
             case ls_bi_mfs x u of
               None \<Rightarrow> Inl Bad_Pointer
             | Some q \<Rightarrow> res_bind (mf_get (ls_store x) q) (\<lambda>g.
                 res_bind (assert_that (mf_ndp_id g = ls_ndp_id x) ''get_ndp_id() == m_ndp_id'') (\<lambda>_. Inr x))))
           else Inr x)))"

text \<open>The first request of a load creates the read-request object, the others count up; \<open>info\<close> is its identifier.\<close>

definition attach_info :: "ptr \<Rightarrow> nat option \<Rightarrow> ldst_unit \<Rightarrow> (nat \<times> ldst_unit) res" where
  "attach_info p info x =
     (case info of
        None \<Rightarrow>
          let i = ls_next_info x
          in Inr (i, x\<lparr>ls_next_info := i + 1, ls_infos := (ls_infos x)(i \<mapsto> \<lparr>rr_key_mf = p, rr_count = 1\<rparr>), ls_info := (ls_info x)(p \<mapsto> i)\<rparr>)
      | Some i \<Rightarrow>
          (case ls_infos x i of
             None \<Rightarrow> Inl Bad_Pointer
           | Some r \<Rightarrow> Inr (i, x\<lparr>ls_infos := (ls_infos x)(i \<mapsto> r\<lparr>rr_count := rr_count r + 1\<rparr>), ls_info := (ls_info x)(p \<mapsto> i)\<rparr>)))"

definition load_piece :: "ldst_config \<Rightarrow> ndp_instruction \<Rightarrow> nat option \<times> ldst_unit \<Rightarrow> u64 \<Rightarrow> (nat option \<times> ldst_unit) res" where
  "load_piece lc inst s addr =
     (case s of (info, x) \<Rightarrow>
        res_bind (new_ldst_request lc GLOBAL_ACC_R READ_REQUEST addr x) (\<lambda>(p, x).
        res_bind (load_bi lc addr p x) (\<lambda>x.
        res_bind (attach_info p info x) (\<lambda>(i, x).
        res_bind
          (if CheckAmoOp inst then
             res_bind (update_request p (\<lambda>f. f\<lparr>mf_atomic := True\<rparr>) x) (push_latency lc addr p 0)
           else push_latency lc addr p (l1_hit_latency lc) x) (\<lambda>x.
        Inr (Some i, x))))))"

text \<open>The back-invalidation request of a store is created and then dropped: nothing refers to it any more.\<close>

definition store_bi :: "ldst_config \<Rightarrow> u64 \<Rightarrow> ldst_unit \<Rightarrow> ldst_unit res" where
  "store_bi lc addr x =
     (if \<not> lc_bi_enabled lc then Inr x
      else
        let (d, x) = next_draw lc x
        in res_bind (is_handled_bi_addr addr (ls_bi x)) (\<lambda>handled.
           res_bind (is_bi_inprogress addr (ls_bi x)) (\<lambda>inprogress.
           if d \<and> \<not> handled \<and> \<not> inprogress then
             let (p, h) = new_mem_fetch addr GLOBAL_ACC_W WRITE_REQUEST (lc_packet_size lc) CXL_OVERHEAD (ls_cycle x) (ls_store x)
             in res_bind (insert_handled_bi_addr addr (ls_bi x)) (\<lambda>b.
                update_request p (\<lambda>f. f\<lparr>mf_from_ndp := True, mf_ndp_id := ls_ndp_id x, mf_bi_request := True,
                    mf_data_size := CXL_OVERHEAD\<rparr>) (x\<lparr>ls_store := h, ls_bi := b\<rparr>))
           else Inr x)))"

definition store_piece :: "ldst_config \<Rightarrow> ldst_unit \<Rightarrow> u64 \<Rightarrow> ldst_unit res" where
  "store_piece lc x addr =
     res_bind (new_ldst_request lc GLOBAL_ACC_W WRITE_REQUEST addr x) (\<lambda>(p, x).
     res_bind (store_bi lc addr x) (\<lambda>x.
     res_bind (push_latency lc addr p (l1_hit_latency lc) x) (\<lambda>x.
     Inr (x\<lparr>ls_pending_write_count := ls_pending_write_count x + 1\<rparr>))))"

text \<open>A load without addresses dereferences the null read-request object.\<close>

definition load_inst :: "ldst_config \<Rightarrow> exec_op \<Rightarrow> ldst_unit \<Rightarrow> ldst_unit res" where
  "load_inst lc op x =
     res_bind (res_foldl (load_piece lc (xo_inst op)) (None, x) (xo_addrs op)) (\<lambda>(info, x).
     case info of
       None \<Rightarrow> Inl Bad_Pointer
     | Some i \<Rightarrow>
         (case ls_infos x i of
            None \<Rightarrow> Inl Bad_Pointer
          | Some r \<Rightarrow> Inr (x\<lparr>ls_pending := (ls_pending x)(rr_key_mf r \<mapsto> op)\<rparr>)))"

definition process_ldst_inst :: "ldst_config \<Rightarrow> exec_queue \<Rightarrow> ldst_unit \<Rightarrow> (exec_queue \<times> ldst_unit) res" where
  "process_ldst_inst lc u x =
     (if dq_empty u then Inr (u, x)
      else
        res_bind (dq_top u) (\<lambda>op.
        res_bind (check_l1_hit_pipeline_full lc (xo_addrs op) x) (\<lambda>full.
        if full then Inr (u, x)
        else
          res_bind (if CheckLoadOp (xo_inst op) then load_inst lc op x
                    else res_foldl (store_piece lc) x (xo_addrs op)) (\<lambda>x.
          res_bind (dq_pop u) (\<lambda>u.
          Inr (u, if fc_last_inst (xo_context op) \<and> \<not> CheckLoadOp (xo_inst op)
                  then x\<lparr>ls_finished := ls_finished x @ [xo_context op]\<rparr> else x))))))"

section \<open>Answers\<close>

definition push_dest :: "exec_op \<Rightarrow> ldst_unit \<Rightarrow> ldst_unit res" where
  "push_dest op x =
     (let s = nat (fc_sub_core_id (xo_context op))
      in if 0 \<le> fc_sub_core_id (xo_context op) \<and> s < length (ls_to_reg x) then
           res_bind (assert_that (\<not> fp_full (ls_to_reg x ! s)) ''!to_reg.full()'') (\<lambda>_.
           res_bind (fp_push (Some (dest (xo_inst op))) (ls_to_reg x ! s)) (\<lambda>q.
           Inr (x\<lparr>ls_to_reg := (ls_to_reg x)[s := q]\<rparr>)))
         else Inl Out_Of_Range)"

text \<open>The last answer of a load: the destination is announced, the load is no longer pending, its key request is deleted.\<close>

definition complete_load :: "ptr \<Rightarrow> ldst_unit \<Rightarrow> ldst_unit res" where
  "complete_load key x =
     (case ls_pending x key of
        None \<Rightarrow> Inl (Assert_Fail ''m_pending_ldst.find(mf) != m_pending_ldst.end()'')
      | Some op \<Rightarrow>
          res_bind (push_dest op x) (\<lambda>x.
          res_bind (mf_delete key (ls_store x)) (\<lambda>h.
          Inr (x\<lparr>ls_pending := (ls_pending x)(key := None), ls_store := h,
            ls_finished := (if fc_last_inst (xo_context op) then ls_finished x @ [xo_context op] else ls_finished x)\<rparr>))))"

definition handle_response :: "ptr \<Rightarrow> ldst_unit \<Rightarrow> ldst_unit res" where
  "handle_response p x =
     res_bind (mf_get (ls_store x) p) (\<lambda>f.
     res_bind (assert_that (\<not> is_request f) ''!mf->is_request()'') (\<lambda>_.
     let bi = is_bi_writeback f;
         f' = (if mf_kind f = READ_REPLY then f else snd bi)
     in res_bind (update_request p (\<lambda>_. f') x) (\<lambda>x.
        if mf_kind f = READ_REPLY \<or> mf_kind f = WRITE_ACK \<and> fst bi then
          (case ls_info x p of
             None \<Rightarrow> Inl Bad_Pointer
           | Some i \<Rightarrow>
               (case ls_infos x i of
                  None \<Rightarrow> Inl Bad_Pointer
                | Some r \<Rightarrow>
                    let n = rr_count r - 1
                    in res_bind (if p \<noteq> rr_key_mf r then mf_delete p (ls_store x) else Inr (ls_store x)) (\<lambda>h.
                       if n \<noteq> 0 then Inr (x\<lparr>ls_store := h, ls_infos := (ls_infos x)(i \<mapsto> r\<lparr>rr_count := n\<rparr>)\<rparr>)
                       else complete_load (rr_key_mf r) (x\<lparr>ls_store := h, ls_infos := (ls_infos x)(i := None)\<rparr>))))
        else
          res_bind (assert_that (mf_kind f = WRITE_ACK) ''mf->get_type() == WRITE_ACK'') (\<lambda>_.
          res_bind (mf_delete p (ls_store x)) (\<lambda>h.
          Inr (x\<lparr>ls_store := h, ls_pending_write_count := ls_pending_write_count x - 1\<rparr>))))))"

section \<open>Scratchpad instructions\<close>

definition spad_answer :: "ldst_unit \<Rightarrow> ldst_unit res" where
  "spad_answer x =
     (if dq_empty (ls_spad_delay x) then Inr x
      else
        res_bind (dq_top (ls_spad_delay x)) (\<lambda>op.
        res_bind (if CheckLoadOp (xo_inst op) then push_dest op x else Inr x) (\<lambda>x.
        res_bind (dq_pop (ls_spad_delay x)) (\<lambda>q. Inr (x\<lparr>ls_spad_delay := q\<rparr>)))))"

definition spad_status :: "exec_op \<Rightarrow> ldst_unit \<Rightarrow> ldst_unit res" where
  "spad_status op x =
     (let n = int (length (xo_addrs op)); count = (\<lambda>st. Inr (x\<lparr>ls_stats := add_memory_status st n (ls_stats x)\<rparr>))
      in if CheckAmoOp (xo_inst op) then count SCRATCHPAD_WRITE
         else if CheckLoadOp (xo_inst op) then count SCRATCHPAD_READ
         else if CheckStoreOp (xo_inst op) then count SCRATCHPAD_WRITE
         else Inl (Assert_Fail ''0''))"

definition process_spad_inst :: "ldst_config \<Rightarrow> exec_queue \<Rightarrow> ldst_unit \<Rightarrow> (exec_queue \<times> ldst_unit) res" where
  "process_spad_inst lc u x =
     res_bind (spad_answer x) (\<lambda>x.
     if dq_empty u then Inr (u, x)
     else
       res_bind (dq_top u) (\<lambda>op.
       case xo_addrs op of
         [] \<Rightarrow> Inl Out_Of_Range
       | first_addr # _ \<Rightarrow>
           res_bind (assert_that (CheckScratchpad first_addr) ''0'') (\<lambda>_.
           if dq_full (ls_spad_delay x) then Inr (u, x)
           else
             res_bind (dq_push_interval op (lc_spad_latency lc) 1 (ls_spad_delay x)) (\<lambda>q.
             res_bind (spad_status op (x\<lparr>ls_spad_delay := q\<rparr>)) (\<lambda>x.
             res_bind (dq_pop u) (\<lambda>u.
             Inr (u, if fc_last_inst (xo_context op) then x\<lparr>ls_finished := ls_finished x @ [xo_context op]\<rparr> else x)))))))"

section \<open>The first-level cache\<close>

definition l1_ctx :: "ldst_unit \<Rightarrow> cache_ctx res" where
  "l1_ctx x = (case ls_l1d x of None \<Rightarrow> Inl Bad_Pointer | Some c \<Rightarrow> Inr \<lparr>cx_cache = c, cx_store = ls_store x, cx_events = []\<rparr>)"

definition l1_put :: "ldst_unit \<Rightarrow> cache_ctx \<Rightarrow> ldst_unit" where
  "l1_put x c = x\<lparr>ls_l1d := Some (cx_cache c), ls_store := cx_store c\<rparr>"

definition handle_from_mem :: "ldst_config \<Rightarrow> u64 \<Rightarrow> nat \<Rightarrow> ldst_unit \<Rightarrow> ldst_unit res" where
  "handle_from_mem lc ndp_cycle bank x =
     (if bank < length (ls_from_mem x) then
        if fp_empty (ls_from_mem x ! bank) then Inr x
        else
          (case fp_top (ls_from_mem x ! bank) of
             None \<Rightarrow> Inl Bad_Pointer
           | Some mf \<Rightarrow>
               res_bind (mf_get (ls_store x) mf) (\<lambda>f.
               res_bind
                 (if \<not> lc_skip_l1d lc \<and> \<not> mf_atomic f then
                    res_bind (l1_ctx x) (\<lambda>c.
                    if waiting_for_fill mf (cx_cache c) then
                      res_bind (cache_fill (lc_l1d lc) mf (ucast ndp_cycle) c) (\<lambda>c. Inr (l1_put x c))
                    else if mf_kind f = WRITE_ACK then
                      if mf_access_type f = L1_CACHE_WB then
                        res_bind (mf_delete mf (ls_store x)) (\<lambda>h. Inr (x\<lparr>ls_store := h\<rparr>))
                      else
                        res_bind (assert_that (mf_access_type f = GLOBAL_ACC_W) ''get_access_type() == GLOBAL_ACC_W'')
                          (\<lambda>_. handle_response mf x)
                    else handle_response mf x)
                  else handle_response mf x) (\<lambda>x.
               res_bind (fp_pop (ls_from_mem x ! bank)) (\<lambda>(_, q). Inr (x\<lparr>ls_from_mem := (ls_from_mem x)[bank := q]\<rparr>)))))
      else Inl Out_Of_Range)"

definition l1_latency_queue_cycle :: "ldst_unit \<Rightarrow> ldst_unit" where
  "l1_latency_queue_cycle x = x\<lparr>ls_latency := map dq_tick (ls_latency x)\<rparr>"

definition pop_latency :: "nat \<Rightarrow> ldst_unit \<Rightarrow> ldst_unit res" where
  "pop_latency bank x = res_bind (dq_pop (ls_latency x ! bank)) (\<lambda>q. Inr (x\<lparr>ls_latency := (ls_latency x)[bank := q]\<rparr>))"

definition reply_request :: "ptr \<Rightarrow> ldst_unit \<Rightarrow> ldst_unit res" where
  "reply_request mf x =
     res_bind (mf_get (ls_store x) mf) (\<lambda>f. res_bind (set_reply f) (\<lambda>f. update_request mf (\<lambda>_. f) x))"

text \<open>Core to cache: the request at the front of a bank's latency queue.\<close>

definition l1_access :: "ldst_config \<Rightarrow> u64 \<Rightarrow> nat \<Rightarrow> ptr \<Rightarrow> mem_fetch \<Rightarrow> ldst_unit \<Rightarrow> ldst_unit res" where
  "l1_access lc ndp_cycle bank mf f x =
     res_bind (l1_bank lc (mf_addr f)) (\<lambda>bank_id.
     res_bind (assert_that (bank_id = bank) ''bank_id == bank'') (\<lambda>_.
     res_bind (assert_that (mf_timestamp f \<le> ndp_cycle) ''get_timestamp() <= get_ndp_cycle()'') (\<lambda>_.
     res_bind (assert_that (mf_access_type f = GLOBAL_ACC_R \<or> mf_access_type f = GLOBAL_ACC_W) ''access type'') (\<lambda>_.
     res_bind (l1_ctx x) (\<lambda>c.
     res_bind (data_cache_access (lc_l1d lc) (mf_addr f) (ucast (ls_cycle x)) mf c) (\<lambda>(status, c).
     let x = l1_put x c; write_sent = was_write_sent (cx_events c); read_sent = was_read_sent (cx_events c)
     in if status = HIT then
          res_bind (pop_latency bank x) (\<lambda>x.
          res_bind (update_request mf (\<lambda>f. f\<lparr>mf_current_state := ''L1 hit'' @ [CHR 0x0A]\<rparr>) x) (\<lambda>x.
          if write_sent then Inr x else res_bind (reply_request mf x) (handle_response mf)))
        else if status = RESERVATION_FAIL then
          res_bind (update_request mf (\<lambda>f. f\<lparr>mf_current_state := ''L1 reservation fail'' @ [CHR 0x0A]\<rparr>) x) (\<lambda>x.
          res_bind (assert_that (\<not> read_sent) ''!read_sent'') (\<lambda>_.
          res_bind (assert_that (\<not> write_sent) ''!write_sent'') (\<lambda>_. Inr x)))
        else
          res_bind (assert_that (status = MISS \<or> status = HIT_RESERVED) ''status == MISS || status == HIT_RESERVED'') (\<lambda>_.
          res_bind (update_request mf (\<lambda>f. f\<lparr>mf_current_state := ''L1 miss'' @ [CHR 0x0A]\<rparr>) x) (\<lambda>x.
          res_bind (pop_latency bank x) (\<lambda>x.
          if is_write f \<and> m_write_policy (lc_l1d lc) \<noteq> WRITE_THROUGH \<and>
             (m_write_alloc_policy (lc_l1d lc) = FETCH_ON_WRITE \<or> m_write_alloc_policy (lc_l1d lc) = LAZY_FETCH_ON_READ) \<and>
             was_write_allocate_sent (cx_events c)
          then res_bind (reply_request mf x) (handle_response mf) else Inr x)))))))))"

definition core_to_l1 :: "ldst_config \<Rightarrow> u64 \<Rightarrow> nat \<Rightarrow> ldst_unit \<Rightarrow> ldst_unit res" where
  "core_to_l1 lc ndp_cycle bank x =
     (if bank < length (ls_latency x) then
        if dq_empty (ls_latency x ! bank) then Inr x
        else
          res_bind (dq_top (ls_latency x ! bank)) (\<lambda>mf.
          res_bind (mf_get (ls_store x) mf) (\<lambda>f.
          if (mf_atomic f \<or> lc_skip_l1d lc) \<and> \<not> fp_full (ls_to_tlb x) then
            res_bind (update_request mf (\<lambda>f. f\<lparr>mf_current_state := ''to TLB queue''\<rparr>) x) (\<lambda>x.
            res_bind (fp_push (Some mf) (ls_to_tlb x)) (\<lambda>q. pop_latency bank (x\<lparr>ls_to_tlb := q\<rparr>)))
          else l1_access lc ndp_cycle bank mf f x))
      else Inl Out_Of_Range)"

definition l1_to_core :: "ldst_unit \<Rightarrow> ldst_unit res" where
  "l1_to_core x =
     res_bind (l1_ctx x) (\<lambda>c.
     if ms_access_ready (ca_mshrs (cx_cache c)) then
       res_bind (ms_top_next_access (ca_mshrs (cx_cache c))) (\<lambda>mf.
       res_bind (mf_get (ls_store x) mf) (\<lambda>f.
       res_bind (if is_request f then reply_request mf x else Inr x) (\<lambda>x.
       res_bind (handle_response mf x) (\<lambda>x.
       res_bind (cache_pop_next_access (cx_cache c)) (\<lambda>(_, cache). Inr (x\<lparr>ls_l1d := Some cache\<rparr>))))))
     else Inr x)"

definition l1_to_tlb :: "ldst_config \<Rightarrow> u64 \<Rightarrow> ldst_unit \<Rightarrow> ldst_unit res" where
  "l1_to_tlb lc ndp_cycle x =
     (if fp_empty (ls_to_tlb x) then Inr x
      else
        (case fp_top (ls_to_tlb x) of
           None \<Rightarrow> Inl (Assert_Fail ''mf'')
         | Some mf \<Rightarrow>
             res_bind (mf_get (ls_store x) mf) (\<lambda>f.
             res_bind (assert_that (mf_timestamp f \<le> ndp_cycle) ''get_timestamp() <= get_ndp_cycle()'') (\<lambda>_.
             if tlb_full (lc_tlb lc) (ls_tlb x) then Inr x
             else
               res_bind (tlb_access (lc_tlb lc) mf (ls_tlb x)) (\<lambda>t.
               res_bind (fp_pop (ls_to_tlb x)) (\<lambda>(_, q). Inr (x\<lparr>ls_tlb := t, ls_to_tlb := q\<rparr>)))))))"

definition process_l1d_access :: "ldst_config \<Rightarrow> u64 \<Rightarrow> ldst_unit \<Rightarrow> ldst_unit res" where
  "process_l1d_access lc ndp_cycle x =
     res_foldl (\<lambda>x bank.
       res_bind (core_to_l1 lc ndp_cycle bank x) (\<lambda>x. res_bind (l1_to_core x) (l1_to_tlb lc ndp_cycle)))
       x [0..<unat (lc_l1d_num_banks lc)]"

section \<open>The cycle\<close>

text \<open>A loop over the units of one kind.\<close>

fun each_unit :: "(exec_queue \<Rightarrow> ldst_unit \<Rightarrow> (exec_queue \<times> ldst_unit) res) \<Rightarrow> exec_queue list \<Rightarrow> ldst_unit
    \<Rightarrow> (exec_queue list \<times> ldst_unit) res" where
  "each_unit g [] x = Inr ([], x)"
| "each_unit g (u # us) x =
     res_bind (g (dq_tick u) x) (\<lambda>(u, x). res_bind (each_unit g us x) (\<lambda>(us, x). Inr (u # us, x)))"

text \<open>
  One translated request: the loop over the banks stops at the request's own, where it is handed to the memory or
  found blocked. The result tells whether the queue was full.
\<close>

definition tlb_round :: "ldst_config \<Rightarrow> u64 \<Rightarrow> ldst_unit \<Rightarrow> (bool \<times> ldst_unit) res" where
  "tlb_round lc ndp_cycle x =
     (case tlb_get_data (ls_tlb x) of
        None \<Rightarrow> Inl (Assert_Fail ''mf'')
      | Some mf \<Rightarrow>
          res_bind (mf_get (ls_store x) mf) (\<lambda>f.
          res_bind (assert_that (mf_timestamp f \<le> ndp_cycle) ''get_timestamp() <= get_ndp_cycle()'') (\<lambda>_.
          let bank = unat (get_bank_index (lc_addr lc) (mf_addr f) mod ucast (lc_l2d_num_banks lc))
          in if bank < length (ls_to_mem x) then
               if fp_full (ls_to_mem x ! bank) then Inr (True, x)
               else
                 res_bind (fp_push (Some mf) (ls_to_mem x ! bank)) (\<lambda>q.
                 res_bind (tlb_pop_data (ls_tlb x)) (\<lambda>t.
                 Inr (False, x\<lparr>ls_to_mem := (ls_to_mem x)[bank := q], ls_tlb := t,
                   ls_stats := add_memory_status TO_MEM_PUSH_MY_CHANNEL 1 (ls_stats x)\<rparr>)))
             else Inl Out_Of_Range)))"

text \<open>
  The loop hands out the translated requests until a queue is full. Every round that does not stop it takes a request
  from the TLB's finished queue, so as many rounds as that queue has elements are enough (\<open>tlb_rounds_enough\<close>).
  Without banks no round makes progress and the loop does not end.
\<close>

fun tlb_rounds :: "nat \<Rightarrow> ldst_config \<Rightarrow> u64 \<Rightarrow> ldst_unit \<Rightarrow> (bool \<times> ldst_unit) res" where
  "tlb_rounds 0 lc ndp_cycle x = Inr (False, x)"
| "tlb_rounds (Suc n) lc ndp_cycle x =
     (if tlb_data_ready (ls_tlb x) then
        res_bind (tlb_round lc ndp_cycle x) (\<lambda>(full, x). if full then Inr (True, x) else tlb_rounds n lc ndp_cycle x)
      else Inr (False, x))"

definition tlb_to_mem :: "ldst_config \<Rightarrow> u64 \<Rightarrow> ldst_unit \<Rightarrow> ldst_unit res" where
  "tlb_to_mem lc ndp_cycle x =
     (if tlb_data_ready (ls_tlb x) \<and> lc_l2d_num_banks lc = 0 then Inl (Runtime_Error ''endless loop'')
      else
        res_bind (tlb_rounds (length (fp_cells (tl_finished (ls_tlb x)))) lc ndp_cycle x) (\<lambda>(full, x).
        Inr (if full then x\<lparr>ls_stats := add_status_list [TO_MEM_FULL] (ls_stats x)\<rparr> else x)))"

definition l1_cycle :: "ldst_config \<Rightarrow> u64 \<Rightarrow> ldst_unit \<Rightarrow> ldst_unit res" where
  "l1_cycle lc ndp_cycle x =
     (if lc_skip_l1d lc then Inr x
      else
        res_bind (l1_ctx x) (\<lambda>c.
        res_bind (cache_cycle (cx_cache c) (ls_to_tlb x)) (\<lambda>(cache, q).
        process_l1d_access lc ndp_cycle (l1_latency_queue_cycle (x\<lparr>ls_l1d := Some cache, ls_to_tlb := q\<rparr>)))))"

definition ldst_cycle :: "ldst_config \<Rightarrow> u64 \<Rightarrow> ldst_unit \<Rightarrow> ldst_unit res" where
  "ldst_cycle lc ndp_cycle x =
     res_bind (each_unit (process_ldst_inst lc) (ls_units x) (x\<lparr>ls_cycle := ls_cycle x + 1\<rparr>)) (\<lambda>(us, x).
     let x = x\<lparr>ls_units := us\<rparr>
     in res_bind (each_unit (process_spad_inst lc) (ls_spad_units x) x) (\<lambda>(us, x).
     let x = x\<lparr>ls_spad_units := us\<rparr>
     in res_bind (each_unit (process_ldst_inst lc) (ls_v_units x) x) (\<lambda>(us, x).
     let x = x\<lparr>ls_v_units := us\<rparr>
     in res_bind (each_unit (process_spad_inst lc) (ls_v_spad_units x) x) (\<lambda>(us, x).
     let x = x\<lparr>ls_v_spad_units := us, ls_spad_delay := dq_tick (ls_spad_delay x)\<rparr>
     in res_bind (tlb_to_mem lc ndp_cycle x) (l1_cycle lc ndp_cycle)))))"

definition get_l1d_stats :: "ldst_unit \<Rightarrow> cache_stats" where
  "get_l1d_stats x = (case ls_l1d x of None \<Rightarrow> new_cache_stats | Some c \<Rightarrow> ca_stats c)"

section \<open>Accounting of the loads\<close>

text \<open>The part of the state the accounting depends on.\<close>

definition kinds :: "mf_store \<Rightarrow> ptr \<Rightarrow> mf_type option" where
  "kinds h p = map_option mf_kind (mf_heap h p)"

definition same_loads :: "ldst_unit \<Rightarrow> ldst_unit \<Rightarrow> bool" where
  "same_loads x x' \<longleftrightarrow> ls_info x' = ls_info x \<and> ls_infos x' = ls_infos x \<and> ls_next_info x' = ls_next_info x \<and>
     ls_pending x' = ls_pending x \<and> ls_to_reg x' = ls_to_reg x \<and> kinds (ls_store x') = kinds (ls_store x) \<and>
     mf_next (ls_store x') = mf_next (ls_store x)"

text \<open>The requests of load \<open>i\<close> among those not yet answered.\<close>

definition waiting :: "ptr set \<Rightarrow> ldst_unit \<Rightarrow> nat \<Rightarrow> ptr set" where
  "waiting todo x i = {p \<in> todo. ls_info x p = Some i}"

definition info_ok :: "ptr set \<Rightarrow> ldst_unit \<Rightarrow> nat \<Rightarrow> read_request_info \<Rightarrow> bool" where
  "info_ok todo x i r \<longleftrightarrow> ls_info x (rr_key_mf r) = Some i \<and> kinds (ls_store x) (rr_key_mf r) \<noteq> None \<and>
     waiting todo x i \<noteq> {} \<and> card (waiting todo x i) < 2 ^ 32 \<and> rr_count r = of_nat (card (waiting todo x i))"

text \<open>
  The invariant, for the requests \<open>todo\<close> whose answer is outstanding: each belongs to a live read-request object, and each
  such object counts its outstanding requests, has a live key request and (for the loads \<open>A\<close>) a pending instruction.
\<close>

definition loads_inv :: "ptr set \<Rightarrow> nat set \<Rightarrow> ldst_unit \<Rightarrow> bool" where
  "loads_inv todo A x \<longleftrightarrow> finite todo \<and>
     (\<forall>p\<in>todo. kinds (ls_store x) p = Some READ_REQUEST \<and> (\<exists>i. ls_info x p = Some i \<and> ls_infos x i \<noteq> None)) \<and>
     (\<forall>i r. ls_infos x i = Some r \<longrightarrow> i < ls_next_info x \<and> info_ok todo x i r \<and> (i \<in> A \<longrightarrow> ls_pending x (rr_key_mf r) \<noteq> None)) \<and>
     (\<forall>p. mf_next (ls_store x) \<le> p \<longrightarrow> kinds (ls_store x) p = None \<and> ls_info x p = None)"

lemma same_loads_refl [simp]: "same_loads x x"
  by (simp add: same_loads_def)

lemma same_loads_trans: "same_loads x y \<Longrightarrow> same_loads y z \<Longrightarrow> same_loads x z"
  by (simp add: same_loads_def)

lemma loads_inv_cong: "same_loads x x' \<Longrightarrow> loads_inv todo A x' \<longleftrightarrow> loads_inv todo A x"
  by (simp add: same_loads_def loads_inv_def info_ok_def waiting_def)

lemma waiting_cong: "same_loads x x' \<Longrightarrow> waiting todo x' i = waiting todo x i"
  by (simp add: same_loads_def waiting_def)

lemma update_request_same:
  assumes "update_request p g x = Inr x'" "\<And>f. mf_kind (g f) = mf_kind f"
  shows "same_loads x x'"
  using assms by (auto simp: update_request_def res_simps same_loads_def kinds_def fun_eq_iff)

lemma push_latency_same: "push_latency lc addr p n x = Inr x' \<Longrightarrow> same_loads x x'"
  by (auto simp: push_latency_def res_simps same_loads_def split: if_splits)

lemma same_loads_fields:
  "same_loads x y \<Longrightarrow> same_loads x (y\<lparr>ls_bi := b\<rparr>)" "same_loads x y \<Longrightarrow> same_loads x (y\<lparr>ls_draws := n\<rparr>)"
  "same_loads (x\<lparr>ls_bi_mfs := m\<rparr>) y = same_loads x y"
  "same_loads (x\<lparr>ls_bi := b\<rparr>) y = same_loads x y" "same_loads (x\<lparr>ls_draws := n\<rparr>) y = same_loads x y"
  by (simp_all add: same_loads_def)

lemma load_bi_same: "load_bi lc addr p x = Inr x' \<Longrightarrow> same_loads x x'"
  by (auto simp: load_bi_def next_draw_def Let_def res_simps same_loads_fields split: if_splits option.splits
      dest!: update_request_same)

lemma new_ldst_request_facts:
  assumes "new_ldst_request lc acc ty addr x = Inr (p, x')"
  shows "p = mf_next (ls_store x)" "mf_next (ls_store x') = Suc p"
    "kinds (ls_store x') = (kinds (ls_store x))(p \<mapsto> ty)"
    "ls_info x' = ls_info x" "ls_infos x' = ls_infos x" "ls_next_info x' = ls_next_info x" "ls_pending x' = ls_pending x"
    "ls_to_reg x' = ls_to_reg x"
  using assms
  by (auto simp: new_ldst_request_def new_mem_fetch_def new_mem_fetch_masked_def store_new_def res_simps kinds_def fun_eq_iff)

text \<open>A new request joins the load \<open>info\<close>, or begins a load.\<close>

lemma load_piece_inv:
  assumes "load_piece lc inst (info, x) addr = Inr (info', x')" "loads_inv todo A x"
    and "\<forall>i. info = Some i \<longrightarrow> ls_infos x i \<noteq> None \<and> card (waiting todo x i) < 2 ^ 32 - 1"
    and "p = mf_next (ls_store x)"
  shows "\<exists>i. info' = Some i \<and> loads_inv (insert p todo) (A - {i}) x' \<and> ls_infos x' i \<noteq> None \<and>
    card (waiting (insert p todo) x' i) = (case info of None \<Rightarrow> 1 | Some j \<Rightarrow> Suc (card (waiting todo x j))) \<and>
    (case info of None \<Rightarrow> i = ls_next_info x | Some j \<Rightarrow> i = j) \<and>
    ls_pending x' = ls_pending x \<and> ls_to_reg x' = ls_to_reg x \<and> mf_next (ls_store x') = Suc p"
proof -
  obtain q x1 x2 i x3 where "new_ldst_request lc GLOBAL_ACC_R READ_REQUEST addr x = Inr (q, x1)"
    and "load_bi lc addr q x1 = Inr x2" and "attach_info q info x2 = Inr (i, x3)" and i: "info' = Some i"
    and tl: "(if CheckAmoOp inst then res_bind (update_request q (\<lambda>f. f\<lparr>mf_atomic := True\<rparr>) x3) (push_latency lc addr q 0)
           else push_latency lc addr q (l1_hit_latency lc) x3) = Inr x'"
    using assms(1) unfolding load_piece_def by (auto simp: res_simps)
  moreover have "q = p"
    using calculation(1) new_ldst_request_facts(1) assms(4) by blast
  ultimately have x1: "new_ldst_request lc GLOBAL_ACC_R READ_REQUEST addr x = Inr (p, x1)"
    and x2: "load_bi lc addr p x1 = Inr x2" and x3: "attach_info p info x2 = Inr (i, x3)"
    by simp_all
  have x': "same_loads x3 x'"
    using tl by (auto simp: res_simps split: if_splits dest: push_latency_same intro: same_loads_trans [OF update_request_same])
  note f = new_ldst_request_facts [OF x1]
  have s: "same_loads x1 x2"
    by (rule load_bi_same [OF x2])
  have fresh: "p \<notin> todo" "ls_info x p = None" "ls_infos x (ls_next_info x) = None"
  proof -
    show "ls_info x p = None"
      using assms(2,4) by (simp add: loads_inv_def)
    then show "p \<notin> todo"
      using assms(2) by (auto simp: loads_inv_def)
    show "ls_infos x (ls_next_info x) = None"
      using assms(2) unfolding loads_inv_def by (metis less_irrefl not_None_eq)
  qed
  have st: "kinds (ls_store x') = (kinds (ls_store x))(p \<mapsto> READ_REQUEST)" "mf_next (ls_store x') = Suc p"
    "ls_pending x' = ls_pending x" "ls_to_reg x' = ls_to_reg x" "ls_info x' = (ls_info x)(p \<mapsto> i)"
    using f s x' x3 by (auto simp: same_loads_def attach_info_def Let_def split: option.splits)
  have w: "waiting (insert p todo) x' j = (if j = i then insert p (waiting todo x i) else waiting todo x j)" for j
    using fresh(1,2) st(5) by (auto simp: waiting_def)
  have fin: "finite (waiting todo x j)" "p \<notin> waiting todo x j" for j
    using assms(2) fresh(1) by (auto simp: loads_inv_def waiting_def)
  have kfresh: "kinds (ls_store x) p = None"
    using assms(2,4) by (auto simp: loads_inv_def)
  obtain r where r: "ls_infos x' = (ls_infos x)(i \<mapsto> r)" "info_ok (insert p todo) x' i r" "i < ls_next_info x'"
    "ls_next_info x \<le> ls_next_info x'"
    and c: "card (waiting (insert p todo) x' i) = (case info of None \<Rightarrow> 1 | Some j \<Rightarrow> Suc (card (waiting todo x j)))"
    and ic: "case info of None \<Rightarrow> i = ls_next_info x | Some j \<Rightarrow> i = j"
  proof (cases info)
    case None
    have "waiting todo x i = {}"
      using None x3 s f fresh(3) assms(2) by (auto simp: attach_info_def Let_def waiting_def loads_inv_def same_loads_def)
    moreover have "ls_infos x' = (ls_infos x)(i \<mapsto> \<lparr>rr_key_mf = p, rr_count = 1\<rparr>)" "ls_next_info x' = Suc i" "i = ls_next_info x"
      using None x3 s f x' by (auto simp: attach_info_def Let_def same_loads_def)
    ultimately show ?thesis
      using None w [of i] st(1,5) by (intro that [of "\<lparr>rr_key_mf = p, rr_count = 1\<rparr>"]) (auto simp: info_ok_def)
  next
    case (Some j)
    then obtain r where r: "j = i" "ls_infos x i = Some r" "ls_infos x' = (ls_infos x)(i \<mapsto> r\<lparr>rr_count := rr_count r + 1\<rparr>)"
      "ls_next_info x' = ls_next_info x"
      using x3 s f x' by (auto simp: attach_info_def Let_def same_loads_def split: option.splits)
    have ok: "info_ok todo x i r" "i < ls_next_info x"
      using assms(2) r(2) by (auto simp: loads_inv_def)
    have "card (waiting todo x i) < 2 ^ 32 - 1"
      using assms(3) Some r(1) by auto
    then show ?thesis
      using Some r ok fresh(2) st(1,5) w [of i] fin [of i]
      by (intro that [of "r\<lparr>rr_count := rr_count r + 1\<rparr>"]) (auto simp: info_ok_def)
  qed
  have todo: "kinds (ls_store x) q = Some READ_REQUEST" "\<exists>j. ls_info x q = Some j \<and> ls_infos x j \<noteq> None" if "q \<in> todo" for q
    using that assms(2) by (auto simp: loads_inv_def)
  have infos: "j < ls_next_info x" "info_ok todo x j q" "j \<in> A \<Longrightarrow> ls_pending x (rr_key_mf q) \<noteq> None"
    if "ls_infos x j = Some q" for j q
    using that assms(2) by (auto simp: loads_inv_def)
  have "info_ok (insert p todo) x' j q" if "ls_infos x j = Some q" "j \<noteq> i" for j q
    using infos(2) [OF that(1)] that(2) w [of j] st(1,5) fresh(2) by (auto simp: info_ok_def)
  then have "j < ls_next_info x' \<and> info_ok (insert p todo) x' j q \<and> (j \<in> A - {i} \<longrightarrow> ls_pending x' (rr_key_mf q) \<noteq> None)"
    if "ls_infos x' j = Some q" for j q
    using that r infos [of j q] st(3) by (cases "j = i") auto
  moreover have "kinds (ls_store x') q = Some READ_REQUEST \<and> (\<exists>j. ls_info x' q = Some j \<and> ls_infos x' j \<noteq> None)"
    if "q \<in> insert p todo" for q
    using that todo [of q] st(1,5) r(1) by (cases "q = p") force+
  moreover have "kinds (ls_store x') q = None \<and> ls_info x' q = None" if "mf_next (ls_store x') \<le> q" for q
    using that assms(2,4) st(1,2,5) by (auto simp: loads_inv_def)
  ultimately have "loads_inv (insert p todo) (A - {i}) x'"
    using assms(2) by (simp add: loads_inv_def)
  then show ?thesis
    using i c ic r(1) st by auto
qed

text \<open>The loop over the packets of a load.\<close>

lemma load_pieces_inv:
  assumes "res_foldl (load_piece lc inst) (info, x) addrs = Inr (info', x')" "loads_inv todo A x" "addrs \<noteq> [] \<or> info \<noteq> None"
    and "\<forall>i. info = Some i \<longrightarrow> i \<notin> A \<and> ls_infos x i \<noteq> None \<and> card (waiting todo x i) + length addrs < 2 ^ 32"
    and "length addrs < 2 ^ 32"
  shows "\<exists>i. info' = Some i \<and> loads_inv (todo \<union> {mf_next (ls_store x)..<mf_next (ls_store x')}) (A - {i}) x' \<and> ls_infos x' i \<noteq> None \<and>
    (case info of None \<Rightarrow> i = ls_next_info x | Some j \<Rightarrow> i = j) \<and>
    mf_next (ls_store x') = mf_next (ls_store x) + length addrs \<and> ls_pending x' = ls_pending x \<and> ls_to_reg x' = ls_to_reg x"
  using assms
proof (induction addrs arbitrary: info x todo A)
  case Nil
  then show ?case by auto
next
  case (Cons addr addrs)
  obtain info1 x1 where p: "load_piece lc inst (info, x) addr = Inr (info1, x1)"
    and rest: "res_foldl (load_piece lc inst) (info1, x1) addrs = Inr (info', x')"
    using Cons.prems(1) by (auto simp: res_simps)
  let ?p = "mf_next (ls_store x)"
  have "\<forall>i. info = Some i \<longrightarrow> ls_infos x i \<noteq> None \<and> card (waiting todo x i) < 2 ^ 32 - 1"
    using Cons.prems(4) by auto
  from load_piece_inv [OF p Cons.prems(2) this refl] obtain i where i: "info1 = Some i" "loads_inv (insert ?p todo) (A - {i}) x1"
    "ls_infos x1 i \<noteq> None" "card (waiting (insert ?p todo) x1 i) = (case info of None \<Rightarrow> 1 | Some j \<Rightarrow> Suc (card (waiting todo x j)))"
    "case info of None \<Rightarrow> i = ls_next_info x | Some j \<Rightarrow> i = j"
    "ls_pending x1 = ls_pending x" "ls_to_reg x1 = ls_to_reg x" "mf_next (ls_store x1) = Suc ?p"
    by blast
  have b: "card (waiting (insert ?p todo) x1 i) + length addrs < 2 ^ 32"
    using i(4) Cons.prems(4,5) by (auto split: option.splits)
  from Cons.IH [OF rest i(2)] i b Cons.prems(5) obtain k where
    "info' = Some k" "loads_inv (insert ?p todo \<union> {Suc ?p..<mf_next (ls_store x')}) (A - {i} - {k}) x'"
    "ls_infos x' k \<noteq> None" "k = i" "mf_next (ls_store x') = Suc ?p + length addrs" "ls_pending x' = ls_pending x" "ls_to_reg x' = ls_to_reg x"
    by auto
  moreover have "insert ?p todo \<union> {Suc ?p..<mf_next (ls_store x')} = todo \<union> {?p..<mf_next (ls_store x')}"
    using \<open>mf_next (ls_store x') = Suc ?p + length addrs\<close> by auto
  ultimately show ?case
    using i(5) by auto
qed

text \<open>A load adds its requests to the outstanding ones and becomes pending.\<close>

lemma load_inst_inv:
  assumes "load_inst lc op x = Inr x'" "loads_inv todo UNIV x" "length (xo_addrs op) < 2 ^ 32"
  shows "loads_inv (todo \<union> {mf_next (ls_store x)..<mf_next (ls_store x')}) UNIV x' \<and>
    mf_next (ls_store x') = mf_next (ls_store x) + length (xo_addrs op) \<and> ls_to_reg x' = ls_to_reg x \<and>
    (\<exists>r. ls_infos x' (ls_next_info x) = Some r \<and> ls_pending x' (rr_key_mf r) = Some op)"
proof -
  obtain i x1 r where x1: "res_foldl (load_piece lc (xo_inst op)) (None, x) (xo_addrs op) = Inr (Some i, x1)"
    and r: "ls_infos x1 i = Some r" and x': "x' = x1\<lparr>ls_pending := (ls_pending x1)(rr_key_mf r \<mapsto> op)\<rparr>"
    using assms(1) by (auto simp: load_inst_def res_simps split: option.splits)
  have "xo_addrs op \<noteq> []"
    using x1 by (cases "xo_addrs op") auto
  then have inv: "loads_inv (todo \<union> {mf_next (ls_store x)..<mf_next (ls_store x1)}) (UNIV - {i}) x1" "i = ls_next_info x"
    "mf_next (ls_store x1) = mf_next (ls_store x) + length (xo_addrs op)" "ls_to_reg x1 = ls_to_reg x"
    using load_pieces_inv [OF x1 assms(2)] assms(3) by auto
  have "ls_pending x' (rr_key_mf q) \<noteq> None" if "ls_infos x1 j = Some q" for j q
    using inv(1) r that unfolding x' loads_inv_def by (cases "j = i") auto
  then show ?thesis
    using inv r unfolding loads_inv_def info_ok_def waiting_def by (auto simp: x')
qed

text \<open>Stores leave the loads alone.\<close>

lemma new_write_inv:
  assumes "loads_inv todo A x" "kinds (ls_store x') = (kinds (ls_store x))(mf_next (ls_store x) \<mapsto> ty)"
    "mf_next (ls_store x') = Suc (mf_next (ls_store x))" "ls_info x' = ls_info x" "ls_infos x' = ls_infos x"
    "ls_next_info x' = ls_next_info x" "ls_pending x' = ls_pending x"
  shows "loads_inv todo A x'"
proof -
  have "mf_next (ls_store x) \<notin> todo"
    using assms(1) by (force simp: loads_inv_def)
  then show ?thesis
    using assms by (auto simp: loads_inv_def info_ok_def waiting_def)
qed

lemma kinds_upd: "mf_heap h' = (mf_heap h)(p \<mapsto> f) \<Longrightarrow> ty = mf_kind f \<Longrightarrow> kinds h' = (kinds h)(p \<mapsto> ty)"
  by (auto simp: kinds_def)

lemma store_bi_inv:
  assumes "store_bi lc addr x = Inr x'" "loads_inv todo A x"
  shows "loads_inv todo A x'" "ls_to_reg x' = ls_to_reg x"
proof -
  let ?new = "kinds (ls_store x') = (kinds (ls_store x))(mf_next (ls_store x) \<mapsto> WRITE_REQUEST) \<and>
    mf_next (ls_store x') = Suc (mf_next (ls_store x)) \<and> ls_info x' = ls_info x \<and> ls_infos x' = ls_infos x \<and>
    ls_next_info x' = ls_next_info x \<and> ls_pending x' = ls_pending x \<and> ls_to_reg x' = ls_to_reg x"
  have "same_loads x x' \<or> ?new"
  proof (cases "lc_bi_enabled lc")
    case True
    obtain u where u: "bi_unit (ls_bi x) addr = Inr u"
      using assms(1) True by (auto simp: store_bi_def next_draw_def Let_def is_handled_bi_addr_def res_simps)
    note defs = store_bi_def next_draw_def is_handled_bi_addr_def is_bi_inprogress_def insert_handled_bi_addr_def
    show ?thesis
    proof (cases "lc_draw lc (ls_draws x) \<and> u \<notin> m_handled_bi_addr (ls_bi x) \<and> u \<notin> m_inprogress_bi_addr (ls_bi x)")
      case draw: True
      have ?new
        using assms(1) True u draw
        by (auto simp: defs update_request_def new_mem_fetch_def new_mem_fetch_masked_def store_new_def mf_update_def
            blank_mem_fetch_def intro!: kinds_upd)
      then show ?thesis ..
    next
      case False
      then have "x' = x\<lparr>ls_draws := ls_draws x + 1\<rparr>"
        using assms(1) True u by (auto simp: defs)
      then show ?thesis
        by (simp add: same_loads_def)
    qed
  qed (use assms(1) in \<open>simp add: store_bi_def\<close>)
  then have "loads_inv todo A x' \<and> ls_to_reg x' = ls_to_reg x"
  proof
    assume same: "same_loads x x'"
    show ?thesis
      using assms(2) loads_inv_cong [OF same, of todo A] same by (simp add: same_loads_def)
  next
    assume n: ?new
    show ?thesis
      by (intro conjI new_write_inv [OF assms(2)]) (simp_all only: n)
  qed
  then show "loads_inv todo A x'" "ls_to_reg x' = ls_to_reg x"
    by simp_all
qed

lemma store_piece_inv:
  assumes "store_piece lc x addr = Inr x'" "loads_inv todo A x"
  shows "loads_inv todo A x' \<and> ls_to_reg x' = ls_to_reg x"
proof -
  obtain p x1 x2 x3 where x1: "new_ldst_request lc GLOBAL_ACC_W WRITE_REQUEST addr x = Inr (p, x1)"
    and x2: "store_bi lc addr x1 = Inr x2" and x3: "push_latency lc addr p (l1_hit_latency lc) x2 = Inr x3"
    and x': "x' = x3\<lparr>ls_pending_write_count := ls_pending_write_count x3 + 1\<rparr>"
    using assms(1) by (auto simp: store_piece_def res_simps)
  note f = new_ldst_request_facts [OF x1]
  have "loads_inv todo A x1"
    by (rule new_write_inv [OF assms(2)]) (use f in simp_all)
  note s = store_bi_inv [OF x2 this]
  have same: "same_loads x2 x'"
    using push_latency_same [OF x3] by (simp add: x' same_loads_def)
  then show ?thesis
    using s f(8) loads_inv_cong [OF same] by (simp add: same_loads_def)
qed

lemma store_pieces_inv:
  assumes "res_foldl (store_piece lc) x addrs = Inr x'" "loads_inv todo A x"
  shows "loads_inv todo A x' \<and> ls_to_reg x' = ls_to_reg x"
  using assms
proof (induction addrs arbitrary: x)
  case (Cons addr addrs)
  then obtain x1 where "store_piece lc x addr = Inr x1" "res_foldl (store_piece lc) x1 addrs = Inr x'"
    by (auto simp: res_simps)
  then show ?case
    using store_piece_inv [OF _ Cons.prems(2)] Cons.IH by metis
qed simp

section \<open>Answers of loads\<close>

text \<open>What the cache does with a hit: the request becomes its reply and is handled.\<close>

definition answer :: "ldst_unit \<Rightarrow> ptr \<Rightarrow> ldst_unit res" where
  "answer x p = res_bind (reply_request p x) (handle_response p)"

text \<open>An answer of load \<open>i\<close> while others of it are outstanding only counts down.\<close>

lemma answer_eq:
  assumes "mf_heap (ls_store x) p = Some f" "mf_kind f = READ_REQUEST" "ls_info x p = Some i" "ls_infos x i = Some r"
  shows "answer x p =
    (let h = (ls_store x)\<lparr>mf_heap := (mf_heap (ls_store x))(p := if p = rr_key_mf r then Some (f\<lparr>mf_kind := READ_REPLY\<rparr>) else None)\<rparr>
     in if rr_count r - 1 \<noteq> 0 then Inr (x\<lparr>ls_store := h, ls_infos := (ls_infos x)(i \<mapsto> r\<lparr>rr_count := rr_count r - 1\<rparr>)\<rparr>)
        else complete_load (rr_key_mf r) (x\<lparr>ls_store := h, ls_infos := (ls_infos x)(i := None)\<rparr>))"
  using assms
  by (simp add: answer_def reply_request_def handle_response_def set_reply_def update_request_def is_request_def Let_def
      mf_delete_def)

lemma loads_inv_facts:
  assumes "loads_inv todo A x" "p \<in> todo"
  obtains f i r where "mf_heap (ls_store x) p = Some f" "mf_kind f = READ_REQUEST" "ls_info x p = Some i" "ls_infos x i = Some r"
    "info_ok todo x i r" "i \<in> A \<Longrightarrow> ls_pending x (rr_key_mf r) \<noteq> None"
  using assms unfolding loads_inv_def kinds_def by fastforce

text \<open>The invariant after an answer, for the other loads.\<close>

lemma answered_inv:
  assumes "loads_inv todo UNIV x" "p \<in> todo" "ls_info x p = Some i" "ls_infos x i = Some r"
    and "\<forall>q. q \<noteq> p \<and> (R = None \<longrightarrow> q \<noteq> rr_key_mf r) \<longrightarrow> kinds (ls_store x') q = kinds (ls_store x) q"
    and "\<forall>q. kinds (ls_store x) q = None \<longrightarrow> kinds (ls_store x') q = None" "mf_next (ls_store x') = mf_next (ls_store x)"
    and "ls_info x' = ls_info x" "ls_infos x' = (ls_infos x)(i := R)" "ls_next_info x' = ls_next_info x"
    and "\<forall>q. q \<noteq> rr_key_mf r \<longrightarrow> ls_pending x' q = ls_pending x q"
    and "case R of None \<Rightarrow> waiting (todo - {p}) x i = {} | Some r' \<Rightarrow> info_ok (todo - {p}) x' i r' \<and> ls_pending x' (rr_key_mf r') \<noteq> None"
  shows "loads_inv (todo - {p}) UNIV x'"
proof -
  have key: "ls_info x (rr_key_mf r) = Some i"
    using assms(1,4) by (auto simp: loads_inv_def info_ok_def)
  have infos: "j < ls_next_info x" "info_ok todo x j q" "ls_pending x (rr_key_mf q) \<noteq> None" if "ls_infos x j = Some q" for j q
    using that assms(1) by (auto simp: loads_inv_def)
  have ok: "info_ok (todo - {p}) x' j q \<and> ls_pending x' (rr_key_mf q) \<noteq> None" if "ls_infos x j = Some q" "j \<noteq> i" for j q
  proof -
    have k: "ls_info x (rr_key_mf q) = Some j"
      using infos(2) [OF that(1)] by (simp add: info_ok_def)
    then have ne: "rr_key_mf q \<noteq> p" "rr_key_mf q \<noteq> rr_key_mf r"
      using assms(3) key that(2) by auto
    have "waiting (todo - {p}) x' j = waiting todo x j"
      using assms(3,8) that(2) by (auto simp: waiting_def)
    moreover have "kinds (ls_store x') (rr_key_mf q) = kinds (ls_store x) (rr_key_mf q)"
      using assms(5) ne by simp
    moreover have "ls_pending x' (rr_key_mf q) = ls_pending x (rr_key_mf q)"
      using assms(11) ne by simp
    ultimately show ?thesis
      using infos(2,3) [OF that(1)] assms(8) k by (simp add: info_ok_def)
  qed
  have "\<forall>j q. ls_infos x' j = Some q \<longrightarrow> j < ls_next_info x' \<and> info_ok (todo - {p}) x' j q \<and> ls_pending x' (rr_key_mf q) \<noteq> None"
  proof (intro allI impI)
    fix j q
    assume a: "ls_infos x' j = Some q"
    show "j < ls_next_info x' \<and> info_ok (todo - {p}) x' j q \<and> ls_pending x' (rr_key_mf q) \<noteq> None"
    proof (cases "j = i")
      case True
      then show ?thesis using a assms(9,10,12) infos(1) [OF assms(4)] by auto
    next
      case False
      then show ?thesis using a assms(9,10) infos(1) [of j q] ok [of j q] by auto
    qed
  qed
  moreover have "kinds (ls_store x') q = Some READ_REQUEST \<and> (\<exists>j. ls_info x' q = Some j \<and> ls_infos x' j \<noteq> None)"
    if q: "q \<in> todo - {p}" for q
  proof -
    obtain j where j: "ls_info x q = Some j" "ls_infos x j \<noteq> None" "kinds (ls_store x) q = Some READ_REQUEST"
      using q assms(1) unfolding loads_inv_def by blast
    have "j = i \<Longrightarrow> R \<noteq> None"
      using q j(1) assms(12) by (auto simp: waiting_def split: option.splits)
    then show ?thesis
      using j q key assms(5,8,9) by (cases "j = i") auto
  qed
  ultimately show ?thesis
    using assms(1,6,7,8) by (auto simp: loads_inv_def)
qed

lemma waiting_remove: "waiting (todo - {p}) x i = waiting todo x i - {p}"
  by (auto simp: waiting_def)

lemma count_down:
  assumes "info_ok todo x i r" "p \<in> todo" "ls_info x p = Some i" "finite todo"
  shows "rr_count r - 1 = of_nat (card (waiting (todo - {p}) x i))" "card (waiting (todo - {p}) x i) < 2 ^ 32"
    "rr_count r - 1 = 0 \<longleftrightarrow> waiting (todo - {p}) x i = {}"
proof -
  have fin: "finite (waiting todo x i)" and p: "p \<in> waiting todo x i"
    using assms by (simp_all add: waiting_def)
  then have "card (waiting todo x i) = Suc (card (waiting (todo - {p}) x i))"
    unfolding waiting_remove by (rule card.remove)
  then show c: "rr_count r - 1 = of_nat (card (waiting (todo - {p}) x i))" "card (waiting (todo - {p}) x i) < 2 ^ 32"
    using assms(1) by (simp_all add: info_ok_def)
  then have "rr_count r - 1 = 0 \<longleftrightarrow> card (waiting (todo - {p}) x i) = 0"
    using nat_dvd_not_less by (auto simp: word_of_nat_eq_0_iff)
  then show "rr_count r - 1 = 0 \<longleftrightarrow> waiting (todo - {p}) x i = {}"
    using fin by (simp add: waiting_remove)
qed

text \<open>An answer of a load while others of it are outstanding only counts down.\<close>

lemma answer_not_last:
  assumes "loads_inv todo UNIV x" "p \<in> todo" "ls_info x p = Some i" "ls_infos x i = Some r" "waiting (todo - {p}) x i \<noteq> {}"
  shows "\<exists>x'. answer x p = Inr x' \<and> loads_inv (todo - {p}) UNIV x' \<and> ls_to_reg x' = ls_to_reg x \<and> ls_pending x' = ls_pending x \<and>
    ls_finished x' = ls_finished x \<and> ls_info x' = ls_info x \<and>
    ls_infos x' = (ls_infos x)(i \<mapsto> r\<lparr>rr_count := rr_count r - 1\<rparr>)"
proof -
  obtain f where f: "mf_heap (ls_store x) p = Some f" "mf_kind f = READ_REQUEST"
    using loads_inv_facts [OF assms(1,2)] by metis
  have ok: "info_ok todo x i r" "ls_pending x (rr_key_mf r) \<noteq> None" "finite todo"
    using assms(1,4) by (auto simp: loads_inv_def)
  note c = count_down [OF ok(1) assms(2,3) ok(3)]
  let ?h = "(ls_store x)\<lparr>mf_heap := (mf_heap (ls_store x))(p := if p = rr_key_mf r then Some (f\<lparr>mf_kind := READ_REPLY\<rparr>) else None)\<rparr>"
  let ?x = "x\<lparr>ls_store := ?h, ls_infos := (ls_infos x)(i \<mapsto> r\<lparr>rr_count := rr_count r - 1\<rparr>)\<rparr>"
  have a: "answer x p = Inr ?x"
    using answer_eq [OF f assms(3,4)] c(3) assms(5) by (simp add: Let_def)
  have w: "waiting (todo - {p}) ?x i = waiting (todo - {p}) x i"
    by (simp add: waiting_def)
  have "info_ok (todo - {p}) ?x i (r\<lparr>rr_count := rr_count r - 1\<rparr>)"
    using ok(1) c(1,2) assms(5) unfolding info_ok_def w by (auto simp: kinds_def)
  then have "loads_inv (todo - {p}) UNIV ?x"
    using ok(2) f by (intro answered_inv [OF assms(1-4), where R = "Some (r\<lparr>rr_count := rr_count r - 1\<rparr>)"]) (auto simp: kinds_def)
  then show ?thesis
    using a by auto
qed

text \<open>The last answer announces the destination and ends the load.\<close>

lemma answer_last:
  assumes "loads_inv todo UNIV x" "p \<in> todo" "ls_info x p = Some i" "ls_infos x i = Some r" "waiting (todo - {p}) x i = {}"
    and "ls_pending x (rr_key_mf r) = Some op" "0 \<le> fc_sub_core_id (xo_context op)" "s = nat (fc_sub_core_id (xo_context op))"
    and "s < length (ls_to_reg x)" "fp_push (Some (dest (xo_inst op))) (ls_to_reg x ! s) = Inr q"
  shows "\<exists>x'. answer x p = Inr x' \<and> loads_inv (todo - {p}) UNIV x' \<and> ls_to_reg x' = (ls_to_reg x)[s := q] \<and>
    ls_pending x' = (ls_pending x)(rr_key_mf r := None) \<and> ls_info x' = ls_info x \<and> ls_infos x' = (ls_infos x)(i := None) \<and>
    ls_finished x' = (if fc_last_inst (xo_context op) then ls_finished x @ [xo_context op] else ls_finished x)"
proof -
  obtain f where f: "mf_heap (ls_store x) p = Some f" "mf_kind f = READ_REQUEST"
    using loads_inv_facts [OF assms(1,2)] by metis
  have ok: "info_ok todo x i r" "finite todo"
    using assms(1,4) by (auto simp: loads_inv_def)
  note c = count_down [OF ok(1) assms(2,3) ok(2)]
  let ?k = "rr_key_mf r"
  let ?h = "(ls_store x)\<lparr>mf_heap := (mf_heap (ls_store x))(p := if p = ?k then Some (f\<lparr>mf_kind := READ_REPLY\<rparr>) else None)\<rparr>"
  obtain g where g: "mf_heap ?h ?k = Some g"
    using ok(1) by (cases "p = ?k") (auto simp: info_ok_def kinds_def)
  have nf: "\<not> fp_full (ls_to_reg x ! s)"
    using assms(10) by (auto simp: fp_push_def)
  let ?x = "x\<lparr>ls_store := ?h\<lparr>mf_heap := (mf_heap ?h)(?k := None)\<rparr>, ls_infos := (ls_infos x)(i := None), ls_to_reg := (ls_to_reg x)[s := q],
    ls_pending := (ls_pending x)(?k := None),
    ls_finished := (if fc_last_inst (xo_context op) then ls_finished x @ [xo_context op] else ls_finished x)\<rparr>"
  have "answer x p = complete_load ?k (x\<lparr>ls_store := ?h, ls_infos := (ls_infos x)(i := None)\<rparr>)"
    using answer_eq [OF f assms(3,4)] c(3) assms(5) by (simp add: Let_def)
  also have "... = Inr ?x"
    using assms(6-10) nf g by (simp add: complete_load_def push_dest_def mf_delete_def Let_def)
  finally have a: "answer x p = Inr ?x" .
  have "loads_inv (todo - {p}) UNIV ?x"
    using assms(5) by (intro answered_inv [OF assms(1-4), where R = None]) (auto simp: kinds_def)
  then show ?thesis
    using a by auto
qed

section \<open>Properties\<close>

text \<open>The instruction of a pending load and the sub-core it belongs to.\<close>

definition op_of :: "ldst_unit \<Rightarrow> nat \<Rightarrow> exec_op" where
  "op_of x i = the (ls_pending x (rr_key_mf (the (ls_infos x i))))"

definition sub_of :: "ldst_unit \<Rightarrow> nat \<Rightarrow> nat" where
  "sub_of x i = nat (fc_sub_core_id (xo_context (op_of x i)))"

text \<open>The queues to the sub-cores exist and have room for one register per pending load.\<close>

definition room :: "ldst_unit \<Rightarrow> bool" where
  "room x \<longleftrightarrow> (\<forall>i\<in>dom (ls_infos x). 0 \<le> fc_sub_core_id (xo_context (op_of x i)) \<and> sub_of x i < length (ls_to_reg x)) \<and>
     (\<forall>q\<in>set (ls_to_reg x). fp_plain q \<and> length (fp_data q) + card (dom (ls_infos x)) \<le> unat (fp_max_len q))"

definition announced :: "ldst_unit \<Rightarrow> nat set \<Rightarrow> nat \<Rightarrow> int multiset" where
  "announced x I s = image_mset (\<lambda>i. dest (xo_inst (op_of x i))) (mset_set {i \<in> I. sub_of x i = s})"

lemma infos_finite: "loads_inv todo A x \<Longrightarrow> finite (dom (ls_infos x))"
  by (rule finite_subset [of _ "{..<ls_next_info x}"]) (auto simp: loads_inv_def)

lemma plain_cells: "fp_plain q \<Longrightarrow> length (fp_data q) = length (fp_cells q)"
  unfolding fp_plain_def fp_data_def by (metis (mono_tags, lifting) filter_True length_map)

text \<open>One answer: the destinations of the loads it completes are announced, and the others keep waiting.\<close>

lemma answer_step:
  assumes "loads_inv todo UNIV x" "room x" "p \<in> todo"
  shows "\<exists>x' I. answer x p = Inr x' \<and> loads_inv (todo - {p}) UNIV x' \<and> room x' \<and> length (ls_to_reg x') = length (ls_to_reg x) \<and>
    I \<subseteq> dom (ls_infos x) \<and> dom (ls_infos x') = dom (ls_infos x) - I \<and> ls_info x' = ls_info x \<and>
    (\<forall>j\<in>dom (ls_infos x'). op_of x' j = op_of x j) \<and> I = {j \<in> dom (ls_infos x). waiting todo x j \<subseteq> {p}} \<and>
    (\<forall>s<length (ls_to_reg x). mset (fp_data (ls_to_reg x' ! s)) = mset (fp_data (ls_to_reg x ! s)) + announced x I s)"
proof -
  obtain i r where f: "ls_info x p = Some i" "ls_infos x i = Some r" "ls_pending x (rr_key_mf r) \<noteq> None"
    using loads_inv_facts [OF assms(1,3)] UNIV_I by metis
  have keys: "ls_info x (rr_key_mf q) = Some j" "waiting todo x j \<noteq> {}" if "ls_infos x j = Some q" for j q
    using that assms(1) by (auto simp: loads_inv_def info_ok_def)
  have others: "\<not> waiting todo x j \<subseteq> {p}" if j: "j \<in> dom (ls_infos x)" "j \<noteq> i" for j
  proof -
    have "waiting todo x j \<noteq> {}"
      using j(1) keys(2) by auto
    then obtain q where "q \<in> waiting todo x j"
      by blast
    then show ?thesis
      using j(2) f(1) by (auto simp: waiting_def)
  qed
  have sub: "sub_of y j = sub_of x j" if "op_of y j = op_of x j" for y j
    using that by (simp add: sub_of_def)
  show ?thesis
  proof (cases "waiting (todo - {p}) x i = {}")
    case False
    then obtain x' where x': "answer x p = Inr x'" "loads_inv (todo - {p}) UNIV x'" "ls_to_reg x' = ls_to_reg x"
      "ls_pending x' = ls_pending x" "ls_info x' = ls_info x" "ls_infos x' = (ls_infos x)(i \<mapsto> r\<lparr>rr_count := rr_count r - 1\<rparr>)"
      using answer_not_last [OF assms(1,3) f(1,2)] by blast
    have dom: "dom (ls_infos x') = dom (ls_infos x)"
      using x'(6) f(2) by auto
    have op: "op_of x' j = op_of x j" for j
      using x'(4,6) f(2) by (simp add: op_of_def)
    have "{j \<in> dom (ls_infos x). waiting todo x j \<subseteq> {p}} = {}"
      using others False unfolding waiting_remove by blast
    then show ?thesis
      using x'(1-3,5) dom op assms(2) sub [OF op]
      by (intro exI [of _ x'] exI [of _ "{}"]) (auto simp: room_def announced_def)
  next
    case True
    define op where "op = op_of x i"
    define s where "s = sub_of x i"
    have pend: "ls_pending x (rr_key_mf r) = Some op"
      using f by (auto simp: op_def op_of_def)
    have room: "0 \<le> fc_sub_core_id (xo_context op)" "s < length (ls_to_reg x)" "s = nat (fc_sub_core_id (xo_context op))"
      using assms(2) f(2) by (auto simp: room_def op_def s_def sub_of_def)
    have i: "i \<in> dom (ls_infos x)"
      using f(2) by blast
    have card: "card (dom (ls_infos x)) = Suc (card (dom (ls_infos x) - {i}))"
      by (rule card.remove [OF infos_finite [OF assms(1)] i])
    have q: "fp_plain (ls_to_reg x ! k)" "length (fp_data (ls_to_reg x ! k)) + card (dom (ls_infos x)) \<le> unat (fp_max_len (ls_to_reg x ! k))"
      if "k < length (ls_to_reg x)" for k
      using assms(2) that by (auto simp: room_def)
    have "fp_length (ls_to_reg x ! s) < fp_max_len (ls_to_reg x ! s)"
      using q [OF room(2)] card plain_cells [OF q(1) [OF room(2)]]
      by (simp add: word_less_nat_alt fp_plain_def fp_inv_def)
    then obtain t where t: "fp_push (Some (dest (xo_inst op))) (ls_to_reg x ! s) = Inr t"
      using fp_push_total by blast
    note pt = fp_push_plain [OF q(1) [OF room(2)] t]
    obtain x' where x': "answer x p = Inr x'" "loads_inv (todo - {p}) UNIV x'" "ls_to_reg x' = (ls_to_reg x)[s := t]"
      "ls_pending x' = (ls_pending x)(rr_key_mf r := None)" "ls_info x' = ls_info x" "ls_infos x' = (ls_infos x)(i := None)"
      using answer_last [OF assms(1,3) f(1,2) True pend room(1,3,2) t] by blast
    have dom: "dom (ls_infos x') = dom (ls_infos x) - {i}"
      using x'(6) by auto
    have op': "op_of x' j = op_of x j" if j: "j \<in> dom (ls_infos x')" for j
    proof -
      obtain q' where "ls_infos x j = Some q'" "j \<noteq> i"
        using j dom by auto
      then have "rr_key_mf q' \<noteq> rr_key_mf r"
        using keys(1) [of j q'] keys(1) [OF f(2)] by auto
      then show ?thesis
        using x'(4,6) \<open>ls_infos x j = Some q'\<close> \<open>j \<noteq> i\<close> by (simp add: op_of_def)
    qed
    have I: "{j \<in> dom (ls_infos x). waiting todo x j \<subseteq> {p}} = {i}"
      using others i True unfolding waiting_remove by blast
    have room': "room x'"
      unfolding room_def
    proof (intro conjI ballI)
      fix j
      assume j: "j \<in> dom (ls_infos x')"
      show "0 \<le> fc_sub_core_id (xo_context (op_of x' j))" "sub_of x' j < length (ls_to_reg x')"
        using j dom assms(2) op' [OF j] sub [OF op' [OF j]] x'(3) by (auto simp: room_def)
    next
      fix k
      assume "k \<in> set (ls_to_reg x')"
      then have "k = t \<or> k \<in> set (ls_to_reg x)"
        using x'(3) set_update_subset_insert by fastforce
      moreover have "fp_max_len t = fp_max_len (ls_to_reg x ! s)"
        using fp_push_frame(2) [OF t] .
      ultimately show "fp_plain k" "length (fp_data k) + card (dom (ls_infos x')) \<le> unat (fp_max_len k)"
        using pt q(2) [OF room(2)] assms(2) card dom by (auto simp: room_def)
    qed
    have "mset (fp_data (ls_to_reg x' ! k)) = mset (fp_data (ls_to_reg x ! k)) + announced x {i} k" if "k < length (ls_to_reg x)" for k
    proof -
      have "{j \<in> {i}. sub_of x j = k} = (if k = s then {i} else {})"
        by (auto simp: s_def)
      then show ?thesis
        using that room(2) x'(3) pt(2) by (simp add: announced_def op_def nth_list_update)
    qed
    then show ?thesis
      using x'(1,2,3,5) room' dom i I op' by (intro exI [of _ x'] exI [of _ "{i}"]) auto
  qed
qed

text \<open>
  C7. Every load writes its destination exactly once, when its last answer arrives: in a unit whose loads are accounted
  for and whose queues to the sub-cores have room, outstanding requests may be answered in any order and interleaving of
  the loads. No assertion fails, and after each answer the sub-cores have been told the destinations of exactly
  those loads all of whose requests have been answered; when everything is answered no load is pending.
\<close>

theorem loads_write_once:
  assumes "loads_inv todo UNIV x" "room x" "distinct rs" "set rs \<subseteq> todo"
  shows "\<exists>x'. res_foldl answer x rs = Inr x' \<and> loads_inv (todo - set rs) UNIV x' \<and>
    (\<forall>s<length (ls_to_reg x). mset (fp_data (ls_to_reg x' ! s)) = mset (fp_data (ls_to_reg x ! s)) +
      announced x {i \<in> dom (ls_infos x). waiting todo x i \<subseteq> set rs} s) \<and>
    (set rs = todo \<longrightarrow> ls_infos x' = (\<lambda>_. None))"
proof -
  have "\<exists>x'. res_foldl answer x rs = Inr x' \<and> loads_inv (todo - set rs) UNIV x' \<and>
    (\<forall>s<length (ls_to_reg x). mset (fp_data (ls_to_reg x' ! s)) = mset (fp_data (ls_to_reg x ! s)) +
      announced x {i \<in> dom (ls_infos x). waiting todo x i \<subseteq> set rs} s)"
    using assms
  proof (induction rs arbitrary: x todo)
    case Nil
    have "{i \<in> dom (ls_infos x). waiting todo x i \<subseteq> set []} = {}"
      using Nil.prems(1) by (auto simp: loads_inv_def info_ok_def)
    then have "announced x {i \<in> dom (ls_infos x). waiting todo x i \<subseteq> set []} s = {#}" for s
      unfolding announced_def by (simp only: empty_iff Collect_empty_eq) simp
    then show ?case
      using Nil.prems(1) by simp
  next
    case (Cons p rs)
    have "p \<in> todo"
      using Cons.prems(4) by simp
    from answer_step [OF Cons.prems(1,2) this] obtain x1 I where x1: "answer x p = Inr x1" "loads_inv (todo - {p}) UNIV x1" "room x1" "length (ls_to_reg x1) = length (ls_to_reg x)"
      "I \<subseteq> dom (ls_infos x)" "dom (ls_infos x1) = dom (ls_infos x) - I" "ls_info x1 = ls_info x"
      "\<forall>j\<in>dom (ls_infos x1). op_of x1 j = op_of x j" "I = {j \<in> dom (ls_infos x). waiting todo x j \<subseteq> {p}}"
      "\<forall>s<length (ls_to_reg x). mset (fp_data (ls_to_reg x1 ! s)) = mset (fp_data (ls_to_reg x ! s)) + announced x I s"
      by blast
    have "distinct rs" "set rs \<subseteq> todo - {p}"
      using Cons.prems(3,4) by auto
    then obtain x' where x': "res_foldl answer x1 rs = Inr x'" "loads_inv (todo - {p} - set rs) UNIV x'"
      "\<forall>s<length (ls_to_reg x1). mset (fp_data (ls_to_reg x' ! s)) = mset (fp_data (ls_to_reg x1 ! s)) +
      announced x1 {i \<in> dom (ls_infos x1). waiting (todo - {p}) x1 i \<subseteq> set rs} s"
      using Cons.IH [OF x1(2,3)] by blast
    let ?J = "{i \<in> dom (ls_infos x1). waiting (todo - {p}) x1 i \<subseteq> set rs}"
    let ?K = "{i \<in> dom (ls_infos x). waiting todo x i \<subseteq> set (p # rs)}"
    have "waiting (todo - {p}) x1 i = waiting todo x i - {p}" for i
      using x1(7) by (auto simp: waiting_def)
    then have K: "?K = I \<union> ?J" "I \<inter> ?J = {}"
      using x1(5,6,9) by auto
    have sub: "\<forall>i\<in>dom (ls_infos x1). sub_of x1 i = sub_of x i"
      using x1(8) by (simp add: sub_of_def)
    have "announced x ?K s = announced x I s + announced x1 ?J s" for s
    proof -
      have "{i \<in> ?J. sub_of x1 i = s} = {i \<in> ?J. sub_of x i = s}"
        using sub by (intro Collect_cong conj_cong) auto
      moreover have "image_mset (\<lambda>i. dest (xo_inst (op_of x1 i))) (mset_set {i \<in> ?J. sub_of x i = s}) =
          image_mset (\<lambda>i. dest (xo_inst (op_of x i))) (mset_set {i \<in> ?J. sub_of x i = s})"
        using x1(8) infos_finite [OF x1(2)] by (intro image_mset_cong) auto
      moreover have "{i \<in> ?K. sub_of x i = s} = {i \<in> I. sub_of x i = s} \<union> {i \<in> ?J. sub_of x i = s}"
        using K(1) by blast
      moreover have "{i \<in> I. sub_of x i = s} \<inter> {i \<in> ?J. sub_of x i = s} = {}"
        using K(2) by blast
      moreover have "finite {i \<in> I. sub_of x i = s}" "finite {i \<in> ?J. sub_of x i = s}"
        using infos_finite [OF x1(2)] infos_finite [OF Cons.prems(1)] x1(5) by (auto intro: finite_subset)
      ultimately show ?thesis
        by (simp add: announced_def mset_set_Union)
    qed
    moreover have "todo - set (p # rs) = todo - {p} - set rs"
      by auto
    ultimately show ?case
      using x1(1,4,10) x' by (simp add: add.assoc)
  qed
  moreover have "ls_infos y = (\<lambda>_. None)" if "loads_inv {} UNIV y" for y
    using that by (auto simp: loads_inv_def info_ok_def waiting_def fun_eq_iff not_None_eq)
  ultimately show ?thesis
    by auto
qed

text \<open>A unit with one queue to a register file, and a load of two packets.\<close>

definition example_addr :: addr_config where
  "example_addr = \<lparr>m_addrdec_mask = (\<lambda>_. 0xf00), m_channel_indexing_policy = 0, m_num_channels = 16, m_num_ndp_units = 1,
     m_stride_size = 256, shmem_option = []\<rparr>"

definition example_config :: ldst_config where
  "example_config =
     \<lparr>lc_addr = example_addr,
      lc_tlb = \<lparr>tc_page_size = 4096, tc_entry_size = 8, tc_hit_latency = 1, tc_request_queue_size = 8, tc_miss_handling = False,
        tc_miss_latency = 0, tc_use_dram_tlb = False, tc_cache = small_config\<rparr>,
      lc_l1d = small_config, lc_skip_l1d = False, lc_l1d_num_banks = 1, lc_l2d_num_banks = 1, lc_l1d_hit_latency = 4, lc_packet_size = 32,
      lc_request_queue_size = 8, lc_num_ldst_units = 1, lc_num_spad_units = 1, lc_num_v_ldst_units = 1, lc_num_v_spad_units = 1,
      lc_spad_latency = 1, lc_ldst_latency = 1, lc_ldst_interval = 1, lc_adaptive_l1d = False, lc_spad_size = 0,
      lc_scaled_sets = (\<lambda>n _ _. n), lc_bi_enabled = False, lc_draw = (\<lambda>_. False)\<rparr>"

definition example_ldst :: ldst_unit where
  "example_ldst =
     projr (new_ldst_unit (\<lambda>_. (0, 0)) (projr (new_fifo_pipeline [] 0 8)) example_config 0
       (projr (new_tlb (\<lambda>_. (0, 0)) 0 (lc_tlb example_config))) (new_ndp_stats 0) [projr (new_fifo_pipeline [] 0 8)]
       [projr (new_fifo_pipeline [] 0 8)] [projr (new_fifo_pipeline [] 0 8)] empty_store \<lparr>bi_addr_unit_size = 0, m_handled_bi_addr = {}, m_inprogress_bi_addr = {}\<rparr> Map.empty)"

definition example_load :: exec_op where
  "example_load =
     \<lparr>xo_inst = (new_instruction ''vle32'' (Vmem VLE32) OT_V 77 []), xo_addrs = [0x1000, 0x1020],
      xo_context = \<lparr>fc_ndp_id = 0, fc_sub_core_id = 0, fc_inst_col_id = 0,
        fc_request_info = \<lparr>ri_type = KERNEL_BODY, ri_id = 0, ri_launch_id = 0, ri_kernel_id = 0, ri_kernel_body_id = 0,
          ri_addr = 0x1000, ri_offset = 0\<rparr>,
        fc_last_inst = False, fc_max_pc = 0, fc_exit = False\<rparr>\<rparr>"

definition example_waiting :: ldst_unit where
  "example_waiting = projr (load_inst example_config example_load example_ldst)"

lemma example_waiting_facts:
  "load_inst example_config example_load example_ldst = Inr example_waiting"
  "ls_next_info example_waiting = 1" "length (ls_to_reg example_waiting) = 1" "fp_cells (ls_to_reg example_waiting ! 0) = []"
  "fp_max_len (ls_to_reg example_waiting ! 0) = 8" "fp_length (ls_to_reg example_waiting ! 0) = 0"
  "fp_min_len (ls_to_reg example_waiting ! 0) = 0" "fp_n_element (ls_to_reg example_waiting ! 0) = 0"
  "ls_infos example_waiting 0 \<noteq> None"
  "fc_sub_core_id (xo_context (op_of example_waiting 0)) = 0" "dest (xo_inst (op_of example_waiting 0)) = 77"
proof -
  have "case load_inst example_config example_load example_ldst of Inl _ \<Rightarrow> False | Inr x \<Rightarrow>
      ls_next_info x = 1 \<and> (case ls_to_reg x of [q] \<Rightarrow> fp_cells q = [] \<and> fp_max_len q = 8 \<and> fp_length q = 0 \<and> fp_min_len q = 0 \<and>
        fp_n_element q = 0 | _ \<Rightarrow> False) \<and>
      (case ls_infos x 0 of None \<Rightarrow> False | Some r \<Rightarrow> (case ls_pending x (rr_key_mf r) of None \<Rightarrow> False
        | Some op \<Rightarrow> fc_sub_core_id (xo_context op) = 0 \<and> dest (xo_inst op) = 77))"
    by code_simp
  then show
    "load_inst example_config example_load example_ldst = Inr example_waiting"
    "ls_next_info example_waiting = 1" "length (ls_to_reg example_waiting) = 1" "fp_cells (ls_to_reg example_waiting ! 0) = []"
    "fp_max_len (ls_to_reg example_waiting ! 0) = 8" "fp_length (ls_to_reg example_waiting ! 0) = 0"
    "fp_min_len (ls_to_reg example_waiting ! 0) = 0" "fp_n_element (ls_to_reg example_waiting ! 0) = 0"
    "ls_infos example_waiting 0 \<noteq> None"
    "fc_sub_core_id (xo_context (op_of example_waiting 0)) = 0" "dest (xo_inst (op_of example_waiting 0)) = 77"
    by (auto simp: example_waiting_def op_of_def split: sum.splits list.splits option.splits)
qed

lemma example_inv: "loads_inv {} UNIV example_ldst \<and> mf_next (ls_store example_ldst) = 1"
proof -
  have "case new_ldst_unit (\<lambda>_. (0, 0)) (projr (new_fifo_pipeline [] 0 8)) example_config 0
       (projr (new_tlb (\<lambda>_. (0, 0)) 0 (lc_tlb example_config))) (new_ndp_stats 0) [projr (new_fifo_pipeline [] 0 8)]
       [projr (new_fifo_pipeline [] 0 8)] [projr (new_fifo_pipeline [] 0 8)] empty_store \<lparr>bi_addr_unit_size = 0, m_handled_bi_addr = {}, m_inprogress_bi_addr = {}\<rparr> Map.empty
     of Inr _ \<Rightarrow> True | Inl _ \<Rightarrow> False"
    by code_simp
  then show ?thesis
    by (auto simp: example_ldst_def new_ldst_unit_def res_bind_def loads_inv_def kinds_def empty_store_def split: sum.splits)
qed

lemma two_requests: "{1::nat..<1 + length (xo_addrs example_load)} = {1, 2}"
  by (auto simp: example_load_def)

lemma example_waiting_inv: "loads_inv {1, 2} UNIV example_waiting"
proof -
  have "length (xo_addrs example_load) < 2 ^ 32"
    by (simp add: example_load_def)
  from load_inst_inv [OF example_waiting_facts(1) conjunct1 [OF example_inv] this] show ?thesis
    using example_inv two_requests by (metis Un_empty_left)
qed

theorem loads_write_once_witness:
  "\<exists>x'. res_foldl answer example_waiting [2, 1] = Inr x' \<and> fp_data (ls_to_reg x' ! 0) = [77]"
proof -
  note f = example_waiting_facts
  have dom: "dom (ls_infos example_waiting) = {0}"
    using example_waiting_inv f(2,9) by (force simp: loads_inv_def)
  have set: "set (ls_to_reg example_waiting) = {ls_to_reg example_waiting ! 0}"
    using f(3) by (auto simp: length_Suc_conv)
  have "fp_plain (ls_to_reg example_waiting ! 0)" "fp_data (ls_to_reg example_waiting ! 0) = []"
    using f(4-8) by (auto simp: fp_plain_def fp_inv_def fp_data_def)
  then have "room example_waiting" and empty: "fp_data (ls_to_reg example_waiting ! 0) = []"
    using dom set f by (simp_all add: room_def sub_of_def)
  from loads_write_once [OF example_waiting_inv this(1), of "[2, 1]"] obtain x' where
    x': "res_foldl answer example_waiting [2, 1] = Inr x'"
    "mset (fp_data (ls_to_reg x' ! 0)) = announced example_waiting {i \<in> {0}. waiting {1, 2} example_waiting i \<subseteq> {2, 1}} 0"
    using f(3) empty dom by auto
  have "{i \<in> {i \<in> {0}. waiting {1, 2} example_waiting i \<subseteq> {2, 1}}. sub_of example_waiting i = 0} = {0}"
    using f(10) by (auto simp: waiting_def sub_of_def)
  then have "mset (fp_data (ls_to_reg x' ! 0)) = {#77#}"
    using x'(2) f(11) by (simp add: announced_def)
  then show ?thesis
    using x'(1) by auto
qed

text \<open>
  C21. The accounting of loads is an invariant of the memory units: a unit whose instruction is not ready, or whose banks
  are full, changes nothing. A load gets one fresh request per packet, all of them counted by one new
  read-request object whose key request leads to the instruction; a store creates no outstanding answer of a load.
  Nothing is announced to a sub-core.
\<close>

theorem ldst_inst_accounted:
  assumes "loads_inv todo UNIV x" "process_ldst_inst lc u x = Inr (u', x')" "\<forall>e\<in>set (dq_queue u). length (xo_addrs (fst e)) < 2 ^ 32"
  shows "u' = u \<and> x' = x \<or>
    (\<exists>op. dq_top u = Inr op \<and> dq_pop u = Inr u' \<and> ls_to_reg x' = ls_to_reg x \<and>
      (if CheckLoadOp (xo_inst op) then
         loads_inv (todo \<union> {mf_next (ls_store x)..<mf_next (ls_store x) + length (xo_addrs op)}) UNIV x' \<and>
         (\<exists>r. ls_infos x' (ls_next_info x) = Some r \<and> ls_pending x' (rr_key_mf r) = Some op)
       else loads_inv todo UNIV x'))"
proof (cases "dq_empty u")
  case True
  then show ?thesis
    using assms(2) by (simp add: process_ldst_inst_def)
next
  case False
  then obtain op t rest where u: "dq_queue u = (op, t) # rest" "dq_top u = Inr op"
    by (cases "dq_queue u") (auto simp: dq_empty_def dq_top_def)
  obtain full where full: "check_l1_hit_pipeline_full lc (xo_addrs op) x = Inr full"
    using assms(2) u False by (auto simp: process_ldst_inst_def res_simps)
  show ?thesis
  proof (cases full)
    case True
    then show ?thesis
      using assms(2) u False full by (simp add: process_ldst_inst_def)
  next
    case nf: False
    obtain x1 where x1: "(if CheckLoadOp (xo_inst op) then load_inst lc op x else res_foldl (store_piece lc) x (xo_addrs op)) = Inr x1"
      "dq_pop u = Inr u'"
      and x': "x' = (if fc_last_inst (xo_context op) \<and> \<not> CheckLoadOp (xo_inst op)
                  then x1\<lparr>ls_finished := ls_finished x1 @ [xo_context op]\<rparr> else x1)"
      using assms(2) u False full nf by (auto simp: process_ldst_inst_def res_simps)
    have same: "same_loads x1 x'"
      by (simp add: x' same_loads_def)
    show ?thesis
    proof (cases "CheckLoadOp (xo_inst op)")
      case True
      then have "load_inst lc op x = Inr x1" "x' = x1"
        using x1 x' by simp_all
      then show ?thesis
        using load_inst_inv [of lc op x x1 todo] assms(1,3) u x1(2) True by auto
    next
      case False
      then show ?thesis
        using store_pieces_inv [of lc x "xo_addrs op" x1] x1 assms(1) u loads_inv_cong [OF same] same
        by (auto simp: same_loads_def)
    qed
  qed
qed

definition example_queue :: exec_queue where
  "example_queue = (new_delay_queue ''ldst_unit_0'' False (-1))\<lparr>dq_size := 1, dq_queue := [(example_load, 0)]\<rparr>"

theorem ldst_inst_accounted_witness:
  "\<exists>u' x'. process_ldst_inst example_config example_queue example_ldst = Inr (u', x') \<and> loads_inv {1, 2} UNIV x'"
proof -
  have "case process_ldst_inst example_config example_queue example_ldst of Inr (u', x') \<Rightarrow> dq_queue u' = [] | Inl _ \<Rightarrow> False"
    by code_simp
  then obtain u' x' where p: "process_ldst_inst example_config example_queue example_ldst = Inr (u', x')" "dq_queue u' = []"
    by (auto split: sum.splits)
  have a: "CheckLoadOp (xo_inst example_load)" "length (xo_addrs example_load) < 2 ^ 32"
    by (simp_all add: example_load_def CheckLoadOp_def new_instruction_def)
  have q: "dq_top example_queue = Inr example_load" "dq_queue example_queue = [(example_load, 0)]"
    by (simp_all add: example_queue_def dq_top_def dq_empty_def new_delay_queue_def)
  then have "u' \<noteq> example_queue"
    using p(2) by auto
  then show ?thesis
    using ldst_inst_accounted [OF conjunct1 [OF example_inv] p(1)] example_inv p(1) a q two_requests by auto
qed

section \<open>The loop over translated requests\<close>

text \<open>After as many rounds as the TLB has finished requests, the loop has stopped.\<close>

lemma tlb_rounds_enough:
  assumes "fp_plain (tl_finished (ls_tlb x))" "length (fp_cells (tl_finished (ls_tlb x))) \<le> n"
    "tlb_rounds n lc ndp_cycle x = Inr (full, x')"
  shows "full \<or> \<not> tlb_data_ready (ls_tlb x')"
  using assms
proof (induction n arbitrary: x)
  case 0
  then show ?case by (simp add: tlb_data_ready_def fp_empty_def)
next
  case (Suc n)
  show ?case
  proof (cases "tlb_data_ready (ls_tlb x)")
    case True
    then obtain f y where y: "tlb_round lc ndp_cycle x = Inr (f, y)" "if f then full \<and> x' = y else tlb_rounds n lc ndp_cycle y = Inr (full, x')"
      using Suc.prems(3) by (auto simp: res_simps split: if_splits)
    show ?thesis
    proof (cases f)
      case False
      then obtain d q where q: "fp_pop (tl_finished (ls_tlb x)) = Inr (d, q)" "tl_finished (ls_tlb y) = q"
        using y(1) by (auto simp: tlb_round_def tlb_pop_data_def res_simps Let_def split: option.splits if_splits)
      obtain c cs where c: "fp_cells (tl_finished (ls_tlb x)) = Some c # cs"
        using True Suc.prems(1) unfolding tlb_data_ready_def fp_empty_def fp_plain_def
        by (metis list.exhaust list.set_intros(1) not_None_eq)
      then have "fp_take (tl_finished (ls_tlb x)) = Inr (c, q)"
        using q(1) by (auto simp: fp_take_def fp_pop_def Let_def res_simps split: if_splits)
      note p = fp_take_plain [OF Suc.prems(1) this]
      have "length (fp_cells q) \<le> n"
        using p plain_cells [OF p(1)] plain_cells [OF Suc.prems(1)] Suc.prems(2) by simp
      then show ?thesis
        using Suc.IH [of y] p(1) q(2) y(2) False by simp
    qed (use y in simp)
  qed (use Suc.prems in auto)
qed

text \<open>
  The fullness check of the banks compares with \<^verbatim>\<open>m_l1_latency_pipeline_max_index\<close>, which nothing ever sets: it stays
  zero, so an instruction of at most 64 packets passes whatever the latency queues hold.
\<close>

lemma bank_counts:
  assumes "res_foldl (\<lambda>counts addr. res_bind (l1_bank lc addr) (\<lambda>b. Inr (counts[b := counts ! b + 1]))) cs addrs = Inr cs'"
    "\<forall>b<length cs. cs ! b \<le> (n :: int)"
  shows "length cs' = length cs \<and> (\<forall>b<length cs. cs' ! b \<le> n + int (length addrs))"
  using assms
proof (induction addrs arbitrary: cs n)
  case (Cons a addrs)
  then obtain b where b: "l1_bank lc a = Inr b"
    "res_foldl (\<lambda>counts addr. res_bind (l1_bank lc addr) (\<lambda>b. Inr (counts[b := counts ! b + 1]))) (cs[b := cs ! b + 1]) addrs = Inr cs'"
    by (auto simp: res_simps)
  have "\<forall>k<length (cs[b := cs ! b + 1]). cs[b := cs ! b + 1] ! k \<le> n + 1"
  proof (intro allI impI)
    fix k
    assume "k < length (cs[b := cs ! b + 1])"
    then have "cs ! k \<le> n" "k < length cs"
      using Cons.prems(2) by simp_all
    then show "cs[b := cs ! b + 1] ! k \<le> n + 1"
      by (cases "b = k") simp_all
  qed
  from Cons.IH [OF b(2) this] show ?case
    by (simp add: algebra_simps)
qed auto

lemma l1_pipeline_never_full:
  assumes "check_l1_hit_pipeline_full lc addrs x = Inr full" "ls_max_index x = replicate (unat (lc_l1d_num_banks lc)) 0"
    "length addrs \<le> 64" "0 \<le> l1_hit_latency lc"
  shows "\<not> full"
proof -
  obtain cs where cs: "res_foldl (\<lambda>counts addr. res_bind (l1_bank lc addr) (\<lambda>b. Inr (counts[b := counts ! b + 1])))
       (replicate (unat (lc_l1d_num_banks lc)) 0) addrs = Inr cs"
    "full = list_ex (\<lambda>b. max_l1_latency_queue_size lc < ls_max_index x ! b + cs ! b) [0..<unat (lc_l1d_num_banks lc)]"
    using assms(1) by (auto simp: check_l1_hit_pipeline_full_def res_simps)
  show ?thesis
    using bank_counts [OF cs(1), of 0] cs(2) assms(2-4)
    by (force simp: list_ex_iff max_l1_latency_queue_size_def MAX_VLMUL_def)
qed

end
