(* ===== verification/Vector_Registers.thy ===== *)
theory Vector_Registers
  imports Register_Unit Vector_Data
begin

text \<open>
  \<^verbatim>\<open>src/register_unit.cc\<close>: the values of the vector registers, \<^verbatim>\<open>ReadVreg\<close> and \<^verbatim>\<open>WriteVreg\<close>. The table
  \<^verbatim>\<open>m_vreg_table\<close> is kept beside the register unit. A register that owns a second one holds a value of two packets:
  a write splits it, a read appends the second half unless the context asks for one packet only. Of the context the
  functions read the element width \<^verbatim>\<open>vtype_vsew\<close> and the grouping \<^verbatim>\<open>vtype_vlmul\<close>; the grouping is a power of two, for
  which the code's floating-point quotient is the rational one.
\<close>

record 'f vector_registers =
  vr_unit :: "'f register_unit"
  vr_table :: "vector_data list"

definition new_vector_registers :: "'f \<Rightarrow> int \<Rightarrow> int \<Rightarrow> int \<Rightarrow> int \<Rightarrow> 'f vector_registers" where
  "new_vector_registers zero junk nx nf nv =
     \<lparr>vr_unit = new_register_unit zero junk nx nf nv, vr_table = replicate (nat nv) new_vector_data\<rparr>"

definition vreg_value :: "int \<Rightarrow> 'f vector_registers \<Rightarrow> vector_data res" where
  "vreg_value reg r =
     (let k = nat (reg - REG_PV_BASE)
      in if REG_PV_BASE \<le> reg \<and> k < length (vr_table r) then Inr (vr_table r ! k) else Inl Out_Of_Range)"

definition set_vreg_value :: "int \<Rightarrow> vector_data \<Rightarrow> 'f vector_registers \<Rightarrow> 'f vector_registers res" where
  "set_vreg_value reg v r =
     (let k = nat (reg - REG_PV_BASE)
      in if REG_PV_BASE \<le> reg \<and> k < length (vr_table r) then Inr (r\<lparr>vr_table := (vr_table r)[k := v]\<rparr>)
         else Inl Out_Of_Range)"

definition count_v :: "reg_stat \<Rightarrow> 'f vector_registers \<Rightarrow> 'f vector_registers" where
  "count_v st r = r\<lparr>vr_unit := count_reg st (vr_unit r)\<rparr>"

text \<open>The sanity check; the product is unsigned 32-bit arithmetic.\<close>

definition vreg_overflow :: "vector_data \<Rightarrow> bool" where
  "vreg_overflow v \<longleftrightarrow>
     vd_type v \<noteq> VMASK \<and> length (vd_data v) < unat (vd_vlen v * GetPrecision v div 4)"

text \<open>The number of elements of a register group; a width of zero gives infinity or no number, which no length equals.\<close>

definition group_vlen :: "u32 \<Rightarrow> nat \<Rightarrow> rat \<Rightarrow> bool" where
  "group_vlen vlen vsew vlmul \<longleftrightarrow> vsew \<noteq> 0 \<and> of_nat (unat vlen) = 32 * 8 * vlmul / of_nat vsew"

text \<open>The \<^verbatim>\<open>else\<close> of the range check binds to the sanity check, which so runs only on the empty value of an invalid register.\<close>

definition ReadVreg :: "int \<Rightarrow> nat \<Rightarrow> rat \<Rightarrow> 'f vector_registers \<Rightarrow> (vector_data \<times> 'f vector_registers) res" where
  "ReadVreg reg vsew vlmul r =
     (if IsVreg reg (vr_unit r) then
        res_bind (vreg_value reg r) (\<lambda>result.
        if CheckDoubleReg reg (vr_unit r) \<and> \<not> group_vlen (vd_vlen result) vsew vlmul then
          res_bind (vreg_value (the (map_of (ru_double (vr_unit r)) reg)) r) (\<lambda>half.
          res_bind (Append half result) (\<lambda>result. Inr (result, count_v V_READ (count_v V_READ r))))
        else Inr (result, count_v V_READ r))
      else if vreg_overflow new_vector_data then Inl (Runtime_Error ''RegisterUnit::ReadVreg: Overflow Detected!'')
      else Inr (new_vector_data, count_v V_READ r))"

definition WriteVreg :: "int \<Rightarrow> vector_data \<Rightarrow> rat \<Rightarrow> 'f vector_registers \<Rightarrow> 'f vector_registers res" where
  "WriteVreg reg value vlmul r =
     (if vreg_overflow value then Inl (Runtime_Error ''RegisterUnit::WriteVreg: Overflow Detected!'')
      else if IsVreg reg (vr_unit r) then
        if vlmul = 2 \<or> vd_double_reg value then
          res_bind (Split value) (\<lambda>(lo, hi).
          res_bind (set_vreg_value reg lo r) (\<lambda>r.
          case map_of (ru_double (vr_unit r)) reg of
            None \<Rightarrow> Inl (Runtime_Error ''RegisterUnit::Double register not allocated'')
          | Some another \<Rightarrow>
              if another < REG_PV_BASE then Inl (Runtime_Error ''RegisterUnit::Double register not allocated'')
              else res_bind (set_vreg_value another hi r) (\<lambda>r. Inr (count_v V_WRITE (count_v V_WRITE r)))))
        else res_bind (set_vreg_value reg value r) (\<lambda>r. Inr (count_v V_WRITE r))
      else Inl (Runtime_Error ''RegisterUnit::WriteVreg: Invalid register''))"

section \<open>Register pairs\<close>

lemma vreg_range:
  assumes "ru_inv nx nf nv u" "p \<in># bound (ru_v u) \<or> p \<in># regs_of (ru_double u)"
  shows "REG_PV_BASE \<le> p \<and> p < REG_PV_BASE + nv"
proof -
  have "mset (rf_free (ru_v u)) + bound (ru_v u) + regs_of (ru_double u) = mset (phys_regs REG_PV_BASE nv)"
    using assms(1) by (simp add: ru_inv_def v_inv_def)
  then have "p \<in># mset (phys_regs REG_PV_BASE nv)"
    using assms(2) by (metis union_iff)
  then have "p \<in> set (phys_regs REG_PV_BASE nv)"
    by simp
  then show ?thesis
    by (auto simp: phys_regs_def)
qed

lemma double_range:
  assumes "ru_inv nx nf nv u" "map_of (ru_double u) p = Some q"
  shows "REG_PV_BASE \<le> q \<and> q < REG_PV_BASE + nv \<and> q \<noteq> p"
proof -
  have "p \<in> fst ` set (ru_double u)" "q \<in># regs_of (ru_double u)"
    using assms(2) by (force simp: regs_of_member dest: map_of_SomeD)+
  moreover have "fst ` set (ru_double u) \<subseteq> set_mset (bound (ru_v u))"
    "bound (ru_v u) + (mset (rf_free (ru_v u)) + regs_of (ru_double u)) = mset (phys_regs REG_PV_BASE nv)"
    using assms(1) by (auto simp: ru_inv_def v_inv_def ac_simps)
  ultimately show ?thesis
    using vreg_range [OF assms(1), of q] distinct_parts [of "bound (ru_v u)" _ _ p] by fastforce
qed

lemma packet_no_overflow:
  "packet ty v \<Longrightarrow> ty \<in> {INT64, INT32, FLOAT32} \<Longrightarrow> \<not> vreg_overflow v"
  by (auto simp: packet_def vreg_overflow_def type_bits_def GetPrecision_def)

lemma pair_no_overflow:
  assumes "packet ty v" "packet ty w" "ty \<in> {INT64, INT32, FLOAT32}" "vd_type c = ty" "vd_vlen c = vd_vlen v + vd_vlen w"
    "length (vd_data c) = 16"
  shows "\<not> vreg_overflow c"
  using assms by (auto simp: packet_def vreg_overflow_def type_bits_def GetPrecision_def)

lemma set_vreg_value_eq:
  "REG_PV_BASE \<le> p \<Longrightarrow> p < REG_PV_BASE + int (length (vr_table r)) \<Longrightarrow>
    set_vreg_value p v r = Inr (r\<lparr>vr_table := (vr_table r)[nat (p - REG_PV_BASE) := v]\<rparr>)"
  by (auto simp: set_vreg_value_def Let_def)

lemma vreg_value_update:
  assumes "REG_PV_BASE \<le> p" "p < REG_PV_BASE + int (length (vr_table r))"
  shows "vreg_value z (r\<lparr>vr_table := (vr_table r)[nat (p - REG_PV_BASE) := v]\<rparr>) = (if z = p then Inr v else vreg_value z r)"
  using assms by (auto simp: vreg_value_def nth_list_update Let_def nat_eq_iff)

lemma count_v_simps [simp]:
  "vr_table (count_v st r) = vr_table r" "ru_double (vr_unit (count_v st r)) = ru_double (vr_unit r)"
  "IsVreg p (vr_unit (count_v st r)) = IsVreg p (vr_unit r)" "CheckDoubleReg p (vr_unit (count_v st r)) = CheckDoubleReg p (vr_unit r)"
  "vreg_value p (count_v st r) = vreg_value p r"
  by (simp_all add: count_v_def count_reg_def IsVreg_def CheckDoubleReg_def vreg_value_def Let_def)

section \<open>Properties\<close>

text \<open>
  C16. Vector registers hold their values. In a unit whose registers are conserved and whose table has its size, a packet
  written to a bound register of its own is read back. A value of two packets of a full-width type written to a double
  register is read back whole by a context that groups two registers, and its first packet by a context of one
  register; the two halves are in different registers, and no third register changes. Written to a register that owns
  no second one, a value of two packets is refused.
\<close>

theorem vreg_write_read:
  assumes "ru_inv nx nf nv (vr_unit r)" "ru_num_vregs (vr_unit r) = nv" "length (vr_table r) = nat nv"
    and "p \<in># bound (ru_v (vr_unit r))" "packet ty v" "packet ty w" "ty \<in> {INT64, INT32, FLOAT32}"
  shows "(map_of (ru_double (vr_unit r)) p = None \<longrightarrow>
      (\<exists>r'. WriteVreg p v 1 r = Inr r' \<and> (\<exists>r''. ReadVreg p vsew vlmul r' = Inr (v, r'')) \<and>
        (\<forall>z. z \<noteq> p \<longrightarrow> vreg_value z r' = vreg_value z r))) \<and>
    (\<exists>c. Append w v = Inr c \<and>
      (case map_of (ru_double (vr_unit r)) p of
         None \<Rightarrow> WriteVreg p c vlmul r = Inl (Runtime_Error ''RegisterUnit::Double register not allocated'')
       | Some q \<Rightarrow> \<exists>r'. WriteVreg p c vlmul r = Inr r' \<and>
           (\<exists>r''. ReadVreg p (type_bits ty) 2 r' = Inr (c, r'')) \<and> (\<exists>r''. ReadVreg p (type_bits ty) 1 r' = Inr (v, r'')) \<and>
           (\<forall>z. z \<noteq> p \<and> z \<noteq> q \<longrightarrow> vreg_value z r' = vreg_value z r)))"
proof (intro conjI impI)
  have p: "REG_PV_BASE \<le> p" "p < REG_PV_BASE + int (length (vr_table r))" "IsVreg p (vr_unit r)"
    using vreg_range [OF assms(1), of p] assms(2,3,4) by (auto simp: IsVreg_def)
  {
    assume "map_of (ru_double (vr_unit r)) p = None"
    then show "\<exists>r'. WriteVreg p v 1 r = Inr r' \<and> (\<exists>r''. ReadVreg p vsew vlmul r' = Inr (v, r'')) \<and>
        (\<forall>z. z \<noteq> p \<longrightarrow> vreg_value z r' = vreg_value z r)"
      using p packet_no_overflow [OF assms(5,7)] assms(5)
      by (auto simp: WriteVreg_def ReadVreg_def set_vreg_value_eq vreg_value_update packet_def CheckDoubleReg_def)
  next
    obtain c where c: "Append w v = Inr c" "Split c = Inr (v, w)" "vd_type c = ty" "vd_double_reg c"
      "vd_vlen c = vd_vlen v + vd_vlen w" "length (vd_data c) = 16"
      using packets_join [OF assms(5-7)] by blast
    have no: "\<not> vreg_overflow c"
      by (rule pair_no_overflow [OF assms(5-7) c(3,5,6)])
    have g: "\<not> group_vlen (vd_vlen v) (type_bits ty) 2" "group_vlen (vd_vlen v) (type_bits ty) 1"
      using assms(5,7) by (auto simp: group_vlen_def packet_def type_bits_def)
    show "\<exists>c. Append w v = Inr c \<and>
      (case map_of (ru_double (vr_unit r)) p of
         None \<Rightarrow> WriteVreg p c vlmul r = Inl (Runtime_Error ''RegisterUnit::Double register not allocated'')
       | Some q \<Rightarrow> \<exists>r'. WriteVreg p c vlmul r = Inr r' \<and>
           (\<exists>r''. ReadVreg p (type_bits ty) 2 r' = Inr (c, r'')) \<and> (\<exists>r''. ReadVreg p (type_bits ty) 1 r' = Inr (v, r'')) \<and>
           (\<forall>z. z \<noteq> p \<and> z \<noteq> q \<longrightarrow> vreg_value z r' = vreg_value z r))"
    proof (cases "map_of (ru_double (vr_unit r)) p")
      case None
      then show ?thesis
        using c p no by (auto simp: WriteVreg_def set_vreg_value_eq)
    next
      case (Some q)
      let ?r1 = "r\<lparr>vr_table := (vr_table r)[nat (p - REG_PV_BASE) := v]\<rparr>"
      let ?r2 = "?r1\<lparr>vr_table := (vr_table ?r1)[nat (q - REG_PV_BASE) := w]\<rparr>"
      have q: "REG_PV_BASE \<le> q" "q < REG_PV_BASE + int (length (vr_table r))" "q \<noteq> p"
        using double_range [OF assms(1) Some] assms(3) by auto
      have up: "vreg_value z ?r2 = (if z = q then Inr w else if z = p then Inr v else vreg_value z r)" for z
        using vreg_value_update [of q ?r1 z w] vreg_value_update [OF p(1,2), of z v] q by simp
      have w: "WriteVreg p c vlmul r = Inr (count_v V_WRITE (count_v V_WRITE ?r2))"
        using c p no q Some by (simp add: WriteVreg_def set_vreg_value_eq)
      have "CheckDoubleReg p (vr_unit ?r2)" "IsVreg p (vr_unit ?r2)" "map_of (ru_double (vr_unit ?r2)) p = Some q"
        using p Some by (simp_all add: CheckDoubleReg_def)
      then have rd: "\<exists>r''. ReadVreg p (type_bits ty) 2 (count_v V_WRITE (count_v V_WRITE ?r2)) = Inr (c, r'')"
        "\<exists>r''. ReadVreg p (type_bits ty) 1 (count_v V_WRITE (count_v V_WRITE ?r2)) = Inr (v, r'')"
        using up [of p] up [of q] q(3) g c(1) by (simp_all add: ReadVreg_def)
      show ?thesis
        using c(1) Some w rd up by (intro exI [of _ c]) auto
    qed
  }
qed

text \<open>A unit of four vector registers in which packet 7 has renamed its register 1 to a pair.\<close>

definition example_pair :: "u32 vector_registers" where
  "example_pair =
     \<lparr>vr_unit = snd (projr (dest_v 7 (REG_V_BASE + 1) (\<lambda>_. True) (new_register_unit (0::u32) 0 0 0 4))),
      vr_table = replicate 4 new_vector_data\<rparr>"

theorem vreg_write_read_witness:
  "\<exists>c r' r''. Append (SetType INT32 new_vector_data) (SetType INT32 (new_vector_data\<lparr>vd_data := [1, 2, 3, 4, 5, 6, 7, 8]\<rparr>)) = Inr c \<and>
     WriteVreg REG_PV_BASE c 2 example_pair = Inr r' \<and> ReadVreg REG_PV_BASE 32 2 r' = Inr (c, r'')"
proof -
  let ?w = "SetType INT32 new_vector_data" and ?v = "SetType INT32 (new_vector_data\<lparr>vd_data := [1, 2, 3, 4, 5, 6, 7, 8]\<rparr>)"
  let ?u = "vr_unit example_pair"
  have p: "packet INT32 ?v" "packet INT32 ?w"
    by (simp_all add: packet_def SetType_def new_vector_data_def type_bits_def PACKET_ENTRIES_def)
  have "case dest_v 7 (REG_V_BASE + 1) (\<lambda>_. True) (new_register_unit (0::u32) 0 0 0 4) of Inr x \<Rightarrow> fst x = REG_PV_BASE | Inl _ \<Rightarrow> False"
    by code_simp
  then have "dest_v 7 (REG_V_BASE + 1) (\<lambda>_. True) (new_register_unit (0::u32) 0 0 0 4) = Inr (REG_PV_BASE, ?u)"
    by (auto simp: example_pair_def split: sum.splits)
  from dest_v_inv [OF ru_inv_new this] have inv: "ru_inv 0 0 4 ?u"
    by simp
  have facts: "ru_num_vregs ?u = 4" "length (vr_table example_pair) = nat 4" "map_of (ru_double ?u) REG_PV_BASE = Some (REG_PV_BASE + 1)"
    by code_simp+
  then have "REG_PV_BASE \<in># bound (ru_v ?u)"
    using inv by (force simp: ru_inv_def v_inv_def dest: map_of_SomeD)
  from vreg_write_read [OF inv facts(1,2) this p, where vlmul = 2] show ?thesis
    using facts(3) by (auto simp: type_bits_def)
qed

end
