(* ===== verification/Scalar_Execution.thy ===== *)
theory Scalar_Execution
  imports Instruction_Queue Memory_Map Vector_Registers
begin

text \<open>
  \<^verbatim>\<open>src/ndp_instruction.cc\<close>: the execution of scalar and branch instructions on the registers and the memory of a
  context. An execution is a function of the state that fails or returns a result and the new state; \<open>xbind\<close> composes
  executions. The pointers of \<^verbatim>\<open>Context\<close> (registers, control registers, memory, scratchpad) are the fields of the state,
  what is read of it (unit, request) and the floating-point unit are an environment. Floating-point registers hold bit
  patterns. Signed integer arithmetic wraps; a shift by an amount outside the width and a quotient that does not fit are
  undefined in C++ and error values here. The memory is one of the two classes of \<^verbatim>\<open>src/memory_map.h\<close>.
\<close>

section \<open>Memory\<close>

datatype MemoryMap = Hash_Map hash_memory_map | Pointer_Map pointer_memory_map host_memory

record exec_env =
  xe_fp :: fp_ops
  xe_convert :: "vnum \<Rightarrow> num_kind \<Rightarrow> u64"
  xe_compare :: "LogicalOp \<Rightarrow> vnum \<Rightarrow> vnum \<Rightarrow> bool"
  xe_fmod :: "ArithOp \<Rightarrow> u32 \<Rightarrow> u32 \<Rightarrow> u32"
  xe_sqrt :: "vnum \<Rightarrow> num_kind \<Rightarrow> u64"
  xe_abs :: "bool \<Rightarrow> vnum \<Rightarrow> u64"
  xe_hash_float :: "u32 \<Rightarrow> u32"
  xe_ndp_id :: u64
  xe_request :: request_info

definition mm_load :: "exec_env \<Rightarrow> u64 \<Rightarrow> MemoryMap \<Rightarrow> vector_data res" where
  "mm_load e addr m =
     (case m of Hash_Map h \<Rightarrow> hm_load (xe_hash_float e) addr h | Pointer_Map p host \<Rightarrow> pm_load (xe_fp e) host addr p)"

definition mm_store :: "exec_env \<Rightarrow> u64 \<Rightarrow> vector_data \<Rightarrow> MemoryMap \<Rightarrow> MemoryMap res" where
  "mm_store e addr v m =
     (case m of
        Hash_Map h \<Rightarrow> res_bind (hm_store addr v h) (\<lambda>h. Inr (Hash_Map h))
      | Pointer_Map p host \<Rightarrow> res_bind (pm_store (xe_fp e) addr v p host) (\<lambda>host. Inr (Pointer_Map p host)))"

definition mm_check_addr :: "u64 \<Rightarrow> MemoryMap \<Rightarrow> bool" where
  "mm_check_addr addr m = (case m of Hash_Map h \<Rightarrow> hm_check_addr addr h | Pointer_Map p _ \<Rightarrow> pm_check_addr addr p)"

section \<open>Executions\<close>

record csr =
  csr_pc :: int
  csr_block :: bool
  csr_vstart :: int
  csr_vsew :: nat
  csr_vlmul :: rat

record exec_state =
  xs_regs :: "u32 vector_registers"
  xs_csr :: csr
  xs_memory :: MemoryMap
  xs_scratchpad :: MemoryMap

type_synonym 'a exec = "exec_state \<Rightarrow> ('a \<times> exec_state) res"

definition xbind :: "'a exec \<Rightarrow> ('a \<Rightarrow> 'b exec) \<Rightarrow> 'b exec" where
  "xbind m f s = res_bind (m s) (\<lambda>(x, s). f x s)"

definition xret :: "'a \<Rightarrow> 'a exec" where
  "xret x s = Inr (x, s)"

definition xlift :: "'a res \<Rightarrow> 'a exec" where
  "xlift r s = res_bind r (\<lambda>x. Inr (x, s))"

definition throw :: "string \<Rightarrow> 'a exec" where
  "throw msg = xlift (Inl (Runtime_Error msg))"

fun xfold :: "('a \<Rightarrow> 'b \<Rightarrow> 'a exec) \<Rightarrow> 'a \<Rightarrow> 'b list \<Rightarrow> 'a exec" where
  "xfold f a [] = xret a"
| "xfold f a (x # xs) = xbind (f a x) (\<lambda>a. xfold f a xs)"

definition get_csr :: "csr exec" where
  "get_csr s = Inr (xs_csr s, s)"

definition set_csr :: "(csr \<Rightarrow> csr) \<Rightarrow> unit exec" where
  "set_csr g s = Inr ((), s\<lparr>xs_csr := g (xs_csr s)\<rparr>)"

definition upd_regs :: "u32 register_unit \<Rightarrow> exec_state \<Rightarrow> exec_state" where
  "upd_regs u s = s\<lparr>xs_regs := (xs_regs s)\<lparr>vr_unit := u\<rparr>\<rparr>"

definition read_xreg :: "exec_env \<Rightarrow> int \<Rightarrow> u64 exec" where
  "read_xreg e reg s =
     res_bind (ReadXreg reg (xe_ndp_id e) (xe_request e) (vr_unit (xs_regs s))) (\<lambda>(v, u). Inr (v, upd_regs u s))"

definition write_xreg :: "int \<Rightarrow> u64 \<Rightarrow> unit exec" where
  "write_xreg reg v s = res_bind (WriteXreg reg v (vr_unit (xs_regs s))) (\<lambda>u. Inr ((), upd_regs u s))"

definition read_freg :: "int \<Rightarrow> u32 exec" where
  "read_freg reg s = res_bind (ReadFreg reg (vr_unit (xs_regs s))) (\<lambda>(v, u). Inr (v, upd_regs u s))"

definition write_freg :: "int \<Rightarrow> u32 \<Rightarrow> unit exec" where
  "write_freg reg v s = res_bind (WriteFreg reg v (vr_unit (xs_regs s))) (\<lambda>u. Inr ((), upd_regs u s))"

text \<open>\<^verbatim>\<open>VectorData(context)\<close>.\<close>

definition new_vector :: "vector_data exec" where
  "new_vector s = Inr (new_vector_data_context (csr_vsew (xs_csr s)) (csr_vlmul (xs_csr s)), s)"

text \<open>\<^verbatim>\<open>GetMemoryMap\<close>, \<^verbatim>\<open>MemoryMapLoad\<close>, \<^verbatim>\<open>MemoryMapStore\<close> and \<^verbatim>\<open>CheckMemoryMap\<close>.\<close>

definition GetMemoryMap :: "u64 \<Rightarrow> exec_state \<Rightarrow> MemoryMap" where
  "GetMemoryMap addr s = (if CheckScratchpad addr then xs_scratchpad s else xs_memory s)"

definition MemoryMapLoad :: "exec_env \<Rightarrow> u64 \<Rightarrow> vector_data exec" where
  "MemoryMapLoad e addr s =
     (let addr = FormatAddr addr in res_bind (mm_load e addr (GetMemoryMap addr s)) (\<lambda>v. Inr (v, s)))"

definition MemoryMapStore :: "exec_env \<Rightarrow> u64 \<Rightarrow> vector_data \<Rightarrow> unit exec" where
  "MemoryMapStore e addr v s =
     (let addr = FormatAddr addr
      in res_bind (mm_store e addr v (GetMemoryMap addr s)) (\<lambda>m.
         Inr ((), if CheckScratchpad addr then s\<lparr>xs_scratchpad := m\<rparr> else s\<lparr>xs_memory := m\<rparr>)))"

definition CheckMemoryMap :: "u64 \<Rightarrow> bool exec" where
  "CheckMemoryMap addr s = (let addr = FormatAddr addr in Inr (mm_check_addr addr (GetMemoryMap addr s), s))"

text \<open>The packet at an address, or a new vector where there is none.\<close>

definition load_or_new :: "exec_env \<Rightarrow> u64 \<Rightarrow> vector_data exec" where
  "load_or_new e addr =
     xbind new_vector (\<lambda>v. xbind (CheckMemoryMap addr) (\<lambda>b. if b then MemoryMapLoad e addr else xret v))"

section \<open>Numbers\<close>

text \<open>Conversion of a number to another kind; what involves floating-point numbers is in the environment.\<close>

definition convert :: "exec_env \<Rightarrow> num_kind \<Rightarrow> vnum \<Rightarrow> vnum" where
  "convert e k n =
     (if num_kind_of n = k then n
      else if is_fp n \<or> k = K_F32 \<or> k = K_F16 then make_num k (xe_convert e n k)
      else make_num k (word_of_int (num_int n)))"

definition to_u64 :: "vnum \<Rightarrow> u64" where
  "to_u64 n = (case n of N_I64 x \<Rightarrow> x | _ \<Rightarrow> word_of_int (num_int n))"

definition float_bits :: "vnum \<Rightarrow> u32" where
  "float_bits n = (case n of N_F32 x \<Rightarrow> x | _ \<Rightarrow> 0)"

definition half_bits :: "vnum \<Rightarrow> u16" where
  "half_bits n = (case n of N_F16 x \<Rightarrow> x | _ \<Rightarrow> 0)"

definition float_arith :: "exec_env \<Rightarrow> vec_op \<Rightarrow> u32 \<Rightarrow> u32 \<Rightarrow> u32" where
  "float_arith e op a b = ucast (fp_arith (xe_fp e) op (N_F32 a) (N_F32 b) K_F32)"

definition trunc_rem :: "int \<Rightarrow> int \<Rightarrow> int" where
  "trunc_rem a b = a - b * trunc_div a b"

definition shift_left :: "nat \<Rightarrow> int \<Rightarrow> int \<Rightarrow> int res" where
  "shift_left w a n = (if 0 \<le> n \<and> n < int w then Inr (a * 2 ^ nat n) else Inl Out_Of_Range)"

definition shift_right :: "nat \<Rightarrow> int \<Rightarrow> int \<Rightarrow> int res" where
  "shift_right w a n = (if 0 \<le> n \<and> n < int w then Inr (a div 2 ^ nat n) else Inl Out_Of_Range)"

text \<open>
  The element of a packet that a signed address selects, for elements of \<open>w\<close> bytes; the code divides and
  takes the remainder in signed arithmetic, so that a negative address may select a negative index.
\<close>

definition packet_index :: "u64 \<Rightarrow> int \<Rightarrow> nat res" where
  "packet_index addr w =
     (let i = trunc_div (trunc_rem (sint addr) 32) w in if i < 0 then Inl Out_Of_Range else Inr (nat i))"

section \<open>Scalar instructions\<close>

definition alu_op :: "scalar_opcode \<Rightarrow> int \<Rightarrow> int \<Rightarrow> int res" where
  "alu_op op a b =
     (if op \<in> set [ADD, ADDI] then Inr (a + b)
      else if op = SUB then Inr (a - b)
      else if op \<in> set [MUL, MULI] then Inr (a * b)
      else if op \<in> set [SLL, SLLI] then shift_left 64 a b
      else if op \<in> set [SRL, SRLI] then shift_right 64 a b
      else if op \<in> set [DIV, REM] then
        if b = 0 \<or> a = - (2 ^ 63) \<and> b = - 1 then Inl Div_By_Zero
        else Inr (if op = DIV then trunc_div a b else trunc_rem a b)
      else if op \<in> set [AND_op, ANDI] then Inr (a AND b)
      else Inr (a OR b))"

definition alu_ops :: "scalar_opcode list" where
  "alu_ops = [ADD, SUB, MUL, SLL, SRL, DIV, REM, AND_op, OR_op]"

definition alu_imm_ops :: "scalar_opcode list" where
  "alu_imm_ops = [ADDI, MULI, SLLI, SRLI, ANDI, ORI]"

definition exec_alu :: "exec_env \<Rightarrow> scalar_opcode \<Rightarrow> ndp_instruction \<Rightarrow> unit exec" where
  "exec_alu e op inst =
     xbind (read_xreg e (src inst ! 0)) (\<lambda>rs1.
     xbind (if op \<in> set alu_ops then read_xreg e (src inst ! 1) else xret (word_of_int (src inst ! 1))) (\<lambda>rs2.
     xbind (xlift (alu_op op (sint rs1) (sint rs2))) (\<lambda>r.
     write_xreg (dest inst) (word_of_int r))))"

definition REG_VSTART :: int where "REG_VSTART = SPCIAL_REG_START + 5"

definition exec_csr :: "exec_env \<Rightarrow> scalar_opcode \<Rightarrow> ndp_instruction \<Rightarrow> unit exec" where
  "exec_csr e op inst =
     (if op = CSRWI then
        if dest inst = REG_VSTART then set_csr (\<lambda>c. c\<lparr>csr_vstart := src inst ! 0\<rparr>) else xret ()
      else if dest inst = REG_VSTART then
        xbind (read_xreg e (src inst ! 0)) (\<lambda>v. set_csr (\<lambda>c. c\<lparr>csr_vstart := sint (ucast v :: u32)\<rparr>))
      else throw ''Not supported instruction yet.'')"

text \<open>The address of a load or store.\<close>

definition effective_addr :: "exec_env \<Rightarrow> ndp_instruction \<Rightarrow> u64 exec" where
  "effective_addr e inst = xbind (read_xreg e (src inst ! 0)) (\<lambda>a. xret (a + word_of_int (src inst ! 1)))"

definition exec_lw :: "exec_env \<Rightarrow> ndp_instruction \<Rightarrow> unit exec" where
  "exec_lw e inst =
     xbind (effective_addr e inst) (\<lambda>addr.
     xbind (MemoryMapLoad e addr) (\<lambda>vs.
     xbind (xlift (packet_index addr 4)) (\<lambda>i.
     xbind (xlift (assert_that (vd_type vs = INT32) ''vs.GetType() == INT32'')) (\<lambda>_.
     xbind (xlift (GetIntData i vs)) (\<lambda>d.
     write_xreg (dest inst) (scast d))))))"

definition exec_ld :: "exec_env \<Rightarrow> ndp_instruction \<Rightarrow> unit exec" where
  "exec_ld e inst =
     xbind (effective_addr e inst) (\<lambda>addr.
     xbind (MemoryMapLoad e addr) (\<lambda>vs.
     xbind (xlift (assert_that (vd_type vs = INT64) ''vs.GetType() == INT64'')) (\<lambda>_.
     xbind (xlift (GetLongData (unat ((addr - FormatAddr addr) div 8)) vs)) (\<lambda>d.
     write_xreg (dest inst) d))))"

text \<open>\<^verbatim>\<open>lbu\<close> reads no memory: it sign-extends the low byte of its first source.\<close>

definition exec_lbu :: "exec_env \<Rightarrow> ndp_instruction \<Rightarrow> unit exec" where
  "exec_lbu e inst =
     xbind (read_xreg e (src inst ! 0)) (\<lambda>v. write_xreg (dest inst) (scast (ucast v :: u8)))"

definition exec_sb :: "exec_env \<Rightarrow> ndp_instruction \<Rightarrow> unit exec" where
  "exec_sb e inst =
     xbind (read_xreg e (dest inst)) (\<lambda>x.
     xbind (effective_addr e inst) (\<lambda>addr.
     let packet = word_of_int (trunc_div (sint addr) 32 * 32)
     in xbind (load_or_new e packet) (\<lambda>vs.
        xbind (xlift (packet_index addr 1)) (\<lambda>i.
        xbind (xlift (SetU8 (ucast x) i vs)) (\<lambda>vs.
        MemoryMapStore e packet vs)))))"

definition exec_sw :: "exec_env \<Rightarrow> ndp_instruction \<Rightarrow> unit exec" where
  "exec_sw e inst =
     xbind (read_xreg e (dest inst)) (\<lambda>x.
     xbind (effective_addr e inst) (\<lambda>addr.
     xbind (load_or_new e addr) (\<lambda>vs.
     xbind (xlift (packet_index addr 4)) (\<lambda>i.
     xbind (xlift (SetInt (ucast x) i vs)) (\<lambda>vs.
     MemoryMapStore e addr vs)))))"

definition exec_sd :: "exec_env \<Rightarrow> ndp_instruction \<Rightarrow> unit exec" where
  "exec_sd e inst =
     xbind (read_xreg e (dest inst)) (\<lambda>x.
     xbind (effective_addr e inst) (\<lambda>addr.
     xbind (load_or_new e addr) (\<lambda>vs.
     xbind (xlift (packet_index addr 8)) (\<lambda>i.
     xbind (xlift (SetLong x i vs)) (\<lambda>vs.
     MemoryMapStore e addr vs)))))"

definition exec_float :: "exec_env \<Rightarrow> vec_op \<Rightarrow> ndp_instruction \<Rightarrow> unit exec" where
  "exec_float e op inst =
     xbind (read_freg (src inst ! 0)) (\<lambda>a.
     xbind (read_freg (src inst ! 1)) (\<lambda>b.
     write_freg (dest inst) (float_arith e op a b)))"

definition exec_fmv :: "exec_env \<Rightarrow> ndp_instruction \<Rightarrow> unit exec" where
  "exec_fmv e inst =
     (if operand_type inst = OT_X_W then
        xbind (read_freg (src inst ! 0)) (\<lambda>a. write_xreg (dest inst) (to_u64 (convert e K_I32 (N_F32 a))))
      else if operand_type inst = OT_W_X then
        xbind (read_xreg e (src inst ! 0)) (\<lambda>a. write_freg (dest inst) (float_bits (convert e K_F32 (N_I64 a))))
      else xret ())"

definition exec_flw :: "exec_env \<Rightarrow> ndp_instruction \<Rightarrow> unit exec" where
  "exec_flw e inst =
     xbind (effective_addr e inst) (\<lambda>addr.
     xbind (MemoryMapLoad e addr) (\<lambda>vs.
     xbind (xlift (packet_index addr 4)) (\<lambda>i.
     xbind (xlift (assert_that (vd_type vs = FLOAT32) ''vs.GetType() == FLOAT32'')) (\<lambda>_.
     xbind (xlift (GetFloatData i vs)) (\<lambda>d.
     write_freg (dest inst) d)))))"

definition exec_fsw :: "exec_env \<Rightarrow> ndp_instruction \<Rightarrow> unit exec" where
  "exec_fsw e inst =
     xbind (read_freg (dest inst)) (\<lambda>x.
     xbind (effective_addr e inst) (\<lambda>addr.
     xbind (load_or_new e addr) (\<lambda>vs.
     xbind (xlift (packet_index addr 4)) (\<lambda>i.
     xbind (xlift (SetFloat x i vs)) (\<lambda>vs.
     MemoryMapStore e addr vs)))))"

text \<open>The sum goes through an \<^verbatim>\<open>int\<close> also for doubles, and is stored as a word at the element index of the operand size.\<close>

definition exec_amoadd :: "exec_env \<Rightarrow> ndp_instruction \<Rightarrow> unit exec" where
  "exec_amoadd e inst =
     xbind (read_xreg e (src inst ! 2)) (\<lambda>addr.
     xbind (load_or_new e addr) (\<lambda>vd.
     xbind
       (if operand_type inst = OT_W then
          xbind (xlift (packet_index addr 4)) (\<lambda>i. xbind (xlift (GetIntData i vd)) (\<lambda>d. xret (i, scast d)))
        else if operand_type inst = OT_D then
          xbind (xlift (packet_index addr 8)) (\<lambda>i. xbind (xlift (GetLongData i vd)) (\<lambda>d. xret (i, d)))
        else throw ''Unsupported scalar instruction'') (\<lambda>(i, old).
     xbind (read_xreg e (src inst ! 1)) (\<lambda>x.
     let value = (ucast (old + x) :: u32)
     in xbind (xlift (SetInt value i vd)) (\<lambda>vd.
        xbind (MemoryMapStore e addr vd) (\<lambda>_.
        write_xreg (dest inst) (scast value)))))))"

text \<open>The sum of a half and the register, in single precision.\<close>

definition add_half :: "exec_env \<Rightarrow> ndp_instruction \<Rightarrow> u64 \<Rightarrow> vector_data \<Rightarrow> (u32 \<times> vector_data) exec" where
  "add_half e inst addr vd =
     xbind (xlift (packet_index addr 2)) (\<lambda>i.
     xbind (xlift (GetHalfData (xe_fp e) i vd)) (\<lambda>h.
     xbind (read_freg (src inst ! 1)) (\<lambda>x.
     let value = (ucast (fp_arith (xe_fp e) Plus (N_F16 h) (N_F32 x) K_F32) :: u32)
     in xbind (xlift (SetHalf (xe_fp e) (half_bits (convert e K_F16 (N_F32 value))) i vd)) (\<lambda>vd. xret (value, vd)))))"

definition exec_famoadd :: "exec_env \<Rightarrow> bool \<Rightarrow> ndp_instruction \<Rightarrow> unit exec" where
  "exec_famoadd e word inst =
     xbind (read_xreg e (src inst ! 2)) (\<lambda>addr.
     xbind (load_or_new e addr) (\<lambda>vd.
     xbind
       (if word then
          xbind (xlift (packet_index addr 4)) (\<lambda>i.
          xbind (xlift (GetFloatData i vd)) (\<lambda>d.
          xbind (read_freg (src inst ! 1)) (\<lambda>x.
          let value = float_arith e Plus d x
          in xbind (xlift (SetFloat value i vd)) (\<lambda>vd. xret (value, vd)))))
        else add_half e inst addr vd) (\<lambda>(value, vd).
     xbind (MemoryMapStore e addr vd) (\<lambda>_.
     write_freg (dest inst) value))))"

definition exec_fexp :: "exec_env \<Rightarrow> ndp_instruction \<Rightarrow> unit exec" where
  "exec_fexp e inst =
     xbind (read_freg (src inst ! 0)) (\<lambda>a. write_freg (dest inst) (ucast (fp_exp (xe_fp e) (N_F32 a) K_F32)))"

definition ExecuteScalar :: "exec_env \<Rightarrow> ndp_instruction \<Rightarrow> unit exec" where
  "ExecuteScalar e inst =
     (case opcode inst of
        Scalar op \<Rightarrow>
          if op \<in> set alu_ops \<or> op \<in> set alu_imm_ops then exec_alu e op inst
          else if op = CSRWI \<or> op = CSRW then exec_csr e op inst
          else if op = LI then write_xreg (dest inst) (word_of_int (src inst ! 0))
          else if op = LW then exec_lw e inst
          else if op = LD then exec_ld e inst
          else if op = LBU then exec_lbu e inst
          else if op = SB then exec_sb e inst
          else if op = SW then exec_sw e inst
          else if op = SD then exec_sd e inst
          else if op = FADD then exec_float e Plus inst
          else if op = FSUB then exec_float e Minus inst
          else if op = FDIV then exec_float e Divide inst
          else if op = FMUL then exec_float e Times inst
          else if op = FMV then exec_fmv e inst
          else if op = FLW then exec_flw e inst
          else if op = FSW then exec_fsw e inst
          else throw ''Unsupported scalar instruction''
      | Vmem AMOADD \<Rightarrow> exec_amoadd e inst
      | Vmem FAMOADD \<Rightarrow> exec_famoadd e (operand_type inst = OT_W) inst
      | Vmem FAMOADDH \<Rightarrow> exec_famoadd e False inst
      | Vmem AMOMAX \<Rightarrow> xret ()
      | Special FEXP \<Rightarrow> exec_fexp e inst
      | _ \<Rightarrow> throw ''Unsupported scalar instruction'')"

section \<open>Branches\<close>

definition branch_op :: "branch_opcode \<Rightarrow> LogicalOp" where
  "branch_op op =
     (if op \<in> set [BEQZ, BEQ] then EQ else if op \<in> set [BLTZ, BLT] then LT else if op \<in> set [BGTZ, BGT] then GT
      else if op \<in> set [BLEZ, BLE] then LE else if op \<in> set [BGEZ, BGE] then GE else NE)"

definition ExecuteBranch :: "exec_env \<Rightarrow> ndp_instruction \<Rightarrow> ndp_instruction exec" where
  "ExecuteBranch e inst =
     (case opcode inst of
        Branch op \<Rightarrow>
          if op = J then xret (inst\<lparr>doBranch := True\<rparr>)
          else
            xbind (read_xreg e (src inst ! 0)) (\<lambda>lhs.
            xbind (if op \<in> set [BEQ, BLT, BGT, BLE, BGE, BNE] then read_xreg e (src inst ! 1) else xret 0) (\<lambda>rhs.
            xret (inst\<lparr>doBranch := logical_operate (branch_op op) (sint lhs) (sint rhs)\<rparr>)))
      | _ \<Rightarrow> throw ''Unsupported branch instruction'')"

text \<open>\<^verbatim>\<open>IsBranch\<close>: the key of the target of a taken branch.\<close>

definition IsBranch :: "ndp_instruction \<Rightarrow> int" where
  "IsBranch inst = (if CheckBranchOp inst \<and> doBranch inst then src inst ! 2 else - 1)"

section \<open>What an execution leaves alone\<close>

text \<open>
  An execution writes register values, memory, the vector configuration and statistics. The renaming, the busy
  registers, the program counter and the block flag of the column stay as they are. The rules compose along \<open>xbind\<close>.
\<close>

named_theorems frame_intros "executions that keep the state they do not write"

definition reg_frame :: "'f register_unit \<Rightarrow> 'f register_unit \<Rightarrow> bool" where
  "reg_frame u u' \<longleftrightarrow>
     u' = u\<lparr>ru_xreg_table := ru_xreg_table u', ru_freg_table := ru_freg_table u', ru_stats := ru_stats u'\<rparr> \<and>
     length (ru_xreg_table u') = length (ru_xreg_table u) \<and> length (ru_freg_table u') = length (ru_freg_table u)"

definition frame :: "exec_state \<Rightarrow> exec_state \<Rightarrow> bool" where
  "frame s s' \<longleftrightarrow>
     reg_frame (vr_unit (xs_regs s)) (vr_unit (xs_regs s')) \<and> length (vr_table (xs_regs s')) = length (vr_table (xs_regs s)) \<and>
     csr_pc (xs_csr s') = csr_pc (xs_csr s) \<and> csr_block (xs_csr s') = csr_block (xs_csr s)"

definition preserves :: "'a exec \<Rightarrow> bool" where
  "preserves m \<longleftrightarrow> (\<forall>s x s'. m s = Inr (x, s') \<longrightarrow> frame s s')"

lemma reg_frame_refl [simp]: "reg_frame u u"
  by (simp add: reg_frame_def)

lemma reg_frame_trans: "reg_frame u v \<Longrightarrow> reg_frame v w \<Longrightarrow> reg_frame u w"
  unfolding reg_frame_def by (cases u; cases v; cases w) simp

lemma reg_frame_files:
  assumes "reg_frame u u'"
  shows "ru_x u' = ru_x u" "ru_f u' = ru_f u" "ru_v u' = ru_v u" "ru_double u' = ru_double u"
    "ru_after_rename u' = ru_after_rename u" "ru_not_ready u' = ru_not_ready u"
proof -
  obtain xt ft st where "u' = u\<lparr>ru_xreg_table := xt, ru_freg_table := ft, ru_stats := st\<rparr>"
    using assms unfolding reg_frame_def by blast
  then show "ru_x u' = ru_x u" "ru_f u' = ru_f u" "ru_v u' = ru_v u" "ru_double u' = ru_double u"
    "ru_after_rename u' = ru_after_rename u" "ru_not_ready u' = ru_not_ready u"
    by simp_all
qed

lemma frame_refl [simp]: "frame s s"
  by (simp add: frame_def)

lemma frame_trans: "frame s t \<Longrightarrow> frame t u \<Longrightarrow> frame s u"
  unfolding frame_def using reg_frame_trans by (metis (no_types, lifting))

lemma reg_frame_count [simp]: "reg_frame u (count_reg st u)"
  by (simp add: reg_frame_def count_reg_def)

lemma reg_frame_count_trans: "reg_frame u v \<Longrightarrow> reg_frame u (count_reg st v)"
  by (rule reg_frame_trans [OF _ reg_frame_count])

lemma preservesI: "(\<And>s x s'. m s = Inr (x, s') \<Longrightarrow> frame s s') \<Longrightarrow> preserves m"
  by (simp add: preserves_def)

lemma preserves_bind [frame_intros]: "preserves m \<Longrightarrow> (\<And>x. preserves (f x)) \<Longrightarrow> preserves (xbind m f)"
  unfolding preserves_def xbind_def by (fastforce simp: res_simps dest: frame_trans)

lemma preserves_ret [frame_intros]: "preserves (xret x)"
  by (simp add: preserves_def xret_def)

lemma preserves_lift [frame_intros]: "preserves (xlift r)"
  by (auto simp: preserves_def xlift_def res_simps)

lemma preserves_throw [frame_intros]: "preserves (throw msg)"
  by (simp add: throw_def preserves_lift)

lemma preserves_fold [frame_intros]: "(\<And>a x. preserves (f a x)) \<Longrightarrow> preserves (xfold f a xs)"
  by (induction xs arbitrary: a) (auto intro: frame_intros)

lemma preserves_if [frame_intros]: "preserves m \<Longrightarrow> preserves m' \<Longrightarrow> preserves (if b then m else m')"
  by simp

lemma preserves_let [frame_intros]: "(\<And>y. preserves (f y)) \<Longrightarrow> preserves (Let x f)"
  by simp

lemma preserves_prod [frame_intros]: "(\<And>a b. preserves (f a b)) \<Longrightarrow> preserves (case p of (a, b) \<Rightarrow> f a b)"
  by (cases p) simp

lemma preserves_option [frame_intros]:
  "preserves m \<Longrightarrow> (\<And>a. preserves (f a)) \<Longrightarrow> preserves (case p of None \<Rightarrow> m | Some a \<Rightarrow> f a)"
  by (cases p) simp_all

lemma preserves_csr [frame_intros]: "preserves get_csr"
  by (simp add: preserves_def get_csr_def)

lemma preserves_set_csr [frame_intros]:
  "preserves (set_csr (\<lambda>c. c\<lparr>csr_vstart := n c\<rparr>))" "preserves (set_csr (\<lambda>c. c\<lparr>csr_vsew := w\<rparr>))" "preserves (set_csr (\<lambda>c. c\<lparr>csr_vlmul := m\<rparr>))"
  by (simp_all add: preserves_def set_csr_def frame_def)

lemma preserves_regs [frame_intros]:
  "preserves (read_xreg e reg)" "preserves (write_xreg reg x)" "preserves (read_freg reg)" "preserves (write_freg reg f)"
  by (auto simp: preserves_def read_xreg_def write_xreg_def read_freg_def write_freg_def ReadXreg_def WriteXreg_def ReadFreg_def WriteFreg_def
      upd_regs_def frame_def res_simps split: if_splits intro!: reg_frame_count_trans) (simp_all add: reg_frame_def)

lemma preserves_new_vector [frame_intros]: "preserves new_vector"
  by (simp add: preserves_def new_vector_def)

lemma preserves_memory [frame_intros]:
  "preserves (MemoryMapLoad e addr)" "preserves (MemoryMapStore e addr v)" "preserves (CheckMemoryMap addr)"
  by (auto simp: preserves_def MemoryMapLoad_def MemoryMapStore_def CheckMemoryMap_def frame_def Let_def res_simps)

lemma preserves_load_or_new [frame_intros]: "preserves (load_or_new e addr)" "preserves (effective_addr e inst)"
  unfolding load_or_new_def effective_addr_def by (intro frame_intros)+

lemma preserves_scalar [frame_intros]: "preserves (ExecuteScalar e inst)"
proof -
  have "preserves (exec_alu e op inst)" "preserves (exec_csr e op inst)" "preserves (exec_float e vop inst)" "preserves (exec_famoadd e b inst)" for op vop b
    unfolding exec_alu_def exec_csr_def exec_float_def exec_famoadd_def add_half_def by (intro frame_intros)+
  moreover have "preserves (exec_lw e inst)" "preserves (exec_ld e inst)" "preserves (exec_lbu e inst)" "preserves (exec_sb e inst)"
    "preserves (exec_sw e inst)" "preserves (exec_sd e inst)" "preserves (exec_fmv e inst)" "preserves (exec_flw e inst)"
    "preserves (exec_fsw e inst)" "preserves (exec_amoadd e inst)" "preserves (exec_fexp e inst)"
    unfolding exec_lw_def exec_ld_def exec_lbu_def exec_sb_def exec_sw_def exec_sd_def exec_fmv_def exec_flw_def exec_fsw_def exec_amoadd_def exec_fexp_def
    by (intro frame_intros)+
  ultimately show ?thesis
    unfolding ExecuteScalar_def
    by (cases "opcode inst") (auto intro: frame_intros split: vmem_opcode.splits special_opcode.splits)
qed

lemma preserves_branch [frame_intros]: "preserves (ExecuteBranch e inst)"
  unfolding ExecuteBranch_def by (cases "opcode inst") (simp_all add: frame_intros)

text \<open>An environment without floating-point arithmetic.\<close>

definition example_env :: exec_env where
  "example_env =
     \<lparr>xe_fp = id_fp, xe_convert = (\<lambda>_ _. 0), xe_compare = (\<lambda>_ _ _. False), xe_fmod = (\<lambda>_ _ _. 0), xe_sqrt = (\<lambda>_ _. 0), xe_abs = (\<lambda>_ _. 0),
      xe_hash_float = (\<lambda>_. 0), xe_ndp_id = 0,
      xe_request = \<lparr>ri_type = KERNEL_BODY, ri_id = 0, ri_launch_id = 0, ri_kernel_id = 0, ri_kernel_body_id = 0, ri_addr = 0x1000, ri_offset = 0\<rparr>\<rparr>"

end
