(* ===== verification/Vector_Lanes.thy ===== *)
theory Vector_Lanes
  imports Scalar_Execution
begin

text \<open>
  \<^verbatim>\<open>ExecuteVector\<close> of \<^verbatim>\<open>src/ndp_instruction.cc\<close>: what the loops over the lanes of a vector compute, as functions on vector
  values. A loop starts at \<^verbatim>\<open>vstart\<close>; its counter is compared with an unsigned length, so that a negative start runs no
  lane. An argument of type \<^verbatim>\<open>int8_t\<close> or \<^verbatim>\<open>uint16_t\<close> of the overloaded \<^verbatim>\<open>SetData\<close> is promoted to \<^verbatim>\<open>int\<close> and
  stored as a word.
\<close>

section \<open>Lanes and elements\<close>

definition lanes :: "int \<Rightarrow> nat \<Rightarrow> nat list" where
  "lanes vstart n = (if vstart < 0 then [] else [nat vstart..<n])"

definition vlen_of :: "vector_data \<Rightarrow> nat" where
  "vlen_of v = unat (vd_vlen v)"

definition for_lanes :: "int \<Rightarrow> nat \<Rightarrow> (vector_data \<Rightarrow> nat \<Rightarrow> vector_data res) \<Rightarrow> vector_data \<Rightarrow> vector_data res" where
  "for_lanes vstart n put vd = res_foldl put vd (lanes vstart n)"

text \<open>Integer elements by their value, and the conversion of a number to an integer type.\<close>

definition elem_int :: "DataType \<Rightarrow> nat \<Rightarrow> vector_data \<Rightarrow> int res" where
  "elem_int ty i v =
     (case ty of
        INT64 \<Rightarrow> res_bind (GetLongData i v) (\<lambda>x. Inr (sint x))
      | INT32 \<Rightarrow> res_bind (GetIntData i v) (\<lambda>x. Inr (sint x))
      | INT16 \<Rightarrow> res_bind (GetShortData i v) (\<lambda>x. Inr (sint x))
      | CHAR8 \<Rightarrow> res_bind (GetCharData i v) (\<lambda>x. Inr (sint x))
      | UINT8 \<Rightarrow> res_bind (GetU8Data i v) (\<lambda>x. Inr (uint x))
      | BOOL \<Rightarrow> res_bind (GetBoolData i v) (\<lambda>b. Inr (bool_int b))
      | _ \<Rightarrow> Inl (Runtime_Error ''Unsupported type.''))"

definition cast_int :: "DataType \<Rightarrow> int \<Rightarrow> int" where
  "cast_int ty x =
     (case ty of
        INT64 \<Rightarrow> sint (word_of_int x :: u64)
      | INT32 \<Rightarrow> sint (word_of_int x :: u32)
      | INT16 \<Rightarrow> sint (word_of_int x :: u16)
      | CHAR8 \<Rightarrow> sint (word_of_int x :: u8)
      | UINT8 \<Rightarrow> uint (word_of_int x :: u8)
      | _ \<Rightarrow> bool_int (x \<noteq> 0))"

text \<open>Copying an element, and storing a 64-bit integer at a type.\<close>

definition copy_elem :: "fp_ops \<Rightarrow> DataType \<Rightarrow> vector_data \<Rightarrow> nat \<Rightarrow> nat \<Rightarrow> vector_data \<Rightarrow> vector_data res" where
  "copy_elem fp ty vs i j vd =
     (if ty = CHAR8 then res_bind (GetCharData i vs) (\<lambda>x. SetChar x j vd)
      else case type_kind ty of
             Some k \<Rightarrow> res_bind (get_num fp k i vs) (\<lambda>n. set_num fp n j vd)
           | None \<Rightarrow> Inr vd)"

definition put_int :: "exec_env \<Rightarrow> DataType \<Rightarrow> u64 \<Rightarrow> nat \<Rightarrow> vector_data \<Rightarrow> vector_data res" where
  "put_int e ty x j vd =
     (if ty = CHAR8 then SetChar (ucast x) j vd
      else case type_kind ty of Some k \<Rightarrow> set_num (xe_fp e) (convert e k (N_I64 x)) j vd | None \<Rightarrow> Inr vd)"

section \<open>Shifts and narrowing\<close>

definition shift_lane ::
  "(nat \<Rightarrow> int \<Rightarrow> int \<Rightarrow> int res) \<Rightarrow> vector_data \<Rightarrow> (nat \<Rightarrow> int res) \<Rightarrow> vector_data \<Rightarrow> nat \<Rightarrow> vector_data res" where
  "shift_lane shift vs2 amount vd i =
     (let shifted = (\<lambda>w. res_bind (elem_int (vd_type vs2) i vs2) (\<lambda>a. res_bind (amount i) (shift w a)))
      in case vd_type vs2 of
           INT64 \<Rightarrow> res_bind (shifted 64) (\<lambda>r. SetLong (word_of_int r) i vd)
         | INT32 \<Rightarrow> res_bind (shifted 32) (\<lambda>r. SetInt (word_of_int r) i vd)
         | INT16 \<Rightarrow> res_bind (shifted 32) (\<lambda>r. SetShort (word_of_int r) i vd)
         | _ \<Rightarrow> Inr vd)"

definition srl_lane :: "vector_data \<Rightarrow> int \<Rightarrow> vector_data \<Rightarrow> nat \<Rightarrow> vector_data res" where
  "srl_lane vs2 uimm vd i =
     (if vd_type vs2 = UINT8 then
        res_bind (elem_int UINT8 i vs2) (\<lambda>a. res_bind (shift_right 32 a uimm) (\<lambda>r. SetInt (scast (word_of_int r :: u8)) i vd))
      else shift_lane shift_right vs2 (\<lambda>_. Inr uimm) vd i)"

definition nadd_lane :: "vector_data \<Rightarrow> u32 \<Rightarrow> vector_data \<Rightarrow> nat \<Rightarrow> vector_data res" where
  "nadd_lane vs2 rs1 vd i =
     (case vd_type vs2 of
        INT64 \<Rightarrow> res_bind (GetLongData i vs2) (\<lambda>a. SetInt (ucast (scast rs1 + a)) i vd)
      | INT32 \<Rightarrow> res_bind (GetIntData i vs2) (\<lambda>a. SetShort (ucast (rs1 + a)) i vd)
      | _ \<Rightarrow> Inr vd)"

section \<open>Masked moves\<close>

definition masked_lanes ::
  "vector_data \<Rightarrow> bool \<Rightarrow> (vector_data \<Rightarrow> nat \<Rightarrow> vector_data res) \<Rightarrow> vector_data \<Rightarrow> nat \<Rightarrow> vector_data res" where
  "masked_lanes vm masked put vd i = res_bind (GetVmaskData i vm) (\<lambda>b. if \<not> b \<and> masked then Inr vd else put vd i)"

definition vmv_imm :: "nat \<Rightarrow> u64 \<Rightarrow> vector_data \<Rightarrow> nat \<Rightarrow> vector_data res" where
  "vmv_imm vsew x vd i =
     (if vsew div 8 = 1 then
        res_bind (SetBool (x \<noteq> 0) i vd) (\<lambda>vd.
        res_bind (SetChar (ucast x) i vd) (\<lambda>vd.
        res_bind (SetU8 (ucast x) i vd) (\<lambda>vd. Inr (SetType UINT8 (SetType BOOL vd)))))
      else if vsew div 8 = 2 then res_bind (SetShort (ucast x) i vd) (\<lambda>vd. Inr (SetType INT16 vd))
      else if vsew div 8 = 4 then res_bind (SetInt (ucast x) i vd) (\<lambda>vd. Inr (SetType INT32 vd))
      else if vsew div 8 = 8 then res_bind (SetLong x i vd) (\<lambda>vd. Inr (SetType INT64 vd))
      else Inl (Runtime_Error ''vmv.v.i Not supported precision''))"

definition vmv_x :: "nat \<Rightarrow> u64 \<Rightarrow> vector_data \<Rightarrow> nat \<Rightarrow> vector_data res" where
  "vmv_x vsew x vd i =
     (if vsew div 8 = 1 then res_bind (SetChar (ucast x) i vd) (\<lambda>vd. Inr (SetType CHAR8 vd))
      else if vsew div 8 = 2 then res_bind (SetShort (ucast x) i vd) (\<lambda>vd. Inr (SetType INT16 vd))
      else if vsew div 8 = 4 then res_bind (SetInt (ucast x) i vd) (\<lambda>vd. Inr (SetType INT32 vd))
      else if vsew div 8 = 8 then res_bind (SetLong x i vd) (\<lambda>vd. Inr (SetType INT64 vd))
      else Inl (Runtime_Error ''vmv.v.x Not supported precision''))"

definition vmv_f :: "exec_env \<Rightarrow> nat \<Rightarrow> u32 \<Rightarrow> vector_data \<Rightarrow> nat \<Rightarrow> vector_data res" where
  "vmv_f e vsew f vd i =
     (if vsew div 8 = 2 then
        res_bind (SetHalf (xe_fp e) (half_bits (convert e K_F16 (N_F32 f))) i vd) (\<lambda>vd. Inr (SetType FLOAT16 vd))
      else if vsew div 8 = 4 then res_bind (SetFloat f i vd) (\<lambda>vd. Inr (SetType FLOAT32 vd))
      else Inl (Runtime_Error ''vmv.v.f Not supported precision''))"

definition vid_lane :: "nat \<Rightarrow> vector_data \<Rightarrow> nat \<Rightarrow> vector_data res" where
  "vid_lane vsew vd i =
     (if vsew = 64 then SetLong (of_nat i) i vd
      else if vsew = 32 then SetInt (of_nat i) i vd
      else if vsew = 16 then SetShort (of_nat i) i vd
      else if vsew = 8 then SetU8 (of_nat i) i vd
      else Inr vd)"

section \<open>Masks\<close>

definition mask_lane :: "(nat \<Rightarrow> bool res) \<Rightarrow> vector_data \<Rightarrow> nat \<Rightarrow> vector_data res" where
  "mask_lane f vd i = res_bind (f i) (\<lambda>b. SetVmask b i vd)"

definition is_float_type :: "DataType \<Rightarrow> bool" where
  "is_float_type ty \<longleftrightarrow> ty = FLOAT32 \<or> ty = FLOAT16"

definition compare_vv :: "exec_env \<Rightarrow> LogicalOp \<Rightarrow> vector_data \<Rightarrow> vector_data \<Rightarrow> nat \<Rightarrow> bool res" where
  "compare_vv e op vs1 vs2 i =
     (let k = (if vd_type vs1 = FLOAT32 then K_F32 else K_F16)
      in if is_float_type (vd_type vs1) then
           res_bind (get_num (xe_fp e) k i vs1) (\<lambda>a. res_bind (get_num (xe_fp e) k i vs2) (\<lambda>b. Inr (xe_compare e op a b)))
         else
           res_bind (elem_int (vd_type vs1) i vs1) (\<lambda>a. res_bind (elem_int (vd_type vs1) i vs2) (\<lambda>b. Inr (logical_operate op a b))))"

text \<open>The comparison with an integer, which is converted to the type of the elements.\<close>

definition compare_int :: "LogicalOp \<Rightarrow> vector_data \<Rightarrow> int \<Rightarrow> nat \<Rightarrow> bool res" where
  "compare_int op vs1 x i =
     res_bind (elem_int (vd_type vs1) i vs1) (\<lambda>a. Inr (logical_operate op a (cast_int (vd_type vs1) x)))"

definition compare_float :: "exec_env \<Rightarrow> LogicalOp \<Rightarrow> vector_data \<Rightarrow> u32 \<Rightarrow> nat \<Rightarrow> bool res" where
  "compare_float e op vs1 f i =
     (let k = (if vd_type vs1 = FLOAT32 then K_F32 else K_F16)
      in res_bind (get_num (xe_fp e) k i vs1) (\<lambda>a. Inr (xe_compare e op a (convert e k (N_F32 f)))))"

definition vmand_lane :: "vector_data \<Rightarrow> vector_data \<Rightarrow> nat \<Rightarrow> bool res" where
  "vmand_lane vs1 vs2 i = res_bind (GetVmaskData i vs1) (\<lambda>a. if a then GetVmaskData i vs2 else Inr False)"

definition vmor_lane :: "vector_data \<Rightarrow> vector_data \<Rightarrow> nat \<Rightarrow> bool res" where
  "vmor_lane vs1 vs2 i = res_bind (GetVmaskData i vs1) (\<lambda>a. if a then Inr True else GetVmaskData i vs2)"

fun first_lane :: "vector_data \<Rightarrow> nat list \<Rightarrow> int res" where
  "first_lane v [] = Inr (- 1)"
| "first_lane v (i # is) = res_bind (GetVmaskData i v) (\<lambda>b. if b then Inr (int i) else first_lane v is)"

section \<open>Bitwise and extremal operations\<close>

definition vand_lane :: "exec_env \<Rightarrow> vector_data \<Rightarrow> vector_data \<Rightarrow> vector_data \<Rightarrow> nat \<Rightarrow> vector_data res" where
  "vand_lane e vs1 vs2 vd i =
     (case vd_type vs1 of
        INT32 \<Rightarrow> res_bind (GetIntData i vs1) (\<lambda>a. res_bind (GetIntData i vs2) (\<lambda>b. SetInt (a AND b) i vd))
      | INT64 \<Rightarrow> res_bind (GetLongData i vs1) (\<lambda>a. res_bind (GetLongData i vs2) (\<lambda>b. SetLong (a AND b) i vd))
      | FLOAT32 \<Rightarrow>
          res_bind (GetFloatData i vs1) (\<lambda>a. res_bind (GetFloatData i vs2) (\<lambda>b.
          set_num (xe_fp e) (convert e K_I32 (N_F32 (float_arith e Times a b))) i vd))
      | BOOL \<Rightarrow> res_bind (GetBoolData i vs1) (\<lambda>a. res_bind (GetBoolData i vs2) (\<lambda>b. SetBool (a \<and> b) i vd))
      | _ \<Rightarrow> Inr vd)"

definition vand_imm_lane :: "nat \<Rightarrow> vector_data \<Rightarrow> u32 \<Rightarrow> vector_data \<Rightarrow> nat \<Rightarrow> vector_data res" where
  "vand_imm_lane vsew vs1 x2 vd i =
     (if vsew = 32 then res_bind (GetIntData i vs1) (\<lambda>a. SetInt (a AND x2) i vd)
      else if vsew = 64 then res_bind (GetLongData i vs1) (\<lambda>a. SetLong (a AND scast x2) i vd)
      else if vsew = 16 then res_bind (GetShortData i vs1) (\<lambda>a. SetShort (a AND ucast x2) i vd)
      else if vsew = 8 then res_bind (GetCharData i vs1) (\<lambda>a. SetInt (scast (a AND ucast x2)) i vd)
      else Inr vd)"

text \<open>The bits of the single-precision one.\<close>

definition float_one :: u32 where "float_one = 0x3f800000"

definition either_one :: "bool res \<Rightarrow> bool res \<Rightarrow> bool res" where
  "either_one m m' = res_bind m (\<lambda>a. if a then Inr True else m')"

definition vor_lane :: "exec_env \<Rightarrow> vector_data \<Rightarrow> vector_data \<Rightarrow> vector_data \<Rightarrow> vector_data \<Rightarrow> nat \<Rightarrow> vector_data res" where
  "vor_lane e vs1 vs2 vm vd i =
     res_bind (GetVmaskData i vm) (\<lambda>on.
     if \<not> on then Inr vd
     else
       let word_one = (\<lambda>v. res_bind (GetIntData i v) (\<lambda>x. Inr (x = 1)));
           float_is_one = (\<lambda>v. res_bind (GetFloatData i v) (\<lambda>x. Inr (xe_compare e EQ (N_F32 x) (N_F32 float_one))))
       in case vd_type vs1 of
            INT32 \<Rightarrow> res_bind (either_one (word_one vs1) (word_one vs2)) (\<lambda>b. SetInt (bool_int b) i vd)
          | FLOAT32 \<Rightarrow> res_bind (either_one (float_is_one vs1) (float_is_one vs2)) (\<lambda>b. SetInt (bool_int b) i vd)
          | BOOL \<Rightarrow> res_bind (either_one (GetBoolData i vs1) (GetBoolData i vs2)) (\<lambda>b. SetBool b i vd)
          | _ \<Rightarrow> Inr vd)"

text \<open>\<^verbatim>\<open>vmin\<close> and \<^verbatim>\<open>vmax\<close>; they differ in the vector whose type \<open>ty\<close> they look at.\<close>

definition extremal_lane ::
  "exec_env \<Rightarrow> bool \<Rightarrow> DataType \<Rightarrow> vector_data \<Rightarrow> vector_data \<Rightarrow> vector_data \<Rightarrow> nat \<Rightarrow> vector_data res" where
  "extremal_lane e minimum ty vs1 vs2 vd i =
     (if ty = CHAR8 then
        res_bind (GetCharData i vs1) (\<lambda>a. res_bind (GetCharData i vs2) (\<lambda>b.
        SetChar (if (if minimum then sint a < sint b else sint b < sint a) then a else b) i vd))
      else if ty \<in> {INT32, FLOAT32, FLOAT16} then
        (case type_kind ty of
           None \<Rightarrow> Inr vd
         | Some k \<Rightarrow>
             res_bind (get_num (xe_fp e) k i vs1) (\<lambda>a. res_bind (get_num (xe_fp e) k i vs2) (\<lambda>b.
             set_num (xe_fp e) (if (if minimum then num_less (xe_fp e) a b else num_less (xe_fp e) b a) then a else b) i vd)))
      else Inr vd)"

section \<open>Permutations of lanes\<close>

definition compress_lane :: "vector_data \<Rightarrow> vector_data \<Rightarrow> nat \<times> vector_data \<Rightarrow> nat \<Rightarrow> (nat \<times> vector_data) res" where
  "compress_lane vs1 vs2 s i =
     (case s of (j, vd) \<Rightarrow>
        if vd_type vs1 = INT32 then
          res_bind (GetVmaskData i vs2) (\<lambda>b.
          if b then res_bind (GetIntData i vs1) (\<lambda>x. res_bind (SetInt x j vd) (\<lambda>vd. Inr (j + 1, vd))) else Inr (j, vd))
        else Inr (j, vd))"

definition vcompress :: "int \<Rightarrow> vector_data \<Rightarrow> vector_data \<Rightarrow> vector_data \<Rightarrow> vector_data res" where
  "vcompress vstart vs1 vs2 vd =
     res_bind (res_foldl (compress_lane vs1 vs2) (nat vstart, vd) (lanes vstart (vlen_of vs1))) (\<lambda>(j, vd).
     if vstart < 0 then Inr vd else res_foldl (\<lambda>vd j. SetInt 0 j vd) vd [j..<vlen_of vd])"

definition slide_types :: "DataType list" where
  "slide_types = [FLOAT16, FLOAT32, INT16, INT32, INT64, CHAR8]"

definition vslide1down :: "exec_env \<Rightarrow> int \<Rightarrow> vector_data \<Rightarrow> u64 \<Rightarrow> vector_data \<Rightarrow> vector_data res" where
  "vslide1down e vstart vs1 x vd =
     (let ty = vd_type vs1; top = unat (vd_vlen vd - 1)
      in res_bind (for_lanes vstart top (\<lambda>vd i. copy_elem (xe_fp e) ty vs1 (i + 1) i vd) vd) (\<lambda>vd.
         res_bind (put_int e ty x top vd) (\<lambda>vd. Inr (SetType ty vd))))"

definition vslide1up :: "exec_env \<Rightarrow> int \<Rightarrow> vector_data \<Rightarrow> u64 \<Rightarrow> vector_data \<Rightarrow> vector_data res" where
  "vslide1up e vstart vs1 x vd =
     (let ty = vd_type vs1; top = unat (vd_vlen vd - 1)
      in res_bind (for_lanes vstart top (\<lambda>vd i. copy_elem (xe_fp e) ty vs1 i (i + 1) vd) vd) (\<lambda>vd.
         res_bind (put_int e ty x 0 vd) (\<lambda>vd. Inr (SetType ty vd))))"

text \<open>The vacated lanes are filled with words, whatever the type.\<close>

definition vslidedown :: "exec_env \<Rightarrow> int \<Rightarrow> vector_data \<Rightarrow> u32 \<Rightarrow> vector_data \<Rightarrow> vector_data res" where
  "vslidedown e vstart vs1 move vd =
     (let ty = vd_type vs1
      in res_bind (for_lanes vstart (unat (vd_vlen vd - move)) (\<lambda>vd i.
           let k = int i + sint move in if k < 0 then Inl Out_Of_Range else copy_elem (xe_fp e) ty vs1 (nat k) i vd) vd) (\<lambda>vd.
         res_bind (res_foldl (\<lambda>vd i. SetInt 0 (unat (vd_vlen vd - of_nat i)) vd) vd [1..<nat (sint move + 1)]) (\<lambda>vd.
         Inr (SetType ty vd))))"

section \<open>Conversions\<close>

definition ncvt_lane :: "exec_env \<Rightarrow> OperandType \<Rightarrow> vector_data \<Rightarrow> vector_data \<Rightarrow> nat \<Rightarrow> vector_data res" where
  "ncvt_lane e ty vs vd i =
     (if ty \<in> set [OT_XU_F_W, OT_X_F_W] then
        res_bind (get_num (xe_fp e) K_F32 i vs) (\<lambda>n. SetInt (word_of_int (num_int (convert e K_I32 n) mod 2 ^ 16)) i vd)
      else if ty = OT_F_F_W then
        res_bind (get_num (xe_fp e) K_F32 i vs) (\<lambda>n. set_num (xe_fp e) (convert e K_F16 n) i vd)
      else if ty \<in> set [OT_F_XU_W, OT_F_X_W] then
        res_bind (get_num (xe_fp e) K_I32 i vs) (\<lambda>n. set_num (xe_fp e) (convert e K_F16 n) i vd)
      else Inr vd)"

definition cvt_lane :: "exec_env \<Rightarrow> OperandType \<Rightarrow> vector_data \<Rightarrow> vector_data \<Rightarrow> nat \<Rightarrow> vector_data res" where
  "cvt_lane e ty vs vd i =
     (if ty \<in> set [OT_F_XU_V, OT_F_X_V] then
        if vd_type vs = INT32 then res_bind (get_num (xe_fp e) K_I32 i vs) (\<lambda>n. set_num (xe_fp e) (convert e K_F32 n) i vd)
        else res_bind (get_num (xe_fp e) K_I16 i vs) (\<lambda>n. set_num (xe_fp e) (convert e K_F16 n) i vd)
      else if ty \<in> set [OT_XU_F_V, OT_X_F_V] then
        res_bind (get_num (xe_fp e) K_F32 i vs) (\<lambda>n. set_num (xe_fp e) (convert e K_I32 n) i vd)
      else Inr vd)"

definition wcvt_lane :: "exec_env \<Rightarrow> OperandType \<Rightarrow> vector_data \<Rightarrow> vector_data \<Rightarrow> nat \<Rightarrow> vector_data res" where
  "wcvt_lane e ty vs vd i =
     (if ty \<in> set [OT_F_XU_V, OT_F_X_V] then
        res_bind (get_num (xe_fp e) (if vd_type vs = INT32 then K_I32 else K_I16) i vs) (\<lambda>n. set_num (xe_fp e) (convert e K_F32 n) i vd)
      else if ty = OT_F_F_V then
        res_bind (get_num (xe_fp e) K_F16 i vs) (\<lambda>n. set_num (xe_fp e) (convert e K_F32 n) i vd)
      else if ty \<in> set [OT_XU_F_V, OT_X_F_V] then
        res_bind (get_num (xe_fp e) K_F32 i vs) (\<lambda>n. set_num (xe_fp e) (convert e K_I32 n) i vd)
      else Inr vd)"

text \<open>Half-precision elements widened to single precision.\<close>

definition widen_lane :: "exec_env \<Rightarrow> vector_data \<Rightarrow> vector_data \<Rightarrow> nat \<Rightarrow> vector_data res" where
  "widen_lane e vs vd i =
     res_bind (get_num (xe_fp e) K_F16 i vs) (\<lambda>n. set_num (xe_fp e) (convert e K_F32 n) i vd)"

definition sqrt_lane :: "exec_env \<Rightarrow> vector_data \<Rightarrow> vector_data \<Rightarrow> nat \<Rightarrow> vector_data res" where
  "sqrt_lane e vs vd i =
     (if is_float_type (vd_type vs) then
        let k = (if vd_type vs = FLOAT32 then K_F32 else K_F16)
        in res_bind (get_num (xe_fp e) k i vs) (\<lambda>n. set_num (xe_fp e) (make_num k (xe_sqrt e n k)) i vd)
      else Inr vd)"

text \<open>The accumulation of \<^verbatim>\<open>vfwmacc.vf\<close>.\<close>

definition wmacc_lane :: "exec_env \<Rightarrow> vector_data \<Rightarrow> vector_data \<Rightarrow> u32 \<Rightarrow> vector_data \<Rightarrow> nat \<Rightarrow> vector_data res" where
  "wmacc_lane e vs1 vd f temp i =
     res_bind (GetFloatData i vd) (\<lambda>d.
     res_bind (get_num (xe_fp e) K_F16 i vs1) (\<lambda>h.
     SetFloat (float_arith e Plus d (float_arith e Times (float_bits (convert e K_F32 h)) f)) i temp))"

text \<open>Sign injection: the sign of the result is chosen from the signs of the operands, read by comparison with zero.\<close>

definition sgn_lane ::
  "exec_env \<Rightarrow> (bool \<Rightarrow> bool \<Rightarrow> bool) \<Rightarrow> vector_data \<Rightarrow> (num_kind \<Rightarrow> nat \<Rightarrow> vnum res) \<Rightarrow> bool \<Rightarrow> vector_data \<Rightarrow> nat \<Rightarrow> vector_data res" where
  "sgn_lane e sign vs1 second halves vd i =
     (let k = (if vd_type vs1 = FLOAT32 then K_F32 else K_F16);
          zero = make_num k 0
      in if vd_type vs1 = FLOAT32 \<or> vd_type vs1 = FLOAT16 \<and> halves then
           res_bind (get_num (xe_fp e) k i vs1) (\<lambda>f1. res_bind (second k i) (\<lambda>f2.
           set_num (xe_fp e) (make_num k (xe_abs e (sign (xe_compare e LT f1 zero) (xe_compare e LT f2 zero)) f1)) i vd))
         else Inl (Runtime_Error ''Unsupported vector instruction''))"

section \<open>Reductions\<close>

definition reduce_kind :: "DataType \<Rightarrow> num_kind res" where
  "reduce_kind ty =
     (case ty of
        INT64 \<Rightarrow> Inr K_I64 | INT32 \<Rightarrow> Inr K_I32 | INT16 \<Rightarrow> Inr K_I16 | FLOAT32 \<Rightarrow> Inr K_F32 | FLOAT16 \<Rightarrow> Inr K_F16
      | CHAR8 \<Rightarrow> Inl (Runtime_Error ''Can't use char8 type'')
      | _ \<Rightarrow> Inl (Runtime_Error ''Unsupported type''))"

definition reduce ::
  "exec_env \<Rightarrow> (vnum \<Rightarrow> vnum \<Rightarrow> vnum res) \<Rightarrow> (nat \<Rightarrow> bool res) \<Rightarrow> num_kind \<Rightarrow> vnum \<Rightarrow> vector_data \<Rightarrow> nat list \<Rightarrow> vnum res" where
  "reduce e f enabled k init vs is =
     res_foldl (\<lambda>acc i. res_bind (enabled i) (\<lambda>b. if b then res_bind (get_num (xe_fp e) k i vs) (f acc) else Inr acc)) init is"

definition sum_op :: "exec_env \<Rightarrow> num_kind \<Rightarrow> vnum \<Rightarrow> vnum \<Rightarrow> vnum res" where
  "sum_op e k a b = num_arith (xe_fp e) Plus a b k"

definition max_op :: "exec_env \<Rightarrow> vnum \<Rightarrow> vnum \<Rightarrow> vnum res" where
  "max_op e a b = Inr (if num_less (xe_fp e) a b then b else a)"

definition min_op :: "exec_env \<Rightarrow> vnum \<Rightarrow> vnum \<Rightarrow> vnum res" where
  "min_op e a b = Inr (if num_less (xe_fp e) b a then b else a)"

definition or_op :: "exec_env \<Rightarrow> num_kind \<Rightarrow> vnum \<Rightarrow> vnum \<Rightarrow> vnum res" where
  "or_op e k a b = Inr (convert e k (N_I32 (bool_int (num_nonzero (xe_fp e) a \<or> num_nonzero (xe_fp e) b))))"

text \<open>A reduction stores its result in lane 0 of a new vector.\<close>

definition vred ::
  "exec_env \<Rightarrow> (num_kind \<Rightarrow> vnum \<Rightarrow> vnum \<Rightarrow> vnum res) \<Rightarrow> (nat \<Rightarrow> bool res) \<Rightarrow> num_kind \<Rightarrow> int \<Rightarrow> vector_data \<Rightarrow> vector_data \<Rightarrow> vector_data
    \<Rightarrow> vector_data res" where
  "vred e f enabled k vstart vs1 vs2 vd =
     res_bind (get_num (xe_fp e) k 0 vs2) (\<lambda>init.
     res_bind (reduce e (f k) enabled k init vs1 (lanes vstart (vlen_of vs1))) (\<lambda>r. set_num (xe_fp e) r 0 vd))"

text \<open>The widening reductions accumulate halves in single precision.\<close>

definition vwred :: "exec_env \<Rightarrow> (u32 \<Rightarrow> vnum \<Rightarrow> u32) \<Rightarrow> int \<Rightarrow> vector_data \<Rightarrow> vector_data \<Rightarrow> vector_data \<Rightarrow> vector_data res" where
  "vwred e f vstart vs1 vs2 vd =
     res_bind (get_num (xe_fp e) K_F16 0 vs2) (\<lambda>init.
     res_bind (res_foldl (\<lambda>acc i. res_bind (get_num (xe_fp e) K_F16 i vs1) (\<lambda>h. Inr (f acc h)))
       (float_bits (convert e K_F32 init)) (lanes vstart (vlen_of vs1))) (\<lambda>r. SetFloat r 0 vd))"

definition wsum_op :: "exec_env \<Rightarrow> u32 \<Rightarrow> vnum \<Rightarrow> u32" where
  "wsum_op e acc h = ucast (fp_arith (xe_fp e) Plus (N_F32 acc) h K_F32)"

definition wmax_op :: "exec_env \<Rightarrow> u32 \<Rightarrow> vnum \<Rightarrow> u32" where
  "wmax_op e acc h =
     (let f = convert e K_F32 h in if fp_less (xe_fp e) (N_F32 acc) f then float_bits f else acc)"

section \<open>Atomic operations\<close>

text \<open>\<^verbatim>\<open>arith_op\<close> on integers that are computed at a width of \<open>w\<close> bits, on single and on half precision.\<close>

definition arith_op_int :: "nat \<Rightarrow> ArithOp \<Rightarrow> int \<Rightarrow> int \<Rightarrow> int res" where
  "arith_op_int w op a b =
     (case op of
        ARITH_ADD \<Rightarrow> Inr (a + b) | ARITH_SUB \<Rightarrow> Inr (a - b) | ARITH_MUL \<Rightarrow> Inr (a * b)
      | ARITH_DIV \<Rightarrow> if b = 0 \<or> a = - (2 ^ (w - 1)) \<and> b = - 1 then Inl Div_By_Zero else Inr (trunc_div a b)
      | ARITH_MIN \<Rightarrow> Inr (if a < b then a else b) | ARITH_MAX \<Rightarrow> Inr (if b < a then a else b)
      | ARITH_REM \<Rightarrow> if b = 0 \<or> a = - (2 ^ (w - 1)) \<and> b = - 1 then Inl Div_By_Zero else Inr (trunc_rem a b)
      | ARITH_MOD \<Rightarrow> if b = 0 \<or> a = - (2 ^ (w - 1)) \<and> b = - 1 then Inl Div_By_Zero else Inr (trunc_rem a b)
      | ARITH_SHL \<Rightarrow> shift_left w a b | ARITH_SHR \<Rightarrow> shift_right w a b
      | ARITH_AND \<Rightarrow> Inr (a AND b) | ARITH_OR \<Rightarrow> Inr (a OR b) | ARITH_XOR \<Rightarrow> Inr (a XOR b))"

definition arith_op_float :: "exec_env \<Rightarrow> ArithOp \<Rightarrow> u32 \<Rightarrow> u32 \<Rightarrow> u32" where
  "arith_op_float e op a b =
     (let truth = (\<lambda>c. if c then float_one else 0); nz = (\<lambda>x. fp_nonzero (xe_fp e) (N_F32 x)); less = (\<lambda>x y. fp_less (xe_fp e) (N_F32 x) (N_F32 y))
      in case op of
           ARITH_ADD \<Rightarrow> float_arith e Plus a b | ARITH_SUB \<Rightarrow> float_arith e Minus a b | ARITH_MUL \<Rightarrow> float_arith e Times a b
         | ARITH_DIV \<Rightarrow> float_arith e Divide a b
         | ARITH_MIN \<Rightarrow> if less a b then a else b | ARITH_MAX \<Rightarrow> if less b a then a else b
         | ARITH_AND \<Rightarrow> truth (nz a \<and> nz b) | ARITH_OR \<Rightarrow> truth (nz a \<or> nz b)
         | ARITH_XOR \<Rightarrow> truth (xe_compare e NE (N_F32 a) (N_F32 b))
         | _ \<Rightarrow> xe_fmod e op a b)"

definition arith_op_half :: "exec_env \<Rightarrow> ArithOp \<Rightarrow> u16 \<Rightarrow> u16 \<Rightarrow> u16 res" where
  "arith_op_half e op a b =
     (let arith = (\<lambda>o'. Inr (ucast (fp_arith (xe_fp e) o' (N_F16 a) (N_F16 b) K_F16))); less = (\<lambda>x y. fp_less (xe_fp e) (N_F16 x) (N_F16 y))
      in case op of
           ARITH_ADD \<Rightarrow> arith Plus | ARITH_SUB \<Rightarrow> arith Minus | ARITH_MUL \<Rightarrow> arith Times | ARITH_DIV \<Rightarrow> arith Divide
         | ARITH_MIN \<Rightarrow> Inr (if less a b then a else b) | ARITH_MAX \<Rightarrow> Inr (if less b a then a else b)
         | _ \<Rightarrow> Inl (Runtime_Error ''Unsupported half operation''))"

text \<open>The element of an atomic operation: the offset of a lane, and the update of the packet it selects.\<close>

definition amo_offset :: "vector_data \<Rightarrow> nat \<Rightarrow> (u64 \<times> nat) res" where
  "amo_offset offsets i =
     (case vd_type offsets of
        INT64 \<Rightarrow> res_bind (GetLongData i offsets) (\<lambda>x. Inr (x, 8))
      | INT32 \<Rightarrow> res_bind (GetIntData i offsets) (\<lambda>x. Inr (scast x, 4))
      | INT16 \<Rightarrow> res_bind (GetShortData i offsets) (\<lambda>x. Inr (scast x, 2))
      | UINT8 \<Rightarrow> res_bind (GetU8Data i offsets) (\<lambda>x. Inr (ucast x, 1))
      | _ \<Rightarrow> Inl (Runtime_Error ''Unsupported offset type''))"

definition amo_update :: "exec_env \<Rightarrow> ArithOp \<Rightarrow> vector_data \<Rightarrow> nat \<Rightarrow> nat \<Rightarrow> vector_data \<Rightarrow> vector_data res" where
  "amo_update e op vs i idx vd =
     (let ints = (\<lambda>ty put. res_bind (elem_int ty idx vd) (\<lambda>a. res_bind (elem_int ty i vs) (\<lambda>b. res_bind (arith_op_int (if ty = INT64 then 64 else 32) op a b) put)))
      in if vd_type vd = FLOAT32 then
           res_bind (GetFloatData idx vd) (\<lambda>a. res_bind (GetFloatData i vs) (\<lambda>b. SetFloat (arith_op_float e op a b) idx vd))
         else if vd_type vd = UINT8 then ints UINT8 (\<lambda>r. SetU8 (word_of_int r) idx vd)
         else if vd_type vs = INT16 then ints INT16 (\<lambda>r. SetShort (word_of_int r) idx vd)
         else if vd_type vs = FLOAT16 then
           res_bind (GetHalfData (xe_fp e) idx vd) (\<lambda>a. res_bind (GetHalfData (xe_fp e) i vs) (\<lambda>b.
           res_bind (arith_op_half e op a b) (\<lambda>r. SetHalf (xe_fp e) r idx vd)))
         else if vd_type vs = INT32 then ints INT32 (\<lambda>r. SetInt (word_of_int r) idx vd)
         else if vd_type vs = INT64 then ints INT64 (\<lambda>r. SetLong (word_of_int r) idx vd)
         else Inl (Runtime_Error ''Unsupported Data Type''))"

end
