(* ===== verification/Vector_Execution.thy ===== *)
theory Vector_Execution
  imports Vector_Lanes
begin

text \<open>
  \<^verbatim>\<open>src/ndp_instruction.cc\<close>: \<^verbatim>\<open>ExecuteVector\<close> and \<^verbatim>\<open>Execute\<close>. One definition per group of opcodes reads the operands,
  computes with the functions of \<open>Vector_Lanes\<close> and \<open>Vector_Data\<close> and writes the destination. The text that \<^verbatim>\<open>TEST\<close>
  prints is left out.
\<close>

section \<open>Registers and configuration\<close>

definition read_vreg :: "int \<Rightarrow> vector_data exec" where
  "read_vreg reg s =
     res_bind (ReadVreg reg (csr_vsew (xs_csr s)) (csr_vlmul (xs_csr s)) (xs_regs s)) (\<lambda>(v, r). Inr (v, s\<lparr>xs_regs := r\<rparr>))"

definition write_vreg :: "int \<Rightarrow> vector_data \<Rightarrow> unit exec" where
  "write_vreg reg v s = res_bind (WriteVreg reg v (csr_vlmul (xs_csr s)) (xs_regs s)) (\<lambda>r. Inr ((), s\<lparr>xs_regs := r\<rparr>))"

definition exists_vreg :: "int \<Rightarrow> bool exec" where
  "exists_vreg reg s = Inr (CheckExistRenameVreg reg (vr_unit (xs_regs s)), s)"

definition IMM_E8 :: int where "IMM_E8 = SPECIAL_IMMEDIATE_START + 1"
definition IMM_E16 :: int where "IMM_E16 = SPECIAL_IMMEDIATE_START + 2"
definition IMM_E32 :: int where "IMM_E32 = SPECIAL_IMMEDIATE_START + 3"
definition IMM_E64 :: int where "IMM_E64 = SPECIAL_IMMEDIATE_START + 4"
definition IMM_MF8 :: int where "IMM_MF8 = SPECIAL_IMMEDIATE_START + 5"
definition IMM_MF4 :: int where "IMM_MF4 = SPECIAL_IMMEDIATE_START + 6"
definition IMM_MF2 :: int where "IMM_MF2 = SPECIAL_IMMEDIATE_START + 7"
definition IMM_M4 :: int where "IMM_M4 = SPECIAL_IMMEDIATE_START + 10"
definition IMM_M8 :: int where "IMM_M8 = SPECIAL_IMMEDIATE_START + 11"

definition vsew_of :: "int \<Rightarrow> nat res" where
  "vsew_of imm =
     (if imm = IMM_E8 then Inr 8 else if imm = IMM_E16 then Inr 16 else if imm = IMM_E32 then Inr 32 else if imm = IMM_E64 then Inr 64
      else Inl (Runtime_Error ''Not implemented vtype_vsew''))"

definition vlmul_of :: "int \<Rightarrow> rat res" where
  "vlmul_of imm =
     (if imm = IMM_M1 then Inr 1 else if imm = IMM_M2 then Inr 2 else if imm = IMM_M4 then Inr 4 else if imm = IMM_M8 then Inr 8
      else if imm = IMM_MF2 then Inr (1 / 2) else if imm = IMM_MF4 then Inr (1 / 4) else if imm = IMM_MF8 then Inr (1 / 8)
      else Inl (Runtime_Error ''Not implemented vtype_vlmul''))"

definition exec_vsetvli :: "ndp_instruction \<Rightarrow> unit exec" where
  "exec_vsetvli inst =
     xbind (xlift (vsew_of (src inst ! 1))) (\<lambda>w.
     xbind (set_csr (\<lambda>c. c\<lparr>csr_vsew := w\<rparr>)) (\<lambda>_.
     xbind (xlift (vlmul_of (src inst ! 2))) (\<lambda>m.
     set_csr (\<lambda>c. c\<lparr>csr_vlmul := m\<rparr>))))"

definition unsupported :: "'a exec" where
  "unsupported = throw ''Unsupported vector instruction''"

section \<open>Arithmetic\<close>

text \<open>The second operand of an arithmetic instruction.\<close>

datatype operand = O_V vector_data | O_X u64 | O_I int | O_F u32

definition second_operand :: "exec_env \<Rightarrow> ndp_instruction \<Rightarrow> operand exec" where
  "second_operand e inst =
     (if operand_type inst = OT_VV then xbind (read_vreg (src inst ! 1)) (\<lambda>v. xret (O_V v))
      else if operand_type inst = OT_VX then xbind (read_xreg e (src inst ! 1)) (\<lambda>x. xret (O_X x))
      else if operand_type inst = OT_VI then xret (O_I (src inst ! 1))
      else if operand_type inst = OT_VF then xbind (read_freg (src inst ! 1)) (\<lambda>f. xret (O_F f))
      else unsupported)"

text \<open>The element type the operation works at.\<close>

definition retype_float :: "ndp_instruction \<Rightarrow> bool \<Rightarrow> vector_data \<Rightarrow> vector_data" where
  "retype_float inst word v = (if CheckFloatOp inst then SetType (if word then FLOAT32 else FLOAT16) v else v)"

definition retype :: "ndp_instruction \<Rightarrow> bool \<Rightarrow> vector_data \<Rightarrow> vector_data" where
  "retype inst word v = (if CheckFloatOp inst then retype_float inst word v else SetType INT32 v)"

definition word_type_op :: "bool exec" where
  "word_type_op = xbind get_csr (\<lambda>c. xret (csr_vsew c = 32))"

definition get_vstart :: "int exec" where
  "get_vstart = xbind get_csr (\<lambda>c. xret (csr_vstart c))"

definition exec_vadd :: "exec_env \<Rightarrow> ndp_instruction \<Rightarrow> unit exec" where
  "exec_vadd e inst =
     xbind (read_vreg (src inst ! 0)) (\<lambda>vs1.
     xbind (second_operand e inst) (\<lambda>o2.
     xbind (xlift (case o2 of O_V v \<Rightarrow> operator_plus (xe_fp e) vs1 v | O_X x \<Rightarrow> operator_plus_long (xe_fp e) vs1 x
       | O_I i \<Rightarrow> operator_plus_int (xe_fp e) vs1 (word_of_int i) | O_F f \<Rightarrow> operator_plus_float (xe_fp e) vs1 f)) (\<lambda>vd.
     write_vreg (dest inst) vd)))"

definition exec_vsub :: "exec_env \<Rightarrow> ndp_instruction \<Rightarrow> unit exec" where
  "exec_vsub e inst =
     xbind get_csr (\<lambda>c.
     xbind word_type_op (\<lambda>word.
     xbind (read_vreg (src inst ! 0)) (\<lambda>vs1.
     let vs1 = retype_float inst word vs1
     in xbind (second_operand e inst) (\<lambda>o2.
        xbind (xlift (case o2 of O_V v \<Rightarrow> operator_minus (xe_fp e) vs1 (retype_float inst word v)
          | O_X x \<Rightarrow> operator_minus_int (xe_fp e) vs1 (ucast x) | O_I i \<Rightarrow> operator_minus_int (xe_fp e) vs1 (word_of_int i)
          | O_F f \<Rightarrow> operator_minus_float (xe_fp e) (if csr_vsew c = 16 then SetType FLOAT16 vs1 else vs1) f)) (\<lambda>vd.
        write_vreg (dest inst) vd)))))"

definition exec_vfwsub :: "exec_env \<Rightarrow> ndp_instruction \<Rightarrow> unit exec" where
  "exec_vfwsub e inst =
     xbind (read_vreg (src inst ! 0)) (\<lambda>vs1.
     xbind (xlift (assert_that (vd_type vs1 = FLOAT16) ''vs1.GetType() == FLOAT16'')) (\<lambda>_.
     xbind new_vector (\<lambda>temp.
     xbind get_vstart (\<lambda>st.
     xbind (xlift (for_lanes st (vlen_of vs1) (widen_lane e vs1) (SetType FLOAT32 (SetVectorDoubleReg temp)))) (\<lambda>temp.
     if operand_type inst = OT_VF then
       xbind (read_freg (src inst ! 1)) (\<lambda>f.
       xbind (xlift (operator_minus_float (xe_fp e) temp f)) (write_vreg (dest inst)))
     else throw ''Unsupported vector instruction yet'')))))"

definition exec_vrsub :: "exec_env \<Rightarrow> ndp_instruction \<Rightarrow> unit exec" where
  "exec_vrsub e inst =
     xbind word_type_op (\<lambda>word.
     xbind (read_vreg (src inst ! 1)) (\<lambda>vs2.
     let vs2 = retype inst word vs2
     in if operand_type inst = OT_VI then
          xbind (xlift (operator_int_minus (xe_fp e) (word_of_int (src inst ! 0)) vs2)) (write_vreg (dest inst))
        else if operand_type inst = OT_VF then
          xbind (read_freg (src inst ! 0)) (\<lambda>f. xbind (xlift (operator_float_minus (xe_fp e) f vs2)) (write_vreg (dest inst)))
        else unsupported))"

definition exec_vmul :: "exec_env \<Rightarrow> ndp_instruction \<Rightarrow> unit exec" where
  "exec_vmul e inst =
     xbind (read_vreg (src inst ! 0)) (\<lambda>vs1.
     xbind (second_operand e inst) (\<lambda>o2.
     xbind (xlift (case o2 of O_V v \<Rightarrow> operator_times (xe_fp e) vs1 v | O_X x \<Rightarrow> operator_times_int (xe_fp e) vs1 (ucast x)
       | O_I i \<Rightarrow> operator_times_int (xe_fp e) vs1 (word_of_int i) | O_F f \<Rightarrow> operator_times_float (xe_fp e) vs1 f)) (\<lambda>vd.
     write_vreg (dest inst) vd)))"

definition exec_vfwmul :: "exec_env \<Rightarrow> ndp_instruction \<Rightarrow> unit exec" where
  "exec_vfwmul e inst =
     xbind (read_vreg (src inst ! 0)) (\<lambda>vs1.
     xbind new_vector (\<lambda>vd.
     xbind
       (if operand_type inst = OT_VV then
          xbind (read_vreg (src inst ! 1)) (\<lambda>vs2.
          if vd_type vs1 \<noteq> vd_type vs2 then throw ''VFWMUL must use same typed operands''
          else if vd_type vs1 = FLOAT16 then xlift (operator_times (xe_fp e) vs1 vs2)
          else throw ''Unsupported source operand type'')
        else if operand_type inst = OT_VF then
          xbind (read_freg (src inst ! 1)) (\<lambda>f.
          if vd_type vs1 = FLOAT16 then xlift (operator_times_float (xe_fp e) vs1 f) else throw ''Unsupported source operand type'')
        else unsupported) (\<lambda>temp.
     xbind (xlift (for_lanes 0 (vlen_of temp) (widen_lane e temp) (SetVectorDoubleReg vd))) (write_vreg (dest inst)))))"

definition exec_vdiv :: "exec_env \<Rightarrow> ndp_instruction \<Rightarrow> unit exec" where
  "exec_vdiv e inst =
     xbind word_type_op (\<lambda>word.
     xbind (read_vreg (src inst ! 0)) (\<lambda>vs1.
     let vs1 = retype inst word vs1
     in xbind (second_operand e inst) (\<lambda>o2.
        xbind (xlift (case o2 of O_V v \<Rightarrow> operator_divide (xe_fp e) vs1 v | O_X x \<Rightarrow> operator_divide_int (xe_fp e) vs1 (ucast x)
          | O_I i \<Rightarrow> operator_divide_int (xe_fp e) vs1 (word_of_int i) | O_F f \<Rightarrow> operator_divide_float (xe_fp e) vs1 f)) (\<lambda>vd.
        write_vreg (dest inst) vd))))"

text \<open>A new vector filled by a loop from \<^verbatim>\<open>vstart\<close> and written to the destination.\<close>

definition fill_new :: "ndp_instruction \<Rightarrow> (vector_data \<Rightarrow> nat \<Rightarrow> vector_data res) \<Rightarrow> vector_data \<Rightarrow> unit exec" where
  "fill_new inst put vd =
     xbind get_vstart (\<lambda>st. xbind (xlift (for_lanes st (vlen_of vd) put vd)) (write_vreg (dest inst)))"

definition exec_vsll :: "exec_env \<Rightarrow> ndp_instruction \<Rightarrow> unit exec" where
  "exec_vsll e inst =
     xbind new_vector (\<lambda>vd.
     xbind (read_vreg (src inst ! 0)) (\<lambda>vs2.
     if operand_type inst = OT_VV then
       xbind (read_vreg (src inst ! 1)) (\<lambda>vs1. fill_new inst (shift_lane shift_left vs2 (\<lambda>i. elem_int (vd_type vs2) i vs1)) vd)
     else if operand_type inst = OT_VX then
       xbind (read_xreg e (src inst ! 1)) (\<lambda>x. fill_new inst (shift_lane shift_left vs2 (\<lambda>_. Inr (sint x))) vd)
     else if operand_type inst = OT_VI then
       fill_new inst (shift_lane shift_left vs2 (\<lambda>_. Inr (uint (word_of_int (src inst ! 1) :: u32)))) vd
     else unsupported))"

definition exec_vsrl :: "ndp_instruction \<Rightarrow> unit exec" where
  "exec_vsrl inst =
     (if operand_type inst = OT_VI then
        xbind new_vector (\<lambda>vd.
        xbind (read_vreg (src inst ! 0)) (\<lambda>vs2. fill_new inst (srl_lane vs2 (uint (word_of_int (src inst ! 1) :: u32))) vd))
      else xret ())"

definition exec_vnadd :: "exec_env \<Rightarrow> ndp_instruction \<Rightarrow> unit exec" where
  "exec_vnadd e inst =
     xbind new_vector (\<lambda>vd.
     xbind (read_vreg (src inst ! 0)) (\<lambda>vs2.
     if operand_type inst = OT_WX then
       xbind (read_xreg e (src inst ! 1)) (\<lambda>x. fill_new inst (nadd_lane vs2 (ucast x)) vd)
     else if operand_type inst = OT_WV then write_vreg (dest inst) vd
     else unsupported))"

definition exec_vfrdiv :: "exec_env \<Rightarrow> ndp_instruction \<Rightarrow> unit exec" where
  "exec_vfrdiv e inst =
     xbind (read_vreg (src inst ! 0)) (\<lambda>vs1.
     xbind (read_freg (src inst ! 1)) (\<lambda>f.
     if operand_type inst = OT_VF then xbind (xlift (operator_float_divide (xe_fp e) f vs1)) (write_vreg (dest inst))
     else unsupported))"

section \<open>Moves\<close>

text \<open>The destination where it has a value already, or a new vector.\<close>

definition dest_or_new :: "ndp_instruction \<Rightarrow> bool \<Rightarrow> vector_data exec" where
  "dest_or_new inst also_if =
     xbind new_vector (\<lambda>vd. xbind (exists_vreg (dest inst)) (\<lambda>b. if b \<and> also_if then read_vreg (dest inst) else xret vd))"

definition vstart_index :: "nat exec" where
  "vstart_index = xbind get_vstart (\<lambda>st. if st < 0 then xlift (Inl Out_Of_Range) else xret (nat st))"

definition exec_vmv_x_s :: "exec_env \<Rightarrow> ndp_instruction \<Rightarrow> unit exec" where
  "exec_vmv_x_s e inst =
     xbind (read_vreg (src inst ! 0)) (\<lambda>f2.
     xbind get_csr (\<lambda>c.
     if vd_type f2 = VMASK then
       if csr_vsew c = 8 then
         xbind vstart_index (\<lambda>i. xbind (xlift (GetVmaskAsByte (8 * i) f2)) (\<lambda>b. write_xreg (dest inst) (ucast b)))
       else throw ''Not supported vmask type yet''
     else if vd_type f2 = CHAR8 then
       xbind vstart_index (\<lambda>i. xbind (xlift (GetCharData i f2)) (\<lambda>x. write_xreg (dest inst) (scast x)))
     else if vd_type f2 = UINT8 then xret ()
     else case type_kind (vd_type f2) of
            None \<Rightarrow> xret ()
          | Some k \<Rightarrow>
              xbind vstart_index (\<lambda>i. xbind (xlift (get_num (xe_fp e) k i f2)) (\<lambda>n.
              write_xreg (dest inst) (to_u64 (convert e K_I64 n))))))"

definition exec_vmv_s_x :: "exec_env \<Rightarrow> ndp_instruction \<Rightarrow> unit exec" where
  "exec_vmv_s_x e inst =
     xbind (read_vreg (dest inst)) (\<lambda>vd.
     xbind
       (if vd_type vd \<in> set slide_types then
          xbind (read_xreg e (src inst ! 0)) (\<lambda>x. xbind vstart_index (\<lambda>i. xlift (put_int e (vd_type vd) x i vd)))
        else xret vd) (write_vreg (dest inst)))"

definition exec_vmv :: "exec_env \<Rightarrow> ndp_instruction \<Rightarrow> unit exec" where
  "exec_vmv e inst =
     (let masked = (src inst ! 1 \<noteq> - 1)
      in xbind (if masked then read_vreg (src inst ! 1) else xret new_vector_data) (\<lambda>vm.
         xbind get_csr (\<lambda>c.
         if operand_type inst = OT_V_V then
           xbind (dest_or_new inst True) (\<lambda>_. xbind (read_vreg (src inst ! 0)) (write_vreg (dest inst)))
         else if operand_type inst = OT_V_I then
           xbind (dest_or_new inst masked) (fill_new inst (masked_lanes vm masked (vmv_imm (csr_vsew c) (word_of_int (src inst ! 0)))))
         else if operand_type inst = OT_V_X then
           xbind (dest_or_new inst True) (\<lambda>vd.
           xbind (read_xreg e (src inst ! 0)) (\<lambda>x. fill_new inst (masked_lanes vm masked (vmv_x (csr_vsew c) x)) vd))
         else if operand_type inst = OT_V_F then
           xbind (dest_or_new inst True) (\<lambda>vd.
           if \<not> CheckFloatOp inst then throw ''VFMV must use float dest register''
           else xbind (read_freg (src inst ! 0)) (\<lambda>f. fill_new inst (masked_lanes vm masked (vmv_f e (csr_vsew c) f)) vd))
         else if operand_type inst = OT_X_S then exec_vmv_x_s e inst
         else if operand_type inst = OT_S_X then exec_vmv_s_x e inst
         else unsupported)))"

definition exec_vid :: "ndp_instruction \<Rightarrow> unit exec" where
  "exec_vid inst = xbind get_csr (\<lambda>c. xbind new_vector (fill_new inst (vid_lane (csr_vsew c))))"

text \<open>\<^verbatim>\<open>vfmv\<close>; the first three forms compute a vector and do not write it.\<close>

definition fill_discarded :: "(vector_data \<Rightarrow> nat \<Rightarrow> vector_data res) \<Rightarrow> vector_data \<Rightarrow> unit exec" where
  "fill_discarded put vd = xbind get_vstart (\<lambda>st. xbind (xlift (for_lanes st (vlen_of vd) put vd)) (\<lambda>_. xret ()))"

definition exec_vfmv_v_f :: "exec_env \<Rightarrow> ndp_instruction \<Rightarrow> unit exec" where
  "exec_vfmv_v_f e inst =
     xbind (dest_or_new inst True) (\<lambda>vd.
     if \<not> CheckFloatOp inst then throw ''VFMV must use float dest register''
     else
       xbind (read_freg (src inst ! 0)) (\<lambda>f.
       xbind word_type_op (\<lambda>word.
       xbind get_vstart (\<lambda>st.
       let h = half_bits (convert e K_F16 (N_F32 f));
           put = (if word then (\<lambda>vd i. SetFloat f i vd)
                  else (\<lambda>vd i. res_bind (SetHalf (xe_fp e) h (2 * i) vd) (\<lambda>vd. SetHalf (xe_fp e) h (2 * i + 1) vd)))
       in xbind (xlift (for_lanes st (vlen_of vd) put vd)) (\<lambda>vd.
          write_vreg (dest inst) (SetType (if word then FLOAT32 else FLOAT16) vd))))))"

definition exec_vfmv :: "exec_env \<Rightarrow> ndp_instruction \<Rightarrow> unit exec" where
  "exec_vfmv e inst =
     xbind word_type_op (\<lambda>word.
     if operand_type inst = OT_V_V then xbind (read_vreg (src inst ! 0)) (\<lambda>_. xret ())
     else if operand_type inst = OT_V_I then
       fill_discarded (\<lambda>vd i. SetFloat (float_bits (convert e K_F32 (N_I32 (word_of_int (src inst ! 0))))) i vd) (new_vector_data_double word)
     else if operand_type inst = OT_V_X then
       xbind new_vector (\<lambda>vd. xbind (read_xreg e (src inst ! 0)) (\<lambda>x. fill_discarded (\<lambda>vd i. SetInt (ucast x) i vd) vd))
     else if operand_type inst = OT_V_F then exec_vfmv_v_f e inst
     else if operand_type inst = OT_F_S then
       xbind (read_vreg (src inst ! 0)) (\<lambda>vs.
       if is_float_type (vd_type vs) then
         xbind vstart_index (\<lambda>i. xbind (xlift (get_num (xe_fp e) (if vd_type vs = FLOAT32 then K_F32 else K_F16) i vs)) (\<lambda>n.
         write_freg (dest inst) (float_bits (convert e K_F32 n))))
       else xret ())
     else if operand_type inst = OT_S_F then
       xbind (read_vreg (dest inst)) (\<lambda>vd.
       xbind (read_freg (src inst ! 0)) (\<lambda>f.
       xbind vstart_index (\<lambda>i.
       xbind (xlift (set_num (xe_fp e) (if word then N_F32 f else convert e K_F16 (N_F32 f)) i vd)) (write_vreg (dest inst)))))
     else xret ())"

section \<open>Masks and comparisons\<close>

definition exec_vmset :: "ndp_instruction \<Rightarrow> unit exec" where
  "exec_vmset inst = xbind new_vector (fill_new inst (mask_lane (\<lambda>_. Inr True)))"

definition vmask_op :: "vmask_opcode \<Rightarrow> LogicalOp" where
  "vmask_op op = (if op = VMSEQ then EQ else if op = VMSNE then NE else if op = VMSLT then LT else if op = VMSLE then LE
     else if op = VMSGT then GT else GE)"

definition comparable :: "DataType \<Rightarrow> bool" where
  "comparable ty \<longleftrightarrow> ty \<in> set [INT64, INT32, INT16, CHAR8, UINT8, BOOL]"

definition exec_vmask :: "exec_env \<Rightarrow> vmask_opcode \<Rightarrow> ndp_instruction \<Rightarrow> unit exec" where
  "exec_vmask e op inst =
     xbind (read_vreg (src inst ! 0)) (\<lambda>vs1.
     xbind new_vector (\<lambda>vd.
     let ty = vd_type vs1; l = vmask_op op
     in if operand_type inst = OT_VV then
          xbind (read_vreg (src inst ! 1)) (\<lambda>vs2. fill_new inst (mask_lane (compare_vv e l vs1 vs2)) vd)
        else if operand_type inst = OT_VI then
          if comparable ty then fill_new inst (mask_lane (compare_int l vs1 (src inst ! 1))) vd
          else throw (if is_float_type ty then ''Immediate value cannot be Float type.'' else ''Unsupported type.'')
        else if operand_type inst = OT_VX then
          if comparable ty then xbind (read_xreg e (src inst ! 1)) (\<lambda>x. fill_new inst (mask_lane (compare_int l vs1 (sint x))) vd)
          else throw (if is_float_type ty then ''Operand type VX is not for Float type.'' else ''Unsupported type.'')
        else if operand_type inst = OT_VF then
          if is_float_type ty then xbind (read_freg (src inst ! 1)) (\<lambda>f. fill_new inst (mask_lane (compare_float e l vs1 f)) vd)
          else throw ''Unsupported type.''
        else write_vreg (dest inst) vd))"

definition exec_mask_logic :: "(vector_data \<Rightarrow> vector_data \<Rightarrow> nat \<Rightarrow> bool res) \<Rightarrow> ndp_instruction \<Rightarrow> unit exec" where
  "exec_mask_logic f inst =
     xbind (read_vreg (src inst ! 0)) (\<lambda>vs1.
     xbind new_vector (\<lambda>vd.
     if operand_type inst = OT_MM then
       xbind (read_vreg (src inst ! 1)) (\<lambda>vs2.
       xbind get_vstart (\<lambda>st.
       xbind (xlift (for_lanes st (vlen_of vd) (mask_lane (f vs1 vs2)) vd)) (\<lambda>vd. write_vreg (dest inst) (SetType VMASK vd))))
     else throw ''VMAND must use mm operand_type''))"

definition exec_vand :: "exec_env \<Rightarrow> ndp_instruction \<Rightarrow> unit exec" where
  "exec_vand e inst =
     xbind (read_vreg (src inst ! 0)) (\<lambda>vs1.
     xbind new_vector (\<lambda>vd.
     xbind get_csr (\<lambda>c.
     if operand_type inst = OT_VV then xbind (read_vreg (src inst ! 1)) (\<lambda>vs2. fill_new inst (vand_lane e vs1 vs2) vd)
     else if operand_type inst = OT_VI then fill_new inst (vand_imm_lane (csr_vsew c) vs1 (word_of_int (src inst ! 1))) vd
     else write_vreg (dest inst) vd)))"

definition exec_vor :: "exec_env \<Rightarrow> ndp_instruction \<Rightarrow> unit exec" where
  "exec_vor e inst =
     xbind (read_vreg (src inst ! 0)) (\<lambda>vs1.
     xbind (read_vreg (dest inst)) (\<lambda>vd.
     if operand_type inst = OT_VV then
       xbind (read_vreg (src inst ! 1)) (\<lambda>vs2. xbind (read_vreg (src inst ! 2)) (\<lambda>vm. fill_new inst (vor_lane e vs1 vs2 vm) vd))
     else write_vreg (dest inst) vd))"

definition exec_vfirst :: "ndp_instruction \<Rightarrow> unit exec" where
  "exec_vfirst inst =
     xbind (read_vreg (src inst ! 0)) (\<lambda>vs0.
     xbind (xlift (assert_that (vd_type vs0 = VMASK) ''vs0.GetType() == VMASK'')) (\<lambda>_.
     xbind get_vstart (\<lambda>st.
     xbind (xlift (first_lane vs0 (lanes st (vlen_of vs0)))) (\<lambda>k. write_xreg (dest inst) (word_of_int k)))))"

definition double_reg_op :: "bool exec" where
  "double_reg_op = xbind get_csr (\<lambda>c. xret (csr_vlmul c = 2))"

definition exec_vmin :: "exec_env \<Rightarrow> ndp_instruction \<Rightarrow> unit exec" where
  "exec_vmin e inst =
     xbind double_reg_op (\<lambda>dbl.
     xbind (read_vreg (src inst ! 0)) (\<lambda>vs1.
     let vd = SetType INT32 (new_vector_data_double dbl)
     in if operand_type inst = OT_VV then
          xbind (read_vreg (src inst ! 1)) (\<lambda>vs2. fill_new inst (extremal_lane e True (vd_type vs2) vs1 vs2) vd)
        else if operand_type inst \<in> set [OT_VI, OT_VF] then write_vreg (dest inst) vd
        else unsupported))"

definition exec_vmax :: "exec_env \<Rightarrow> ndp_instruction \<Rightarrow> unit exec" where
  "exec_vmax e inst =
     xbind (read_vreg (src inst ! 0)) (\<lambda>vs1.
     xbind new_vector (\<lambda>vd.
     if operand_type inst = OT_VV then
       xbind (read_vreg (src inst ! 1)) (\<lambda>vs2. fill_new inst (extremal_lane e False (vd_type vs1) vs1 vs2) vd)
     else if operand_type inst \<in> set [OT_VI, OT_VF] then write_vreg (dest inst) vd
     else unsupported))"

section \<open>Permutations\<close>

definition exec_vcompress :: "ndp_instruction \<Rightarrow> unit exec" where
  "exec_vcompress inst =
     xbind word_type_op (\<lambda>word.
     xbind (read_vreg (src inst ! 0)) (\<lambda>vs1.
     xbind new_vector (\<lambda>vd.
     if operand_type inst = OT_VM then
       xbind (read_vreg (src inst ! 1)) (\<lambda>vs2.
       xbind get_vstart (\<lambda>st. xbind (xlift (vcompress st (retype inst word vs1) vs2 vd)) (write_vreg (dest inst))))
     else unsupported)))"

definition exec_vslide1 ::
  "(int \<Rightarrow> vector_data \<Rightarrow> u64 \<Rightarrow> vector_data \<Rightarrow> vector_data res) \<Rightarrow> exec_env \<Rightarrow> ndp_instruction \<Rightarrow> unit exec" where
  "exec_vslide1 slide e inst =
     xbind (read_vreg (src inst ! 0)) (\<lambda>vs1.
     xbind new_vector (\<lambda>vd.
     xbind get_vstart (\<lambda>st.
     if vd_type vs1 \<in> set slide_types then
       xbind (read_xreg e (src inst ! 1)) (\<lambda>x. xbind (xlift (slide st vs1 x vd)) (write_vreg (dest inst)))
     else write_vreg (dest inst) vd)))"

definition exec_vslidedown :: "exec_env \<Rightarrow> ndp_instruction \<Rightarrow> unit exec" where
  "exec_vslidedown e inst =
     xbind (read_vreg (src inst ! 0)) (\<lambda>vs1.
     xbind new_vector (\<lambda>vd.
     xbind get_vstart (\<lambda>st.
     xbind
       (if operand_type inst = OT_VX then xbind (read_xreg e (src inst ! 1)) (\<lambda>x. xret (ucast x))
        else if operand_type inst = OT_VI then xret (word_of_int (src inst ! 1))
        else throw ''Unsupported operand type'') (\<lambda>move.
     if vd_type vs1 \<in> set slide_types \<and> vd_type vs1 \<noteq> INT64 then
       xbind (xlift (vslidedown e st vs1 move vd)) (write_vreg (dest inst))
     else write_vreg (dest inst) vd))))"

section \<open>Accumulation and conversion\<close>

definition exec_vfmacc :: "exec_env \<Rightarrow> ndp_instruction \<Rightarrow> unit exec" where
  "exec_vfmacc e inst =
     xbind (read_vreg (src inst ! 0)) (\<lambda>vs1.
     xbind (read_vreg (src inst ! 0)) (\<lambda>_.
     xbind (read_vreg (dest inst)) (\<lambda>vd.
     xbind
       (if operand_type inst = OT_VV then xbind (read_vreg (src inst ! 1)) (\<lambda>vs2. xlift (operator_times (xe_fp e) vs1 vs2))
        else if operand_type inst = OT_VF then xbind (read_freg (src inst ! 1)) (\<lambda>f. xlift (operator_times_float (xe_fp e) vs1 f))
        else unsupported) (\<lambda>prod.
     xbind (xlift (operator_plus (xe_fp e) prod vd)) (write_vreg (dest inst))))))"

definition exec_vfmsub :: "exec_env \<Rightarrow> ndp_instruction \<Rightarrow> unit exec" where
  "exec_vfmsub e inst =
     xbind (read_vreg (src inst ! 1)) (\<lambda>vs1.
     xbind (read_vreg (src inst ! 1)) (\<lambda>_.
     xbind (read_vreg (dest inst)) (\<lambda>vd.
     xbind
       (if operand_type inst = OT_VV then xbind (read_vreg (src inst ! 0)) (\<lambda>vs2. xlift (operator_times (xe_fp e) vd vs2))
        else if operand_type inst = OT_VF then xbind (read_freg (src inst ! 0)) (\<lambda>f. xlift (operator_times_float (xe_fp e) vd f))
        else unsupported) (\<lambda>prod.
     xbind (xlift (operator_minus (xe_fp e) prod vs1)) (write_vreg (dest inst))))))"

definition exec_vfwmacc :: "exec_env \<Rightarrow> ndp_instruction \<Rightarrow> unit exec" where
  "exec_vfwmacc e inst =
     xbind word_type_op (\<lambda>word.
     if word then throw ''VFWMACC must use double dest register''
     else
       xbind (read_vreg (src inst ! 0)) (\<lambda>vs1.
       xbind (read_vreg (src inst ! 0)) (\<lambda>_.
       xbind (read_vreg (dest inst)) (\<lambda>vd.
       if operand_type inst = OT_VV then
         xbind (read_vreg (src inst ! 1)) (\<lambda>vs2.
         if vd_type vs1 \<noteq> vd_type vs2 then throw ''VFWMACC must use same typed operands''
         else if vd_type vs1 = FLOAT16 \<or> vd_type vs1 = INT16 then
           xbind (xlift (operator_times (xe_fp e) vs1 vs2)) (\<lambda>prod.
           xbind (xlift (operator_plus (xe_fp e) (SetType (if vd_type vs1 = FLOAT16 then FLOAT32 else INT32) vd) prod)) (write_vreg (dest inst)))
         else throw ''Not supported type'')
       else if operand_type inst = OT_VF then
         if vd_type vs1 \<noteq> FLOAT16 \<and> vd_type vd \<noteq> FLOAT32 then throw ''VFWMACC.vf must use half typed operands''
         else
           xbind (read_freg (src inst ! 1)) (\<lambda>f.
           xbind get_csr (\<lambda>c.
           xbind (xlift (for_lanes 0 (vlen_of vd) (wmacc_lane e vs1 vd f) (SetType FLOAT32 (new_vector_data_sew 32 (csr_vlmul c * 2)))))
             (write_vreg (dest inst))))
       else unsupported))))"

definition exec_vfncvt :: "exec_env \<Rightarrow> ndp_instruction \<Rightarrow> unit exec" where
  "exec_vfncvt e inst =
     xbind (read_vreg (src inst ! 0)) (\<lambda>vs.
     let precision = (if vd_type vs = INT32 \<or> vd_type vs = FLOAT32 then 4 else 2);
         dbl = (32 < precision * int (vlen_of vs))
     in fill_new inst (ncvt_lane e (operand_type inst) vs) (new_vector_data_double dbl))"

definition exec_vfcvt :: "exec_env \<Rightarrow> ndp_instruction \<Rightarrow> unit exec" where
  "exec_vfcvt e inst =
     xbind new_vector (\<lambda>vd.
     xbind (read_vreg (src inst ! 0)) (\<lambda>vs. fill_new inst (cvt_lane e (operand_type inst) vs) vd))"

definition exec_vfwcvt :: "exec_env \<Rightarrow> ndp_instruction \<Rightarrow> unit exec" where
  "exec_vfwcvt e inst =
     xbind new_vector (\<lambda>vd.
     xbind (read_vreg (src inst ! 0)) (\<lambda>vs. fill_new inst (wcvt_lane e (operand_type inst) vs) (SetVectorDoubleReg vd)))"

definition exec_vfsqrt :: "exec_env \<Rightarrow> ndp_instruction \<Rightarrow> unit exec" where
  "exec_vfsqrt e inst =
     xbind (read_vreg (src inst ! 0)) (\<lambda>vs1.
     xbind new_vector (\<lambda>vd.
     if operand_type inst = OT_V then
       xbind get_vstart (\<lambda>st. xbind (xlift (for_lanes st (vlen_of vs1) (sqrt_lane e vs1) vd)) (write_vreg (dest inst)))
     else unsupported))"

definition exec_vfexp :: "exec_env \<Rightarrow> ndp_instruction \<Rightarrow> unit exec" where
  "exec_vfexp e inst =
     xbind (read_vreg (src inst ! 0)) (\<lambda>vs1.
     xbind new_vector (\<lambda>vd.
     if operand_type inst = OT_V then xbind (xlift (Exp_vector (xe_fp e) (SetType (vd_type vs1) vd) vs1)) (write_vreg (dest inst))
     else unsupported))"

text \<open>The register of the \<^verbatim>\<open>vf\<close> forms is read once per lane.\<close>

definition exec_vfsgn :: "exec_env \<Rightarrow> (bool \<Rightarrow> bool \<Rightarrow> bool) \<Rightarrow> ndp_instruction \<Rightarrow> unit exec" where
  "exec_vfsgn e sign inst =
     (if operand_type inst = OT_VV then
        xbind (read_vreg (src inst ! 0)) (\<lambda>vs1.
        xbind (read_vreg (src inst ! 1)) (\<lambda>vs2.
        xbind new_vector (fill_new inst (sgn_lane e sign vs1 (\<lambda>k i. get_num (xe_fp e) k i vs2) True))))
      else if operand_type inst = OT_VF then
        xbind (read_vreg (src inst ! 0)) (\<lambda>vs1.
        xbind new_vector (\<lambda>vd.
        xbind get_vstart (\<lambda>st.
        xbind
          (xfold (\<lambda>vd i.
             if vd_type vs1 = FLOAT32 then
               xbind (read_freg (src inst ! 1)) (\<lambda>f. xlift (sgn_lane e sign vs1 (\<lambda>_ _. Inr (N_F32 f)) False vd i))
             else unsupported) vd (lanes st (vlen_of vd))) (write_vreg (dest inst)))))
      else unsupported)"

section \<open>Reductions\<close>

definition reduce_operands :: "string \<Rightarrow> ndp_instruction \<Rightarrow> (vector_data \<times> vector_data) exec" where
  "reduce_operands msg inst =
     (if operand_type inst \<noteq> OT_VS then throw msg
      else xbind (read_vreg (src inst ! 0)) (\<lambda>vs1. xbind (read_vreg (src inst ! 1)) (\<lambda>vs2. xret (vs1, vs2))))"

definition all_lanes :: "nat \<Rightarrow> bool res" where
  "all_lanes i = Inr True"

definition exec_vred ::
  "string \<Rightarrow> (num_kind \<Rightarrow> vnum \<Rightarrow> vnum \<Rightarrow> vnum res) \<Rightarrow> exec_env \<Rightarrow> ndp_instruction \<Rightarrow> unit exec" where
  "exec_vred msg f e inst =
     xbind (reduce_operands msg inst) (\<lambda>(vs1, vs2).
     xbind new_vector (\<lambda>vd.
     xbind get_vstart (\<lambda>st.
     xbind (xlift (reduce_kind (vd_type vs2))) (\<lambda>k.
     xbind (xlift (vred e f all_lanes k st vs1 vs2 vd)) (write_vreg (dest inst))))))"

text \<open>The minimum looks at the lanes of its mask only, and at none without a mask.\<close>

definition exec_vredmin :: "exec_env \<Rightarrow> ndp_instruction \<Rightarrow> unit exec" where
  "exec_vredmin e inst =
     xbind (reduce_operands ''VREDMIN must use vector-vector[0]'' inst) (\<lambda>(vs1, vs2).
     let masked = (src inst ! 2 \<noteq> - 1)
     in xbind (if masked then read_vreg (src inst ! 2) else xret new_vector_data) (\<lambda>vm.
        xbind (xlift (assert_that (\<not> masked \<or> vd_type vm = VMASK) ''src[2] == -1 || vm.GetType() == VMASK'')) (\<lambda>_.
        xbind new_vector (\<lambda>vd.
        xbind get_vstart (\<lambda>st.
        xbind (xlift (reduce_kind (vd_type vs2))) (\<lambda>k.
        xbind (xlift (vred e (\<lambda>_. min_op e) (\<lambda>i. if masked then GetVmaskData i vm else Inr False) k st vs1 vs2 vd))
          (write_vreg (dest inst))))))))"

definition exec_vfred ::
  "(num_kind \<Rightarrow> vnum \<Rightarrow> vnum \<Rightarrow> vnum res) \<Rightarrow> bool \<Rightarrow> exec_env \<Rightarrow> ndp_instruction \<Rightarrow> unit exec" where
  "exec_vfred f pair_result e inst =
     xbind (reduce_operands ''VFREDOMAX must use vector-vector[0]'' inst) (\<lambda>(vs1, vs2).
     xbind word_type_op (\<lambda>word.
     xbind double_reg_op (\<lambda>dbl.
     xbind (if word \<and> pair_result then xret (new_vector_data_double dbl) else new_vector) (\<lambda>vd.
     xbind get_vstart (\<lambda>st.
     xbind (xlift (vred e f all_lanes (if word then K_F32 else K_F16) st vs1 vs2 vd)) (write_vreg (dest inst)))))))"

definition exec_vwred :: "string \<Rightarrow> (u32 \<Rightarrow> vnum \<Rightarrow> u32) \<Rightarrow> exec_env \<Rightarrow> ndp_instruction \<Rightarrow> unit exec" where
  "exec_vwred msg f e inst =
     xbind (reduce_operands msg inst) (\<lambda>(vs1, vs2).
     if vd_type vs1 = FLOAT16 \<and> vd_type vs2 = FLOAT16 then
       xbind get_csr (\<lambda>c.
       xbind (xlift (vwred e f (csr_vstart c) vs1 vs2 (SetType FLOAT32 (new_vector_data_sew 32 (csr_vlmul c))))) (write_vreg (dest inst)))
     else xret ())"

section \<open>Memory\<close>

definition vector_addr :: "exec_env \<Rightarrow> ndp_instruction \<Rightarrow> u64 exec" where
  "vector_addr e inst = effective_addr e inst"

definition exec_vle :: "exec_env \<Rightarrow> ndp_instruction \<Rightarrow> unit exec" where
  "exec_vle e inst = xbind (vector_addr e inst) (\<lambda>addr. xbind (MemoryMapLoad e addr) (write_vreg (dest inst)))"

definition load_pair :: "exec_env \<Rightarrow> u64 \<Rightarrow> vector_data \<Rightarrow> vector_data exec" where
  "load_pair e addr vd = xbind (MemoryMapLoad e (addr + 32)) (\<lambda>vd2. xlift (Append vd2 vd))"

definition exec_vle32 :: "exec_env \<Rightarrow> ndp_instruction \<Rightarrow> unit exec" where
  "exec_vle32 e inst =
     xbind (vector_addr e inst) (\<lambda>addr.
     xbind (MemoryMapLoad e addr) (\<lambda>vd.
     xbind double_reg_op (\<lambda>dbl.
     xbind (if dbl then load_pair e addr vd else xret vd) (write_vreg (dest inst)))))"

text \<open>With a grouping of eight, the first packet is appended to itself before the others are appended.\<close>

definition load_group :: "exec_env \<Rightarrow> u64 \<Rightarrow> vector_data exec" where
  "load_group e addr =
     xbind (MemoryMapLoad e addr) (\<lambda>v0.
     xbind (xlift (Append v0 v0)) (\<lambda>v0.
     xfold (\<lambda>v0 i. xbind (MemoryMapLoad e (addr + of_nat (i * 32))) (\<lambda>v. xlift (Append v v0))) v0 [1..<8]))"

definition exec_vle64 :: "exec_env \<Rightarrow> ndp_instruction \<Rightarrow> unit exec" where
  "exec_vle64 e inst =
     xbind (vector_addr e inst) (\<lambda>addr.
     xbind (MemoryMapLoad e addr) (\<lambda>vd.
     xbind get_csr (\<lambda>c.
     xbind (if csr_vlmul c = 2 then load_pair e addr vd else if csr_vlmul c = 8 then load_group e addr else xret vd)
       (write_vreg (dest inst)))))"

definition exec_vse :: "exec_env \<Rightarrow> ndp_instruction \<Rightarrow> unit exec" where
  "exec_vse e inst =
     xbind (vector_addr e inst) (\<lambda>addr. xbind (read_vreg (dest inst)) (MemoryMapStore e addr))"

definition exec_vse_pair :: "exec_env \<Rightarrow> ndp_instruction \<Rightarrow> unit exec" where
  "exec_vse_pair e inst =
     xbind (vector_addr e inst) (\<lambda>addr.
     xbind (read_vreg (dest inst)) (\<lambda>vs.
     xbind double_reg_op (\<lambda>dbl.
     if dbl then
       xbind (xlift (Split vs)) (\<lambda>(lo, hi). xbind (MemoryMapStore e addr lo) (\<lambda>_. MemoryMapStore e (addr + 32) hi))
     else MemoryMapStore e addr vs)))"

text \<open>\<^verbatim>\<open>amo_loop\<close>: a packet that cannot be loaded counts as zeros of the type of the operand; only the exception is caught.\<close>

definition amo_load :: "exec_env \<Rightarrow> u64 \<Rightarrow> vector_data \<Rightarrow> vector_data exec" where
  "amo_load e addr vs s =
     (case mm_load e (FormatAddr addr) (GetMemoryMap addr s) of
        Inl (Runtime_Error _) \<Rightarrow> Inr (SetType (vd_type vs) (new_vector_data_sew (unat (GetPrecision vs) * 8) 1), s)
      | Inl err \<Rightarrow> Inl err
      | Inr v \<Rightarrow> Inr (v, s))"

definition amo_lane :: "exec_env \<Rightarrow> ArithOp \<Rightarrow> vector_data \<Rightarrow> vector_data \<Rightarrow> vector_data \<Rightarrow> u64 \<Rightarrow> unit \<Rightarrow> nat \<Rightarrow> unit exec" where
  "amo_lane e op vmask offsets vs base _ i =
     xbind (xlift (assert_that (vd_type vmask = VMASK) ''vmask.GetType() == VMASK'')) (\<lambda>_.
     xbind (xlift (GetVmaskData i vmask)) (\<lambda>on.
     if \<not> on then xret ()
     else
       xbind (xlift (amo_offset offsets i)) (\<lambda>(offset, w).
       let addr = base + offset; idx = unat addr mod 32 div w
       in xbind (amo_load e addr vs) (\<lambda>vd.
          xbind (xlift (amo_update e op vs i idx vd)) (\<lambda>vd. MemoryMapStore e (FormatAddr addr) vd)))))"

definition exec_vamo :: "exec_env \<Rightarrow> ndp_instruction \<Rightarrow> unit exec" where
  "exec_vamo e inst =
     xbind (read_xreg e (src inst ! 0)) (\<lambda>base.
     xbind (read_vreg (src inst ! 1)) (\<lambda>offset.
     xbind (read_vreg (src inst ! 2)) (\<lambda>vs.
     xbind new_vector (\<lambda>vmask.
     xbind (xlift (for_lanes 0 (vlen_of vmask) (mask_lane (\<lambda>_. Inr True)) vmask)) (\<lambda>vmask.
     xbind (if src inst ! 3 \<noteq> - 1 then read_vreg (src inst ! 3) else xret vmask) (\<lambda>vmask.
     xbind (xlift (GetArithOp inst)) (\<lambda>op.
     xfold (amo_lane e op (SetType VMASK vmask) offset vs base) () [0..<vlen_of offset])))))))"

text \<open>Gather and scatter of words, whose mask is read from register \<^verbatim>\<open>src[3]\<close> in any case.\<close>

definition gather_lane :: "exec_env \<Rightarrow> u64 \<Rightarrow> vector_data \<Rightarrow> vector_data \<Rightarrow> vector_data \<Rightarrow> nat \<Rightarrow> vector_data exec" where
  "gather_lane e base vs2 vs3 vd i =
     xbind (xlift (GetIntData i vs2)) (\<lambda>idx.
     xbind (xlift (GetVmaskData i vs3)) (\<lambda>on.
     if vd_type vs3 = VMASK \<and> \<not> on then xret vd
     else
       let addr = base + scast idx; k = unat addr mod 32 div 4
       in xbind (MemoryMapLoad e addr) (\<lambda>vs.
          if vd_type vs = FLOAT32 then xlift (res_bind (GetFloatData k vs) (\<lambda>x. SetFloat x i vd))
          else if vd_type vs = INT32 then xlift (res_bind (GetIntData k vs) (\<lambda>x. SetInt x i vd))
          else xret vd)))"

definition exec_vluxei32 :: "exec_env \<Rightarrow> ndp_instruction \<Rightarrow> unit exec" where
  "exec_vluxei32 e inst =
     xbind (vector_addr e inst) (\<lambda>base.
     xbind (read_vreg (src inst ! 2)) (\<lambda>vs2.
     xbind (read_vreg (src inst ! 3)) (\<lambda>vs3.
     xbind new_vector (\<lambda>vd.
     xbind (xfold (gather_lane e base vs2 vs3) vd [0..<8]) (\<lambda>vd.
     xbind (write_vreg (dest inst) vd) (\<lambda>_.
     xlift (assert_that (vd_type vd = INT32 \<or> vd_type vd = FLOAT32) ''vd.GetType() == INT32 || vd.GetType() == FLOAT32'')))))))"

definition gather_long_lane :: "exec_env \<Rightarrow> u64 \<Rightarrow> vector_data \<Rightarrow> vector_data \<Rightarrow> vector_data \<Rightarrow> nat \<Rightarrow> vector_data exec" where
  "gather_long_lane e base vs2 vm vd i =
     xbind (if vd_type vm = VMASK then xlift (GetVmaskData i vm) else xret True) (\<lambda>on.
     if \<not> on then xret vd
     else
       xbind (xlift (GetLongData i vs2)) (\<lambda>idx.
       let addr = base + idx
       in xbind (MemoryMapLoad e addr) (\<lambda>vs.
          xbind (xlift (assert_that (vd_type vs = INT64) ''vs.GetType() == INT64'')) (\<lambda>_.
          xlift (res_bind (GetLongData (unat addr mod 32 div 8) vs) (\<lambda>x. SetLong x i vd))))))"

definition exec_vluxei64 :: "exec_env \<Rightarrow> ndp_instruction \<Rightarrow> unit exec" where
  "exec_vluxei64 e inst =
     xbind (vector_addr e inst) (\<lambda>base.
     xbind (read_vreg (src inst ! 2)) (\<lambda>vs2.
     xbind new_vector (\<lambda>vd.
     xbind (if src inst ! 3 \<noteq> - 1 then read_vreg (src inst ! 3) else xret new_vector_data) (\<lambda>vm.
     xbind get_csr (\<lambda>c.
     xbind (xfold (gather_long_lane e base vs2 vm) vd [0..<nat \<lceil>32 * csr_vlmul c / 8\<rceil>]) (write_vreg (dest inst)))))))"

definition scatter_lane :: "exec_env \<Rightarrow> u64 \<Rightarrow> vector_data \<Rightarrow> vector_data \<Rightarrow> vector_data \<Rightarrow> unit \<Rightarrow> nat \<Rightarrow> unit exec" where
  "scatter_lane e base vs2 vs3 vd _ i =
     xbind (xlift (GetIntData i vs2)) (\<lambda>idx.
     xbind (xlift (GetVmaskData i vs3)) (\<lambda>on.
     if vd_type vs3 = VMASK \<and> \<not> on then xret ()
     else
       let addr = base + scast idx; k = unat addr mod 32 div 4
       in xbind (load_or_new e addr) (\<lambda>packet.
          xbind
            (if vd_type vd = FLOAT32 then xlift (res_bind (GetFloatData i vd) (\<lambda>x. SetFloat x k packet))
             else if vd_type vd = INT32 then xlift (res_bind (GetIntData i vd) (\<lambda>x. SetInt x k packet))
             else throw ''Unsupported Data Type (VSUXEI32)'') (MemoryMapStore e addr))))"

definition exec_vsuxei32 :: "exec_env \<Rightarrow> ndp_instruction \<Rightarrow> unit exec" where
  "exec_vsuxei32 e inst =
     xbind (vector_addr e inst) (\<lambda>base.
     xbind (read_vreg (src inst ! 2)) (\<lambda>vs2.
     xbind (read_vreg (dest inst)) (\<lambda>vd.
     xbind (read_vreg (src inst ! 3)) (\<lambda>vs3.
     xfold (scatter_lane e base vs2 vs3 vd) () [0..<8]))))"

text \<open>
  Segment loads. The offset of a 64-bit index is computed in signed, that of a narrower one in unsigned 32-bit
  arithmetic. At most eight segments have a vector.
\<close>

definition seg_offset :: "nat \<Rightarrow> vector_data \<Rightarrow> nat \<Rightarrow> u64 res" where
  "seg_offset vsew vs2 i =
     (case vd_type vs2 of
        INT64 \<Rightarrow> res_bind (GetLongData i vs2) (\<lambda>x. Inr (word_of_int (trunc_div (sint (x * of_nat vsew)) 8)))
      | INT32 \<Rightarrow> res_bind (GetIntData i vs2) (\<lambda>x. Inr (ucast (x * of_nat vsew div 8)))
      | INT16 \<Rightarrow> res_bind (GetShortData i vs2) (\<lambda>x. Inr (ucast ((scast x :: u32) * of_nat vsew div 8)))
      | _ \<Rightarrow> Inl (Runtime_Error ''Unsupported type''))"

definition seg_elem :: "exec_env \<Rightarrow> nat \<Rightarrow> u64 \<Rightarrow> nat \<Rightarrow> vector_data list \<Rightarrow> nat \<Rightarrow> vector_data list exec" where
  "seg_elem e vsew addr i vds j =
     (let new_addr = addr + of_nat (j * vsew div 8); base = FormatAddr new_addr; k = unat (new_addr - base) mod 32
      in xbind (MemoryMapLoad e base) (\<lambda>vs.
         if j < length vds then
           if vd_type vs = CHAR8 then xlift (res_bind (GetCharData k vs) (\<lambda>x. res_bind (SetChar x i (vds ! j)) (\<lambda>v. Inr (vds[j := v]))))
           else if vd_type vs = UINT8 then xlift (res_bind (GetU8Data k vs) (\<lambda>x. res_bind (SetU8 x i (vds ! j)) (\<lambda>v. Inr (vds[j := v]))))
           else xret vds
         else xlift (Inl Out_Of_Range)))"

definition exec_vlsseg :: "exec_env \<Rightarrow> ndp_instruction \<Rightarrow> unit exec" where
  "exec_vlsseg e inst =
     xbind (read_xreg e (src inst ! 0)) (\<lambda>base.
     xbind (read_vreg (src inst ! 1)) (\<lambda>vs2.
     xbind new_vector (\<lambda>temp.
     xbind get_csr (\<lambda>c.
     let segs = [0..<nat (segCnt inst)]
     in if operand_type inst = OT_V then
          xbind
            (xfold (\<lambda>vds i. xbind (xlift (seg_offset (csr_vsew c) vs2 i)) (\<lambda>offset.
               xfold (seg_elem e (csr_vsew c) (base + offset) i) vds segs)) (replicate 8 temp) (lanes (csr_vstart c) (vlen_of vs2))) (\<lambda>vds.
          xfold (\<lambda>_ i. if i < length (segDest inst) \<and> i < length vds then write_vreg (segDest inst ! i) (vds ! i)
            else xlift (Inl Out_Of_Range)) () segs)
        else throw ''Unsupported Segment Indexed Load instruction''))))"

definition exec_test :: "exec_env \<Rightarrow> ndp_instruction \<Rightarrow> unit exec" where
  "exec_test e inst =
     (if operand_type inst = OT_V_X then xbind (read_xreg e (src inst ! 0)) (\<lambda>_. xbind (read_xreg e (src inst ! 0)) (\<lambda>_. xret ()))
      else if operand_type inst = OT_V_F then xbind (read_freg (src inst ! 0)) (\<lambda>_. xret ())
      else xbind (read_vreg (src inst ! 0)) (\<lambda>_. xret ()))"

section \<open>Dispatch\<close>

definition exec_vector_op :: "exec_env \<Rightarrow> vector_opcode \<Rightarrow> ndp_instruction \<Rightarrow> unit exec" where
  "exec_vector_op e op inst =
     (if op = VSETVLI then exec_vsetvli inst
      else if op = VADD \<or> op = VFADD then exec_vadd e inst
      else if op = VSUB \<or> op = VFSUB then exec_vsub e inst
      else if op = VFWSUB then exec_vfwsub e inst
      else if op = VRSUB \<or> op = VFRSUB then exec_vrsub e inst
      else if op = VMUL \<or> op = VFMUL then exec_vmul e inst
      else if op = VFWMUL then exec_vfwmul e inst
      else if op = VDIV \<or> op = VFDIV then exec_vdiv e inst
      else if op = VSLL then exec_vsll e inst
      else if op = VSRL then exec_vsrl inst
      else if op = VSRA then xret ()
      else if op = VNADD then exec_vnadd e inst
      else if op = VFRDIV then exec_vfrdiv e inst
      else if op = VMV then exec_vmv e inst
      else if op = VMIN then exec_vmin e inst
      else if op = VMAX then exec_vmax e inst
      else if op = VFMACC then exec_vfmacc e inst
      else if op = VFMSUB then exec_vfmsub e inst
      else if op = VFWMACC then exec_vfwmacc e inst
      else if op = VFNCVT then exec_vfncvt e inst
      else if op = VFCVT then exec_vfcvt e inst
      else if op = VFWCVT then exec_vfwcvt e inst
      else if op = VFMV then exec_vfmv e inst
      else if op = VFSQRT then exec_vfsqrt e inst
      else if op = VFREDOMAX then exec_vfred (\<lambda>_. max_op e) True e inst
      else if op = VFREDOSUM then exec_vfred (sum_op e) False e inst
      else if op = VWREDOSUM then exec_vwred ''VFREDOMAX must use vector-vector[0]'' (wsum_op e) e inst
      else if op = VWREDOMAX then exec_vwred ''VWREDOMAX must use vector-vector[0]'' (wmax_op e) e inst
      else unsupported)"

definition exec_vmask_op :: "exec_env \<Rightarrow> vmask_opcode \<Rightarrow> ndp_instruction \<Rightarrow> unit exec" where
  "exec_vmask_op e op inst =
     (if op = VID then exec_vid inst
      else if op = VMSET then exec_vmset inst
      else if CheckVmaskOp inst then exec_vmask e op inst
      else if op = VMAND then exec_mask_logic vmand_lane inst
      else if op = VMOR then exec_mask_logic vmor_lane inst
      else if op = VAND then exec_vand e inst
      else if op = VOR then exec_vor e inst
      else if op = VFIRST then exec_vfirst inst
      else if op = VCOMPRESS then exec_vcompress inst
      else unsupported)"

definition exec_vextra_op :: "exec_env \<Rightarrow> vextra_opcode \<Rightarrow> ndp_instruction \<Rightarrow> unit exec" where
  "exec_vextra_op e op inst =
     (if op = VSLIDE1DOWN then exec_vslide1 (vslide1down e) e inst
      else if op = VSLIDEDOWN then exec_vslidedown e inst
      else if op = VSLIDE1UP then exec_vslide1 (vslide1up e) e inst
      else if op = VSLIDEUP then xret ()
      else if op = VLSSEG then exec_vlsseg e inst
      else if op = VREDSUM then exec_vred ''VREDSUM must use vector-vector[0]'' (sum_op e) e inst
      else if op = VREDMAX then exec_vred ''VREDMAX must use vector-vector[0]'' (\<lambda>_. max_op e) e inst
      else if op = VREDMIN then exec_vredmin e inst
      else if op = VREDOR then exec_vred ''VREDOR must use vector-vector[0]'' (or_op e) e inst
      else if op = VLUXEI32 then exec_vluxei32 e inst
      else if op = VLUXEI64 then exec_vluxei64 e inst
      else if op = VSUXEI32 then exec_vsuxei32 e inst
      else if op = VFSGNJ then exec_vfsgn e (\<lambda>_ neg2. neg2) inst
      else if op = VFSGNJN then exec_vfsgn e (\<lambda>_ neg2. \<not> neg2) inst
      else if op = VFSGNJX then exec_vfsgn e (\<lambda>neg1 neg2. neg1 \<noteq> neg2) inst
      else unsupported)"

definition exec_vmem_op :: "exec_env \<Rightarrow> vmem_opcode \<Rightarrow> ndp_instruction \<Rightarrow> unit exec" where
  "exec_vmem_op e op inst =
     (if op = VLE8 \<or> op = VLE16 then exec_vle e inst
      else if op = VLE32 then exec_vle32 e inst
      else if op = VLE64 then exec_vle64 e inst
      else if op = VSE8 \<or> op = VSE16 then exec_vse e inst
      else if op = VSE32 \<or> op = VSE64 then exec_vse_pair e inst
      else if CheckVectorOp inst \<and> CheckAmoOp inst then exec_vamo e inst
      else unsupported)"

definition ExecuteVector :: "exec_env \<Rightarrow> ndp_instruction \<Rightarrow> unit exec" where
  "ExecuteVector e inst =
     xbind
       (case opcode inst of
          Vector op \<Rightarrow> exec_vector_op e op inst
        | Vmask op \<Rightarrow> exec_vmask_op e op inst
        | Vextra op \<Rightarrow> exec_vextra_op e op inst
        | Vmem op \<Rightarrow> exec_vmem_op e op inst
        | Special TEST \<Rightarrow> exec_test e inst
        | Special VFEXP \<Rightarrow> exec_vfexp e inst
        | _ \<Rightarrow> unsupported) (\<lambda>_.
     set_csr (\<lambda>c. c\<lparr>csr_vstart := 0\<rparr>))"

text \<open>The instruction is returned with the branch flag set.\<close>

definition Execute :: "exec_env \<Rightarrow> ndp_instruction \<Rightarrow> ndp_instruction exec" where
  "Execute e inst =
     (if opcode inst = Special EXIT then xret inst
      else if CheckBranchOp inst then ExecuteBranch e inst
      else if CheckCsrOp inst \<or> CheckVectorOp inst \<or> CheckSegOp inst then xbind (ExecuteVector e inst) (\<lambda>_. xret inst)
      else if CheckScalarOp inst then xbind (ExecuteScalar e inst) (\<lambda>_. xret inst)
      else throw ''Unsupported instruction'')"

section \<open>What an execution leaves alone\<close>

lemma ReadVreg_frame:
  "ReadVreg reg vsew vlmul r = Inr (v, r') \<Longrightarrow> reg_frame (vr_unit r) (vr_unit r') \<and> vr_table r' = vr_table r"
  by (auto simp: ReadVreg_def count_v_def res_simps split: if_splits intro!: reg_frame_count_trans)

lemma set_vreg_value_frame:
  "set_vreg_value reg v r = Inr r' \<Longrightarrow> vr_unit r' = vr_unit r \<and> length (vr_table r') = length (vr_table r)"
  by (auto simp: set_vreg_value_def Let_def split: if_splits)

lemma WriteVreg_frame:
  assumes "WriteVreg reg v vlmul r = Inr r'"
  shows "reg_frame (vr_unit r) (vr_unit r') \<and> length (vr_table r') = length (vr_table r)"
proof (cases "vlmul = 2 \<or> vd_double_reg v")
  case True
  then obtain lo hi r1 where r1: "Split v = Inr (lo, hi)" "set_vreg_value reg lo r = Inr r1"
    using assms by (auto simp: WriteVreg_def res_simps split: if_splits)
  then obtain q r2 where "set_vreg_value q hi r1 = Inr r2" "r' = count_v V_WRITE (count_v V_WRITE r2)"
    using assms True
    by (cases "map_of (ru_double (vr_unit r1)) reg") (auto simp: WriteVreg_def res_simps split: if_splits)
  then show ?thesis
    using r1 by (auto simp: count_v_def dest!: set_vreg_value_frame intro!: reg_frame_count_trans)
next
  case False
  then show ?thesis
    using assms by (auto simp: WriteVreg_def count_v_def res_simps split: if_splits dest!: set_vreg_value_frame)
qed

lemma preserves_vregs [frame_intros]: "preserves (read_vreg reg)" "preserves (write_vreg reg v)" "preserves (exists_vreg reg)"
  by (auto simp: preserves_def read_vreg_def write_vreg_def exists_vreg_def frame_def res_simps dest: ReadVreg_frame WriteVreg_frame)

lemma preserves_context [frame_intros]:
  "preserves word_type_op" "preserves get_vstart" "preserves vstart_index" "preserves double_reg_op" "preserves unsupported"
  unfolding word_type_op_def vstart_index_def get_vstart_def double_reg_op_def unsupported_def by (intro frame_intros)+

lemma preserves_operands [frame_intros]:
  "preserves (second_operand e inst)" "preserves (fill_new inst put vd)" "preserves (fill_discarded put vd)" "preserves (dest_or_new inst b)"
  "preserves (reduce_operands msg inst)" "preserves (load_pair e addr vd)" "preserves (load_group e addr)" "preserves (vector_addr e inst)"
  unfolding second_operand_def fill_new_def fill_discarded_def dest_or_new_def reduce_operands_def load_pair_def load_group_def vector_addr_def
  by (intro frame_intros)+

lemma preserves_amo_load [frame_intros]: "preserves (amo_load e addr vs)"
  by (auto simp: preserves_def amo_load_def split: sum.splits error.splits)

lemma preserves_vector_arith [frame_intros]:
  "preserves (exec_vsetvli inst)" "preserves (exec_vadd e inst)" "preserves (exec_vsub e inst)" "preserves (exec_vfwsub e inst)"
  "preserves (exec_vrsub e inst)" "preserves (exec_vmul e inst)" "preserves (exec_vfwmul e inst)" "preserves (exec_vdiv e inst)"
  "preserves (exec_vsll e inst)" "preserves (exec_vsrl inst)" "preserves (exec_vnadd e inst)" "preserves (exec_vfrdiv e inst)"
  unfolding exec_vsetvli_def exec_vadd_def exec_vsub_def exec_vfwsub_def exec_vrsub_def exec_vmul_def exec_vfwmul_def exec_vdiv_def
    exec_vsll_def exec_vsrl_def exec_vnadd_def exec_vfrdiv_def
  by (intro frame_intros)+

lemma preserves_vector_moves [frame_intros]:
  "preserves (exec_vmv e inst)" "preserves (exec_vid inst)" "preserves (exec_vfmv e inst)" "preserves (exec_vmset inst)"
  "preserves (exec_vmask e op inst)" "preserves (exec_mask_logic f inst)" "preserves (exec_vand e inst)" "preserves (exec_vor e inst)"
  "preserves (exec_vfirst inst)" "preserves (exec_vmin e inst)" "preserves (exec_vmax e inst)" "preserves (exec_vcompress inst)"
  "preserves (exec_vslide1 slide e inst)" "preserves (exec_vslidedown e inst)"
  unfolding exec_vmv_def exec_vmv_x_s_def exec_vmv_s_x_def exec_vid_def exec_vfmv_def exec_vfmv_v_f_def exec_vmset_def exec_vmask_def
    exec_mask_logic_def exec_vand_def exec_vor_def exec_vfirst_def exec_vmin_def exec_vmax_def exec_vcompress_def exec_vslide1_def exec_vslidedown_def
  by (intro frame_intros)+

lemma preserves_vector_accumulation [frame_intros]:
  "preserves (exec_vfmacc e inst)" "preserves (exec_vfmsub e inst)" "preserves (exec_vfwmacc e inst)" "preserves (exec_vfncvt e inst)"
  "preserves (exec_vfcvt e inst)" "preserves (exec_vfwcvt e inst)" "preserves (exec_vfsqrt e inst)" "preserves (exec_vfexp e inst)"
  "preserves (exec_vfsgn e sign inst)" "preserves (exec_vred msg f e inst)" "preserves (exec_vredmin e inst)" "preserves (exec_vfred f b e inst)"
  "preserves (exec_vwred msg g e inst)" "preserves (exec_test e inst)"
  unfolding exec_vfmacc_def exec_vfmsub_def exec_vfwmacc_def exec_vfncvt_def exec_vfcvt_def exec_vfwcvt_def exec_vfsqrt_def exec_vfexp_def
    exec_vfsgn_def exec_vred_def exec_vredmin_def exec_vfred_def exec_vwred_def exec_test_def
  by (intro frame_intros)+

lemma preserves_vector_memory [frame_intros]:
  "preserves (exec_vle e inst)" "preserves (exec_vle32 e inst)" "preserves (exec_vle64 e inst)" "preserves (exec_vse e inst)"
  "preserves (exec_vse_pair e inst)" "preserves (exec_vamo e inst)" "preserves (exec_vluxei32 e inst)" "preserves (exec_vluxei64 e inst)"
  "preserves (exec_vsuxei32 e inst)" "preserves (exec_vlsseg e inst)"
  unfolding exec_vle_def exec_vle32_def exec_vle64_def exec_vse_def exec_vse_pair_def exec_vamo_def amo_lane_def exec_vluxei32_def gather_lane_def
    exec_vluxei64_def gather_long_lane_def exec_vsuxei32_def scatter_lane_def exec_vlsseg_def seg_elem_def
  by (intro frame_intros)+

lemma preserves_dispatch:
  "preserves (exec_vector_op e vop inst)" "preserves (exec_vmask_op e mop inst)" "preserves (exec_vextra_op e xop inst)"
  "preserves (exec_vmem_op e memop inst)"
  unfolding exec_vector_op_def exec_vmask_op_def exec_vextra_op_def exec_vmem_op_def by (intro frame_intros)+

lemma preserves_ExecuteVector [frame_intros]: "preserves (ExecuteVector e inst)"
proof -
  have "preserves (case opcode inst of Vector op \<Rightarrow> exec_vector_op e op inst | Vmask op \<Rightarrow> exec_vmask_op e op inst
     | Vextra op \<Rightarrow> exec_vextra_op e op inst | Vmem op \<Rightarrow> exec_vmem_op e op inst | Special TEST \<Rightarrow> exec_test e inst
     | Special VFEXP \<Rightarrow> exec_vfexp e inst | _ \<Rightarrow> unsupported)"
    by (cases "opcode inst") (auto intro: frame_intros preserves_dispatch split: special_opcode.splits)
  then show ?thesis
    unfolding ExecuteVector_def by (intro frame_intros)
qed

lemma preserves_Execute: "preserves (Execute e inst)"
  unfolding Execute_def by (intro frame_intros)

lemma execute_branch_flag:
  assumes "Execute e inst s = Inr (inst', s')"
  shows "inst' = inst\<lparr>doBranch := doBranch inst'\<rparr>"
  using assms by (auto simp: Execute_def ExecuteBranch_def xbind_def xret_def throw_def xlift_def res_simps split: if_splits Opcode.splits)

end
