(* ===== verification/Execution_Unit.thy ===== *)
theory Execution_Unit
  imports Ldst_Unit Vector_Execution
begin

text \<open>
  \<^verbatim>\<open>src/execution_unit.h\<close> and \<^verbatim>\<open>src/execution_unit.cc\<close>: the issue stage and the functional units of a sub-core. An
  instruction is issued when its registers are ready and a unit of its kind is free: its packet addresses are computed, it
  is executed, its destination is marked busy, and it waits in the unit for its latency. Memory instructions go on to
  the load-store unit. The context points to the control registers and the loop map of the instruction's column; they are
  found by the column's id. The instruction is executed by \<open>Vector_Execution.Execute\<close>. The register grouping is a rational
  number, as in the model of vector values, and its conversion to an integer truncates.
\<close>

section \<open>State\<close>

datatype UnitType = SPAD_UNIT | LDST_UNIT | INT_UNIT | SF_UNIT | FP_UNIT

record exec_config =
  ec_packet_size :: nat
  ec_latency :: "AluOpType \<Rightarrow> int"
  ec_interval :: "AluOpType \<Rightarrow> int"
  ec_functional_sim :: bool
  ec_all_vector :: bool
  ec_unified_alu :: bool
  ec_num_units :: "nat list"

record exec_unit =
  eu_ndp_id :: int
  eu_sub_core_id :: int
  eu_regs :: "u32 vector_registers"
  eu_stats :: ndp_stats
  eu_to_ldst :: "exec_op fifo_pipeline"
  eu_to_spad :: "exec_op fifo_pipeline"
  eu_to_v_ldst :: "exec_op fifo_pipeline"
  eu_to_v_spad :: "exec_op fifo_pipeline"
  eu_i :: "exec_queue list"
  eu_f :: "exec_queue list"
  eu_sf :: "exec_queue list"
  eu_address :: "exec_queue list"
  eu_v_i :: "exec_queue list"
  eu_v_f :: "exec_queue list"
  eu_v_sf :: "exec_queue list"
  eu_v_address :: "exec_queue list"
  eu_finished :: "inst_context list"
  eu_csr :: "int \<Rightarrow> csr"
  eu_loop_map :: "int \<Rightarrow> int \<rightharpoonup> int"
  eu_memory :: MemoryMap
  eu_scratchpads :: "u64 \<Rightarrow> MemoryMap"

text \<open>The constructor; the numbers of units come in the order of its loops.\<close>

definition new_exec_unit ::
  "exec_config \<Rightarrow> int \<Rightarrow> int \<Rightarrow> u32 vector_registers \<Rightarrow> ndp_stats \<Rightarrow> exec_op fifo_pipeline \<Rightarrow> exec_op fifo_pipeline \<Rightarrow> exec_op fifo_pipeline
    \<Rightarrow> exec_op fifo_pipeline \<Rightarrow> (int \<Rightarrow> csr) \<Rightarrow> (int \<Rightarrow> int \<rightharpoonup> int) \<Rightarrow> MemoryMap \<Rightarrow> (u64 \<Rightarrow> MemoryMap)
    \<Rightarrow> exec_unit" where
  "new_exec_unit ec ndp_id sub_core_id regs stats to_ldst to_spad to_v_ldst to_v_spad csrs loops memory spads =
     (let n = (\<lambda>k. ec_num_units ec ! k)
      in \<lparr>eu_ndp_id = ndp_id, eu_sub_core_id = sub_core_id, eu_regs = regs, eu_stats = stats, eu_to_ldst = to_ldst, eu_to_spad = to_spad,
          eu_to_v_ldst = to_v_ldst, eu_to_v_spad = to_v_spad, eu_i = new_units ''i_unit_'' (n 0), eu_f = new_units ''f_unit_'' (n 1),
          eu_sf = new_units ''sf_unit_'' (n 2), eu_address = new_units ''address_unit_'' (n 3), eu_v_i = new_units ''v_i_unit_'' (n 4),
          eu_v_f = new_units ''v_f_unit_'' (n 5), eu_v_sf = new_units ''v_sf_unit_'' (n 6),
          eu_v_address = new_units ''v_address_unit_'' (n 7), eu_finished = [], eu_csr = csrs, eu_loop_map = loops,
          eu_memory = memory, eu_scratchpads = spads\<rparr>)"

definition exec_check_unit_finished :: "exec_unit \<Rightarrow> bool" where
  "exec_check_unit_finished x \<longleftrightarrow> check_units_finished (eu_i x) \<and> check_units_finished (eu_f x) \<and> check_units_finished (eu_sf x) \<and>
     check_units_finished (eu_address x) \<and> check_units_finished (eu_v_i x) \<and> check_units_finished (eu_v_f x) \<and>
     check_units_finished (eu_v_sf x) \<and> check_units_finished (eu_v_address x)"

definition exec_active :: "exec_unit \<Rightarrow> bool" where
  "exec_active x \<longleftrightarrow> \<not> fp_empty (eu_to_ldst x) \<or> \<not> fp_empty (eu_to_spad x) \<or> \<not> fp_empty (eu_to_v_ldst x) \<or> \<not> fp_empty (eu_to_v_spad x) \<or>
     \<not> exec_check_unit_finished x"

definition exec_full :: "exec_unit \<Rightarrow> bool" where
  "exec_full x \<longleftrightarrow> check_units_full (eu_i x) \<and> check_units_full (eu_f x) \<and> check_units_full (eu_sf x) \<and> check_units_full (eu_address x) \<and>
     fp_full (eu_to_ldst x) \<and> fp_full (eu_to_spad x) \<and> check_units_full (eu_v_i x) \<and> check_units_full (eu_v_f x) \<and>
     check_units_full (eu_v_sf x) \<and> check_units_full (eu_v_address x) \<and> fp_full (eu_to_v_ldst x) \<and> fp_full (eu_to_v_spad x)"

definition upd_unit :: "(u32 register_unit \<Rightarrow> u32 register_unit) \<Rightarrow> exec_unit \<Rightarrow> exec_unit" where
  "upd_unit g x = x\<lparr>eu_regs := (eu_regs x)\<lparr>vr_unit := g (vr_unit (eu_regs x))\<rparr>\<rparr>"

definition upd_csr :: "int \<Rightarrow> (csr \<Rightarrow> csr) \<Rightarrow> exec_unit \<Rightarrow> exec_unit" where
  "upd_csr col g x = x\<lparr>eu_csr := (eu_csr x)(col := g (eu_csr x col))\<rparr>"

definition csr_of :: "inst_context \<Rightarrow> exec_unit \<Rightarrow> csr" where
  "csr_of c x = eu_csr x (fc_inst_col_id c)"

section \<open>Functional units\<close>

definition get_unit_type :: "exec_config \<Rightarrow> ndp_instruction \<Rightarrow> UnitType" where
  "get_unit_type ec inst =
     (if CheckLoadOp inst \<or> CheckStoreOp inst then LDST_UNIT
      else if GetAluOpType inst = SFU_OP then SF_UNIT
      else if CheckFloatOp inst \<and> \<not> ec_unified_alu ec then FP_UNIT
      else INT_UNIT)"

text \<open>The units an instruction goes to; the vector integer units are never chosen.\<close>

datatype unit_kind = U_I | U_F | U_SF | U_ADDRESS | U_V_I | U_V_F | U_V_SF | U_V_ADDRESS

definition get_unit :: "exec_config \<Rightarrow> ndp_instruction \<Rightarrow> unit_kind res" where
  "get_unit ec inst =
     (let ty = get_unit_type ec inst; v = CheckVectorOp inst
      in if ty = LDST_UNIT \<and> \<not> v then Inr U_ADDRESS
         else if ty = LDST_UNIT \<and> v then Inr U_V_ADDRESS
         else if CheckBranchOp inst then Inr U_I
         else if \<not> ec_all_vector ec \<and> ty = INT_UNIT \<and> \<not> v then Inr U_I
         else if \<not> ec_all_vector ec \<and> ty = FP_UNIT \<and> \<not> v then Inr U_F
         else if \<not> ec_all_vector ec \<and> ty = SF_UNIT \<and> \<not> v then Inr U_SF
         else if ty = FP_UNIT \<or> ty = INT_UNIT then Inr U_V_F
         else if ty = SF_UNIT then Inr U_V_SF
         else Inl (Assert_Fail ''0''))"

definition units :: "unit_kind \<Rightarrow> exec_unit \<Rightarrow> exec_queue list" where
  "units k x = (case k of U_I \<Rightarrow> eu_i x | U_F \<Rightarrow> eu_f x | U_SF \<Rightarrow> eu_sf x | U_ADDRESS \<Rightarrow> eu_address x | U_V_I \<Rightarrow> eu_v_i x
     | U_V_F \<Rightarrow> eu_v_f x | U_V_SF \<Rightarrow> eu_v_sf x | U_V_ADDRESS \<Rightarrow> eu_v_address x)"

definition set_units :: "unit_kind \<Rightarrow> exec_queue list \<Rightarrow> exec_unit \<Rightarrow> exec_unit" where
  "set_units k us x =
     (case k of U_I \<Rightarrow> x\<lparr>eu_i := us\<rparr> | U_F \<Rightarrow> x\<lparr>eu_f := us\<rparr> | U_SF \<Rightarrow> x\<lparr>eu_sf := us\<rparr> | U_ADDRESS \<Rightarrow> x\<lparr>eu_address := us\<rparr>
      | U_V_I \<Rightarrow> x\<lparr>eu_v_i := us\<rparr> | U_V_F \<Rightarrow> x\<lparr>eu_v_f := us\<rparr> | U_V_SF \<Rightarrow> x\<lparr>eu_v_sf := us\<rparr> | U_V_ADDRESS \<Rightarrow> x\<lparr>eu_v_address := us\<rparr>)"

definition check_resource_fail :: "exec_config \<Rightarrow> ndp_instruction \<Rightarrow> exec_unit \<Rightarrow> Status res" where
  "check_resource_fail ec inst x =
     res_bind (get_unit ec inst) (\<lambda>k.
     if \<not> check_units_full (units k x) then Inr SUCCESS
     else
       (case get_unit_type ec inst of
          LDST_UNIT \<Rightarrow> Inr (if CheckVectorOp inst then ADDRESS_VECTOR_UNIT_FULL else ADDRESS_UNIT_FULL)
        | INT_UNIT \<Rightarrow> Inr (if CheckVectorOp inst then FP_VECTOR_UNIT_FULL else SCALAR_UNIT_FULL)
        | SF_UNIT \<Rightarrow> Inr (if CheckVectorOp inst then SF_VECTOR_UNIT_FULL else SF_UNIT_FULL)
        | FP_UNIT \<Rightarrow> Inr FP_VECTOR_UNIT_FULL
        | SPAD_UNIT \<Rightarrow> Inl (Assert_Fail ''0'')))"

definition increase_issue_count :: "exec_config \<Rightarrow> exec_op \<Rightarrow> ndp_stats \<Rightarrow> ndp_stats res" where
  "increase_issue_count ec op s =
     (let v = CheckVectorOp (xo_inst op)
      in case get_unit_type ec (xo_inst op) of
           LDST_UNIT \<Rightarrow>
             (case xo_addrs op of
                [] \<Rightarrow> Inl Out_Of_Range
              | a # _ \<Rightarrow>
                  let s = inc_unit_issue_count (if v then V_ADDR_ISSUE else ADDR_ISSUE) s
                  in Inr (inc_unit_issue_count
                       (if CheckScratchpad a then (if v then V_SPAD_ISSUE else SPAD_ISSUE) else (if v then V_LDST_ISSUE else LDST_ISSUE)) s))
         | INT_UNIT \<Rightarrow> Inr (inc_unit_issue_count (if v then V_ISSUE else I_ISSUE) s)
         | FP_UNIT \<Rightarrow> Inr (inc_unit_issue_count (if v then V_ISSUE else F_ISSUE) s)
         | SF_UNIT \<Rightarrow> Inr (inc_unit_issue_count (if v then V_SF_ISSUE else SF_ISSUE) s)
         | SPAD_UNIT \<Rightarrow> Inr s)"

section \<open>Dependencies\<close>

text \<open>
  A test of registers: if all are ready the instruction may issue, otherwise the ones it waits for are counted and the
  given status is returned.
\<close>

definition wait_on :: "Status \<Rightarrow> ndp_instruction \<Rightarrow> (WaitRegEnum \<times> int) list \<Rightarrow> exec_unit \<Rightarrow> Status \<times> exec_unit" where
  "wait_on st inst regs x =
     (let blocked = map fst (filter (\<lambda>(_, reg). \<not> CheckReady reg (vr_unit (eu_regs x))) regs)
      in if blocked = [] then (SUCCESS, x)
         else (st, x\<lparr>eu_stats := add_wait_instruction (new_wait_instruction (sInst inst) blocked) (eu_stats x)\<rparr>))"

definition check_scalar :: "ndp_instruction \<Rightarrow> exec_unit \<Rightarrow> Status \<times> exec_unit" where
  "check_scalar inst x =
     (if opcode inst \<in> set [Scalar ADD, Scalar SUB, Scalar MUL, Scalar DIV, Scalar REM, Branch BNE, Branch BEQ, Branch BLT, Branch BLE,
          Branch BGT, Branch BGE, Scalar SD, Scalar SW, Scalar FSW, Scalar FDIV, Scalar FMUL, Scalar FADD, Scalar FSUB] then
        wait_on SCALAR_DEPENDENCY_WAIT inst [(SRC0, src inst ! 0), (SRC1, src inst ! 1)] x
      else if opcode inst \<in> set [Scalar ADDI, Scalar MULI, Scalar SLLI, Scalar SRLI, Branch BGTZ, Branch BLTZ, Branch BEQZ, Branch BLEZ,
          Branch BGEZ, Branch BNEZ, Scalar LD, Scalar LW, Scalar FLW, Scalar FMV] then
        wait_on SCALAR_DEPENDENCY_WAIT inst [(SRC0, src inst ! 0)] x
      else (SUCCESS, x))"

definition check_vector :: "ndp_instruction \<Rightarrow> exec_unit \<Rightarrow> (Status \<times> exec_unit) res" where
  "check_vector inst x =
     (let ty = operand_type inst; oc = opcode inst
      in if ty = OT_V \<and> oc \<in> set [Vmem VLE16, Vmem VLE32, Vmem VLE64] then
           Inr (wait_on VLE_DEPENDENCY_WAIT inst [(SRC0, src inst ! 0)] x)
         else if ty = OT_V \<and> oc \<in> set [Vmem VSE16, Vmem VSE32, Vmem VSE64] then
           Inr (wait_on VSE_DEPENDENCY_WAIT inst [(SRC0, src inst ! 0), (DEST, dest inst)] x)
         else if ty = OT_V \<and> oc \<in> set [Vextra VLUXEI32, Vextra VLUXEI64] then
           Inr (wait_on VLE_DEPENDENCY_WAIT inst [(SRC0, src inst ! 0), (SRC2, src inst ! 2), (SRC3, src inst ! 3)] x)
         else if ty = OT_V \<and> oc \<in> set [Vextra VSUXEI32, Vextra VSUXEI64] then
           res_bind (assert_that (src inst ! 3 \<noteq> - 1) ''inst.src[3] != -1'') (\<lambda>_.
           Inr (wait_on VSE_DEPENDENCY_WAIT inst [(SRC0, src inst ! 0), (SRC2, src inst ! 2), (MASK, src inst ! 3), (DEST, dest inst)] x))
         else if ty \<in> set [OT_V, OT_VI, OT_V_V, OT_XU_F_V, OT_X_F_V, OT_F_XU_V, OT_F_X_V, OT_F_F_V, OT_F_F_W, OT_V_X, OT_X_S, OT_S_F,
             OT_V_F, OT_F_S] then
           Inr (wait_on VECTOR_DEPENDENCY_WAIT inst [(SRC0, src inst ! 0)] x)
         else if ty \<in> set [OT_VV, OT_WV, OT_VX, OT_VF, OT_VS] then
           Inr (wait_on VECTOR_DEPENDENCY_WAIT inst [(SRC0, src inst ! 0), (SRC1, src inst ! 1)] x)
         else if ty = OT_S_X then
           Inr (wait_on VECTOR_DEPENDENCY_WAIT inst [(SRC0, src inst ! 0), (DEST, dest inst)] x)
         else Inr (SUCCESS, x))"

definition check_dependency_fail :: "ndp_instruction \<Rightarrow> exec_unit \<Rightarrow> (Status \<times> exec_unit) res" where
  "check_dependency_fail inst x =
     (if CheckScalarOp inst then Inr (check_scalar inst x)
      else if CheckAmoOp inst then
        Inr (if list_all (\<lambda>i. CheckReady (src inst ! i) (vr_unit (eu_regs x))) [0, 1, 2] then SUCCESS else AMO_DEPENDENCY_WAIT, x)
      else check_vector inst x)"

section \<open>Addresses of memory instructions\<close>

definition read_x :: "int \<Rightarrow> inst_context \<Rightarrow> exec_unit \<Rightarrow> (u64 \<times> exec_unit) res" where
  "read_x reg c x =
     res_bind (ReadXreg reg (word_of_int (fc_ndp_id c)) (fc_request_info c) (vr_unit (eu_regs x))) (\<lambda>(v, u).
     Inr (v, upd_unit (\<lambda>_. u) x))"

definition read_v :: "int \<Rightarrow> inst_context \<Rightarrow> exec_unit \<Rightarrow> (vector_data \<times> exec_unit) res" where
  "read_v reg c x =
     res_bind (ReadVreg reg (csr_vsew (csr_of c x)) (csr_vlmul (csr_of c x)) (eu_regs x)) (\<lambda>(v, r). Inr (v, x\<lparr>eu_regs := r\<rparr>))"

definition index_at :: "exec_env \<Rightarrow> vector_data \<Rightarrow> nat \<Rightarrow> u64 res" where
  "index_at e v i =
     (case vd_type v of
        INT32 \<Rightarrow> res_bind (GetIntData i v) (\<lambda>d. Inr (scast d))
      | INT64 \<Rightarrow> GetLongData i v
      | FLOAT32 \<Rightarrow> res_bind (GetFloatData i v) (\<lambda>d. Inr (to_u64 (convert e K_I64 (N_F32 d))))
      | INT16 \<Rightarrow> res_bind (GetShortData i v) (\<lambda>d. Inr (scast d))
      | _ \<Rightarrow> Inl (Runtime_Error ''unsupported index type''))"

text \<open>One index of a gather or scatter: a masked lane adds no address. \<^verbatim>\<open>addr_set\<close> keeps the addresses in ascending order.\<close>

definition gather_addr :: "exec_env \<Rightarrow> u64 \<Rightarrow> vector_data \<Rightarrow> vector_data option \<Rightarrow> u64 list \<Rightarrow> nat \<Rightarrow> u64 list res" where
  "gather_addr e base v vmask addrs i =
     res_bind (index_at e v i) (\<lambda>idx.
     res_bind (case vmask of None \<Rightarrow> Inr True
               | Some m \<Rightarrow> res_bind (GetVmaskData i m) (\<lambda>b. Inr (vd_type m \<noteq> VMASK \<or> b))) (\<lambda>enabled.
     Inr (if enabled then insort_insert (FormatAddr (base + idx)) addrs else addrs)))"

definition gather_addrs :: "exec_env \<Rightarrow> ndp_instruction \<Rightarrow> inst_context \<Rightarrow> u64 \<Rightarrow> exec_unit \<Rightarrow> (u64 list \<times> exec_unit) res" where
  "gather_addrs e inst c base x =
     res_bind (read_v (src inst ! 2) c x) (\<lambda>(v, x).
     res_bind (if CheckAmoOp inst then read_v (src inst ! 1) c x else Inr (v, x)) (\<lambda>(v, x).
     res_bind (if src inst ! 3 \<noteq> - 1 then res_bind (read_v (src inst ! 3) c x) (\<lambda>(m, x). Inr (Some m, x)) else Inr (None, x)) (\<lambda>(m, x).
     res_bind (res_foldl (gather_addr e base v m) [] [0..<unat (vd_vlen v)]) (\<lambda>addrs. Inr (addrs, x)))))"

text \<open>
  The packets of a contiguous access: the loop counter runs over bytes in steps of the packet size and is multiplied by
  the packet size once more in the address. A packet size of zero is the division by zero of the rounding before the loop.
\<close>

definition access_size :: "exec_config \<Rightarrow> ndp_instruction \<Rightarrow> rat \<Rightarrow> nat" where
  "access_size ec inst vlmul =
     (let req_size = (if opcode inst \<in> set [Vmem VLE16, Vmem VSE16] then 16
                      else if opcode inst \<in> set [Vmem VLE32, Vmem VSE32] then 32 else ec_packet_size ec)
      in nat \<lfloor>vlmul * of_nat (round_up req_size (ec_packet_size ec))\<rfloor>)"

function packet_addr_loop :: "nat \<Rightarrow> nat \<Rightarrow> u64 \<Rightarrow> nat \<Rightarrow> u64 list \<Rightarrow> u64 list" where
  "packet_addr_loop packet_size n base i addrs =
     (if i < n \<and> 0 < packet_size then
        packet_addr_loop packet_size n base (i + packet_size) (insort_insert (FormatAddr (base + of_nat (i * packet_size))) addrs)
      else addrs)"
  by pat_completeness auto
termination
  by (relation "measure (\<lambda>(p, n, base, i, addrs). n - i)") auto

declare packet_addr_loop.simps [simp del]

definition contiguous_addrs :: "exec_config \<Rightarrow> ndp_instruction \<Rightarrow> rat \<Rightarrow> u64 \<Rightarrow> u64 list res" where
  "contiguous_addrs ec inst vlmul base =
     (if ec_packet_size ec = 0 then Inl Div_By_Zero
      else Inr (packet_addr_loop (ec_packet_size ec) (access_size ec inst vlmul) (base + word_of_int (src inst ! 1)) 0 []))"

text \<open>The addresses, whether the base is in the scratchpad, and the factor of the issue interval.\<close>

definition generate_addrs ::
  "exec_env \<Rightarrow> exec_config \<Rightarrow> ndp_instruction \<Rightarrow> inst_context \<Rightarrow> exec_unit \<Rightarrow> (u64 list \<times> bool \<times> int \<times> exec_unit) res" where
  "generate_addrs e ec inst c x =
     (if GetAluOpType inst = ADDRESS_OP then
        res_bind (read_x (src inst ! 0) c x) (\<lambda>(v, x).
        let base = FormatAddr v; spad_op = CheckScratchpad base
        in if CheckIndexedOp inst \<or> CheckAmoOp inst then
             res_bind (if CheckVectorOp inst then gather_addrs e inst c base x else Inr ([FormatAddr base], x)) (\<lambda>(addrs, x).
             if addrs = [] then Inl (Runtime_Error ''addr set is empty'')
             else Inr (addrs, spad_op, int (length addrs), x))
           else
             res_bind (contiguous_addrs ec inst (csr_vlmul (csr_of c x)) base) (\<lambda>addrs. Inr (addrs, spad_op, 1, x)))
      else Inr ([], False, 1, x))"

section \<open>Issue\<close>

text \<open>
  The active lanes of a vector instruction with a mask register; the second operand of \<^verbatim>\<open>vmv\<close> is its mask. The
  code also compares the opcode with the operand kind \<^verbatim>\<open>VV\<close>, whose value is that of the opcode \<^verbatim>\<open>ADDI\<close> and so never that of a
  vector instruction.
\<close>

definition count_lanes :: "exec_op \<Rightarrow> exec_unit \<Rightarrow> exec_unit res" where
  "count_lanes op x =
     (let inst = xo_inst op; c = xo_context op;
          mask_count = \<lfloor>32 * csr_vlmul (csr_of c x) / 4\<rfloor>;
          mask_reg = src inst ! (if opcode inst = Vector VMV then 1 else 3)
      in if mask_reg \<noteq> - 1 then
           res_bind (read_v mask_reg c x) (\<lambda>(m, x).
           res_bind (res_foldl (\<lambda>n i. if vd_type m = VMASK then res_bind (GetVmaskData i m) (\<lambda>b. Inr (if b then n + 1 else n)) else Inr n)
             (0 :: int) [0..<nat mask_count div 4]) (\<lambda>n.
           Inr (x\<lparr>eu_stats := inc_active_vlane_count n mask_count (eu_stats x)\<rparr>)))
         else Inr (x\<lparr>eu_stats := inc_active_vlane_count mask_count mask_count (eu_stats x)\<rparr>))"

definition enter_unit :: "exec_config \<Rightarrow> exec_op \<Rightarrow> int \<Rightarrow> int \<Rightarrow> exec_unit \<Rightarrow> exec_unit res" where
  "enter_unit ec op latency interval x =
     res_bind (get_unit ec (xo_inst op)) (\<lambda>k.
     res_bind (push_first_free op latency interval (units k x)) (\<lambda>(entered, us).
     let x = set_units k us x
     in Inr (if entered \<and> CheckDestWrite (xo_inst op) then upd_unit (SetNotReady (dest (xo_inst op))) x else x)))"

text \<open>
  \<^verbatim>\<open>inst.Execute(context)\<close>: the context refers to the registers of the unit, to the control registers of the column,
  to the memory and to the scratchpad of the launch.
\<close>

definition execute_op :: "exec_env \<Rightarrow> exec_op \<Rightarrow> exec_unit \<Rightarrow> (ndp_instruction \<times> exec_unit) res" where
  "execute_op e op x =
     (let c = xo_context op; col = fc_inst_col_id c; launch = ri_launch_id (fc_request_info c)
      in res_bind (Execute (e\<lparr>xe_ndp_id := word_of_int (fc_ndp_id c), xe_request := fc_request_info c\<rparr>) (xo_inst op)
           \<lparr>xs_regs = eu_regs x, xs_csr = eu_csr x col, xs_memory = eu_memory x, xs_scratchpad = eu_scratchpads x launch\<rparr>) (\<lambda>(inst, s).
         Inr (inst, x\<lparr>eu_regs := xs_regs s, eu_csr := (eu_csr x)(col := xs_csr s), eu_memory := xs_memory s,
           eu_scratchpads := (eu_scratchpads x)(launch := xs_scratchpad s)\<rparr>)))"

text \<open>What an issued instruction does to the control registers of its column and to the statistics.\<close>

definition account_issue :: "exec_config \<Rightarrow> exec_op \<Rightarrow> exec_unit \<Rightarrow> exec_unit res" where
  "account_issue ec op x =
     (let inst = xo_inst op; col = fc_inst_col_id (xo_context op);
          x = (if CheckBranchOp inst then upd_csr col (\<lambda>r. r\<lparr>csr_block := True\<rparr>) x
               else upd_csr col (\<lambda>r. r\<lparr>csr_pc := csr_pc r + 1\<rparr>) x)
      in res_bind (increase_issue_count ec op (eu_stats x)) (\<lambda>s.
         if CheckVectorOp inst then count_lanes op (x\<lparr>eu_stats := s\<rparr>) else Inr (x\<lparr>eu_stats := s\<rparr>)))"

definition issue_ready ::
  "exec_env \<Rightarrow> exec_config \<Rightarrow> ndp_instruction \<Rightarrow> inst_context \<Rightarrow> exec_unit
    \<Rightarrow> exec_unit res" where
  "issue_ready e ec inst c x =
     (let ty = GetAluOpType inst; vlmul = csr_vlmul (csr_of c x);
          multiply = \<lfloor>if CheckWideningOp inst then vlmul * 2 else vlmul\<rfloor>;
          latency = ec_latency ec ty + ec_interval ec ty * (multiply - 1);
          interval = ec_interval ec ty * multiply
      in res_bind (generate_addrs e ec inst c x) (\<lambda>(addrs, spad_op, factor, x).
         let op = \<lparr>xo_inst = inst, xo_addrs = addrs, xo_context = c\<rparr>
         in res_bind (if ec_functional_sim ec \<or> spad_op \<or> ty \<noteq> ADDRESS_OP then execute_op e op x else Inr (inst, x)) (\<lambda>(inst, x).
            let op = op\<lparr>xo_inst := inst\<rparr>
            in res_bind (enter_unit ec op latency (interval * factor) x) (account_issue ec op))))"

definition exec_issue ::
  "exec_env \<Rightarrow> exec_config \<Rightarrow> ndp_instruction \<Rightarrow> inst_context \<Rightarrow> exec_unit
    \<Rightarrow> (Status \<times> exec_unit) res" where
  "exec_issue e ec inst c x =
     res_bind (check_dependency_fail inst x) (\<lambda>(st, x).
     if st \<noteq> SUCCESS then Inr (st, x)
     else
       res_bind (check_resource_fail ec inst x) (\<lambda>st.
       if st \<noteq> SUCCESS then Inr (st, x)
       else if opcode inst = Special EXIT then
         Inr (ISSUE_SUCCESS, (upd_csr (fc_inst_col_id c) (\<lambda>r. r\<lparr>csr_pc := csr_pc r + 1\<rparr>) x)
           \<lparr>eu_finished := eu_finished x @ [c\<lparr>fc_last_inst := True, fc_exit := True\<rparr>]\<rparr>)
       else res_bind (issue_ready e ec inst c x) (\<lambda>x. Inr (ISSUE_SUCCESS, x))))"

section \<open>The cycle\<close>

text \<open>What leaves a unit: its destination is ready, and the last instruction of a column finishes the column.\<close>

definition writeback_dest :: "exec_op \<Rightarrow> exec_unit \<Rightarrow> exec_unit" where
  "writeback_dest op x = (if CheckDestWrite (xo_inst op) then upd_unit (SetReady (dest (xo_inst op))) x else x)"

definition finish_context :: "inst_context \<Rightarrow> exec_unit \<Rightarrow> exec_unit" where
  "finish_context c x = (if fc_last_inst c then x\<lparr>eu_finished := eu_finished x @ [c]\<rparr> else x)"

definition resolve_branch :: "exec_op \<Rightarrow> exec_unit \<Rightarrow> (inst_context \<times> exec_unit) res" where
  "resolve_branch op x =
     (let inst = xo_inst op; c = xo_context op; col = fc_inst_col_id c
      in if CheckBranchOp inst then
           res_bind (if IsBranch inst \<noteq> - 1 then
                       (case eu_loop_map x col (IsBranch inst) of None \<Rightarrow> Inl Out_Of_Range | Some pc \<Rightarrow> Inr pc)
                     else Inr (csr_pc (eu_csr x col) + 1)) (\<lambda>pc.
           Inr (if fc_max_pc c < pc then c\<lparr>fc_last_inst := True\<rparr> else c,
                upd_csr col (\<lambda>r. r\<lparr>csr_block := False, csr_pc := pc\<rparr>) x))
         else Inr (c, x))"

definition process_i_unit :: "exec_queue \<Rightarrow> exec_unit \<Rightarrow> (exec_queue \<times> exec_unit) res" where
  "process_i_unit u x =
     (let u = dq_tick u
      in if dq_empty u then Inr (u, x)
         else
           res_bind (dq_top u) (\<lambda>op.
           res_bind (resolve_branch op (writeback_dest op x)) (\<lambda>(c, x).
           res_bind (dq_pop u) (\<lambda>u. Inr (u, finish_context c x)))))"

definition process_default_unit :: "exec_queue \<Rightarrow> exec_unit \<Rightarrow> (exec_queue \<times> exec_unit) res" where
  "process_default_unit u x =
     (let u = dq_tick u
      in if dq_empty u then Inr (u, x)
         else
           res_bind (dq_top u) (\<lambda>op.
           res_bind (dq_pop u) (\<lambda>u. Inr (u, finish_context (xo_context op) (writeback_dest op x)))))"

text \<open>The queue to the load-store unit an address goes to.\<close>

definition push_fifo :: "exec_op \<Rightarrow> bool \<Rightarrow> exec_unit \<Rightarrow> (bool \<times> exec_unit) res" where
  "push_fifo op spad_op x =
     (let push = (\<lambda>q. if fp_full q then Inr None else res_bind (fp_push (Some op) q) (\<lambda>q. Inr (Some q)));
          put = (\<lambda>q f. res_bind (push q) (\<lambda>r. case r of None \<Rightarrow> Inr (False, x) | Some q \<Rightarrow> Inr (True, f q)))
      in if spad_op then
           if CheckVectorOp (xo_inst op) then put (eu_to_v_spad x) (\<lambda>q. x\<lparr>eu_to_v_spad := q\<rparr>)
           else put (eu_to_spad x) (\<lambda>q. x\<lparr>eu_to_spad := q\<rparr>)
         else
           if CheckVectorOp (xo_inst op) then put (eu_to_v_ldst x) (\<lambda>q. x\<lparr>eu_to_v_ldst := q\<rparr>)
           else put (eu_to_ldst x) (\<lambda>q. x\<lparr>eu_to_ldst := q\<rparr>))"

definition process_address_inst :: "exec_queue \<Rightarrow> exec_unit \<Rightarrow> (exec_queue \<times> exec_unit) res" where
  "process_address_inst u x =
     (let u = dq_tick u
      in if dq_empty u then Inr (u, x)
         else
           res_bind (dq_top u) (\<lambda>op.
           res_bind (assert_that (GetAluOpType (xo_inst op) = ADDRESS_OP) ''inst.GetAluOpType() == ADDRESS_OP'') (\<lambda>_.
           case xo_addrs op of
             [] \<Rightarrow> Inl Out_Of_Range
           | a # _ \<Rightarrow>
               res_bind (push_fifo op (CheckScratchpad a) x) (\<lambda>(sent, x).
               if sent then res_bind (dq_pop u) (\<lambda>u. Inr (u, x))
               else Inr (u, x\<lparr>eu_stats := add_status (if CheckScratchpad a then SPAD_QUEUE_FULL else LDST_QUEUE_FULL) (eu_stats x)\<rparr>)))))"

fun each_exec :: "(exec_queue \<Rightarrow> exec_unit \<Rightarrow> (exec_queue \<times> exec_unit) res) \<Rightarrow> exec_queue list \<Rightarrow> exec_unit
    \<Rightarrow> (exec_queue list \<times> exec_unit) res" where
  "each_exec g [] x = Inr ([], x)"
| "each_exec g (u # us) x =
     res_bind (g u x) (\<lambda>(u, x). res_bind (each_exec g us x) (\<lambda>(us, x). Inr (u # us, x)))"

definition process_kind :: "(exec_queue \<Rightarrow> exec_unit \<Rightarrow> (exec_queue \<times> exec_unit) res) \<Rightarrow> exec_unit \<Rightarrow> unit_kind \<Rightarrow> exec_unit res" where
  "process_kind g x k = res_bind (each_exec g (units k x) x) (\<lambda>(us, x). Inr (set_units k us x))"

definition exec_cycle :: "exec_unit \<Rightarrow> exec_unit res" where
  "exec_cycle x =
     res_bind (process_kind process_i_unit x U_I) (\<lambda>x.
     res_bind (res_foldl (process_kind process_default_unit) x [U_F, U_SF, U_V_I, U_V_F, U_V_SF]) (\<lambda>x.
     res_foldl (process_kind process_address_inst) x [U_ADDRESS, U_V_ADDRESS]))"

section \<open>Busy registers\<close>

abbreviation busy :: "exec_unit \<Rightarrow> int set" where
  "busy x \<equiv> ru_not_ready (vr_unit (eu_regs x))"

text \<open>The destinations of the instruction that leaves an arithmetic unit in the next cycle.\<close>

definition dest_due :: "exec_queue \<Rightarrow> int option" where
  "dest_due u =
     (if dq_empty (dq_tick u) then None
      else case dq_top (dq_tick u) of Inl _ \<Rightarrow> None | Inr op \<Rightarrow> if CheckDestWrite (xo_inst op) then Some (dest (xo_inst op)) else None)"

definition due :: "exec_queue \<Rightarrow> int set" where
  "due u = set_option (dest_due u)"

lemma units_frame [simp]:
  "units k (x\<lparr>eu_csr := csrs\<rparr>) = units k x" "units k (x\<lparr>eu_stats := st\<rparr>) = units k x" "units k (x\<lparr>eu_regs := r\<rparr>) = units k x"
  "units k (x\<lparr>eu_finished := fs\<rparr>) = units k x" "units k (x\<lparr>eu_to_ldst := q\<rparr>) = units k x" "units k (x\<lparr>eu_to_spad := q\<rparr>) = units k x"
  "units k (x\<lparr>eu_to_v_ldst := q\<rparr>) = units k x" "units k (x\<lparr>eu_to_v_spad := q\<rparr>) = units k x"
  "units k (x\<lparr>eu_memory := m\<rparr>) = units k x" "units k (x\<lparr>eu_scratchpads := ms\<rparr>) = units k x"
  by (simp_all add: units_def split: unit_kind.splits)

text \<open>The renaming state of the register unit.\<close>

definition files :: "exec_unit \<Rightarrow> reg_file \<times> reg_file \<times> reg_file \<times> register_binding \<times> inst_column list" where
  "files x = (ru_x (vr_unit (eu_regs x)), ru_f (vr_unit (eu_regs x)), ru_v (vr_unit (eu_regs x)), ru_double (vr_unit (eu_regs x)),
     ru_after_rename (vr_unit (eu_regs x)))"

text \<open>Steps that change no unit and no renaming, and remove the registers \<open>D\<close> from the busy ones.\<close>

definition clears :: "exec_unit \<Rightarrow> int set \<Rightarrow> exec_unit \<Rightarrow> bool" where
  "clears x D x' \<longleftrightarrow> busy x' = busy x - D \<and> (\<forall>k. units k x' = units k x) \<and> files x' = files x"

lemma files_frame [simp]:
  "files (x\<lparr>eu_csr := csrs\<rparr>) = files x" "files (x\<lparr>eu_stats := st\<rparr>) = files x" "files (x\<lparr>eu_finished := fs\<rparr>) = files x"
  "files (x\<lparr>eu_to_ldst := q\<rparr>) = files x" "files (x\<lparr>eu_to_spad := q\<rparr>) = files x" "files (x\<lparr>eu_to_v_ldst := q\<rparr>) = files x"
  "files (x\<lparr>eu_to_v_spad := q\<rparr>) = files x" "files (set_units k us x) = files x"
  by (simp_all add: files_def set_units_def split: unit_kind.splits)

lemma files_upd [simp]:
  "files (upd_unit (SetReady reg) x) = files x" "files (upd_unit (SetNotReady reg) x) = files x" "files (upd_csr col g x) = files x"
  by (simp_all add: files_def upd_unit_def SetReady_def SetNotReady_def upd_csr_def)

lemma clears_refl [simp]: "clears x {} x"
  by (simp add: clears_def)

lemma clears_trans: "clears x D y \<Longrightarrow> clears y E z \<Longrightarrow> clears x (D \<union> E) z"
  by (auto simp: clears_def)

lemma writeback_clears: "clears x (if CheckDestWrite (xo_inst op) then {dest (xo_inst op)} else {}) (writeback_dest op x)"
  by (auto simp: clears_def writeback_dest_def) (auto simp: upd_unit_def SetReady_def)

lemma finish_clears: "clears x {} (finish_context c x)"
  by (auto simp: clears_def finish_context_def)

lemma resolve_clears: "resolve_branch op x = Inr (c, x') \<Longrightarrow> clears x {} x'"
  by (auto simp: clears_def resolve_branch_def upd_csr_def Let_def res_simps split: if_splits option.splits)

definition unit_clears :: "(exec_queue \<Rightarrow> exec_unit \<Rightarrow> (exec_queue \<times> exec_unit) res) \<Rightarrow> (exec_queue \<Rightarrow> int set) \<Rightarrow> bool" where
  "unit_clears g D \<longleftrightarrow> (\<forall>u x u' x'. g u x = Inr (u', x') \<longrightarrow> clears x (D u) x')"

lemma unit_clearsI: "(\<And>u x u' x'. g u x = Inr (u', x') \<Longrightarrow> clears x (D u) x') \<Longrightarrow> unit_clears g D"
  by (simp add: unit_clears_def)

lemma unit_clearsD: "unit_clears g D \<Longrightarrow> g u x = Inr (u', x') \<Longrightarrow> clears x (D u) x'"
  by (simp add: unit_clears_def)

lemma due_eq:
  "\<not> dq_empty (dq_tick u) \<Longrightarrow> dq_top (dq_tick u) = Inr op \<Longrightarrow> due u = (if CheckDestWrite (xo_inst op) then {dest (xo_inst op)} else {})"
  by (simp add: due_def dest_due_def)

lemma default_unit_clears: "unit_clears process_default_unit due"
proof (rule unit_clearsI)
  fix u and x :: "exec_unit" and u' x'
  assume *: "process_default_unit u x = Inr (u', x')"
  show "clears x (due u) x'"
  proof (cases "dq_empty (dq_tick u)")
    case True
    then show ?thesis using * by (auto simp: process_default_unit_def due_def dest_due_def)
  next
    case False
    then obtain op where op: "dq_top (dq_tick u) = Inr op" "x' = finish_context (xo_context op) (writeback_dest op x)"
      using * by (auto simp: process_default_unit_def res_simps Let_def)
    show ?thesis
      using clears_trans [OF writeback_clears finish_clears, of x op "xo_context op"] due_eq [OF False op(1)] op(2) by simp
  qed
qed

lemma i_unit_clears: "unit_clears process_i_unit due"
proof (rule unit_clearsI)
  fix u and x :: "exec_unit" and u' x'
  assume *: "process_i_unit u x = Inr (u', x')"
  show "clears x (due u) x'"
  proof (cases "dq_empty (dq_tick u)")
    case True
    then show ?thesis using * by (auto simp: process_i_unit_def due_def dest_due_def)
  next
    case False
    then obtain op c y where op: "dq_top (dq_tick u) = Inr op" "resolve_branch op (writeback_dest op x) = Inr (c, y)" "x' = finish_context c y"
      using * by (auto simp: process_i_unit_def res_simps Let_def)
    show ?thesis
      using clears_trans [OF clears_trans [OF writeback_clears resolve_clears [OF op(2)]] finish_clears, of c] due_eq [OF False op(1)] op(3)
      by simp
  qed
qed

lemma push_fifo_clears: "push_fifo op spad x = Inr (b, x') \<Longrightarrow> clears x {} x'"
  by (auto simp: push_fifo_def clears_def Let_def res_simps split: if_splits option.splits)

lemma address_unit_clears: "unit_clears process_address_inst (\<lambda>_. {})"
proof (rule unit_clearsI)
  fix u and x :: "exec_unit" and u' x'
  assume *: "process_address_inst u x = Inr (u', x')"
  show "clears x {} x'"
  proof (cases "dq_empty (dq_tick u)")
    case True
    then show ?thesis using * by (auto simp: process_address_inst_def)
  next
    case False
    then obtain op where op: "dq_top (dq_tick u) = Inr op"
      using * by (auto simp: process_address_inst_def res_simps Let_def)
    show ?thesis
    proof (cases "xo_addrs op")
      case Nil
      then show ?thesis using * False op by (simp add: process_address_inst_def res_simps Let_def)
    next
      case (Cons a as)
      then obtain b y where "push_fifo op (CheckScratchpad a) x = Inr (b, y)" "x' = y \<or> (\<exists>s. x' = y\<lparr>eu_stats := s\<rparr>)"
        using * False op by (auto simp: process_address_inst_def res_simps Let_def split: if_splits)
      then show ?thesis
        using push_fifo_clears [of op "CheckScratchpad a" x b y] by (auto simp: clears_def)
    qed
  qed
qed

lemma each_exec_clears:
  assumes "each_exec g us x = Inr (us', x')" "unit_clears g D"
  shows "clears x (\<Union> (D ` set us)) x'"
  using assms(1)
proof (induction us arbitrary: us' x)
  case (Cons u us)
  then obtain u1 x1 us1 where "g u x = Inr (u1, x1)" "each_exec g us x1 = Inr (us1, x')"
    by (auto simp: res_simps)
  then show ?case
    using clears_trans [OF unit_clearsD [OF assms(2)] Cons.IH] by auto
qed simp

lemma process_kind_clears:
  assumes "process_kind g x k = Inr x'" "unit_clears g D"
  shows "busy x' = busy x - \<Union> (D ` set (units k x))" "\<forall>j. j \<noteq> k \<longrightarrow> units j x' = units j x" "files x' = files x"
proof -
  obtain us y where "each_exec g (units k x) x = Inr (us, y)" "x' = set_units k us y"
    using assms(1) by (auto simp: process_kind_def res_simps)
  moreover from this(1) have "clears x (\<Union> (D ` set (units k x))) y"
    by (rule each_exec_clears [OF _ assms(2)])
  ultimately show "busy x' = busy x - \<Union> (D ` set (units k x))" "\<forall>j. j \<noteq> k \<longrightarrow> units j x' = units j x" "files x' = files x"
    by (auto simp: clears_def set_units_def units_def files_def split: unit_kind.splits)
qed

lemma kinds_clear:
  assumes "res_foldl (process_kind g) x ks = Inr x'" "unit_clears g D" "distinct ks"
  shows "busy x' = busy x - (\<Union>k\<in>set ks. \<Union> (D ` set (units k x))) \<and> (\<forall>j. j \<notin> set ks \<longrightarrow> units j x' = units j x) \<and> files x' = files x"
  using assms(1,3)
proof (induction ks arbitrary: x)
  case (Cons k ks)
  then obtain y where y: "process_kind g x k = Inr y" "res_foldl (process_kind g) y ks = Inr x'"
    by (auto simp: res_simps)
  note s = process_kind_clears [OF y(1) assms(2)]
  have "busy x' = busy y - (\<Union>k\<in>set ks. \<Union> (D ` set (units k y))) \<and> (\<forall>j. j \<notin> set ks \<longrightarrow> units j x' = units j y) \<and> files x' = files y"
    using Cons.IH [OF y(2)] Cons.prems(2) by simp
  moreover have "(\<Union>k\<in>set ks. \<Union> (D ` set (units k y))) = (\<Union>k\<in>set ks. \<Union> (D ` set (units k x)))"
    using s(2) Cons.prems(2) by (intro SUP_cong) auto
  ultimately show ?case
    using s Cons.prems(2) by auto
qed simp

lemma exec_cycle_files:
  assumes "exec_cycle x = Inr x'"
  shows "files x' = files x"
proof -
  obtain y z where y: "process_kind process_i_unit x U_I = Inr y"
    and z: "res_foldl (process_kind process_default_unit) y [U_F, U_SF, U_V_I, U_V_F, U_V_SF] = Inr z"
    and x': "res_foldl (process_kind process_address_inst) z [U_ADDRESS, U_V_ADDRESS] = Inr x'"
    using assms by (auto simp: exec_cycle_def res_simps)
  show ?thesis
    using process_kind_clears(3) [OF y i_unit_clears] kinds_clear [OF z default_unit_clears] kinds_clear [OF x' address_unit_clears] by simp
qed

section \<open>Properties\<close>

text \<open>
  C39. A cycle wakes exactly the registers of the instructions that leave an arithmetic unit: the registers
  busy after it are those busy before it without the destinations of the instructions at the front of an arithmetic unit
  whose latency has passed. No cycle marks a register busy.
\<close>

theorem cycle_wakes:
  assumes "exec_cycle x = Inr x'"
  shows "busy x' = busy x - (\<Union>k\<in>{U_I, U_F, U_SF, U_V_I, U_V_F, U_V_SF}. \<Union>u\<in>set (units k x). due u)"
proof -
  obtain y z where y: "process_kind process_i_unit x U_I = Inr y"
    and z: "res_foldl (process_kind process_default_unit) y [U_F, U_SF, U_V_I, U_V_F, U_V_SF] = Inr z"
    and x': "res_foldl (process_kind process_address_inst) z [U_ADDRESS, U_V_ADDRESS] = Inr x'"
    using assms by (auto simp: exec_cycle_def res_simps)
  note a = process_kind_clears [OF y i_unit_clears]
  have b: "busy z = busy y - (\<Union>k\<in>set [U_F, U_SF, U_V_I, U_V_F, U_V_SF]. \<Union> (due ` set (units k y)))"
    using kinds_clear [OF z default_unit_clears] by simp
  have c: "busy x' = busy z"
    using kinds_clear [OF x' address_unit_clears] by simp
  show ?thesis
    using a b c by auto
qed


section \<open>Issue and busy registers\<close>

lemma upd_csr_clears: "clears x {} (upd_csr col g x)"
  by (simp add: clears_def) (simp add: upd_csr_def)

lemma stats_clears: "clears x {} (x\<lparr>eu_stats := s\<rparr>)"
  by (simp add: clears_def )

lemma reg_frame_clears: "reg_frame (vr_unit (eu_regs x)) (vr_unit r) \<Longrightarrow> clears x {} (x\<lparr>eu_regs := r\<rparr>)"
  by (simp add: clears_def files_def reg_frame_files)

lemma read_x_clears: "read_x reg c x = Inr (v, x') \<Longrightarrow> clears x {} x'"
  by (auto simp: read_x_def ReadXreg_def upd_unit_def Let_def res_simps split: if_splits intro!: reg_frame_clears)

lemma read_v_clears: "read_v reg c x = Inr (v, x') \<Longrightarrow> clears x {} x'"
  by (auto simp: read_v_def res_simps dest: ReadVreg_frame intro!: reg_frame_clears)

lemmas same_trans = clears_trans [where D = "{}" and E = "{}", simplified]

lemma gather_clears:
  assumes "gather_addrs e inst c base x = Inr (addrs, x')"
  shows "clears x {} x'"
proof -
  obtain v x1 v2 x2 m where "read_v (src inst ! 2) c x = Inr (v, x1)"
    "(if CheckAmoOp inst then read_v (src inst ! 1) c x1 else Inr (v, x1)) = Inr (v2, x2)"
    "(if src inst ! 3 \<noteq> - 1 then res_bind (read_v (src inst ! 3) c x2) (\<lambda>(m, x). Inr (Some m, x)) else Inr (None, x2)) = Inr (m, x')"
    using assms by (auto simp: gather_addrs_def res_simps)
  then have "clears x {} x1" "clears x1 {} x2" "clears x2 {} x'"
    by (auto simp: res_simps dest: read_v_clears split: if_splits)
  then show ?thesis
    by (blast intro: same_trans)
qed

lemma generate_clears:
  assumes "generate_addrs e ec inst c x = Inr (addrs, spad, f, x')"
  shows "clears x {} x'"
proof (cases "GetAluOpType inst = ADDRESS_OP")
  case True
  then obtain v x1 where v: "read_x (src inst ! 0) c x = Inr (v, x1)"
    using assms by (auto simp: generate_addrs_def res_simps)
  then have "x' = x1 \<or> (\<exists>a. gather_addrs e inst c (FormatAddr v) x1 = Inr (a, x'))"
    using assms True by (auto simp: generate_addrs_def Let_def res_simps split: if_splits)
  then show ?thesis
    using read_x_clears [OF v] gather_clears by (blast intro: same_trans)
qed (use assms in \<open>simp add: generate_addrs_def\<close>)

lemma lanes_clear: "count_lanes op x = Inr x' \<Longrightarrow> clears x {} x'"
  by (auto simp: count_lanes_def Let_def res_simps split: if_splits intro: stats_clears same_trans [OF read_v_clears])

text \<open>The execution of an instruction changes no unit and no busy register, and of the instruction only the branch flag.\<close>

lemma execute_op_keeps:
  assumes "execute_op e op x = Inr (i, y)"
  shows "clears x {} y" "\<exists>b. i = (xo_inst op)\<lparr>doBranch := b\<rparr>"
proof -
  define s where "s = \<lparr>xs_regs = eu_regs x, xs_csr = eu_csr x (fc_inst_col_id (xo_context op)), xs_memory = eu_memory x,
    xs_scratchpad = eu_scratchpads x (ri_launch_id (fc_request_info (xo_context op)))\<rparr>"
  define e' where "e' = e\<lparr>xe_ndp_id := word_of_int (fc_ndp_id (xo_context op)), xe_request := fc_request_info (xo_context op)\<rparr>"
  obtain s' where s: "Execute e' (xo_inst op) s = Inr (i, s')"
    and y: "y = x\<lparr>eu_regs := xs_regs s', eu_csr := (eu_csr x)(fc_inst_col_id (xo_context op) := xs_csr s'), eu_memory := xs_memory s',
      eu_scratchpads := (eu_scratchpads x)(ri_launch_id (fc_request_info (xo_context op)) := xs_scratchpad s')\<rparr>"
    using assms by (auto simp: execute_op_def Let_def res_simps s_def e'_def)
  have "frame s s'"
    using preserves_Execute s by (auto simp: preserves_def)
  then have "clears x {} (x\<lparr>eu_regs := xs_regs s'\<rparr>)"
    by (intro reg_frame_clears) (simp add: frame_def s_def)
  then show "clears x {} y"
    unfolding y clears_def by (simp add: files_def)
  show "\<exists>b. i = (xo_inst op)\<lparr>doBranch := b\<rparr>"
    by (rule exI, rule execute_branch_flag [OF s])
qed

lemma branch_flag_same: "\<exists>b. i = i\<lparr>doBranch := b\<rparr>"
  by (rule exI [of _ "doBranch i"]) simp

lemma push_first_free_enters:
  "push_first_free op l i us = Inr (b, us') \<Longrightarrow> \<not> check_units_full us \<Longrightarrow> b"
  by (induction us arbitrary: b us') (auto simp: check_units_full_def res_simps split: if_splits)

lemma enter_unit_busy:
  assumes "enter_unit ec op l i x = Inr x'" "get_unit ec (xo_inst op) = Inr k" "\<not> check_units_full (units k x)" "CheckDestWrite (xo_inst op)"
  shows "dest (xo_inst op) \<in> busy x'"
proof -
  obtain b us where p: "push_first_free op l i (units k x) = Inr (b, us)"
    and x': "x' = (if b \<and> CheckDestWrite (xo_inst op) then upd_unit (SetNotReady (dest (xo_inst op))) (set_units k us x) else set_units k us x)"
    using assms(1,2) by (auto simp only: enter_unit_def Let_def res_simps sum.inject split: prod.splits)
  show ?thesis
    using push_first_free_enters [OF p assms(3)] assms(4) x' by (simp add: upd_unit_def SetNotReady_def)
qed

lemma branch_flag_opcodes:
  "CheckStoreOp (i\<lparr>doBranch := b\<rparr>) = CheckStoreOp i" "CheckLoadOp (i\<lparr>doBranch := b\<rparr>) = CheckLoadOp i"
  "CheckAmoOp (i\<lparr>doBranch := b\<rparr>) = CheckAmoOp i" "CheckFloatOp (i\<lparr>doBranch := b\<rparr>) = CheckFloatOp i"
  "CheckVectorOp (i\<lparr>doBranch := b\<rparr>) = CheckVectorOp i" "CheckBranchOp (i\<lparr>doBranch := b\<rparr>) = CheckBranchOp i"
  unfolding CheckStoreOp_def CheckLoadOp_def CheckAmoOp_def CheckFloatOp_def CheckVectorOp_def CheckBranchOp_def by simp_all

lemma branch_flag_type: "get_unit_type ec (i\<lparr>doBranch := b\<rparr>) = get_unit_type ec i"
  unfolding get_unit_type_def GetAluOpType_def branch_flag_opcodes by simp

lemma branch_flag_classes [simp]:
  "CheckDestWrite (i\<lparr>doBranch := b\<rparr>) = CheckDestWrite i" "get_unit ec (i\<lparr>doBranch := b\<rparr>) = get_unit ec i"
  unfolding CheckDestWrite_def get_unit_def branch_flag_type branch_flag_opcodes by simp_all

lemma clears_busy: "clears x {} y \<Longrightarrow> busy y = busy x"
  by (simp add: clears_def)

lemma account_clears:
  assumes "account_issue ec op x = Inr x'"
  shows "clears x {} x'"
proof -
  obtain col g s where
    r: "(if CheckVectorOp (xo_inst op) then count_lanes op ((upd_csr col g x)\<lparr>eu_stats := s\<rparr>) else Inr ((upd_csr col g x)\<lparr>eu_stats := s\<rparr>)) = Inr x'"
    using assms by (cases "CheckBranchOp (xo_inst op)") (auto simp only: account_issue_def Let_def res_bind_eq_Inr if_True if_False simp_thms)
  have same: "clears x {} ((upd_csr col g x)\<lparr>eu_stats := s\<rparr>)"
    by (rule same_trans [OF upd_csr_clears stats_clears])
  show ?thesis
    using r same lanes_clear [of op "(upd_csr col g x)\<lparr>eu_stats := s\<rparr>" x'] by (auto split: if_splits intro: same_trans)
qed

lemma issue_ready_busy:
  assumes "issue_ready e ec inst c x = Inr x'" "CheckDestWrite inst"
    "get_unit ec inst = Inr k" "\<not> check_units_full (units k x)"
  shows "dest inst \<in> busy x'"
proof -
  obtain addrs spad f x1 where g: "generate_addrs e ec inst c x = Inr (addrs, spad, f, x1)"
    using assms(1) by (cases "generate_addrs e ec inst c x") (auto simp: issue_ready_def Let_def)
  let ?op = "\<lparr>xo_inst = inst, xo_addrs = addrs, xo_context = c\<rparr>"
  obtain i x2 l t x3
    where ex: "(if ec_functional_sim ec \<or> spad \<or> GetAluOpType inst \<noteq> ADDRESS_OP then execute_op e ?op x1 else Inr (inst, x1)) = Inr (i, x2)"
      and u: "enter_unit ec (?op\<lparr>xo_inst := i\<rparr>) l t x2 = Inr x3" and r: "account_issue ec (?op\<lparr>xo_inst := i\<rparr>) x3 = Inr x'"
    using assms(1) by (auto simp only: issue_ready_def Let_def g res_bind_Inr prod.case res_bind_eq_Inr split_paired_Ex)
  have x2: "clears x1 {} x2 \<and> (\<exists>b. i = inst\<lparr>doBranch := b\<rparr>)"
  proof (cases "ec_functional_sim ec \<or> spad \<or> GetAluOpType inst \<noteq> ADDRESS_OP")
    case True
    then have "execute_op e ?op x1 = Inr (i, x2)"
      using ex by simp
    from execute_op_keeps [OF this] show ?thesis
      by simp
  next
    case False
    then have "i = inst" "x2 = x1"
      using ex by simp_all
    then show ?thesis
      using branch_flag_same [of inst] by simp
  qed
  then have "units k x2 = units k x"
    using generate_clears [OF g] by (simp add: clears_def)
  then have "dest inst \<in> busy x3"
    using enter_unit_busy [OF u] x2 assms(2-4) by auto
  moreover have "clears x3 {} x'"
    by (rule account_clears [OF r])
  ultimately show ?thesis
    by (simp add: clears_busy)
qed

lemma wait_on_clears: "clears x {} (snd (wait_on st inst regs x))"
  by (simp add: wait_on_def Let_def stats_clears)

lemma check_dependency_clears:
  assumes "check_dependency_fail inst x = Inr (st, y)"
  shows "clears x {} y"
proof -
  let ?good = "\<lambda>r. case r of Inl _ \<Rightarrow> True | Inr p \<Rightarrow> clears x {} (snd p)"
  have scalar: "clears x {} (snd (check_scalar inst x))"
    by (simp only: check_scalar_def wait_on_clears snd_conv clears_refl simp_thms split: if_split)
  have asserted: "?good (res_bind (assert_that b msg) (\<lambda>_. Inr (wait_on st inst regs x)))" for b msg st regs
    by (cases b) (simp_all add: wait_on_clears)
  have "?good (check_vector inst x)"
    by (simp only: check_vector_def Let_def asserted wait_on_clears sum.case snd_conv clears_refl simp_thms split: if_split)
  then have "?good (check_dependency_fail inst x)"
    by (simp only: check_dependency_fail_def scalar sum.case snd_conv clears_refl simp_thms split: if_split)
  then show ?thesis
    using assms by simp
qed

lemma enter_unit_files: "enter_unit ec op l i x = Inr x' \<Longrightarrow> files x' = files x"
  by (auto simp: enter_unit_def Let_def res_simps split: if_splits)

lemma issue_ready_files:
  assumes "issue_ready e ec inst c x = Inr x'"
  shows "files x' = files x"
proof -
  obtain addrs spad f x1 where g: "generate_addrs e ec inst c x = Inr (addrs, spad, f, x1)"
    using assms(1) by (cases "generate_addrs e ec inst c x") (auto simp: issue_ready_def Let_def)
  let ?op = "\<lparr>xo_inst = inst, xo_addrs = addrs, xo_context = c\<rparr>"
  obtain i x2 l t x3
    where ex: "(if ec_functional_sim ec \<or> spad \<or> GetAluOpType inst \<noteq> ADDRESS_OP then execute_op e ?op x1 else Inr (inst, x1)) = Inr (i, x2)"
      and u: "enter_unit ec (?op\<lparr>xo_inst := i\<rparr>) l t x2 = Inr x3" and r: "account_issue ec (?op\<lparr>xo_inst := i\<rparr>) x3 = Inr x'"
    using assms(1) by (auto simp only: issue_ready_def Let_def g res_bind_Inr prod.case res_bind_eq_Inr split_paired_Ex)
  have "clears x1 {} x2"
    using ex execute_op_keeps(1) [of e ?op x1 i x2] by (auto split: if_splits)
  then show ?thesis
    using generate_clears [OF g] enter_unit_files [OF u] account_clears [OF r] by (simp add: clears_def)
qed

lemma exec_issue_files:
  assumes "exec_issue e ec inst c x = Inr (st, x')"
  shows "files x' = files x"
proof -
  obtain r y where r: "check_dependency_fail inst x = Inr (r, y)"
    using assms by (auto simp: exec_issue_def res_simps)
  then have "x' = y \<or> (\<exists>fs. x' = (upd_csr (fc_inst_col_id c) (\<lambda>r. r\<lparr>csr_pc := csr_pc r + 1\<rparr>) y)\<lparr>eu_finished := fs\<rparr>) \<or> issue_ready e ec inst c y = Inr x'"
    using assms by (auto simp: exec_issue_def res_simps split: if_splits)
  then show ?thesis
    using issue_ready_files [of e ec inst c y x'] check_dependency_clears [OF r] by (auto simp: clears_def)
qed

text \<open>
  C9. Read after write: once an instruction that writes a register has been issued, a vector instruction with two sources that
  reads that register is refused with a dependency wait, and changes nothing but the statistics.
\<close>

theorem issue_blocks_readers:
  assumes "exec_issue e ec inst c x = Inr (ISSUE_SUCCESS, x')" "CheckDestWrite inst" "opcode inst \<noteq> Special EXIT"
    "\<not> CheckScalarOp rd" "\<not> CheckAmoOp rd" "operand_type rd \<in> {OT_VV, OT_WV, OT_VX, OT_VF, OT_VS}"
    "dest inst \<in> {src rd ! 0, src rd ! 1}"
  shows "\<exists>s. exec_issue e ec rd c' x' = Inr (VECTOR_DEPENDENCY_WAIT, x'\<lparr>eu_stats := s\<rparr>)"
proof -
  have scalar: "st \<noteq> ISSUE_SUCCESS" if "check_dependency_fail inst x = Inr (st, y)" for st y
    using that by (auto simp: check_dependency_fail_def check_scalar_def check_vector_def wait_on_def Let_def res_simps split: if_splits)
  have res: "st \<noteq> ISSUE_SUCCESS" if "check_resource_fail ec inst y = Inr st" for st y
    using that by (auto simp: check_resource_fail_def res_simps split: if_splits UnitType.splits)
  obtain y where "check_resource_fail ec inst y = Inr SUCCESS" "issue_ready e ec inst c y = Inr x'"
    using assms(1,3) scalar res by (auto simp: exec_issue_def res_simps split: if_splits)
  moreover from this(1) obtain k where "get_unit ec inst = Inr k" "\<not> check_units_full (units k y)"
    by (auto simp: check_resource_fail_def res_simps split: if_splits UnitType.splits)
  ultimately have "dest inst \<in> busy x'"
    using issue_ready_busy assms(2) by blast
  then have "\<exists>s. check_dependency_fail rd x' = Inr (VECTOR_DEPENDENCY_WAIT, x'\<lparr>eu_stats := s\<rparr>)"
    using assms(4-7) by (auto simp: check_dependency_fail_def check_vector_def wait_on_def CheckReady_def)
  then show ?thesis
    by (auto simp: exec_issue_def)
qed

text \<open>One unit of each kind, and a vector addition.\<close>

definition example_exec_config :: exec_config where
  "example_exec_config =
     \<lparr>ec_packet_size = 32, ec_latency = (\<lambda>_. 1), ec_interval = (\<lambda>_. 1), ec_functional_sim = True, ec_all_vector = False,
      ec_unified_alu = False, ec_num_units = replicate 8 1\<rparr>"

definition example_exec :: exec_unit where
  "example_exec =
     new_exec_unit example_exec_config 0 0 (example_pair\<lparr>vr_table := replicate 4 (SetType INT32 new_vector_data)\<rparr>) (new_ndp_stats 0)
       (projr (new_fifo_pipeline ''to_ldst'' 0 4)) (projr (new_fifo_pipeline ''to_spad'' 0 4))
       (projr (new_fifo_pipeline ''to_v_ldst'' 0 4)) (projr (new_fifo_pipeline ''to_v_spad'' 0 4))
       (\<lambda>_. \<lparr>csr_pc = 0, csr_block = False, csr_vstart = 0, csr_vsew = 32, csr_vlmul = 1\<rparr>) (\<lambda>_. Map.empty)
       (Hash_Map (new_hash_memory_map 0 0x10000)) (\<lambda>_. Hash_Map (new_hash_memory_map SCRATCHPAD_BASE 0x1000))"

text \<open>The free register 2 of the unit.\<close>

definition example_dest :: int where "example_dest = REG_PV_BASE + 2"

definition example_vadd :: ndp_instruction where
  "example_vadd =
     (new_instruction ''vadd.vv'' (Vector VADD) OT_VV example_dest [])\<lparr>src := [REG_PV_BASE + 3, REG_PV_BASE + 3, -1, -1, 0]\<rparr>"

definition example_context :: inst_context where
  "example_context = xo_context example_load"

theorem issue_blocks_readers_witness:
  "\<exists>x' s. exec_issue example_env example_exec_config example_vadd example_context example_exec = Inr (ISSUE_SUCCESS, x') \<and>
     exec_issue example_env example_exec_config (example_vadd\<lparr>src := [example_dest, 9, -1, -1, 0]\<rparr>) example_context x' =
       Inr (VECTOR_DEPENDENCY_WAIT, x'\<lparr>eu_stats := s\<rparr>)"
proof -
  have "case exec_issue example_env example_exec_config example_vadd example_context example_exec of Inr (st, x') \<Rightarrow> st = ISSUE_SUCCESS | Inl _ \<Rightarrow> False"
    by code_simp
  then obtain x' where x': "exec_issue example_env example_exec_config example_vadd example_context example_exec = Inr (ISSUE_SUCCESS, x')"
    by (auto split: sum.splits)
  have "CheckDestWrite example_vadd" "\<not> CheckScalarOp (example_vadd\<lparr>src := [example_dest, 9, -1, -1, 0]\<rparr>)"
    "\<not> CheckAmoOp (example_vadd\<lparr>src := [example_dest, 9, -1, -1, 0]\<rparr>)"
    by code_simp+
  from issue_blocks_readers [OF x' this(1) _ this(2,3)] x' show ?thesis
    by (auto simp: example_vadd_def new_instruction_def)
qed

theorem cycle_wakes_witness:
  "\<exists>x1 x2. exec_issue example_env example_exec_config example_vadd example_context example_exec = Inr (ISSUE_SUCCESS, x1) \<and> exec_cycle x1 = Inr x2 \<and>
     busy x1 = {example_dest} \<and> busy x2 = {}"
proof -
  have "case exec_issue example_env example_exec_config example_vadd example_context example_exec of Inl _ \<Rightarrow> False
    | Inr (st, x1) \<Rightarrow> st = ISSUE_SUCCESS \<and> ok (exec_cycle x1) \<and> busy x1 = {example_dest} \<and>
        length (eu_v_f x1) = 1 \<and> dest_due (hd (eu_v_f x1)) = Some example_dest"
    by code_simp
  then obtain x1 where x1: "exec_issue example_env example_exec_config example_vadd example_context example_exec = Inr (ISSUE_SUCCESS, x1)"
    and r: "ok (exec_cycle x1)" "busy x1 = {example_dest}" "length (eu_v_f x1) = 1" "dest_due (hd (eu_v_f x1)) = Some example_dest"
    by (auto split: sum.splits)
  from r(3,4) obtain u where u: "eu_v_f x1 = [u]" "dest_due u = Some example_dest"
    by (cases "eu_v_f x1") auto
  from r(1) obtain x2 where x2: "exec_cycle x1 = Inr x2"
    by (cases "exec_cycle x1") auto
  from u have "due u = {example_dest}" "units U_V_F x1 = [u]"
    by (simp_all add: units_def due_def)
  with cycle_wakes [OF x2] x1 x2 r(2) show ?thesis
    by auto
qed

section \<open>Packet addresses\<close>

lemma packet_loop_set:
  assumes "0 < p"
  shows "set (packet_addr_loop p n b i addrs) = set addrs \<union> (\<lambda>k. FormatAddr (b + of_nat ((i + k * p) * p))) ` {k. i + k * p < n}"
  using assms
proof (induction p n b i addrs rule: packet_addr_loop.induct)
  case (1 p n b i addrs)
  show ?case
  proof (cases "i < n")
    case True
    have "{k. i + k * p < n} = insert 0 (Suc ` {k. i + p + k * p < n})"
      using True by (auto simp: image_iff algebra_simps) (metis not0_implies_Suc mult_Suc add.assoc)
    then show ?thesis
      using 1 True by (simp add: packet_addr_loop.simps [of p n b i] set_insort_insert image_image algebra_simps)
  next
    case False
    then show ?thesis
      by (simp add: packet_addr_loop.simps [of p n b i])
  qed
qed

lemma packet_loop_sorted: "sorted addrs \<Longrightarrow> distinct addrs \<Longrightarrow> sorted (packet_addr_loop p n b i addrs) \<and> distinct (packet_addr_loop p n b i addrs)"
proof (induction p n b i addrs rule: packet_addr_loop.induct)
  case (1 p n b i addrs)
  then show ?case
    by (subst (1 2) packet_addr_loop.simps) (auto simp: sorted_insort_insert distinct_insort_insert)
qed

text \<open>Whole packets pass through the alignment.\<close>

lemma FormatAddr_add: "FormatAddr (x + 32 * m) = FormatAddr x + 32 * m"
proof -
  have split: "FormatAddr y + take_bit 5 y = y" for y
  proof -
    have m: "(31 :: u64) = mask 5"
      by (simp add: mask_eq_exp_minus_1)
    have "FormatAddr y = push_bit 5 (drop_bit 5 y)"
      unfolding FormatAddr_def m by (rule bit_word_eqI) (auto simp: bit_simps)
    then show ?thesis
      by (simp add: bits_ident)
  qed
  have "take_bit 5 (x + 32 * m) = take_bit 5 x"
    by transfer (simp add: take_bit_eq_mod)
  then have "FormatAddr (x + 32 * m) = x + 32 * m - take_bit 5 x" "FormatAddr x = x - take_bit 5 x"
    using split [of "x + 32 * m"] split [of x] by (simp_all only: eq_diff_eq)
  then show ?thesis
    by simp
qed

lemma access_size_packets:
  assumes "ec_packet_size ec = 32" "vlmul = of_nat L \<or> L = 1 \<and> vlmul \<in> {1/2, 1/4, 1/8}"
  shows "32 * k < access_size ec inst vlmul \<longleftrightarrow> k < L"
proof -
  have size: "access_size ec inst vlmul = nat \<lfloor>vlmul * 32\<rfloor>"
    using assms(1) by (simp add: access_size_def round_up_def)
  have "\<lfloor>of_nat L * (32 :: rat)\<rfloor> = int (32 * L)"
    by (metis floor_of_nat mult.commute of_nat_mult of_nat_numeral)
  moreover have "vlmul = of_nat L \<or> L = 1 \<and> (vlmul = 1/2 \<or> vlmul = 1/4 \<or> vlmul = 1/8)"
    using assms(2) by blast
  ultimately show ?thesis
    unfolding size by (elim disjE conjE; hypsubst; simp add: zless_nat_eq_int_zless)
qed

text \<open>
  C40. The packets of a contiguous access, for packets of 32 bytes: a load or store with register grouping \<open>L\<close> accesses exactly \<open>L\<close>
  packets, whatever its element width, and one packet when the grouping is a fraction; the \<open>k\<close>-th is \<open>1024 * k\<close> bytes behind the aligned
  first address, not \<open>32 * k\<close>, since the byte counter of the loop is multiplied by the packet size once more. (The accessed range does not wrap
  around.)
\<close>

theorem contiguous_packets:
  assumes "ec_packet_size ec = 32" "vlmul = of_nat L \<or> L = 1 \<and> vlmul \<in> {1/2, 1/4, 1/8}"
    and "a = FormatAddr (base + word_of_int (src inst ! 1))" "unat a + 1024 * L \<le> 2 ^ 64"
  shows "contiguous_addrs ec inst vlmul base = Inr (map (\<lambda>k. a + of_nat (1024 * k)) [0..<L])"
proof -
  let ?b = "base + word_of_int (src inst ! 1)"
  let ?l = "packet_addr_loop 32 (access_size ec inst vlmul) ?b 0 []"
  define f where "f k = a + of_nat (1024 * k)" for k
  have f: "unat (f k) = unat a + 1024 * k" if "k < L" for k
  proof -
    have "unat a + 1024 * k < 2 ^ 64"
      using that assms(4) by linarith
    then have "unat a + 1024 * k < 18446744073709551616" "1024 * k < 18446744073709551616"
      by simp_all
    then show ?thesis
      unfolding f_def unat_word_ariths unat_of_nat by simp
  qed
  have "FormatAddr (?b + of_nat ((0 + k * 32) * 32)) = f k" for k
    using FormatAddr_add [of ?b "of_nat (32 * k)"] by (simp add: assms(3) f_def mult.commute)
  then have "set ?l = set (map f [0..<L])"
    using access_size_packets [OF assms(1,2)] by (auto simp: packet_loop_set mult.commute)
  moreover have "sorted ?l" "distinct ?l"
    using packet_loop_sorted [of "[]"] by simp_all
  moreover have "sorted (map f [0..<L])" "distinct (map f [0..<L])"
    by (auto simp: sorted_iff_nth_mono word_le_nat_alt f distinct_map inj_on_def dest!: arg_cong [of _ _ unat])
  ultimately have "?l = map f [0..<L]"
    by (intro sorted_distinct_set_unique)
  then show ?thesis
    using assms(1) by (simp add: contiguous_addrs_def f_def)
qed

theorem contiguous_packets_witness:
  "contiguous_addrs example_exec_config (new_instruction ''vle32'' (Vmem VLE32) OT_V 77 []) 2 0x1010 = Inr [0x1000, 0x1400] \<and>
   contiguous_addrs example_exec_config (new_instruction ''vle16'' (Vmem VLE16) OT_V 77 []) (1/2) 0x1010 = Inr [0x1000]"
proof
  have ec: "ec_packet_size example_exec_config = 32"
    by (simp add: example_exec_config_def)
  have upt: "[0..<2] = [0, 1]" "[0..<1] = [0 :: nat]"
    by (simp_all add: upt_rec)
  show "contiguous_addrs example_exec_config (new_instruction ''vle32'' (Vmem VLE32) OT_V 77 []) 2 0x1010 = Inr [0x1000, 0x1400]"
    using contiguous_packets [OF ec, where vlmul = 2 and L = 2 and a = "0x1000" and base = "0x1010" and inst = "new_instruction ''vle32'' (Vmem VLE32) OT_V 77 []"]
    by (simp add: new_instruction_def FormatAddr_def upt)
  show "contiguous_addrs example_exec_config (new_instruction ''vle16'' (Vmem VLE16) OT_V 77 []) (1/2) 0x1010 = Inr [0x1000]"
    using contiguous_packets [OF ec, where vlmul = "1/2" and L = 1 and a = "0x1000" and base = "0x1010" and inst = "new_instruction ''vle16'' (Vmem VLE16) OT_V 77 []"]
    by (simp add: new_instruction_def FormatAddr_def upt)
qed

end
