(* ===== verification/Scalar_Correctness.thy ===== *)
theory Scalar_Correctness
  imports Scalar_Execution
begin

text \<open>
  What the scalar instructions of \<open>Scalar_Execution\<close> compute: the arithmetic against a reference on 64-bit words, and the
  round trip of a word through a store and a load.
\<close>

section \<open>Register values\<close>

text \<open>The value a context reads in a scalar register, or nothing where the read fails.\<close>

definition xvalue :: "exec_env \<Rightarrow> int \<Rightarrow> exec_state \<Rightarrow> u64 option" where
  "xvalue e reg s =
     (case ReadXreg reg (xe_ndp_id e) (xe_request e) (vr_unit (xs_regs s)) of Inl _ \<Rightarrow> None | Inr (v, _) \<Rightarrow> Some v)"

text \<open>The table of the scalar registers has its size, and its numbers stay below the special registers.\<close>

definition xregs_ok :: "exec_state \<Rightarrow> bool" where
  "xregs_ok s \<longleftrightarrow>
     length (ru_xreg_table (vr_unit (xs_regs s))) = nat (ru_num_xregs (vr_unit (xs_regs s))) \<and>
     REG_PX_BASE + ru_num_xregs (vr_unit (xs_regs s)) \<le> SPCIAL_REG_START"

definition xreg_dest :: "int \<Rightarrow> exec_state \<Rightarrow> bool" where
  "xreg_dest reg s \<longleftrightarrow> IsXreg reg (vr_unit (xs_regs s))"

definition count_read :: "exec_state \<Rightarrow> exec_state" where
  "count_read s = upd_regs (count_reg X_READ (vr_unit (xs_regs s))) s"

definition put_xreg :: "int \<Rightarrow> u64 \<Rightarrow> exec_state \<Rightarrow> exec_state" where
  "put_xreg reg v s =
     (let u = vr_unit (xs_regs s)
      in upd_regs (count_reg X_WRITE (u\<lparr>ru_xreg_table := (ru_xreg_table u)[nat (reg - REG_PX_BASE) := v]\<rparr>)) s)"

lemma read_xreg_value: "xvalue e reg s = Some v \<Longrightarrow> read_xreg e reg s = Inr (v, count_read s)"
  by (auto simp: xvalue_def read_xreg_def count_read_def ReadXreg_def split: if_splits)

lemma read_xreg_cases: "read_xreg e reg s = (case xvalue e reg s of Some v \<Rightarrow> Inr (v, count_read s)
    | None \<Rightarrow> Inl (Runtime_Error ''RegisterUnit::ReadXreg: Invalid register''))"
  by (auto simp: xvalue_def read_xreg_def count_read_def ReadXreg_def)

lemma write_xreg_value: "xreg_dest reg s \<Longrightarrow> write_xreg reg v s = Inr ((), put_xreg reg v s)"
  by (simp add: write_xreg_def WriteXreg_def put_xreg_def xreg_dest_def Let_def)

lemma count_read_simps [simp]:
  "xvalue e reg (count_read s) = xvalue e reg s" "xregs_ok (count_read s) = xregs_ok s" "xreg_dest reg (count_read s) = xreg_dest reg s"
  "xs_csr (count_read s) = xs_csr s" "xs_memory (count_read s) = xs_memory s" "xs_scratchpad (count_read s) = xs_scratchpad s"
  by (simp_all add: xvalue_def xregs_ok_def xreg_dest_def count_read_def upd_regs_def count_reg_def ReadXreg_def IsXreg_def)

lemma put_xreg_simps [simp]:
  "xs_csr (put_xreg reg v s) = xs_csr s" "xs_memory (put_xreg reg v s) = xs_memory s" "xs_scratchpad (put_xreg reg v s) = xs_scratchpad s"
  "xregs_ok (put_xreg reg v s) = xregs_ok s"
  by (simp_all add: put_xreg_def upd_regs_def Let_def xregs_ok_def count_reg_def)

lemma put_xreg_same:
  assumes "xregs_ok s" "xreg_dest reg s"
  shows "xvalue e reg (put_xreg reg v s) = Some v"
  using assms
  by (auto simp: xregs_ok_def xreg_dest_def xvalue_def put_xreg_def upd_regs_def count_reg_def Let_def ReadXreg_def IsXreg_def
      REG_NDP_ID_def REG_ADDR_def REG_REQUEST_OFFSET_def REG_X0_def)

lemma put_xreg_other:
  assumes "xregs_ok s" "xreg_dest reg s" "q \<noteq> reg"
  shows "xvalue e q (put_xreg reg v s) = xvalue e q s"
  using assms
  by (auto simp: xregs_ok_def xreg_dest_def xvalue_def put_xreg_def upd_regs_def count_reg_def Let_def ReadXreg_def IsXreg_def nth_list_update)

section \<open>Arithmetic\<close>

text \<open>The arithmetic on words: the wrapped ring operations, shifts by less than 64 of which the right one is arithmetic, the signed quotient
  and remainder, and the bitwise operations.\<close>

definition word_alu :: "scalar_opcode \<Rightarrow> u64 \<Rightarrow> u64 \<Rightarrow> u64 option" where
  "word_alu op a b =
     (if op \<in> {ADD, ADDI} then Some (a + b)
      else if op = SUB then Some (a - b)
      else if op \<in> {MUL, MULI} then Some (a * b)
      else if op \<in> {SLL, SLLI} then if b < 64 then Some (push_bit (unat b) a) else None
      else if op \<in> {SRL, SRLI} then if b < 64 then Some (signed_drop_bit (unat b) a) else None
      else if op = DIV then if b = 0 \<or> a = 0x8000000000000000 \<and> b = - 1 then None else Some (word_of_int (sint a sdiv sint b))
      else if op = REM then if b = 0 \<or> a = 0x8000000000000000 \<and> b = - 1 then None else Some (word_of_int (sint a smod sint b))
      else if op \<in> {AND_op, ANDI} then Some (a AND b)
      else Some (a OR b))"

lemma trunc_rem_smod: "trunc_rem a b = a smod b"
  using sdiv_mult_smod_eq [of a b] by (simp add: trunc_rem_def trunc_div_sdiv algebra_simps)

lemma word_of_sint: "word_of_int (sint a) = (a :: u64)"
  by simp

lemma sint_eqD: "sint (a :: u64) = k \<Longrightarrow> a = word_of_int k"
  using word_of_sint [of a] by simp

lemma sint_small: "0 \<le> sint b \<Longrightarrow> sint b < 64 \<Longrightarrow> uint (b :: u64) = sint b"
  using sint_eqD [of b "sint b"] uint_word_of_int_eq [where 'a = 64, of "sint b"] take_bit_int_eq_self [of "sint b" 64] by simp

lemma uint_small:
  assumes "(b :: u64) < 64"
  shows "sint b = uint b"
proof -
  have "uint b < 64"
    using assms by (simp add: word_less_def)
  then show ?thesis
    unfolding sint_uint by (intro signed_take_bit_int_eq_self) (simp_all add: order.trans [OF _ uint_ge_0])
qed

lemma shift_range: "0 \<le> sint b \<and> sint b < 64 \<longleftrightarrow> (b :: u64) < 64"
proof
  assume "0 \<le> sint b \<and> sint b < 64"
  then show "b < 64"
    using sint_small [of b] by (simp add: word_less_def)
next
  assume "b < 64"
  then show "0 \<le> sint b \<and> sint b < 64"
    by (simp add: uint_small) (simp add: word_less_def)
qed

lemma sint_min: "sint (a :: u64) = - (2 ^ 63) \<longleftrightarrow> a = 0x8000000000000000"
  by (auto dest: sint_eqD)

lemma sint_zero: "sint (b :: u64) = 0 \<longleftrightarrow> b = 0"
  by (auto dest: sint_eqD)

lemma sint_minus_one: "sint (b :: u64) = - 1 \<longleftrightarrow> b = - 1"
  by (auto dest: sint_eqD)

lemma shift_left_word:
  assumes "(b :: u64) < 64"
  shows "word_of_int (sint a * 2 ^ nat (sint b)) = push_bit (unat b) (a :: u64)"
  unfolding uint_small [OF assms] unat_eq_nat_uint by (simp add: push_bit_eq_mult)

lemma shift_right_word:
  assumes "(b :: u64) < 64"
  shows "word_of_int (sint a div 2 ^ nat (sint b)) = signed_drop_bit (unat b) (a :: u64)"
  unfolding uint_small [OF assms] unat_eq_nat_uint drop_bit_eq_div [symmetric] sint_signed_drop_bit_eq [symmetric] by (rule word_of_sint)

lemma bitwise_word: "word_of_int (sint a AND sint b) = (a AND b :: u64)" "word_of_int (sint a OR sint b) = (a OR b :: u64)"
  unfolding signed_and_eq [symmetric] signed_or_eq [symmetric] by (rule word_of_sint)+

lemma ring_word:
  "word_of_int (sint a + sint b) = (a + b :: u64)" "word_of_int (sint a - sint b) = (a - b :: u64)"
  "word_of_int (sint a * sint b) = (a * b :: u64)"
  by simp_all

lemmas alu_words = shift_range sint_min sint_zero sint_minus_one shift_left_word shift_right_word bitwise_word ring_word

lemma shift_ops_word:
  "(case shift_left 64 (sint a) (sint b) of Inl _ \<Rightarrow> None | Inr r \<Rightarrow> Some (word_of_int r)) = (if b < 64 then Some (push_bit (unat b) a) else None)"
  "(case shift_right 64 (sint a) (sint b) of Inl _ \<Rightarrow> None | Inr r \<Rightarrow> Some (word_of_int r)) = (if b < 64 then Some (signed_drop_bit (unat b) a) else None)"
  for a b :: u64
  using shift_range [of b] unfolding shift_left_def shift_right_def by (auto simp: shift_left_word shift_right_word simp del: of_int_mult)

lemma alu_op_word:
  assumes "op \<in> set alu_ops \<union> set alu_imm_ops"
  shows "(case alu_op op (sint a) (sint b) of Inl _ \<Rightarrow> None | Inr r \<Rightarrow> Some (word_of_int r)) = word_alu op a b"
proof -
  have "op \<in> {ADD, ADDI, SUB, MUL, MULI, SLL, SLLI, SRL, SRLI, DIV, REM, AND_op, ANDI, OR_op, ORI}"
    using assms by (auto simp: alu_ops_def alu_imm_ops_def)
  then show ?thesis
    unfolding alu_op_def word_alu_def trunc_div_sdiv trunc_rem_smod sint_min sint_zero sint_minus_one
    by (auto simp: shift_ops_word bitwise_word)
qed

lemma xbind_Inr [simp]: "m s = Inr (x, s') \<Longrightarrow> xbind m f s = f x s'"
  by (simp add: xbind_def)

lemma xret_run [simp]: "xret x s = Inr (x, s)"
  by (simp add: xret_def)

lemma xlift_run [simp]: "xlift (Inr x) s = Inr (x, s)" "xlift (Inl err) s = Inl err"
  by (simp_all add: xlift_def)

lemma xbind_eq_Inr [res_simps]: "xbind m f s = Inr r \<longleftrightarrow> (\<exists>x s'. m s = Inr (x, s') \<and> f x s' = Inr r)"
  by (auto simp: xbind_def res_simps)

lemma xlift_eq_Inr [res_simps]: "xlift r s = Inr (x, s') \<longleftrightarrow> r = Inr x \<and> s' = s"
  by (auto simp: xlift_def res_simps)

text \<open>
  C14. The scalar arithmetic is the arithmetic of 64-bit words: where the reference has a result, the instruction writes it to its
  destination and changes no other register, no memory and no control register; where it has none (a shift by 64 or more, a quotient by
  zero or one that does not fit), the instruction fails.
\<close>

theorem scalar_alu_is_word_arithmetic:
  assumes "opcode inst = Scalar op" "op \<in> set alu_ops \<union> set alu_imm_ops" "xregs_ok s" "xreg_dest (dest inst) s"
    and a: "xvalue e (src inst ! 0) s = Some a"
    and b: "(if op \<in> set alu_ops then xvalue e (src inst ! 1) s else Some (word_of_int (src inst ! 1))) = Some b"
  shows "case word_alu op a b of
      None \<Rightarrow> \<not> ok (ExecuteScalar e inst s)
    | Some r \<Rightarrow> \<exists>s'. ExecuteScalar e inst s = Inr ((), s') \<and> xvalue e (dest inst) s' = Some r \<and>
        (\<forall>q. q \<noteq> dest inst \<longrightarrow> xvalue e q s' = xvalue e q s) \<and>
        xs_memory s' = xs_memory s \<and> xs_scratchpad s' = xs_scratchpad s \<and> xs_csr s' = xs_csr s"
proof -
  let ?t = "if op \<in> set alu_ops then count_read (count_read s) else count_read s"
  have x: "ExecuteScalar e inst s = exec_alu e op inst s"
    using assms(1,2) by (simp add: ExecuteScalar_def)
  have "(if op \<in> set alu_ops then read_xreg e (src inst ! 1) else xret (word_of_int (src inst ! 1))) (count_read s) = Inr (b, ?t)"
    using b by (auto simp: read_xreg_value)
  then have run: "exec_alu e op inst s =
      xbind (xlift (alu_op op (sint a) (sint b))) (\<lambda>r. write_xreg (dest inst) (word_of_int r)) ?t"
    unfolding exec_alu_def by (simp add: read_xreg_value [OF a])
  have t: "xregs_ok ?t" "xreg_dest (dest inst) ?t"
    using assms(3,4) by simp_all
  show ?thesis
  proof (cases "alu_op op (sint a) (sint b)")
    case (Inl err)
    then show ?thesis
      using alu_op_word [OF assms(2), of a b] x run by (simp add: xbind_def)
  next
    case (Inr r)
    then have "ExecuteScalar e inst s = Inr ((), put_xreg (dest inst) (word_of_int r) ?t)"
      using x run t by (simp add: write_xreg_value)
    moreover have "word_alu op a b = Some (word_of_int r)"
      using alu_op_word [OF assms(2), of a b] Inr by simp
    ultimately show ?thesis
      using put_xreg_same [OF t, of e "word_of_int r"] put_xreg_other [OF t, of _ e "word_of_int r"] by auto
  qed
qed

text \<open>A context with four registers of each kind and an empty memory of 64 KB.\<close>

definition example_state :: exec_state where
  "example_state =
     \<lparr>xs_regs = \<lparr>vr_unit = new_register_unit 0 0 4 4 4, vr_table = replicate 4 new_vector_data\<rparr>,
      xs_csr = \<lparr>csr_pc = 0, csr_block = False, csr_vstart = 0, csr_vsew = 32, csr_vlmul = 1\<rparr>,
      xs_memory = Hash_Map (new_hash_memory_map 0 0x10000), xs_scratchpad = Hash_Map (new_hash_memory_map SCRATCHPAD_BASE 0x1000)\<rparr>"

definition example_inst :: "scalar_opcode \<Rightarrow> int \<Rightarrow> int list \<Rightarrow> ndp_instruction" where
  "example_inst op d ss = (new_instruction ''inst'' (Scalar op) OT_V d [])\<lparr>src := ss\<rparr>"

theorem scalar_alu_is_word_arithmetic_witness:
  "\<exists>s'. ExecuteScalar example_env (example_inst SRLI (REG_PX_BASE + 1) [REG_ADDR, 4]) example_state = Inr ((), s') \<and>
     xvalue example_env (REG_PX_BASE + 1) s' = Some 0x100"
proof -
  let ?inst = "example_inst SRLI (REG_PX_BASE + 1) [REG_ADDR, 4]"
  have "opcode ?inst = Scalar SRLI" "SRLI \<in> set alu_ops \<union> set alu_imm_ops" "xregs_ok example_state" "xreg_dest (dest ?inst) example_state"
    "xvalue example_env (src ?inst ! 0) example_state = Some 0x1000"
    "(if SRLI \<in> set alu_ops then xvalue example_env (src ?inst ! 1) example_state else Some (word_of_int (src ?inst ! 1))) = Some 4"
    "word_alu SRLI 0x1000 4 = Some 0x100" "dest ?inst = REG_PX_BASE + 1"
    by code_simp+
  with scalar_alu_is_word_arithmetic [of ?inst SRLI example_state example_env "0x1000" 4] show ?thesis
    by auto
qed

section \<open>Memory\<close>

lemma FormatAddr_idem [simp]: "FormatAddr (FormatAddr a) = FormatAddr a"
  by (simp add: FormatAddr_def)

lemma load_or_new_single:
  assumes "load_or_new e addr s = Inr (vs, s1)" "GetMemoryMap (FormatAddr addr) s = Hash_Map h" "\<not> hm_use_synthetic h"
    and "csr_vlmul (xs_csr s) \<noteq> 2"
  shows "s1 = s \<and> \<not> vd_double_reg vs"
  using assms
  by (auto simp: load_or_new_def new_vector_def CheckMemoryMap_def MemoryMapLoad_def mm_load_def hm_load_def new_vector_data_context_def
      Let_def res_simps split: if_splits option.splits)

lemma store_then_load:
  assumes "MemoryMapStore e addr v s = Inr (u, s')" "GetMemoryMap (FormatAddr addr) s = Hash_Map h" "\<not> hm_use_synthetic h"
    and "\<not> vd_double_reg v"
  shows "MemoryMapLoad e addr s' = Inr (v, s') \<and> xs_regs s' = xs_regs s"
  using assms
  by (auto simp: MemoryMapStore_def MemoryMapLoad_def mm_store_def mm_load_def hm_store_def hm_load_def GetMemoryMap_def in_map_def
      Let_def update_conv' res_simps split: if_splits)

lemma SetInt_get:
  "SetInt x i v = Inr v' \<Longrightarrow> GetIntData i v' = Inr x \<and> vd_type v' = INT32 \<and> vd_double_reg v' = vd_double_reg v"
  by (auto simp: SetInt_def set_cell_def GetIntData_def cell_def res_simps split: if_splits)

lemma GetMemoryMap_count [simp]: "GetMemoryMap a (count_read s) = GetMemoryMap a s"
  by (simp add: GetMemoryMap_def)

lemma effective_addr_value:
  "xvalue e (src inst ! 0) s = Some base \<Longrightarrow> effective_addr e inst s = Inr (base + word_of_int (src inst ! 1), count_read s)"
  by (simp add: effective_addr_def read_xreg_value)

lemma same_regs:
  "xs_regs s' = xs_regs s \<Longrightarrow> xvalue e q s' = xvalue e q s \<and> xregs_ok s' = xregs_ok s \<and> xreg_dest q s' = xreg_dest q s"
  by (simp add: xvalue_def xregs_ok_def xreg_dest_def)

text \<open>
  C18. A word that \<^verbatim>\<open>sw\<close> stores is what \<^verbatim>\<open>lw\<close> loads: after a store of register \<open>x\<close> to hash memory (without its synthetic part, and not
  under \<^verbatim>\<open>LMUL = 2\<close>), a load from the same base and offset succeeds, writes the low word of \<open>x\<close>, sign-extended, to its destination
  and changes no other register.
\<close>

theorem store_load_word:
  assumes "opcode sw = Scalar SW" "opcode lw = Scalar LW" "src lw ! 0 = src sw ! 0" "src lw ! 1 = src sw ! 1"
    and x: "xvalue e (dest sw) s = Some x" and base: "xvalue e (src sw ! 0) s = Some base"
    and h: "GetMemoryMap (FormatAddr (base + word_of_int (src sw ! 1))) s = Hash_Map h" "\<not> hm_use_synthetic h" "csr_vlmul (xs_csr s) \<noteq> 2"
    and d: "xregs_ok s" "xreg_dest (dest lw) s" and run: "ExecuteScalar e sw s = Inr ((), s1)"
  shows "\<exists>s2. ExecuteScalar e lw s1 = Inr ((), s2) \<and> xvalue e (dest lw) s2 = Some (scast (ucast x :: u32)) \<and>
    (\<forall>q. q \<noteq> dest lw \<longrightarrow> xvalue e q s2 = xvalue e q s)"
proof -
  let ?a = "base + word_of_int (src sw ! 1)" and ?t = "count_read (count_read s)"
  have "exec_sw e sw s = Inr ((), s1)"
    using run assms(1) by (simp add: ExecuteScalar_def alu_ops_def alu_imm_ops_def)
  moreover have "read_xreg e (dest sw) s = Inr (x, count_read s)" "effective_addr e sw (count_read s) = Inr (?a, ?t)"
    using x base by (simp_all add: read_xreg_value effective_addr_value)
  ultimately obtain vs t i vs' where vs: "load_or_new e ?a ?t = Inr (vs, t)" "packet_index ?a 4 = Inr i" "SetInt (ucast x) i vs = Inr vs'"
    and st: "MemoryMapStore e ?a vs' t = Inr ((), s1)"
    unfolding exec_sw_def by (auto simp: res_simps)
  have t: "t = ?t" "\<not> vd_double_reg vs"
    using load_or_new_single [OF vs(1)] h by simp_all
  then have s1: "MemoryMapLoad e ?a s1 = Inr (vs', s1)" "xs_regs s1 = xs_regs ?t"
    using store_then_load [OF st] h SetInt_get [OF vs(3)] by simp_all
  have e1: "effective_addr e lw s1 = Inr (?a, count_read s1)"
    using same_regs [OF s1(2)] base assms(3,4) by (simp add: effective_addr_value)
  have l1: "MemoryMapLoad e ?a (count_read s1) = Inr (vs', count_read s1)"
    using s1(1) by (auto simp: MemoryMapLoad_def Let_def res_simps)
  have d1: "xregs_ok (count_read s1)" "xreg_dest (dest lw) (count_read s1)"
    using same_regs [OF s1(2)] d by simp_all
  have "ExecuteScalar e lw s1 = Inr ((), put_xreg (dest lw) (scast (ucast x :: u32)) (count_read s1))"
    using SetInt_get [OF vs(3)] e1 l1 vs(2) assms(2) write_xreg_value [OF d1(2)]
    by (simp add: ExecuteScalar_def exec_lw_def alu_ops_def alu_imm_ops_def)
  then show ?thesis
    using put_xreg_same [OF d1] put_xreg_other [OF d1] same_regs [OF s1(2)] by auto
qed

theorem store_load_word_witness:
  "\<exists>s1 s2. ExecuteScalar example_env (example_inst SW REG_ADDR [REG_X0, 68]) example_state = Inr ((), s1) \<and>
     ExecuteScalar example_env (example_inst LW (REG_PX_BASE + 1) [REG_X0, 68]) s1 = Inr ((), s2) \<and>
     xvalue example_env (REG_PX_BASE + 1) s2 = Some 0x1000"
proof -
  let ?sw = "example_inst SW REG_ADDR [REG_X0, 68]" and ?lw = "example_inst LW (REG_PX_BASE + 1) [REG_X0, 68]"
  have "ok (ExecuteScalar example_env ?sw example_state)"
    by code_simp
  then obtain s1 where s1: "ExecuteScalar example_env ?sw example_state = Inr ((), s1)"
    by (auto simp: ok_iff)
  have f: "opcode ?sw = Scalar SW" "opcode ?lw = Scalar LW" "src ?lw ! 0 = src ?sw ! 0" "src ?lw ! 1 = src ?sw ! 1" "dest ?lw = REG_PX_BASE + 1"
    "xvalue example_env (dest ?sw) example_state = Some 0x1000" "xvalue example_env (src ?sw ! 0) example_state = Some 0"
    "csr_vlmul (xs_csr example_state) \<noteq> 2" "xregs_ok example_state" "xreg_dest (dest ?lw) example_state"
    "(scast (ucast (0x1000 :: u64) :: u32) :: u64) = 0x1000"
    by code_simp+
  have "GetMemoryMap (FormatAddr (0 + word_of_int (src ?sw ! 1))) example_state = Hash_Map (new_hash_memory_map 0 0x10000)"
    "\<not> hm_use_synthetic (new_hash_memory_map 0 0x10000)"
    by (simp_all add: example_inst_def example_state_def GetMemoryMap_def FormatAddr_def CheckScratchpad_def SCRATCHPAD_BASE_def
        SCRATCHPAD_MAX_SIZE_def new_hash_memory_map_def)
  from store_load_word [OF f(1-4,6,7) this f(8-10) s1] show ?thesis
    using s1 f(5,11) by auto
qed

end
