(* ===== verification/Vector_Correctness.thy ===== *)
theory Vector_Correctness
  imports Vector_Execution Scalar_Correctness
begin

text \<open>
  What vector instructions compute: the frame of every execution, reductions against the fold of an operation over the
  lanes, the first set lane of a mask, and the compression of the selected lanes.
\<close>

section \<open>The frame of an execution\<close>

text \<open>
  C15. The execution of an instruction changes register and memory values, the vector configuration and statistics
  only: renaming, free lists, busy registers, the program counter and the block flag are as before, no register table
  changes its size, and of the instruction only the branch flag changes.
\<close>

theorem execute_frame:
  assumes "Execute e inst s = Inr (inst', s')"
  shows "frame s s' \<and> inst' = inst\<lparr>doBranch := doBranch inst'\<rparr>"
  using assms preserves_Execute execute_branch_flag [OF assms] by (auto simp: preserves_def)

definition example_vector_inst :: "Opcode \<Rightarrow> OperandType \<Rightarrow> int \<Rightarrow> int list \<Rightarrow> ndp_instruction" where
  "example_vector_inst op ty d ss = (new_instruction ''inst'' op ty d [])\<lparr>src := ss\<rparr>"

theorem execute_frame_witness:
  "\<exists>inst' s'. Execute example_env (example_vector_inst (Vmask VID) OT_V REG_PV_BASE [- 1]) example_state = Inr (inst', s') \<and> frame example_state s' \<and>
     xs_regs s' \<noteq> xs_regs example_state"
proof -
  let ?inst = "example_vector_inst (Vmask VID) OT_V REG_PV_BASE [- 1]"
  have "case Execute example_env ?inst example_state of Inr (_, s') \<Rightarrow> vd_data (vr_table (xs_regs s') ! 0) = [0, 1, 2, 3, 4, 5, 6, 7] | Inl _ \<Rightarrow> False"
    by code_simp
  then obtain inst' s' where r: "Execute example_env ?inst example_state = Inr (inst', s')" "vd_data (vr_table (xs_regs s') ! 0) = [0, 1, 2, 3, 4, 5, 6, 7]"
    by (auto split: sum.splits)
  moreover have "vd_data (vr_table (xs_regs example_state) ! 0) \<noteq> [0, 1, 2, 3, 4, 5, 6, 7]"
    by code_simp
  ultimately show ?thesis
    using execute_frame [OF r(1)] by metis
qed

section \<open>Lanes\<close>

lemma lanes_nonneg: "0 \<le> vstart \<Longrightarrow> lanes vstart n = [nat vstart..<n]"
  by (simp add: lanes_def)

definition mask_bit :: "vector_data \<Rightarrow> nat \<Rightarrow> bool" where
  "mask_bit v i = bit (vd_data v ! (i div 32)) (i mod 32)"

text \<open>The cells of a mask hold a bit for every lane.\<close>

definition mask_covers :: "vector_data \<Rightarrow> nat \<Rightarrow> bool" where
  "mask_covers v n \<longleftrightarrow> n \<le> 32 * length (vd_data v)"

lemma GetVmaskData_bit: "mask_covers v n \<Longrightarrow> i < n \<Longrightarrow> GetVmaskData i v = Inr (mask_bit v i)"
  by (auto simp: GetVmaskData_def cell_def mask_covers_def mask_bit_def bit_iff_odd_drop_bit odd_iff_mod_2_eq_one)

lemma SetInt_ok:
  "i < vlen_of v \<Longrightarrow> i < length (vd_data v) \<Longrightarrow> SetInt x i v = Inr (v\<lparr>vd_type := INT32, vd_data := (vd_data v)[i := x]\<rparr>)"
  by (simp add: SetInt_def set_cell_def vlen_of_def)

section \<open>Reductions\<close>

text \<open>
  A reduction of one element kind: the accumulator and the elements are numbers of that kind, and the operation on
  numbers is an operation on their values. The reduction is then the fold of that operation over the enabled lanes.
\<close>

locale lane_reduction =
  fixes e :: exec_env and k :: num_kind and inj :: "'a \<Rightarrow> vnum" and elem :: "nat \<Rightarrow> vector_data \<Rightarrow> 'a res"
    and f :: "vnum \<Rightarrow> vnum \<Rightarrow> vnum res" and g :: "'a \<Rightarrow> 'a \<Rightarrow> 'a"
  assumes read: "get_num (xe_fp e) k i v = res_bind (elem i v) (\<lambda>x. Inr (inj x))"
    and step: "f (inj a) (inj b) = Inr (inj (g a b))"
begin

lemma reduce_fold:
  assumes "\<And>i. i \<in> set is \<Longrightarrow> elem i vs = Inr (x i)" "\<And>i. i \<in> set is \<Longrightarrow> enabled i = Inr (on i)"
  shows "reduce e f enabled k (inj a) vs is = Inr (inj (foldl g a (map x (filter on is))))"
  using assms by (induction "is" arbitrary: a) (simp_all add: reduce_def read step)

lemma vred_fold:
  assumes "elem 0 vs2 = Inr a" "\<And>i. i \<in> set (lanes vstart (vlen_of vs1)) \<Longrightarrow> elem i vs1 = Inr (x i)"
    and "\<And>i. i \<in> set (lanes vstart (vlen_of vs1)) \<Longrightarrow> enabled i = Inr (on i)" "f = h k"
  shows "vred e h enabled k vstart vs1 vs2 vd =
    set_num (xe_fp e) (inj (foldl g a (map x (filter on (lanes vstart (vlen_of vs1)))))) 0 vd"
  using assms(1,4) reduce_fold [OF assms(2,3)] by (simp add: vred_def read)

end

interpretation sum32: lane_reduction e K_I32 N_I32 GetIntData "sum_op e K_I32" "(+)" for e
  by unfold_locales (simp_all add: get_num_def sum_op_def num_arith_def is_fp_def int_arith_def num_int_def make_num_def ucast_word_of_int)

interpretation sum64: lane_reduction e K_I64 N_I64 GetLongData "sum_op e K_I64" "(+)" for e
  by unfold_locales (simp_all add: get_num_def sum_op_def num_arith_def is_fp_def int_arith_def num_int_def make_num_def)

interpretation max32: lane_reduction e K_I32 N_I32 GetIntData "max_op e" "\<lambda>a b. if sint a < sint b then b else a" for e
  by unfold_locales (simp_all add: get_num_def max_op_def num_less_def is_fp_def num_int_def)

interpretation min32: lane_reduction e K_I32 N_I32 GetIntData "min_op e" "\<lambda>a b. if sint b < sint a then b else a" for e
  by unfold_locales (simp_all add: get_num_def min_op_def num_less_def is_fp_def num_int_def)

lemma read_vreg_keeps: "read_vreg reg s = Inr (v, s') \<Longrightarrow> xs_csr s' = xs_csr s \<and> xs_memory s' = xs_memory s \<and> xs_scratchpad s' = xs_scratchpad s"
  by (auto simp: read_vreg_def res_simps)

lemma read_vreg_xvalue:
  assumes "read_vreg reg s = Inr (v, s')"
  shows "xvalue e q s' = xvalue e q s" "xregs_ok s' = xregs_ok s" "xreg_dest q s' = xreg_dest q s"
proof -
  obtain n where "xs_regs s' = (xs_regs s)\<lparr>vr_unit := (vr_unit (xs_regs s))\<lparr>ru_stats := n\<rparr>\<rparr>"
    using assms by (auto simp: read_vreg_def ReadVreg_def count_v_def count_reg_def res_simps split: if_splits)
  then show "xvalue e q s' = xvalue e q s" "xregs_ok s' = xregs_ok s" "xreg_dest q s' = xreg_dest q s"
    by (simp_all add: xvalue_def xregs_ok_def xreg_dest_def ReadXreg_def IsXreg_def)
qed

lemma get_vstart_run [simp]: "get_vstart s = Inr (csr_vstart (xs_csr s), s)"
  by (simp add: get_vstart_def get_csr_def)

lemma new_vector_run [simp]: "new_vector s = Inr (new_vector_data_context (csr_vsew (xs_csr s)) (csr_vlmul (xs_csr s)), s)"
  by (simp add: new_vector_def)

lemma foldl_plus_upt: "foldl (+) a (map x (filter (\<lambda>_. True) [m..<n])) = a + (\<Sum>i = m..<n. x i)" for a :: "'a::comm_monoid_add"
  by (simp add: foldl_conv_fold fold_plus_sum_list_rev sum_list_rev sum_set_upt_conv_sum_list_nat [symmetric] add.commute)

text \<open>
  C20. \<^verbatim>\<open>vredsum\<close> on words adds, with wrap-around, element 0 of its second operand and the elements of its first
  operand from \<^verbatim>\<open>vstart\<close> to its length, stores the sum in element 0 of an otherwise zero vector, writes that to its
  destination and resets \<^verbatim>\<open>vstart\<close>.
\<close>

theorem vredsum_wrapped_sum:
  assumes inst: "opcode inst = Vextra VREDSUM" "operand_type inst = OT_VS"
    and vs1: "read_vreg (src inst ! 0) s = Inr (vs1, s1)" "vlen_of vs1 \<le> length (vd_data vs1)"
    and vs2: "read_vreg (src inst ! 1) s1 = Inr (vs2, s2)" "vd_type vs2 = INT32" "vd_data vs2 \<noteq> []"
    and start: "0 \<le> csr_vstart (xs_csr s)"
    and nv: "nv = new_vector_data_context (csr_vsew (xs_csr s)) (csr_vlmul (xs_csr s))" "0 < vlen_of nv" "vd_data nv \<noteq> []"
  shows "ExecuteVector e inst s =
    xbind (write_vreg (dest inst) (nv\<lparr>vd_type := INT32,
        vd_data := (vd_data nv)[0 := vd_data vs2 ! 0 + (\<Sum>i = nat (csr_vstart (xs_csr s))..<vlen_of vs1. vd_data vs1 ! i)]\<rparr>))
      (\<lambda>_. set_csr (\<lambda>c. c\<lparr>csr_vstart := 0\<rparr>)) s2"
proof -
  let ?st = "csr_vstart (xs_csr s)" and ?vd = "nv\<lparr>vd_type := INT32, vd_data := (vd_data nv)[0 := vd_data vs2 ! 0 + (\<Sum>i = nat (csr_vstart (xs_csr s))..<vlen_of vs1. vd_data vs1 ! i)]\<rparr>"
  have csr: "xs_csr s2 = xs_csr s"
    using read_vreg_keeps [OF vs1(1)] read_vreg_keeps [OF vs2(1)] by simp
  have "vred e (sum_op e) all_lanes K_I32 ?st vs1 vs2 nv =
      set_num (xe_fp e) (N_I32 (foldl (+) (vd_data vs2 ! 0) (map (\<lambda>i. vd_data vs1 ! i) (filter (\<lambda>_. True) (lanes ?st (vlen_of vs1)))))) 0 nv"
    by (rule sum32.vred_fold) (use vs1(2) vs2(3) start in \<open>auto simp: GetIntData_def cell_def all_lanes_def lanes_nonneg\<close>)
  then have red: "vred e (sum_op e) all_lanes K_I32 ?st vs1 vs2 nv = Inr ?vd"
    unfolding lanes_nonneg [OF start] foldl_plus_upt using nv(2,3) by (simp add: set_num_def SetInt_ok)
  have "reduce_operands ''VREDSUM must use vector-vector[0]'' inst s = Inr ((vs1, vs2), s2)"
    using inst(2) vs1(1) vs2(1) by (simp add: reduce_operands_def)
  then have "exec_vred ''VREDSUM must use vector-vector[0]'' (sum_op e) e inst s = write_vreg (dest inst) ?vd s2"
    using red vs2(2) csr nv(1) by (simp add: exec_vred_def reduce_kind_def)
  then show ?thesis
    using inst(1) by (simp add: ExecuteVector_def exec_vextra_op_def xbind_def)
qed

text \<open>A context whose vector registers hold words, an initial value and a mask.\<close>

definition example_words :: exec_state where
  "example_words = example_state\<lparr>xs_regs := (xs_regs example_state)\<lparr>vr_table :=
     [new_vector_data\<lparr>vd_type := INT32, vd_data := [1, 2, 3, 4, 5, 6, 7, 0xffffffff]\<rparr>,
      new_vector_data\<lparr>vd_type := INT32, vd_data := [100, 0, 0, 0, 0, 0, 0, 0]\<rparr>,
      new_vector_data\<lparr>vd_type := VMASK, vd_data := [0x92, 0, 0, 0, 0, 0, 0, 0]\<rparr>, new_vector_data]\<rparr>\<rparr>"

lemma example_new_vector:
  "vlen_of (new_vector_data_context (csr_vsew (xs_csr example_words)) (csr_vlmul (xs_csr example_words))) = 8"
  "length (vd_data (new_vector_data_context (csr_vsew (xs_csr example_words)) (csr_vlmul (xs_csr example_words)))) = 8"
  by code_simp+

lemma example_reads:
  obtains vs1 s1 where "read_vreg REG_PV_BASE example_words = Inr (vs1, s1)" "vlen_of vs1 = 8" "vd_data vs1 = [1, 2, 3, 4, 5, 6, 7, 0xffffffff]"
    "ok (read_vreg (REG_PV_BASE + 1) s1)" "ok (read_vreg (REG_PV_BASE + 2) s1)"
    "\<And>vs2 s2. read_vreg (REG_PV_BASE + 1) s1 = Inr (vs2, s2) \<Longrightarrow> vd_type vs2 = INT32 \<and> vd_data vs2 = [100, 0, 0, 0, 0, 0, 0, 0]"
    "\<And>vs2 s2. read_vreg (REG_PV_BASE + 2) s1 = Inr (vs2, s2) \<Longrightarrow> vd_data vs2 = [0x92, 0, 0, 0, 0, 0, 0, 0]"
proof -
  have c: "case read_vreg REG_PV_BASE example_words of Inl _ \<Rightarrow> False | Inr (vs1, s1) \<Rightarrow>
      vlen_of vs1 = 8 \<and> vd_data vs1 = [1, 2, 3, 4, 5, 6, 7, 0xffffffff] \<and>
      (case read_vreg (REG_PV_BASE + 1) s1 of Inl _ \<Rightarrow> False | Inr (vs2, _) \<Rightarrow> vd_type vs2 = INT32 \<and> vd_data vs2 = [100, 0, 0, 0, 0, 0, 0, 0]) \<and>
      (case read_vreg (REG_PV_BASE + 2) s1 of Inl _ \<Rightarrow> False | Inr (vs2, _) \<Rightarrow> vd_data vs2 = [0x92, 0, 0, 0, 0, 0, 0, 0])"
    by code_simp
  obtain vs1 s1 where r: "read_vreg REG_PV_BASE example_words = Inr (vs1, s1)"
    using c by (auto split: sum.splits)
  show ?thesis
    by (rule that [OF r]) (use c r in \<open>auto split: sum.splits simp: ok_iff\<close>)
qed

theorem vredsum_wrapped_sum_witness:
  "\<exists>vd s2. ExecuteVector example_env (example_vector_inst (Vextra VREDSUM) OT_VS (REG_PV_BASE + 3) [REG_PV_BASE, REG_PV_BASE + 1]) example_words =
     xbind (write_vreg (REG_PV_BASE + 3) vd) (\<lambda>_. set_csr (\<lambda>c. c\<lparr>csr_vstart := 0\<rparr>)) s2 \<and> vd_data vd ! 0 = 127"
proof -
  let ?inst = "example_vector_inst (Vextra VREDSUM) OT_VS (REG_PV_BASE + 3) [REG_PV_BASE, REG_PV_BASE + 1]"
  let ?nv = "new_vector_data_context (csr_vsew (xs_csr example_words)) (csr_vlmul (xs_csr example_words))"
  obtain vs1 s1 where r: "read_vreg REG_PV_BASE example_words = Inr (vs1, s1)" "vlen_of vs1 = 8" "vd_data vs1 = [1, 2, 3, 4, 5, 6, 7, 0xffffffff]"
    "ok (read_vreg (REG_PV_BASE + 1) s1)"
    "\<And>vs2 s2. read_vreg (REG_PV_BASE + 1) s1 = Inr (vs2, s2) \<Longrightarrow> vd_type vs2 = INT32 \<and> vd_data vs2 = [100, 0, 0, 0, 0, 0, 0, 0]"
    using example_reads by metis
  obtain vs2 s2 where r2: "read_vreg (REG_PV_BASE + 1) s1 = Inr (vs2, s2)"
    using r(4) by (auto simp: ok_iff)
  have i: "opcode ?inst = Vextra VREDSUM" "operand_type ?inst = OT_VS" "src ?inst ! 0 = REG_PV_BASE" "src ?inst ! 1 = REG_PV_BASE + 1"
    "dest ?inst = REG_PV_BASE + 3"
    by (simp_all add: example_vector_inst_def new_instruction_def)
  have st: "csr_vstart (xs_csr example_words) = 0"
    by code_simp
  have "vd_data nv \<noteq> []" if "length (vd_data nv) = 8" for nv
    using that by auto
  from vredsum_wrapped_sum [OF i(1,2), of example_words vs1 s1 vs2 s2, OF _ _ _ _ _ _ refl _ this]
  have "ExecuteVector example_env ?inst example_words = xbind (write_vreg (REG_PV_BASE + 3) (?nv\<lparr>vd_type := INT32,
      vd_data := (vd_data ?nv)[0 := vd_data vs2 ! 0 + (\<Sum>i = 0..<8. vd_data vs1 ! i)]\<rparr>)) (\<lambda>_. set_csr (\<lambda>c. c\<lparr>csr_vstart := 0\<rparr>)) s2"
    unfolding i st using r(1-3) r(5) [OF r2] r2 example_new_vector by simp
  moreover have len: "length (vd_data vs1) = 8"
    using r(3) by simp
  have "(\<Sum>i = 0..<8. vd_data vs1 ! i) = sum_list (vd_data vs1)"
    using sum_list_sum_nth [of "vd_data vs1"] unfolding len by (rule sym)
  then have "vd_data vs2 ! 0 + (\<Sum>i = 0..<8. vd_data vs1 ! i) = 127"
    using r(3) r(5) [OF r2] by simp
  moreover have "0 < length (vd_data ?nv)"
    using example_new_vector(2) by simp
  ultimately show ?thesis
    by (intro exI [of _ "?nv\<lparr>vd_type := INT32, vd_data := (vd_data ?nv)[0 := 127]\<rparr>"] exI [of _ s2]) simp
qed

section \<open>The first set lane\<close>

lemma first_lane_spec:
  assumes "\<And>i. i \<in> set is \<Longrightarrow> GetVmaskData i v = Inr (b i)" "sorted is"
  shows "first_lane v is = Inr (if {i \<in> set is. b i} = {} then - 1 else int (Min {i \<in> set is. b i}))"
  using assms
proof (induction "is")
  case (Cons i "is")
  show ?case
  proof (cases "b i")
    case True
    then have "Min {j \<in> set (i # is). b j} = i"
      using Cons.prems(2) by (intro Min_eqI) auto
    then show ?thesis
      using Cons.prems(1) [of i] True by auto
  next
    case False
    then have "{j \<in> set (i # is). b j} = {j \<in> set is. b j}"
      by auto
    then show ?thesis
      using Cons False by simp
  qed
qed simp

text \<open>
  \<^verbatim>\<open>vfirst\<close> writes the number of the first set lane of its mask from \<^verbatim>\<open>vstart\<close> on to its scalar destination, or -1
  where no such lane is set; no other scalar register changes.
\<close>

theorem vfirst_least_set_lane:
  assumes inst: "opcode inst = Vmask VFIRST"
    and vs: "read_vreg (src inst ! 0) s = Inr (vs, s1)" "vd_type vs = VMASK" "mask_covers vs (vlen_of vs)"
    and start: "0 \<le> csr_vstart (xs_csr s)" and d: "xregs_ok s" "xreg_dest (dest inst) s"
    and set: "set_lanes = {i. nat (csr_vstart (xs_csr s)) \<le> i \<and> i < vlen_of vs \<and> mask_bit vs i}"
  shows "\<exists>s'. ExecuteVector e inst s = Inr ((), s') \<and>
    xvalue e (dest inst) s' = Some (if set_lanes = {} then - 1 else of_nat (Min set_lanes)) \<and>
    (\<forall>q. q \<noteq> dest inst \<longrightarrow> xvalue e q s' = xvalue e q s)"
proof -
  let ?st = "csr_vstart (xs_csr s)" and ?k = "if set_lanes = {} then - 1 else int (Min set_lanes)"
  have "set_lanes = {i \<in> set (lanes ?st (vlen_of vs)). mask_bit vs i}"
    using start set by (auto simp: lanes_nonneg)
  then have "first_lane vs (lanes ?st (vlen_of vs)) = Inr ?k"
    using start vs(3) by (subst first_lane_spec [where b = "mask_bit vs"]) (auto simp: lanes_nonneg GetVmaskData_bit)
  moreover have d1: "xregs_ok s1" "xreg_dest (dest inst) s1"
    using d read_vreg_xvalue [OF vs(1)] by simp_all
  ultimately have "exec_vfirst inst s = Inr ((), put_xreg (dest inst) (word_of_int ?k) s1)"
    using vs(1,2) read_vreg_keeps [OF vs(1)] by (simp add: exec_vfirst_def write_xreg_value)
  moreover have "\<not> CheckVmaskOp inst"
    using inst by (simp add: CheckVmaskOp_def vmask_ops_def)
  ultimately have "ExecuteVector e inst s = set_csr (\<lambda>c. c\<lparr>csr_vstart := 0\<rparr>) (put_xreg (dest inst) (word_of_int ?k) s1)"
    using inst by (simp add: ExecuteVector_def exec_vmask_op_def xbind_def)
  moreover have "xvalue e q (s\<lparr>xs_csr := c\<rparr>) = xvalue e q s" for q s c
    by (simp add: xvalue_def)
  moreover have "word_of_int ?k = (if set_lanes = {} then - 1 else of_nat (Min set_lanes) :: u64)"
    by simp
  ultimately show ?thesis
    using put_xreg_same [OF d1, of e "word_of_int ?k"] put_xreg_other [OF d1, of _ e "word_of_int ?k"] read_vreg_xvalue(1) [OF vs(1)]
    by (auto simp: set_csr_def)
qed

theorem vfirst_least_set_lane_witness:
  "\<exists>s'. ExecuteVector example_env (example_vector_inst (Vmask VFIRST) OT_V (REG_PX_BASE + 2) [REG_PV_BASE + 2]) example_words = Inr ((), s') \<and>
     xvalue example_env (REG_PX_BASE + 2) s' = Some 1"
proof -
  let ?inst = "example_vector_inst (Vmask VFIRST) OT_V (REG_PX_BASE + 2) [REG_PV_BASE + 2]"
  have c: "case read_vreg (REG_PV_BASE + 2) example_words of Inl _ \<Rightarrow> False | Inr (vs, _) \<Rightarrow>
      vd_type vs = VMASK \<and> vlen_of vs = 8 \<and> vd_data vs = [0x92, 0, 0, 0, 0, 0, 0, 0]"
    by code_simp
  then obtain vs s1 where r: "read_vreg (REG_PV_BASE + 2) example_words = Inr (vs, s1)"
    by (auto split: sum.splits)
  have f: "vd_type vs = VMASK" "vlen_of vs = 8" "vd_data vs = [0x92, 0, 0, 0, 0, 0, 0, 0]"
    using c r by simp_all
  have i: "opcode ?inst = Vmask VFIRST" "src ?inst ! 0 = REG_PV_BASE + 2" "dest ?inst = REG_PX_BASE + 2"
    by (simp_all add: example_vector_inst_def new_instruction_def)
  have st: "csr_vstart (xs_csr example_words) = 0" "xregs_ok example_words" "xreg_dest (REG_PX_BASE + 2) example_words"
    by code_simp+
  have m: "mask_bit vs = (\<lambda>i. bit ([0x92, 0, 0, 0, 0, 0, 0, 0 :: u32] ! (i div 32)) (i mod 32))"
    using f(3) by (simp add: mask_bit_def fun_eq_iff)
  have "filter (mask_bit vs) [0..<8] = [1, 4, 7]"
    unfolding m by code_simp
  then have "{i. i < 8 \<and> mask_bit vs i} = {1, 4, 7}"
    using set_filter [of "mask_bit vs" "[0..<8]"] by auto
  with vfirst_least_set_lane [OF i(1), of example_words vs s1, OF _ f(1) _ _ st(2) _ refl, of example_env] show ?thesis
    unfolding i st using r f st(3) by (auto simp: mask_covers_def)
qed

section \<open>Compression\<close>

lemma compress_lanes:
  assumes "vd_type vs1 = INT32" "\<And>i. i \<in> set is \<Longrightarrow> i < length (vd_data vs1)" "\<And>i. i \<in> set is \<Longrightarrow> GetVmaskData i vs2 = Inr (b i)"
    and "j + length is \<le> vlen_of vd" "vlen_of vd \<le> length (vd_data vd)"
  shows "\<exists>ty. res_foldl (compress_lane vs1 vs2) (j, vd) is =
    (let xs = map (\<lambda>i. vd_data vs1 ! i) (filter b is)
     in Inr (j + length xs, vd\<lparr>vd_type := ty, vd_data := take j (vd_data vd) @ xs @ drop (j + length xs) (vd_data vd)\<rparr>))"
  using assms
proof (induction "is" arbitrary: j vd)
  case Nil
  then show ?case
    by (intro exI [of _ "vd_type vd"]) simp
next
  case (Cons i "is")
  show ?case
  proof (cases "b i")
    case True
    let ?vd = "vd\<lparr>vd_type := INT32, vd_data := (vd_data vd)[j := vd_data vs1 ! i]\<rparr>"
    have "compress_lane vs1 vs2 (j, vd) i = Inr (j + 1, ?vd)"
      using Cons.prems True by (simp add: compress_lane_def GetIntData_def cell_def SetInt_ok)
    moreover obtain ty where "res_foldl (compress_lane vs1 vs2) (j + 1, ?vd) is =
        (let xs = map (\<lambda>i. vd_data vs1 ! i) (filter b is)
         in Inr (j + 1 + length xs, ?vd\<lparr>vd_type := ty, vd_data := take (j + 1) (vd_data ?vd) @ xs @ drop (j + 1 + length xs) (vd_data ?vd)\<rparr>))"
      using Cons.IH [of "j + 1" ?vd] Cons.prems by (auto simp: vlen_of_def)
    ultimately show ?thesis
      using Cons.prems True by (intro exI [of _ ty]) (simp add: take_Suc_conv_app_nth Let_def)
  next
    case False
    then have "compress_lane vs1 vs2 (j, vd) i = Inr (j, vd)"
      using Cons.prems by (simp add: compress_lane_def)
    then show ?thesis
      using Cons.IH [of j vd] Cons.prems False by simp
  qed
qed

lemma zero_lanes:
  assumes "n = vlen_of vd" "n \<le> length (vd_data vd)" "j \<le> n"
  shows "\<exists>ty. res_foldl (\<lambda>vd j. SetInt 0 j vd) vd [j..<n] =
    Inr (vd\<lparr>vd_type := ty, vd_data := take j (vd_data vd) @ replicate (n - j) 0 @ drop n (vd_data vd)\<rparr>)"
  using assms
proof (induction "n - j" arbitrary: j vd)
  case 0
  then show ?case
    by (intro exI [of _ "vd_type vd"]) simp
next
  case (Suc m)
  let ?vd = "vd\<lparr>vd_type := INT32, vd_data := (vd_data vd)[j := 0]\<rparr>"
  have j: "j < n" "[j..<n] = j # [j + 1..<n]"
    using Suc.hyps(2) by (simp_all add: upt_conv_Cons)
  then have "SetInt 0 j vd = Inr ?vd"
    using Suc.prems by (simp add: SetInt_ok)
  moreover have p: "m = n - (j + 1)" "n = vlen_of ?vd" "n \<le> length (vd_data ?vd)" "j + 1 \<le> n"
    using Suc.hyps(2) Suc.prems j(1) by (simp_all add: vlen_of_def)
  moreover obtain ty where "res_foldl (\<lambda>vd j. SetInt 0 j vd) ?vd [j + 1..<n] =
      Inr (?vd\<lparr>vd_type := ty, vd_data := take (j + 1) (vd_data ?vd) @ replicate (n - (j + 1)) 0 @ drop n (vd_data ?vd)\<rparr>)"
    using Suc.hyps(1) [OF p] by auto
  moreover have "replicate (n - j) (0 :: u32) = 0 # replicate (n - (j + 1)) 0"
    using j(1) by (simp add: Suc_diff_Suc replicate_Suc [symmetric] del: replicate_Suc)
  ultimately show ?case
    using j Suc.prems by (intro exI [of _ ty]) (simp add: take_Suc_conv_app_nth)
qed

text \<open>
  C19. \<^verbatim>\<open>vcompress\<close> on words packs the elements whose mask bit is set, in order, at the front of a new vector that is zero
  elsewhere, writes it to its destination and resets \<^verbatim>\<open>vstart\<close> (here from lane 0).
\<close>

theorem vcompress_packs_selected:
  assumes inst: "opcode inst = Vmask VCOMPRESS" "operand_type inst = OT_VM"
    and vs1: "read_vreg (src inst ! 0) s = Inr (vs1, s1)" "vlen_of vs1 \<le> length (vd_data vs1)"
    and vs2: "read_vreg (src inst ! 1) s1 = Inr (vs2, s2)" "mask_covers vs2 (vlen_of vs1)"
    and start: "csr_vstart (xs_csr s) = 0"
    and nv: "nv = new_vector_data_context (csr_vsew (xs_csr s)) (csr_vlmul (xs_csr s))" "vlen_of nv = vlen_of vs1" "vlen_of nv \<le> length (vd_data nv)"
    and xs: "xs = map (\<lambda>i. vd_data vs1 ! i) (filter (mask_bit vs2) [0..<vlen_of vs1])"
  shows "\<exists>vd. ExecuteVector e inst s = xbind (write_vreg (dest inst) vd) (\<lambda>_. set_csr (\<lambda>c. c\<lparr>csr_vstart := 0\<rparr>)) s2 \<and>
    take (vlen_of nv) (vd_data vd) = xs @ replicate (vlen_of nv - length xs) 0"
proof -
  let ?vs1 = "SetType INT32 vs1" and ?n = "vlen_of nv"
  have v1: "vd_type ?vs1 = INT32" "vd_data ?vs1 = vd_data vs1" "vlen_of ?vs1 = ?n"
    using nv(2) by (simp_all add: SetType_def vlen_of_def)
  obtain ty where c: "res_foldl (compress_lane ?vs1 vs2) (0, nv) [0..<?n] = Inr (length xs, nv\<lparr>vd_type := ty, vd_data := xs @ drop (length xs) (vd_data nv)\<rparr>)"
    using compress_lanes [of ?vs1 "[0..<?n]" vs2 "mask_bit vs2" 0 nv] v1 vs1(2) nv GetVmaskData_bit [OF vs2(2)] xs by auto
  have len: "length xs \<le> ?n"
    using length_filter_le [of "mask_bit vs2" "[0..<vlen_of vs1]"] by (simp add: xs nv(2))
  let ?v = "nv\<lparr>vd_type := ty, vd_data := xs @ drop (length xs) (vd_data nv)\<rparr>"
  have l: "?n = vlen_of ?v" "?n \<le> length (vd_data ?v)"
    using nv(3) len by (simp_all add: vlen_of_def)
  obtain vd where vd: "res_foldl (\<lambda>vd j. SetInt 0 j vd) ?v [length xs..<?n] = Inr vd" "vd_data vd = xs @ replicate (?n - length xs) 0 @ drop ?n (vd_data ?v)"
    using zero_lanes [OF l len] by auto
  have comp: "vcompress 0 ?vs1 vs2 nv = Inr vd"
    using c vd(1) l(1) v1(3) by (simp add: vcompress_def lanes_nonneg)
  have csr: "xs_csr s2 = xs_csr s" "xs_csr s1 = xs_csr s"
    using read_vreg_keeps [OF vs1(1)] read_vreg_keeps [OF vs2(1)] by simp_all
  have rt: "retype inst w vs1 = ?vs1" for w
    using inst(1) by (simp add: retype_def CheckFloatOp_def float_ops_def)
  have "exec_vcompress inst s = write_vreg (dest inst) vd s2"
    using inst(2) vs1(1) vs2(1) csr start nv(1) comp by (simp add: exec_vcompress_def word_type_op_def get_csr_def rt)
  moreover have "\<not> CheckVmaskOp inst"
    using inst by (simp add: CheckVmaskOp_def vmask_ops_def)
  ultimately have "ExecuteVector e inst s = xbind (write_vreg (dest inst) vd) (\<lambda>_. set_csr (\<lambda>c. c\<lparr>csr_vstart := 0\<rparr>)) s2"
    using inst(1) by (simp add: ExecuteVector_def exec_vmask_op_def xbind_def)
  then show ?thesis
    using vd(2) len by (intro exI [of _ vd]) simp
qed

theorem vcompress_packs_selected_witness:
  "\<exists>vd s2. ExecuteVector example_env (example_vector_inst (Vmask VCOMPRESS) OT_VM (REG_PV_BASE + 3) [REG_PV_BASE, REG_PV_BASE + 2]) example_words =
     xbind (write_vreg (REG_PV_BASE + 3) vd) (\<lambda>_. set_csr (\<lambda>c. c\<lparr>csr_vstart := 0\<rparr>)) s2 \<and>
     take 8 (vd_data vd) = [2, 5, 0xffffffff, 0, 0, 0, 0, 0]"
proof -
  let ?inst = "example_vector_inst (Vmask VCOMPRESS) OT_VM (REG_PV_BASE + 3) [REG_PV_BASE, REG_PV_BASE + 2]"
  obtain vs1 s1 where r: "read_vreg REG_PV_BASE example_words = Inr (vs1, s1)" "vlen_of vs1 = 8" "vd_data vs1 = [1, 2, 3, 4, 5, 6, 7, 0xffffffff]"
    "ok (read_vreg (REG_PV_BASE + 2) s1)"
    "\<And>vs2 s2. read_vreg (REG_PV_BASE + 2) s1 = Inr (vs2, s2) \<Longrightarrow> vd_data vs2 = [0x92, 0, 0, 0, 0, 0, 0, 0]"
    using example_reads by metis
  obtain vs2 s2 where r2: "read_vreg (REG_PV_BASE + 2) s1 = Inr (vs2, s2)"
    using r(4) by (auto simp: ok_iff)
  have i: "opcode ?inst = Vmask VCOMPRESS" "operand_type ?inst = OT_VM" "src ?inst ! 0 = REG_PV_BASE" "src ?inst ! 1 = REG_PV_BASE + 2"
    "dest ?inst = REG_PV_BASE + 3"
    by (simp_all add: example_vector_inst_def new_instruction_def)
  have st: "csr_vstart (xs_csr example_words) = 0"
    by code_simp
  have m: "mask_bit vs2 = (\<lambda>i. bit ([0x92, 0, 0, 0, 0, 0, 0, 0 :: u32] ! (i div 32)) (i mod 32))"
    using r(5) [OF r2] by (simp add: mask_bit_def fun_eq_iff)
  have "filter (mask_bit vs2) [0..<8] = [1, 4, 7]"
    unfolding m by code_simp
  with vcompress_packs_selected [OF i(1,2), of example_words vs1 s1 vs2 s2, OF _ _ _ _ st refl _ _ refl, of example_env] show ?thesis
    unfolding i using r(1-3) r(5) [OF r2] r2 example_new_vector by (auto simp: mask_covers_def numeral_eq_Suc)
qed

end
