(* ===== verification/Functional_Core.thy ===== *)
theory Functional_Core
  imports Vector_Correctness UThread_Generator
begin

text \<open>
  The functional simulator: \<^verbatim>\<open>src/sub_core.cc\<close> (\<^verbatim>\<open>ExecuteInitializer\<close>, \<^verbatim>\<open>ExecuteKernelBody\<close>, \<^verbatim>\<open>ExecuteFinalizer\<close>,
  \<^verbatim>\<open>ExecuteInsts\<close>, \<^verbatim>\<open>ExecuteInsts_Array\<close>) and \<^verbatim>\<open>NdpUnit::Run\<close> of \<^verbatim>\<open>src/ndp_unit.cc\<close>. A launch writes the kernel arguments
  into a fresh scratchpad and runs the initializer, every kernel body on every packet that belongs to the unit,
  and the finalizer; each phase renames its instructions, executes them along the branches taken, and frees its
  registers. The values are \<open>'a res option\<close>: \<open>None\<close> is a loop that does not end. \<^verbatim>\<open>M2NDPParser::parse_kernel_launch\<close> is
  not modelled: the launch it returns is an argument. The fields of \<^verbatim>\<open>RequestInfo\<close> that the code leaves
  uninitialised come from the argument \<open>junk\<close>, the order of the hash maps from \<open>order\<close>.
\<close>

section \<open>Computations that may fail or not end\<close>

definition run_bind :: "'a res option \<Rightarrow> ('a \<Rightarrow> 'b res option) \<Rightarrow> 'b res option" where
  "run_bind m f = Option.bind m (\<lambda>r. case r of Inl err \<Rightarrow> Some (Inl err) | Inr x \<Rightarrow> f x)"

fun run_fold :: "('s \<Rightarrow> 'a \<Rightarrow> 's res option) \<Rightarrow> 's \<Rightarrow> 'a list \<Rightarrow> 's res option" where
  "run_fold f s [] = Some (Inr s)"
| "run_fold f s (x # xs) = run_bind (f s x) (\<lambda>s'. run_fold f s' xs)"

lemma run_bind_simps [simp]:
  "run_bind None f = None" "run_bind (Some (Inl err)) f = Some (Inl err)" "run_bind (Some (Inr x)) f = f x"
  by (simp_all add: run_bind_def)

lemma run_bind_eq: "run_bind m f = Some (Inr y) \<longleftrightarrow> (\<exists>x. m = Some (Inr x) \<and> f x = Some (Inr y))"
  by (cases m) (auto simp: run_bind_def split: sum.splits)

lemma run_bind_return [simp]: "run_bind m (\<lambda>x. Some (Inr x)) = m"
  by (cases m) (auto simp: run_bind_def split: sum.splits)

lemma run_bind_assoc: "run_bind (run_bind m f) g = run_bind m (\<lambda>x. run_bind (f x) g)"
  by (cases m) (auto simp: run_bind_def split: sum.splits)

lemma run_bind_cong: "m = m' \<Longrightarrow> (\<And>x. m' = Some (Inr x) \<Longrightarrow> f x = f' x) \<Longrightarrow> run_bind m f = run_bind m' f'"
  by (cases m') (auto simp: run_bind_def split: sum.splits)

lemma run_bind_returns: "\<exists>r. m = Some r \<Longrightarrow> (\<And>x. m = Some (Inr x) \<Longrightarrow> \<exists>r. f x = Some r) \<Longrightarrow> \<exists>r. run_bind m f = Some r"
  by (auto simp: run_bind_def split: sum.splits)

section \<open>Phases\<close>

record functional_core =
  sf_id :: int
  sf_kernel :: "ndp_kernel option"
  sf_regs :: "u32 vector_registers"
  sf_memory :: MemoryMap

definition new_functional_core :: "int \<Rightarrow> int \<Rightarrow> int \<Rightarrow> int \<Rightarrow> MemoryMap \<Rightarrow> int \<Rightarrow> functional_core" where
  "new_functional_core junk_vlmul nx nf nv m i =
     \<lparr>sf_id = i, sf_kernel = None, sf_regs = new_vector_registers 0 junk_vlmul nx nf nv, sf_memory = m\<rparr>"

definition set_ndp_kernel :: "ndp_kernel \<Rightarrow> functional_core \<Rightarrow> functional_core" where
  "set_ndp_kernel k c = c\<lparr>sf_kernel := Some k\<rparr>"

definition new_csr :: csr where
  "new_csr = \<lparr>csr_pc = 0, csr_block = False, csr_vstart = 0, csr_vsew = 32, csr_vlmul = 1\<rparr>"

text \<open>The context of a phase, and what is left of it in the core and the scratchpad.\<close>

definition core_env :: "exec_env \<Rightarrow> request_info \<Rightarrow> functional_core \<Rightarrow> exec_env" where
  "core_env e info c = e\<lparr>xe_ndp_id := word_of_int (sf_id c), xe_request := info\<rparr>"

definition core_state :: "MemoryMap \<Rightarrow> functional_core \<Rightarrow> exec_state" where
  "core_state spad c = \<lparr>xs_regs = sf_regs c, xs_csr = new_csr, xs_memory = sf_memory c, xs_scratchpad = spad\<rparr>"

definition core_result :: "functional_core \<Rightarrow> exec_state \<Rightarrow> functional_core \<times> MemoryMap" where
  "core_result c s = (c\<lparr>sf_regs := xs_regs s, sf_memory := xs_memory s\<rparr>, xs_scratchpad s)"

definition ExecuteInsts ::
  "exec_env \<Rightarrow> MemoryMap \<Rightarrow> ndp_instruction list \<Rightarrow> request_info \<Rightarrow> functional_core \<Rightarrow> (functional_core \<times> MemoryMap) res" where
  "ExecuteInsts e spad insts info c =
     res_bind (res_foldl (\<lambda>s inst. res_bind (Execute (core_env e info c) inst s) (\<lambda>(_, s). Inr s)) (core_state spad c) insts)
       (\<lambda>s. Inr (core_result c s))"

text \<open>
  The loop of \<^verbatim>\<open>ExecuteInsts_Array\<close>. The index is compared as an unsigned number, so a negative target ends the
  loop; a key that is not in the loop map is a dereference of \<^verbatim>\<open>end()\<close>.
\<close>

definition run_step ::
  "exec_env \<Rightarrow> (int \<times> int) list \<Rightarrow> ndp_instruction list \<Rightarrow> int \<Rightarrow> exec_state
    \<Rightarrow> exec_state res + ndp_instruction list \<times> int \<times> exec_state" where
  "run_step e loop_map insts i s =
     (if 0 \<le> i \<and> nat i < length insts then
        case Execute e (insts ! nat i) s of
          Inl err \<Rightarrow> Inl (Inl err)
        | Inr (inst, s) \<Rightarrow>
            if 0 \<le> IsBranch inst then
              case map_of loop_map (IsBranch inst) of
                None \<Rightarrow> Inl (Inl Bad_Pointer)
              | Some t \<Rightarrow> Inr (insts[nat i := inst], t, s)
            else Inr (insts[nat i := inst], i + 1, s)
      else Inl (Inr s))"

partial_function (option) run_insts ::
  "exec_env \<Rightarrow> (int \<times> int) list \<Rightarrow> ndp_instruction list \<Rightarrow> int \<Rightarrow> exec_state \<Rightarrow> exec_state res option" where
  [code]: "run_insts e loop_map insts i s =
     (case run_step e loop_map insts i s of
        Inl r \<Rightarrow> Some r
      | Inr (insts, i, s) \<Rightarrow> run_insts e loop_map insts i s)"

definition ExecuteInsts_Array ::
  "exec_env \<Rightarrow> MemoryMap \<Rightarrow> ndp_instruction list \<Rightarrow> request_info \<Rightarrow> (int \<times> int) list \<Rightarrow> functional_core
    \<Rightarrow> (functional_core \<times> MemoryMap) res option" where
  "ExecuteInsts_Array e spad insts info loop_map c =
     run_bind (run_insts (core_env e info c) loop_map insts 0 (core_state spad c)) (\<lambda>s. Some (Inr (core_result c s)))"

text \<open>\<^verbatim>\<open>Convert\<close> and \<^verbatim>\<open>FreeRegs\<close> take the id of the request as an \<^verbatim>\<open>int\<close>.\<close>

definition packet_key :: "request_info \<Rightarrow> int" where
  "packet_key info = sint (ucast (ri_id info) :: u32)"

definition execute_phase ::
  "exec_env \<Rightarrow> (register_binding \<Rightarrow> register_binding) \<Rightarrow> ndp_instruction list \<Rightarrow> (int \<times> int) list \<Rightarrow> request_info
    \<Rightarrow> functional_core \<times> MemoryMap \<Rightarrow> (functional_core \<times> MemoryMap) res option" where
  "execute_phase e order insts loop_map info = (\<lambda>(c, spad).
     run_bind (Some (Convert insts (packet_key info) info (vr_unit (sf_regs c)))) (\<lambda>(renamed, u).
     run_bind (ExecuteInsts_Array e spad renamed info loop_map (c\<lparr>sf_regs := (sf_regs c)\<lparr>vr_unit := u\<rparr>\<rparr>)) (\<lambda>(c, spad).
     Some (Inr (c\<lparr>sf_regs := (sf_regs c)\<lparr>vr_unit := FreeRegs order (packet_key info) (vr_unit (sf_regs c))\<rparr>\<rparr>, spad)))))"

definition the_kernel :: "functional_core \<Rightarrow> ndp_kernel res" where
  "the_kernel c = (case sf_kernel c of None \<Rightarrow> Inl Bad_Pointer | Some k \<Rightarrow> Inr k)"

definition ExecuteInitializer ::
  "exec_env \<Rightarrow> (register_binding \<Rightarrow> register_binding) \<Rightarrow> request_info \<Rightarrow> functional_core \<times> MemoryMap
    \<Rightarrow> (functional_core \<times> MemoryMap) res option" where
  "ExecuteInitializer e order info cs =
     run_bind (Some (the_kernel (fst cs))) (\<lambda>k. execute_phase e order (nk_initializer_insts k) (nk_loop_map k) info cs)"

definition ExecuteKernelBody ::
  "exec_env \<Rightarrow> (register_binding \<Rightarrow> register_binding) \<Rightarrow> request_info \<Rightarrow> int \<Rightarrow> functional_core \<times> MemoryMap
    \<Rightarrow> (functional_core \<times> MemoryMap) res option" where
  "ExecuteKernelBody e order info kernel_body_id cs =
     run_bind (Some (the_kernel (fst cs))) (\<lambda>k.
     if 0 \<le> kernel_body_id \<and> nat kernel_body_id < length (nk_kernel_body_insts k) then
       execute_phase e order (nk_kernel_body_insts k ! nat kernel_body_id) (nk_loop_map k) info cs
     else Some (Inl Out_Of_Range))"

definition ExecuteFinalizer ::
  "exec_env \<Rightarrow> (register_binding \<Rightarrow> register_binding) \<Rightarrow> request_info \<Rightarrow> functional_core \<times> MemoryMap
    \<Rightarrow> (functional_core \<times> MemoryMap) res option" where
  "ExecuteFinalizer e order info cs =
     run_bind (Some (the_kernel (fst cs))) (\<lambda>k. execute_phase e order (nk_finalizer_insts k) (nk_loop_map k) info cs)"

section \<open>The arguments of a launch\<close>

record kernel_args =
  ka_arg_size :: u64
  ka_args :: "u64 list"
  ka_num_float_args :: int
  ka_float_args :: "u32 list"

definition MAX_NR_FLOAT_ARG :: int where "MAX_NR_FLOAT_ARG = 3"

definition num_args :: "kernel_args \<Rightarrow> int" where
  "num_args ka = sint (ucast (ka_arg_size ka div 8 - word_of_int (ka_num_float_args ka)) :: u32)"

text \<open>The packets of integer arguments; the quotient truncates, so no argument also takes one packet.\<close>

definition arg_packets :: "kernel_args \<Rightarrow> nat" where
  "arg_packets ka = nat (trunc_div (num_args ka - 1) 4 + 1)"

definition arg_packet :: "kernel_args \<Rightarrow> nat \<Rightarrow> vector_data res" where
  "arg_packet ka outter =
     res_foldl (\<lambda>v inner.
         let off = outter * 4 + inner
         in if off < length (ka_args ka) then SetLong (ka_args ka ! off) inner v else Inl Out_Of_Range)
       (SetType INT64 (new_vector_data_sew 64 1)) (filter (\<lambda>inner. int (outter * 4 + inner) < num_args ka) [0..<4])"

definition float_packet :: "kernel_args \<Rightarrow> vector_data res" where
  "float_packet ka =
     res_bind (assert_that (ka_num_float_args ka \<le> MAX_NR_FLOAT_ARG) ''num_float_args <= MAX_NR_FLOAT_ARG'') (\<lambda>_.
     res_foldl (\<lambda>v k. if k < length (ka_float_args ka) then SetFloat (ka_float_args ka ! k) k v else Inl Out_Of_Range)
       (SetType FLOAT32 (new_vector_data_sew 32 1)) [0..<nat (ka_num_float_args ka)])"

definition spad_packet_addr :: "nat \<Rightarrow> u64" where
  "spad_packet_addr outter = SCRATCHPAD_BASE + of_nat (outter * 32)"

definition launch_scratchpad :: "kernel_args \<Rightarrow> u64 \<Rightarrow> hash_memory_map res" where
  "launch_scratchpad ka smem_size =
     res_bind (res_foldl (\<lambda>m outter. res_bind (arg_packet ka outter) (\<lambda>v. hm_store (spad_packet_addr outter) v m))
       (new_hash_memory_map SCRATCHPAD_BASE smem_size) [0..<arg_packets ka]) (\<lambda>m.
     if 0 < ka_num_float_args ka then
       res_bind (float_packet ka) (\<lambda>v. hm_store (spad_packet_addr (arg_packets ka)) v m)
     else Inr m)"

section \<open>Runs\<close>

record run_state =
  rs_first :: bool
  rs_req_id :: int
  rs_core :: functional_core
  rs_spad :: MemoryMap

record run_config =
  rc_addr :: addr_config
  rc_spad_size :: int

definition edge_info :: "request_info \<Rightarrow> launch_info \<Rightarrow> run_state \<Rightarrow> request_info" where
  "edge_info junk li st =
     junk\<lparr>ri_addr := li_base_addr li, ri_offset := word_of_int (sf_id (rs_core st)), ri_kernel_id := word_of_int (li_kernel_id li),
          ri_launch_id := word_of_int (li_launch_id li), ri_id := word_of_int (rs_req_id st)\<rparr>"

definition body_info :: "request_info \<Rightarrow> launch_info \<Rightarrow> nat \<Rightarrow> u64 \<Rightarrow> run_state \<Rightarrow> request_info" where
  "body_info junk li k_id target st =
     junk\<lparr>ri_addr := target, ri_offset := target - li_base_addr li, ri_launch_id := word_of_int (li_launch_id li),
          ri_kernel_body_id := of_nat k_id, ri_id := word_of_int (rs_req_id st)\<rparr>"

text \<open>A phase takes the next request id.\<close>

definition with_core :: "(functional_core \<times> MemoryMap \<Rightarrow> (functional_core \<times> MemoryMap) res option) \<Rightarrow> run_state \<Rightarrow> run_state res option" where
  "with_core f st =
     run_bind (f (rs_core st, rs_spad st)) (\<lambda>(c, spad).
       Some (Inr (st\<lparr>rs_req_id := rs_req_id st + 1, rs_core := c, rs_spad := spad\<rparr>)))"

text \<open>The initializer runs before the first packet of the unit.\<close>

definition start_run ::
  "exec_env \<Rightarrow> (register_binding \<Rightarrow> register_binding) \<Rightarrow> request_info \<Rightarrow> launch_info \<Rightarrow> run_state \<Rightarrow> run_state res option" where
  "start_run e order junk li st =
     (if rs_first st then
        run_bind (with_core (ExecuteInitializer e order (edge_info junk li st)) st) (\<lambda>st. Some (Inr (st\<lparr>rs_first := False\<rparr>)))
      else Some (Inr st))"

definition packet_step ::
  "exec_env \<Rightarrow> (register_binding \<Rightarrow> register_binding) \<Rightarrow> addr_config \<Rightarrow> request_info \<Rightarrow> launch_info \<Rightarrow> nat \<Rightarrow> u32
    \<Rightarrow> run_state \<Rightarrow> run_state res option" where
  "packet_step e order cfg junk li k_id cnt st =
     (let target = li_base_addr li + ucast (cnt * 32)
      in run_bind (Some (get_matched_unit_id cfg target)) (\<lambda>unit.
         if sint (ucast unit :: u32) \<noteq> sf_id (rs_core st) then Some (Inr st)
         else
           run_bind (start_run e order junk li st) (\<lambda>st.
           with_core (ExecuteKernelBody e order (body_info junk li k_id target st) (int k_id)) st)))"

text \<open>The loop \<^verbatim>\<open>while (count * PACKET_SIZE < size)\<close>: the product is computed in 32 bits and compared in 64.\<close>

partial_function (option) packet_loop ::
  "exec_env \<Rightarrow> (register_binding \<Rightarrow> register_binding) \<Rightarrow> addr_config \<Rightarrow> request_info \<Rightarrow> launch_info \<Rightarrow> nat \<Rightarrow> u32
    \<Rightarrow> run_state \<Rightarrow> run_state res option" where
  [code]: "packet_loop e order cfg junk li k_id cnt st =
     (if ucast (cnt * 32) < li_size li then
        case packet_step e order cfg junk li k_id cnt st of
          None \<Rightarrow> None
        | Some (Inl err) \<Rightarrow> Some (Inl err)
        | Some (Inr st) \<Rightarrow> packet_loop e order cfg junk li k_id (cnt + 1) st
      else Some (Inr st))"

definition finish_run ::
  "exec_env \<Rightarrow> (register_binding \<Rightarrow> register_binding) \<Rightarrow> request_info \<Rightarrow> launch_info \<Rightarrow> run_state \<Rightarrow> run_state res option" where
  "finish_run e order junk li st =
     (if rs_first st then Some (Inr st) else with_core (ExecuteFinalizer e order (edge_info junk li st)) st)"

definition Run ::
  "exec_env \<Rightarrow> (register_binding \<Rightarrow> register_binding) \<Rightarrow> run_config \<Rightarrow> request_info \<Rightarrow> ndp_kernel \<Rightarrow> launch_info \<Rightarrow> kernel_args
    \<Rightarrow> functional_core \<Rightarrow> functional_core res option" where
  "Run e order rc junk k li ka c =
     (let li = li\<lparr>li_launch_id := 0\<rparr>
      in run_bind (Some (assert_that (li_smem_size li \<le> word_of_int (rc_spad_size rc * 1024)) ''smem_size <= get_spad_size() * 1024'')) (\<lambda>_.
         run_bind (Some (launch_scratchpad ka (li_smem_size li))) (\<lambda>spad.
         run_bind (run_fold (\<lambda>st k_id. packet_loop e order (rc_addr rc) junk li k_id 0 st)
             \<lparr>rs_first = True, rs_req_id = 0, rs_core = set_ndp_kernel k c, rs_spad = Hash_Map spad\<rparr>
             [0..<nat (nk_num_kernel_bodies k)]) (\<lambda>st.
         run_bind (finish_run e order junk li st) (\<lambda>st. Some (Inr (rs_core st)))))))"

section \<open>Loops\<close>

lemma run_fold_append: "run_fold f s (xs @ ys) = run_bind (run_fold f s xs) (\<lambda>s. run_fold f s ys)"
  by (induction xs arbitrary: s) (simp_all add: run_bind_assoc)

lemma run_fold_cong:
  assumes "I s" "\<And>s x. I s \<Longrightarrow> x \<in> set xs \<Longrightarrow> f s x = g s x" "\<And>s x s'. I s \<Longrightarrow> x \<in> set xs \<Longrightarrow> g s x = Some (Inr s') \<Longrightarrow> I s'"
  shows "run_fold f s xs = run_fold g s xs"
  using assms
proof (induction xs arbitrary: s)
  case (Cons x xs)
  have "run_fold f s' xs = run_fold g s' xs" if "g s x = Some (Inr s')" for s'
  proof (rule Cons.IH)
    show "I s'"
      by (rule Cons.prems(3) [OF Cons.prems(1) _ that]) simp
  qed (auto intro: Cons.prems(2,3))
  moreover have "f s x = g s x"
    by (rule Cons.prems(2) [OF Cons.prems(1)]) simp
  ultimately show ?case
    by (simp cong: run_bind_cong)
qed simp

lemma run_fold_invariant:
  assumes "I s" "run_fold f s xs = Some (Inr s')" "\<And>s x s'. I s \<Longrightarrow> f s x = Some (Inr s') \<Longrightarrow> I s'"
  shows "I s'"
  using assms(1,2)
proof (induction xs arbitrary: s)
  case (Cons x xs)
  then obtain t where "f s x = Some (Inr t)" "run_fold f t xs = Some (Inr s')"
    by (auto simp: run_bind_eq)
  then show ?case
    using Cons.IH assms(3) Cons.prems(1) by blast
qed simp

lemma run_fold_returns:
  assumes "I s" "\<And>s x. I s \<Longrightarrow> x \<in> set xs \<Longrightarrow> \<exists>r. f s x = Some r" "\<And>s x s'. I s \<Longrightarrow> x \<in> set xs \<Longrightarrow> f s x = Some (Inr s') \<Longrightarrow> I s'"
  shows "\<exists>r. run_fold f s xs = Some r"
  using assms
proof (induction xs arbitrary: s)
  case (Cons x xs)
  show ?case
    unfolding run_fold.simps
  proof (rule run_bind_returns)
    show "\<exists>r. f s x = Some r"
      by (rule Cons.prems(2) [OF Cons.prems(1)]) simp
    show "\<exists>r. run_fold f s' xs = Some r" if "f s x = Some (Inr s')" for s'
    proof (rule Cons.IH)
      show "I s'"
        by (rule Cons.prems(3) [OF Cons.prems(1) _ that]) simp
    qed (auto intro: Cons.prems(2,3))
  qed
qed simp

section \<open>Registers after a phase\<close>

text \<open>A register unit in which no packet has registers.\<close>

definition idle :: "'f register_unit \<Rightarrow> bool" where
  "idle u \<longleftrightarrow> rf_map (ru_x u) = [] \<and> rf_map (ru_f u) = [] \<and> rf_map (ru_v u) = []"

lemma idle_only_key: "idle u \<Longrightarrow> only_key key u"
  by (simp add: idle_def only_key_def rf_keys_def)

lemma delete_only: "fst ` set al \<subseteq> {key} \<Longrightarrow> AList.delete key al = []"
  by (induction al) (auto simp: AList.delete_eq)

lemma release_v_maps:
  "rf_map (ru_v (foldl release_v u bs)) = rf_map (ru_v u) \<and> ru_x (foldl release_v u bs) = ru_x u \<and> ru_f (foldl release_v u bs) = ru_f u"
  by (induction bs arbitrary: u) (simp_all add: release_v_def Let_def)

lemma FreeRegs_idle: "only_key key u \<Longrightarrow> idle (FreeRegs order key u)"
  by (simp add: idle_def only_key_def FreeRegs_def Let_def release_v_maps rf_release_def rf_keys_def delete_only)

lemma reg_frame_inv: "reg_frame u u' \<Longrightarrow> ru_inv nx nf nv u \<Longrightarrow> ru_inv nx nf nv u'" "reg_frame u u' \<Longrightarrow> only_key key u \<Longrightarrow> only_key key u'"
  by (simp_all add: ru_inv_def only_key_def reg_frame_files)

lemma run_step_frame: "run_step e loop_map insts i s = Inr (insts', j, s') \<Longrightarrow> frame s s'" "run_step e loop_map insts i s = Inl (Inr s') \<Longrightarrow> s' = s"
  using preserves_Execute by (auto simp: run_step_def preserves_def split: if_splits sum.splits option.splits)

lemma run_insts_frame: "run_insts e loop_map insts i s = Some r \<Longrightarrow> r = Inr s' \<Longrightarrow> frame s s'"
proof (rule run_insts.raw_induct [where P = "\<lambda>e loop_map insts i s r. \<forall>s'. r = Inr s' \<longrightarrow> frame s s'", rule_format])
  fix f e loop_map insts i s r s'
  assume IH: "\<And>e loop_map insts i s r s'. f e loop_map insts i s = Some r \<Longrightarrow> r = Inr s' \<Longrightarrow> frame s s'"
    and step: "(case run_step e loop_map insts i s of Inl r \<Rightarrow> Some r | Inr (insts, i, s) \<Rightarrow> f e loop_map insts i s) = Some r" "r = Inr s'"
  show "frame s s'"
  proof (cases "run_step e loop_map insts i s")
    case (Inl x)
    then show ?thesis
      using step run_step_frame(2) [of e loop_map insts i s s'] by simp
  next
    case (Inr x)
    then obtain insts' j t where x: "run_step e loop_map insts i s = Inr (insts', j, t)" "f e loop_map insts' j t = Some r"
      using step(1) by (cases x) auto
    then show ?thesis
      using IH [OF x(2) step(2)] run_step_frame(1) [OF x(1)] frame_trans by blast
  qed
qed

definition core_free :: "int \<Rightarrow> int \<Rightarrow> int \<Rightarrow> functional_core \<Rightarrow> bool" where
  "core_free nx nf nv c \<longleftrightarrow> ru_inv nx nf nv (vr_unit (sf_regs c)) \<and> idle (vr_unit (sf_regs c))"

lemma execute_phase_core:
  assumes "execute_phase e order insts loop_map info (c, spad) = Some (Inr (c', spad'))"
  shows "sf_id c' = sf_id c" "sf_kernel c' = sf_kernel c"
    and "core_free nx nf nv c \<Longrightarrow> (\<And>b. mset (order b) = mset b) \<Longrightarrow> core_free nx nf nv c'"
proof -
  let ?key = "packet_key info"
  obtain renamed u s where u: "Convert insts ?key info (vr_unit (sf_regs c)) = Inr (renamed, u)"
    and s: "run_insts (core_env e info (c\<lparr>sf_regs := (sf_regs c)\<lparr>vr_unit := u\<rparr>\<rparr>)) loop_map renamed 0
      (core_state spad (c\<lparr>sf_regs := (sf_regs c)\<lparr>vr_unit := u\<rparr>\<rparr>)) = Some (Inr s)"
    and c': "c' = c\<lparr>sf_regs := (xs_regs s)\<lparr>vr_unit := FreeRegs order ?key (vr_unit (xs_regs s))\<rparr>, sf_memory := xs_memory s\<rparr>"
    using assms by (auto simp: execute_phase_def ExecuteInsts_Array_def core_result_def run_bind_eq)
  show "sf_id c' = sf_id c" "sf_kernel c' = sf_kernel c"
    using c' by simp_all
  assume free: "core_free nx nf nv c" and ord: "\<And>b. mset (order b) = mset b"
  then have i: "ru_inv nx nf nv (vr_unit (sf_regs c))" "idle (vr_unit (sf_regs c))"
    by (simp_all add: core_free_def)
  have "ru_inv nx nf nv u" "only_key ?key u"
    using Convert_inv [OF i(1) _ u] Convert_only_key [OF idle_only_key u] i(2) by (simp_all add: idle_def)
  moreover have "reg_frame u (vr_unit (xs_regs s))"
    using run_insts_frame [OF s refl] by (simp add: frame_def core_state_def)
  ultimately show "core_free nx nf nv c'"
    using reg_frame_inv FreeRegs_inv [OF _ ord] FreeRegs_idle unfolding core_free_def c' by simp blast
qed

text \<open>What a phase does to the core: identity and kernel stay, and the registers are free again if they were.\<close>

definition same_core :: "(register_binding \<Rightarrow> register_binding) \<Rightarrow> functional_core \<Rightarrow> functional_core \<Rightarrow> bool" where
  "same_core order c c' \<longleftrightarrow> sf_id c' = sf_id c \<and> sf_kernel c' = sf_kernel c \<and>
     ((\<forall>b. mset (order b) = mset b) \<longrightarrow> (\<forall>nx nf nv. core_free nx nf nv c \<longrightarrow> core_free nx nf nv c'))"

lemma same_core_refl [simp]: "same_core order c c"
  by (simp add: same_core_def)

lemma same_core_trans: "same_core order c c' \<Longrightarrow> same_core order c' c'' \<Longrightarrow> same_core order c c''"
  by (simp add: same_core_def)

lemma execute_phase_same: "execute_phase e order insts loop_map info cs = Some (Inr cs') \<Longrightarrow> same_core order (fst cs) (fst cs')"
  using execute_phase_core [of e order insts loop_map info "fst cs" "snd cs" "fst cs'" "snd cs'"] by (auto simp: same_core_def)

lemma phases_same:
  "ExecuteInitializer e order info cs = Some (Inr cs') \<Longrightarrow> same_core order (fst cs) (fst cs')"
  "ExecuteKernelBody e order info k cs = Some (Inr cs') \<Longrightarrow> same_core order (fst cs) (fst cs')"
  "ExecuteFinalizer e order info cs = Some (Inr cs') \<Longrightarrow> same_core order (fst cs) (fst cs')"
  by (auto simp: ExecuteInitializer_def ExecuteKernelBody_def ExecuteFinalizer_def run_bind_eq split: if_splits
      dest: execute_phase_same)

lemma with_core_same:
  assumes "with_core f st = Some (Inr st')" "\<And>cs cs'. f cs = Some (Inr cs') \<Longrightarrow> same_core order (fst cs) (fst cs')"
  shows "same_core order (rs_core st) (rs_core st')"
  using assms by (fastforce simp: with_core_def run_bind_eq)

lemma with_phases_same:
  "with_core (ExecuteInitializer e order info) st = Some (Inr st') \<Longrightarrow> same_core order (rs_core st) (rs_core st')"
  "with_core (ExecuteKernelBody e order info k) st = Some (Inr st') \<Longrightarrow> same_core order (rs_core st) (rs_core st')"
  "with_core (ExecuteFinalizer e order info) st = Some (Inr st') \<Longrightarrow> same_core order (rs_core st) (rs_core st')"
  by (erule with_core_same, erule phases_same)+

lemma start_run_same:
  assumes "start_run e order junk li st = Some (Inr st')"
  shows "same_core order (rs_core st) (rs_core st')"
proof (cases "rs_first st")
  case True
  then obtain st1 where "with_core (ExecuteInitializer e order (edge_info junk li st)) st = Some (Inr st1)" "st' = st1\<lparr>rs_first := False\<rparr>"
    using assms by (auto simp: start_run_def run_bind_eq)
  then show ?thesis
    using with_phases_same(1) by simp
qed (use assms in \<open>simp add: start_run_def\<close>)

lemma packet_step_same:
  assumes "packet_step e order cfg junk li k_id cnt st = Some (Inr st')"
  shows "same_core order (rs_core st) (rs_core st')"
proof (cases "st' = st")
  case False
  then obtain st1 info where "start_run e order junk li st = Some (Inr st1)" "with_core (ExecuteKernelBody e order info (int k_id)) st1 = Some (Inr st')"
    using assms by (auto simp: packet_step_def Let_def run_bind_eq split: if_splits)
  then show ?thesis
    using start_run_same with_phases_same(2) same_core_trans by blast
qed simp

lemma packet_loop_same:
  "packet_loop e order cfg junk li k_id cnt st = Some r \<Longrightarrow> r = Inr st' \<Longrightarrow> same_core order (rs_core st) (rs_core st')"
proof (rule packet_loop.raw_induct [where P = "\<lambda>e order cfg junk li k_id cnt st r. \<forall>st'. r = Inr st' \<longrightarrow>
    same_core order (rs_core st) (rs_core st')", rule_format])
  fix f e order cfg junk li k_id cnt st r st'
  assume IH: "\<And>e order cfg junk li k_id cnt st r st'. f e order cfg junk li k_id cnt st = Some r \<Longrightarrow> r = Inr st' \<Longrightarrow>
      same_core order (rs_core st) (rs_core st')"
    and step: "(if ucast (cnt * 32) < li_size li then
        case packet_step e order cfg junk li k_id cnt st of None \<Rightarrow> None | Some (Inl err) \<Rightarrow> Some (Inl err)
        | Some (Inr st) \<Rightarrow> f e order cfg junk li k_id (cnt + 1) st
      else Some (Inr st)) = Some r" "r = Inr st'"
  show "same_core order (rs_core st) (rs_core st')"
  proof (cases "ucast (cnt * 32) < li_size li")
    case True
    then obtain st1 where "packet_step e order cfg junk li k_id cnt st = Some (Inr st1)" "f e order cfg junk li k_id (cnt + 1) st1 = Some r"
      using step by (auto split: option.splits sum.splits)
    then show ?thesis
      using IH [OF _ step(2)] packet_step_same [of e order cfg junk li k_id cnt st st1] same_core_trans by blast
  qed (use step in auto)
qed

lemma Run_same:
  assumes "Run e order rc junk k li ka c = Some (Inr c')"
  shows "same_core order (set_ndp_kernel k c) c'"
proof -
  obtain li' spad st st' where st:
    "run_fold (\<lambda>st k_id. packet_loop e order (rc_addr rc) junk li' k_id 0 st)
       \<lparr>rs_first = True, rs_req_id = 0, rs_core = set_ndp_kernel k c, rs_spad = Hash_Map spad\<rparr> [0..<nat (nk_num_kernel_bodies k)] = Some (Inr st)"
    "finish_run e order junk li' st = Some (Inr st')" "c' = rs_core st'"
    using assms by (auto simp: Run_def Let_def run_bind_eq)
  have "same_core order (set_ndp_kernel k c) (rs_core st)"
    by (rule run_fold_invariant [where I = "\<lambda>st. same_core order (set_ndp_kernel k c) (rs_core st)", OF _ st(1)])
      (auto intro: same_core_trans packet_loop_same)
  moreover have "same_core order (rs_core st) (rs_core st')"
    using st(2) with_phases_same(3) by (auto simp: finish_run_def split: if_splits)
  ultimately show ?thesis
    using st(3) same_core_trans by blast
qed

lemma idle_free:
  assumes "ru_inv nx nf nv u" "idle u"
  shows "mset (rf_free (ru_x u)) = mset (phys_regs REG_PX_BASE nx) \<and> mset (rf_free (ru_f u)) = mset (phys_regs REG_PF_BASE nf) \<and>
    mset (rf_free (ru_v u)) = mset (phys_regs REG_PV_BASE nv) \<and> ru_double u = []"
proof -
  have b: "bound (ru_x u) = {#}" "bound (ru_f u) = {#}" "bound (ru_v u) = {#}"
    using assms(2) by (simp_all add: idle_def bound_def)
  then have "ru_double u = []"
    using assms(1) by (simp add: ru_inv_def v_inv_def)
  then show ?thesis
    using assms(1) b by (simp add: ru_inv_def rf_inv_def v_inv_def)
qed

section \<open>Phases that end\<close>

text \<open>Every branch of the instructions goes forward.\<close>

definition forward :: "(int \<times> int) list \<Rightarrow> ndp_instruction list \<Rightarrow> bool" where
  "forward loop_map insts \<longleftrightarrow> (\<forall>i<length insts. CheckBranchOp (insts ! i) \<longrightarrow>
     (case map_of loop_map (src (insts ! i) ! 2) of None \<Rightarrow> True | Some t \<Rightarrow> int i < t))"

definition same_target :: "ndp_instruction \<Rightarrow> ndp_instruction \<Rightarrow> bool" where
  "same_target inst inst' \<longleftrightarrow> CheckBranchOp inst' = CheckBranchOp inst \<and> (CheckBranchOp inst \<longrightarrow> src inst' ! 2 = src inst ! 2)"

lemma forward_same: "forward loop_map insts \<Longrightarrow> list_all2 same_target insts insts' \<Longrightarrow> forward loop_map insts'"
  by (simp add: forward_def same_target_def list_all2_conv_all_nth)

lemma same_target_refl [simp]: "same_target inst inst"
  by (simp add: same_target_def)

lemma Execute_same_target:
  assumes "Execute e inst s = Inr (inst', s')"
  shows "same_target inst inst'"
proof -
  obtain b where "inst' = inst\<lparr>doBranch := b\<rparr>"
    using execute_branch_flag [OF assms] by blast
  then show ?thesis
    by (simp add: same_target_def CheckBranchOp_def)
qed

lemma run_step_forward:
  assumes "forward loop_map insts" "run_step e loop_map insts i s = Inr (insts', j, s')"
  shows "forward loop_map insts'" "length insts' = length insts" "0 \<le> i" "i < j" "i < int (length insts)"
proof -
  obtain inst where i: "0 \<le> i" "nat i < length insts" "Execute e (insts ! nat i) s = Inr (inst, s')" "insts' = insts[nat i := inst]"
    and j: "if 0 \<le> IsBranch inst then map_of loop_map (IsBranch inst) = Some j else j = i + 1"
    using assms(2) by (auto simp: run_step_def split: if_splits sum.splits option.splits)
  have same: "same_target (insts ! nat i) inst"
    by (rule Execute_same_target [OF i(3)])
  have "list_all2 same_target insts insts'"
    using same i(2,4) by (auto simp: list_all2_conv_all_nth nth_list_update)
  then show "forward loop_map insts'"
    using assms(1) forward_same by blast
  show "i < j"
  proof (cases "0 \<le> IsBranch inst")
    case True
    then have "CheckBranchOp inst" "map_of loop_map (src inst ! 2) = Some j"
      using j by (auto simp: IsBranch_def split: if_splits)
    then show ?thesis
      using assms(1) i(1,2) same by (auto simp: forward_def same_target_def split: option.splits)
  qed (use j in simp)
  show "length insts' = length insts" "0 \<le> i" "i < int (length insts)"
    using i by auto
qed

lemma forward_returns: "forward loop_map insts \<Longrightarrow> \<exists>r. run_insts e loop_map insts i s = Some r"
proof (induction "nat (int (length insts) - i)" arbitrary: insts i s rule: less_induct)
  case less
  show ?case
  proof (cases "run_step e loop_map insts i s")
    case (Inl r)
    then show ?thesis
      by (subst run_insts.simps) simp
  next
    case (Inr x)
    obtain insts' j s' where x: "x = (insts', j, s')"
      by (cases x)
    note f = run_step_forward [OF less.prems Inr [unfolded x]]
    have "nat (int (length insts') - j) < nat (int (length insts) - i)"
      using f by simp
    then have "\<exists>r. run_insts e loop_map insts' j s' = Some r"
      using less.hyps f(1) by blast
    then show ?thesis
      using Inr x by (subst run_insts.simps) simp
  qed
qed

text \<open>Renaming keeps opcodes, and the targets of branches.\<close>

definition same_opcode :: "'f rename_step \<Rightarrow> bool" where
  "same_opcode f \<longleftrightarrow> (\<forall>r u r' u'. f (r, u) = Inr (r', u') \<longrightarrow> opcode r' = opcode r)"

lemma same_opcode_steps:
  assumes "\<And>f. f \<in> set fs \<Longrightarrow> same_opcode f"
  shows "same_opcode (steps fs)"
proof -
  have "opcode r' = opcode r" if "steps fs (r, u) = Inr (r', u')" for r u r' u'
    using that assms
  proof (induction fs arbitrary: r u)
    case (Cons f fs)
    then obtain r1 u1 where "f (r, u) = Inr (r1, u1)" "steps fs (r1, u1) = Inr (r', u')"
      by (auto simp: steps_def res_simps)
    moreover have "same_opcode f" "\<And>g. g \<in> set fs \<Longrightarrow> same_opcode g"
      using Cons.prems(2) by simp_all
    ultimately show ?case
      using Cons.IH unfolding same_opcode_def by metis
  qed (simp add: steps_def)
  then show ?thesis
    unfolding same_opcode_def by blast
qed

lemma same_opcode_step:
  "same_opcode (src_x key inst i)" "same_opcode (src_f key inst i)" "same_opcode (src_v key inst i)"
  "same_opcode (read_dest look key inst)" "same_opcode (dest_step ren key inst)" "same_opcode (seg_step key i)"
  "same_opcode (dest_v_renamed key)" "same_opcode (\<lambda>(r, u). dest_step ren key r (r, u))" "same_opcode (\<lambda>(r, u). Inr (r\<lparr>dest := d\<rparr>, u))"
  by (auto simp: same_opcode_def src_x_def src_f_def src_v_def read_dest_def dest_step_def seg_step_def dest_v_renamed_def set_src_def res_simps)

lemma same_opcode_when:
  "same_opcode f \<Longrightarrow> same_opcode (when_step b f)" "same_opcode f \<Longrightarrow> same_opcode (\<lambda>(r, u). when_step (P u) f (r, u))"
  by (simp_all add: same_opcode_def when_step_def)

lemmas same_opcode_rules = same_opcode_steps same_opcode_step same_opcode_when

lemma same_opcode_rename:
  "same_opcode (rename_branch key inst)" "same_opcode (rename_seg key inst)" "same_opcode (rename_v key inst)"
  "same_opcode (rename_scalar key inst)"
  unfolding rename_branch_def rename_seg_def rename_v_def rename_scalar_def Let_def by (auto intro!: same_opcode_rules)

lemma same_opcode_vector: "same_opcode (rename_vector key inst)"
  unfolding rename_vector_def Let_def by (auto intro!: same_opcode_rules same_opcode_rename)

lemma rename_inst_target:
  assumes "rename_inst key inst (inst, u) = Inr (r, u')"
  shows "same_target inst r"
proof -
  let ?g = "if CheckBranchOp inst then rename_branch key inst else if CheckSegOp inst then rename_seg key inst
    else if CheckVectorOp inst then rename_vector key inst else rename_scalar key inst"
  obtain v where g: "?g (inst, v) = Inr (r, u')"
    using assms by (auto simp: rename_inst_def)
  moreover have "same_opcode ?g"
    using same_opcode_rename same_opcode_vector by auto
  ultimately have "opcode r = opcode inst"
    unfolding same_opcode_def by blast
  moreover have "src r ! 2 = src inst ! 2" if "CheckBranchOp inst"
    using g that by (auto simp: rename_branch_def steps_def src_x_def set_src_def when_step_def res_simps split: if_splits)
  ultimately show ?thesis
    by (simp add: same_target_def CheckBranchOp_def)
qed

lemma convert_fold_target:
  "res_foldl (convert_step key) (out, u) insts = Inr (out', u') \<Longrightarrow> \<exists>rs. out' = out @ rs \<and> list_all2 same_target insts rs"
proof (induction insts arbitrary: out u)
  case (Cons inst insts)
  then obtain r u1 where r: "rename_inst key inst (inst, u) = Inr (r, u1)"
    "res_foldl (convert_step key) (out @ [r], u1) insts = Inr (out', u')"
    by (auto simp: convert_step_def res_simps)
  then obtain rs where "out' = out @ r # rs" "list_all2 same_target insts rs"
    using Cons.IH [OF r(2)] by auto
  then show ?case
    using rename_inst_target [OF r(1)] by (intro exI [of _ "r # rs"]) simp
qed simp

lemma Convert_forward: "Convert insts key info u = Inr (renamed, u') \<Longrightarrow> forward loop_map insts \<Longrightarrow> forward loop_map renamed"
  using convert_fold_target [where out = "[]"] forward_same by (fastforce simp: Convert_def res_simps)

lemma phase_returns:
  assumes "forward loop_map insts"
  shows "\<exists>r. execute_phase e order insts loop_map info cs = Some r"
proof (cases "Convert insts (packet_key info) info (vr_unit (sf_regs (fst cs)))")
  case (Inr x)
  then obtain renamed u where u: "Convert insts (packet_key info) info (vr_unit (sf_regs (fst cs))) = Inr (renamed, u)"
    by (cases x) auto
  then have "forward loop_map renamed"
    using Convert_forward assms by blast
  then have "\<exists>r. ExecuteInsts_Array e spad renamed info loop_map c = Some r" for spad c
    unfolding ExecuteInsts_Array_def by (intro run_bind_returns forward_returns) auto
  then show ?thesis
    using u by (auto simp: execute_phase_def split: prod.splits intro!: run_bind_returns)
qed (auto simp: execute_phase_def split: prod.splits)

definition kernel_forward :: "ndp_kernel \<Rightarrow> bool" where
  "kernel_forward k \<longleftrightarrow> list_all (forward (nk_loop_map k)) (nk_initializer_insts k # nk_finalizer_insts k # nk_kernel_body_insts k)"

lemma phases_return:
  assumes "sf_kernel (fst cs) = Some k" "kernel_forward k"
  shows "\<exists>r. ExecuteInitializer e order info cs = Some r" "\<exists>r. ExecuteKernelBody e order info b cs = Some r"
    "\<exists>r. ExecuteFinalizer e order info cs = Some r"
  using assms by (auto simp: ExecuteInitializer_def ExecuteKernelBody_def ExecuteFinalizer_def the_kernel_def kernel_forward_def
      list_all_iff intro!: phase_returns)

lemma with_core_returns: "\<exists>r. f (rs_core st, rs_spad st) = Some r \<Longrightarrow> \<exists>r. with_core f st = Some r"
  unfolding with_core_def by (rule run_bind_returns) auto

definition runs :: "ndp_kernel \<Rightarrow> run_state \<Rightarrow> bool" where
  "runs k st \<longleftrightarrow> sf_kernel (rs_core st) = Some k"

lemma runs_same: "runs k st \<Longrightarrow> same_core order (rs_core st) (rs_core st') \<Longrightarrow> runs k st'"
  by (simp add: runs_def same_core_def)

lemma start_run_returns: "runs k st \<Longrightarrow> kernel_forward k \<Longrightarrow> \<exists>r. start_run e order junk li st = Some r"
  unfolding start_run_def runs_def by (auto intro!: run_bind_returns with_core_returns phases_return)

lemma packet_step_returns:
  assumes "runs k st" "kernel_forward k"
  shows "\<exists>r. packet_step e order cfg junk li k_id cnt st = Some r"
proof -
  have "\<exists>r. with_core (ExecuteKernelBody e order info b) st' = Some r" if "start_run e order junk li st = Some (Inr st')" for st' info b
    using runs_same [OF assms(1) start_run_same [OF that]] assms(2) by (auto simp: runs_def intro!: with_core_returns phases_return)
  then show ?thesis
    using start_run_returns [OF assms] by (auto simp: packet_step_def Let_def intro!: run_bind_returns)
qed

lemma counter_less:
  fixes cnt :: u32 and sz :: u64
  assumes "32 * unat cnt < 2 ^ 32"
  shows "ucast (cnt * 32) < sz \<longleftrightarrow> 32 * unat cnt < unat sz"
proof -
  have "unat (cnt * 32) = 32 * unat cnt"
    using assms by (simp add: unat_word_ariths mult.commute)
  then show ?thesis
    by (simp add: word_less_nat_alt)
qed

lemma counter_next:
  fixes cnt :: u32
  assumes "32 * unat cnt < n" "n \<le> 2 ^ 32 - 32"
  shows "unat (cnt + 1) = Suc (unat cnt)" "32 * unat (cnt + 1) < 2 ^ 32"
proof -
  have "unat cnt < 2 ^ 27 - 1"
    using assms by simp
  then have "32 * (unat cnt + 1) < 2 ^ 32"
    by simp
  moreover show "unat (cnt + 1) = Suc (unat cnt)"
    using \<open>32 * (unat cnt + 1) < 2 ^ 32\<close> by (simp add: unat_word_ariths)
  ultimately show "32 * unat (cnt + 1) < 2 ^ 32"
    by simp
qed

lemma packet_loop_returns:
  assumes "kernel_forward k" "unat (li_size li) \<le> 2 ^ 32 - 32"
  shows "runs k st \<Longrightarrow> 32 * unat cnt < 2 ^ 32 \<Longrightarrow> \<exists>r. packet_loop e order cfg junk li k_id cnt st = Some r"
proof (induction "unat (li_size li) - 32 * unat cnt" arbitrary: cnt st rule: less_induct)
  case less
  show ?case
  proof (cases "32 * unat cnt < unat (li_size li)")
    case True
    note n = counter_next [OF True assms(2)]
    obtain r where r: "packet_step e order cfg junk li k_id cnt st = Some r"
      using packet_step_returns [OF less.prems(1) assms(1)] by blast
    have "\<exists>r. packet_loop e order cfg junk li k_id (cnt + 1) st' = Some r" if "r = Inr st'" for st'
    proof (rule less.hyps)
      show "runs k st'"
        using runs_same [OF less.prems(1)] packet_step_same r that by blast
    qed (use n True in auto)
    then show ?thesis
      using r True by (subst packet_loop.simps) (auto simp: counter_less [OF less.prems(2)] split: sum.splits)
  qed (subst packet_loop.simps, simp add: counter_less [OF less.prems(2)])
qed

lemma packet_loop_endless:
  assumes "2 ^ 32 - 32 < unat (li_size li)"
  shows "packet_loop e order cfg junk li k_id cnt st \<noteq> Some (Inr st')"
proof -
  have l: "ucast (c * 32) < li_size li" for c :: u32
  proof -
    have "unat (c * 32) = unat c * 32 mod (2 ^ 27 * 32)"
      by (simp add: unat_word_ariths)
    also have "\<dots> = unat c mod 2 ^ 27 * 32"
      by (rule mult_mod_left [symmetric])
    finally have "unat (c * 32) \<le> 2 ^ 32 - 32"
      using mod_less_divisor [of "2 ^ 27" "unat c"] by simp
    then show ?thesis
      using assms by (simp add: word_less_nat_alt)
  qed
  have "packet_loop e order cfg junk li k_id cnt st = Some r \<Longrightarrow> r \<noteq> Inr st'" for r
  proof (rule packet_loop.raw_induct [where P = "\<lambda>e order cfg junk li' k_id cnt st r. li' = li \<longrightarrow> (\<forall>st'. r \<noteq> Inr st')", rule_format])
    fix f e order cfg junk li' k_id cnt st r st'
    assume IH: "\<And>e order cfg junk li' k_id cnt st r st'. f e order cfg junk li' k_id cnt st = Some r \<Longrightarrow> li' = li \<Longrightarrow> r \<noteq> Inr st'"
      and step: "(if ucast (cnt * 32) < li_size li' then
        case packet_step e order cfg junk li' k_id cnt st of None \<Rightarrow> None | Some (Inl err) \<Rightarrow> Some (Inl err)
        | Some (Inr st) \<Rightarrow> f e order cfg junk li' k_id (cnt + 1) st
      else Some (Inr st)) = Some r" "li' = li"
    show "r \<noteq> Inr st'"
      using step(1) IH l unfolding step(2) by (auto split: option.splits sum.splits)
  qed simp_all
  then show ?thesis
    by blast
qed

section \<open>The requests of a run\<close>

text \<open>
  The same launch as a list of requests, each of which runs the phase its type names: the reference for the loops of
  \<^verbatim>\<open>Run\<close>. Of a request only the fields that \<^verbatim>\<open>Run\<close> sets are used.
\<close>

definition run_info :: "request_info \<Rightarrow> request_info \<Rightarrow> request_info" where
  "run_info junk r =
     (if ri_type r = KERNEL_BODY then
        junk\<lparr>ri_addr := ri_addr r, ri_offset := ri_offset r, ri_launch_id := ri_launch_id r,
             ri_kernel_body_id := ri_kernel_body_id r, ri_id := ri_id r\<rparr>
      else
        junk\<lparr>ri_addr := ri_addr r, ri_offset := ri_offset r, ri_kernel_id := ri_kernel_id r,
             ri_launch_id := ri_launch_id r, ri_id := ri_id r\<rparr>)"

definition run_request ::
  "exec_env \<Rightarrow> (register_binding \<Rightarrow> register_binding) \<Rightarrow> request_info \<Rightarrow> functional_core \<times> MemoryMap \<Rightarrow> request_info
    \<Rightarrow> (functional_core \<times> MemoryMap) res option" where
  "run_request e order junk cs r =
     (case ri_type r of
        INITIALIZER \<Rightarrow> ExecuteInitializer e order (run_info junk r) cs
      | KERNEL_BODY \<Rightarrow> ExecuteKernelBody e order (run_info junk r) (int (unat (ri_kernel_body_id r))) cs
      | FINALIZER \<Rightarrow> ExecuteFinalizer e order (run_info junk r) cs)"

text \<open>A request takes the next id.\<close>

definition run_next ::
  "exec_env \<Rightarrow> (register_binding \<Rightarrow> register_binding) \<Rightarrow> request_info \<Rightarrow> run_state \<Rightarrow> request_info \<Rightarrow> run_state res option" where
  "run_next e order junk st r =
     run_bind (with_core (\<lambda>cs. run_request e order junk cs (r\<lparr>ri_id := word_of_int (rs_req_id st)\<rparr>)) st)
       (\<lambda>st. Some (Inr (st\<lparr>rs_first := False\<rparr>)))"

lemma number_requests_Cons: "number_requests n (r # rs) = r\<lparr>ri_id := n\<rparr> # number_requests (n + 1) rs"
proof -
  have "map (\<lambda>(i, r). r\<lparr>ri_id := n + of_nat i\<rparr>) (zip [1..<Suc (length rs)] rs) = number_requests (n + 1) rs"
    unfolding number_requests_def by (rule nth_equalityI) (simp_all add: algebra_simps del: upt_Suc)
  then show ?thesis
    unfolding number_requests_def by (simp add: upt_conv_Cons del: upt_Suc)
qed

lemma number_requests_Nil [simp]: "number_requests n [] = []"
  by (simp add: number_requests_def)

lemma run_fold_numbered:
  "run_bind (run_fold (run_next e order junk) st rs) (\<lambda>st. Some (Inr (rs_core st))) =
     run_bind (run_fold (run_request e order junk) (rs_core st, rs_spad st) (number_requests (word_of_int (rs_req_id st)) rs))
       (\<lambda>cs. Some (Inr (fst cs)))"
proof (induction rs arbitrary: st)
  case (Cons r rs)
  let ?r = "r\<lparr>ri_id := word_of_int (rs_req_id st)\<rparr>"
  have "run_bind (run_fold (run_next e order junk) st (r # rs)) (\<lambda>st. Some (Inr (rs_core st))) =
    run_bind (run_request e order junk (rs_core st, rs_spad st) ?r) (\<lambda>(c, spad).
      run_bind (run_fold (run_next e order junk) (st\<lparr>rs_req_id := rs_req_id st + 1, rs_core := c, rs_spad := spad, rs_first := False\<rparr>) rs)
        (\<lambda>st. Some (Inr (rs_core st))))"
    by (simp add: run_next_def with_core_def run_bind_assoc case_prod_beta cong: run_bind_cong)
  also have "\<dots> = run_bind (run_request e order junk (rs_core st, rs_spad st) ?r) (\<lambda>cs.
      run_bind (run_fold (run_request e order junk) cs (number_requests (word_of_int (rs_req_id st) + 1) rs)) (\<lambda>cs. Some (Inr (fst cs))))"
    by (intro run_bind_cong refl) (simp add: Cons.IH case_prod_beta)
  finally show ?case
    by (simp add: number_requests_Cons run_bind_assoc)
qed simp

definition hit :: "addr_config \<Rightarrow> int \<Rightarrow> u64 \<Rightarrow> bool" where
  "hit cfg i a \<longleftrightarrow> (case get_matched_unit_id cfg a of Inl _ \<Rightarrow> False | Inr unit \<Rightarrow> sint (ucast unit :: u32) = i)"

definition body_request :: "launch_info \<Rightarrow> nat \<Rightarrow> u64 \<Rightarrow> request_info" where
  "body_request li k_id a = new_request li KERNEL_BODY (of_nat k_id) a (a - li_base_addr li)"

definition edge_request :: "launch_info \<Rightarrow> int \<Rightarrow> RequestType \<Rightarrow> request_info" where
  "edge_request li i ty = new_request li ty 0 (li_base_addr li) (word_of_int i)"

lemma body_requests_eq: "body_requests li ms = (\<lambda>k. map (body_request li k) ms)"
  by (simp add: fun_eq_iff body_requests_def body_request_def)

lemma run_next_same:
  assumes "run_next e order junk st r = Some (Inr st')"
  shows "\<not> rs_first st'" "sf_id (rs_core st') = sf_id (rs_core st)"
proof -
  obtain c spad where c: "run_request e order junk (rs_core st, rs_spad st) (r\<lparr>ri_id := word_of_int (rs_req_id st)\<rparr>) = Some (Inr (c, spad))"
    and st': "st' = st\<lparr>rs_req_id := rs_req_id st + 1, rs_core := c, rs_spad := spad, rs_first := False\<rparr>"
    using assms by (auto simp: run_next_def with_core_def run_bind_eq)
  have "same_core order (fst (rs_core st, rs_spad st)) (fst (c, spad))"
    using c phases_same [where cs = "(rs_core st, rs_spad st)" and cs' = "(c, spad)"] by (auto simp: run_request_def split: RequestType.splits)
  then show "\<not> rs_first st'" "sf_id (rs_core st') = sf_id (rs_core st)"
    using st' by (simp_all add: same_core_def)
qed

lemma run_next_initializer:
  assumes "rs_first st"
  shows "start_run e order junk li st = run_next e order junk st (edge_request li (sf_id (rs_core st)) INITIALIZER)"
proof -
  let ?r = "(edge_request li (sf_id (rs_core st)) INITIALIZER)\<lparr>ri_id := word_of_int (rs_req_id st)\<rparr>"
  have "run_request e order junk cs ?r = ExecuteInitializer e order (edge_info junk li st) cs" for cs
    by (simp add: run_request_def run_info_def edge_request_def new_request_def edge_info_def)
  then show ?thesis
    using assms by (simp add: start_run_def run_next_def)
qed

lemma keep_first: "\<not> rs_first st \<Longrightarrow> st\<lparr>rs_req_id := n, rs_core := c, rs_spad := m, rs_first := False\<rparr> = st\<lparr>rs_req_id := n, rs_core := c, rs_spad := m\<rparr>"
  by (cases st) simp

lemma run_next_body:
  assumes "\<not> rs_first st" "k_id < 2 ^ 32"
  shows "with_core (ExecuteKernelBody e order (body_info junk li k_id a st) (int k_id)) st = run_next e order junk st (body_request li k_id a)"
proof -
  let ?r = "(body_request li k_id a)\<lparr>ri_id := word_of_int (rs_req_id st)\<rparr>"
  have "unat (of_nat k_id :: u32) = k_id"
    using assms(2) by (simp add: unat_of_nat)
  then have "run_request e order junk cs ?r = ExecuteKernelBody e order (body_info junk li k_id a st) (int k_id) cs" for cs
    by (simp add: run_request_def run_info_def body_request_def new_request_def body_info_def)
  then show ?thesis
    using assms(1) by (simp add: with_core_def run_next_def run_bind_assoc case_prod_beta keep_first cong: run_bind_cong)
qed

lemma run_next_finalizer:
  assumes "\<not> rs_first st"
  shows "finish_run e order junk li st = run_next e order junk st (edge_request li (sf_id (rs_core st)) FINALIZER)"
proof -
  let ?r = "(edge_request li (sf_id (rs_core st)) FINALIZER)\<lparr>ri_id := word_of_int (rs_req_id st)\<rparr>"
  have "run_request e order junk cs ?r = ExecuteFinalizer e order (edge_info junk li st) cs" for cs
    by (simp add: run_request_def run_info_def edge_request_def new_request_def edge_info_def)
  then show ?thesis
    using assms by (simp add: finish_run_def with_core_def run_next_def run_bind_assoc case_prod_beta keep_first cong: run_bind_cong)
qed

text \<open>The state after the initializer, on the unit with the given id.\<close>

definition started :: "int \<Rightarrow> run_state \<Rightarrow> bool" where
  "started i st \<longleftrightarrow> \<not> rs_first st \<and> sf_id (rs_core st) = i"

lemma started_next: "sf_id (rs_core st) = i \<Longrightarrow> run_next e order junk st r = Some (Inr st') \<Longrightarrow> started i st'"
  using run_next_same by (simp add: started_def)

lemma started_fold:
  assumes "sf_id (rs_core st) = i" "run_fold (run_next e order junk) st (r # rs) = Some (Inr st')"
  shows "started i st'"
proof -
  obtain st1 where st1: "run_next e order junk st r = Some (Inr st1)" "run_fold (run_next e order junk) st1 rs = Some (Inr st')"
    using assms(2) by (auto simp: run_bind_eq)
  from started_next [OF assms(1) st1(1)] st1(2) show ?thesis
    by (rule run_fold_invariant) (use started_next started_def in blast)
qed

definition packet_addr :: "launch_info \<Rightarrow> nat \<Rightarrow> u64" where
  "packet_addr li n = li_base_addr li + of_nat (32 * n)"

lemma packet_target:
  assumes "n < 2 ^ 27"
  shows "li_base_addr li + ucast ((of_nat n :: u32) * 32) = packet_addr li n"
proof -
  have "unat ((of_nat n :: u32) * 32) = 32 * n"
    using assms by (simp add: unat_word_ariths unat_of_nat)
  moreover have "unat (of_nat (32 * n) :: u64) = 32 * n"
    using assms by (simp only: unat_of_nat) simp
  ultimately have "ucast ((of_nat n :: u32) * 32) = (of_nat (32 * n) :: u64)"
    by (simp only: word_unat_eq_iff unat_ucast_u64)
  then show ?thesis
    by (simp add: packet_addr_def)
qed

lemma packet_step_next:
  assumes "n < 2 ^ 27" "k_id < 2 ^ 32" "m_stride_size cfg \<noteq> 0" "m_num_ndp_units cfg \<noteq> 0"
  shows "packet_step e order cfg junk li k_id (of_nat n) st =
    (if \<not> hit cfg (sf_id (rs_core st)) (packet_addr li n) then Some (Inr st)
     else run_bind (start_run e order junk li st) (\<lambda>st. run_next e order junk st (body_request li k_id (packet_addr li n))))"
proof -
  have "run_bind (start_run e order junk li st) (\<lambda>st. with_core (ExecuteKernelBody e order (body_info junk li k_id a st) (int k_id)) st) =
    run_bind (start_run e order junk li st) (\<lambda>st. run_next e order junk st (body_request li k_id a))" for a
  proof (rule run_bind_cong [OF refl])
    fix st' assume "start_run e order junk li st = Some (Inr st')"
    then have "\<not> rs_first st'"
      by (auto simp: start_run_def run_bind_eq split: if_splits)
    then show "with_core (ExecuteKernelBody e order (body_info junk li k_id a st') (int k_id)) st' = run_next e order junk st' (body_request li k_id a)"
      by (rule run_next_body [OF _ assms(2)])
  qed
  moreover obtain unit where "get_matched_unit_id cfg (packet_addr li n) = Inr unit"
    using assms(3,4) by (simp add: get_matched_unit_id_def)
  ultimately show ?thesis
    by (simp add: packet_step_def packet_target [OF assms(1)] hit_def Let_def)
qed

lemma packets_next:
  assumes "started i st" "k_id < 2 ^ 32" "m_stride_size cfg \<noteq> 0" "m_num_ndp_units cfg \<noteq> 0" "\<forall>n\<in>set ns. n < 2 ^ 27"
  shows "run_fold (\<lambda>st n. packet_step e order cfg junk li k_id (of_nat n) st) st ns =
    run_fold (run_next e order junk) st (map (body_request li k_id) (filter (hit cfg i) (map (packet_addr li) ns)))"
  using assms(1,5)
proof (induction ns arbitrary: st)
  case (Cons n ns)
  have st: "\<not> rs_first st" "sf_id (rs_core st) = i"
    using Cons.prems(1) by (simp_all add: started_def)
  have step: "packet_step e order cfg junk li k_id (of_nat n) st =
    (if \<not> hit cfg i (packet_addr li n) then Some (Inr st) else run_next e order junk st (body_request li k_id (packet_addr li n)))"
    using packet_step_next [OF _ assms(2-4), of n] Cons.prems(2) st by (simp add: start_run_def)
  have "run_fold (\<lambda>st n. packet_step e order cfg junk li k_id (of_nat n) st) st' ns =
    run_fold (run_next e order junk) st' (map (body_request li k_id) (filter (hit cfg i) (map (packet_addr li) ns)))" if "started i st'" for st'
    using Cons.IH [OF that] Cons.prems(2) by simp
  then show ?case
    using step Cons.prems(1) started_next [OF st(2)] by (auto intro!: run_bind_cong)
qed simp

lemma packets_first:
  assumes "rs_first st" "sf_id (rs_core st) = i" "k_id < 2 ^ 32" "m_stride_size cfg \<noteq> 0" "m_num_ndp_units cfg \<noteq> 0" "\<forall>n\<in>set ns. n < 2 ^ 27"
  shows "run_fold (\<lambda>st n. packet_step e order cfg junk li k_id (of_nat n) st) st ns =
    (if filter (hit cfg i) (map (packet_addr li) ns) = [] then Some (Inr st)
     else run_fold (run_next e order junk) st
       (edge_request li i INITIALIZER # map (body_request li k_id) (filter (hit cfg i) (map (packet_addr li) ns))))"
  using assms(6)
proof (induction ns)
  case (Cons n ns)
  note step = packet_step_next [OF _ assms(3-5), of n e order junk li st]
  show ?case
  proof (cases "hit cfg i (packet_addr li n)")
    case False
    then show ?thesis
      using step Cons assms(2) by simp
  next
    case True
    let ?f = "run_next e order junk" and ?b = "map (body_request li k_id) (filter (hit cfg i) (map (packet_addr li) ns))"
    have "packet_step e order cfg junk li k_id (of_nat n) st =
      run_bind (?f st (edge_request li i INITIALIZER)) (\<lambda>st. ?f st (body_request li k_id (packet_addr li n)))"
      using step True Cons.prems assms(2) run_next_initializer [OF assms(1)] by simp
    moreover have "run_fold (\<lambda>st n. packet_step e order cfg junk li k_id (of_nat n) st) st2 ns = run_fold ?f st2 ?b"
      if "?f st (edge_request li i INITIALIZER) = Some (Inr st1)" "?f st1 (body_request li k_id (packet_addr li n)) = Some (Inr st2)" for st1 st2
    proof (rule packets_next [OF _ assms(3-5)])
      show "started i st2"
        using started_next [OF assms(2) that(1)] started_next [OF _ that(2)] by (simp add: started_def)
    qed (use Cons.prems in simp)
    ultimately show ?thesis
      using True by (simp add: run_bind_assoc) (intro run_bind_cong refl, simp)
  qed
qed simp

lemma packet_loop_upto:
  assumes "li_size li mod 32 = 0" "unat (li_size li) \<le> 2 ^ 32 - 32"
  shows "m \<le> unat (li_size li) div 32 \<Longrightarrow> packet_loop e order cfg junk li k_id (of_nat m) st =
    run_fold (\<lambda>st n. packet_step e order cfg junk li k_id (of_nat n) st) st [m..<unat (li_size li) div 32]"
proof (induction "unat (li_size li) div 32 - m" arbitrary: m st)
  case 0
  have "unat (li_size li) mod 32 = 0"
    using assms(1) unat_mod [of "li_size li" 32] by simp
  moreover have "m = unat (li_size li) div 32"
    using 0 by simp
  ultimately have m: "32 * m = unat (li_size li)"
    using mult_div_mod_eq [of 32 "unat (li_size li)"] by simp
  have c: "unat (of_nat m :: u32) = m"
    using 0 assms(2) by (simp add: unat_of_nat)
  have "\<not> ucast ((of_nat m :: u32) * 32) < li_size li"
    using m assms(2) by (subst counter_less) (simp_all add: c)
  then show ?case
    using 0 by (subst packet_loop.simps) simp
next
  case (Suc d)
  have c: "unat (of_nat m :: u32) = m"
    using Suc.prems assms(2) by (simp add: unat_of_nat)
  have less: "m < unat (li_size li) div 32"
    using Suc.hyps(2) by simp
  then have l: "ucast ((of_nat m :: u32) * 32) < li_size li"
    using assms(2) by (subst counter_less) (simp_all add: c)
  have IH: "packet_loop e order cfg junk li k_id (of_nat (Suc m)) st' =
    run_fold (\<lambda>st n. packet_step e order cfg junk li k_id (of_nat n) st) st' [Suc m..<unat (li_size li) div 32]" for st'
    using Suc.hyps(1) [of "Suc m"] Suc.hyps(2) less by simp
  have "packet_loop e order cfg junk li k_id (of_nat m) st =
    run_bind (packet_step e order cfg junk li k_id (of_nat m) st) (\<lambda>st. packet_loop e order cfg junk li k_id (of_nat (Suc m)) st)"
    using l by (subst packet_loop.simps) (simp add: run_bind_def add.commute split: option.splits sum.splits)
  then show ?case
    using less IH by (simp add: upt_conv_Cons)
qed

lemma bodies_next:
  assumes "\<And>st k. started i st \<Longrightarrow> k \<in> set ks \<Longrightarrow> loop k st = run_fold (run_next e order junk) st (reqs k)" "started i st"
  shows "run_fold (\<lambda>st k. loop k st) st ks = run_fold (run_next e order junk) st (concat (map reqs ks))"
  using assms
proof (induction ks arbitrary: st)
  case (Cons k ks)
  have keep: "started i st'" if "run_fold (run_next e order junk) st (reqs k) = Some (Inr st')" for st'
    using that Cons.prems(2) started_fold [of st i] by (cases "reqs k") (auto simp: started_def)
  show ?case
    using Cons.prems(1) [OF Cons.prems(2), of k]
    by (simp add: run_fold_append) (intro run_bind_cong refl Cons.IH, use Cons.prems(1) keep in auto)
qed simp

text \<open>The loops of a run, on the packets of the unit.\<close>

lemma run_loops:
  assumes "rs_first st" "sf_id (rs_core st) = i" "m_stride_size cfg \<noteq> 0" "m_num_ndp_units cfg \<noteq> 0" "li_size li mod 32 = 0"
    and "unat (li_size li) \<le> 2 ^ 32 - 32" "0 < nb" "nb \<le> 2 ^ 32" "ms = filter (hit cfg i) (map (packet_addr li) [0..<unat (li_size li) div 32])"
  shows "run_bind (run_fold (\<lambda>st k_id. packet_loop e order cfg junk li k_id 0 st) st [0..<nb]) (finish_run e order junk li) =
    run_fold (run_next e order junk) st (launch_requests li i (int nb) ms)"
proof -
  let ?f = "run_next e order junk" and ?b = "\<lambda>k. map (body_request li k) ms"
  let ?loop = "\<lambda>k_id st. packet_loop e order cfg junk li k_id 0 st"
  have loop: "?loop k st = run_fold (\<lambda>st n. packet_step e order cfg junk li k (of_nat n) st) st [0..<unat (li_size li) div 32]" for k st
    using packet_loop_upto [OF assms(5,6), of 0] by simp
  have small: "\<forall>n\<in>set [0..<unat (li_size li) div 32]. n < 2 ^ 27"
    using assms(6) by auto
  have first: "?loop 0 st = (if ms = [] then Some (Inr st) else run_fold ?f st (edge_request li i INITIALIZER # ?b 0))"
    using packets_first [OF assms(1,2) _ assms(3,4) small, of 0] loop assms(9) by simp
  have later: "?loop k st' = run_fold ?f st' (?b k)" if "started i st'" "k \<in> set [1..<nb]" for k st'
    using packets_next [OF that(1) _ assms(3,4) small, of k] that(2) loop assms(8,9) by simp
  have nb: "[0..<nb] = 0 # [1..<nb]"
    using assms(7) by (simp add: upt_conv_Cons)
  show ?thesis
  proof (cases "ms = []")
    case True
    have "run_fold (\<lambda>st k_id. ?loop k_id st) st ks = Some (Inr st)" if "set ks \<subseteq> {0..<nb}" for ks
      using that
    proof (induction ks)
      case (Cons k ks)
      then have "?loop k st = Some (Inr st)"
        using packets_first [OF assms(1,2) _ assms(3,4) small, of k] loop assms(8,9) True by simp
      then show ?case
        using Cons by simp
    qed simp
    then show ?thesis
      using True assms(1) by (simp add: finish_run_def launch_requests_def)
  next
    case False
    let ?rs = "edge_request li i INITIALIZER # ?b 0 @ concat (map ?b [1..<nb])"
    have all: "run_fold (\<lambda>st k_id. ?loop k_id st) st [0..<nb] = run_fold ?f st ?rs"
    proof -
      have "run_fold (\<lambda>st k_id. ?loop k_id st) st' [1..<nb] = run_fold ?f st' (concat (map ?b [1..<nb]))"
        if "run_fold ?f st (edge_request li i INITIALIZER # ?b 0) = Some (Inr st')" for st'
      proof (rule bodies_next [OF later])
        show "started i st'"
          by (rule started_fold [OF assms(2) that])
      qed auto
      then show ?thesis
        unfolding nb using first False
        by (simp only: run_fold.simps append_Cons [symmetric] run_fold_append if_False) (intro run_bind_cong refl)
    qed
    have "run_bind (run_fold ?f st ?rs) (finish_run e order junk li) = run_bind (run_fold ?f st ?rs) (\<lambda>st. ?f st (edge_request li i FINALIZER))"
    proof (rule run_bind_cong [OF refl])
      fix st' assume "run_fold ?f st ?rs = Some (Inr st')"
      then have "started i st'"
        by (rule started_fold [OF assms(2)])
      then show "finish_run e order junk li st' = ?f st' (edge_request li i FINALIZER)"
        using run_next_finalizer by (simp add: started_def)
    qed
    also have "\<dots> = run_fold ?f st (?rs @ [edge_request li i FINALIZER])"
      by (simp only: run_fold_append run_fold.simps run_bind_return)
    also have "?rs @ [edge_request li i FINALIZER] = launch_requests li i (int nb) ms"
      using False by (simp add: launch_requests_def edge_request_def body_requests_eq Let_def)
    finally show ?thesis
      using all by simp
  qed
qed

lemma hit_match:
  assumes "uc_addr uc = cfg" "ug_ndp_id g = i" "0 \<le> i" "i < sint (m_num_ndp_units cfg)" "m_stride_size cfg \<noteq> 0"
  shows "check_addr_match uc g a = Inr (hit cfg i a)"
proof -
  define w where "w = (ucast (a div scast (m_stride_size cfg) mod scast (m_num_ndp_units cfg)) :: u32)"
  have n: "m_num_ndp_units cfg \<noteq> 0"
    using assms(3,4) by auto
  have cut: "(ucast (scast w :: u64) :: u32) = w"
    by (rule bit_word_eqI) (simp add: bit_simps)
  have i: "sint (word_of_int i :: u32) = i"
    using assms(3,4) sint_lt [of "m_num_ndp_units cfg"] by (simp add: sint_sbintrunc' signed_take_bit_int_eq_self)
  have "(scast w :: u64) = word_of_int i \<longleftrightarrow> sint w = i"
  proof
    assume "(scast w :: u64) = word_of_int i"
    then have "w = ucast (word_of_int i :: u64)"
      using cut by metis
    then have "w = word_of_int i"
      by (simp add: ucast_word_of_int)
    then show "sint w = i"
      using i by simp
  next
    assume "sint w = i"
    then show "(scast w :: u64) = word_of_int i"
      by (metis of_int_sint)
  qed
  then show ?thesis
    using assms n cut by (simp add: check_addr_match_def hit_def get_matched_unit_id_def through_int_def w_def [symmetric])
qed

section \<open>Arguments in the scratchpad\<close>

lemma SetLong_get:
  assumes "SetLong x i v = Inr v'"
  shows "GetLongData i v' = Inr x" "j \<noteq> i \<Longrightarrow> GetLongData j v' = GetLongData j v"
proof -
  have v': "vd_data v' = (vd_data v)[2 * i := ucast (drop_bit 32 x), 2 * i + 1 := ucast (x AND 0xffffffff)]" "2 * i + 1 < length (vd_data v)"
    using assms by (auto simp: SetLong_def set_cell_def res_simps split: if_splits)
  show "GetLongData i v' = Inr x"
    using v' by (simp add: GetLongData_def cell_def long_halves)
  have "2 * j \<noteq> 2 * i + 1" "2 * i \<noteq> 2 * j + 1"
    by presburger+
  then show "GetLongData j v' = GetLongData j v" if "j \<noteq> i"
    using v' that by (simp add: GetLongData_def cell_def)
qed

lemma arg_fold:
  assumes "res_foldl (\<lambda>v inner. let off = outter * 4 + inner
      in if off < length args then SetLong (args ! off) inner v else Inl Out_Of_Range) v ns = Inr v'" "distinct ns"
  shows "(j \<in> set ns \<longrightarrow> GetLongData j v' = Inr (args ! (outter * 4 + j))) \<and> (j \<notin> set ns \<longrightarrow> GetLongData j v' = GetLongData j v)"
  using assms
proof (induction ns arbitrary: v)
  case (Cons n ns)
  then obtain v1 where v1: "SetLong (args ! (outter * 4 + n)) n v = Inr v1"
    "res_foldl (\<lambda>v inner. let off = outter * 4 + inner in if off < length args then SetLong (args ! off) inner v else Inl Out_Of_Range) v1 ns = Inr v'"
    by (auto simp: res_simps Let_def split: if_splits)
  show ?case
    using Cons.IH [OF v1(2)] Cons.prems(2) SetLong_get [OF v1(1)] by auto
qed simp

lemma spad_packet_addr_inj: "m < 2 ^ 58 \<Longrightarrow> n < 2 ^ 58 \<Longrightarrow> spad_packet_addr m = spad_packet_addr n \<Longrightarrow> m = n"
proof -
  assume "m < 2 ^ 58" "n < 2 ^ 58" "spad_packet_addr m = spad_packet_addr n"
  then have "(of_nat (m * 32) :: u64) = of_nat (n * 32)"
    by (simp add: spad_packet_addr_def)
  then have "unat (of_nat (m * 32) :: u64) = unat (of_nat (n * 32) :: u64)"
    by simp
  then have "m * 32 mod 2 ^ 64 = n * 32 mod 2 ^ 64"
    by (simp only: unat_of_nat) simp
  then show ?thesis
    using \<open>m < 2 ^ 58\<close> \<open>n < 2 ^ 58\<close> by simp
qed

lemma packets_fold:
  assumes "res_foldl (\<lambda>m k. res_bind (pkt k) (\<lambda>v. hm_store (spad_packet_addr k) v m)) m ks = Inr m'" "distinct ks"
    and "\<forall>k\<in>set (i # ks). k < 2 ^ 58"
  shows "(i \<in> set ks \<longrightarrow> (\<exists>v. pkt i = Inr v \<and> map_of (hm_data m') (spad_packet_addr i) = Some v)) \<and>
    (i \<notin> set ks \<longrightarrow> map_of (hm_data m') (spad_packet_addr i) = map_of (hm_data m) (spad_packet_addr i))"
  using assms
proof (induction ks arbitrary: m)
  case (Cons k ks)
  then obtain v m1 where v: "pkt k = Inr v" "hm_store (spad_packet_addr k) v m = Inr m1"
    "res_foldl (\<lambda>m k. res_bind (pkt k) (\<lambda>v. hm_store (spad_packet_addr k) v m)) m1 ks = Inr m'"
    by (auto simp: res_simps)
  have m1: "map_of (hm_data m1) = (map_of (hm_data m))(spad_packet_addr k \<mapsto> v)"
    using v(2) by (auto simp: hm_store_def res_simps AList.update_conv' split: if_splits)
  have "spad_packet_addr i = spad_packet_addr k \<longleftrightarrow> i = k"
    using spad_packet_addr_inj Cons.prems(3) by auto
  then show ?case
    using Cons.IH [OF v(3)] Cons.prems(2,3) m1 v(1) by auto
qed simp

section \<open>An example\<close>

text \<open>
  A kernel whose body adds the two initial registers and jumps over a second addition, run on the second of two units
  over four packets with one argument.
\<close>

definition example_add :: "int \<Rightarrow> ndp_instruction" where
  "example_add d = (new_instruction ''add'' (Scalar ADD) OT_NONE (REG_X_BASE + d) [])\<lparr>src := [REG_X_BASE + 1, REG_X_BASE + 2, 0, 0, 0]\<rparr>"

definition example_jump :: ndp_instruction where
  "example_jump = (new_instruction ''j'' (Branch J) OT_NONE 0 [])\<lparr>src := [0, 0, 7, 0, 0]\<rparr>"

definition example_run_kernel :: ndp_kernel where
  "example_run_kernel =
     \<lparr>nk_valid = True, nk_active = True, nk_kernel_id = 5, nk_kernel_name = ''k'', nk_initializer_regs = (0, 0, 0),
      nk_kernel_body_regs = [], nk_finalizer_regs = (0, 0, 0), nk_num_kernel_bodies = 1, nk_initializer_insts = [],
      nk_kernel_body_insts = [[example_add 3, example_jump, example_add 4]], nk_loop_map = [(7, 3)], nk_finalizer_insts = []\<rparr>"

definition example_core :: functional_core where
  "example_core = new_functional_core 0 4 0 0 (Hash_Map (new_hash_memory_map 0 0x10000)) 1"

definition example_run_config :: run_config where
  "example_run_config = \<lparr>rc_addr = uc_addr example_uthread_config, rc_spad_size = 16\<rparr>"

definition example_args :: kernel_args where
  "example_args = \<lparr>ka_arg_size = 8, ka_args = [42], ka_num_float_args = 0, ka_float_args = []\<rparr>"

definition example_run :: "functional_core res option" where
  "example_run = Run example_env (\<lambda>b. b) example_run_config (xe_request example_env) example_run_kernel example_launch example_args example_core"

section \<open>Properties\<close>

text \<open>
  C10. A functional run leaves no register allocated: when no packet has registers before, and the run returns,
  all physical registers are free again and no register is double, whatever the kernel and the order of the hash maps.
\<close>

theorem run_frees_registers:
  assumes "Run e order rc junk k li ka c = Some (Inr c')" "\<And>b. mset (order b) = mset b"
    and "ru_inv nx nf nv (vr_unit (sf_regs c))" "idle (vr_unit (sf_regs c))"
  shows "mset (rf_free (ru_x (vr_unit (sf_regs c')))) = mset (phys_regs REG_PX_BASE nx) \<and>
    mset (rf_free (ru_f (vr_unit (sf_regs c')))) = mset (phys_regs REG_PF_BASE nf) \<and>
    mset (rf_free (ru_v (vr_unit (sf_regs c')))) = mset (phys_regs REG_PV_BASE nv) \<and> ru_double (vr_unit (sf_regs c')) = []"
proof -
  have "core_free nx nf nv (set_ndp_kernel k c)"
    using assms(3,4) by (simp add: core_free_def set_ndp_kernel_def)
  then have "core_free nx nf nv c'"
    using Run_same [OF assms(1)] assms(2) by (simp add: same_core_def)
  then show ?thesis
    using idle_free [of nx nf nv "vr_unit (sf_regs c')"] by (simp add: core_free_def)
qed

theorem run_frees_registers_witness:
  "\<exists>c. example_run = Some (Inr c) \<and> mset (rf_free (ru_x (vr_unit (sf_regs c)))) = mset (phys_regs REG_PX_BASE 4)"
proof -
  have "case example_run of Some (Inr _) \<Rightarrow> True | _ \<Rightarrow> False"
    by code_simp
  then obtain c where c: "example_run = Some (Inr c)"
    by (auto split: option.splits sum.splits)
  have "ru_inv 4 0 0 (vr_unit (sf_regs example_core))" "idle (vr_unit (sf_regs example_core))"
    using ru_inv_new [of 4 0 0 "0 :: u32" 0]
    by (simp_all add: example_core_def new_functional_core_def new_vector_registers_def idle_def new_register_unit_def)
  then show ?thesis
    using run_frees_registers [OF c [unfolded example_run_def], of 4 0 0] c by auto
qed

text \<open>
  C11. A functional run returns, with a result or an error, when every branch of the kernel goes forward and the range
  has at most \<open>2 ^ 32 - 32\<close> bytes.
\<close>

theorem run_returns:
  assumes "kernel_forward k" "li_size li \<le> 0xffffffe0"
  shows "\<exists>r. Run e order rc junk k li ka c = Some r"
proof -
  let ?li = "li\<lparr>li_launch_id := 0\<rparr>"
  have size: "unat (li_size ?li) \<le> 2 ^ 32 - 32"
    using assms(2) by (simp add: word_le_nat_alt)
  have loops: "\<exists>r. run_fold (\<lambda>st k_id. packet_loop e order (rc_addr rc) junk ?li k_id 0 st) st ks = Some r" if "runs k st" for st ks
    by (rule run_fold_returns [where I = "runs k", OF that])
      (auto intro: packet_loop_returns [OF assms(1) size] runs_same packet_loop_same)
  have finish: "\<exists>r. finish_run e order junk ?li st = Some r" if "runs k st" for st
    using that assms(1) by (auto simp: finish_run_def runs_def intro!: with_core_returns phases_return)
  have keep: "runs k st'" if "runs k st" "run_fold (\<lambda>st k_id. packet_loop e order (rc_addr rc) junk ?li k_id 0 st) st ks = Some (Inr st')" for st st' ks
    by (rule run_fold_invariant [where I = "runs k", OF that]) (auto intro: runs_same packet_loop_same)
  have "runs k \<lparr>rs_first = True, rs_req_id = 0, rs_core = set_ndp_kernel k c, rs_spad = spad\<rparr>" for spad
    by (simp add: runs_def set_ndp_kernel_def)
  then show ?thesis
    unfolding Run_def Let_def using loops finish keep by (intro run_bind_returns) blast+
qed

theorem run_returns_witness:
  "kernel_forward example_run_kernel \<and> (\<exists>r. example_run = Some r)"
proof -
  have "kernel_forward example_run_kernel" "li_size example_launch \<le> 0xffffffe0"
    by code_simp+
  then show ?thesis
    unfolding example_run_def using run_returns by blast
qed

text \<open>
  A launch of more than \<open>2 ^ 32 - 32\<close> bytes never finishes: the packet counter times the packet size is computed in 32 bits and
  stays below the size.
\<close>

theorem large_run_never_finishes:
  assumes "0xffffffe0 < li_size li" "0 < nk_num_kernel_bodies k"
  shows "Run e order rc junk k li ka c \<noteq> Some (Inr c')"
proof
  assume "Run e order rc junk k li ka c = Some (Inr c')"
  then obtain st st' where "run_fold (\<lambda>st k_id. packet_loop e order (rc_addr rc) junk (li\<lparr>li_launch_id := 0\<rparr>) k_id 0 st) st
      [0..<nat (nk_num_kernel_bodies k)] = Some (Inr st')"
    by (auto simp: Run_def Let_def run_bind_eq)
  moreover have "[0..<nat (nk_num_kernel_bodies k)] = 0 # [1..<nat (nk_num_kernel_bodies k)]"
    using assms(2) by (simp add: upt_conv_Cons)
  ultimately obtain st1 where "packet_loop e order (rc_addr rc) junk (li\<lparr>li_launch_id := 0\<rparr>) 0 0 st = Some (Inr st1)"
    by (auto simp: run_bind_eq)
  moreover have "2 ^ 32 - 32 < unat (li_size (li\<lparr>li_launch_id := 0\<rparr>))"
    using assms(1) by (simp add: word_less_nat_alt)
  ultimately show False
    using packet_loop_endless by blast
qed

theorem large_run_never_finishes_witness:
  "\<nexists>c'. Run example_env (\<lambda>b. b) example_run_config (xe_request example_env) example_run_kernel (example_launch\<lparr>li_size := 0x100000000\<rparr>)
     example_args example_core = Some (Inr c')"
  using large_run_never_finishes [of "example_launch\<lparr>li_size := 0x100000000\<rparr>" example_run_kernel] by (simp add: example_run_kernel_def)

text \<open>
  C2. The functional simulator and the timing front end agree on what a launch is: on a unit of the device, for a range of
  whole packets that neither wraps nor exceeds \<open>2 ^ 32 - 32\<close> bytes and a kernel with a body, the loops of a run execute exactly
  the requests the micro-thread generator makes for the launch, with the same ids, in the same order.
\<close>

theorem run_executes_launch_requests:
  assumes "uc_addr uc = rc_addr rc" "ug_ndp_id g = sf_id c" "0 \<le> sf_id c" "sf_id c < sint (m_num_ndp_units (rc_addr rc))"
    and "m_stride_size (rc_addr rc) \<noteq> 0" "li_size li mod 32 = 0" "li_size li \<le> 0xffffffe0" "unat (li_base_addr li) + unat (li_size li) < 2 ^ 64"
    and "0 < nk_num_kernel_bodies k" "nk_num_kernel_bodies k \<le> 2 ^ 32"
    and "packet_addrs (li_base_addr li) (li_base_addr li + li_size li) = Some addrs" "matched_addrs uc g addrs = Inr ms"
  shows "Run e order rc junk k li ka c =
    run_bind (Some (assert_that (li_smem_size li \<le> word_of_int (rc_spad_size rc * 1024)) ''smem_size <= get_spad_size() * 1024'')) (\<lambda>_.
    run_bind (Some (launch_scratchpad ka (li_smem_size li))) (\<lambda>spad.
    run_bind (run_fold (run_request e order junk) (set_ndp_kernel k c, Hash_Map spad)
        (number_requests 0 (launch_requests (li\<lparr>li_launch_id := 0\<rparr>) (sf_id c) (nk_num_kernel_bodies k) ms))) (\<lambda>cs.
    Some (Inr (fst cs)))))"
proof -
  let ?li = "li\<lparr>li_launch_id := 0\<rparr>" and ?cfg = "rc_addr rc"
  have size: "unat (li_size ?li) \<le> 2 ^ 32 - 32"
    using assms(7) by (simp add: word_le_nat_alt)
  have "addrs = map (packet_addr ?li) [0..<unat (li_size li) div 32]"
    using assms(11) packet_addrs_range [OF assms(6), of "li_base_addr li"] assms(8) by (auto simp: packet_addr_def)
  moreover have "ms = filter (hit ?cfg (sf_id c)) addrs"
    using matched_addrs_eq [OF assms(12)] hit_match [OF assms(1-5)] by simp
  ultimately have ms: "ms = filter (hit ?cfg (sf_id c)) (map (packet_addr ?li) [0..<unat (li_size ?li) div 32])"
    by simp
  have n: "m_num_ndp_units ?cfg \<noteq> 0"
    using assms(3,4) by auto
  have nb: "int (nat (nk_num_kernel_bodies k)) = nk_num_kernel_bodies k" "0 < nat (nk_num_kernel_bodies k)" "nat (nk_num_kernel_bodies k) \<le> 2 ^ 32"
    using assms(9,10) by simp_all
  define st where "st spad = \<lparr>rs_first = True, rs_req_id = 0, rs_core = set_ndp_kernel k c, rs_spad = Hash_Map spad\<rparr>" for spad
  have "run_bind (run_fold (\<lambda>st k_id. packet_loop e order ?cfg junk ?li k_id 0 st) (st spad) [0..<nat (nk_num_kernel_bodies k)])
      (\<lambda>st. run_bind (finish_run e order junk ?li st) (\<lambda>st. Some (Inr (rs_core st)))) =
    run_bind (run_fold (run_next e order junk) (st spad) (launch_requests ?li (sf_id c) (nk_num_kernel_bodies k) ms)) (\<lambda>st. Some (Inr (rs_core st)))" for spad
    using run_loops [of "st spad" "sf_id c" ?cfg ?li "nat (nk_num_kernel_bodies k)" ms e order junk] assms(5,6) n size nb ms
    by (simp add: st_def set_ndp_kernel_def run_bind_assoc [symmetric])
  then show ?thesis
    unfolding Run_def Let_def st_def [symmetric] run_fold_numbered by (simp add: st_def)
qed

theorem run_executes_launch_requests_witness:
  "\<exists>spad. launch_scratchpad example_args 64 = Inr spad \<and> example_run =
     run_bind (run_fold (run_request example_env (\<lambda>b. b) (xe_request example_env)) (set_ndp_kernel example_run_kernel example_core, Hash_Map spad)
       (number_requests 0 (launch_requests (example_launch\<lparr>li_launch_id := 0\<rparr>) 1 1 [0x1020, 0x1060]))) (\<lambda>cs. Some (Inr (fst cs)))"
proof -
  have addrs: "packet_addrs 0x1000 (0x1000 + 128) = Some [0x1000, 0x1020, 0x1040, 0x1060]"
    by code_simp
  have ms: "matched_addrs example_uthread_config example_generator [0x1000, 0x1020, 0x1040, 0x1060] = Inr [0x1020, 0x1060]"
    by code_simp
  have "case launch_scratchpad example_args 64 of Inr _ \<Rightarrow> True | Inl _ \<Rightarrow> False"
    by code_simp
  then obtain spad where spad: "launch_scratchpad example_args 64 = Inr spad"
    by (auto split: sum.splits)
  have conf: "uc_addr example_uthread_config = rc_addr example_run_config" "ug_ndp_id example_generator = sf_id example_core"
    "sf_id example_core = 1" "sint (m_num_ndp_units (rc_addr example_run_config)) = 2" "m_stride_size (rc_addr example_run_config) \<noteq> 0"
    "nk_num_kernel_bodies example_run_kernel = 1" "li_smem_size example_launch = 64" "rc_spad_size example_run_config = 16"
    by (simp_all add: example_run_config_def example_uthread_config_def example_generator_def new_uthread_generator_def example_core_def
        new_functional_core_def example_run_kernel_def example_launch_def)
  have li: "li_base_addr example_launch = 0x1000" "li_size example_launch = 128"
    by (simp_all add: example_launch_def)
  show ?thesis
    using run_executes_launch_requests [of example_uthread_config example_run_config example_generator example_core example_launch example_run_kernel
        "[0x1000, 0x1020, 0x1040, 0x1060]" "[0x1020, 0x1060]" example_env "\<lambda>b. b" "xe_request example_env" example_args] conf li addrs ms spad
    unfolding example_run_def by simp
qed

text \<open>
  C29. The kernel finds its arguments: after the launch has filled the scratchpad, each integer argument is the 64-bit word at its
  place, four to a packet from the start of the scratchpad on, also when floating-point arguments follow.
\<close>

theorem arguments_in_scratchpad:
  assumes "launch_scratchpad ka smem_size = Inr m" "int off < num_args ka"
  shows "\<exists>v. map_of (hm_data m) (SCRATCHPAD_BASE + of_nat (off div 4 * 32)) = Some v \<and> GetLongData (off mod 4) v = Inr (ka_args ka ! off)"
proof -
  let ?k = "off div 4" and ?n = "arg_packets ka"
  have bound: "num_args ka < 2 ^ 31"
    unfolding num_args_def using sint_lt [of "ucast (ka_arg_size ka div 8 - word_of_int (ka_num_float_args ka)) :: u32"] by simp
  have n: "?n = nat ((num_args ka - 1) div 4 + 1)"
    using assms(2) by (simp add: arg_packets_def trunc_div_def)
  have k: "?k < ?n"
    using assms(2) unfolding n by linarith
  have "num_args ka < 2147483648"
    using bound by simp
  then have "?n < 2147483648"
    unfolding n by linarith
  then have "?n < 2 ^ 58"
    by simp
  then have small: "\<forall>k\<in>set (?k # [0..<?n]). k < 2 ^ 58" "?k < 2 ^ 58"
    using k by auto
  obtain m1 where m1: "res_foldl (\<lambda>m outter. res_bind (arg_packet ka outter) (\<lambda>v. hm_store (spad_packet_addr outter) v m))
      (new_hash_memory_map SCRATCHPAD_BASE smem_size) [0..<?n] = Inr m1"
    and m: "m = m1 \<or> (\<exists>v. hm_store (spad_packet_addr ?n) v m1 = Inr m)"
    using assms(1) by (auto simp: launch_scratchpad_def res_simps split: if_splits)
  obtain v where v: "arg_packet ka ?k = Inr v" "map_of (hm_data m1) (spad_packet_addr ?k) = Some v"
    using packets_fold [OF m1 _ small(1)] k by auto
  have "spad_packet_addr ?n \<noteq> spad_packet_addr ?k"
    using spad_packet_addr_inj [of ?n ?k] \<open>?n < 2 ^ 58\<close> small(2) k by auto
  then have "map_of (hm_data m) (spad_packet_addr ?k) = Some v"
    using m v(2) by (auto simp: hm_store_def res_simps AList.update_conv' split: if_splits)
  moreover have "GetLongData (off mod 4) v = Inr (ka_args ka ! off)"
  proof -
    have "?k * 4 + off mod 4 = off"
      by simp
    then have "off mod 4 \<in> set (filter (\<lambda>inner. int (?k * 4 + inner) < num_args ka) [0..<4])"
      using assms(2) by (simp del: of_nat_add of_nat_mult)
    then show ?thesis
      using arg_fold [of ?k "ka_args ka" _ _ v "off mod 4"] v(1) by (auto simp: arg_packet_def)
  qed
  ultimately show ?thesis
    by (auto simp: spad_packet_addr_def)
qed

theorem arguments_in_scratchpad_witness:
  "\<exists>m v. launch_scratchpad \<lparr>ka_arg_size = 56, ka_args = [10, 11, 12, 13, 14, 15], ka_num_float_args = 1, ka_float_args = [7]\<rparr> 96 = Inr m \<and>
     map_of (hm_data m) (SCRATCHPAD_BASE + 32) = Some v \<and> GetLongData 1 v = Inr 15"
proof -
  let ?ka = "\<lparr>ka_arg_size = 56, ka_args = [10, 11, 12, 13, 14, 15], ka_num_float_args = 1, ka_float_args = [7]\<rparr>"
  have "case launch_scratchpad ?ka 96 of Inr _ \<Rightarrow> True | Inl _ \<Rightarrow> False" "int 5 < num_args ?ka"
    by code_simp+
  then obtain m where m: "launch_scratchpad ?ka 96 = Inr m" and n: "int 5 < num_args ?ka"
    by (auto split: sum.splits)
  show ?thesis
    using arguments_in_scratchpad [OF m n] m by auto
qed

end
