(* ===== verification/Sub_Core.thy ===== *)
theory Sub_Core
  imports Execution_Unit Functional_Core
begin

text \<open>
  \<^verbatim>\<open>src/sub_core.h\<close> and \<^verbatim>\<open>src/sub_core.cc\<close>, the timing part: a sub-core renames the columns it is given, queues them,
  fetches their instructions through a level-0 instruction cache and issues them to its execution unit. The sub-core owns
  the queue, the execution unit with the registers, and the cache; the queues between sub-core and NDP unit, the requests, the
  statistics, the finished contexts and the memories belong to the unit and are part of the state here. In the code the
  control registers of a column are one object that the queue and the execution unit refer to: the model keeps them in the execution
  unit (\<open>eu_csr\<close>) and copies program counter and block flag into the columns whenever the execution unit has run (\<open>put_exec\<close>). The
  fields of a \<^verbatim>\<open>Context\<close> that the code leaves uninitialised come from the argument \<open>junk\<close>.
\<close>

section \<open>State\<close>

record sub_core_config =
  sg_queue :: iq_config
  sg_exec :: exec_config
  sg_max_inst_issue :: int
  sg_ideal_icache :: bool
  sg_registers :: "int \<times> int \<times> int"

record sub_core =
  sc_id :: int
  sc_sub_core_id :: int
  sc_queue :: instruction_queue
  sc_exec :: exec_unit
  sc_cache :: cache
  sc_store :: mf_store
  sc_column_q :: "inst_column fifo_pipeline"
  sc_to_icache :: "ptr fifo_pipeline"
  sc_from_icache :: "ptr fifo_pipeline"
  sc_active_count :: int
  sc_issue_fail_count :: u64

definition new_sub_core ::
  "(nat \<Rightarrow> u64 \<times> u64) \<Rightarrow> int \<Rightarrow> sub_core_config \<Rightarrow> MemoryMap \<Rightarrow> ndp_stats \<Rightarrow> int \<Rightarrow> int \<Rightarrow> inst_column fifo_pipeline \<Rightarrow> ptr fifo_pipeline
    \<Rightarrow> ptr fifo_pipeline \<Rightarrow> exec_op fifo_pipeline \<Rightarrow> exec_op fifo_pipeline \<Rightarrow> exec_op fifo_pipeline \<Rightarrow> exec_op fifo_pipeline
    \<Rightarrow> (u64 \<Rightarrow> MemoryMap) \<Rightarrow> mf_store \<Rightarrow> sub_core" where
  "new_sub_core junk junk_vlmul sg memory stats i sub_core_id column_q to_icache from_icache to_ldst to_spad to_v_ldst to_v_spad spads h =
     (let (nx, nf, nv) = sg_registers sg; q = new_instruction_queue (sg_queue sg) i sub_core_id
      in \<lparr>sc_id = i, sc_sub_core_id = sub_core_id, sc_queue = (if sg_ideal_icache sg then set_ideal_icache q else q),
          sc_exec = new_exec_unit (sg_exec sg) i sub_core_id (new_vector_registers 0 junk_vlmul nx nf nv) stats to_ldst to_spad to_v_ldst
            to_v_spad (\<lambda>_. new_csr) (\<lambda>_ _. None) memory spads,
          sc_cache = new_cache junk ''l0_icache'' (qc_cache (sg_queue sg)) (word_of_int i) 0 False, sc_store = h, sc_column_q = column_q,
          sc_to_icache = to_icache, sc_from_icache = from_icache, sc_active_count = 0, sc_issue_fail_count = 0\<rparr>)"

text \<open>The columns refer to the control registers the execution unit works on.\<close>

definition sync_queue :: "exec_unit \<Rightarrow> instruction_queue \<Rightarrow> instruction_queue" where
  "sync_queue x q =
     q\<lparr>iq_columns := map (\<lambda>c. c\<lparr>iq_pc := csr_pc (eu_csr x (ic_id c)), iq_block := csr_block (eu_csr x (ic_id c))\<rparr>) (iq_columns q)\<rparr>"

definition put_exec :: "exec_unit \<Rightarrow> sub_core \<Rightarrow> sub_core" where
  "put_exec x s = s\<lparr>sc_exec := x, sc_queue := sync_queue x (sc_queue s)\<rparr>"

definition sc_registers :: "sub_core \<Rightarrow> u32 register_unit" where
  "sc_registers s = vr_unit (eu_regs (sc_exec s))"

definition upd_registers :: "(u32 register_unit \<Rightarrow> u32 register_unit) \<Rightarrow> sub_core \<Rightarrow> sub_core" where
  "upd_registers g s = s\<lparr>sc_exec := upd_unit g (sc_exec s)\<rparr>"

definition upd_stats :: "(ndp_stats \<Rightarrow> ndp_stats) \<Rightarrow> sub_core \<Rightarrow> sub_core" where
  "upd_stats g s = s\<lparr>sc_exec := (sc_exec s)\<lparr>eu_stats := g (eu_stats (sc_exec s))\<rparr>\<rparr>"

section \<open>Issue\<close>

text \<open>The attempt to issue from the column at the iterator; its status is what the loop records.\<close>

definition issue_column :: "exec_env \<Rightarrow> sub_core_config \<Rightarrow> sub_core \<Rightarrow> (Status \<times> sub_core) res" where
  "issue_column e sg s =
     res_bind (can_fetch (sc_queue s)) (\<lambda>b.
     if b then
       res_bind (fetch_instruction (sc_queue s)) (\<lambda>inst.
       res_bind (fetch_context (sc_queue s)) (\<lambda>(c, q).
       res_bind (exec_issue e (sg_exec sg) inst c (sc_exec s)) (\<lambda>(st, x).
       let s = put_exec x (s\<lparr>sc_queue := q\<rparr>)
       in if st = ISSUE_SUCCESS then res_bind (fetch_success (sc_queue s)) (\<lambda>q. Inr (st, s\<lparr>sc_queue := q\<rparr>))
          else Inr (st, s))))
     else res_bind (inst_fetch_fail (sc_queue s)) (\<lambda>st. Inr (st, s)))"

text \<open>The loop over the columns, with the number of rounds left, the instructions issued and the reasons of the failures.\<close>

fun issue_loop :: "exec_env \<Rightarrow> sub_core_config \<Rightarrow> nat \<Rightarrow> int \<Rightarrow> Status list \<Rightarrow> sub_core \<Rightarrow> (int \<times> Status list \<times> sub_core) res" where
  "issue_loop e sg 0 issued reasons s = Inr (issued, reasons, s)"
| "issue_loop e sg (Suc n) issued reasons s =
     (if exec_full (sc_exec s) then Inr (issued, reasons, s)
      else
        res_bind (issue_column e sg s) (\<lambda>(st, s).
        let issued = (if st = ISSUE_SUCCESS then issued + 1 else issued);
            reasons = (if st = ISSUE_SUCCESS then reasons else reasons @ [st]);
            s = s\<lparr>sc_queue := iq_next (sc_queue s)\<rparr>
        in if sg_max_inst_issue sg \<noteq> 0 \<and> sg_max_inst_issue sg \<le> issued then Inr (issued, reasons, s)
           else issue_loop e sg n issued reasons s))"

definition execute_instruction :: "exec_env \<Rightarrow> sub_core_config \<Rightarrow> sub_core \<Rightarrow> sub_core res" where
  "execute_instruction e sg s =
     (let n = iq_num_columns (sc_queue s);
          s = upd_stats (inc_ndp_inst_queue_size n) (s\<lparr>sc_active_count := sc_active_count s + n\<rparr>)
      in res_bind (issue_loop e sg (nat n) 0 (if n = 0 then [EMPTY_QUEUE] else []) s) (\<lambda>(issued, reasons, s).
         let s = (if 0 < issued then
                    upd_stats (inc_inst_issue_count issued)
                      ((if sc_sub_core_id s = 0 then upd_stats (inc_issue_success issued) s else s)\<lparr>sc_issue_fail_count := 0\<rparr>)
                  else if \<not> iq_all_empty (sc_queue s) then s\<lparr>sc_issue_fail_count := sc_issue_fail_count s + 1\<rparr>
                  else s);
             s = upd_stats (add_status_list reasons) s
         in if 50000 < sc_issue_fail_count s \<and> \<not> iq_all_empty (sc_queue s) then Inl (Assert_Fail ''false'') else Inr s))"

section \<open>The other steps of a cycle\<close>

definition l0_inst_cache_cycle :: "sub_core_config \<Rightarrow> u64 \<Rightarrow> sub_core \<Rightarrow> sub_core res" where
  "l0_inst_cache_cycle sg ndp_cycle s =
     res_bind
       (if fp_empty (sc_from_icache s) then Inr s
        else
          case fp_top (sc_from_icache s) of
            None \<Rightarrow> Inl Bad_Pointer
          | Some mf \<Rightarrow>
              if waiting_for_fill mf (sc_cache s) \<and> fill_port_free (sc_cache s) then
                res_bind (cache_fill (qc_cache (sg_queue sg)) mf (ucast ndp_cycle)
                    \<lparr>cx_cache = sc_cache s, cx_store = sc_store s, cx_events = []\<rparr>) (\<lambda>c.
                res_bind (fp_pop (sc_from_icache s)) (\<lambda>(_, q).
                Inr (s\<lparr>sc_cache := cx_cache c, sc_store := cx_store c, sc_from_icache := q\<rparr>)))
              else Inr s)
       (\<lambda>s. res_bind (cache_cycle (sc_cache s) (sc_to_icache s)) (\<lambda>(c, q). Inr (s\<lparr>sc_cache := c, sc_to_icache := q\<rparr>)))"

text \<open>A renamed column enters the queue with fresh control registers; a column without instructions is finished at once.\<close>

definition queue_column :: "inst_column \<Rightarrow> iq_column" where
  "queue_column c = inst_column.extend c \<lparr>iq_valid = False, iq_pc = 0, iq_block = False, iq_current = None, iq_pending = False, iq_counter = 0,
     iq_fetched = None, iq_fetched_last = False\<rparr>"

definition push_column :: "sub_core_config \<Rightarrow> inst_column \<Rightarrow> sub_core \<Rightarrow> sub_core res" where
  "push_column sg c s =
     (let col = iq_inst_col_id (sc_queue s); x = sc_exec s
      in res_bind (iq_push (sg_queue sg) (queue_column c) (sc_queue s)) (\<lambda>q.
         Inr (s\<lparr>sc_queue := q, sc_exec := x\<lparr>eu_csr := (eu_csr x)(col := new_csr), eu_loop_map := (eu_loop_map x)(col := map_of (ic_loop_map c))\<rparr>\<rparr>)))"

definition empty_context :: "inst_context \<Rightarrow> inst_column \<Rightarrow> sub_core \<Rightarrow> inst_context" where
  "empty_context junk c s = junk\<lparr>fc_ndp_id := sc_id s, fc_sub_core_id := - 1, fc_request_info := ic_req c\<rparr>"

definition enter_queue :: "inst_context \<Rightarrow> sub_core_config \<Rightarrow> inst_column \<Rightarrow> sub_core \<Rightarrow> sub_core res" where
  "enter_queue junk sg c s =
     (let x = sc_exec s
      in if ic_insts c = [] then Inr (s\<lparr>sc_exec := x\<lparr>eu_finished := eu_finished x @ [empty_context junk c s]\<rparr>\<rparr>)
         else push_column sg c s)"

definition instruction_queue_allocate :: "inst_context \<Rightarrow> sub_core_config \<Rightarrow> sub_core \<Rightarrow> sub_core res" where
  "instruction_queue_allocate junk sg s =
     (if RenameEmpty (sc_registers s) then Inr s
      else
        res_bind (RenameTop (sc_registers s)) (\<lambda>c.
        if \<not> iq_can_push (sg_queue sg) (queue_column c) (sc_queue s) then Inr (upd_stats inc_inst_queue_full s)
        else res_bind (RenamePop (sc_registers s)) (\<lambda>u. enter_queue junk sg c (upd_registers (\<lambda>_. u) s))))"

definition instruction_register_allocate :: "sub_core \<Rightarrow> sub_core res" where
  "instruction_register_allocate s =
     (if fp_empty (sc_column_q s) then Inr s
      else
        case fp_top (sc_column_q s) of
          None \<Rightarrow> Inl Bad_Pointer
        | Some c \<Rightarrow>
            if RenameFull c (sc_registers s) then Inr (upd_stats inc_register_stall s)
            else
              res_bind (fp_pop (sc_column_q s)) (\<lambda>(_, q).
              res_bind (RenamePush c (packet_key (ic_req c)) (sc_registers s)) (\<lambda>u.
              Inr (upd_registers (\<lambda>_. u) (s\<lparr>sc_column_q := q\<rparr>)))))"

definition queue_cycle :: "sub_core_config \<Rightarrow> u64 \<Rightarrow> sub_core \<Rightarrow> sub_core res" where
  "queue_cycle sg ndp_cycle s =
     res_bind (iq_cycle (sg_queue sg) ndp_cycle \<lparr>qx_queue = sc_queue s, qx_cache = sc_cache s, qx_store = sc_store s\<rparr>) (\<lambda>x.
     Inr (s\<lparr>sc_queue := qx_queue x, sc_cache := qx_cache x, sc_store := qx_store x\<rparr>))"

definition sub_core_cycle :: "exec_env \<Rightarrow> inst_context \<Rightarrow> sub_core_config \<Rightarrow> u64 \<Rightarrow> sub_core \<Rightarrow> sub_core res" where
  "sub_core_cycle e junk sg ndp_cycle s =
     res_bind (execute_instruction e sg s) (\<lambda>s.
     res_bind (l0_inst_cache_cycle sg ndp_cycle s) (\<lambda>s.
     res_bind (instruction_queue_allocate junk sg s) (\<lambda>s.
     res_bind (instruction_register_allocate s) (\<lambda>s.
     res_bind (queue_cycle sg ndp_cycle s) (\<lambda>s.
     res_bind (exec_cycle (sc_exec s)) (\<lambda>x. Inr (put_exec x s)))))))"

section \<open>What the unit calls\<close>

definition sc_is_active :: "sub_core \<Rightarrow> bool" where
  "sc_is_active s \<longleftrightarrow> exec_active (sc_exec s) \<or> \<not> iq_all_empty (sc_queue s) \<or> \<not> fp_empty (sc_column_q s) \<or>
     \<not> fp_empty (sc_to_icache s) \<or> \<not> fp_empty (sc_from_icache s)"

definition is_inst_queue_empty :: "sub_core \<Rightarrow> bool" where
  "is_inst_queue_empty s \<longleftrightarrow> iq_all_empty (sc_queue s)"

definition set_rf_ready :: "int \<Rightarrow> sub_core \<Rightarrow> sub_core" where
  "set_rf_ready reg = upd_registers (SetReady reg)"

definition free_rf :: "(register_binding \<Rightarrow> register_binding) \<Rightarrow> int \<Rightarrow> sub_core \<Rightarrow> sub_core" where
  "free_rf order packet_id = upd_registers (FreeRegs order packet_id)"

definition free_inst_column :: "int \<Rightarrow> sub_core \<Rightarrow> sub_core res" where
  "free_inst_column col_id s = res_bind (finish_inst_column col_id (sc_queue s)) (\<lambda>q. Inr (s\<lparr>sc_queue := q\<rparr>))"

text \<open>Printing the average resets the count.\<close>

definition print_sub_core_stats :: "sub_core \<Rightarrow> sub_core" where
  "print_sub_core_stats s = s\<lparr>sc_active_count := 0\<rparr>"

section \<open>What a step keeps\<close>

text \<open>Steps that change neither the phases of the queue, nor the renaming, nor the columns that wait for it.\<close>

definition sc_same :: "sub_core \<Rightarrow> sub_core \<Rightarrow> bool" where
  "sc_same s s' \<longleftrightarrow> same_columns (sc_queue s) (sc_queue s') \<and> files (sc_exec s') = files (sc_exec s) \<and> sc_column_q s' = sc_column_q s"

lemma sc_same_refl [simp]: "sc_same s s"
  by (simp add: sc_same_def)

lemma sc_same_trans: "sc_same s s' \<Longrightarrow> sc_same s' s'' \<Longrightarrow> sc_same s s''"
  unfolding sc_same_def using same_columns_trans by simp blast

lemma sync_queue_frame: "same_columns q (sync_queue x q)"
  by (simp add: same_columns_def sync_queue_def phase_of_def get_dependency_key_def)

lemma upd_stats_same [simp]: "sc_same s (upd_stats g s)"
  by (simp add: sc_same_def upd_stats_def)

lemma counters_same [simp]: "sc_same s (s\<lparr>sc_issue_fail_count := n\<rparr>)" "sc_same s (s\<lparr>sc_active_count := k\<rparr>)"
  by (simp_all add: sc_same_def)

lemma put_exec_same:
  assumes "same_columns (sc_queue s) q" "files x = files (sc_exec s)"
  shows "sc_same s (put_exec x (s\<lparr>sc_queue := q\<rparr>))"
  using assms sync_queue_frame same_columns_trans by (auto simp: sc_same_def put_exec_def)

lemma issue_column_same:
  assumes "issue_column e sg s = Inr (st, s')"
  shows "sc_same s s'"
proof (cases "s' = s")
  case False
  then obtain c q r x where q: "fetch_context (sc_queue s) = Inr (c, q)" and x: "files x = files (sc_exec s)"
    and s': "s' = put_exec x (s\<lparr>sc_queue := q\<rparr>) \<or>
      (\<exists>q'. fetch_success (sc_queue (put_exec x (s\<lparr>sc_queue := q\<rparr>))) = Inr q' \<and> s' = (put_exec x (s\<lparr>sc_queue := q\<rparr>))\<lparr>sc_queue := q'\<rparr>)"
    using assms by (auto simp: issue_column_def res_simps Let_def split: if_splits dest: exec_issue_files)
  have same: "sc_same s (put_exec x (s\<lparr>sc_queue := q\<rparr>))"
    by (rule put_exec_same [OF fetch_context_frame [OF q] x])
  show ?thesis
  proof (cases "s' = put_exec x (s\<lparr>sc_queue := q\<rparr>)")
    case False
    then obtain q' where q': "fetch_success (sc_queue (put_exec x (s\<lparr>sc_queue := q\<rparr>))) = Inr q'" "s' = (put_exec x (s\<lparr>sc_queue := q\<rparr>))\<lparr>sc_queue := q'\<rparr>"
      using s' by blast
    have "sc_same (put_exec x (s\<lparr>sc_queue := q\<rparr>)) s'"
      using fetch_success_frame [OF q'(1)] q'(2) by (simp add: sc_same_def)
    then show ?thesis
      using same sc_same_trans by blast
  qed (use same in simp)
qed simp

lemma issue_loop_same: "issue_loop e sg n issued reasons s = Inr (k, rs, s') \<Longrightarrow> sc_same s s'"
proof (induction n arbitrary: issued reasons s)
  case (Suc n)
  show ?case
  proof (cases "exec_full (sc_exec s)")
    case False
    then obtain st s1 where s1: "issue_column e sg s = Inr (st, s1)"
      using Suc.prems by (auto simp: res_simps)
    let ?s = "s1\<lparr>sc_queue := iq_next (sc_queue s1)\<rparr>"
    have "sc_same s1 ?s"
      by (simp add: sc_same_def iq_next_frame)
    then have same: "sc_same s ?s"
      using issue_column_same [OF s1] sc_same_trans by blast
    have "s' = ?s \<or> (\<exists>i r. issue_loop e sg n i r ?s = Inr (k, rs, s'))"
      using Suc.prems False s1 by (auto simp: Let_def split: if_splits)
    then show ?thesis
      using Suc.IH same sc_same_trans by blast
  qed (use Suc.prems in simp)
qed simp

lemma execute_instruction_same:
  assumes "execute_instruction e sg s = Inr s'"
  shows "sc_same s s'"
proof -
  let ?s = "upd_stats (inc_ndp_inst_queue_size (iq_num_columns (sc_queue s))) (s\<lparr>sc_active_count := sc_active_count s + iq_num_columns (sc_queue s)\<rparr>)"
  have start: "sc_same s ?s"
    by (rule sc_same_trans [OF counters_same(2) upd_stats_same])
  obtain n rs s1 where s1: "issue_loop e sg (nat (iq_num_columns (sc_queue s))) 0 (if iq_num_columns (sc_queue s) = 0 then [EMPTY_QUEUE] else []) ?s = Inr (n, rs, s1)"
    and s': "s' = upd_stats (add_status_list rs)
      (if 0 < n then upd_stats (inc_inst_issue_count n)
          ((if sc_sub_core_id s1 = 0 then upd_stats (inc_issue_success n) s1 else s1)\<lparr>sc_issue_fail_count := 0\<rparr>)
        else if \<not> iq_all_empty (sc_queue s1) then s1\<lparr>sc_issue_fail_count := sc_issue_fail_count s1 + 1\<rparr> else s1)"
    using assms unfolding execute_instruction_def Let_def by (auto simp: res_simps split: if_splits)
  have "sc_same s1 s'"
    unfolding s' by (auto intro!: sc_same_trans [OF _ upd_stats_same] sc_same_trans [OF _ counters_same(1)])
  then show ?thesis
    using start issue_loop_same [OF s1] sc_same_trans by blast
qed

lemma l0_inst_cache_cycle_same: "l0_inst_cache_cycle sg t s = Inr s' \<Longrightarrow> sc_same s s'"
  by (auto simp: l0_inst_cache_cycle_def sc_same_def res_simps split: if_splits option.splits)

section \<open>Invariant\<close>

definition sc_inv :: "sub_core_config \<Rightarrow> sub_core \<Rightarrow> bool" where
  "sc_inv sg s \<longleftrightarrow> (case sg_registers sg of (nx, nf, nv) \<Rightarrow> ru_inv nx nf nv (sc_registers s)) \<and> iq_inv (sg_queue sg) (sc_queue s)"

text \<open>The column that is renamed next belongs to a packet without registers.\<close>

definition fresh_column :: "sub_core \<Rightarrow> bool" where
  "fresh_column s \<longleftrightarrow> (case fp_top (sc_column_q s) of None \<Rightarrow> True
     | Some c \<Rightarrow> map_of (rf_map (ru_x (sc_registers s))) (packet_key (ic_req c)) = None)"

lemma registers_files:
  assumes "files (sc_exec s') = files (sc_exec s)"
  shows "ru_x (sc_registers s') = ru_x (sc_registers s)" "ru_f (sc_registers s') = ru_f (sc_registers s)"
    "ru_v (sc_registers s') = ru_v (sc_registers s)" "ru_double (sc_registers s') = ru_double (sc_registers s)"
  using assms by (simp_all add: files_def sc_registers_def)

text \<open>Steps before the renaming of a column.\<close>

definition sc_step :: "sub_core_config \<Rightarrow> sub_core \<Rightarrow> sub_core \<Rightarrow> bool" where
  "sc_step sg s s' \<longleftrightarrow> (sc_inv sg s \<longrightarrow> sc_inv sg s') \<and> sc_column_q s' = sc_column_q s \<and> ru_x (sc_registers s') = ru_x (sc_registers s)"

lemma sc_step_trans: "sc_step sg s s' \<Longrightarrow> sc_step sg s' s'' \<Longrightarrow> sc_step sg s s''"
  by (simp add: sc_step_def)

lemma sc_step_fresh: "sc_step sg s s' \<Longrightarrow> fresh_column s \<Longrightarrow> fresh_column s'"
  by (auto simp: sc_step_def fresh_column_def split: option.splits)

lemma sc_same_step: "sc_same s s' \<Longrightarrow> sc_step sg s s'"
  using same_columns_inv registers_files [of s' s] by (auto simp: sc_step_def sc_same_def sc_inv_def ru_inv_def split: prod.splits)

lemma enter_queue_step:
  assumes "enter_queue junk sg c s = Inr s'"
  shows "sc_step sg s s'"
proof (cases "ic_insts c = []")
  case True
  then show ?thesis
    using assms by (auto simp: enter_queue_def Let_def sc_step_def sc_inv_def sc_registers_def split: prod.splits)
next
  case False
  then obtain q x where "iq_push (sg_queue sg) (queue_column c) (sc_queue s) = Inr q" "s' = s\<lparr>sc_queue := q, sc_exec := x\<rparr>"
    "eu_regs x = eu_regs (sc_exec s)"
    using assms by (auto simp: enter_queue_def push_column_def Let_def res_simps)
  then show ?thesis
    using iq_push_inv by (auto simp: sc_step_def sc_inv_def sc_registers_def split: prod.splits)
qed

lemma instruction_queue_allocate_step:
  assumes "instruction_queue_allocate junk sg s = Inr s'"
  shows "sc_step sg s s'"
proof (cases "s' = s \<or> s' = upd_stats inc_inst_queue_full s")
  case True
  then show ?thesis
    using sc_same_step [OF upd_stats_same] sc_same_step [OF sc_same_refl] by blast
next
  case False
  then obtain c cs where c: "enter_queue junk sg c (upd_registers (\<lambda>_. (sc_registers s)\<lparr>ru_after_rename := cs\<rparr>) s) = Inr s'"
    using assms by (auto simp: instruction_queue_allocate_def RenamePop_def res_simps split: if_splits list.splits)
  have "sc_step sg s (upd_registers (\<lambda>_. (sc_registers s)\<lparr>ru_after_rename := cs\<rparr>) s)"
    by (auto simp: sc_step_def sc_inv_def ru_inv_def sc_registers_def upd_registers_def upd_unit_def split: prod.splits)
  then show ?thesis
    using enter_queue_step [OF c] sc_step_trans by blast
qed

lemma instruction_register_allocate_inv:
  assumes "instruction_register_allocate s = Inr s'" "sc_inv sg s" "fresh_column s"
  shows "sc_inv sg s'"
proof (cases "s' = s \<or> s' = upd_stats inc_register_stall s")
  case True
  then show ?thesis
    using sc_same_step [OF upd_stats_same] assms(2) by (auto simp: sc_step_def)
next
  case False
  then obtain c q u where c: "fp_top (sc_column_q s) = Some c" and u: "RenamePush c (packet_key (ic_req c)) (sc_registers s) = Inr u"
    and s': "s' = upd_registers (\<lambda>_. u) (s\<lparr>sc_column_q := q\<rparr>)"
    using assms(1) by (auto simp: instruction_register_allocate_def res_simps split: if_splits option.splits)
  obtain out u1 where r: "Convert (ic_insts c) (packet_key (ic_req c)) (ic_req c) (sc_registers s) = Inr (out, u1)"
    and u1: "u = u1\<lparr>ru_after_rename := ru_after_rename u1 @ [c\<lparr>ic_insts := out\<rparr>]\<rparr>"
    using u by (auto simp: RenamePush_def res_simps)
  obtain nx nf nv where n: "sg_registers sg = (nx, nf, nv)"
    by (cases "sg_registers sg")
  have "ru_inv nx nf nv u1"
    using Convert_inv [OF _ _ r] assms(2,3) c n by (simp add: sc_inv_def fresh_column_def)
  then show ?thesis
    using assms(2) n unfolding s' u1 by (simp add: sc_inv_def sc_registers_def upd_registers_def upd_unit_def ru_inv_def)
qed

lemma queue_cycle_inv: "queue_cycle sg t s = Inr s' \<Longrightarrow> sc_inv sg s \<Longrightarrow> sc_inv sg s'"
  using iq_cycle_inv [of "sg_queue sg" "\<lparr>qx_queue = sc_queue s, qx_cache = sc_cache s, qx_store = sc_store s\<rparr>" t]
  by (auto simp: queue_cycle_def sc_inv_def sc_registers_def res_simps)

lemma sub_core_cycle_inv:
  assumes "sub_core_cycle e junk sg t s = Inr s'" "sc_inv sg s" "fresh_column s"
  shows "sc_inv sg s'"
proof -
  obtain s1 s2 s3 s4 s5 x where s: "execute_instruction e sg s = Inr s1" "l0_inst_cache_cycle sg t s1 = Inr s2"
    "instruction_queue_allocate junk sg s2 = Inr s3" "instruction_register_allocate s3 = Inr s4" "queue_cycle sg t s4 = Inr s5"
    "exec_cycle (sc_exec s5) = Inr x" "s' = put_exec x s5"
    using assms(1) by (auto simp: sub_core_cycle_def res_simps)
  have "sc_step sg s s3"
    using sc_same_step [OF execute_instruction_same [OF s(1)]] sc_same_step [OF l0_inst_cache_cycle_same [OF s(2)]]
      instruction_queue_allocate_step [OF s(3)] sc_step_trans by blast
  then have "sc_inv sg s5"
    using instruction_register_allocate_inv [OF s(4)] queue_cycle_inv [OF s(5)] sc_step_fresh assms(2,3) by (auto simp: sc_step_def)
  moreover have "sc_same s5 s'"
    using put_exec_same [of s5 "sc_queue s5" x] exec_cycle_files [OF s(6)] s(7) by (simp add: put_exec_def)
  ultimately show ?thesis
    using sc_same_step by (auto simp: sc_step_def)
qed

section \<open>Reachable sub-cores\<close>

text \<open>
  The life of a sub-core: cycles, and between them what the unit does: registers become ready, a finished packet gives its
  registers back, a finished column leaves the queue, and the unit works on the queues, requests, statistics and memories it
  shares with the sub-core (\<open>exchange\<close>). A cycle renames a column only for a packet that has no registers: request ids are not reused.
\<close>

inductive sub_core_reachable ::
  "(register_binding \<Rightarrow> register_binding) \<Rightarrow> sub_core_config \<Rightarrow> sub_core \<Rightarrow> bool" for order sg where
  new: "sub_core_reachable order sg (new_sub_core junk junk_vlmul sg memory stats i j column_q to_icache from_icache to_ldst to_spad to_v_ldst to_v_spad spads h)"
| cycle: "sub_core_reachable order sg s \<Longrightarrow> fresh_column s \<Longrightarrow> sub_core_cycle e ctx sg t s = Inr s' \<Longrightarrow> sub_core_reachable order sg s'"
| ready: "sub_core_reachable order sg s \<Longrightarrow> sub_core_reachable order sg (set_rf_ready reg s)"
| free: "sub_core_reachable order sg s \<Longrightarrow> sub_core_reachable order sg (free_rf order packet_id s)"
| finish: "sub_core_reachable order sg s \<Longrightarrow> free_inst_column col_id s = Inr s' \<Longrightarrow> sub_core_reachable order sg s'"
| exchange: "sub_core_reachable order sg s \<Longrightarrow> sc_queue s' = sc_queue s \<Longrightarrow> eu_regs (sc_exec s') = eu_regs (sc_exec s) \<Longrightarrow>
    sub_core_reachable order sg s'"

lemma sub_core_reachable_inv:
  assumes "sub_core_reachable order sg s" "\<And>b. mset (order b) = mset b"
  shows "sc_inv sg s"
  using assms(1)
proof (induction rule: sub_core_reachable.induct)
  case (new junk junk_vlmul memory stats i j column_q to_icache from_icache to_ldst to_spad to_v_ldst to_v_spad spads h)
  have "iq_inv (sg_queue sg) (set_ideal_icache (new_instruction_queue (sg_queue sg) i j))"
    using iq_inv_new [of "sg_queue sg" i j] by (simp add: iq_inv_def set_ideal_icache_def)
  then show ?case
    using ru_inv_new iq_inv_new
    by (auto simp: sc_inv_def new_sub_core_def sc_registers_def new_exec_unit_def new_vector_registers_def Let_def split: prod.splits)
next
  case (cycle s e ctx t s')
  then show ?case using sub_core_cycle_inv by blast
next
  case (ready s reg)
  then show ?case
    by (auto simp: set_rf_ready_def sc_inv_def upd_registers_def upd_unit_def sc_registers_def SetReady_def ru_inv_def split: prod.splits)
next
  case (free s packet_id)
  then show ?case
    using FreeRegs_inv [OF _ assms(2)]
    by (auto simp: free_rf_def sc_inv_def upd_registers_def upd_unit_def sc_registers_def split: prod.splits)
next
  case (finish s col_id s')
  then show ?case
    using finish_inv by (auto simp: free_inst_column_def sc_inv_def sc_registers_def res_simps split: prod.splits)
next
  case (exchange s s')
  then show ?case by (simp add: sc_inv_def sc_registers_def)
qed

end
