(* ===== verification/Ndp_Unit.thy ===== *)
theory Ndp_Unit
  imports Sub_Core Instruction_Buffer Ldst_Unit Tlb
begin

text \<open>
  \<^verbatim>\<open>src/ndp_unit.h\<close> and \<^verbatim>\<open>src/ndp_unit.cc\<close>, the timing part: an NDP unit makes the requests of a launch, turns them into columns of
  instructions, hands the columns to its sub-cores, moves instruction fetches between the level-0 caches, the level-1 cache, the TLB
  and the memory, connects the sub-cores with the load-store unit, and gives back what a finished column held. The parts share
  the requests, the statistics, the finished contexts and the memories: those of the load-store unit are the unit's own, and a
  sub-core works on them for the time of a call (\<open>on_core\<close>). The order of the hash maps is the argument \<open>order\<close>, the uninitialised
  fields of a context are the argument \<open>junk\<close>.
\<close>

section \<open>State\<close>

record unit_config =
  nc_uthread :: uthread_config
  nc_ldst :: ldst_config
  nc_core :: sub_core_config
  nc_itlb :: tlb_config
  nc_icache :: cache_config
  nc_l1icache_hit_latency :: int
  nc_sub_core_coarse_grained :: bool
  nc_num_sub_core :: int
  nc_inst_buffer_size :: int
  nc_ideal_tlb :: bool

record ndp_unit =
  nu_id :: int
  nu_ldst :: ldst_unit
  nu_cores :: "sub_core list"
  nu_memory :: MemoryMap
  nu_scratchpads :: "u64 \<Rightarrow> MemoryMap"
  nu_generator :: uthread_generator
  nu_matched :: "request_info fifo_pipeline"
  nu_buffer :: instruction_buffer
  nu_itlb :: tlb
  nu_accessed :: "u64 set"
  nu_icache :: cache
  nu_icache_queue :: "ptr delay_queue"
  nu_inst_req :: "ptr fifo_pipeline"
  nu_tlb_req :: "ptr fifo_pipeline"
  nu_rr :: nat
  nu_last_fetched :: nat
  nu_uthread_count :: "int list"
  nu_cycles :: u64

text \<open>
  The constructor. The control registers, the memories, the launched scratchpads and the requests are shared with the rest of the
  program and are arguments, as are the values of uninitialised fields and the counter of request ids.
\<close>

definition unit_queue :: "string \<Rightarrow> unit_config \<Rightarrow> 'a fifo_pipeline res" where
  "unit_queue name nc = new_fifo_pipeline name 0 (lc_request_queue_size (nc_ldst nc))"

definition unit_core ::
  "(nat \<Rightarrow> u64 \<times> u64) \<Rightarrow> int \<Rightarrow> unit_config \<Rightarrow> MemoryMap \<Rightarrow> ndp_stats \<Rightarrow> int \<Rightarrow> (u64 \<Rightarrow> MemoryMap) \<Rightarrow> mf_store \<Rightarrow> int \<Rightarrow> sub_core res" where
  "unit_core junk junk_vlmul nc memory stats i spads h sub_core_id =
     res_bind (unit_queue ''inst_column'' nc) (\<lambda>column_q.
     res_bind (unit_queue ''to_icache'' nc) (\<lambda>to_icache.
     res_bind (unit_queue ''from_icache'' nc) (\<lambda>from_icache.
     res_bind (unit_queue ''to_ldst_unit'' nc) (\<lambda>to_ldst.
     res_bind (unit_queue ''to_spad_unit'' nc) (\<lambda>to_spad.
     res_bind (unit_queue ''to_v_ldst_unit'' nc) (\<lambda>to_v_ldst.
     res_bind (unit_queue ''to_v_spad_unit'' nc) (\<lambda>to_v_spad.
     Inr (new_sub_core junk junk_vlmul (nc_core nc) memory stats i sub_core_id column_q to_icache from_icache to_ldst to_spad to_v_ldst
       to_v_spad spads h))))))))"

definition unit_tlb :: "(nat \<Rightarrow> u64 \<times> u64) \<Rightarrow> int \<Rightarrow> unit_config \<Rightarrow> tlb_config \<Rightarrow> tlb res" where
  "unit_tlb junk i nc tc = res_bind (new_tlb junk (word_of_int i) tc) (\<lambda>t. Inr (if nc_ideal_tlb nc then set_ideal_tlb t else t))"

definition new_ndp_unit ::
  "(nat \<Rightarrow> u64 \<times> u64) \<Rightarrow> int \<Rightarrow> ptr fifo_pipeline \<Rightarrow> unit_config \<Rightarrow> MemoryMap \<Rightarrow> ndp_stats \<Rightarrow> int \<Rightarrow> u64 \<Rightarrow> (u64 \<Rightarrow> MemoryMap) \<Rightarrow> mf_store
    \<Rightarrow> u64 set \<Rightarrow> bi_state \<Rightarrow> (u64 \<Rightarrow> ptr option) \<Rightarrow> ndp_unit res" where
  "new_ndp_unit junk junk_vlmul junk_tlb nc memory stats i req_id spads h accessed bi bi_mfs =
     (let n = nat (nc_num_sub_core nc); banks = unat (lc_l2d_num_banks (nc_ldst nc))
      in res_bind (unit_queue ''inst_req'' nc) (\<lambda>inst_req.
         res_bind (unit_queue ''tlb_req'' nc) (\<lambda>tlb_req.
         res_bind (unit_queue ''from_mem'' nc) (\<lambda>from_mem.
         res_bind (unit_queue ''to_mem'' nc) (\<lambda>to_mem.
         res_bind (unit_queue ''to_reg'' nc) (\<lambda>to_reg.
         res_bind (new_fifo_pipeline ''matched_requests'' 0 2048) (\<lambda>matched.
         res_bind (unit_tlb junk i nc (lc_tlb (nc_ldst nc))) (\<lambda>dtlb.
         res_bind (unit_tlb junk i nc (nc_itlb nc)) (\<lambda>itlb.
         res_bind (res_foldl (\<lambda>cores k. res_bind (unit_core junk junk_vlmul nc memory stats i spads h (int k)) (\<lambda>s. Inr (cores @ [s]))) [] [0..<n]) (\<lambda>cores.
         res_bind (new_ldst_unit junk junk_tlb (nc_ldst nc) (word_of_int i) dtlb stats (replicate banks to_mem) (replicate banks from_mem)
             (replicate n to_reg) h bi bi_mfs) (\<lambda>ldst.
         Inr \<lparr>nu_id = i, nu_ldst = ldst, nu_cores = cores, nu_memory = memory, nu_scratchpads = spads,
           nu_generator = new_uthread_generator i req_id, nu_matched = matched, nu_buffer = new_instruction_buffer (nc_inst_buffer_size nc) i,
           nu_itlb = itlb, nu_accessed = accessed, nu_icache = new_cache junk ''l1icache'' (nc_icache nc) (word_of_int i) 0 False,
           nu_icache_queue = new_delay_queue ''l1_icache_queue'' True (sint (lc_request_queue_size (nc_ldst nc))), nu_inst_req = inst_req,
           nu_tlb_req = tlb_req, nu_rr = 0, nu_last_fetched = 0, nu_uthread_count = replicate n 0, nu_cycles = 0\<rparr>)))))))))))"

text \<open>
  The requests, the statistics, the finished contexts and the memories a sub-core works on are those of the unit.
\<close>

definition attach :: "ndp_unit \<Rightarrow> sub_core \<Rightarrow> sub_core" where
  "attach u s =
     s\<lparr>sc_store := ls_store (nu_ldst u), sc_exec := (sc_exec s)\<lparr>eu_stats := ls_stats (nu_ldst u), eu_finished := ls_finished (nu_ldst u),
       eu_memory := nu_memory u, eu_scratchpads := nu_scratchpads u\<rparr>\<rparr>"

definition detach :: "nat \<Rightarrow> sub_core \<Rightarrow> ndp_unit \<Rightarrow> ndp_unit" where
  "detach i s u =
     u\<lparr>nu_cores := (nu_cores u)[i := s], nu_memory := eu_memory (sc_exec s), nu_scratchpads := eu_scratchpads (sc_exec s),
       nu_ldst := (nu_ldst u)\<lparr>ls_store := sc_store s, ls_stats := eu_stats (sc_exec s), ls_finished := eu_finished (sc_exec s)\<rparr>\<rparr>"

definition on_core :: "nat \<Rightarrow> (sub_core \<Rightarrow> sub_core res) \<Rightarrow> ndp_unit \<Rightarrow> ndp_unit res" where
  "on_core i f u =
     (if i < length (nu_cores u) then res_bind (f (attach u (nu_cores u ! i))) (\<lambda>s. Inr (detach i s u)) else Inl Out_Of_Range)"

definition core_at :: "nat \<Rightarrow> ndp_unit \<Rightarrow> sub_core res" where
  "core_at i u = (if i < length (nu_cores u) then Inr (nu_cores u ! i) else Inl Out_Of_Range)"

definition put_core :: "nat \<Rightarrow> sub_core \<Rightarrow> ndp_unit \<Rightarrow> ndp_unit" where
  "put_core i s u = u\<lparr>nu_cores := (nu_cores u)[i := s]\<rparr>"

definition unit_stats :: "(ndp_stats \<Rightarrow> ndp_stats) \<Rightarrow> ndp_unit \<Rightarrow> ndp_unit" where
  "unit_stats g u = u\<lparr>nu_ldst := (nu_ldst u)\<lparr>ls_stats := g (ls_stats (nu_ldst u))\<rparr>\<rparr>"

definition num_banks :: "unit_config \<Rightarrow> nat" where
  "num_banks nc = unat (lc_l2d_num_banks (nc_ldst nc))"

definition unit_bank :: "unit_config \<Rightarrow> u64 \<Rightarrow> nat res" where
  "unit_bank nc addr =
     (if lc_l2d_num_banks (nc_ldst nc) = 0 then Inl Div_By_Zero
      else Inr (unat (get_bank_index (lc_addr (nc_ldst nc)) addr mod ucast (lc_l2d_num_banks (nc_ldst nc)))))"

definition push_to_mem :: "nat \<Rightarrow> ptr \<Rightarrow> ndp_unit \<Rightarrow> (bool \<times> ndp_unit) res" where
  "push_to_mem bank mf u =
     (let l = nu_ldst u
      in if bank < length (ls_to_mem l) then
           if fp_full (ls_to_mem l ! bank) then Inr (False, u)
           else res_bind (fp_push (Some mf) (ls_to_mem l ! bank)) (\<lambda>q.
                Inr (True, u\<lparr>nu_ldst := l\<lparr>ls_to_mem := (ls_to_mem l)[bank := q]\<rparr>\<rparr>))
         else Inl Out_Of_Range)"

section \<open>Finished columns and registers\<close>

text \<open>
  One finished context: a finalizer ends its launch, the launch counts the request, and a context of a sub-core gives its registers
  and its column back. A context without a sub-core, which stands for an empty column, does not.
\<close>

definition finish_one :: "(register_binding \<Rightarrow> register_binding) \<Rightarrow> ndp_unit \<Rightarrow> inst_context \<Rightarrow> ndp_unit res" where
  "finish_one order u c =
     (let r = fc_request_info c; g = nu_generator u;
          g = (if ri_type r = FINALIZER then finish_launch (req_launch r) g else g);
          u = u\<lparr>nu_generator := increase_count (req_launch r) g\<rparr>
      in if fc_sub_core_id c = - 1 then Inr u
         else if fc_sub_core_id c < 0 then Inl Out_Of_Range
         else on_core (nat (fc_sub_core_id c)) (\<lambda>s. free_inst_column (fc_inst_col_id c) (free_rf order (packet_key r) s)) u)"

definition handle_finished_context :: "(register_binding \<Rightarrow> register_binding) \<Rightarrow> ndp_unit \<Rightarrow> ndp_unit res" where
  "handle_finished_context order u =
     res_foldl (finish_one order) (u\<lparr>nu_ldst := (nu_ldst u)\<lparr>ls_finished := []\<rparr>\<rparr>) (ls_finished (nu_ldst u))"

text \<open>
  The loads that came back to a sub-core, with the counts of vector, scalar and floating-point registers. Every round takes an element,
  so as many rounds as the queue has elements are enough.
\<close>

fun drain_regs :: "nat \<Rightarrow> nat \<Rightarrow> u64 \<times> u64 \<times> u64 \<Rightarrow> ndp_unit \<Rightarrow> ((u64 \<times> u64 \<times> u64) \<times> ndp_unit) res" where
  "drain_regs 0 i cnts u = Inr (cnts, u)"
| "drain_regs (Suc n) i (v, x, f) u =
     (let l = nu_ldst u
      in if \<not> i < length (ls_to_reg l) then Inl Out_Of_Range
         else if fp_empty (ls_to_reg l ! i) then Inr ((v, x, f), u)
         else
           res_bind (fp_take (ls_to_reg l ! i)) (\<lambda>(reg, q).
           res_bind (core_at i u) (\<lambda>s.
           let u = put_core i (set_rf_ready reg s) (u\<lparr>nu_ldst := l\<lparr>ls_to_reg := (ls_to_reg l)[i := q]\<rparr>\<rparr>);
               regs = sc_registers s
           in drain_regs n i
                (if IsVreg reg regs then (v + 1, x, f) else if IsXreg reg regs then (v, x + 1, f)
                 else if IsFreg reg regs then (v, x, f + 1) else (v, x, f)) u)))"

definition writeback_core :: "ndp_unit \<Rightarrow> nat \<Rightarrow> ndp_unit res" where
  "writeback_core u i =
     (if \<not> i < length (ls_to_reg (nu_ldst u)) then Inl Out_Of_Range
      else
        res_bind (drain_regs (length (fp_cells (ls_to_reg (nu_ldst u) ! i))) i (0, 0, 0) u) (\<lambda>((v, x, f), u).
        Inr (if fst (ns_max_wb (ls_stats (nu_ldst u))) < v + x + f then unit_stats (set_max_wb_per_cyc (v + x + f) v x f) u else u)))"

definition rf_writeback :: "ndp_unit \<Rightarrow> ndp_unit res" where
  "rf_writeback u = res_foldl writeback_core u [0..<length (nu_cores u)]"

section \<open>Memory answers and instruction fetches\<close>

definition dtlb_ctx :: "ndp_unit \<Rightarrow> tlb_ctx" where
  "dtlb_ctx u = \<lparr>tx_tlb = ls_tlb (nu_ldst u), tx_store = ls_store (nu_ldst u), tx_accessed = nu_accessed u\<rparr>"

definition put_dtlb :: "ndp_unit \<Rightarrow> tlb_ctx \<Rightarrow> ndp_unit" where
  "put_dtlb u x = u\<lparr>nu_ldst := (nu_ldst u)\<lparr>ls_tlb := tx_tlb x, ls_store := tx_store x\<rparr>, nu_accessed := tx_accessed x\<rparr>"

definition itlb_ctx :: "ndp_unit \<Rightarrow> tlb_ctx" where
  "itlb_ctx u = \<lparr>tx_tlb = nu_itlb u, tx_store = ls_store (nu_ldst u), tx_accessed = nu_accessed u\<rparr>"

definition put_itlb :: "ndp_unit \<Rightarrow> tlb_ctx \<Rightarrow> ndp_unit" where
  "put_itlb u x = u\<lparr>nu_itlb := tx_tlb x, nu_ldst := (nu_ldst u)\<lparr>ls_store := tx_store x\<rparr>, nu_accessed := tx_accessed x\<rparr>"

definition icache_ctx :: "ndp_unit \<Rightarrow> cache_ctx" where
  "icache_ctx u = \<lparr>cx_cache = nu_icache u, cx_store = ls_store (nu_ldst u), cx_events = []\<rparr>"

definition put_icache :: "ndp_unit \<Rightarrow> cache_ctx \<Rightarrow> ndp_unit" where
  "put_icache u x = u\<lparr>nu_icache := cx_cache x, nu_ldst := (nu_ldst u)\<lparr>ls_store := cx_store x\<rparr>\<rparr>"

definition pop_from_mem :: "nat \<Rightarrow> ndp_unit \<Rightarrow> ndp_unit res" where
  "pop_from_mem bank u =
     (let l = nu_ldst u
      in res_bind (fp_pop (ls_from_mem l ! bank)) (\<lambda>(_, q).
        Inr (u\<lparr>nu_ldst := l\<lparr>ls_from_mem := (ls_from_mem l)[bank := q]\<rparr>\<rparr>)))"

text \<open>The fill ports are always free. The level-1 instruction cache is filled at the simulation cycle, the TLBs at the cycle of the unit.\<close>

definition from_mem_fill :: "unit_config \<Rightarrow> u64 \<Rightarrow> u64 \<Rightarrow> nat \<Rightarrow> ptr \<Rightarrow> ndp_unit \<Rightarrow> ndp_unit res" where
  "from_mem_fill nc sim_cycle ndp_cycle bank mf u =
     (if tlb_waiting_for_fill mf (ls_tlb (nu_ldst u)) then
        res_bind (tlb_fill (lc_tlb (nc_ldst nc)) ndp_cycle mf (dtlb_ctx u)) (\<lambda>x. pop_from_mem bank (put_dtlb u x))
      else if tlb_waiting_for_fill mf (nu_itlb u) then
        res_bind (tlb_fill (nc_itlb nc) ndp_cycle mf (itlb_ctx u)) (\<lambda>x. pop_from_mem bank (put_itlb u x))
      else if waiting_for_fill mf (nu_icache u) then
        res_bind (cache_fill (nc_icache nc) mf (ucast sim_cycle) (icache_ctx u)) (\<lambda>x. pop_from_mem bank (put_icache u x))
      else res_bind (handle_from_mem (nc_ldst nc) ndp_cycle bank (nu_ldst u)) (\<lambda>l. Inr (u\<lparr>nu_ldst := l\<rparr>)))"

definition from_mem_bank :: "unit_config \<Rightarrow> u64 \<Rightarrow> u64 \<Rightarrow> ndp_unit \<Rightarrow> nat \<Rightarrow> ndp_unit res" where
  "from_mem_bank nc sim_cycle ndp_cycle u bank =
     (if \<not> bank < length (ls_from_mem (nu_ldst u)) then Inl Out_Of_Range
      else if fp_empty (ls_from_mem (nu_ldst u) ! bank) then Inr u
      else
        case fp_top (ls_from_mem (nu_ldst u) ! bank) of
          None \<Rightarrow> Inl Bad_Pointer
        | Some mf \<Rightarrow>
            res_bind (mf_update mf (\<lambda>f. f\<lparr>mf_current_state := ''from mem handle''\<rparr>) (ls_store (nu_ldst u))) (\<lambda>h.
            from_mem_fill nc sim_cycle ndp_cycle bank mf (u\<lparr>nu_ldst := (nu_ldst u)\<lparr>ls_store := h\<rparr>\<rparr>)))"

definition from_mem_handle :: "unit_config \<Rightarrow> u64 \<Rightarrow> u64 \<Rightarrow> ndp_unit \<Rightarrow> ndp_unit res" where
  "from_mem_handle nc sim_cycle ndp_cycle u = res_foldl (from_mem_bank nc sim_cycle ndp_cycle) u [0..<num_banks nc]"

text \<open>The misses of the level-1 instruction cache go through the instruction TLB to the memory.\<close>

definition icache_to_tlb :: "unit_config \<Rightarrow> ndp_unit \<Rightarrow> ndp_unit res" where
  "icache_to_tlb nc u =
     (if fp_empty (nu_inst_req u) then Inr u
      else
        res_bind (fp_take (nu_inst_req u)) (\<lambda>(mf, q).
        res_bind (tlb_access (nc_itlb nc) mf (nu_itlb u)) (\<lambda>t. Inr (u\<lparr>nu_itlb := t, nu_inst_req := q\<rparr>))))"

definition itlb_to_mem :: "unit_config \<Rightarrow> ndp_unit \<Rightarrow> (Status list \<times> ndp_unit) res" where
  "itlb_to_mem nc u =
     (if tlb_data_ready (nu_itlb u) then
        case tlb_get_data (nu_itlb u) of
          None \<Rightarrow> Inl Bad_Pointer
        | Some mf \<Rightarrow>
            res_bind (mf_get (ls_store (nu_ldst u)) mf) (\<lambda>f.
            res_bind (unit_bank nc (mf_addr f)) (\<lambda>bank.
            res_bind (push_to_mem bank mf u) (\<lambda>(sent, u).
            if sent then res_bind (tlb_pop_data (nu_itlb u)) (\<lambda>t. Inr ([], u\<lparr>nu_itlb := t\<rparr>))
            else Inr ([TO_MEM_FULL], u))))
      else Inr ([], u))"

definition push_from_icache :: "nat \<Rightarrow> ptr \<Rightarrow> ndp_unit \<Rightarrow> (bool \<times> ndp_unit) res" where
  "push_from_icache i mf u =
     res_bind (core_at i u) (\<lambda>s.
       if fp_full (sc_from_icache s) then Inr (False, u)
       else res_bind (fp_push (Some mf) (sc_from_icache s)) (\<lambda>q. Inr (True, put_core i (s\<lparr>sc_from_icache := q\<rparr>) u)))"

definition pop_icache_queue :: "ndp_unit \<Rightarrow> ndp_unit res" where
  "pop_icache_queue u = res_bind (dq_pop (nu_icache_queue u)) (\<lambda>q. Inr (u\<lparr>nu_icache_queue := q\<rparr>))"

definition icache_round :: "unit_config \<Rightarrow> u64 \<Rightarrow> Status list \<times> ndp_unit \<Rightarrow> nat \<Rightarrow> (Status list \<times> ndp_unit) res" where
  "icache_round nc ndp_cycle = (\<lambda>(reasons, u) _.
     if dq_empty (nu_icache_queue u) then Inr (reasons, u)
     else
       res_bind (dq_top (nu_icache_queue u)) (\<lambda>mf.
       res_bind (mf_get (ls_store (nu_ldst u)) mf) (\<lambda>f.
       res_bind (read_only_access (nc_icache nc) (mf_addr f) (ucast ndp_cycle) mf (icache_ctx u)) (\<lambda>(status, x).
       let u = put_icache u x
       in if status = HIT then
            res_bind (push_from_icache (unat (mf_sub_core_id f)) mf u) (\<lambda>(sent, u).
            if sent then res_bind (pop_icache_queue u) (\<lambda>u. Inr (reasons, u)) else Inr (reasons @ [FROM_ICACHE_FULL], u))
          else if status \<noteq> RESERVATION_FAIL then res_bind (pop_icache_queue u) (\<lambda>u. Inr (reasons, u))
          else Inr (reasons, u)))))"

definition icache_answer :: "Status list \<times> ndp_unit \<Rightarrow> nat \<Rightarrow> (Status list \<times> ndp_unit) res" where
  "icache_answer = (\<lambda>(reasons, u) _.
     if ms_access_ready (ca_mshrs (nu_icache u)) then
       res_bind (ms_top_next_access (ca_mshrs (nu_icache u))) (\<lambda>mf.
       res_bind (mf_get (ls_store (nu_ldst u)) mf) (\<lambda>f.
       res_bind (push_from_icache (unat (mf_sub_core_id f)) mf u) (\<lambda>(sent, u).
       if sent then res_bind (cache_pop_next_access (nu_icache u)) (\<lambda>(_, c). Inr (reasons, u\<lparr>nu_icache := c\<rparr>))
       else Inr (reasons @ [FROM_ICACHE_FULL], u))))
     else Inr (reasons, u))"

definition l1_inst_cache_cycle :: "unit_config \<Rightarrow> u64 \<Rightarrow> ndp_unit \<Rightarrow> ndp_unit res" where
  "l1_inst_cache_cycle nc ndp_cycle u =
     res_bind (cache_cycle (nu_icache u) (nu_inst_req u)) (\<lambda>(c, q).
     let u = u\<lparr>nu_icache := c, nu_inst_req := q, nu_icache_queue := dq_tick (nu_icache_queue u)\<rparr>; cores = [0..<length (nu_cores u)]
     in res_bind (icache_to_tlb nc u) (\<lambda>u.
        res_bind (itlb_to_mem nc u) (\<lambda>(reasons, u).
        res_bind (res_foldl (icache_round nc ndp_cycle) (reasons, u) cores) (\<lambda>(reasons, u).
        res_bind (res_foldl icache_answer (reasons, u) cores) (\<lambda>(reasons, u).
        Inr (unit_stats (add_status_list reasons) u))))))"

definition to_l1_inst_cache :: "unit_config \<Rightarrow> ndp_unit \<Rightarrow> ndp_unit res" where
  "to_l1_inst_cache nc u =
     res_foldl (\<lambda>u i.
         res_bind (core_at i u) (\<lambda>s.
         if fp_empty (sc_to_icache s) then Inr u
         else
           case fp_top (sc_to_icache s) of
             None \<Rightarrow> Inl Bad_Pointer
           | Some mf \<Rightarrow>
               if dq_full (nu_icache_queue u) then Inr u
               else
                 res_bind (dq_push mf (nc_l1icache_hit_latency nc) (nu_icache_queue u)) (\<lambda>d.
                 res_bind (fp_pop (sc_to_icache s)) (\<lambda>(_, q). Inr (put_core i (s\<lparr>sc_to_icache := q\<rparr>) (u\<lparr>nu_icache_queue := d\<rparr>))))))
       u [0..<length (nu_cores u)]"

definition tlb_bank_round :: "unit_config \<Rightarrow> u64 \<Rightarrow> Status list \<times> ndp_unit \<Rightarrow> nat \<Rightarrow> (Status list \<times> ndp_unit) res" where
  "tlb_bank_round nc ndp_cycle = (\<lambda>(reasons, u) bank.
     res_bind (bank_access_cycle (lc_tlb (nc_ldst nc)) ndp_cycle (dtlb_ctx u)) (\<lambda>x.
     let u = put_dtlb u x
     in if fp_empty (nu_tlb_req u) then Inr (reasons, u)
        else
          case fp_top (nu_tlb_req u) of
            None \<Rightarrow> Inl Bad_Pointer
          | Some mf \<Rightarrow>
              res_bind (mf_get (ls_store (nu_ldst u)) mf) (\<lambda>f.
              res_bind (unit_bank nc (mf_addr f)) (\<lambda>target.
              if bank \<noteq> target then Inr (reasons, u)
              else
                res_bind (push_to_mem bank mf u) (\<lambda>(sent, u).
                if sent then res_bind (fp_pop (nu_tlb_req u)) (\<lambda>(_, q). Inr (reasons, u\<lparr>nu_tlb_req := q\<rparr>))
                else Inr (reasons @ [TO_MEM_FULL], u))))))"

definition unit_tlb_cycle :: "unit_config \<Rightarrow> u64 \<Rightarrow> ndp_unit \<Rightarrow> ndp_unit res" where
  "unit_tlb_cycle nc ndp_cycle u =
     res_bind (res_foldl (tlb_bank_round nc ndp_cycle) ([], u) [0..<num_banks nc]) (\<lambda>(reasons, u).
     let u = unit_stats (add_status_list reasons) u
     in res_bind (tlb_cycle (ls_tlb (nu_ldst u)) (nu_tlb_req u)) (\<lambda>(t, q).
        let u = u\<lparr>nu_ldst := (nu_ldst u)\<lparr>ls_tlb := t\<rparr>, nu_tlb_req := q\<rparr>
        in res_bind (bank_access_cycle (nc_itlb nc) ndp_cycle (itlb_ctx u)) (\<lambda>x.
           let u = put_itlb u x
           in res_bind (tlb_cycle (nu_itlb u) (nu_tlb_req u)) (\<lambda>(t, q). Inr (u\<lparr>nu_itlb := t, nu_tlb_req := q\<rparr>)))))"

section \<open>Connections\<close>

text \<open>One of the four queues of a sub-core to the load-store unit.\<close>

definition connect_queue ::
  "unit_config \<Rightarrow> nat \<Rightarrow> Status list \<times> ndp_unit
    \<Rightarrow> (exec_unit \<Rightarrow> exec_op fifo_pipeline) \<times> (exec_op fifo_pipeline \<Rightarrow> exec_unit \<Rightarrow> exec_unit) \<times> bool
    \<Rightarrow> (Status list \<times> ndp_unit) res" where
  "connect_queue nc i = (\<lambda>(reasons, u) (get, put, spad_op).
     res_bind (core_at i u) (\<lambda>s.
     if fp_empty (get (sc_exec s)) then Inr (reasons, u)
     else
       case fp_top (get (sc_exec s)) of
         None \<Rightarrow> Inl Bad_Pointer
       | Some op \<Rightarrow>
           res_bind (issue_ldst_unit (nc_ldst nc) op spad_op (nu_ldst u)) (\<lambda>(st, l).
           let u = u\<lparr>nu_ldst := l\<rparr>
           in if st = ISSUE_SUCCESS then
                res_bind (fp_pop (get (sc_exec s))) (\<lambda>(_, q). Inr (reasons, put_core i (s\<lparr>sc_exec := put q (sc_exec s)\<rparr>) u))
              else Inr (reasons @ [st], u))))"

definition ldst_queues :: "((exec_unit \<Rightarrow> exec_op fifo_pipeline) \<times> (exec_op fifo_pipeline \<Rightarrow> exec_unit \<Rightarrow> exec_unit) \<times> bool) list" where
  "ldst_queues =
     [(eu_to_ldst, \<lambda>q. eu_to_ldst_update (\<lambda>_. q), False), (eu_to_spad, \<lambda>q. eu_to_spad_update (\<lambda>_. q), True),
      (eu_to_v_ldst, \<lambda>q. eu_to_v_ldst_update (\<lambda>_. q), False), (eu_to_v_spad, \<lambda>q. eu_to_v_spad_update (\<lambda>_. q), True)]"

definition connect_to_ldst_unit :: "unit_config \<Rightarrow> ndp_unit \<Rightarrow> ndp_unit res" where
  "connect_to_ldst_unit nc u =
     (let n = length (nu_cores u)
      in if n = 0 then Inl Div_By_Zero
         else
           res_bind (res_foldl (\<lambda>s iter. res_foldl (connect_queue nc ((nu_rr u + iter) mod n)) s ldst_queues) ([], u) [0..<n]) (\<lambda>(reasons, u).
           Inr ((unit_stats (add_status_list reasons) u)\<lparr>nu_rr := (nu_rr u + 1) mod n\<rparr>)))"

text \<open>
  The loop that hands the first column of the buffer to a sub-core; it stops at the first sub-core that takes it. A sub-core whose queue
  is empty may start as many columns as it has slots.
\<close>

fun offer_column :: "unit_config \<Rightarrow> nat list \<Rightarrow> ndp_unit \<Rightarrow> ndp_unit res" where
  "offer_column nc [] u = Inr u"
| "offer_column nc (i # js) u =
     res_bind (core_at i u) (\<lambda>s.
     let cnt = (if is_inst_queue_empty s then qc_uthread_slots (sg_queue (nc_core nc)) else nu_uthread_count u ! i);
         u = u\<lparr>nu_uthread_count := (nu_uthread_count u)[i := cnt]\<rparr>
     in if fp_full (sc_column_q s) then offer_column nc js (unit_stats inc_inst_column_q_full u)
        else if 0 < cnt then
          res_bind (ib_top (nu_buffer u)) (\<lambda>c.
          res_bind (fp_push (Some c) (sc_column_q s)) (\<lambda>q.
          res_bind (ib_pop (nu_buffer u)) (\<lambda>(_, b).
          Inr ((put_core i (s\<lparr>sc_column_q := q\<rparr>) u)\<lparr>nu_buffer := b, nu_last_fetched := i,
            nu_uthread_count := (nu_uthread_count u)[i := (if nc_sub_core_coarse_grained nc then cnt - 1 else cnt)]\<rparr>))))
        else offer_column nc js u)"

definition connect_instruction_buffer_to_sub_core :: "unit_config \<Rightarrow> ndp_unit \<Rightarrow> ndp_unit res" where
  "connect_instruction_buffer_to_sub_core nc u =
     (let n = length (nu_cores u)
      in if \<not> can_pop (nu_buffer u) then Inr u
         else offer_column nc (map (\<lambda>i. (nu_last_fetched u + 1 + i) mod n) [0..<n]) u)"

definition request_instruction_lookup :: "ndp_unit \<Rightarrow> ndp_unit res" where
  "request_instruction_lookup u =
     (if fp_empty (nu_matched u) \<or> \<not> can_push_request (nu_buffer u) then Inr u
      else
        res_bind (fp_take (nu_matched u)) (\<lambda>(r, q).
        res_bind (ib_push r (nu_buffer u)) (\<lambda>b. Inr (u\<lparr>nu_matched := q, nu_buffer := b\<rparr>))))"

section \<open>The cycle\<close>

definition cores_cycle :: "exec_env \<Rightarrow> inst_context \<Rightarrow> unit_config \<Rightarrow> u64 \<Rightarrow> ndp_unit \<Rightarrow> (bool \<times> ndp_unit) res" where
  "cores_cycle e junk nc ndp_cycle u =
     res_foldl (\<lambda>(all_empty, u) i.
         res_bind (on_core i (sub_core_cycle e junk (nc_core nc) ndp_cycle) u) (\<lambda>u.
         res_bind (core_at i u) (\<lambda>s. Inr (all_empty \<and> is_inst_queue_empty s, u))))
       (True, u) [0..<length (nu_cores u)]"

definition unit_generate :: "nat \<Rightarrow> ndp_unit \<Rightarrow> ndp_unit res" where
  "unit_generate n u =
     res_bind (generate_uthreads n False (nu_generator u, nu_matched u)) (\<lambda>(_, g, q). Inr (u\<lparr>nu_generator := g, nu_matched := q\<rparr>))"

text \<open>In the coarse-grained mode new requests are made when all sub-cores are out of columns.\<close>

definition unit_refill :: "unit_config \<Rightarrow> bool \<Rightarrow> ndp_unit \<Rightarrow> ndp_unit res" where
  "unit_refill nc all_empty u =
     (if all_empty \<and> uc_coarse_grained (nc_uthread nc)
      then unit_generate (nat (qc_uthread_slots (sg_queue (nc_core nc)) * int (length (nu_cores u)))) u
      else Inr u)"

definition ndp_unit_cycle ::
  "exec_env \<Rightarrow> (register_binding \<Rightarrow> register_binding) \<Rightarrow> inst_context \<Rightarrow> unit_config \<Rightarrow> u64 \<Rightarrow> u64 \<Rightarrow> ndp_unit \<Rightarrow> ndp_unit res" where
  "ndp_unit_cycle e order junk nc sim_cycle ndp_cycle u =
     res_bind (handle_finished_context order u) (\<lambda>u.
     res_bind (rf_writeback u) (\<lambda>u.
     res_bind (from_mem_handle nc sim_cycle ndp_cycle u) (\<lambda>u.
     res_bind (l1_inst_cache_cycle nc ndp_cycle u) (\<lambda>u.
     res_bind (to_l1_inst_cache nc u) (\<lambda>u.
     res_bind (unit_tlb_cycle nc ndp_cycle u) (\<lambda>u.
     res_bind (ldst_cycle (nc_ldst nc) ndp_cycle (nu_ldst u)) (\<lambda>l.
     res_bind (connect_to_ldst_unit nc (u\<lparr>nu_ldst := l\<rparr>)) (\<lambda>u.
     res_bind (cores_cycle e junk nc ndp_cycle u) (\<lambda>(all_empty, u).
     res_bind (unit_refill nc all_empty u) (\<lambda>u.
     res_bind (connect_instruction_buffer_to_sub_core nc u) (\<lambda>u.
     res_bind (request_instruction_lookup u) (\<lambda>u.
     res_bind (ug_cycle (nc_uthread nc) (nu_generator u, nu_matched u)) (\<lambda>(g, q).
     res_bind (ib_cycle (nu_buffer u)) (\<lambda>b.
     Inr (unit_stats inc_cycle (u\<lparr>nu_generator := g, nu_matched := q, nu_buffer := b, nu_cycles := nu_cycles u + 1\<rparr>))))))))))))))))"

section \<open>What the device calls\<close>

definition push_from_mem :: "ptr \<Rightarrow> nat \<Rightarrow> ndp_unit \<Rightarrow> ndp_unit res" where
  "push_from_mem mf bank u =
     (let l = nu_ldst u
      in if bank < length (ls_from_mem l) then
           res_bind (fp_push (Some mf) (ls_from_mem l ! bank)) (\<lambda>q. Inr (u\<lparr>nu_ldst := l\<lparr>ls_from_mem := (ls_from_mem l)[bank := q]\<rparr>\<rparr>))
         else Inl Out_Of_Range)"

definition pop_to_mem :: "nat \<Rightarrow> ndp_unit \<Rightarrow> ndp_unit res" where
  "pop_to_mem bank u =
     (let l = nu_ldst u
      in if bank < length (ls_to_mem l) then
           res_bind (fp_pop (ls_to_mem l ! bank)) (\<lambda>(_, q). Inr (u\<lparr>nu_ldst := l\<lparr>ls_to_mem := (ls_to_mem l)[bank := q]\<rparr>\<rparr>))
         else Inl Out_Of_Range)"

definition from_mem_full :: "nat \<Rightarrow> ndp_unit \<Rightarrow> bool res" where
  "from_mem_full bank u = (if bank < length (ls_from_mem (nu_ldst u)) then Inr (fp_full (ls_from_mem (nu_ldst u) ! bank)) else Inl Out_Of_Range)"

definition top_to_mem :: "nat \<Rightarrow> ndp_unit \<Rightarrow> ptr option res" where
  "top_to_mem bank u = (if bank < length (ls_to_mem (nu_ldst u)) then Inr (fp_top (ls_to_mem (nu_ldst u) ! bank)) else Inl Out_Of_Range)"

definition to_mem_empty :: "nat \<Rightarrow> ndp_unit \<Rightarrow> bool res" where
  "to_mem_empty bank u = (if bank < length (ls_to_mem (nu_ldst u)) then Inr (fp_empty (ls_to_mem (nu_ldst u) ! bank)) else Inl Out_Of_Range)"

definition unit_launch_active :: "int \<Rightarrow> ndp_unit \<Rightarrow> bool" where
  "unit_launch_active launch_id u \<longleftrightarrow> is_launch_active launch_id (nu_generator u)"

definition nu_is_active :: "unit_config \<Rightarrow> ndp_unit \<Rightarrow> bool" where
  "nu_is_active nc u \<longleftrightarrow>
     ls_finished (nu_ldst u) \<noteq> [] \<or> (\<exists>i\<in>set [0..<num_banks nc]. \<not> fp_empty (ls_to_mem (nu_ldst u) ! i) \<or> \<not> fp_empty (ls_from_mem (nu_ldst u) ! i)) \<or>
     (\<exists>s\<in>set (nu_cores u). sc_is_active s) \<or> is_active (nu_generator u) \<or> ldst_active (nu_ldst u) \<or> \<not> fp_empty (nu_inst_req u) \<or>
     \<not> fp_empty (nu_tlb_req u) \<or> \<not> fp_empty (nu_matched u)"

definition register_ndp_kernel :: "ndp_kernel \<Rightarrow> ndp_unit \<Rightarrow> ndp_unit res" where
  "register_ndp_kernel k u =
     res_bind (assert_that (can_register (nu_buffer u)) ''can_register()'') (\<lambda>_.
     res_bind (register_kernel k (nu_buffer u)) (\<lambda>b.
     Inr (u\<lparr>nu_buffer := b, nu_generator := ug_register_kernel k (nu_generator u)\<rparr>)))"

text \<open>
  The launch: the scratchpad of the launch is made and, for a registered kernel, filled with the arguments; the first-level cache is resized
  to what the scratchpads leave. The result has the new configuration.
\<close>

definition launch_spad :: "uthread_config \<Rightarrow> launch_info \<Rightarrow> kernel_args \<Rightarrow> uthread_generator \<Rightarrow> hash_memory_map res" where
  "launch_spad uc li ka g =
     (if li_smem_size li \<le> word_of_int (uc_spad_size uc) \<and> li_size li mod 32 = 0 \<and> li_kernel_id li \<in> ug_registered g
      then launch_scratchpad ka (li_smem_size li)
      else Inr (new_hash_memory_map SCRATCHPAD_BASE (li_smem_size li)))"

definition launch_ndp_kernel :: "unit_config \<Rightarrow> launch_info \<Rightarrow> kernel_args \<Rightarrow> ndp_unit \<Rightarrow> (unit_config \<times> ndp_unit) res" where
  "launch_ndp_kernel nc li ka u =
     res_bind (launch_spad (nc_uthread nc) li ka (nu_generator u)) (\<lambda>m.
     res_bind (launch (nc_uthread nc) li (nu_generator u)) (\<lambda>g.
     let (sz, g) = get_allocated_spad_size g
     in res_bind (set_l1d_size (nc_ldst nc) (sint sz)) (\<lambda>lc.
        Inr (nc\<lparr>nc_ldst := lc\<rparr>, u\<lparr>nu_generator := g, nu_scratchpads := (nu_scratchpads u)(word_of_int (li_launch_id li) := Hash_Map m)\<rparr>))))"

text \<open>Collecting the statistics of the parts; the sums over the sub-cores start from zero.\<close>

definition unit_get_stats :: "ndp_unit \<Rightarrow> ndp_stats \<times> ndp_unit" where
  "unit_get_stats u =
     (let u' = unit_stats (\<lambda>ns. ns\<lparr>ns_itlb := ca_stats (tl_cache (nu_itlb u)), ns_dtlb := ca_stats (tl_cache (ls_tlb (nu_ldst u))),
            ns_icache := ca_stats (nu_icache u), ns_l1d := get_l1d_stats (nu_ldst u),
            ns_register := foldl (\<lambda>r s. register_stats_plus r (ru_stats (sc_registers s))) (\<lambda>_. 0) (nu_cores u),
            ns_l0_icache := foldl (\<lambda>r s. stats_add r (ca_stats (sc_cache s))) new_cache_stats (nu_cores u)\<rparr>) u
      in (ls_stats (nu_ldst u'), u'))"

definition print_ndp_stats :: "ndp_unit \<Rightarrow> ndp_unit" where
  "print_ndp_stats u = u\<lparr>nu_cores := map print_sub_core_stats (nu_cores u)\<rparr>"

section \<open>Sub-cores of a unit\<close>

text \<open>Steps that keep the invariant of a sub-core and do not give it a column whose packet already has registers.\<close>

definition core_keeps :: "sub_core \<Rightarrow> sub_core \<Rightarrow> bool" where
  "core_keeps s s' \<longleftrightarrow> (\<forall>sg. sc_inv sg s \<longrightarrow> sc_inv sg s') \<and> (fresh_column s \<longrightarrow> fresh_column s')"

definition unit_keeps :: "ndp_unit \<Rightarrow> ndp_unit \<Rightarrow> bool" where
  "unit_keeps u u' \<longleftrightarrow> list_all2 core_keeps (nu_cores u) (nu_cores u')"

locale step_order =
  fixes R :: "'s \<Rightarrow> 's \<Rightarrow> bool"
  assumes refl: "R s s"
    and trans: "R s s' \<Longrightarrow> R s' s'' \<Longrightarrow> R s s''"
begin

lemma fold_step:
  assumes "res_foldl f s xs = Inr s'" "\<And>s x s'. x \<in> set xs \<Longrightarrow> f s x = Inr s' \<Longrightarrow> R s s'"
  shows "R s s'"
  using assms
proof (induction xs arbitrary: s)
  case (Cons x xs)
  then obtain s1 where "f s x = Inr s1" "res_foldl f s1 xs = Inr s'"
    by (auto simp: res_simps)
  then show ?case
    using Cons.IH [of s1] Cons.prems(2) trans by (metis list.set_intros)
qed (simp add: refl)

lemma fold_snd:
  assumes "res_foldl f (a, s) xs = Inr (b, s')" "\<And>a s x b s'. x \<in> set xs \<Longrightarrow> f (a, s) x = Inr (b, s') \<Longrightarrow> R s s'"
  shows "R s s'"
  using assms
proof (induction xs arbitrary: a s)
  case (Cons x xs)
  then obtain a1 s1 where "f (a, s) x = Inr (a1, s1)" "res_foldl f (a1, s1) xs = Inr (b, s')"
    by (auto simp: res_simps)
  then show ?case
    using Cons.IH [of a1 s1] Cons.prems(2) trans by (metis list.set_intros)
qed (simp add: refl)

end

lemma core_keeps_refl [simp]: "core_keeps s s"
  by (simp add: core_keeps_def)

interpretation kept: step_order unit_keeps
proof
  show "unit_keeps u u" for u
    by (simp add: unit_keeps_def list.rel_refl)
  show "unit_keeps u u''" if "unit_keeps u u'" "unit_keeps u' u''" for u u' u''
    using that unfolding unit_keeps_def by (rule list_all2_trans [rotated]) (auto simp: core_keeps_def)
qed

lemma kept_cores: "nu_cores u' = nu_cores u \<Longrightarrow> unit_keeps u u'"
  by (simp add: unit_keeps_def list.rel_refl)

lemma core_exchange:
  assumes "sc_queue s' = sc_queue s" "eu_regs (sc_exec s') = eu_regs (sc_exec s)" "sc_column_q s' = sc_column_q s"
  shows "core_keeps s s'"
  using assms by (auto simp: core_keeps_def sc_inv_def sc_registers_def fresh_column_def split: option.splits)

lemma core_keeps_trans: "core_keeps s s' \<Longrightarrow> core_keeps s' s'' \<Longrightarrow> core_keeps s s''"
  by (simp add: core_keeps_def)

lemma put_core_kept:
  assumes "core_at i u = Inr s" "core_keeps s s'" "nu_cores w = nu_cores u"
  shows "unit_keeps u (put_core i s' w)"
  using assms by (auto simp: unit_keeps_def put_core_def core_at_def list_all2_conv_all_nth nth_list_update split: if_splits)

lemma on_core_kept:
  assumes "on_core i f u = Inr u'" "\<And>s s'. f s = Inr s' \<Longrightarrow> core_keeps s s'"
  shows "unit_keeps u u'"
proof -
  obtain s where i: "i < length (nu_cores u)" and s: "f (attach u (nu_cores u ! i)) = Inr s" and u': "u' = detach i s u"
    using assms(1) by (auto simp: on_core_def res_simps split: if_splits)
  have "core_keeps (nu_cores u ! i) (attach u (nu_cores u ! i))"
    by (rule core_exchange) (simp_all add: attach_def)
  then have "core_keeps (nu_cores u ! i) s"
    using assms(2) [OF s] core_keeps_trans by blast
  then show ?thesis
    using i by (auto simp: u' unit_keeps_def detach_def list_all2_conv_all_nth nth_list_update)
qed

section \<open>The steps before the sub-cores run\<close>

lemma free_rf_kept:
  assumes "\<And>b. mset (order b) = mset b"
  shows "core_keeps s (free_rf order key s)"
proof -
  have "ru_x (foldl release_v u bs) = ru_x u" for u :: "u32 register_unit" and bs
    by (induction bs arbitrary: u) (auto simp: release_v_def Let_def)
  then show ?thesis
    using FreeRegs_inv [OF _ assms]
    by (auto simp: core_keeps_def free_rf_def sc_inv_def upd_registers_def upd_unit_def sc_registers_def fresh_column_def FreeRegs_def Let_def
        rf_release_def delete_conv split: prod.splits option.splits)
qed

lemma free_inst_column_kept: "free_inst_column col s = Inr s' \<Longrightarrow> core_keeps s s'"
  using finish_inv by (auto simp: free_inst_column_def core_keeps_def sc_inv_def sc_registers_def fresh_column_def res_simps split: prod.splits option.splits)

lemma set_rf_ready_kept: "core_keeps s (set_rf_ready reg s)"
  by (auto simp: core_keeps_def set_rf_ready_def sc_inv_def upd_registers_def upd_unit_def sc_registers_def SetReady_def ru_inv_def fresh_column_def
      split: prod.splits option.splits)

lemma finish_one_kept:
  assumes "finish_one order u c = Inr u'" "\<And>b. mset (order b) = mset b"
  shows "unit_keeps u u'"
proof (cases "fc_sub_core_id c = - 1")
  case True
  then show ?thesis
    using assms(1) by (auto simp: finish_one_def Let_def intro: kept_cores)
next
  case False
  then obtain g where "on_core (nat (fc_sub_core_id c)) (\<lambda>s. free_inst_column (fc_inst_col_id c) (free_rf order (packet_key (fc_request_info c)) s)) (u\<lparr>nu_generator := g\<rparr>) = Inr u'"
    using assms(1) by (auto simp: finish_one_def Let_def split: if_splits)
  then have "unit_keeps (u\<lparr>nu_generator := g\<rparr>) u'"
    by (rule on_core_kept) (blast intro: core_keeps_trans free_rf_kept [OF assms(2)] free_inst_column_kept)
  then show ?thesis
    by (simp add: unit_keeps_def)
qed

lemma handle_finished_context_kept:
  assumes "handle_finished_context order u = Inr u'" "\<And>b. mset (order b) = mset b"
  shows "unit_keeps u u'"
proof -
  have "unit_keeps (u\<lparr>nu_ldst := (nu_ldst u)\<lparr>ls_finished := []\<rparr>\<rparr>) u'"
    using assms(1) unfolding handle_finished_context_def by (rule kept.fold_step) (rule finish_one_kept [OF _ assms(2)])
  then show ?thesis
    by (simp add: unit_keeps_def)
qed

lemma drain_regs_kept: "drain_regs n i cnts u = Inr (cnts', u') \<Longrightarrow> unit_keeps u u'"
proof (induction n arbitrary: cnts u)
  case (Suc n)
  obtain v x f where cnts: "cnts = (v, x, f)"
    by (cases cnts)
  show ?case
  proof (cases "i < length (ls_to_reg (nu_ldst u)) \<and> \<not> fp_empty (ls_to_reg (nu_ldst u) ! i)")
    case True
    then obtain reg q s where s: "fp_take (ls_to_reg (nu_ldst u) ! i) = Inr (reg, q)" "core_at i u = Inr s"
      using Suc.prems cnts by (auto simp: res_simps Let_def)
    let ?u = "put_core i (set_rf_ready reg s) (u\<lparr>nu_ldst := (nu_ldst u)\<lparr>ls_to_reg := (ls_to_reg (nu_ldst u))[i := q]\<rparr>\<rparr>)"
    have go: "drain_regs n i
        (if IsVreg reg (sc_registers s) then (v + 1, x, f) else if IsXreg reg (sc_registers s) then (v, x + 1, f)
         else if IsFreg reg (sc_registers s) then (v, x, f + 1) else (v, x, f)) ?u = Inr (cnts', u')"
      using Suc.prems cnts True s by (simp add: Let_def)
    have "unit_keeps u ?u"
      using s(2) set_rf_ready_kept by (rule put_core_kept) simp
    then show ?thesis
      using Suc.IH [OF go] kept.trans by blast
  qed (use Suc.prems cnts in \<open>auto simp: Let_def kept.refl split: if_splits\<close>)
qed (simp add: kept.refl)

lemma rf_writeback_kept: "rf_writeback u = Inr u' \<Longrightarrow> unit_keeps u u'"
  unfolding rf_writeback_def
proof (erule kept.fold_step)
  show "unit_keeps u u'" if "writeback_core u i = Inr u'" for u i u'
    using that by (auto simp: writeback_core_def res_simps unit_stats_def unit_keeps_def split: if_splits dest!: drain_regs_kept)
qed

lemma cores_frame [simp]:
  "nu_cores (put_dtlb u x) = nu_cores u" "nu_cores (put_itlb u x) = nu_cores u" "nu_cores (put_icache u c) = nu_cores u"
  "nu_cores (unit_stats g u) = nu_cores u"
  by (simp_all add: put_dtlb_def put_itlb_def put_icache_def unit_stats_def)

lemma pop_from_mem_cores: "pop_from_mem bank u = Inr u' \<Longrightarrow> nu_cores u' = nu_cores u"
  by (auto simp: pop_from_mem_def Let_def res_simps)

lemma push_to_mem_cores: "push_to_mem bank mf u = Inr (b, u') \<Longrightarrow> nu_cores u' = nu_cores u"
  by (auto simp: push_to_mem_def Let_def res_simps split: if_splits)

lemma from_mem_fill_cores: "from_mem_fill nc t t' bank mf u = Inr u' \<Longrightarrow> nu_cores u' = nu_cores u"
  by (auto simp: from_mem_fill_def res_simps dest!: pop_from_mem_cores split: if_split_asm)

lemma from_mem_bank_cores: "from_mem_bank nc t t' u i = Inr u' \<Longrightarrow> nu_cores u' = nu_cores u"
  by (auto simp: from_mem_bank_def res_simps dest!: from_mem_fill_cores split: if_split_asm option.split_asm)

lemma from_mem_handle_kept: "from_mem_handle nc t t' u = Inr u' \<Longrightarrow> unit_keeps u u'"
  unfolding from_mem_handle_def by (erule kept.fold_step) (rule kept_cores [OF from_mem_bank_cores])

lemma icache_to_tlb_cores: "icache_to_tlb nc u = Inr u' \<Longrightarrow> nu_cores u' = nu_cores u"
  by (auto simp: icache_to_tlb_def res_simps split: if_split_asm)

lemma itlb_to_mem_cores: "itlb_to_mem nc u = Inr (rs, u') \<Longrightarrow> nu_cores u' = nu_cores u"
  by (auto simp: itlb_to_mem_def res_simps dest!: push_to_mem_cores split: if_split_asm option.split_asm)

lemma push_from_icache_kept: "push_from_icache i mf u = Inr (b, u') \<Longrightarrow> unit_keeps u u'"
  by (auto simp: push_from_icache_def res_simps kept.refl split: if_split_asm intro!: put_core_kept core_exchange)

lemma pop_icache_queue_cores: "pop_icache_queue u = Inr u' \<Longrightarrow> nu_cores u' = nu_cores u"
  by (auto simp: pop_icache_queue_def res_simps)

lemma unit_keeps_cong: "nu_cores w = nu_cores u \<Longrightarrow> nu_cores w' = nu_cores u' \<Longrightarrow> unit_keeps w w' \<Longrightarrow> unit_keeps u u'"
  by (simp add: unit_keeps_def)

lemma icache_round_kept:
  assumes "icache_round nc t (rs, u) i = Inr (rs', u')"
  shows "unit_keeps u u'"
proof (cases "dq_empty (nu_icache_queue u)")
  case False
  then obtain x b k mf where "nu_cores u' = nu_cores u \<or> (\<exists>w. push_from_icache k mf (put_icache u x) = Inr (b, w) \<and> nu_cores u' = nu_cores w)"
    using assms by (fastforce simp: icache_round_def res_simps Let_def dest: pop_icache_queue_cores split: if_split_asm)
  then show ?thesis
    using kept_cores unit_keeps_cong [OF cores_frame(3) refl] push_from_icache_kept by (metis cores_frame(3) unit_keeps_cong)
qed (use assms in \<open>simp add: icache_round_def kept.refl\<close>)

lemma icache_answer_kept: "icache_answer (rs, u) i = Inr (rs', u') \<Longrightarrow> unit_keeps u u'"
  by (auto simp: icache_answer_def res_simps kept.refl dest!: push_from_icache_kept intro: unit_keeps_cong split: if_split_asm)

lemma l1_inst_cache_cycle_kept:
  assumes "l1_inst_cache_cycle nc t u = Inr u'"
  shows "unit_keeps u u'"
proof -
  obtain c q u1 rs u2 rs' u3 rs'' u4 where s: "icache_to_tlb nc (u\<lparr>nu_icache := c, nu_inst_req := q, nu_icache_queue := dq_tick (nu_icache_queue u)\<rparr>) = Inr u1"
    "itlb_to_mem nc u1 = Inr (rs, u2)"
    "res_foldl (icache_round nc t) (rs, u2) [0..<length (nu_cores u)] = Inr (rs', u3)"
    "res_foldl icache_answer (rs', u3) [0..<length (nu_cores u)] = Inr (rs'', u4)"
    "u' = unit_stats (add_status_list rs'') u4"
    using assms unfolding l1_inst_cache_cycle_def Let_def by (fastforce simp: res_simps)
  have "unit_keeps u u2"
    using icache_to_tlb_cores [OF s(1)] itlb_to_mem_cores [OF s(2)] by (intro kept_cores) simp
  moreover have "unit_keeps u2 u3"
    by (rule kept.fold_snd [OF s(3) icache_round_kept])
  moreover have "unit_keeps u3 u4"
    by (rule kept.fold_snd [OF s(4) icache_answer_kept])
  moreover have "unit_keeps u4 u'"
    using s(5) by (simp add: kept_cores)
  ultimately show ?thesis
    using kept.trans by blast
qed

lemma to_l1_inst_cache_kept: "to_l1_inst_cache nc u = Inr u' \<Longrightarrow> unit_keeps u u'"
  unfolding to_l1_inst_cache_def
  by (erule kept.fold_step) (auto simp: res_simps kept.refl split: if_split_asm option.split_asm intro!: put_core_kept core_exchange)

lemma tlb_bank_round_cores:
  assumes "tlb_bank_round nc t (rs, u) bank = Inr (rs', u')"
  shows "nu_cores u' = nu_cores u"
proof -
  obtain x where "nu_cores u' = nu_cores (put_dtlb u x) \<or> (\<exists>mf b w. push_to_mem bank mf (put_dtlb u x) = Inr (b, w) \<and> nu_cores u' = nu_cores w)"
    using assms by (fastforce simp: tlb_bank_round_def res_simps Let_def split: if_split_asm option.split_asm)
  then show ?thesis
    using push_to_mem_cores by auto
qed

lemma unit_tlb_cycle_kept:
  assumes "unit_tlb_cycle nc t u = Inr u'"
  shows "unit_keeps u u'"
proof -
  obtain rs u1 where u1: "res_foldl (tlb_bank_round nc t) ([], u) [0..<num_banks nc] = Inr (rs, u1)" "nu_cores u' = nu_cores u1"
    using assms by (auto simp: unit_tlb_cycle_def Let_def res_simps)
  have "unit_keeps u u1"
    by (rule kept.fold_snd [OF u1(1)]) (rule kept_cores [OF tlb_bank_round_cores])
  then show ?thesis
    using u1(2) by (simp add: unit_keeps_def)
qed

lemma connect_queue_kept:
  assumes "connect_queue nc i (rs, u) a = Inr (rs', u')" "a \<in> set ldst_queues"
  shows "unit_keeps u u'"
proof -
  obtain get put spad_op where a: "a = (get, put, spad_op)"
    by (cases a)
  then have regs: "eu_regs (put q x) = eu_regs x" for q x
    using assms(2) by (auto simp: ldst_queues_def)
  have "nu_cores u' = nu_cores u \<or> (\<exists>s q l. core_at i u = Inr s \<and> u' = put_core i (s\<lparr>sc_exec := put q (sc_exec s)\<rparr>) (u\<lparr>nu_ldst := l\<rparr>))"
    using assms(1) a by (fastforce simp: connect_queue_def res_simps Let_def split: if_split_asm option.split_asm)
  then show ?thesis
  proof (elim disjE exE conjE)
    fix s q l
    assume s: "core_at i u = Inr s" "u' = put_core i (s\<lparr>sc_exec := put q (sc_exec s)\<rparr>) (u\<lparr>nu_ldst := l\<rparr>)"
    show ?thesis
      unfolding s(2) using s(1) by (rule put_core_kept) (simp_all add: core_exchange regs)
  qed (rule kept_cores)
qed

lemma connect_to_ldst_unit_kept:
  assumes "connect_to_ldst_unit nc u = Inr u'"
  shows "unit_keeps u u'"
proof -
  let ?n = "length (nu_cores u)"
  obtain rs u1 where u1: "res_foldl (\<lambda>s iter. res_foldl (connect_queue nc ((nu_rr u + iter) mod ?n)) s ldst_queues) ([], u) [0..<?n] = Inr (rs, u1)"
    "nu_cores u' = nu_cores u1"
    using assms by (auto simp: connect_to_ldst_unit_def Let_def res_simps split: if_split_asm)
  have "unit_keeps u u1"
    using u1(1)
  proof (rule kept.fold_snd)
    show "unit_keeps w w'" if "res_foldl (connect_queue nc ((nu_rr u + k) mod ?n)) (r, w) ldst_queues = Inr (r', w')" for r w k r' w'
      using that by (rule kept.fold_snd) (rule connect_queue_kept)
  qed
  then show ?thesis
    using u1(2) by (simp add: unit_keeps_def)
qed

section \<open>Reachable units\<close>

definition cores_inv :: "unit_config \<Rightarrow> ndp_unit \<Rightarrow> bool" where
  "cores_inv nc u \<longleftrightarrow> (\<forall>s\<in>set (nu_cores u). sc_inv (nc_core nc) s)"

definition fresh_columns :: "ndp_unit \<Rightarrow> bool" where
  "fresh_columns u \<longleftrightarrow> list_all fresh_column (nu_cores u)"

lemma unit_keeps_inv:
  assumes "unit_keeps u u'" "cores_inv nc u"
  shows "cores_inv nc u'"
  using assms by (fastforce simp: unit_keeps_def core_keeps_def cores_inv_def list_all2_conv_all_nth in_set_conv_nth)

lemma unit_keeps_fresh:
  assumes "unit_keeps u u'" "fresh_columns u"
  shows "fresh_columns u'"
  using assms by (auto simp: unit_keeps_def core_keeps_def fresh_columns_def list_all2_conv_all_nth list_all_length)

lemma cores_inv_cong: "nu_cores u' = nu_cores u \<Longrightarrow> cores_inv nc u' = cores_inv nc u"
  by (simp add: cores_inv_def)

lemma cores_inv_update:
  assumes "cores_inv nc u" "sc_inv (nc_core nc) s" "nu_cores u' = (nu_cores u)[i := s]"
  shows "cores_inv nc u'"
  using assms set_update_subset_insert [of "nu_cores u" i s] by (auto simp: cores_inv_def)

lemma cores_run_inv:
  assumes "res_foldl (\<lambda>(all_empty, u) i.
      res_bind (on_core i (sub_core_cycle e junk (nc_core nc) t) u) (\<lambda>u.
      res_bind (core_at i u) (\<lambda>s. Inr (all_empty \<and> is_inst_queue_empty s, u)))) (a, u) ks = Inr (b, u')"
    "distinct ks" "cores_inv nc u" "\<And>i. i \<in> set ks \<Longrightarrow> i < length (nu_cores u) \<Longrightarrow> fresh_column (nu_cores u ! i)"
  shows "cores_inv nc u'"
  using assms
proof (induction ks arbitrary: a u)
  case (Cons k ks)
  then obtain u1 s1 where u1: "on_core k (sub_core_cycle e junk (nc_core nc) t) u = Inr u1"
    and go: "res_foldl (\<lambda>(all_empty, u) i.
      res_bind (on_core i (sub_core_cycle e junk (nc_core nc) t) u) (\<lambda>u.
      res_bind (core_at i u) (\<lambda>s. Inr (all_empty \<and> is_inst_queue_empty s, u)))) (a \<and> is_inst_queue_empty s1, u1) ks = Inr (b, u')"
    by (auto simp: res_simps)
  obtain s where k: "k < length (nu_cores u)" and s: "sub_core_cycle e junk (nc_core nc) t (attach u (nu_cores u ! k)) = Inr s"
    and cores: "nu_cores u1 = (nu_cores u)[k := s]"
    using u1 by (auto simp: on_core_def res_simps detach_def split: if_split_asm)
  have "core_keeps (nu_cores u ! k) (attach u (nu_cores u ! k))"
    by (rule core_exchange) (simp_all add: attach_def)
  moreover have "sc_inv (nc_core nc) (nu_cores u ! k)" "fresh_column (nu_cores u ! k)"
    using Cons.prems(3) Cons.prems(4) [of k] k by (simp_all add: cores_inv_def)
  ultimately have "sc_inv (nc_core nc) s"
    using sub_core_cycle_inv [OF s] by (simp add: core_keeps_def)
  then have "cores_inv nc u1"
    using Cons.prems(3) cores cores_inv_update by blast
  then show ?case
  proof (rule Cons.IH [OF go, rotated])
    show "fresh_column (nu_cores u1 ! i)" if "i \<in> set ks" "i < length (nu_cores u1)" for i
      using Cons.prems(2) Cons.prems(4) [of i] that cores by (cases "i = k") auto
  qed (use Cons.prems(2) in simp)
qed simp

lemma cores_cycle_inv:
  assumes "cores_cycle e junk nc t u = Inr (b, u')" "cores_inv nc u" "fresh_columns u"
  shows "cores_inv nc u'"
  using assms(1) unfolding cores_cycle_def
  by (rule cores_run_inv) (use assms(2,3) in \<open>auto simp: fresh_columns_def list_all_length\<close>)

lemma offer_column_inv: "offer_column nc ks u = Inr u' \<Longrightarrow> cores_inv nc u \<Longrightarrow> cores_inv nc u'"
proof (induction ks arbitrary: u)
  case (Cons i js)
  then obtain s where s: "core_at i u = Inr s"
    by (auto simp: res_simps)
  let ?cnt = "if is_inst_queue_empty s then qc_uthread_slots (sg_queue (nc_core nc)) else nu_uthread_count u ! i"
  let ?u = "u\<lparr>nu_uthread_count := (nu_uthread_count u)[i := ?cnt]\<rparr>"
  have inv: "cores_inv nc ?u" "cores_inv nc (unit_stats inc_inst_column_q_full ?u)" and i: "sc_inv (nc_core nc) s"
    using Cons.prems(2) s by (auto simp: cores_inv_def core_at_def split: if_split_asm)
  show ?case
  proof (cases "fp_full (sc_column_q s) \<or> \<not> 0 < ?cnt")
    case True
    then have "offer_column nc js ?u = Inr u' \<or> offer_column nc js (unit_stats inc_inst_column_q_full ?u) = Inr u'"
      using Cons.prems(1) s by (cases "fp_full (sc_column_q s)") (simp_all add: Let_def)
    then show ?thesis
      using Cons.IH inv by blast
  next
    case False
    then obtain q where "nu_cores u' = (nu_cores u)[i := s\<lparr>sc_column_q := q\<rparr>]"
      using Cons.prems(1) s by (auto simp: Let_def res_simps put_core_def)
    moreover have "sc_inv (nc_core nc) (s\<lparr>sc_column_q := q\<rparr>)"
      using i by (simp add: sc_inv_def sc_registers_def)
    ultimately show ?thesis
      using cores_inv_update Cons.prems(2) by blast
  qed
qed simp

lemma unit_refill_cores: "unit_refill nc b u = Inr u' \<Longrightarrow> nu_cores u' = nu_cores u"
  by (auto simp: unit_refill_def unit_generate_def res_simps split: if_split_asm)

lemma ndp_unit_cycle_inv:
  assumes "ndp_unit_cycle e order junk nc t t' u = Inr u'" "cores_inv nc u" "fresh_columns u" "\<And>b. mset (order b) = mset b"
  shows "cores_inv nc u'"
proof -
  obtain u1 u2 u3 u4 u5 u6 l u8 b u9 u10 u11 u12 where s: "handle_finished_context order u = Inr u1" "rf_writeback u1 = Inr u2" "from_mem_handle nc t t' u2 = Inr u3"
    "l1_inst_cache_cycle nc t' u3 = Inr u4" "to_l1_inst_cache nc u4 = Inr u5" "unit_tlb_cycle nc t' u5 = Inr u6"
    "connect_to_ldst_unit nc (u6\<lparr>nu_ldst := l\<rparr>) = Inr u8" "cores_cycle e junk nc t' u8 = Inr (b, u9)"
    and rest: "unit_refill nc b u9 = Inr u10" "connect_instruction_buffer_to_sub_core nc u10 = Inr u11" "request_instruction_lookup u11 = Inr u12"
    "nu_cores u' = nu_cores u12"
    using assms(1) unfolding ndp_unit_cycle_def
    by (auto simp: res_simps)
  have "unit_keeps u u6"
    using handle_finished_context_kept [OF s(1) assms(4)] rf_writeback_kept [OF s(2)] from_mem_handle_kept [OF s(3)]
      l1_inst_cache_cycle_kept [OF s(4)] to_l1_inst_cache_kept [OF s(5)] unit_tlb_cycle_kept [OF s(6)] kept.trans by blast
  moreover have "unit_keeps u6 u8"
    using connect_to_ldst_unit_kept [OF s(7)] by (simp add: unit_keeps_def)
  ultimately have "unit_keeps u u8"
    using kept.trans by blast
  then have "cores_inv nc u9"
    using cores_cycle_inv [OF s(8)] unit_keeps_inv unit_keeps_fresh assms(2,3) by blast
  then have "cores_inv nc u10"
    using unit_refill_cores [OF rest(1)] by (simp add: cores_inv_def)
  then have "cores_inv nc u11"
    using rest(2) offer_column_inv by (auto simp: connect_instruction_buffer_to_sub_core_def Let_def split: if_split_asm)
  moreover have "nu_cores u12 = nu_cores u11"
    using rest(3) by (auto simp: request_instruction_lookup_def res_simps split: if_split_asm)
  ultimately show ?thesis
    using rest(4) by (simp add: cores_inv_def)
qed

text \<open>
  The life of a unit: cycles, and between them the calls of the device. A launch changes the configuration, since the first-level cache is resized.
  A cycle starts with columns whose packets have no registers yet: request ids are not reused.
\<close>

inductive unit_reachable :: "(register_binding \<Rightarrow> register_binding) \<Rightarrow> unit_config \<Rightarrow> ndp_unit \<Rightarrow> bool" for order where
  new: "new_ndp_unit junk junk_vlmul junk_tlb nc memory stats i req_id spads h accessed bi bi_mfs = Inr u \<Longrightarrow> unit_reachable order nc u"
| cycle: "unit_reachable order nc u \<Longrightarrow> fresh_columns u \<Longrightarrow> ndp_unit_cycle e order ctx nc t t' u = Inr u' \<Longrightarrow> unit_reachable order nc u'"
| from_mem: "unit_reachable order nc u \<Longrightarrow> push_from_mem mf bank u = Inr u' \<Longrightarrow> unit_reachable order nc u'"
| to_mem: "unit_reachable order nc u \<Longrightarrow> pop_to_mem bank u = Inr u' \<Longrightarrow> unit_reachable order nc u'"
| register: "unit_reachable order nc u \<Longrightarrow> register_ndp_kernel k u = Inr u' \<Longrightarrow> unit_reachable order nc u'"
| launch: "unit_reachable order nc u \<Longrightarrow> launch_ndp_kernel nc li ka u = Inr (nc', u') \<Longrightarrow> unit_reachable order nc' u'"
| generate: "unit_reachable order nc u \<Longrightarrow> unit_generate n u = Inr u' \<Longrightarrow> unit_reachable order nc u'"

lemma new_sub_core_inv:
  "sc_inv sg (new_sub_core junk junk_vlmul sg memory stats i j column_q to_icache from_icache to_ldst to_spad to_v_ldst to_v_spad spads h)"
  by (rule sub_core_reachable_inv [of "\<lambda>b. b"]) (simp_all add: sub_core_reachable.new)

lemma new_ndp_unit_cores:
  assumes "new_ndp_unit junk junk_vlmul junk_tlb nc memory stats i req_id spads h accessed bi bi_mfs = Inr u"
  shows "length (nu_cores u) = nat (nc_num_sub_core nc)" "s \<in> set (nu_cores u) \<Longrightarrow> \<exists>k. unit_core junk junk_vlmul nc memory stats i spads h k = Inr s"
proof -
  let ?make = "\<lambda>cores k. res_bind (unit_core junk junk_vlmul nc memory stats i spads h (int k)) (\<lambda>s. Inr (cores @ [s]))"
  have made: "length cores' = length cores + length ks \<and> (\<forall>s\<in>set cores' - set cores. \<exists>k. unit_core junk junk_vlmul nc memory stats i spads h k = Inr s)"
    if "res_foldl ?make cores ks = Inr cores'" for cores cores' ks
    using that
  proof (induction ks arbitrary: cores)
    case (Cons k ks)
    then obtain s where "unit_core junk junk_vlmul nc memory stats i spads h (int k) = Inr s" "res_foldl ?make (cores @ [s]) ks = Inr cores'"
      by (auto simp: res_simps)
    then show ?case
      using Cons.IH [of "cores @ [s]"] by auto
  qed simp
  have "res_foldl ?make [] [0..<nat (nc_num_sub_core nc)] = Inr (nu_cores u)"
    using assms unfolding new_ndp_unit_def Let_def by (auto simp: res_simps)
  from made [OF this] show "length (nu_cores u) = nat (nc_num_sub_core nc)"
    "s \<in> set (nu_cores u) \<Longrightarrow> \<exists>k. unit_core junk junk_vlmul nc memory stats i spads h k = Inr s"
    by simp_all
qed

lemma new_ndp_unit_turn:
  "new_ndp_unit junk junk_vlmul junk_tlb nc memory stats i req_id spads h accessed bi bi_mfs = Inr u \<Longrightarrow> nu_last_fetched u = 0"
  unfolding new_ndp_unit_def Let_def by (auto simp: res_simps)

lemma new_ndp_unit_inv:
  assumes "new_ndp_unit junk junk_vlmul junk_tlb nc memory stats i req_id spads h accessed bi bi_mfs = Inr u"
  shows "cores_inv nc u"
  using new_ndp_unit_cores(2) [OF assms] new_sub_core_inv by (fastforce simp: cores_inv_def unit_core_def res_simps)

lemma unit_reachable_inv:
  assumes "unit_reachable order nc u" "\<And>b. mset (order b) = mset b"
  shows "cores_inv nc u"
  using assms(1)
proof (induction rule: unit_reachable.induct)
  case (new junk junk_vlmul junk_tlb nc memory stats i req_id spads h accessed bi bi_mfs u)
  then show ?case by (rule new_ndp_unit_inv)
next
  case (cycle nc u e ctx t t' u')
  then show ?case using ndp_unit_cycle_inv assms(2) by blast
next
  case (from_mem nc u mf bank u')
  then show ?case by (auto simp: push_from_mem_def Let_def cores_inv_def res_simps split: if_split_asm)
next
  case (to_mem nc u bank u')
  then show ?case by (auto simp: pop_to_mem_def Let_def cores_inv_def res_simps split: if_split_asm)
next
  case (register nc u k u')
  then show ?case by (auto simp: register_ndp_kernel_def cores_inv_def res_simps)
next
  case (launch nc u li ka nc' u')
  then show ?case by (auto simp: launch_ndp_kernel_def Let_def cores_inv_def res_simps split_beta)
next
  case (generate nc u n u')
  then show ?case by (auto simp: unit_generate_def cores_inv_def res_simps)
qed

section \<open>An example\<close>

definition example_unit_config :: unit_config where
  "example_unit_config =
     \<lparr>nc_uthread = example_uthread_config, nc_ldst = example_config,
      nc_core = \<lparr>sg_queue = example_iq_config, sg_exec = example_exec_config, sg_max_inst_issue = 0, sg_ideal_icache = True, sg_registers = (4, 2, 2)\<rparr>,
      nc_itlb = lc_tlb example_config, nc_icache = qc_cache example_iq_config, nc_l1icache_hit_latency = 1, nc_sub_core_coarse_grained = False,
      nc_num_sub_core = 2, nc_inst_buffer_size = 4, nc_ideal_tlb = True\<rparr>"

definition example_ndp_unit :: "ndp_unit res" where
  "example_ndp_unit =
     new_ndp_unit (\<lambda>_. (0, 0)) 0 (projr (new_fifo_pipeline [] 0 8)) example_unit_config (Hash_Map (new_hash_memory_map 0 0x10000)) (new_ndp_stats 0) 0 0
       (\<lambda>_. Hash_Map (new_hash_memory_map SCRATCHPAD_BASE 0x1000)) empty_store {} \<lparr>bi_addr_unit_size = 0, m_handled_bi_addr = {}, m_inprogress_bi_addr = {}\<rparr>
       Map.empty"

section \<open>Properties\<close>

text \<open>
  C1. Whatever a unit does - launches, cycles of all its parts, answers of the memory - every sub-core keeps its physical registers: each of them
  is free, or bound to one register of one packet, or the second half of a vector register, exactly once. Its queue never holds more columns
  than it has slots, and the columns of a launch that are in it together belong to the same phase. The order of the hash maps does not matter, and
  request ids must not be reused while a packet holds registers.
\<close>

theorem unit_conserves_registers:
  assumes "unit_reachable order nc u" "\<And>b. mset (order b) = mset b" "s \<in> set (nu_cores u)" "sg_registers (nc_core nc) = (nx, nf, nv)"
  shows "mset (rf_free (ru_x (sc_registers s))) + bound (ru_x (sc_registers s)) = mset (phys_regs REG_PX_BASE nx) \<and>
    mset (rf_free (ru_f (sc_registers s))) + bound (ru_f (sc_registers s)) = mset (phys_regs REG_PF_BASE nf) \<and>
    mset (rf_free (ru_v (sc_registers s))) + bound (ru_v (sc_registers s)) + regs_of (ru_double (sc_registers s)) = mset (phys_regs REG_PV_BASE nv) \<and>
    int (length (iq_columns (sc_queue s))) \<le> max 0 (qc_uthread_slots (sg_queue (nc_core nc))) \<and>
    (\<forall>c\<in>set (iq_columns (sc_queue s)). \<forall>c'\<in>set (iq_columns (sc_queue s)). get_dependency_key c = get_dependency_key c' \<longrightarrow>
      ic_type c = ic_type c' \<and> ri_kernel_body_id (ic_req c) = ri_kernel_body_id (ic_req c'))"
proof -
  have "sc_inv (nc_core nc) s"
    using unit_reachable_inv [OF assms(1,2)] assms(3) by (simp add: cores_inv_def)
  then have ru: "ru_inv nx nf nv (sc_registers s)" and iq: "iq_inv (sg_queue (nc_core nc)) (sc_queue s)"
    using assms(4) by (simp_all add: sc_inv_def)
  show ?thesis
  proof (intro conjI ballI impI)
    fix c c'
    assume "c \<in> set (iq_columns (sc_queue s))" "c' \<in> set (iq_columns (sc_queue s))" "get_dependency_key c = get_dependency_key c'"
    then show "ic_type c = ic_type c'" "ri_kernel_body_id (ic_req c) = ri_kernel_body_id (ic_req c')"
      using inv_same_phase [OF iq] by blast+
  qed (use ru iq in \<open>simp_all only: ru_inv_def rf_inv_def v_inv_def iq_inv_def simp_thms\<close>)
qed

definition example_launched :: "(unit_config \<times> ndp_unit) res" where
  "example_launched =
     res_bind example_ndp_unit (\<lambda>u.
     res_bind (register_ndp_kernel (example_run_kernel\<lparr>nk_kernel_body_regs := [(0, 0, 0)]\<rparr>) u) (\<lambda>u.
     launch_ndp_kernel example_unit_config example_launch example_args u))"

lemma example_launched_core:
  "case example_launched of Inr (nc, u) \<Rightarrow> sg_registers (nc_core nc) = (4, 2, 2) \<and> length (nu_cores u) = 2 | Inl _ \<Rightarrow> False"
  by code_simp

lemma example_launched_reachable:
  obtains nc u where "example_launched = Inr (nc, u)" "unit_reachable (\<lambda>b. b) nc u" "sg_registers (nc_core nc) = (4, 2, 2)"
    "nu_cores u ! 0 \<in> set (nu_cores u)"
proof -
  obtain nc u where r: "example_launched = Inr (nc, u)" "sg_registers (nc_core nc) = (4, 2, 2)" "length (nu_cores u) = 2"
    using example_launched_core by (auto split: sum.splits)
  obtain u1 u2 where u: "example_ndp_unit = Inr u1" "register_ndp_kernel (example_run_kernel\<lparr>nk_kernel_body_regs := [(0, 0, 0)]\<rparr>) u1 = Inr u2"
    "launch_ndp_kernel example_unit_config example_launch example_args u2 = Inr (nc, u)"
    using r(1) unfolding example_launched_def by (auto simp: res_simps)
  have "unit_reachable (\<lambda>b. b) example_unit_config u1"
    using u(1) unfolding example_ndp_unit_def by (rule unit_reachable.new)
  then have "unit_reachable (\<lambda>b. b) nc u"
    using unit_reachable.register [OF _ u(2)] unit_reachable.launch [OF _ u(3)] by blast
  then show ?thesis
    using that r by (simp add: nth_mem)
qed

theorem unit_conserves_registers_witness:
  "\<exists>nc u. example_launched = Inr (nc, u) \<and>
     mset (rf_free (ru_x (sc_registers (nu_cores u ! 0)))) + bound (ru_x (sc_registers (nu_cores u ! 0))) = mset (phys_regs REG_PX_BASE 4)"
proof -
  obtain nc u where r: "example_launched = Inr (nc, u)" "unit_reachable (\<lambda>b. b) nc u" "sg_registers (nc_core nc) = (4, 2, 2)"
    "nu_cores u ! 0 \<in> set (nu_cores u)"
    by (rule example_launched_reachable)
  then show ?thesis
    using unit_conserves_registers [OF r(2) refl r(4,3)] by blast
qed

text \<open>The test by which the loop chooses a sub-core.\<close>

definition takes_column :: "unit_config \<Rightarrow> ndp_unit \<Rightarrow> nat \<Rightarrow> bool" where
  "takes_column nc u i \<longleftrightarrow> \<not> fp_full (sc_column_q (nu_cores u ! i)) \<and>
     0 < (if is_inst_queue_empty (nu_cores u ! i) then qc_uthread_slots (sg_queue (nc_core nc)) else nu_uthread_count u ! i)"

lemma offer_column_skips:
  assumes "\<forall>i\<in>set ks. i < length (nu_cores u) \<and> \<not> takes_column nc u i" "distinct (ks @ js)"
  shows "\<exists>u'. offer_column nc (ks @ js) u = offer_column nc js u' \<and> nu_cores u' = nu_cores u \<and> nu_buffer u' = nu_buffer u \<and>
    (\<forall>i\<in>set js. nu_uthread_count u' ! i = nu_uthread_count u ! i)"
  using assms
proof (induction ks arbitrary: u)
  case (Cons k ks)
  let ?s = "nu_cores u ! k"
  let ?cnt = "if is_inst_queue_empty ?s then qc_uthread_slots (sg_queue (nc_core nc)) else nu_uthread_count u ! k"
  let ?u = "u\<lparr>nu_uthread_count := (nu_uthread_count u)[k := ?cnt]\<rparr>"
  have k: "core_at k u = Inr ?s" "fp_full (sc_column_q ?s) \<or> \<not> 0 < ?cnt"
    using Cons.prems(1) by (auto simp: core_at_def takes_column_def)
  obtain w where w: "offer_column nc ((k # ks) @ js) u = offer_column nc (ks @ js) w" "nu_cores w = nu_cores u" "nu_buffer w = nu_buffer u"
    "nu_uthread_count w = (nu_uthread_count u)[k := ?cnt]"
  proof (cases "fp_full (sc_column_q ?s)")
    case True
    with that [of "unit_stats inc_inst_column_q_full ?u"] k(1) show ?thesis
      by (simp add: Let_def unit_stats_def)
  next
    case False
    with that [of ?u] k show ?thesis by (simp add: Let_def)
  qed
  have cnt: "nu_uthread_count w ! i = nu_uthread_count u ! i" if "i \<in> set (ks @ js)" for i
    using that Cons.prems(2) unfolding w(4) by (cases "i = k") auto
  have "takes_column nc w i = takes_column nc u i" if "i \<in> set ks" for i
    using that cnt by (simp add: takes_column_def w(2))
  then have "\<forall>i\<in>set ks. i < length (nu_cores w) \<and> \<not> takes_column nc w i"
    using Cons.prems(1) w(2) by simp
  then obtain u' where "offer_column nc (ks @ js) w = offer_column nc js u' \<and> nu_cores u' = nu_cores w \<and> nu_buffer u' = nu_buffer w \<and>
      (\<forall>i\<in>set js. nu_uthread_count u' ! i = nu_uthread_count w ! i)"
    using Cons.IH [of w] Cons.prems(2) by auto
  then show ?case
    using w(1-3) cnt by (intro exI [of _ u']) simp
qed auto

lemma turn_distinct: "distinct (map (\<lambda>i. (a + i) mod n) [0..<n])"
proof -
  have "i = j" if "i \<le> j" "j < n" "(a + i) mod n = (a + j) mod n" for i j :: nat
  proof -
    have "n dvd (a + j) - (a + i)"
      using that by (metis mod_eq_dvd_iff_nat add_le_mono1 add.commute)
    then show ?thesis
      using that by (auto dest: dvd_imp_le)
  qed
  then show ?thesis
    unfolding distinct_map inj_on_def by (metis (no_types, lifting) atLeastLessThan_iff distinct_upt nat_le_linear set_upt)
qed

lemma turn_covers:
  assumes "j < (n :: nat)"
  shows "\<exists>i<n. (a + i) mod n = j"
proof -
  let ?f = "\<lambda>i. (a + i) mod n"
  have "card (?f ` {0..<n}) = n"
    using distinct_card [OF turn_distinct [of a n]] by simp
  moreover have "?f ` {0..<n} \<subseteq> {0..<n}"
    using assms by auto
  ultimately have "?f ` {0..<n} = {0..<n}"
    by (intro card_subset_eq) simp_all
  then have "j \<in> ?f ` {0..<n}"
    using assms by simp
  then show ?thesis
    by auto
qed

lemma offer_column_takes:
  assumes "i < length (nu_cores u)" "takes_column nc u i" "can_pop (nu_buffer u)" "fp_plain (sc_column_q (nu_cores u ! i))"
  shows "\<exists>u' q. offer_column nc (i # js) u = Inr u' \<and> nu_cores u' = (nu_cores u)[i := (nu_cores u ! i)\<lparr>sc_column_q := q\<rparr>] \<and>
    nu_last_fetched u' = i \<and> nu_buffer u' = (nu_buffer u)\<lparr>ib_columns := tl (ib_columns (nu_buffer u))\<rparr> \<and>
    fp_push (Some (hd (ib_columns (nu_buffer u)))) (sc_column_q (nu_cores u ! i)) = Inr q \<and>
    fp_data q = fp_data (sc_column_q (nu_cores u ! i)) @ [hd (ib_columns (nu_buffer u))]"
proof -
  let ?s = "nu_cores u ! i"
  obtain q where q: "fp_push (Some (hd (ib_columns (nu_buffer u)))) (sc_column_q ?s) = Inr q"
    using fp_push_plain_total [OF assms(4)] assms(2) by (auto simp: takes_column_def)
  show ?thesis
    using assms(1-3) q fp_push_plain(2) [OF assms(4) q]
    by (auto simp: Let_def core_at_def takes_column_def ib_top_def ib_pop_def put_core_def)
qed

text \<open>
  C13. The hand-over of columns is fair and loses nothing: the first column of the instruction buffer goes to the first sub-core, counted from
  the one after the last that got a column, which has room in its queue and may start another column; it goes to the end of that queue, and
  nothing else changes in that sub-core, in the other sub-cores and in the buffer. When no sub-core can take it, the sub-cores and the buffer stay
  as they are. (The queues have no minimum length, as the unit makes them.)
\<close>

theorem column_handed_over:
  assumes "can_pop (nu_buffer u)" "n = length (nu_cores u)" "\<forall>s\<in>set (nu_cores u). fp_plain (sc_column_q s)"
  shows "\<exists>u'. connect_instruction_buffer_to_sub_core nc u = Inr u' \<and>
    ((\<forall>i<n. \<not> takes_column nc u i) \<and> nu_cores u' = nu_cores u \<and> nu_buffer u' = nu_buffer u \<or>
     (\<exists>k<n. \<exists>i. i = (nu_last_fetched u + 1 + k) mod n \<and> takes_column nc u i \<and>
        (\<forall>m<k. \<not> takes_column nc u ((nu_last_fetched u + 1 + m) mod n)) \<and> nu_last_fetched u' = i \<and>
        nu_buffer u' = (nu_buffer u)\<lparr>ib_columns := tl (ib_columns (nu_buffer u))\<rparr> \<and>
        (\<exists>q. fp_push (Some (hd (ib_columns (nu_buffer u)))) (sc_column_q (nu_cores u ! i)) = Inr q \<and>
           fp_data q = fp_data (sc_column_q (nu_cores u ! i)) @ [hd (ib_columns (nu_buffer u))] \<and>
           nu_cores u' = (nu_cores u)[i := (nu_cores u ! i)\<lparr>sc_column_q := q\<rparr>])))"
proof -
  let ?f = "\<lambda>k. (nu_last_fetched u + 1 + k) mod n"
  have offer: "connect_instruction_buffer_to_sub_core nc u = offer_column nc (map ?f [0..<n]) u"
    using assms(1,2) by (simp add: connect_instruction_buffer_to_sub_core_def Let_def)
  have dist: "distinct (map ?f [0..<n])"
    by (rule turn_distinct)
  have less: "?f k < length (nu_cores u)" if "k < n" for k
    using that assms(2) by (metis mod_less_divisor neq0_conv not_less0)
  show ?thesis
  proof (cases "\<exists>k<n. takes_column nc u (?f k)")
    case False
    then have "\<forall>i<n. \<not> takes_column nc u i"
      using turn_covers by metis
    moreover have "\<forall>i\<in>set (map ?f [0..<n]). i < length (nu_cores u) \<and> \<not> takes_column nc u i"
      using False less by auto
    then obtain u' where "offer_column nc (map ?f [0..<n]) u = Inr u'" "nu_cores u' = nu_cores u" "nu_buffer u' = nu_buffer u"
      using offer_column_skips [of "map ?f [0..<n]" u nc "[]"] dist by auto
    ultimately show ?thesis
      using offer by auto
  next
    case True
    then obtain k where k: "k < n" "takes_column nc u (?f k)" "\<forall>m<k. \<not> takes_column nc u (?f m)"
      using exists_least_iff [of "\<lambda>k. k < n \<and> takes_column nc u (?f k)"] by (metis order.strict_trans)
    let ?i = "?f k" and ?js = "map ?f [Suc k..<n]"
    have i: "?i < length (nu_cores u)"
      using k(1) by (rule less)
    have split: "map ?f [0..<n] = map ?f [0..<k] @ ?i # ?js"
      using k(1) by (metis (no_types, lifting) le_add_diff_inverse list.simps(9) map_append nat_less_le upt_add_eq_append upt_conv_Cons zero_le)
    have before: "\<forall>i\<in>set (map ?f [0..<k]). i < length (nu_cores u) \<and> \<not> takes_column nc u i"
      using k(1,3) less by auto
    obtain u1 where u1: "offer_column nc (map ?f [0..<n]) u = offer_column nc (?i # ?js) u1" "nu_cores u1 = nu_cores u" "nu_buffer u1 = nu_buffer u"
      "nu_uthread_count u1 ! ?i = nu_uthread_count u ! ?i"
      using offer_column_skips [of "map ?f [0..<k]" u nc "?i # ?js"] before dist unfolding split by auto
    have can: "takes_column nc u1 ?i" "can_pop (nu_buffer u1)" "fp_plain (sc_column_q (nu_cores u1 ! ?i))" "?i < length (nu_cores u1)"
      using k(2) assms(1,3) i unfolding takes_column_def u1(2-4) by simp_all
    obtain u' q where u': "offer_column nc (?i # ?js) u1 = Inr u'" "nu_last_fetched u' = ?i"
      "nu_cores u' = (nu_cores u)[?i := (nu_cores u ! ?i)\<lparr>sc_column_q := q\<rparr>]"
      "nu_buffer u' = (nu_buffer u)\<lparr>ib_columns := tl (ib_columns (nu_buffer u))\<rparr>"
      "fp_push (Some (hd (ib_columns (nu_buffer u)))) (sc_column_q (nu_cores u ! ?i)) = Inr q"
      "fp_data q = fp_data (sc_column_q (nu_cores u ! ?i)) @ [hd (ib_columns (nu_buffer u))]"
      using offer_column_takes [OF can(4,1-3), of ?js] unfolding u1(2,3) by blast
    have "connect_instruction_buffer_to_sub_core nc u = Inr u'"
      using offer u1(1) u'(1) by simp
    then show ?thesis
      by (intro exI [of _ u'] conjI disjI2 exI [of _ k] exI [of _ ?i] exI [of _ q] refl k u'(2-6))
  qed
qed

lemma new_sub_core_fields [simp]:
  fixes junk junk_vlmul sg memory stats i j column_q to_icache from_icache to_ldst to_spad to_v_ldst to_v_spad spads h
  defines "s \<equiv> new_sub_core junk junk_vlmul sg memory stats i j column_q to_icache from_icache to_ldst to_spad to_v_ldst to_v_spad spads h"
  shows "sc_column_q s = column_q" "iq_columns (sc_queue s) = []" "iq_num_columns (sc_queue s) = 0" "iq_deps (sc_queue s) = []" "eu_finished (sc_exec s) = []"
    "sc_registers s = new_register_unit 0 junk_vlmul (fst (sg_registers sg)) (fst (snd (sg_registers sg))) (snd (snd (sg_registers sg)))"
  by (simp_all add: s_def new_sub_core_def new_instruction_queue_def set_ideal_icache_def new_exec_unit_def sc_registers_def new_vector_registers_def
      Let_def split_beta)

lemma new_ndp_unit_idle:
  assumes "new_ndp_unit junk junk_vlmul junk_tlb nc memory stats i req_id spads h accessed bi bi_mfs = Inr u" "s \<in> set (nu_cores u)"
  shows "fp_plain (sc_column_q s)" "fp_data (sc_column_q s) = []" "\<not> fp_full (sc_column_q s)" "is_inst_queue_empty s"
proof -
  obtain k where "unit_core junk junk_vlmul nc memory stats i spads h k = Inr s"
    using new_ndp_unit_cores(2) [OF assms] by blast
  then obtain q where q: "unit_queue ''inst_column'' nc = Inr q" "sc_column_q s = q" "is_inst_queue_empty s"
    by (auto simp: unit_core_def res_simps is_inst_queue_empty_def iq_all_empty_def)
  then show "fp_plain (sc_column_q s)" "fp_data (sc_column_q s) = []" "is_inst_queue_empty s"
    using new_fifo_pipeline_plain by (auto simp: unit_queue_def)
  have "fp_length q = 0"
    using q(1) by (auto simp: unit_queue_def new_fifo_pipeline_def split: if_split_asm)
  then show "\<not> fp_full (sc_column_q s)"
    using q(2) by (auto simp: fp_full_def word_le_nat_alt unat_eq_zero)
qed

definition example_offer :: ndp_unit where
  "example_offer = (projr example_ndp_unit)\<lparr>nu_buffer := (new_instruction_buffer 4 0)\<lparr>ib_columns := [example_column]\<rparr>\<rparr>"

lemma example_offer_facts:
  "can_pop (nu_buffer example_offer)" "2 = length (nu_cores example_offer)" "\<forall>s\<in>set (nu_cores example_offer). fp_plain (sc_column_q s)"
  "takes_column example_unit_config example_offer 1" "nu_last_fetched example_offer = 0" "ib_columns (nu_buffer example_offer) = [example_column]"
  "fp_data (sc_column_q (nu_cores example_offer ! 1)) = []"
proof -
  obtain u where u: "example_ndp_unit = Inr u"
    using example_launched_core by (auto simp: example_launched_def res_bind_def split: sum.splits)
  note new = u [unfolded example_ndp_unit_def]
  have cores: "nu_cores example_offer = nu_cores u" "length (nu_cores u) = 2" "nu_last_fetched u = 0"
    using new_ndp_unit_cores(1) [OF new] new_ndp_unit_turn [OF new] by (simp_all add: u example_offer_def example_unit_config_def)
  then have one: "nu_cores u ! 1 \<in> set (nu_cores u)"
    by simp
  show "takes_column example_unit_config example_offer 1" "fp_data (sc_column_q (nu_cores example_offer ! 1)) = []"
    using new_ndp_unit_idle [OF new one] cores
    by (simp_all add: takes_column_def example_unit_config_def example_iq_config_def)
  show "\<forall>s\<in>set (nu_cores example_offer). fp_plain (sc_column_q s)"
    using new_ndp_unit_idle(1) [OF new] cores by simp
  show "2 = length (nu_cores example_offer)" "nu_last_fetched example_offer = 0"
    using cores by (simp_all add: u example_offer_def)
qed (simp_all add: example_offer_def can_pop_def)

theorem column_handed_over_witness:
  "\<exists>u'. connect_instruction_buffer_to_sub_core example_unit_config example_offer = Inr u' \<and> ib_columns (nu_buffer u') = [] \<and> nu_last_fetched u' = 1 \<and>
     (\<exists>q. nu_cores u' = (nu_cores example_offer)[1 := (nu_cores example_offer ! 1)\<lparr>sc_column_q := q\<rparr>] \<and> fp_data q = [example_column])"
  using column_handed_over [OF example_offer_facts(1-3), of example_unit_config] example_offer_facts(4-7)
  by (auto simp: less_2_cases_iff)

section \<open>Columns without instructions\<close>

text \<open>
  C12. A phase without instructions, such as a missing initializer, loses registers. The sub-core binds two physical registers to its packet (for the
  address and the offset), finds the column empty, and reports it finished with the sub-core id -1; for this id the unit gives
  no registers back, whatever the order of the hash maps: the two registers stay bound to a packet that is gone.
\<close>

theorem empty_phase_keeps_registers:
  assumes "fp_top (sc_column_q s) = Some c" "ic_insts c = []" "fresh_column s" "RenameEmpty (sc_registers s)" "\<not> RenameFull c (sc_registers s)"
    "instruction_register_allocate s = Inr s1" "iq_can_push (sg_queue sg) (queue_column c) (sc_queue s1)" "instruction_queue_allocate junk sg s1 = Inr s2"
  shows "\<exists>ctx. eu_finished (sc_exec s2) = eu_finished (sc_exec s) @ [ctx] \<and> fc_request_info ctx = ic_req c \<and>
    length (binding (packet_key (ic_req c)) (ru_x (sc_registers s2))) = 2 \<and>
    length (rf_free (ru_x (sc_registers s))) = length (rf_free (ru_x (sc_registers s2))) + 2 \<and>
    (\<forall>order u. \<exists>g. finish_one order u ctx = Inr (u\<lparr>nu_generator := g\<rparr>))"
proof -
  let ?key = "packet_key (ic_req c)"
  have ne: "\<not> fp_empty (sc_column_q s)"
    using assms(1) by (auto simp: fp_empty_def fp_top_def)
  then obtain q u where u: "RenamePush c ?key (sc_registers s) = Inr u" and s1: "s1 = upd_registers (\<lambda>_. u) (s\<lparr>sc_column_q := q\<rparr>)"
    using assms(1,5,6) by (auto simp: instruction_register_allocate_def res_simps)
  obtain u1 u2 where b: "bind_initial ?key (REG_X_BASE + 1) (ri_addr (ic_req c)) (sc_registers s) = Inr u1"
    "bind_initial ?key (REG_X_BASE + 2) (ri_offset (ic_req c)) u1 = Inr u2"
    and u': "u = u2\<lparr>ru_cvt_vlmul := IMM_M1, ru_after_rename := ru_after_rename u2 @ [c]\<rparr>"
    using u assms(2) by (auto simp: RenamePush_def Convert_def res_simps)
  have new: "map_of (rf_map (ru_x (sc_registers s))) ?key = None"
    using assms(1,3) by (simp add: fresh_column_def)
  have bound: "length (binding ?key (ru_x u2)) = 2" "length (rf_free (ru_x (sc_registers s))) = length (rf_free (ru_x u2)) + 2"
    and after: "ru_after_rename u2 = []"
    using b new assms(4)
    by (auto simp: bind_initial_def Let_def res_simps rf_take_eq rf_bind_def binding_def RenameEmpty_def update_conv' split: if_split_asm)
  have "s2 = (upd_registers (\<lambda>_. u\<lparr>ru_after_rename := []\<rparr>) s1)\<lparr>sc_exec := (sc_exec (upd_registers (\<lambda>_. u\<lparr>ru_after_rename := []\<rparr>) s1))
      \<lparr>eu_finished := eu_finished (sc_exec s) @ [empty_context junk c s]\<rparr>\<rparr>"
    using assms(2,7,8) after unfolding s1 u'
    by (simp add: instruction_queue_allocate_def RenameEmpty_def RenameTop_def RenamePop_def enter_queue_def sc_registers_def upd_registers_def upd_unit_def
        empty_context_def)
  then show ?thesis
    using bound unfolding s1 u'
    by (intro exI [of _ "empty_context junk c s"])
      (simp add: sc_registers_def upd_registers_def upd_unit_def empty_context_def finish_one_def Let_def, blast)
qed

text \<open>The column of a missing initializer on the way to the first sub-core of the example.\<close>

definition example_empty_column :: inst_column where
  "example_empty_column = example_column\<lparr>ic_insts := [], ic_xregs := 0\<rparr>"

definition example_channel :: "'a fifo_pipeline" where
  "example_channel = projr (new_fifo_pipeline [] 0 8)"

definition example_empty_core :: sub_core where
  "example_empty_core =
     new_sub_core (\<lambda>_. (0, 0)) 0 (nc_core example_unit_config) (Hash_Map (new_hash_memory_map 0 0x10000)) (new_ndp_stats 0) 0 0
       (projr (fp_push (Some example_empty_column) example_channel)) example_channel example_channel example_channel example_channel example_channel example_channel
       (\<lambda>_. Hash_Map (new_hash_memory_map SCRATCHPAD_BASE 0x1000)) empty_store"

lemma example_empty_registers: "sc_registers example_empty_core = new_register_unit 0 0 4 2 2"
  by (simp add: example_empty_core_def example_unit_config_def)

lemma example_empty_push: "projr (fp_push (Some example_empty_column) example_channel) = example_channel\<lparr>fp_cells := [Some example_empty_column], fp_length := 1, fp_n_element := 1\<rparr>"
  by (simp add: example_channel_def new_fifo_pipeline_def fp_push_def fp_full_def)

lemma example_empty_facts:
  "fp_top (sc_column_q example_empty_core) = Some example_empty_column" "ic_insts example_empty_column = []" "fresh_column example_empty_core"
  "RenameEmpty (sc_registers example_empty_core)" "\<not> RenameFull example_empty_column (sc_registers example_empty_core)"
  "length (rf_free (ru_x (sc_registers example_empty_core))) = 4"
proof -
  show "fp_top (sc_column_q example_empty_core) = Some example_empty_column"
    by (simp add: example_empty_core_def example_empty_push fp_top_def)
  show "\<not> RenameFull example_empty_column (sc_registers example_empty_core)" "RenameEmpty (sc_registers example_empty_core)"
    "length (rf_free (ru_x (sc_registers example_empty_core))) = 4"
    unfolding example_empty_registers by code_simp+
  show "fresh_column example_empty_core"
    by (simp add: fresh_column_def example_empty_registers new_register_unit_def split: option.split)
qed (simp add: example_empty_column_def)

lemma example_empty_steps:
  obtains s1 s2 where "instruction_register_allocate example_empty_core = Inr s1"
    "iq_can_push (sg_queue (nc_core example_unit_config)) (queue_column example_empty_column) (sc_queue s1)"
    "instruction_queue_allocate example_context (nc_core example_unit_config) s1 = Inr s2"
proof -
  have "case RenamePush example_empty_column (packet_key (ic_req example_empty_column)) (new_register_unit 0 0 4 2 2 :: u32 register_unit) of
      Inr u \<Rightarrow> length (ru_after_rename u) = 1 \<and> ic_insts (hd (ru_after_rename u)) = [] | Inl _ \<Rightarrow> False"
    by code_simp
  then obtain u c where u: "RenamePush example_empty_column (packet_key (ic_req example_empty_column)) (sc_registers example_empty_core) = Inr u"
    "ru_after_rename u = [c]" "ic_insts c = []"
    unfolding example_empty_registers by (auto simp: length_Suc_conv split: sum.splits)
  have q: "fp_pop (sc_column_q example_empty_core) = Inr (Some example_empty_column, example_channel)"
    unfolding example_empty_core_def new_sub_core_fields example_empty_push
    by (simp add: example_channel_def new_fifo_pipeline_def fp_pop_def)
  have push: "iq_can_push (sg_queue (nc_core example_unit_config)) (queue_column x) (sc_queue example_empty_core)" for x
    by (simp add: iq_can_push_def example_empty_core_def example_unit_config_def example_iq_config_def)
  let ?s1 = "upd_registers (\<lambda>_. u) (example_empty_core\<lparr>sc_column_q := example_channel\<rparr>)"
  have "instruction_register_allocate example_empty_core = Inr ?s1"
    using example_empty_facts(1,5) q u(1) by (simp add: instruction_register_allocate_def fp_empty_def fp_top_def split: list.splits)
  moreover have "\<exists>s2. instruction_queue_allocate example_context (nc_core example_unit_config) ?s1 = Inr s2"
    using push u(2,3) by (simp add: instruction_queue_allocate_def RenameEmpty_def RenameTop_def RenamePop_def enter_queue_def sc_registers_def upd_registers_def
        upd_unit_def Let_def)
  ultimately show ?thesis
    using that push by (auto simp: upd_registers_def)
qed

theorem empty_phase_keeps_registers_witness:
  "\<exists>s1 s2 ctx. instruction_register_allocate example_empty_core = Inr s1 \<and>
     instruction_queue_allocate example_context (nc_core example_unit_config) s1 = Inr s2 \<and> eu_finished (sc_exec s2) = [ctx] \<and>
     length (rf_free (ru_x (sc_registers s2))) = 2 \<and> (\<forall>order u. \<exists>g. finish_one order u ctx = Inr (u\<lparr>nu_generator := g\<rparr>))"
proof -
  obtain s1 s2 where s: "instruction_register_allocate example_empty_core = Inr s1"
    "iq_can_push (sg_queue (nc_core example_unit_config)) (queue_column example_empty_column) (sc_queue s1)"
    "instruction_queue_allocate example_context (nc_core example_unit_config) s1 = Inr s2"
    by (rule example_empty_steps)
  have "eu_finished (sc_exec example_empty_core) = []"
    by (simp add: example_empty_core_def)
  then show ?thesis
    using empty_phase_keeps_registers [OF example_empty_facts(1-5) s] example_empty_facts(6) s(1,3) by auto
qed

end
