(* ===== verification/Spec2Isabelle.thy ===== *)
theory Spec2Isabelle
  imports Hashing Delay_Queue Fifo_Pipeline Latency_Queue Cache_Core Tlb Instruction_Buffer UThread_Generator
    Instruction_Queue Ndp_Unit
begin

text \<open>
  Verification of M2NDP, a cycle-level simulator of a CXL memory expander with near-data processing units.

  \<^bold>\<open>The program.\<close> A host launches kernels on the memory device. In every NDP unit (\<^verbatim>\<open>src/ndp_unit.cc\<close>) a micro-thread
  generator turns a launch over a range of memory into requests, one per packet of the range that belongs to the unit.
  The instruction buffer turns a request into a column of instructions, the register unit renames its registers, and
  the instruction queue of a sub-core fetches its instructions through an instruction cache. The execution unit
  issues an instruction when its registers are ready, executes it on the register and memory values and hands memory
  instructions to the load-store unit, which turns them into requests. Loads and stores go
  through a TLB and a data cache to the memory channels; the channel of an address comes from the configuration's bit
  masks and a hash. Delay queues, pipelines and latency queues carry requests between the parts; one step of the
  configuration's clock domains decides which parts work next.

  \<^bold>\<open>Theories and sources\<close> (paths under \<^verbatim>\<open>src/\<close>).
  \<^item> \<open>NDP_Prelude\<close>: machine integers, errors as values (\<open>res\<close>, \<open>res_bind\<close>, \<open>assert_that\<close>, \<open>res_foldl\<close>) and
    shared lemmas; \<open>Alist_Sums\<close>: sums over association lists.
  \<^item> \<open>Hashing\<close> (\<^verbatim>\<open>src/hashing.cc\<close>): linearity of the IPOLY hash over GF(2), conflict-free strides, permutations.
  \<^item> \<open>Queue_Interface\<close>: the locale \<open>fifo_contract\<close>, an abstract first-in first-out queue and the trace theorem, used by
    \<open>Delay_Queue\<close> (\<^verbatim>\<open>src/delay_queue.cc\<close>), \<open>Fifo_Pipeline\<close> (\<^verbatim>\<open>src/delayqueue.h\<close>) and \<open>Latency_Queue\<close>
    (\<^verbatim>\<open>include/latency_queue.h\<close>), each of which interprets it and adds its timing.
  \<^item> \<open>Address_Map\<close> (\<^verbatim>\<open>src/m2ndp_config.cc\<close>): address decoding, channel selection, clock domains.
  \<^item> \<open>Mem_Fetch\<close> (\<^verbatim>\<open>src/mem_fetch.cc\<close>): memory requests in a store addressed by pointers, so that aliasing is explicit.
  \<^item> \<open>Cache_Config\<close>, \<open>Cache_Block\<close>, \<open>Tag_Array\<close>, \<open>Mshr\<close>, \<open>Cache_Stats\<close>, \<open>Cache_Core\<close> (\<^verbatim>\<open>src/cache.cc\<close>, \<^verbatim>\<open>src/cache.h\<close>,
    \<^verbatim>\<open>src/cache_defs.h\<close>, \<^verbatim>\<open>src/cache_stats.cc\<close>): configuration, line and sector blocks (locale \<open>block_contract\<close>, what the
    tag array relies on), lookup and replacement, miss status registers (locale \<open>request_pool\<close>, conservation of
    requests), statistics, and the read-only and the data cache with every write policy.
  \<^item> \<open>Tlb\<close> (\<^verbatim>\<open>src/tlb.cc\<close>): the TLB in front of the memory, built on the data cache.
  \<^item> \<open>Instruction\<close> (\<^verbatim>\<open>src/ndp_instruction.h\<close>, the predicates of \<^verbatim>\<open>src/ndp_instruction.cc\<close>, \<^verbatim>\<open>src/common.h\<close>): opcodes,
    operand kinds, instructions, kernels, requests and columns.
  \<^item> \<open>Register_Unit\<close> (\<^verbatim>\<open>src/register_unit.cc\<close>): renaming, free lists, double registers, the scoreboard, register values.
  \<^item> \<open>Instruction_Buffer\<close> (\<^verbatim>\<open>src/instruction_buffer.cc\<close>), \<open>UThread_Generator\<close> (\<^verbatim>\<open>src/uthread_generator.cc\<close>),
    \<open>Instruction_Queue\<close> (\<^verbatim>\<open>src/instruction_queue.cc\<close>): the front end.
  \<^item> \<open>Vector_Data\<close> (\<^verbatim>\<open>src/vector_data.cc\<close>): vector values as cells with typed fields and the four arithmetic operators on
    them; \<open>Vector_Registers\<close> (\<^verbatim>\<open>ReadVreg\<close> and \<^verbatim>\<open>WriteVreg\<close> of \<^verbatim>\<open>src/register_unit.cc\<close>): register groups;
    \<open>Memory_Map\<close> (\<^verbatim>\<open>src/memory_map.cc\<close>): the functional memory, as a hash map and as host memory.
  \<^item> \<open>Scalar_Execution\<close>, \<open>Vector_Lanes\<close>, \<open>Vector_Execution\<close> (\<^verbatim>\<open>Execute\<close>, \<^verbatim>\<open>ExecuteScalar\<close>, \<^verbatim>\<open>ExecuteVector\<close>, \<^verbatim>\<open>ExecuteBranch\<close> of
    \<^verbatim>\<open>src/ndp_instruction.cc\<close>): the effect of every instruction on the registers, control registers and memory of its
    context, in a monad of state and errors. \<open>Scalar_Correctness\<close> compares the scalar arithmetic with words and shows the round trip of
    stored words; \<open>Vector_Correctness\<close> shows what every execution leaves alone and, with the locale \<open>lane_reduction\<close>, what
    reductions, mask searches and compressions compute.
  \<^item> \<open>Ndp_Stats\<close> (\<^verbatim>\<open>src/ndp_stats.cc\<close>): the counters of a unit and their sums.
  \<^item> \<open>Ldst_Unit\<close> (\<^verbatim>\<open>src/ldst_unit.cc\<close>): the load-store unit with its first-level cache and the way to the TLB.
  \<^item> \<open>Execution_Unit\<close> (\<^verbatim>\<open>src/execution_unit.cc\<close>): dependencies, addresses, issue and the functional units.
  \<^item> \<open>Functional_Core\<close> (the functional part of \<^verbatim>\<open>src/sub_core.cc\<close>, \<^verbatim>\<open>Run\<close> of \<^verbatim>\<open>src/ndp_unit.cc\<close>): the phases of a kernel on a
    core, the arguments of a launch in its scratchpad, and the run of a whole launch, compared with the requests of the front end.
  \<^item> \<open>Sub_Core\<close> (the timing part of \<^verbatim>\<open>src/sub_core.cc\<close>): renaming, queueing, fetching and issuing of columns.
  \<^item> \<open>Ndp_Unit\<close> (the timing part of \<^verbatim>\<open>src/ndp_unit.cc\<close>): the whole unit and its cycle. The locale \<open>step_order\<close> composes the stages of a
    cycle; the states a unit reaches are \<open>unit_reachable\<close>.

  \<^bold>\<open>How code becomes definitions.\<close> A class is a record, a member function a function from the state (and its
  arguments) to the state and the result. A failed \<^verbatim>\<open>assert\<close>, an exception and an operation with undefined behaviour
  (front of an empty deque, index out of range, an integer division by zero or with overflow, dereferencing a dead pointer) are values of the
  error type, so a theorem that concludes \<open>Inr\<close> shows that they do not happen; the release build compiles assertions
  out, which the model does not do. Integers keep their width as words where they wrap or are used as bits; counters of
  type \<^verbatim>\<open>int\<close> that only count are unbounded. \<^verbatim>\<open>std::map\<close> is an association list or a function, \<^verbatim>\<open>std::set\<close> a
  set or its sorted list. The iteration order of the hash map that the tag array keeps of its pending lines is a
  parameter with the hypothesis that it lists the entries. Log output is left out.

  \<^bold>\<open>What is shown.\<close> Conservation and invariants: physical registers are neither lost nor shared, requests in the MSHR
  and translations in the TLB are neither lost nor duplicated, the tag array keeps blocks in their sets, columns of
  one launch are in one phase, an outstanding load has one object that counts its packets; the register and phase invariants hold for
  every sub-core of a unit through all its cycles and launches. The functional simulator runs the requests the timing front end makes, and gives all
  registers back. Functional behaviour: the instructions compute what their names say (scalar arithmetic, reduction, compression), lookup and replacement, a
  miss and its answer, refusal without effect, launches cover their range, phases are issued in order. Refinement: the three queues implement an abstract
  queue. Liveness: a load whose answers have all come has
  announced its destination, once. Type safety: vector operators index no vector out of range. Round trips:
  configuration line, vector registers, vector elements, memory. Where the code does something else than it means, the
  theorem states what it does.

  \<^bold>\<open>Loops and fuel.\<close> Loops over containers are folds. The packet loop of a launch, which need not end for every
  size, is \<open>packet_addrs\<close>, a \<^theory_text>\<open>partial_function (option)\<close>, and is shown to return for the sizes the code admits.
  The instruction loop of the functional simulator (\<open>run_insts\<close>) and its packet loop (\<open>packet_loop\<close>) are partial too; they are shown to
  return for kernels whose branches go forward and ranges below four gigabytes, and not to (\<open>large_run_never_finishes\<close>) for larger ones.
  The write-back loop of a unit (\<open>drain_regs\<close>) takes the length of its queue as fuel, and every round removes an element.
  The TLB loop of the load-store unit (\<open>tlb_rounds\<close>) takes the number of ready translations as fuel, which
  \<open>tlb_rounds_enough\<close> shows to be enough.

  \<^bold>\<open>Parameters.\<close> Floating-point arithmetic, comparison and conversion (\<open>fp_ops\<close> and the fields of \<open>exec_env\<close>), the random draws of
  back invalidations (\<open>lc_draw\<close>), the rounded number of sets of a resized cache (\<open>lc_scaled_sets\<close>), the order in which a hash map lists its entries (\<open>order\<close>,
  assumed to be a permutation), the values of uninitialised fields (\<open>junk\<close>). That request ids are not reused while their packet holds
  registers is the premise \<open>fresh_columns\<close> of a cycle.

  \<^bold>\<open>Not modelled.\<close> The device (\<^verbatim>\<open>src/m2ndp.cc\<close>, \<^verbatim>\<open>src/cxl_link.cc\<close>), which composes units with the third-party DRAM and
  interconnect simulators, the adapters to these, parsers, runners and printing; third-party code under \<^verbatim>\<open>extern/\<close>.
\<close>

end
